(* ===== verification/Prelude.thy ===== *)
theory Prelude
  imports Main "HOL-Library.Word" "HOL-Library.AList"
begin

unbundle bit_operations_syntax

text \<open>
  Shared vocabulary of the development.

  \<^item> the machine types of the C++ sources as word types;
  \<^item> programs that may throw: a function from the state to a result and the new state, where the
    result is a sum (\<open>Inl\<close> is the exception). The state survives an exception, as the members of
    a C++ object do;
  \<^item> registries: an \<^verbatim>\<open>unordered_map\<close> that the code iterates over is an association list, an
    \<^verbatim>\<open>unordered_set\<close> of pointers is a list without duplicates;
  \<^item> collections of rewrite rules: \<open>prog_simps\<close> (running a program), \<open>reg_simps\<close> (registries).
\<close>

named_theorems prog_simps \<open>running a program step by step\<close>
named_theorems reg_simps \<open>registries: maps and sets of live objects\<close>

type_synonym u8 = "8 word"
type_synonym u16 = "16 word"
type_synonym u32 = "32 word"
type_synonym u64 = "64 word"
type_synonym bytes = "u8 list"
type_synonym ptr = "64 word"

section \<open>Programs with a state and exceptions\<close>

text \<open>
  The exceptions the modelled code throws: \<open>RuntimeError\<close> carries the literal part of the message
  (the text of \<^verbatim>\<open>strerror\<close> is left out); the two messages that are built from data carry
  the data. \<open>Blocked\<close> is no exception of the code: the call waits for ever, because the kernel
  never answers again.
\<close>

datatype exn = Blocked | RuntimeError string | HostError "32 word" "8 word list" | UnexpectedReply "16 word"

type_synonym ('s, 'a) prog = "'s \<Rightarrow> (exn + 'a) \<times> 's"

definition ret :: "'a \<Rightarrow> ('s, 'a) prog" where
  "ret x = (\<lambda>s. (Inr x, s))"

definition throw :: "string \<Rightarrow> ('s, 'a) prog" where
  "throw msg = (\<lambda>s. (Inl (RuntimeError msg), s))"

definition throwE :: "exn \<Rightarrow> ('s, 'a) prog" where
  "throwE e = (\<lambda>s. (Inl e, s))"

text \<open>\<^verbatim>\<open>if (!cond) throw std::runtime_error(msg);\<close>\<close>

definition require :: "bool \<Rightarrow> string \<Rightarrow> ('s, unit) prog" where
  "require cond msg = (if cond then ret () else throw msg)"

definition andThen :: "('s, 'a) prog \<Rightarrow> ('a \<Rightarrow> ('s, 'b) prog) \<Rightarrow> ('s, 'b) prog" where
  "andThen m f = (\<lambda>s. case m s of (Inl e, s') \<Rightarrow> (Inl e, s') | (Inr x, s') \<Rightarrow> f x s')"

definition liftE :: "exn + 'a \<Rightarrow> ('s, 'a) prog" where
  "liftE r = (\<lambda>s. (r, s))"

definition bindE :: "exn + 'a \<Rightarrow> ('a \<Rightarrow> exn + 'b) \<Rightarrow> exn + 'b" where
  "bindE r f = (case r of Inl e \<Rightarrow> Inl e | Inr x \<Rightarrow> f x)"

lemma ret_run [prog_simps]: "ret x s = (Inr x, s)"
  by (simp add: ret_def)

lemma throw_run [prog_simps]: "throw msg s = (Inl (RuntimeError msg), s)"
  by (simp add: throw_def)

lemma liftE_run [prog_simps]: "liftE r s = (r, s)"
  by (simp add: liftE_def)

lemma throwE_run [prog_simps]: "throwE e s = (Inl e, s)"
  by (simp add: throwE_def)

lemma require_run [prog_simps]:
  "require cond msg s = ((if cond then Inr () else Inl (RuntimeError msg)), s)"
  by (simp add: require_def ret_def throw_def)

lemma andThen_Inl [prog_simps]: "m s = (Inl e, s') \<Longrightarrow> andThen m f s = (Inl e, s')"
  by (simp add: andThen_def)

lemma andThen_Inr [prog_simps]: "m s = (Inr x, s') \<Longrightarrow> andThen m f s = f x s'"
  by (simp add: andThen_def)

lemma andThen_ret [prog_simps]: "andThen (ret x) f s = f x s"
  by (simp add: andThen_def ret_def)

lemma andThen_throw [prog_simps]: "andThen (throw msg) f s = (Inl (RuntimeError msg), s)"
  by (simp add: andThen_def throw_def)

lemma andThen_assoc: "andThen (andThen m f) g = andThen m (\<lambda>x. andThen (f x) g)"
  by (auto simp: andThen_def fun_eq_iff split: prod.splits sum.splits)

text \<open>A program returns exactly when each of its steps does.\<close>

lemma andThen_returnsE:
  assumes "andThen m f s = (Inr y, s')"
  obtains x s1 where "m s = (Inr x, s1)" and "f x s1 = (Inr y, s')"
  using assms by (auto simp: andThen_def split: prod.splits sum.splits)

lemma bindE_Inr [simp]: "bindE (Inr x) f = f x"
  by (simp add: bindE_def)

lemma bindE_Inl [simp]: "bindE (Inl e) f = Inl e"
  by (simp add: bindE_def)

lemma bindE_InrE:
  assumes "bindE r f = Inr y"
  obtains x where "r = Inr x" and "f x = Inr y"
  using assms by (auto simp: bindE_def split: sum.splits)

section \<open>Words\<close>

lemma u64_unat_less: "unat (w :: u64) < 2 ^ 64"
  using unsigned_less [of w] by (simp del: unsigned_less)

lemma u64_unat_of_nat: "i < 2 ^ 64 \<Longrightarrow> unat (word_of_nat i :: u64) = i"
  by (simp add: unat_of_nat take_bit_nat_eq_self)

lemma u64_of_nat_inject: "i < 2 ^ 64 \<Longrightarrow> j < 2 ^ 64 \<Longrightarrow> (word_of_nat i :: u64) = word_of_nat j \<Longrightarrow> i = j"
  by (metis u64_unat_of_nat)

lemma unat_ucast32: "unat (ucast (w :: u32) :: u64) = unat w"
proof -
  have "unat w < 2 ^ 64" using unsigned_less [of w, where ?'a = nat] by simp
  then show ?thesis by (simp add: unsigned_ucast_eq take_bit_nat_eq_self)
qed

lemma unat_minus_le: "b \<le> a \<Longrightarrow> unat (a - b) = unat a - unat b" for a b :: "'a::len word"
  by (rule unat_sub)

text \<open>The test \<open>pointer >= base && pointer - base <= n && size <= n - (pointer - base)\<close> of the code
  says, without overflow, that the range lies inside \<open>[base, base + n)\<close>.\<close>

lemma word_range_test:
  fixes base p n size :: "'a::len word"
  shows "p \<ge> base \<and> p - base \<le> n \<and> size \<le> n - (p - base)
    \<longleftrightarrow> unat base \<le> unat p \<and> unat p + unat size \<le> unat base + unat n"
proof -
  have 1: "p \<ge> base \<longleftrightarrow> unat base \<le> unat p"
    by (simp add: word_le_nat_alt)
  have 2: "p - base \<le> n \<longleftrightarrow> unat p - unat base \<le> unat n" if "p \<ge> base"
    using that by (simp add: word_le_nat_alt unat_sub)
  have 3: "size \<le> n - (p - base) \<longleftrightarrow> unat size \<le> unat n - (unat p - unat base)"
    if "p \<ge> base" "p - base \<le> n"
    using that by (simp add: word_le_nat_alt unat_sub)
  show ?thesis
  proof
    assume l: "p \<ge> base \<and> p - base \<le> n \<and> size \<le> n - (p - base)"
    then show "unat base \<le> unat p \<and> unat p + unat size \<le> unat base + unat n"
      using 1 2 3 by linarith
  next
    assume r: "unat base \<le> unat p \<and> unat p + unat size \<le> unat base + unat n"
    then have a: "p \<ge> base" using 1 by simp
    have b: "p - base \<le> n" using r 2 [OF a] by linarith
    have "size \<le> n - (p - base)" using r 3 [OF a b] by linarith
    with a b show "p \<ge> base \<and> p - base \<le> n \<and> size \<le> n - (p - base)" by simp
  qed
qed

section \<open>Registries\<close>

text \<open>An \<^verbatim>\<open>unordered_set\<close>: a list without duplicates; \<open>erase\<close> reports whether it removed one.\<close>

definition set_insert :: "'a \<Rightarrow> 'a list \<Rightarrow> 'a list" where
  "set_insert x xs = (if x \<in> set xs then xs else x # xs)"

definition set_erase :: "'a \<Rightarrow> 'a list \<Rightarrow> 'a list" where
  "set_erase x xs = filter (\<lambda>y. y \<noteq> x) xs"

lemma set_set_insert [reg_simps, simp]: "set (set_insert x xs) = insert x (set xs)"
  by (auto simp: set_insert_def)

lemma set_set_erase [reg_simps, simp]: "set (set_erase x xs) = set xs - {x}"
  by (auto simp: set_erase_def)

lemma distinct_set_insert [intro]: "distinct xs \<Longrightarrow> distinct (set_insert x xs)"
  by (simp add: set_insert_def)

lemma distinct_set_erase [intro]: "distinct xs \<Longrightarrow> distinct (set_erase x xs)"
  by (simp add: set_erase_def)

text \<open>An \<^verbatim>\<open>unordered_map\<close>: an association list with distinct keys.\<close>

definition map_put :: "'k \<Rightarrow> 'v \<Rightarrow> ('k \<times> 'v) list \<Rightarrow> ('k \<times> 'v) list" where
  "map_put k v m = (k, v) # AList.delete k m"

definition map_erase :: "'k \<Rightarrow> ('k \<times> 'v) list \<Rightarrow> ('k \<times> 'v) list" where
  "map_erase k m = AList.delete k m"

definition map_contains :: "'k \<Rightarrow> ('k \<times> 'v) list \<Rightarrow> bool" where
  "map_contains k m = (map_of m k \<noteq> None)"

definition map_ok :: "('k \<times> 'v) list \<Rightarrow> bool" where
  "map_ok m = distinct (map fst m)"

lemma map_of_put [reg_simps, simp]: "map_of (map_put k v m) = (map_of m)(k \<mapsto> v)"
  by (auto simp: map_put_def delete_conv fun_eq_iff)

lemma map_of_erase [reg_simps, simp]: "map_of (map_erase k m) = (map_of m)(k := None)"
  by (auto simp: map_erase_def delete_conv fun_eq_iff)

lemma map_ok_put [intro]: "map_ok m \<Longrightarrow> map_ok (map_put k v m)"
  by (simp add: map_ok_def map_put_def distinct_delete delete_notin_dom)

lemma map_ok_erase [intro]: "map_ok m \<Longrightarrow> map_ok (map_erase k m)"
  by (simp add: map_ok_def map_erase_def distinct_delete)

lemma map_ok_Nil [simp]: "map_ok []"
  by (simp add: map_ok_def)

lemma map_ok_in_set: "map_ok m \<Longrightarrow> (k, v) \<in> set m \<longleftrightarrow> map_of m k = Some v"
  by (auto simp: map_ok_def dest: map_of_SomeD)

text \<open>A loop over a map with distinct keys sees every entry once, in an order that does not matter
  for a test "does some entry satisfy \<open>P\<close>".\<close>

lemma list_ex_map_of: "map_ok m \<Longrightarrow> list_ex (\<lambda>(k, v). P k v) m \<longleftrightarrow> (\<exists>k v. map_of m k = Some v \<and> P k v)"
  by (fastforce simp: list_ex_iff map_ok_in_set)

text \<open>A number that fits a byte survives the conversion.\<close>

lemma u8_unat_of_nat: "n < 256 \<Longrightarrow> unat (word_of_nat n :: u8) = n"
  by (simp add: unat_of_nat)

section \<open>Strings\<close>

text \<open>\<^verbatim>\<open>strstr(path, text) != nullptr\<close>.\<close>

fun strstr :: "string \<Rightarrow> string \<Rightarrow> bool" where
  "strstr [] needle = (needle = [])"
| "strstr (c # cs) needle = (take (length needle) (c # cs) = needle \<or> strstr cs needle)"

text \<open>Decimal digits, as \<^verbatim>\<open>operator<<\<close> prints an unsigned integer.\<close>

fun decimal :: "nat \<Rightarrow> string" where
  "decimal n = (if n < 10 then [char_of (48 + n)] else decimal (n div 10) @ [char_of (48 + n mod 10)])"


declare decimal.simps [simp del]

end
