(* ===== verification/Wire.thy ===== *)
theory Wire
  imports Prelude
begin

text \<open>
  The wire codec of \<^verbatim>\<open>guest/src/imb_wire.hpp\<close> over the constants and structures of
  \<^verbatim>\<open>protocol/include/imb_protocol.h\<close>: little-endian integers of 16, 32 and 64 bits appended to and
  read from a byte vector, the 32-byte message header, and the version range test. The locale
  \<open>fixed_codec\<close> is the interface every fixed-width field offers; it is interpreted for the three
  integer widths and for the header.
\<close>

section \<open>Constants of the protocol\<close>

definition IMB_PROTOCOL_MAGIC :: u32 where "IMB_PROTOCOL_MAGIC = 0x31424d49"
definition IMB_PROTOCOL_VERSION_MAJOR :: u16 where "IMB_PROTOCOL_VERSION_MAJOR = 1"
definition IMB_PROTOCOL_VERSION_MINOR :: u16 where "IMB_PROTOCOL_VERSION_MINOR = 22"
definition IMB_PROTOCOL_HEADER_SIZE :: nat where "IMB_PROTOCOL_HEADER_SIZE = 32"
definition IMB_PROTOCOL_MAX_PAYLOAD :: u32 where "IMB_PROTOCOL_MAX_PAYLOAD = 16777216"

lemmas imb_protocol_constants = IMB_PROTOCOL_MAGIC_def IMB_PROTOCOL_VERSION_MAJOR_def
  IMB_PROTOCOL_VERSION_MINOR_def IMB_PROTOCOL_HEADER_SIZE_def IMB_PROTOCOL_MAX_PAYLOAD_def

datatype imb_message_type =
    IMB_MSG_HELLO | IMB_MSG_HELLO_REPLY | IMB_MSG_QUERY_CAPABILITIES | IMB_MSG_CAPABILITIES_REPLY
  | IMB_MSG_PING | IMB_MSG_PONG | IMB_MSG_CREATE_RESOURCE | IMB_MSG_DESTROY_RESOURCE
  | IMB_MSG_SUBMIT_COMMAND | IMB_MSG_WAIT_FENCE | IMB_MSG_ERROR | IMB_MSG_SHUTDOWN
  | IMB_MSG_WRITE_RESOURCE | IMB_MSG_READ_RESOURCE | IMB_MSG_CREATE_COMPUTE_PIPELINE
  | IMB_MSG_CREATE_ACCELERATION_STRUCTURE | IMB_MSG_BUILD_PRIMITIVE_ACCELERATION_STRUCTURE
  | IMB_MSG_BUILD_INSTANCE_ACCELERATION_STRUCTURE | IMB_MSG_QUERY_SPARSE_IMAGE_PROPERTIES
  | IMB_MSG_UPDATE_SPARSE_IMAGE_MAPPING

fun message_code :: "imb_message_type \<Rightarrow> u16" where
  "message_code IMB_MSG_HELLO = 1"
| "message_code IMB_MSG_HELLO_REPLY = 2"
| "message_code IMB_MSG_QUERY_CAPABILITIES = 3"
| "message_code IMB_MSG_CAPABILITIES_REPLY = 4"
| "message_code IMB_MSG_PING = 5"
| "message_code IMB_MSG_PONG = 6"
| "message_code IMB_MSG_CREATE_RESOURCE = 7"
| "message_code IMB_MSG_DESTROY_RESOURCE = 8"
| "message_code IMB_MSG_SUBMIT_COMMAND = 9"
| "message_code IMB_MSG_WAIT_FENCE = 10"
| "message_code IMB_MSG_ERROR = 11"
| "message_code IMB_MSG_SHUTDOWN = 12"
| "message_code IMB_MSG_WRITE_RESOURCE = 13"
| "message_code IMB_MSG_READ_RESOURCE = 14"
| "message_code IMB_MSG_CREATE_COMPUTE_PIPELINE = 15"
| "message_code IMB_MSG_CREATE_ACCELERATION_STRUCTURE = 16"
| "message_code IMB_MSG_BUILD_PRIMITIVE_ACCELERATION_STRUCTURE = 17"
| "message_code IMB_MSG_BUILD_INSTANCE_ACCELERATION_STRUCTURE = 18"
| "message_code IMB_MSG_QUERY_SPARSE_IMAGE_PROPERTIES = 19"
| "message_code IMB_MSG_UPDATE_SPARSE_IMAGE_MAPPING = 20"

definition IMB_FLAG_NONE :: u16 where "IMB_FLAG_NONE = 0"
definition IMB_FLAG_RESPONSE :: u16 where "IMB_FLAG_RESPONSE = 1"

section \<open>Little-endian integers\<close>

text \<open>\<^verbatim>\<open>sizeof(T)\<close> of the unsigned integer type \<open>'a word\<close>.\<close>

definition sizeof :: "'a::len word itself \<Rightarrow> nat" where
  "sizeof _ = LENGTH('a) div 8"

lemma sizeof_words [simp]:
  "sizeof TYPE(16 word) = 2" "sizeof TYPE(32 word) = 4" "sizeof TYPE(64 word) = 8"
  by (simp_all add: sizeof_def)

definition appendLittleEndian :: "bytes \<Rightarrow> 'a::len word \<Rightarrow> bytes" where
  "appendLittleEndian output value =
     fold (\<lambda>i out. out @ [ucast (drop_bit (i * 8) value AND 0xff)])
       [0..<sizeof TYPE('a word)] output"

definition readLittleEndian :: "bytes \<Rightarrow> nat \<Rightarrow> exn + 'a::len word" where
  "readLittleEndian input offset =
     (if offset > length input \<or> sizeof TYPE('a word) > length input - offset
      then Inl (RuntimeError ''integer exceeds payload boundary'')
      else Inr (fold (\<lambda>i result. result OR push_bit (i * 8) (ucast (input ! (offset + i))))
        [0..<sizeof TYPE('a word)] 0))"

text \<open>The bytes of one integer, without the buffer they are appended to.\<close>

definition le_bytes :: "'a::len word \<Rightarrow> bytes" where
  "le_bytes value = map (\<lambda>i. ucast (drop_bit (i * 8) value)) [0..<sizeof TYPE('a word)]"

lemma length_le_bytes [simp]: "length (le_bytes (v :: 'a::len word)) = sizeof TYPE('a word)"
  by (simp add: le_bytes_def)

lemma ucast_and_ff: "(ucast (x AND 0xff) :: u8) = ucast (x :: 'a::len word)"
proof (rule bit_word_eqI)
  fix n assume n: "n < LENGTH(8)"
  have "bit (0xff :: 'a word) n" if "n < LENGTH('a)"
    using n that by (cases "n = 0 \<or> n = 1 \<or> n = 2 \<or> n = 3 \<or> n = 4 \<or> n = 5 \<or> n = 6 \<or> n = 7")
      (auto simp: bit_numeral_word_iff [where ?'a = 'a] simp flip: bit_numeral_word_iff)
  then show "bit (ucast (x AND 0xff) :: u8) n = bit (ucast x :: u8) n"
    using n by (auto simp: bit_ucast_iff bit_and_iff dest: bit_imp_le_length)
qed

lemma appendLittleEndian_eq: "appendLittleEndian out v = out @ le_bytes v"
proof -
  have "fold (\<lambda>i out. out @ [ucast (drop_bit (i * 8) v AND 0xff)]) is out
      = out @ map (\<lambda>i. ucast (drop_bit (i * 8) v)) is" for "is" and out :: bytes
    by (induction "is" arbitrary: out) (simp_all add: ucast_and_ff)
  then show ?thesis by (simp add: appendLittleEndian_def le_bytes_def)
qed

lemma fold_append_length:
  "length (fold (\<lambda>v out. out @ le_bytes v) vs out) = length out + sizeof TYPE('a::len word) * length (vs :: 'a word list)"
  by (induction vs arbitrary: out) (simp_all add: appendLittleEndian_eq)

text \<open>The loop of \<open>readLittleEndian\<close> sets bit \<open>k\<close> from bit \<open>k mod 8\<close> of byte \<open>k div 8\<close>.\<close>

definition le_word :: "(nat \<Rightarrow> u8) \<Rightarrow> nat \<Rightarrow> 'a::len word" where
  "le_word f n = fold (\<lambda>i r. r OR push_bit (i * 8) (ucast (f i))) [0..<n] 0"

lemma bit_le_word:
  "bit (le_word f n :: 'a::len word) k \<longleftrightarrow> k < LENGTH('a) \<and> k div 8 < n \<and> bit (f (k div 8)) (k mod 8)"
proof (induction n)
  case 0
  show ?case by (simp add: le_word_def)
next
  case (Suc n)
  have step: "le_word f (Suc n) = (le_word f n :: 'a word) OR push_bit (n * 8) (ucast (f n))"
    by (simp add: le_word_def)
  have byte: "n * 8 \<le> k \<and> bit (f n) (k - n * 8) \<longleftrightarrow> k div 8 = n \<and> bit (f n) (k mod 8)"
  proof
    assume l: "n * 8 \<le> k \<and> bit (f n) (k - n * 8)"
    then have "k - n * 8 < 8" using bit_imp_le_length [of "f n" "k - n * 8"] by simp
    with l show "k div 8 = n \<and> bit (f n) (k mod 8)"
      by (metis Nat.le_imp_diff_is_add add.commute div_less div_mult_self2 mod_less mod_mult_self2
          plus_nat.add_0 zero_neq_numeral mult.commute)
  next
    assume r: "k div 8 = n \<and> bit (f n) (k mod 8)"
    then have "k = n * 8 + k mod 8" by (metis div_mult_mod_eq)
    with r show "n * 8 \<le> k \<and> bit (f n) (k - n * 8)" by (metis add_diff_cancel_left' le_add1)
  qed
  have "bit (le_word f (Suc n) :: 'a word) k
      \<longleftrightarrow> bit (le_word f n :: 'a word) k \<or> (k < LENGTH('a) \<and> n * 8 \<le> k \<and> bit (f n) (k - n * 8))"
    by (auto simp: step bit_or_iff bit_push_bit_iff bit_ucast_iff)
  also have "\<dots> \<longleftrightarrow> k < LENGTH('a) \<and> k div 8 < Suc n \<and> bit (f (k div 8)) (k mod 8)"
    unfolding Suc.IH using byte by (auto simp: less_Suc_eq)
  finally show ?case .
qed

lemma readLittleEndian_eq:
  "readLittleEndian input offset =
     (if offset + sizeof TYPE('a::len word) \<le> length input
      then Inr (le_word (\<lambda>i. input ! (offset + i)) (sizeof TYPE('a word)) :: 'a word)
      else Inl (RuntimeError ''integer exceeds payload boundary''))"
  by (auto simp: readLittleEndian_def le_word_def)

lemma le_word_le_bytes:
  assumes "8 dvd LENGTH('a::len)"
  shows "le_word (\<lambda>i. le_bytes v ! i) (sizeof TYPE('a word)) = (v :: 'a word)"
proof (rule bit_word_eqI)
  fix k assume k: "k < LENGTH('a)"
  then have d: "k div 8 < sizeof TYPE('a word)"
    using assms by (auto simp: sizeof_def elim!: dvdE)
  have "bit (le_bytes v ! (k div 8)) (k mod 8) \<longleftrightarrow> bit v (k div 8 * 8 + k mod 8)"
    using d by (simp add: le_bytes_def bit_ucast_iff bit_drop_bit_eq)
  then show "bit (le_word (\<lambda>i. le_bytes v ! i) (sizeof TYPE('a word)) :: 'a word) k = bit v k"
    using k d by (simp add: bit_le_word)
qed

lemma le_bytes_le_word:
  assumes "8 dvd LENGTH('a::len)" and "length bs = sizeof TYPE('a word)"
  shows "le_bytes (le_word (\<lambda>i. bs ! i) (sizeof TYPE('a word)) :: 'a word) = bs"
proof (rule nth_equalityI)
  show "length (le_bytes (le_word (\<lambda>i. bs ! i) (sizeof TYPE('a word)) :: 'a word)) = length bs"
    using assms by simp
next
  fix i assume "i < length (le_bytes (le_word (\<lambda>i. bs ! i) (sizeof TYPE('a word)) :: 'a word))"
  then have i: "i < sizeof TYPE('a word)" by simp
  show "le_bytes (le_word (\<lambda>i. bs ! i) (sizeof TYPE('a word)) :: 'a word) ! i = bs ! i"
  proof (rule bit_word_eqI)
    fix k assume k: "k < LENGTH(8)"
    have len: "i * 8 + k < LENGTH('a)"
      using i k assms(1) by (auto simp: sizeof_def elim!: dvdE)
    have dm: "(i * 8 + k) div 8 = i" "(i * 8 + k) mod 8 = k" using k by simp_all
    show "bit (le_bytes (le_word (\<lambda>i. bs ! i) (sizeof TYPE('a word)) :: 'a word) ! i) k = bit (bs ! i) k"
      using i k len dm by (simp add: le_bytes_def bit_ucast_iff bit_drop_bit_eq bit_le_word)
  qed
qed

section \<open>The interface of a fixed-width field\<close>

text \<open>
  A field of a payload: an encoder of constant width and a decoder that reads it at an offset. The
  laws: the encoding has the width, decoding at the position of an encoding gives the value back,
  a successful decoding names the bytes it read, and a decoding fails exactly when the field runs
  past the end of the buffer.
\<close>

locale fixed_codec =
  fixes enc :: "'v \<Rightarrow> bytes"
    and dec :: "bytes \<Rightarrow> nat \<Rightarrow> exn + 'v"
    and width :: nat
  assumes length_enc: "length (enc v) = width"
    and dec_enc: "dec (pre @ enc v @ post) (length pre) = Inr v"
    and enc_dec: "dec buf off = Inr v \<Longrightarrow> take width (drop off buf) = enc v"
    and dec_fails: "(\<exists>v. dec buf off = Inr v) \<longleftrightarrow> off + width \<le> length buf"
begin

lemma dec_at: "length pre = off \<Longrightarrow> dec (pre @ enc v @ post) off = Inr v"
  using dec_enc by blast

lemma dec_head: "dec (enc v @ post) 0 = Inr v"
  using dec_enc [of "[]"] by simp

lemma enc_inj: "enc v = enc w \<Longrightarrow> v = w"
  by (metis dec_head sum.inject(2))

lemma dec_returns: "off + width \<le> length buf \<Longrightarrow> \<exists>v. dec buf off = Inr v"
  using dec_fails by blast

lemma dec_in_bounds: "dec buf off = Inr v \<Longrightarrow> off + width \<le> length buf"
  using dec_fails by blast

text \<open>The decoder only looks at the field's own bytes.\<close>

lemma dec_local:
  assumes "take width (drop off buf) = take width (drop off buf')" "dec buf off = Inr v"
    "length buf = length buf'"
  shows "dec buf' off = Inr v"
proof -
  have b: "off + width \<le> length buf'" using dec_in_bounds [OF assms(2)] assms(3) by simp
  then obtain w where w: "dec buf' off = Inr w" using dec_returns by blast
  have "enc w = enc v" using enc_dec [OF w] enc_dec [OF assms(2)] assms(1) by simp
  then show ?thesis using w enc_inj by blast
qed

end

lemma word_codec:
  assumes "8 dvd LENGTH('a::len)"
  shows "fixed_codec (le_bytes :: 'a word \<Rightarrow> bytes) readLittleEndian (sizeof TYPE('a word))"
proof
  fix v :: "'a word" and pre post :: bytes
  have "le_word (\<lambda>i. (pre @ le_bytes v @ post) ! (length pre + i)) (sizeof TYPE('a word))
      = (le_word (\<lambda>i. le_bytes v ! i) (sizeof TYPE('a word)) :: 'a word)"
    unfolding le_word_def by (rule fold_cong) (auto simp: nth_append)
  then show "readLittleEndian (pre @ le_bytes v @ post) (length pre) = Inr v"
    using assms by (simp add: readLittleEndian_eq le_word_le_bytes)
next
  fix buf :: bytes and off and v :: "'a word"
  assume r: "readLittleEndian buf off = Inr v"
  then have b: "off + sizeof TYPE('a word) \<le> length buf"
    and v: "v = le_word (\<lambda>i. buf ! (off + i)) (sizeof TYPE('a word))"
    by (auto simp: readLittleEndian_eq split: if_splits)
  let ?bs = "take (sizeof TYPE('a word)) (drop off buf)"
  have "v = le_word (\<lambda>i. ?bs ! i) (sizeof TYPE('a word))"
    unfolding v le_word_def by (rule fold_cong) (use b in auto)
  then show "?bs = le_bytes v"
    using le_bytes_le_word [OF assms, of ?bs] b by simp
qed (auto simp: readLittleEndian_eq)

interpretation u16: fixed_codec "le_bytes :: u16 \<Rightarrow> bytes" readLittleEndian 2
  using word_codec [where 'a = 16] by simp

interpretation u32: fixed_codec "le_bytes :: u32 \<Rightarrow> bytes" readLittleEndian 4
  using word_codec [where 'a = 32] by simp

interpretation u64: fixed_codec "le_bytes :: u64 \<Rightarrow> bytes" readLittleEndian 8
  using word_codec [where 'a = 64] by simp


text \<open>Reading a field out of a concatenation: skip the fields before it.\<close>

named_theorems wire_simps \<open>reading a payload field by field\<close>

lemma readLittleEndian_skip [wire_simps]:
  assumes "length pre \<le> off"
  shows "(readLittleEndian (pre @ rest) off :: exn + 'a::len word)
    = readLittleEndian rest (off - length pre)"
proof -
  have "le_word (\<lambda>i. (pre @ rest) ! (off + i)) n = (le_word (\<lambda>i. rest ! (off - length pre + i)) n :: 'a word)" for n
    unfolding le_word_def by (rule fold_cong) (use assms in \<open>auto simp: nth_append\<close>)
  then show ?thesis using assms by (auto simp: readLittleEndian_eq)
qed

lemmas readLittleEndian_head [wire_simps] = u16.dec_head u32.dec_head u64.dec_head
  u16.dec_head [where post = "[]", simplified] u32.dec_head [where post = "[]", simplified]
  u64.dec_head [where post = "[]", simplified]

section \<open>The message header\<close>

record imb_message_header =
  magic :: u32
  version_major :: u16
  version_minor :: u16
  message_type :: u16
  flags :: u16
  payload_length :: u32
  request_id :: u64
  resource_id :: u64

definition encodeHeader :: "imb_message_header \<Rightarrow> bytes" where
  "encodeHeader header =
     (let output = [];
          output = appendLittleEndian output (magic header);
          output = appendLittleEndian output (version_major header);
          output = appendLittleEndian output (version_minor header);
          output = appendLittleEndian output (message_type header);
          output = appendLittleEndian output (flags header);
          output = appendLittleEndian output (payload_length header);
          output = appendLittleEndian output (request_id header);
          output = appendLittleEndian output (resource_id header)
      in output)"

definition decodeHeader :: "bytes \<Rightarrow> exn + imb_message_header" where
  "decodeHeader input =
     (if length input \<noteq> IMB_PROTOCOL_HEADER_SIZE
      then Inl (RuntimeError ''IMB header must be 32 bytes'')
      else
        bindE (readLittleEndian input 0) (\<lambda>mg.
        bindE (readLittleEndian input 4) (\<lambda>major.
        bindE (readLittleEndian input 6) (\<lambda>minor.
        bindE (readLittleEndian input 8) (\<lambda>type.
        bindE (readLittleEndian input 10) (\<lambda>fl.
        bindE (readLittleEndian input 12) (\<lambda>len.
        bindE (readLittleEndian input 16) (\<lambda>req.
        bindE (readLittleEndian input 24) (\<lambda>res.
          Inr \<lparr>magic = mg, version_major = major, version_minor = minor, message_type = type,
               flags = fl, payload_length = len, request_id = req, resource_id = res\<rparr>)))))))))"

definition versionRangeIncludes :: "u16 \<Rightarrow> u16 \<Rightarrow> u16 \<Rightarrow> u16 \<Rightarrow> u16 \<Rightarrow> u16 \<Rightarrow> bool" where
  "versionRangeIncludes minMajor minMinor maxMajor maxMinor major minor =
     (let aboveMinimum = minMajor < major \<or> (minMajor = major \<and> minMinor \<le> minor);
          belowMaximum = maxMajor > major \<or> (maxMajor = major \<and> maxMinor \<ge> minor)
      in aboveMinimum \<and> belowMaximum)"

lemma encodeHeader_eq:
  "encodeHeader h = le_bytes (magic h) @ le_bytes (version_major h) @ le_bytes (version_minor h)
     @ le_bytes (message_type h) @ le_bytes (flags h) @ le_bytes (payload_length h)
     @ le_bytes (request_id h) @ le_bytes (resource_id h)"
  by (simp add: encodeHeader_def appendLittleEndian_eq)

lemma length_encodeHeader [simp]: "length (encodeHeader h) = 32"
  by (simp add: encodeHeader_eq)

lemma decode_encodeHeader [simp]: "decodeHeader (encodeHeader h) = Inr h"
proof -
  have len: "length (encodeHeader h) = IMB_PROTOCOL_HEADER_SIZE"
    by (simp add: IMB_PROTOCOL_HEADER_SIZE_def)
  show ?thesis
    unfolding decodeHeader_def using len by (simp add: encodeHeader_eq wire_simps)
qed

lemma take_split: "take (m + n) (drop k xs) = take m (drop k xs) @ take n (drop (k + m) xs)"
  by (simp add: take_add add.commute)

lemma encode_decodeHeader: "decodeHeader bs = Inr h \<Longrightarrow> encodeHeader h = bs"
proof -
  assume d: "decodeHeader bs = Inr h"
  then have len: "length bs = 32"
    by (auto simp: decodeHeader_def IMB_PROTOCOL_HEADER_SIZE_def split: if_splits)
  have fields: "take 4 (drop 0 bs) = le_bytes (magic h)" "take 2 (drop 4 bs) = le_bytes (version_major h)"
    "take 2 (drop 6 bs) = le_bytes (version_minor h)" "take 2 (drop 8 bs) = le_bytes (message_type h)"
    "take 2 (drop 10 bs) = le_bytes (flags h)" "take 4 (drop 12 bs) = le_bytes (payload_length h)"
    "take 8 (drop 16 bs) = le_bytes (request_id h)" "take 8 (drop 24 bs) = le_bytes (resource_id h)"
    using d len
    by (auto simp: decodeHeader_def IMB_PROTOCOL_HEADER_SIZE_def elim!: bindE_InrE
        dest!: u16.enc_dec u32.enc_dec u64.enc_dec)
  have "bs = take (4 + (2 + (2 + (2 + (2 + (4 + (8 + 8))))))) (drop 0 bs)"
    using len by simp
  also have "\<dots> = encodeHeader h"
    unfolding take_split by (simp add: encodeHeader_eq fields [simplified])
  finally show ?thesis by simp
qed

lemma decodeHeader_returns: "(\<exists>h. decodeHeader bs = Inr h) \<longleftrightarrow> length bs = 32"
proof
  assume "\<exists>h. decodeHeader bs = Inr h"
  then show "length bs = 32"
    by (auto simp: decodeHeader_def IMB_PROTOCOL_HEADER_SIZE_def split: if_splits)
next
  assume len: "length bs = 32"
  obtain a where a: "(readLittleEndian bs 0 :: exn + u32) = Inr a" using u32.dec_returns [of 0 bs] len by auto
  obtain b where b: "(readLittleEndian bs 4 :: exn + u16) = Inr b" using u16.dec_returns [of 4 bs] len by auto
  obtain c where c: "(readLittleEndian bs 6 :: exn + u16) = Inr c" using u16.dec_returns [of 6 bs] len by auto
  obtain d where d: "(readLittleEndian bs 8 :: exn + u16) = Inr d" using u16.dec_returns [of 8 bs] len by auto
  obtain e where e: "(readLittleEndian bs 10 :: exn + u16) = Inr e" using u16.dec_returns [of 10 bs] len by auto
  obtain f where f: "(readLittleEndian bs 12 :: exn + u32) = Inr f" using u32.dec_returns [of 12 bs] len by auto
  obtain g where g: "(readLittleEndian bs 16 :: exn + u64) = Inr g" using u64.dec_returns [of 16 bs] len by auto
  obtain h where h: "(readLittleEndian bs 24 :: exn + u64) = Inr h" using u64.dec_returns [of 24 bs] len by auto
  show "\<exists>h. decodeHeader bs = Inr h"
    by (simp add: decodeHeader_def IMB_PROTOCOL_HEADER_SIZE_def len a b c d e f g h)
qed

interpretation header: fixed_codec encodeHeader "\<lambda>buf off. decodeHeader (take 32 (drop off buf))" 32
  by unfold_locales (auto simp: decodeHeader_returns dest: encode_decodeHeader)

end
