(* ===== verification/Transport.thy ===== *)
theory Transport
  imports Wire
begin

text \<open>
  The byte transports of the guest: the virtual class \<^verbatim>\<open>Transport\<close> of \<^verbatim>\<open>guest/src/main.cpp\<close>
  with its three implementations, and the socket loops of \<^verbatim>\<open>BridgeConnection\<close> in the Vulkan
  driver. Each is a loop over \<^verbatim>\<open>write\<close> or \<^verbatim>\<open>read\<close> that retries after \<^verbatim>\<open>EINTR\<close>
  and throws on every other failure.

  The kernel's answers are data: a channel holds the bytes the peer has been sent and the scripts of
  the answers the following \<^verbatim>\<open>write\<close> and \<^verbatim>\<open>read\<close> calls will get. A segment
  longer than a \<^verbatim>\<open>read\<close> asked for stays in front of the script, and so does room of the
  socket's buffer that a \<^verbatim>\<open>write\<close> did not need; the empty segment is the end of the
  stream. When a script is used up the call blocks.
\<close>

datatype write_answer = Accepted nat | WriteIntr | WriteError
datatype read_answer = Segment bytes | ReadIntr | ReadError

record channel =
  sent :: bytes
  writes :: "write_answer list"
  reads :: "read_answer list"

section \<open>The loops\<close>

text \<open>The write loop, from offset \<open>offset\<close> of \<open>data\<close>; the third component is what the peer got.\<close>

function writeLoop :: "string \<Rightarrow> write_answer list \<Rightarrow> bytes \<Rightarrow> nat \<Rightarrow> (exn + unit) \<times> write_answer list \<times> bytes" where
  "writeLoop msg ws data offset =
     (if \<not> offset < length data then (Inr (), ws, [])
      else case ws of
        [] \<Rightarrow> (Inl Blocked, [], [])
      | WriteIntr # ws' \<Rightarrow> writeLoop msg ws' data offset
      | WriteError # ws' \<Rightarrow> (Inl (RuntimeError msg), ws', [])
      | Accepted n # ws' \<Rightarrow>
          (let written = min n (length data - offset);
               rest = (if written < n then Accepted (n - written) # ws' else ws') in
           if written = 0 then (Inl (RuntimeError msg), ws', [])
           else case writeLoop msg rest data (offset + written) of
             (r, ws'', out) \<Rightarrow> (r, ws'', take written (drop offset data) @ out)))"
  by pat_completeness auto
termination
  by (relation "measures [\<lambda>(msg, ws, data, offset). length data - offset,
      \<lambda>(msg, ws, data, offset). length ws]") auto

declare writeLoop.simps [simp del]

text \<open>The read loop: \<open>data\<close> is what has been read so far, \<open>sz\<close> the bytes asked for.\<close>

function readLoop :: "string \<Rightarrow> string \<Rightarrow> read_answer list \<Rightarrow> nat \<Rightarrow> bytes \<Rightarrow> (exn + bytes) \<times> read_answer list" where
  "readLoop msg closed rs sz data =
     (if \<not> length data < sz then (Inr data, rs)
      else case rs of
        [] \<Rightarrow> (Inl Blocked, [])
      | ReadIntr # rs' \<Rightarrow> readLoop msg closed rs' sz data
      | ReadError # rs' \<Rightarrow> (Inl (RuntimeError msg), rs')
      | Segment bs # rs' \<Rightarrow>
          (let count = min (length bs) (sz - length data);
               rest = (if count < length bs then Segment (drop count bs) # rs' else rs') in
           if count = 0 then (Inl (RuntimeError closed), rs')
           else readLoop msg closed rest sz (data @ take count bs)))"
  by pat_completeness auto
termination
  by (relation "measures [\<lambda>(msg, closed, rs, sz, data). sz - length data,
      \<lambda>(msg, closed, rs, sz, data). length rs]") auto

declare readLoop.simps [simp del]

definition writeAll_on :: "string \<Rightarrow> bytes \<Rightarrow> (channel, unit) prog" where
  "writeAll_on msg data = (\<lambda>c. case writeLoop msg (writes c) data 0 of
     (r, ws, out) \<Rightarrow> (r, c\<lparr>sent := sent c @ out, writes := ws\<rparr>))"

definition readAll_on :: "string \<Rightarrow> string \<Rightarrow> nat \<Rightarrow> (channel, bytes) prog" where
  "readAll_on msg closed sz = (\<lambda>c. case readLoop msg closed (reads c) sz [] of
     (r, rs) \<Rightarrow> (r, c\<lparr>reads := rs\<rparr>))"

section \<open>The classes\<close>

text \<open>The virtual class: its two operations. A call through it is a call of the field.\<close>

record transport =
  writeAll :: "bytes \<Rightarrow> (channel, unit) prog"
  readAll :: "nat \<Rightarrow> (channel, bytes) prog"

definition FileDescriptorTransport :: transport where
  "FileDescriptorTransport = \<lparr>
     writeAll = writeAll_on ''transport write failed: '',
     readAll = readAll_on ''transport read failed: '' ''host closed the protocol stream''\<rparr>"

definition VsockListenerTransport :: transport where
  "VsockListenerTransport = \<lparr>
     writeAll = writeAll_on ''vsock write failed: '',
     readAll = readAll_on ''vsock read failed: '' ''host closed the vsock protocol stream''\<rparr>"

definition ChildProcessTransport :: transport where
  "ChildProcessTransport = \<lparr>
     writeAll = writeAll_on ''host pipe write failed: '',
     readAll = readAll_on ''host pipe read failed: '' ''host process closed the protocol stream''\<rparr>"

definition BridgeSocket :: transport where
  "BridgeSocket = \<lparr>
     writeAll = writeAll_on ''vsock write failed: '',
     readAll = readAll_on ''vsock read failed: '' ''host closed the IMB stream''\<rparr>"

section \<open>What the loops do\<close>

text \<open>The bytes a script still delivers, and scripts without an error or an end of stream.\<close>

fun incoming :: "read_answer list \<Rightarrow> bytes" where
  "incoming [] = []"
| "incoming (Segment bs # rs) = bs @ incoming rs"
| "incoming (_ # rs) = incoming rs"

fun clean_reads :: "read_answer list \<Rightarrow> bool" where
  "clean_reads [] = True"
| "clean_reads (Segment bs # rs) = (bs \<noteq> [] \<and> clean_reads rs)"
| "clean_reads (ReadIntr # rs) = clean_reads rs"
| "clean_reads (ReadError # rs) = False"

fun capacity :: "write_answer list \<Rightarrow> nat" where
  "capacity [] = 0"
| "capacity (Accepted n # ws) = n + capacity ws"
| "capacity (_ # ws) = capacity ws"

fun clean_writes :: "write_answer list \<Rightarrow> bool" where
  "clean_writes [] = True"
| "clean_writes (Accepted n # ws) = (n \<noteq> 0 \<and> clean_writes ws)"
| "clean_writes (WriteIntr # ws) = clean_writes ws"
| "clean_writes (WriteError # ws) = False"

lemma writeLoop_cases [simp]:
  "\<not> off < length data \<Longrightarrow> writeLoop msg ws data off = (Inr (), ws, [])"
  "off < length data \<Longrightarrow> writeLoop msg [] data off = (Inl Blocked, [], [])"
  "off < length data \<Longrightarrow> writeLoop msg (WriteIntr # ws) data off = writeLoop msg ws data off"
  "off < length data \<Longrightarrow> writeLoop msg (WriteError # ws) data off = (Inl (RuntimeError msg), ws, [])"
  "off < length data \<Longrightarrow> writeLoop msg (Accepted 0 # ws) data off = (Inl (RuntimeError msg), ws, [])"
  "off < length data \<Longrightarrow> n \<noteq> 0 \<Longrightarrow> off + n \<le> length data \<Longrightarrow> writeLoop msg (Accepted n # ws) data off =
     (case writeLoop msg ws data (off + n) of (r, ws', out) \<Rightarrow> (r, ws', take n (drop off data) @ out))"
  "off < length data \<Longrightarrow> length data < off + n \<Longrightarrow> writeLoop msg (Accepted n # ws) data off =
     (Inr (), Accepted (n - (length data - off)) # ws, drop off data)"
  by (auto simp: writeLoop.simps [of msg _ data off] writeLoop.simps [of msg _ data "length data"]
      Let_def min_def split: prod.splits)

lemma readLoop_cases [simp]:
  "\<not> length data < sz \<Longrightarrow> readLoop msg closed rs sz data = (Inr data, rs)"
  "length data < sz \<Longrightarrow> readLoop msg closed [] sz data = (Inl Blocked, [])"
  "length data < sz \<Longrightarrow> readLoop msg closed (ReadIntr # rs) sz data = readLoop msg closed rs sz data"
  "length data < sz \<Longrightarrow> readLoop msg closed (ReadError # rs) sz data = (Inl (RuntimeError msg), rs)"
  "length data < sz \<Longrightarrow> readLoop msg closed (Segment [] # rs) sz data = (Inl (RuntimeError closed), rs)"
  "length data < sz \<Longrightarrow> bs \<noteq> [] \<Longrightarrow> length data + length bs \<le> sz \<Longrightarrow>
     readLoop msg closed (Segment bs # rs) sz data = readLoop msg closed rs sz (data @ bs)"
  "length data < sz \<Longrightarrow> sz < length data + length bs \<Longrightarrow>
     readLoop msg closed (Segment bs # rs) sz data =
       (Inr (data @ take (sz - length data) bs), Segment (drop (sz - length data) bs) # rs)"
  by (auto simp: readLoop.simps [of msg closed _ sz data] readLoop.simps [of msg closed _ sz "data @ take _ bs"]
      Let_def min_def)

text \<open>What reaches the peer is a prefix of the data, and all of it when the call returns.\<close>

lemma writeLoop_out:
  "writeLoop msg ws data off = (r, ws', out) \<Longrightarrow>
    (\<exists>n. out = take n (drop off data)) \<and> (r = Inr () \<longrightarrow> out = drop off data)
    \<and> (clean_writes ws \<longrightarrow> clean_writes ws')"
proof (induction ws arbitrary: off r ws' out)
  case Nil
  then show ?case by (cases "off < length data") (auto intro: exI [of _ 0])
next
  case (Cons a ws)
  show ?case
  proof (cases "off < length data \<and> (\<exists>n. a = Accepted n \<and> n \<noteq> 0 \<and> off + n \<le> length data)")
    case False
    then show ?thesis
      using Cons.prems Cons.IH by (cases "off < length data"; cases a; cases "a = Accepted 0")
        (auto intro: exI [of _ 0] exI [of _ "length data"])
  next
    case True
    then obtain n where a: "a = Accepted n" "n \<noteq> 0" "off + n \<le> length data" "off < length data" by blast
    then obtain out1 where rec: "writeLoop msg ws data (off + n) = (r, ws', out1)"
      and out: "out = take n (drop off data) @ out1"
      using Cons.prems by (auto split: prod.splits)
    from Cons.IH [OF rec] obtain k where k: "out1 = take k (drop (off + n) data)"
      "r = Inr () \<longrightarrow> out1 = drop (off + n) data" "clean_writes ws \<longrightarrow> clean_writes ws'" by blast
    have d: "drop (off + n) data = drop n (drop off data)" by (simp add: add.commute)
    have "out = take (n + k) (drop off data)" using out k(1) d by (simp add: take_add)
    moreover have "r = Inr () \<longrightarrow> out = drop off data"
      using out k(2) d by (metis append_take_drop_id)
    moreover have "clean_writes (a # ws) \<longrightarrow> clean_writes ws'" using k(3) a(1) by simp
    ultimately show ?thesis by blast
  qed
qed

text \<open>A script without failures and with room for the rest of the data lets the call return.\<close>

lemma writeLoop_returns:
  "clean_writes ws \<Longrightarrow> off \<le> length data \<Longrightarrow> length data \<le> off + capacity ws \<Longrightarrow>
    \<exists>ws'. writeLoop msg ws data off = (Inr (), ws', drop off data) \<and> clean_writes ws'
      \<and> capacity ws' + length data = off + capacity ws"
proof (induction ws arbitrary: off)
  case Nil
  then show ?case by simp
next
  case (Cons a ws)
  show ?case
  proof (cases "off < length data")
    case False
    then show ?thesis using Cons.prems by simp
  next
    case lt: True
    show ?thesis
    proof (cases a)
      case (Accepted n)
      show ?thesis
      proof (cases "off + n \<le> length data")
        case False
        then show ?thesis using Cons.prems lt Accepted by simp
      next
        case True
        have n: "n \<noteq> 0" "clean_writes ws" "length data \<le> off + n + capacity ws"
          using Cons.prems Accepted by auto
        from Cons.IH [OF n(2) True n(3)] obtain ws' where
          "writeLoop msg ws data (off + n) = (Inr (), ws', drop (off + n) data)" "clean_writes ws'"
          "capacity ws' + length data = off + n + capacity ws" using True by blast
        moreover have "take n (drop off data) @ drop (off + n) data = drop off data"
          by (metis add.commute append_take_drop_id drop_drop)
        ultimately show ?thesis using lt n(1) True Accepted by auto
      qed
    qed (use Cons lt in auto)
  qed
qed

text \<open>A read that returns took the next \<open>sz\<close> bytes of the stream, whatever the segments.\<close>

lemma readLoop_in:
  "readLoop msg closed rs sz data = (Inr bs, rs') \<Longrightarrow> length data \<le> sz \<Longrightarrow>
    length bs = sz \<and> data @ incoming rs = bs @ incoming rs' \<and> (clean_reads rs \<longrightarrow> clean_reads rs')"
proof (induction rs arbitrary: data)
  case Nil
  then show ?case by (cases "length data < sz") auto
next
  case (Cons a rs)
  show ?case
  proof (cases "length data < sz")
    case False
    then show ?thesis using Cons.prems by auto
  next
    case lt: True
    show ?thesis
    proof (cases a)
      case (Segment seg)
      consider "seg = []" | "seg \<noteq> []" "length data + length seg \<le> sz" | "sz < length data + length seg"
        by linarith
      then show ?thesis
      proof cases
        case 1
        then show ?thesis using Cons.prems lt Segment by simp
      next
        case 2
        then have "readLoop msg closed rs sz (data @ seg) = (Inr bs, rs')"
          using Cons.prems lt Segment by simp
        from Cons.IH [OF this] show ?thesis using 2 Segment by simp
      next
        case 3
        then show ?thesis using Cons.prems lt Segment by auto
      qed
    qed (use Cons lt in auto)
  qed
qed

lemma readLoop_returns:
  "clean_reads rs \<Longrightarrow> length data \<le> sz \<Longrightarrow> sz \<le> length data + length (incoming rs) \<Longrightarrow>
    \<exists>bs rs'. readLoop msg closed rs sz data = (Inr bs, rs')"
proof (induction rs arbitrary: data)
  case Nil
  then show ?case by simp
next
  case (Cons a rs)
  show ?case
  proof (cases "length data < sz")
    case False
    then show ?thesis by simp
  next
    case lt: True
    show ?thesis
    proof (cases a)
      case (Segment seg)
      then have ne: "seg \<noteq> []" "clean_reads rs" using Cons.prems by auto
      show ?thesis
      proof (cases "length data + length seg \<le> sz")
        case True
        then have "\<exists>bs rs'. readLoop msg closed rs sz (data @ seg) = (Inr bs, rs')"
          using Cons.IH [OF ne(2), of "data @ seg"] Cons.prems Segment by simp
        then show ?thesis using lt Segment ne True by simp
      next
        case False
        then show ?thesis using lt Segment by simp
      qed
    qed (use Cons lt in auto)
  qed
qed

text \<open>A clean script never makes the call throw: it returns, or it waits for more bytes.\<close>

lemma readLoop_clean:
  "clean_reads rs \<Longrightarrow> readLoop msg closed rs sz data = (Inl e, rs') \<Longrightarrow> e = Blocked"
proof (induction rs arbitrary: data)
  case Nil
  then show ?case by (cases "length data < sz") auto
next
  case (Cons a rs)
  show ?case
  proof (cases "length data < sz")
    case lt: True
    show ?thesis
    proof (cases a)
      case (Segment seg)
      then show ?thesis
        using Cons lt by (cases "length data + length seg \<le> sz") auto
    qed (use Cons lt in auto)
  qed (use Cons.prems in auto)
qed

section \<open>The interface the protocol clients use\<close>

text \<open>
  What a client may rely on: a write appends what the peer gets and gives all of the data when it
  returns; a read that returns gives exactly the next bytes of the stream; both leave the other
  direction alone; and neither fails on a channel without failures and with enough room and bytes.
\<close>

definition clean :: "channel \<Rightarrow> bool" where
  "clean c \<longleftrightarrow> clean_writes (writes c) \<and> clean_reads (reads c)"

locale byte_transport =
  fixes T :: transport
  assumes write_sent: "writeAll T data c = (r, c') \<Longrightarrow>
      \<exists>n. sent c' = sent c @ take n data \<and> (r = Inr () \<longrightarrow> sent c' = sent c @ data)"
    and write_frame: "writeAll T data c = (r, c') \<Longrightarrow> reads c' = reads c \<and> (clean c \<longrightarrow> clean c')"
    and write_returns: "clean c \<Longrightarrow> length data \<le> capacity (writes c) \<Longrightarrow>
      \<exists>c'. writeAll T data c = (Inr (), c') \<and> clean c'
        \<and> capacity (writes c') + length data = capacity (writes c)"
    and read_in: "readAll T n c = (Inr bs, c') \<Longrightarrow>
      length bs = n \<and> incoming (reads c) = bs @ incoming (reads c') \<and> (clean c \<longrightarrow> clean c')"
    and read_frame: "readAll T n c = (rr, c') \<Longrightarrow> sent c' = sent c \<and> writes c' = writes c"
    and read_returns: "clean c \<Longrightarrow> n \<le> length (incoming (reads c)) \<Longrightarrow>
      \<exists>bs c'. readAll T n c = (Inr bs, c')"
begin

lemma write_ok: "writeAll T data c = (Inr (), c') \<Longrightarrow> sent c' = sent c @ data"
  using write_sent by blast

lemma read_next:
  assumes "clean c" and "incoming (reads c) = bs @ rest"
  shows "\<exists>c'. readAll T (length bs) c = (Inr bs, c') \<and> clean c' \<and> incoming (reads c') = rest
    \<and> sent c' = sent c \<and> writes c' = writes c"
proof -
  obtain bs' c' where r: "readAll T (length bs) c = (Inr bs', c')"
    using read_returns [OF assms(1), of "length bs"] assms(2) by auto
  from read_in [OF r] read_frame [OF r] assms show ?thesis
    by (auto simp: r)
qed

end

lemma loops_byte_transport:
  "byte_transport \<lparr>writeAll = writeAll_on m1, readAll = readAll_on m2 m3\<rparr>"
proof
  fix data c r c'
  assume "writeAll \<lparr>writeAll = writeAll_on m1, readAll = readAll_on m2 m3\<rparr> data c = (r, c')"
  then obtain ws out where l: "writeLoop m1 (writes c) data 0 = (r, ws, out)"
    and c': "c' = c\<lparr>sent := sent c @ out, writes := ws\<rparr>"
    by (auto simp: writeAll_on_def split: prod.splits)
  from writeLoop_out [OF l] c'
  show "\<exists>n. sent c' = sent c @ take n data \<and> (r = Inr () \<longrightarrow> sent c' = sent c @ data)" by auto
  from writeLoop_out [OF l] c' show "reads c' = reads c \<and> (clean c \<longrightarrow> clean c')"
    by (auto simp: clean_def)
next
  fix c and data :: bytes
  assume c: "clean c" "length data \<le> capacity (writes c)"
  from writeLoop_returns [of "writes c" 0 data m1] c obtain ws' where
    "writeLoop m1 (writes c) data 0 = (Inr (), ws', data)" "clean_writes ws'"
    "capacity ws' + length data = capacity (writes c)" by (auto simp: clean_def)
  then show "\<exists>c'. writeAll \<lparr>writeAll = writeAll_on m1, readAll = readAll_on m2 m3\<rparr> data c = (Inr (), c')
      \<and> clean c' \<and> capacity (writes c') + length data = capacity (writes c)"
    using c by (auto simp: writeAll_on_def clean_def)
next
  fix n c bs c'
  assume "readAll \<lparr>writeAll = writeAll_on m1, readAll = readAll_on m2 m3\<rparr> n c = (Inr bs, c')"
  then obtain rs where "readLoop m2 m3 (reads c) n [] = (Inr bs, rs)" "c' = c\<lparr>reads := rs\<rparr>"
    by (auto simp: readAll_on_def split: prod.splits)
  from readLoop_in [OF this(1)] this(2)
  show "length bs = n \<and> incoming (reads c) = bs @ incoming (reads c') \<and> (clean c \<longrightarrow> clean c')"
    by (auto simp: clean_def)
next
  fix n c r c'
  assume "readAll \<lparr>writeAll = writeAll_on m1, readAll = readAll_on m2 m3\<rparr> n c = (r, c')"
  then show "sent c' = sent c \<and> writes c' = writes c"
    by (auto simp: readAll_on_def split: prod.splits)
next
  fix c n
  assume "clean c" "n \<le> length (incoming (reads c))"
  with readLoop_returns [of "reads c" "[]" n m2 m3]
  show "\<exists>bs c'. readAll \<lparr>writeAll = writeAll_on m1, readAll = readAll_on m2 m3\<rparr> n c = (Inr bs, c')"
    by (auto simp: readAll_on_def clean_def)
qed

interpretation fd_transport: byte_transport FileDescriptorTransport
  unfolding FileDescriptorTransport_def by (rule loops_byte_transport)

interpretation vsock_transport: byte_transport VsockListenerTransport
  unfolding VsockListenerTransport_def by (rule loops_byte_transport)

interpretation child_transport: byte_transport ChildProcessTransport
  unfolding ChildProcessTransport_def by (rule loops_byte_transport)

interpretation bridge_socket: byte_transport BridgeSocket
  unfolding BridgeSocket_def by (rule loops_byte_transport)

end
