(* ===== verification/Exchange.thy ===== *)
theory Exchange
  imports Transport
begin

text \<open>
  One request and its reply, the step both protocol clients are made of: \<^verbatim>\<open>Client::exchange\<close>
  of the guest probe and \<^verbatim>\<open>BridgeConnection::exchange\<close> of the Vulkan driver are the same
  code up to the test of the reply header and the texts of the errors, so the common part is
  \<open>exchange_with\<close>, a function of that test.

  The lemmas say what an exchange that returns has sent and read, that an exchange with a peer that
  answers returns, and that whatever happens the peer has been sent whole frames with consecutive
  request numbers, the last one possibly cut off (\<open>speaks\<close>).
\<close>

record endpoint =
  chan :: channel
  nextRequestID :: u64

record frame =
  frame_header :: imb_message_header
  frame_payload :: bytes

definition on_chan :: "(channel, 'a) prog \<Rightarrow> ('z endpoint_scheme, 'a) prog" where
  "on_chan m = (\<lambda>s. case m (chan s) of (r, c) \<Rightarrow> (r, s\<lparr>chan := c\<rparr>))"

definition takeRequestID :: "('z endpoint_scheme, u64) prog" where
  "takeRequestID = (\<lambda>s. (Inr (nextRequestID s), s\<lparr>nextRequestID := nextRequestID s + 1\<rparr>))"

definition request_header :: "u16 \<Rightarrow> bytes \<Rightarrow> u64 \<Rightarrow> u64 \<Rightarrow> imb_message_header" where
  "request_header type payload requestID resourceID =
     \<lparr>magic = IMB_PROTOCOL_MAGIC, version_major = IMB_PROTOCOL_VERSION_MAJOR,
      version_minor = IMB_PROTOCOL_VERSION_MINOR, message_type = type, flags = IMB_FLAG_NONE,
      payload_length = word_of_nat (length payload), request_id = requestID,
      resource_id = resourceID\<rparr>"

definition sendRequest :: "transport \<Rightarrow> u16 \<Rightarrow> bytes \<Rightarrow> u64 \<Rightarrow> u64 \<Rightarrow> (channel, unit) prog" where
  "sendRequest T type payload requestID resourceID =
     andThen (writeAll T (encodeHeader (request_header type payload requestID resourceID))) (\<lambda>_.
     if payload \<noteq> [] then writeAll T payload else ret ())"

definition receiveReply ::
  "(imb_message_header \<Rightarrow> exn + unit) \<Rightarrow> (bytes \<Rightarrow> exn) \<Rightarrow> transport \<Rightarrow> (channel, frame) prog" where
  "receiveReply check protocolError T =
     andThen (readAll T IMB_PROTOCOL_HEADER_SIZE) (\<lambda>replyHeaderBytes.
     andThen (liftE (decodeHeader replyHeaderBytes)) (\<lambda>h.
     andThen (liftE (check h)) (\<lambda>_.
     andThen (if unat (payload_length h) \<noteq> 0 then readAll T (unat (payload_length h)) else ret []) (\<lambda>body.
     if message_type h = message_code IMB_MSG_ERROR then throwE (protocolError body)
     else ret \<lparr>frame_header = h, frame_payload = body\<rparr>))))"

definition exchange_with ::
  "(u64 \<Rightarrow> imb_message_header \<Rightarrow> exn + unit) \<Rightarrow> (bytes \<Rightarrow> exn) \<Rightarrow> transport
    \<Rightarrow> imb_message_type \<Rightarrow> bytes \<Rightarrow> u64 \<Rightarrow> ('z endpoint_scheme, frame) prog" where
  "exchange_with check protocolError T type payload resourceID =
     andThen takeRequestID (\<lambda>requestID.
     andThen (on_chan (sendRequest T (message_code type) payload requestID resourceID)) (\<lambda>_.
     on_chan (receiveReply (check requestID) protocolError T)))"

section \<open>Running an exchange\<close>

text \<open>The bytes of one request or reply.\<close>

definition frame_bytes :: "frame \<Rightarrow> bytes" where
  "frame_bytes f = encodeHeader (frame_header f) @ frame_payload f"

definition request :: "imb_message_type \<Rightarrow> bytes \<Rightarrow> u64 \<Rightarrow> u64 \<Rightarrow> frame" where
  "request type payload requestID resourceID =
     \<lparr>frame_header = request_header (message_code type) payload requestID resourceID,
      frame_payload = payload\<rparr>"

lemma on_chan_run [prog_simps]: "m (chan s) = (r, c) \<Longrightarrow> on_chan m s = (r, s\<lparr>chan := c\<rparr>)"
  by (simp add: on_chan_def)

lemma takeRequestID_run [prog_simps]:
  "takeRequestID s = (Inr (nextRequestID s), s\<lparr>nextRequestID := nextRequestID s + 1\<rparr>)"
  by (simp add: takeRequestID_def)

lemma on_chan_returnsE:
  assumes "on_chan m s = (r, s')"
  obtains c where "m (chan s) = (r, c)" and "s' = s\<lparr>chan := c\<rparr>"
  using assms by (auto simp: on_chan_def split: prod.splits)

text \<open>What a conforming reply to request \<open>requestID\<close> is, for the client's header test.\<close>

definition reply_ok :: "(u64 \<Rightarrow> imb_message_header \<Rightarrow> exn + unit) \<Rightarrow> u64 \<Rightarrow> frame \<Rightarrow> bool" where
  "reply_ok check requestID f \<longleftrightarrow> check requestID (frame_header f) = Inr ()
     \<and> message_type (frame_header f) \<noteq> message_code IMB_MSG_ERROR
     \<and> length (frame_payload f) = unat (payload_length (frame_header f))"

text \<open>The channel after a request and its reply.\<close>

definition exchanged :: "channel \<Rightarrow> channel \<Rightarrow> frame \<Rightarrow> frame \<Rightarrow> bool" where
  "exchanged c c' rq f \<longleftrightarrow> sent c' = sent c @ frame_bytes rq
     \<and> incoming (reads c) = frame_bytes f @ incoming (reads c') \<and> (clean c \<longrightarrow> clean c')"

definition request_bytes :: "imb_message_type \<Rightarrow> bytes \<Rightarrow> u64 \<Rightarrow> u64 \<Rightarrow> bytes" where
  "request_bytes type payload requestID resourceID = frame_bytes (request type payload requestID resourceID)"

lemma length_frame_bytes [simp]: "length (frame_bytes f) = 32 + length (frame_payload f)"
  by (simp add: frame_bytes_def)

context byte_transport begin

lemma sendRequest_any:
  assumes "sendRequest T ty p req rid c = (r, c')"
  defines "bs \<equiv> encodeHeader (request_header ty p req rid) @ p"
  shows "\<exists>n. sent c' = sent c @ take n bs" and "r = Inr () \<Longrightarrow> sent c' = sent c @ bs"
    and "reads c' = reads c" and "clean c \<Longrightarrow> clean c'"
proof -
  let ?hd = "encodeHeader (request_header ty p req rid)"
  obtain r1 c1 where w1: "writeAll T ?hd c = (r1, c1)" by fastforce
  note f1 = write_sent [OF w1] write_frame [OF w1]
  have "(\<exists>n. sent c' = sent c @ take n bs) \<and> (r = Inr () \<longrightarrow> sent c' = sent c @ bs)
      \<and> reads c' = reads c \<and> (clean c \<longrightarrow> clean c')"
  proof (cases r1)
    case (Inl e)
    then have "c' = c1" "r = Inl e" using assms(1) w1 by (auto simp: sendRequest_def andThen_def)
    moreover from f1 obtain n where "sent c1 = sent c @ take n ?hd" by blast
    then have "sent c1 = sent c @ take (min n 32) bs" by (simp add: bs_def take_append min_def)
    ultimately show ?thesis using f1 by auto
  next
    case (Inr u)
    then have s1: "sent c1 = sent c @ ?hd" using f1 by auto
    show ?thesis
    proof (cases "p = []")
      case True
      then have "c' = c1" "r = Inr ()" using assms(1) w1 Inr by (auto simp: sendRequest_def andThen_def ret_def)
      then show ?thesis using s1 f1 True by (auto simp: bs_def intro: exI [of _ 32])
    next
      case False
      then have w2: "writeAll T p c1 = (r, c')" using assms(1) w1 Inr by (auto simp: sendRequest_def andThen_def)
      note f2 = write_sent [OF w2] write_frame [OF w2]
      from f2 obtain n where n: "sent c' = sent c1 @ take n p" "r = Inr () \<longrightarrow> sent c' = sent c1 @ p" by blast
      then have "\<exists>k. sent c' = sent c @ take k bs"
        using s1 by (intro exI [of _ "32 + n"]) (simp add: bs_def)
      moreover have "r = Inr () \<longrightarrow> sent c' = sent c @ bs" using n(2) s1 by (simp add: bs_def)
      ultimately show ?thesis using f1 f2 by simp
    qed
  qed
  then show "\<exists>n. sent c' = sent c @ take n bs" and "r = Inr () \<Longrightarrow> sent c' = sent c @ bs"
    and "reads c' = reads c" and "clean c \<Longrightarrow> clean c'" by auto
qed

lemma sendRequest_returns:
  assumes "clean c" and "32 + length p \<le> capacity (writes c)"
  shows "\<exists>c'. sendRequest T ty p req rid c = (Inr (), c') \<and> clean c'
    \<and> capacity (writes c') + (32 + length p) = capacity (writes c)"
proof -
  let ?hd = "encodeHeader (request_header ty p req rid)"
  from write_returns [of c ?hd] assms obtain c1 where c1: "writeAll T ?hd c = (Inr (), c1)" "clean c1"
    "capacity (writes c1) + 32 = capacity (writes c)" by auto
  show ?thesis
  proof (cases "p = []")
    case True
    then show ?thesis using c1 by (simp add: sendRequest_def andThen_def ret_def)
  next
    case False
    from write_returns [of c1 p] c1 assms obtain c2 where "writeAll T p c1 = (Inr (), c2)" "clean c2"
      "capacity (writes c2) + length p = capacity (writes c1)" by auto
    then show ?thesis using c1 False by (simp add: sendRequest_def andThen_def)
  qed
qed

lemma receiveReply_frame:
  assumes "receiveReply chk pe T c = (r, c')"
  shows "sent c' = sent c \<and> writes c' = writes c"
proof -
  obtain r1 c1 where 1: "readAll T IMB_PROTOCOL_HEADER_SIZE c = (r1, c1)" by fastforce
  note f1 = read_frame [OF 1]
  show ?thesis
  proof (cases "r1")
    case (Inl e)
    then show ?thesis using assms 1 f1 by (auto simp: receiveReply_def andThen_def)
  next
    case (Inr hb)
    show ?thesis
    proof (cases "\<exists>h. decodeHeader hb = Inr h \<and> chk h = Inr ()")
      case False
      then show ?thesis using assms 1 f1 Inr
        by (auto simp: receiveReply_def andThen_def liftE_def split: sum.splits)
    next
      case True
      then obtain h where h: "decodeHeader hb = Inr h" "chk h = Inr ()" by blast
      show ?thesis
      proof (cases "payload_length h = 0")
        case True
        then show ?thesis using assms 1 f1 Inr h
          by (auto simp: receiveReply_def andThen_def liftE_def ret_def throwE_def split: if_splits)
      next
        case False
        obtain r2 c2 where 2: "readAll T (unat (payload_length h)) c1 = (r2, c2)" by fastforce
        from False have "unat (payload_length h) \<noteq> 0" by (simp add: unat_eq_0)
        then show ?thesis using assms 1 f1 Inr h 2 read_frame [OF 2]
          by (auto simp: receiveReply_def andThen_def liftE_def ret_def throwE_def split: if_splits sum.splits)
      qed
    qed
  qed
qed

lemma receiveReply_returns:
  assumes "receiveReply chk pe T c = (Inr f, c')"
  shows "chk (frame_header f) = Inr ()" and "message_type (frame_header f) \<noteq> message_code IMB_MSG_ERROR"
    and "length (frame_payload f) = unat (payload_length (frame_header f))"
    and "incoming (reads c) = frame_bytes f @ incoming (reads c')" and "clean c \<Longrightarrow> clean c'"
proof -
  from assms [unfolded receiveReply_def] obtain hb c1 where 1: "readAll T IMB_PROTOCOL_HEADER_SIZE c = (Inr hb, c1)"
    and k: "andThen (liftE (decodeHeader hb)) (\<lambda>h.
      andThen (liftE (chk h)) (\<lambda>_.
      andThen (if unat (payload_length h) \<noteq> 0 then readAll T (unat (payload_length h)) else ret []) (\<lambda>body.
      if message_type h = message_code IMB_MSG_ERROR then throwE (pe body)
      else ret \<lparr>frame_header = h, frame_payload = body\<rparr>))) c1 = (Inr f, c')"
    by (rule andThen_returnsE)
  from k obtain h body where h: "decodeHeader hb = Inr h" "chk h = Inr ()"
    and b: "(if unat (payload_length h) \<noteq> 0 then readAll T (unat (payload_length h)) else ret []) c1 = (Inr body, c')"
    and ne: "message_type h \<noteq> message_code IMB_MSG_ERROR"
    and f: "f = \<lparr>frame_header = h, frame_payload = body\<rparr>"
    by (auto simp: liftE_def throwE_def ret_def elim!: andThen_returnsE split: if_splits)
  note r1 = read_in [OF 1] and e = encode_decodeHeader [OF h(1)]
  have r2: "length body = unat (payload_length h) \<and> incoming (reads c1) = body @ incoming (reads c')
      \<and> (clean c1 \<longrightarrow> clean c')"
  proof (cases "unat (payload_length h) = 0")
    case True
    then show ?thesis using b by (simp add: ret_def)
  next
    case False
    then show ?thesis using b read_in [of "unat (payload_length h)" c1 body c'] by simp
  qed
  show "chk (frame_header f) = Inr ()" "message_type (frame_header f) \<noteq> message_code IMB_MSG_ERROR"
    "length (frame_payload f) = unat (payload_length (frame_header f))"
    using f h ne r2 by simp_all
  show "incoming (reads c) = frame_bytes f @ incoming (reads c')" "clean c \<Longrightarrow> clean c'"
    using r1 r2 e f by (auto simp: frame_bytes_def)
qed

lemma receiveReply_complete:
  assumes "clean c" and "incoming (reads c) = frame_bytes f @ rest"
    and "chk (frame_header f) = Inr ()" and "message_type (frame_header f) \<noteq> message_code IMB_MSG_ERROR"
    and "length (frame_payload f) = unat (payload_length (frame_header f))"
  shows "\<exists>c'. receiveReply chk pe T c = (Inr f, c') \<and> clean c' \<and> incoming (reads c') = rest"
proof -
  let ?h = "frame_header f" and ?b = "frame_payload f"
  from read_next [of c "encodeHeader ?h" "?b @ rest"] assms(1,2) obtain c1 where
    1: "readAll T IMB_PROTOCOL_HEADER_SIZE c = (Inr (encodeHeader ?h), c1)" "clean c1"
      "incoming (reads c1) = ?b @ rest" "sent c1 = sent c" "writes c1 = writes c"
    by (auto simp: frame_bytes_def IMB_PROTOCOL_HEADER_SIZE_def)
  have eta: "\<lparr>frame_header = ?h, frame_payload = ?b\<rparr> = f" by simp
  show ?thesis
  proof (cases "unat (payload_length ?h) = 0")
    case True
    then have "?b = []" using assms(5) by simp
    then show ?thesis using 1 True assms(3,4) eta
      by (auto simp: receiveReply_def andThen_def liftE_def ret_def)
  next
    case False
    from read_next [of c1 ?b rest] 1 assms(5) obtain c2 where
      2: "readAll T (unat (payload_length ?h)) c1 = (Inr ?b, c2)" "clean c2" "incoming (reads c2) = rest"
      by auto
    then show ?thesis using 1 False assms(3,4) eta
      by (auto simp: receiveReply_def andThen_def liftE_def ret_def)
  qed
qed

text \<open>An exchange that returns has sent its request and read one conforming reply.\<close>

lemma exchange_returns:
  assumes "exchange_with chk pe T type p rid s = (Inr f, s')"
  shows "reply_ok chk (nextRequestID s) f"
    and "\<exists>c'. s' = s\<lparr>chan := c', nextRequestID := nextRequestID s + 1\<rparr>
           \<and> exchanged (chan s) c' (request type p (nextRequestID s) rid) f"
proof -
  let ?id = "nextRequestID s"
  from assms obtain c1 c' where
    1: "sendRequest T (message_code type) p ?id rid (chan s) = (Inr (), c1)"
    and 2: "receiveReply (chk ?id) pe T c1 = (Inr f, c')"
    and s': "s' = s\<lparr>chan := c', nextRequestID := ?id + 1\<rparr>"
    by (auto simp: exchange_with_def takeRequestID_def elim!: andThen_returnsE on_chan_returnsE)
  show "reply_ok chk ?id f"
    using receiveReply_returns [OF 2] by (simp add: reply_ok_def)
  have "exchanged (chan s) c' (request type p ?id rid) f"
    using sendRequest_any [OF 1] receiveReply_returns [OF 2] receiveReply_frame [OF 2]
    by (auto simp: exchanged_def request_def frame_bytes_def)
  then show "\<exists>c'. s' = s\<lparr>chan := c', nextRequestID := nextRequestID s + 1\<rparr>
           \<and> exchanged (chan s) c' (request type p (nextRequestID s) rid) f"
    using s' by blast
qed

text \<open>With a peer that answers, on a channel without failures, the exchange returns its answer.\<close>

lemma exchange_complete:
  assumes "clean (chan s)" and "32 + length p \<le> capacity (writes (chan s))"
    and "incoming (reads (chan s)) = frame_bytes f @ rest" and "reply_ok chk (nextRequestID s) f"
  shows "\<exists>c'. exchange_with chk pe T type p rid s = (Inr f, s\<lparr>chan := c', nextRequestID := nextRequestID s + 1\<rparr>)
    \<and> clean c' \<and> incoming (reads c') = rest \<and> capacity (writes c') + (32 + length p) = capacity (writes (chan s))
    \<and> sent c' = sent (chan s) @ request_bytes type p (nextRequestID s) rid"
proof -
  let ?id = "nextRequestID s"
  from sendRequest_returns [OF assms(1,2)] obtain c1 where
    1: "sendRequest T (message_code type) p ?id rid (chan s) = (Inr (), c1)" "clean c1"
      "capacity (writes c1) + (32 + length p) = capacity (writes (chan s))" by blast
  note s1 = sendRequest_any [OF 1(1)]
  have in1: "incoming (reads c1) = frame_bytes f @ rest" using s1(3) assms(3) by simp
  from receiveReply_complete [OF 1(2) in1, of "chk ?id" pe] assms(4) obtain c' where
    2: "receiveReply (chk ?id) pe T c1 = (Inr f, c')" "clean c'" "incoming (reads c') = rest"
    by (auto simp: reply_ok_def)
  have "exchange_with chk pe T type p rid s = (Inr f, s\<lparr>chan := c', nextRequestID := ?id + 1\<rparr>)"
    using 1 2 by (simp add: exchange_with_def takeRequestID_def andThen_def on_chan_def)
  then show ?thesis
    using 1 2 s1 receiveReply_frame [OF 2(1)]
    by (auto simp: request_bytes_def request_def frame_bytes_def)
qed

lemma exchange_any:
  assumes "exchange_with chk pe T type p rid s = (r, s')"
  shows "nextRequestID s' = nextRequestID s + 1"
    and "\<exists>n. sent (chan s') = sent (chan s) @ take n (request_bytes type p (nextRequestID s) rid)"
proof -
  let ?id = "nextRequestID s"
  obtain r1 c1 where 1: "sendRequest T (message_code type) p ?id rid (chan s) = (r1, c1)" by fastforce
  obtain r2 c2 where 2: "receiveReply (chk ?id) pe T c1 = (r2, c2)" by fastforce
  note s1 = sendRequest_any [OF 1] and s2 = receiveReply_frame [OF 2]
  from assms have "nextRequestID s' = ?id + 1 \<and> (chan s' = c1 \<or> chan s' = c2)"
    using 1 2 by (auto simp: exchange_with_def takeRequestID_def andThen_def on_chan_def split: sum.splits)
  then show "nextRequestID s' = nextRequestID s + 1"
    "\<exists>n. sent (chan s') = sent (chan s) @ take n (request_bytes type p (nextRequestID s) rid)"
    using s1(1) s2 by (auto simp: request_bytes_def request_def frame_bytes_def)
qed

end


section \<open>The discipline of the stream\<close>

text \<open>
  \<open>numbered n fs\<close>: the frames \<open>fs\<close> are well-formed requests, of at most the payload the protocol allows, with the request numbers \<open>n\<close>,
  \<open>n + 1\<close>, and so on. A program \<open>speaks\<close> the protocol when, whatever the kernel and the peer answer,
  it adds such frames to the stream, and nothing else when it returns; when it throws, the last frame
  may be cut off.
\<close>

definition well_request :: "frame \<Rightarrow> bool" where
  "well_request f \<longleftrightarrow> magic (frame_header f) = IMB_PROTOCOL_MAGIC
     \<and> version_major (frame_header f) = IMB_PROTOCOL_VERSION_MAJOR
     \<and> version_minor (frame_header f) = IMB_PROTOCOL_VERSION_MINOR
     \<and> flags (frame_header f) = IMB_FLAG_NONE
     \<and> payload_length (frame_header f) = word_of_nat (length (frame_payload f))
     \<and> length (frame_payload f) \<le> unat IMB_PROTOCOL_MAX_PAYLOAD"

fun numbered :: "u64 \<Rightarrow> frame list \<Rightarrow> bool" where
  "numbered n [] = True"
| "numbered n (f # fs) = (well_request f \<and> request_id (frame_header f) = n \<and> numbered (n + 1) fs)"

definition stream :: "frame list \<Rightarrow> bytes" where
  "stream fs = concat (map frame_bytes fs)"

definition said :: "'z endpoint_scheme \<Rightarrow> exn + 'a \<Rightarrow> 'z endpoint_scheme \<Rightarrow> bool" where
  "said s r s' \<longleftrightarrow>
     (\<exists>fs g k. numbered (nextRequestID s) (fs @ [g])
       \<and> sent (chan s') = sent (chan s) @ stream fs @ take k (frame_bytes g)
       \<and> ((\<exists>x. r = Inr x) \<longrightarrow> k = 0 \<and> nextRequestID s' = nextRequestID s + word_of_nat (length fs)))"

definition speaks :: "('z endpoint_scheme, 'a) prog \<Rightarrow> bool" where
  "speaks m \<longleftrightarrow> (\<forall>s r s'. m s = (r, s') \<longrightarrow> said s r s')"

lemma speaksI: "(\<And>s r s'. m s = (r, s') \<Longrightarrow> said s r s') \<Longrightarrow> speaks m"
  by (simp add: speaks_def)

lemma speaksD: "speaks m \<Longrightarrow> m s = (r, s') \<Longrightarrow> said s r s'"
  by (simp add: speaks_def)

lemma saidI:
  assumes "numbered (nextRequestID s) (fs @ [g])"
    and "sent (chan s') = sent (chan s) @ stream fs @ take k (frame_bytes g)"
    and "\<And>x. r = Inr x \<Longrightarrow> k = 0 \<and> nextRequestID s' = nextRequestID s + word_of_nat (length fs)"
  shows "said s r s'"
  unfolding said_def using assms by (intro exI [of _ fs] exI [of _ g] exI [of _ k]) auto

lemma saidE:
  assumes "said s r s'"
  obtains fs g k where "numbered (nextRequestID s) (fs @ [g])"
    and "sent (chan s') = sent (chan s) @ stream fs @ take k (frame_bytes g)"
    and "\<And>x. r = Inr x \<Longrightarrow> k = 0 \<and> nextRequestID s' = nextRequestID s + word_of_nat (length fs)"
  using assms unfolding said_def by (elim exE conjE) (rule that; simp)

lemma stream_append [simp]: "stream (fs @ gs) = stream fs @ stream gs"
  by (simp add: stream_def)

lemma stream_simps [simp]: "stream [] = []" "stream (f # fs) = frame_bytes f @ stream fs"
  by (simp_all add: stream_def)

lemma numbered_append:
  "numbered n (fs @ gs) \<longleftrightarrow> numbered n fs \<and> numbered (n + word_of_nat (length fs)) gs"
  by (induction fs arbitrary: n) (simp_all add: add.assoc add.commute)

lemma well_request_request [simp]: "well_request (request ty p req rid) \<longleftrightarrow> length p \<le> 16777216"
  by (simp add: well_request_def request_def request_header_def IMB_PROTOCOL_MAX_PAYLOAD_def)

lemma request_id_request [simp]: "request_id (frame_header (request ty p req rid)) = req"
  by (simp add: request_def request_header_def)

lemma speaks_silent:
  assumes "\<And>s. chan (snd (m s)) = chan s" and "\<And>s. nextRequestID (snd (m s)) = nextRequestID s"
  shows "speaks m"
proof (rule speaksI)
  fix s r s' assume m: "m s = (r, s')"
  show "said s r s'"
    using assms(1,2) [of s] m
    by (intro saidI [of s "[]" "request IMB_MSG_HELLO [] (nextRequestID s) 0" s' 0]) simp_all
qed

lemma speaks_basic [intro]: "speaks (ret x)" "speaks (throw msg)" "speaks (throwE e)" "speaks (liftE r)"
  "speaks (require b msg)"
  by (rule speaks_silent; simp add: prog_simps)+

lemma speaks_if [intro]: "speaks m \<Longrightarrow> speaks m' \<Longrightarrow> speaks (if b then m else m')"
  by simp

lemma speaks_andThen [intro]:
  assumes "speaks m" and "\<And>x. speaks (f x)"
  shows "speaks (andThen m f)"
proof (rule speaksI)
  fix s r s' assume run: "andThen m f s = (r, s')"
  obtain r1 s1 where 1: "m s = (r1, s1)" by fastforce
  from speaksD [OF assms(1) 1] obtain fs g k where
    m: "numbered (nextRequestID s) (fs @ [g])" "sent (chan s1) = sent (chan s) @ stream fs @ take k (frame_bytes g)"
      "\<And>x. r1 = Inr x \<Longrightarrow> k = 0 \<and> nextRequestID s1 = nextRequestID s + word_of_nat (length fs)"
    by (rule saidE) (rule that)
  show "said s r s'"
  proof (cases r1)
    case (Inl e)
    then have "r = Inl e" "s' = s1" using run 1 by (simp_all add: andThen_def)
    then show ?thesis using m(1,2) by (intro saidI [of s fs g s' k]) simp_all
  next
    case (Inr x)
    then have 2: "f x s1 = (r, s')" using run 1 by (simp add: prog_simps)
    from speaksD [OF assms(2) 2] obtain fs' g' k' where
      f: "numbered (nextRequestID s1) (fs' @ [g'])" "sent (chan s') = sent (chan s1) @ stream fs' @ take k' (frame_bytes g')"
        "\<And>x. r = Inr x \<Longrightarrow> k' = 0 \<and> nextRequestID s' = nextRequestID s1 + word_of_nat (length fs')"
      by (rule saidE) (rule that)
    from m(3) [OF Inr] have k0: "k = 0" and n1: "nextRequestID s1 = nextRequestID s + word_of_nat (length fs)" by auto
    show ?thesis
    proof (rule saidI [of s "fs @ fs'" g' s' k'])
      have "numbered (nextRequestID s) fs" using m(1) by (simp add: numbered_append)
      then show "numbered (nextRequestID s) ((fs @ fs') @ [g'])"
        using f(1) n1 numbered_append [of "nextRequestID s" fs "fs' @ [g']"] by simp
      show "sent (chan s') = sent (chan s) @ stream (fs @ fs') @ take k' (frame_bytes g')"
        using m(2) f(2) k0 by simp
      show "k' = 0 \<and> nextRequestID s' = nextRequestID s + word_of_nat (length (fs @ fs'))" if "r = Inr y" for y
        using f(3) [OF that] n1 by (simp add: add.assoc)
    qed
  qed
qed

context byte_transport begin

lemma speaks_exchange: "length p \<le> 16777216 \<Longrightarrow> speaks (exchange_with chk pe T type p rid)"
proof (rule speaksI)
  assume "length p \<le> 16777216"
  note [simp] = this
  fix s :: "'a endpoint_scheme" and r s'
  assume run: "exchange_with chk pe T type p rid s = (r, s')"
  let ?rq = "request type p (nextRequestID s) rid"
  note any = exchange_any [OF run]
  show "said s r s'"
  proof (cases r)
    case (Inl e)
    from any(2) obtain n where "sent (chan s') = sent (chan s) @ take n (frame_bytes ?rq)"
      by (auto simp: request_bytes_def)
    then show ?thesis using Inl by (intro saidI [of s "[]" ?rq s' n]) simp_all
  next
    case (Inr f)
    then have "sent (chan s') = sent (chan s) @ frame_bytes ?rq"
      using exchange_returns(2) [of chk pe type p rid s f s'] run by (auto simp: exchanged_def)
    then show ?thesis using any(1)
      by (intro saidI [of s "[?rq]" "request IMB_MSG_HELLO [] (nextRequestID s + 1) 0" s' 0]) simp_all
  qed
qed

end

end
