(* ===== verification/ProbeClient.thy ===== *)
theory ProbeClient
  imports Exchange
begin

text \<open>
  The guest probe's protocol client, class \<^verbatim>\<open>Client\<close> of \<^verbatim>\<open>guest/src/main.cpp\<close>: the
  handshake, the capability query, the ping, the compute and the raster check and the shutdown, each
  over one exchange per request. The transport is the object the client holds a reference to; what
  the client prints is a list of \<open>status\<close> values, one per line of output.
\<close>

section \<open>Capability bits, commands and resources\<close>

definition IMB_CAP_METAL_BUFFER :: u64 where "IMB_CAP_METAL_BUFFER = push_bit 5 1"
definition IMB_CAP_METAL_COMPUTE :: u64 where "IMB_CAP_METAL_COMPUTE = push_bit 6 1"
definition IMB_CAP_RESOURCE_IO :: u64 where "IMB_CAP_RESOURCE_IO = push_bit 7 1"
definition IMB_CAP_REAL_FENCE :: u64 where "IMB_CAP_REAL_FENCE = push_bit 8 1"
definition IMB_CAP_METAL_IMAGE :: u64 where "IMB_CAP_METAL_IMAGE = push_bit 9 1"
definition IMB_CAP_METAL_RASTER :: u64 where "IMB_CAP_METAL_RASTER = push_bit 10 1"

lemmas imb_cap_defs = IMB_CAP_METAL_BUFFER_def IMB_CAP_METAL_COMPUTE_def IMB_CAP_RESOURCE_IO_def
  IMB_CAP_REAL_FENCE_def IMB_CAP_METAL_IMAGE_def IMB_CAP_METAL_RASTER_def

definition IMB_RESOURCE_BUFFER :: u32 where "IMB_RESOURCE_BUFFER = 1"
definition IMB_RESOURCE_IMAGE :: u32 where "IMB_RESOURCE_IMAGE = 2"
definition IMB_IMAGE_FORMAT_RGBA8_UNORM :: u32 where "IMB_IMAGE_FORMAT_RGBA8_UNORM = 1"

datatype imb_command_kind = IMB_COMMAND_NOOP | IMB_COMMAND_ADD_U32 | IMB_COMMAND_DRAW_TRIANGLE
  | IMB_COMMAND_DRAW_INDEXED_UI | IMB_COMMAND_TRACE_RAYS | IMB_COMMAND_DISPATCH_COMPUTE

fun command_code :: "imb_command_kind \<Rightarrow> u16" where
  "command_code IMB_COMMAND_NOOP = 0"
| "command_code IMB_COMMAND_ADD_U32 = 1"
| "command_code IMB_COMMAND_DRAW_TRIANGLE = 2"
| "command_code IMB_COMMAND_DRAW_INDEXED_UI = 3"
| "command_code IMB_COMMAND_TRACE_RAYS = 4"
| "command_code IMB_COMMAND_DISPATCH_COMPUTE = 5"

section \<open>The client object\<close>

datatype status =
    HelloNegotiated u16 u16
  | CapabilitiesReported u64 bytes u64
  | PingPongOk
  | ComputeSkipped
  | ComputeVerified
  | RasterSkipped
  | RasterVerified u32 u32 nat "string option"
  | BufferCreated u64 u64
  | ImageCreated u64 u32 u32
  | ResourceWritten u64 nat
  | AddSubmitted u64
  | TriangleSubmitted u64
  | FenceSignaled
  | ResourceRead u64 u64
  | ResourceDestroyed u64
  | ShutdownOk

record client = endpoint +
  capabilityBits :: u64
  outputLog :: "status list"
  ppmFile :: "(string \<times> bytes) option"

text \<open>What the client is constructed with: the transport and the image path, and how the file system
  answers when the image file is created and when it is finished.\<close>

record probe =
  transport_of :: transport
  imageOutput :: "string option"
  createOk :: bool
  finishOk :: bool

definition emit :: "status \<Rightarrow> (client, unit) prog" where
  "emit st = (\<lambda>s. (Inr (), s\<lparr>outputLog := outputLog s @ [st]\<rparr>))"

definition bytes_of :: "string \<Rightarrow> bytes" where
  "bytes_of str = map of_char str"

section \<open>One exchange\<close>

definition Client_checkReply :: "u64 \<Rightarrow> imb_message_header \<Rightarrow> exn + unit" where
  "Client_checkReply requestID h =
     (if magic h \<noteq> IMB_PROTOCOL_MAGIC then Inl (RuntimeError ''invalid reply magic'')
      else if flags h AND IMB_FLAG_RESPONSE = 0 then Inl (RuntimeError ''reply flag is missing'')
      else if request_id h \<noteq> requestID then Inl (RuntimeError ''reply request ID mismatch'')
      else if payload_length h > IMB_PROTOCOL_MAX_PAYLOAD then Inl (RuntimeError ''reply payload is too large'')
      else Inr ())"

definition Client_protocolError :: "bytes \<Rightarrow> exn" where
  "Client_protocolError payload =
     (if length payload < 8 then RuntimeError ''malformed protocol error''
      else case bindE (readLittleEndian payload 0) (\<lambda>code.
           bindE (readLittleEndian payload 4) (\<lambda>len.
             if unat (len :: u32) > length payload - 8
             then Inl (RuntimeError ''malformed protocol error string'')
             else Inr (code, take (unat len) (drop 8 payload)))) of
        Inl e \<Rightarrow> e
      | Inr (code, message) \<Rightarrow> HostError code message)"

definition Client_exchange ::
  "transport \<Rightarrow> imb_message_type \<Rightarrow> bytes \<Rightarrow> u64 \<Rightarrow> ('z endpoint_scheme, frame) prog" where
  "Client_exchange = exchange_with Client_checkReply Client_protocolError"

definition expectType :: "frame \<Rightarrow> imb_message_type \<Rightarrow> ('s, unit) prog" where
  "expectType f expected =
     (if message_type (frame_header f) \<noteq> message_code expected
      then throwE (UnexpectedReply (message_type (frame_header f))) else ret ())"

section \<open>The steps of a run\<close>

definition Client_hello :: "transport \<Rightarrow> (client, unit) prog" where
  "Client_hello T =
     (let payload = appendLittleEndian (appendLittleEndian (appendLittleEndian (appendLittleEndian []
            IMB_PROTOCOL_VERSION_MAJOR) IMB_PROTOCOL_VERSION_MINOR)
            IMB_PROTOCOL_VERSION_MAJOR) IMB_PROTOCOL_VERSION_MINOR in
      andThen (Client_exchange T IMB_MSG_HELLO payload 0) (\<lambda>reply.
      andThen (expectType reply IMB_MSG_HELLO_REPLY) (\<lambda>_.
      andThen (require (length (frame_payload reply) = 8) ''invalid HELLO_REPLY size'') (\<lambda>_.
      andThen (liftE (readLittleEndian (frame_payload reply) 0)) (\<lambda>major.
      andThen (liftE (readLittleEndian (frame_payload reply) 2)) (\<lambda>minor.
      andThen (require (\<not> (major \<noteq> IMB_PROTOCOL_VERSION_MAJOR \<or> minor \<noteq> IMB_PROTOCOL_VERSION_MINOR))
        ''host selected an unsupported version'') (\<lambda>_.
      emit (HelloNegotiated major minor))))))))"

definition Client_queryCapabilities :: "transport \<Rightarrow> (client, unit) prog" where
  "Client_queryCapabilities T =
     andThen (Client_exchange T IMB_MSG_QUERY_CAPABILITIES [] 0) (\<lambda>reply.
     andThen (expectType reply IMB_MSG_CAPABILITIES_REPLY) (\<lambda>_.
     andThen (require (\<not> length (frame_payload reply) < 24) ''invalid capabilities payload'') (\<lambda>_.
     andThen (liftE (readLittleEndian (frame_payload reply) 0)) (\<lambda>bits.
     andThen (\<lambda>s. (Inr (), s\<lparr>capabilityBits := bits\<rparr>)) (\<lambda>_.
     andThen (liftE (readLittleEndian (frame_payload reply) 8)) (\<lambda>maxBuffer.
     andThen (liftE (readLittleEndian (frame_payload reply) 16)) (\<lambda>nameLength.
     andThen (require (\<not> unat (nameLength :: u32) > length (frame_payload reply) - 24)
       ''invalid GPU name length'') (\<lambda>_.
     emit (CapabilitiesReported bits (take (unat nameLength) (drop 24 (frame_payload reply))) maxBuffer)))))))))"

definition Client_ping :: "transport \<Rightarrow> (client, unit) prog" where
  "Client_ping T =
     (let payload = bytes_of ''imb-guest-probe'' in
      andThen (Client_exchange T IMB_MSG_PING payload 0) (\<lambda>reply.
      andThen (expectType reply IMB_MSG_PONG) (\<lambda>_.
      andThen (require (frame_payload reply = payload) ''PONG did not echo PING'') (\<lambda>_.
      emit PingPongOk))))"

definition Client_createResource :: "transport \<Rightarrow> u64 \<Rightarrow> (client, u64) prog" where
  "Client_createResource T sz =
     (let payload = appendLittleEndian (appendLittleEndian (appendLittleEndian []
            sz) IMB_RESOURCE_BUFFER) (0 :: u32) in
      andThen (Client_exchange T IMB_MSG_CREATE_RESOURCE payload 0) (\<lambda>reply.
      andThen (expectType reply IMB_MSG_CREATE_RESOURCE) (\<lambda>_.
      andThen (require (resource_id (frame_header reply) \<noteq> 0) ''host returned resource ID zero'') (\<lambda>_.
      andThen (emit (BufferCreated (resource_id (frame_header reply)) sz)) (\<lambda>_.
      ret (resource_id (frame_header reply)))))))"

definition Client_createImage :: "transport \<Rightarrow> u32 \<Rightarrow> u32 \<Rightarrow> (client, u64) prog" where
  "Client_createImage T width height =
     (let sz = ucast width * ucast height * 4 :: u64;
          payload = appendLittleEndian (appendLittleEndian (appendLittleEndian (appendLittleEndian
            (appendLittleEndian (appendLittleEndian (appendLittleEndian []
            sz) IMB_RESOURCE_IMAGE) (0 :: u32)) width) height) IMB_IMAGE_FORMAT_RGBA8_UNORM) (0 :: u32) in
      andThen (Client_exchange T IMB_MSG_CREATE_RESOURCE payload 0) (\<lambda>reply.
      andThen (expectType reply IMB_MSG_CREATE_RESOURCE) (\<lambda>_.
      andThen (require (resource_id (frame_header reply) \<noteq> 0) ''host returned image resource ID zero'') (\<lambda>_.
      andThen (emit (ImageCreated (resource_id (frame_header reply)) width height)) (\<lambda>_.
      ret (resource_id (frame_header reply)))))))"

definition Client_writeResource :: "transport \<Rightarrow> u64 \<Rightarrow> u32 list \<Rightarrow> (client, unit) prog" where
  "Client_writeResource T resource values =
     (let payload = appendLittleEndian (appendLittleEndian (appendLittleEndian []
            (0 :: u64)) (word_of_nat (length values * 4) :: u32)) (0 :: u32);
          payload = fold (\<lambda>value p. appendLittleEndian p value) values payload in
      andThen (Client_exchange T IMB_MSG_WRITE_RESOURCE payload resource) (\<lambda>reply.
      andThen (expectType reply IMB_MSG_WRITE_RESOURCE) (\<lambda>_.
      emit (ResourceWritten resource (length values * 4)))))"

definition Client_submitAdd :: "transport \<Rightarrow> u64 \<Rightarrow> u32 \<Rightarrow> u32 \<Rightarrow> (client, u64) prog" where
  "Client_submitAdd T resource elementCount addend =
     (let payload = appendLittleEndian (appendLittleEndian (appendLittleEndian (appendLittleEndian
            (appendLittleEndian [] (command_code IMB_COMMAND_ADD_U32)) (0 :: u16)) (0 :: u32))
            elementCount) addend in
      andThen (Client_exchange T IMB_MSG_SUBMIT_COMMAND payload resource) (\<lambda>reply.
      andThen (expectType reply IMB_MSG_SUBMIT_COMMAND) (\<lambda>_.
      andThen (require (resource_id (frame_header reply) \<noteq> 0) ''host returned fence ID zero'') (\<lambda>_.
      andThen (emit (AddSubmitted (resource_id (frame_header reply)))) (\<lambda>_.
      ret (resource_id (frame_header reply)))))))"

definition Client_submitTriangle :: "transport \<Rightarrow> u64 \<Rightarrow> u32 \<Rightarrow> (client, u64) prog" where
  "Client_submitTriangle T img clearRGBA8 =
     (let payload = appendLittleEndian (appendLittleEndian (appendLittleEndian (appendLittleEndian
            (appendLittleEndian [] (command_code IMB_COMMAND_DRAW_TRIANGLE)) (0 :: u16)) (0 :: u32))
            clearRGBA8) (0 :: u32) in
      andThen (Client_exchange T IMB_MSG_SUBMIT_COMMAND payload img) (\<lambda>reply.
      andThen (expectType reply IMB_MSG_SUBMIT_COMMAND) (\<lambda>_.
      andThen (require (resource_id (frame_header reply) \<noteq> 0) ''host returned raster fence ID zero'') (\<lambda>_.
      andThen (emit (TriangleSubmitted (resource_id (frame_header reply)))) (\<lambda>_.
      ret (resource_id (frame_header reply)))))))"

definition Client_waitFence :: "transport \<Rightarrow> u64 \<Rightarrow> (client, unit) prog" where
  "Client_waitFence T fence =
     andThen (Client_exchange T IMB_MSG_WAIT_FENCE [] fence) (\<lambda>reply.
     andThen (expectType reply IMB_MSG_WAIT_FENCE) (\<lambda>_.
     andThen (require (length (frame_payload reply) = 8) ''Metal fence was not signaled'') (\<lambda>_.
     andThen (liftE (readLittleEndian (frame_payload reply) 0)) (\<lambda>signaled.
     andThen (require ((signaled :: u32) = 1) ''Metal fence was not signaled'') (\<lambda>_.
     emit FenceSignaled)))))"

definition Client_readResourceBytes :: "transport \<Rightarrow> u64 \<Rightarrow> u64 \<Rightarrow> (client, bytes) prog" where
  "Client_readResourceBytes T resource byteCount =
     (let payload = appendLittleEndian (appendLittleEndian [] (0 :: u64)) byteCount in
      andThen (Client_exchange T IMB_MSG_READ_RESOURCE payload resource) (\<lambda>reply.
      andThen (expectType reply IMB_MSG_READ_RESOURCE) (\<lambda>_.
      andThen (require (length (frame_payload reply) = unat byteCount)
        ''READ_RESOURCE returned the wrong byte count'') (\<lambda>_.
      andThen (emit (ResourceRead resource byteCount)) (\<lambda>_.
      ret (frame_payload reply))))))"

definition Client_destroyResource :: "transport \<Rightarrow> u64 \<Rightarrow> (client, unit) prog" where
  "Client_destroyResource T resource =
     andThen (Client_exchange T IMB_MSG_DESTROY_RESOURCE [] resource) (\<lambda>reply.
     andThen (expectType reply IMB_MSG_DESTROY_RESOURCE) (\<lambda>_.
     emit (ResourceDestroyed resource)))"

definition Client_shutdown :: "transport \<Rightarrow> (client, unit) prog" where
  "Client_shutdown T =
     andThen (Client_exchange T IMB_MSG_SHUTDOWN [] 0) (\<lambda>reply.
     andThen (expectType reply IMB_MSG_SHUTDOWN) (\<lambda>_.
     emit ShutdownOk))"

section \<open>The two checks\<close>

definition Client_runMetalCompute :: "transport \<Rightarrow> (client, unit) prog" where
  "Client_runMetalCompute T =
     andThen (Client_createResource T 16) (\<lambda>resource.
     andThen (Client_writeResource T resource [1, 2, 3, 4]) (\<lambda>_.
     andThen (Client_submitAdd T resource 4 5) (\<lambda>fence.
     andThen (Client_waitFence T fence) (\<lambda>_.
     andThen (Client_readResourceBytes T resource 16) (\<lambda>values.
     andThen (require (values = [6, 0, 0, 0, 7, 0, 0, 0, 8, 0, 0, 0, 9, 0, 0, 0])
       ''Metal ADD_U32 readback mismatch'') (\<lambda>_.
     andThen (emit ComputeVerified) (\<lambda>_.
     Client_destroyResource T resource)))))))"

text \<open>The pixel loop: four bytes a step, as long as bytes are left; the number of pixels that are not
  the clear colour. The caller has a multiple of four bytes, so the last equation is never reached.\<close>

fun changedPixelsLoop :: "bytes \<Rightarrow> bytes \<Rightarrow> nat \<Rightarrow> exn + nat" where
  "changedPixelsLoop clear [] changedPixels = Inr changedPixels"
| "changedPixelsLoop clear (r # g # b # a # rest) changedPixels =
     (if a \<noteq> 0xff then Inl (RuntimeError ''Metal triangle image contains a non-opaque pixel'')
      else changedPixelsLoop clear rest
        (if clear \<noteq> [r, g, b, a] then changedPixels + 1 else changedPixels))"
| "changedPixelsLoop clear _ changedPixels = Inl Blocked"

definition ppmBytes :: "bytes \<Rightarrow> u32 \<Rightarrow> u32 \<Rightarrow> bytes" where
  "ppmBytes rgba width height =
     bytes_of (''P6'' @ [CHR 0x0A] @ decimal (unat width) @ '' '' @ decimal (unat height)
       @ [CHR 0x0A] @ ''255'' @ [CHR 0x0A])
     @ concat (map (\<lambda>k. [rgba ! (4 * k), rgba ! (4 * k + 1), rgba ! (4 * k + 2)]) [0..<length rgba div 4])"

definition Client_writePPM :: "probe \<Rightarrow> string \<Rightarrow> bytes \<Rightarrow> u32 \<Rightarrow> u32 \<Rightarrow> (client, unit) prog" where
  "Client_writePPM P path rgba width height =
     andThen (require (createOk P) ''could not create raster output '') (\<lambda>_.
     andThen (\<lambda>s. (Inr (), s\<lparr>ppmFile := Some (path, ppmBytes rgba width height)\<rparr>)) (\<lambda>_.
     require (finishOk P) ''could not finish raster output ''))"

definition Client_runMetalRaster :: "probe \<Rightarrow> (client, unit) prog" where
  "Client_runMetalRaster P =
     (let T = transport_of P; width = 64 :: u32; height = 64 :: u32; clearRGBA8 = 0xff201810 :: u32 in
      andThen (Client_createImage T width height) (\<lambda>img.
      andThen (Client_submitTriangle T img clearRGBA8) (\<lambda>fence.
      andThen (Client_waitFence T fence) (\<lambda>_.
      andThen (Client_readResourceBytes T img (ucast width * ucast height * 4)) (\<lambda>pixels.
      let clear = [0x10, 0x18, 0x20, 0xff] :: bytes in
      andThen (require (take 4 pixels = clear) ''Metal triangle clear-color corner mismatch'') (\<lambda>_.
      andThen (liftE (changedPixelsLoop clear pixels 0)) (\<lambda>changedPixels.
      andThen (require (\<not> (changedPixels < 512 \<or> changedPixels \<ge> unat (width * height)))
        ''Metal triangle changed-pixel coverage is invalid: '') (\<lambda>_.
      andThen (case imageOutput P of Some path \<Rightarrow> Client_writePPM P path pixels width height
               | None \<Rightarrow> ret ()) (\<lambda>_.
      andThen (emit (RasterVerified width height changedPixels (imageOutput P))) (\<lambda>_.
      Client_destroyResource T img))))))))))"

definition Client_run :: "probe \<Rightarrow> (client, unit) prog" where
  "Client_run P =
     (let T = transport_of P;
          required = IMB_CAP_METAL_BUFFER OR IMB_CAP_METAL_COMPUTE OR IMB_CAP_RESOURCE_IO OR IMB_CAP_REAL_FENCE;
          rasterRequired = IMB_CAP_METAL_IMAGE OR IMB_CAP_METAL_RASTER OR IMB_CAP_RESOURCE_IO OR IMB_CAP_REAL_FENCE in
      andThen (Client_hello T) (\<lambda>_.
      andThen (Client_queryCapabilities T) (\<lambda>_.
      andThen (Client_ping T) (\<lambda>_.
      andThen (\<lambda>s. if capabilityBits s AND required = required then Client_runMetalCompute T s
                else emit ComputeSkipped s) (\<lambda>_.
      andThen (\<lambda>s. if capabilityBits s AND rasterRequired = rasterRequired then Client_runMetalRaster P s
                else emit RasterSkipped s) (\<lambda>_.
      Client_shutdown T))))))"

text \<open>The client as it is constructed: nothing sent, request numbers from 1.\<close>

definition Client_init :: "channel \<Rightarrow> client" where
  "Client_init c = \<lparr>chan = c, nextRequestID = 1, capabilityBits = 0, outputLog = [], ppmFile = None\<rparr>"

section \<open>The discipline of a run\<close>

lemma speaks_emit [intro]: "speaks (emit st)"
  by (rule speaks_silent) (simp_all add: emit_def)

lemma speaks_expectType [intro]: "speaks (expectType f ty)"
  by (auto simp: expectType_def)

lemma speaks_let [intro]: "(\<And>x. speaks (f x)) \<Longrightarrow> speaks (let x = v in f x)"
  by (simp add: Let_def)

lemma speaks_bits [intro]: "speaks (\<lambda>s. (Inr (), s\<lparr>capabilityBits := b\<rparr>))"
  by (rule speaks_silent) simp_all

lemma speaks_ppm [intro]: "speaks (\<lambda>s. (Inr (), s\<lparr>ppmFile := f\<rparr>))"
  by (rule speaks_silent) simp_all

lemma speaks_choice [intro]: "speaks m \<Longrightarrow> speaks m' \<Longrightarrow> speaks (\<lambda>s. if b s then m s else m' s)"
  by (auto simp: speaks_def)

context byte_transport begin

lemma speaks_Client_exchange: "length p \<le> 16777216 \<Longrightarrow> speaks (Client_exchange T ty p rid)"
  unfolding Client_exchange_def by (rule speaks_exchange)

lemma speaks_client_steps [intro]:
  "speaks (Client_hello T)" "speaks (Client_queryCapabilities T)" "speaks (Client_ping T)"
  "speaks (Client_createResource T sz)" "speaks (Client_createImage T w h)"
  "length vs \<le> 1024 \<Longrightarrow> speaks (Client_writeResource T r vs)" "speaks (Client_submitAdd T r n a)"
  "speaks (Client_submitTriangle T r cl)" "speaks (Client_waitFence T r)"
  "speaks (Client_readResourceBytes T r m)" "speaks (Client_destroyResource T r)"
  "speaks (Client_shutdown T)"
  unfolding Client_hello_def Client_queryCapabilities_def Client_ping_def Client_createResource_def
    Client_createImage_def Client_writeResource_def Client_submitAdd_def Client_submitTriangle_def
    Client_waitFence_def Client_readResourceBytes_def Client_destroyResource_def Client_shutdown_def Let_def
  by (intro speaks_andThen speaks_basic speaks_emit speaks_expectType speaks_bits speaks_Client_exchange
    | simp add: appendLittleEndian_eq fold_append_length bytes_of_def)+

lemma speaks_run:
  assumes P: "transport_of P = T"
  shows "speaks (Client_run P)"
  unfolding Client_run_def Client_runMetalCompute_def Client_runMetalRaster_def Client_writePPM_def
    Let_def P
  by (intro speaks_andThen speaks_choice; (auto intro!: speaks_client_steps split: option.split)?)

end

end
