(* ===== verification/BridgeConn.thy ===== *)
theory BridgeConn
  imports ProbeClient
begin

text \<open>
  The connection of the Vulkan driver to the host, class \<^verbatim>\<open>BridgeConnection\<close> of
  \<^verbatim>\<open>guest/vulkan_icd/imb_vulkan_icd.cpp\<close>: the handshake in its constructor, one method per request, and
  the shutdown. It shares the exchange with the probe's client, with a stricter test of the reply header. A payload is
  built from a list of fields, one for each call of \<^verbatim>\<open>appendLittleEndian\<close>. Floating point numbers are their bit
  patterns: the code only copies them.
\<close>

section \<open>Fields of a payload\<close>

datatype field = F16 u16 | F32 u32 | F64 u64

fun appendField :: "bytes \<Rightarrow> field \<Rightarrow> bytes" where
  "appendField out (F16 v) = appendLittleEndian out v"
| "appendField out (F32 v) = appendLittleEndian out v"
| "appendField out (F64 v) = appendLittleEndian out v"

definition appendFields :: "bytes \<Rightarrow> field list \<Rightarrow> bytes" where
  "appendFields out fs = fold (\<lambda>f out. appendField out f) fs out"

section \<open>Constants and structures\<close>

definition IMB_CAP_METAL_AVAILABLE :: u64 where "IMB_CAP_METAL_AVAILABLE = push_bit 0 1"
definition IMB_CAP_METAL_UI_RASTER :: u64 where "IMB_CAP_METAL_UI_RASTER = push_bit 11 1"

definition kRequiredCapabilities :: u64 where
  "kRequiredCapabilities = IMB_CAP_METAL_AVAILABLE OR IMB_CAP_METAL_BUFFER OR IMB_CAP_METAL_COMPUTE
     OR IMB_CAP_METAL_IMAGE OR IMB_CAP_METAL_RASTER OR IMB_CAP_METAL_UI_RASTER OR IMB_CAP_RESOURCE_IO
     OR IMB_CAP_REAL_FENCE"

definition IMB_IMAGE_OPTION_NONE :: u32 where "IMB_IMAGE_OPTION_NONE = 0"
definition IMB_IMAGE_OPTION_SPARSE :: u32 where "IMB_IMAGE_OPTION_SPARSE = 1"
definition IMB_IMAGE_OPTION_3D :: u32 where "IMB_IMAGE_OPTION_3D = push_bit 1 1"
definition IMB_IMAGE_OPTION_DEPTH_SHIFT :: nat where "IMB_IMAGE_OPTION_DEPTH_SHIFT = 16"
definition IMB_SPARSE_MAPPING_MAP :: u32 where "IMB_SPARSE_MAPPING_MAP = 0"
definition IMB_SPARSE_MAPPING_UNMAP :: u32 where "IMB_SPARSE_MAPPING_UNMAP = 1"
definition IMB_COMPUTE_PIPELINE_FLAG_SOFTWARE_FP64_EXECUTION_REQUIRED :: u32 where
  "IMB_COMPUTE_PIPELINE_FLAG_SOFTWARE_FP64_EXECUTION_REQUIRED = 1"

definition IMB_TRACE_RAYS_OPTION_NONE :: u32 where "IMB_TRACE_RAYS_OPTION_NONE = 0"
definition IMB_TRACE_RAYS_OPTION_LIVE_CAMERA :: u32 where "IMB_TRACE_RAYS_OPTION_LIVE_CAMERA = push_bit 0 1"
definition IMB_TRACE_RAYS_OPTION_LIVE_SPHERE_LIGHT :: u32 where "IMB_TRACE_RAYS_OPTION_LIVE_SPHERE_LIGHT = push_bit 1 1"
definition IMB_TRACE_RAYS_OPTION_LIVE_DISTANT_LIGHT :: u32 where "IMB_TRACE_RAYS_OPTION_LIVE_DISTANT_LIGHT = push_bit 2 1"
definition IMB_TRACE_RAYS_OPTION_LIVE_DOME_LIGHT :: u32 where "IMB_TRACE_RAYS_OPTION_LIVE_DOME_LIGHT = push_bit 3 1"
definition IMB_TRACE_RAYS_OPTION_EMPTY_STAGE_GRID :: u32 where "IMB_TRACE_RAYS_OPTION_EMPTY_STAGE_GRID = push_bit 4 1"
definition IMB_TRACE_RAYS_OPTION_ADDITIONAL_LIGHTS :: u32 where "IMB_TRACE_RAYS_OPTION_ADDITIONAL_LIGHTS = push_bit 5 1"
definition IMB_TRACE_RAYS_MAX_ADDITIONAL_LIGHTS :: nat where "IMB_TRACE_RAYS_MAX_ADDITIONAL_LIGHTS = 16"

record Capabilities =
  cap_bits :: u64
  maxBufferLength :: u64
  deviceName :: bytes

record BridgeSparseImageProperties =
  sparse_tileWidth :: u32
  sparse_tileHeight :: u32
  sparse_tileDepth :: u32
  sparse_tileSizeBytes :: u64

record BridgeUIDraw =
  draw_textureID :: u64
  draw_indexCount :: u32
  draw_firstIndex :: u32
  draw_vertexOffset :: u32
  draw_scissorX :: u32
  draw_scissorY :: u32
  draw_scissorWidth :: u32
  draw_scissorHeight :: u32

record BridgeComputeBinding =
  binding_descriptorSet :: u32
  binding_binding :: u32
  binding_arrayElement :: u32
  binding_kind :: u32
  binding_format :: u32
  binding_resourceID :: u64
  binding_offset :: u64
  binding_length :: u64

record BridgePrimitiveAccelerationStructureGeometry =
  geometry_kind :: u32
  geometry_flags :: u32
  geometry_dataResourceID :: u64
  geometry_dataOffset :: u64
  geometry_primitiveCount :: u32
  geometry_stride :: u32
  geometry_indexResourceID :: u64
  geometry_indexOffset :: u64
  geometry_indexType :: u32
  geometry_vertexFormat :: u32
  geometry_transformResourceID :: u64
  geometry_transformOffset :: u64

text \<open>The array of twelve components is a list; \<open>float3\<close> is an array of three.\<close>

record BridgeInstanceAccelerationStructureInstance =
  instance_transformationBits :: "u32 list"
  instance_options :: u32
  instance_mask :: u32
  instance_intersectionFunctionTableOffset :: u32
  instance_userID :: u32
  instance_accelerationStructureResourceID :: u64

type_synonym float3 = "u32 \<times> u32 \<times> u32"

record BridgeAdditionalLight =
  light_kind :: u32
  light_schema :: u32
  light_values :: "u32 list"
  light_pathHash :: u64
  light_shapingAxis :: float3
  light_shapingConeAngleDegrees :: u32
  light_shapingConeSoftness :: u32
  light_shapingFocus :: u32
  light_shapingFocusTint :: float3
  light_shapingFlags :: u32
  light_iesAngleScale :: u32
  light_iesMultiplier :: u32
  light_textureFlags :: u32
  light_emissionTextureResourceID :: u64
  light_iesTextureResourceID :: u64

record BridgeRayCamera =
  camera_position :: float3
  camera_forward :: float3
  camera_up :: float3
  camera_verticalFOVRadians :: u32
  camera_nearDistance :: u32
  camera_farDistance :: u32
  hasSphereLight :: bool
  sphereLightPosition :: float3
  sphereLightColor :: float3
  sphereLightIntensity :: u32
  sphereLightRadius :: u32
  hasDistantLight :: bool
  distantLightDirection :: float3
  distantLightColor :: float3
  distantLightIntensity :: u32
  distantLightAngleDegrees :: u32
  hasDomeLight :: bool
  domeLightColor :: float3
  domeLightIntensity :: u32
  completeLightList :: bool
  additionalLights :: "BridgeAdditionalLight list"

definition emptyCamera :: BridgeRayCamera where
  "emptyCamera = \<lparr>camera_position = (0, 0, 0), camera_forward = (0, 0, 0), camera_up = (0, 0, 0),
     camera_verticalFOVRadians = 0, camera_nearDistance = 0, camera_farDistance = 0, hasSphereLight = False,
     sphereLightPosition = (0, 0, 0), sphereLightColor = (0, 0, 0), sphereLightIntensity = 0, sphereLightRadius = 0,
     hasDistantLight = False, distantLightDirection = (0, 0, 0), distantLightColor = (0, 0, 0),
     distantLightIntensity = 0, distantLightAngleDegrees = 0, hasDomeLight = False, domeLightColor = (0, 0, 0),
     domeLightIntensity = 0, completeLightList = False, additionalLights = []\<rparr>"

section \<open>The connection\<close>

record bridge = endpoint +
  connected :: bool
  capabilities :: Capabilities

definition bridge_checkReply :: "u64 \<Rightarrow> imb_message_header \<Rightarrow> exn + unit" where
  "bridge_checkReply requestID h =
     (if magic h \<noteq> IMB_PROTOCOL_MAGIC \<or> version_major h \<noteq> IMB_PROTOCOL_VERSION_MAJOR
        \<or> version_minor h \<noteq> IMB_PROTOCOL_VERSION_MINOR \<or> flags h \<noteq> IMB_FLAG_RESPONSE
        \<or> request_id h \<noteq> requestID \<or> payload_length h > IMB_PROTOCOL_MAX_PAYLOAD
      then Inl (RuntimeError ''invalid IMB response header'') else Inr ())"

definition bridge_protocolError :: "bytes \<Rightarrow> exn" where
  "bridge_protocolError payload =
     (if length payload < 8 then RuntimeError ''malformed IMB error''
      else case (readLittleEndian payload 0, readLittleEndian payload 4) of
        (Inr code, Inr len) \<Rightarrow>
          if unat (len :: u32) > length payload - 8 then RuntimeError ''malformed IMB error text''
          else HostError code (take (unat len) (drop 8 payload))
      | (Inl e, _) \<Rightarrow> e
      | (_, Inl e) \<Rightarrow> e)"

definition bridge_exchange :: "imb_message_type \<Rightarrow> bytes \<Rightarrow> u64 \<Rightarrow> (bridge, frame) prog" where
  "bridge_exchange type payload resourceID =
     exchange_with bridge_checkReply bridge_protocolError BridgeSocket type payload resourceID"

definition bridge_expectType :: "frame \<Rightarrow> imb_message_type \<Rightarrow> (bridge, unit) prog" where
  "bridge_expectType f expected =
     (if message_type (frame_header f) \<noteq> message_code expected
      then throwE (UnexpectedReply (message_type (frame_header f))) else ret ())"

definition bridge_hello :: "(bridge, unit) prog" where
  "bridge_hello =
     (let payload = appendFields [] [F16 IMB_PROTOCOL_VERSION_MAJOR, F16 IMB_PROTOCOL_VERSION_MINOR,
            F16 IMB_PROTOCOL_VERSION_MAJOR, F16 IMB_PROTOCOL_VERSION_MINOR] in
      andThen (bridge_exchange IMB_MSG_HELLO payload 0) (\<lambda>reply.
      andThen (bridge_expectType reply IMB_MSG_HELLO_REPLY) (\<lambda>_.
      require (length (frame_payload reply) = 8) ''invalid IMB HELLO_REPLY size'')))"

definition bridge_queryCapabilities :: "(bridge, Capabilities) prog" where
  "bridge_queryCapabilities =
     andThen (bridge_exchange IMB_MSG_QUERY_CAPABILITIES [] 0) (\<lambda>reply.
     andThen (bridge_expectType reply IMB_MSG_CAPABILITIES_REPLY) (\<lambda>_.
     andThen (require (\<not> length (frame_payload reply) < 24) ''invalid IMB capability payload'') (\<lambda>_.
     andThen (liftE (readLittleEndian (frame_payload reply) 0)) (\<lambda>bits.
     andThen (liftE (readLittleEndian (frame_payload reply) 8)) (\<lambda>maxBuffer.
     andThen (liftE (readLittleEndian (frame_payload reply) 16)) (\<lambda>nameLength.
     andThen (require (\<not> unat (nameLength :: u32) > length (frame_payload reply) - 24)
       ''invalid IMB Metal device name length'') (\<lambda>_.
     ret \<lparr>cap_bits = bits, maxBufferLength = maxBuffer,
          deviceName = take (unat nameLength) (drop 24 (frame_payload reply))\<rparr>)))))))"

text \<open>The constructor, on the connection that was accepted.\<close>

definition bridge_init :: "channel \<Rightarrow> bridge" where
  "bridge_init c = \<lparr>chan = c, nextRequestID = 1, connected = True,
     capabilities = \<lparr>cap_bits = 0, maxBufferLength = 0, deviceName = []\<rparr>\<rparr>"

definition bridge_construct :: "(bridge, unit) prog" where
  "bridge_construct =
     andThen bridge_hello (\<lambda>_.
     andThen bridge_queryCapabilities (\<lambda>caps.
     andThen (\<lambda>s. (Inr (), s\<lparr>capabilities := caps\<rparr>)) (\<lambda>_.
     require (\<not> cap_bits caps AND kRequiredCapabilities \<noteq> kRequiredCapabilities)
       ''host does not advertise the verified IMB Metal data path'')))"

text \<open>An exception of the last exchange is caught and printed; then the connection is closed in any case.\<close>

definition bridge_shutdown :: "(bridge, unit) prog" where
  "bridge_shutdown =
     (\<lambda>s. if \<not> connected s then (Inr (), s)
        else case andThen (bridge_exchange IMB_MSG_SHUTDOWN [] 0) (\<lambda>reply. bridge_expectType reply IMB_MSG_SHUTDOWN) s of
          (Inl Blocked, s') \<Rightarrow> (Inl Blocked, s')
        | (_, s') \<Rightarrow> (Inr (), s'\<lparr>connected := False\<rparr>))"

text \<open>What most methods do with a reply: its type is the request's, and it names a resource or fence.\<close>

definition exchange_for_id :: "imb_message_type \<Rightarrow> bytes \<Rightarrow> u64 \<Rightarrow> string \<Rightarrow> (bridge, u64) prog" where
  "exchange_for_id type payload resourceID zeroError =
     andThen (bridge_exchange type payload resourceID) (\<lambda>reply.
     andThen (bridge_expectType reply type) (\<lambda>_.
     andThen (require (resource_id (frame_header reply) \<noteq> 0) zeroError) (\<lambda>_.
     ret (resource_id (frame_header reply)))))"

section \<open>Resources\<close>

definition bridge_createBuffer :: "u64 \<Rightarrow> (bridge, u64) prog" where
  "bridge_createBuffer sz =
     (let payload = appendFields [] [F64 sz, F32 IMB_RESOURCE_BUFFER, F32 0] in
      exchange_for_id IMB_MSG_CREATE_RESOURCE payload 0 ''host returned resource ID zero'')"

text \<open>The size of an ordinary image: each factor is tested before it is multiplied in.\<close>

definition ordinaryImageSize :: "u32 \<Rightarrow> u32 \<Rightarrow> u32 \<Rightarrow> u64 option" where
  "ordinaryImageSize width height depth =
     (let sz = ucast width :: u64 in
      if ucast height > (- 1) div sz then None
      else let sz = sz * ucast height in
      if ucast depth > (- 1) div sz then None
      else let sz = sz * ucast depth in
      if sz > (- 1) div 4 then None
      else Some (sz * 4))"

definition bridge_createImage :: "u32 \<Rightarrow> u32 \<Rightarrow> u32 \<Rightarrow> u32 \<Rightarrow> bool \<Rightarrow> (bridge, u64) prog" where
  "bridge_createImage width height format depth texture3D =
     andThen (require (\<not> (width = 0 \<or> height = 0 \<or> depth = 0 \<or> texture3D \<and> depth > 0xffff))
       ''invalid ordinary image extent'') (\<lambda>_.
     case ordinaryImageSize width height depth of
       None \<Rightarrow> throw ''ordinary image size overflow''
     | Some sz \<Rightarrow>
         (let options = (if texture3D then IMB_IMAGE_OPTION_3D OR push_bit IMB_IMAGE_OPTION_DEPTH_SHIFT depth
                         else IMB_IMAGE_OPTION_NONE);
              payload = appendFields [] [F64 sz, F32 IMB_RESOURCE_IMAGE, F32 options, F32 width, F32 height,
                F32 format, F32 0]
          in exchange_for_id IMB_MSG_CREATE_RESOURCE payload 0 ''host returned image resource ID zero''))"

definition bridge_querySparseImageProperties :: "u32 \<Rightarrow> u32 \<Rightarrow> u32 \<Rightarrow> (bridge, BridgeSparseImageProperties) prog" where
  "bridge_querySparseImageProperties format textureType sampleCount =
     (let payload = appendFields [] [F32 format, F32 textureType, F32 sampleCount, F32 0] in
      andThen (bridge_exchange IMB_MSG_QUERY_SPARSE_IMAGE_PROPERTIES payload 0) (\<lambda>reply.
      andThen (bridge_expectType reply IMB_MSG_QUERY_SPARSE_IMAGE_PROPERTIES) (\<lambda>_.
      andThen (require (length (frame_payload reply) = 24) ''invalid sparse image properties reply'') (\<lambda>_.
      andThen (liftE (readLittleEndian (frame_payload reply) 0)) (\<lambda>width.
      andThen (liftE (readLittleEndian (frame_payload reply) 4)) (\<lambda>height.
      andThen (liftE (readLittleEndian (frame_payload reply) 8)) (\<lambda>depth.
      andThen (liftE (readLittleEndian (frame_payload reply) 16)) (\<lambda>sizeBytes.
      andThen (require (\<not> (width = 0 \<or> height = 0 \<or> depth = 0 \<or> sizeBytes = 0))
        ''host returned empty sparse image properties'') (\<lambda>_.
      ret \<lparr>sparse_tileWidth = width, sparse_tileHeight = height, sparse_tileDepth = depth,
           sparse_tileSizeBytes = sizeBytes\<rparr>)))))))))"

definition bridge_createSparseImage :: "u64 \<Rightarrow> u32 \<Rightarrow> u32 \<Rightarrow> u32 \<Rightarrow> u32 \<Rightarrow> u32 \<Rightarrow> u32 \<Rightarrow> u32 \<Rightarrow> (bridge, u64) prog" where
  "bridge_createSparseImage virtualSize width height format mipLevels arrayLayers sampleCount textureType =
     (let payload = appendFields [] [F64 virtualSize, F32 IMB_RESOURCE_IMAGE, F32 IMB_IMAGE_OPTION_SPARSE, F32 width,
            F32 height, F32 format, F32 mipLevels, F32 arrayLayers, F32 sampleCount, F32 textureType, F32 0] in
      exchange_for_id IMB_MSG_CREATE_RESOURCE payload 0 ''host returned sparse image resource ID zero'')"

definition bridge_updateSparseImageMapping ::
  "u64 \<Rightarrow> bool \<Rightarrow> u32 \<Rightarrow> u32 \<Rightarrow> u32 \<Rightarrow> u32 \<Rightarrow> u32 \<Rightarrow> u32 \<Rightarrow> u32 \<Rightarrow> u32 \<Rightarrow> (bridge, unit) prog" where
  "bridge_updateSparseImageMapping resourceID do_map mipLevel slc tileX tileY tileZ tileWidth tileHeight tileDepth =
     (let payload = appendFields [] [F32 (if do_map then IMB_SPARSE_MAPPING_MAP else IMB_SPARSE_MAPPING_UNMAP),
            F32 mipLevel, F32 slc, F32 0, F32 tileX, F32 tileY, F32 tileZ, F32 tileWidth, F32 tileHeight,
            F32 tileDepth] in
      andThen (bridge_exchange IMB_MSG_UPDATE_SPARSE_IMAGE_MAPPING payload resourceID) (\<lambda>reply.
      bridge_expectType reply IMB_MSG_UPDATE_SPARSE_IMAGE_MAPPING))"

text \<open>The entry point is a C string, or null; the second result is what is stored through the last argument.\<close>

definition bridge_createComputePipeline :: "u32 list \<Rightarrow> bytes option \<Rightarrow> (bridge, u64 \<times> u32) prog" where
  "bridge_createComputePipeline code entryPoint =
     andThen (require (\<not> (code = [] \<or> entryPoint = None \<or> entryPoint = Some []))
       ''invalid SPIR-V compute pipeline request'') (\<lambda>_.
     let entry = the entryPoint;
         spirvLength = length code * 4;
         entryPointLength = length entry;
         payloadLength = 16 + spirvLength + entryPointLength in
     andThen (require (\<not> (spirvLength > 0xffffffff \<or> entryPointLength > 1024
         \<or> payloadLength > unat IMB_PROTOCOL_MAX_PAYLOAD))
       ''SPIR-V compute pipeline request exceeds IMB limits'') (\<lambda>_.
     let payload = appendFields [] [F32 (word_of_nat spirvLength), F32 (word_of_nat entryPointLength), F32 0, F32 0]
           @ concat (map le_bytes code) @ entry in
     andThen (bridge_exchange IMB_MSG_CREATE_COMPUTE_PIPELINE payload 0) (\<lambda>reply.
     andThen (bridge_expectType reply IMB_MSG_CREATE_COMPUTE_PIPELINE) (\<lambda>_.
     andThen (require (resource_id (frame_header reply) \<noteq> 0) ''host returned compute pipeline resource ID zero'') (\<lambda>_.
     andThen (if length (frame_payload reply) \<ge> 4 then liftE (readLittleEndian (frame_payload reply) 0)
              else ret IMB_COMPUTE_PIPELINE_FLAG_SOFTWARE_FP64_EXECUTION_REQUIRED) (\<lambda>creationFlags.
     ret (resource_id (frame_header reply), creationFlags)))))))"

section \<open>Acceleration structures\<close>

definition bridge_createAccelerationStructure :: "u32 \<Rightarrow> u64 \<Rightarrow> (bridge, u64) prog" where
  "bridge_createAccelerationStructure type requestedSize =
     (let payload = appendFields [] [F64 requestedSize, F32 type, F32 0] in
      exchange_for_id IMB_MSG_CREATE_ACCELERATION_STRUCTURE payload 0
        ''host returned acceleration structure resource ID zero'')"

definition geometry_fields :: "BridgePrimitiveAccelerationStructureGeometry \<Rightarrow> field list" where
  "geometry_fields g = [F32 (geometry_kind g), F32 (geometry_flags g), F64 (geometry_dataResourceID g),
     F64 (geometry_dataOffset g), F32 (geometry_primitiveCount g), F32 (geometry_stride g),
     F64 (geometry_indexResourceID g), F64 (geometry_indexOffset g), F32 (geometry_indexType g),
     F32 (geometry_vertexFormat g), F64 (geometry_transformResourceID g), F64 (geometry_transformOffset g)]"

definition bridge_buildPrimitive ::
  "u64 \<Rightarrow> u32 \<Rightarrow> BridgePrimitiveAccelerationStructureGeometry list \<Rightarrow> (bridge, unit) prog" where
  "bridge_buildPrimitive resourceID buildFlags geometries =
     andThen (require (\<not> (resourceID = 0 \<or> geometries = [] \<or> length geometries > 65535))
       ''invalid primitive acceleration structure build request'') (\<lambda>_.
     andThen (require (\<not> 16 + length geometries * 72 > unat IMB_PROTOCOL_MAX_PAYLOAD)
       ''primitive acceleration structure build exceeds IMB payload limit'') (\<lambda>_.
     let payload = appendFields [] [F32 (word_of_nat (length geometries)), F32 buildFlags, F32 0, F32 0];
         payload = fold (\<lambda>g payload. appendFields payload (geometry_fields g)) geometries payload in
     andThen (bridge_exchange IMB_MSG_BUILD_PRIMITIVE_ACCELERATION_STRUCTURE payload resourceID) (\<lambda>reply.
     andThen (bridge_expectType reply IMB_MSG_BUILD_PRIMITIVE_ACCELERATION_STRUCTURE) (\<lambda>_.
     require (resource_id (frame_header reply) = resourceID)
       ''host returned the wrong acceleration structure resource ID''))))"

definition instance_fields :: "BridgeInstanceAccelerationStructureInstance \<Rightarrow> field list" where
  "instance_fields i = map F32 (instance_transformationBits i) @ [F32 (instance_options i), F32 (instance_mask i),
     F32 (instance_intersectionFunctionTableOffset i), F32 (instance_userID i),
     F64 (instance_accelerationStructureResourceID i), F64 0]"

definition bridge_buildInstance ::
  "u64 \<Rightarrow> u32 \<Rightarrow> BridgeInstanceAccelerationStructureInstance list \<Rightarrow> (bridge, unit) prog" where
  "bridge_buildInstance resourceID buildFlags instances =
     andThen (require (\<not> (resourceID = 0 \<or> instances = [] \<or> length instances > 1048576))
       ''invalid instance acceleration structure build request'') (\<lambda>_.
     andThen (require (\<not> 16 + length instances * 80 > unat IMB_PROTOCOL_MAX_PAYLOAD)
       ''instance acceleration structure build exceeds IMB payload limit'') (\<lambda>_.
     let payload = appendFields [] [F32 (word_of_nat (length instances)), F32 buildFlags, F32 0, F32 0];
         payload = fold (\<lambda>i payload. appendFields payload (instance_fields i)) instances payload in
     andThen (bridge_exchange IMB_MSG_BUILD_INSTANCE_ACCELERATION_STRUCTURE payload resourceID) (\<lambda>reply.
     andThen (bridge_expectType reply IMB_MSG_BUILD_INSTANCE_ACCELERATION_STRUCTURE) (\<lambda>_.
     require (resource_id (frame_header reply) = resourceID)
       ''host returned the wrong instance acceleration structure resource ID''))))"

definition bridge_destroyBuffer :: "u64 \<Rightarrow> (bridge, unit) prog" where
  "bridge_destroyBuffer resourceID =
     andThen (bridge_exchange IMB_MSG_DESTROY_RESOURCE [] resourceID) (\<lambda>reply.
     bridge_expectType reply IMB_MSG_DESTROY_RESOURCE)"

section \<open>Reading and writing resources\<close>

text \<open>The loops go from offset to offset; the data of a write is the whole buffer, fewer than \<open>2 ^ 64\<close> bytes.\<close>

definition maxChunk :: nat where "maxChunk = unat IMB_PROTOCOL_MAX_PAYLOAD - 16"

definition writePayload :: "u64 \<Rightarrow> bytes \<Rightarrow> bytes" where
  "writePayload destination chunk = appendFields [] [F64 destination, F32 (word_of_nat (length chunk)), F32 0] @ chunk"

function writeChunks :: "u64 \<Rightarrow> bytes \<Rightarrow> u64 \<Rightarrow> nat \<Rightarrow> (bridge, unit) prog" where
  "writeChunks resourceID data destinationOffset offset =
     (if \<not> offset < length data then ret ()
      else
        (let chunk = min maxChunk (length data - offset);
             payload = writePayload (destinationOffset + word_of_nat offset) (take chunk (drop offset data)) in
         andThen (bridge_exchange IMB_MSG_WRITE_RESOURCE payload resourceID) (\<lambda>reply.
         andThen (bridge_expectType reply IMB_MSG_WRITE_RESOURCE) (\<lambda>_.
         writeChunks resourceID data destinationOffset (offset + chunk)))))"
  by pat_completeness auto
termination
  by (relation "measure (\<lambda>(_, data, _, offset). length data - offset)")
    (auto simp: maxChunk_def IMB_PROTOCOL_MAX_PAYLOAD_def)

declare writeChunks.simps [simp del]

definition bridge_writeBuffer :: "u64 \<Rightarrow> bytes \<Rightarrow> u64 \<Rightarrow> (bridge, unit) prog" where
  "bridge_writeBuffer resourceID data destinationOffset = writeChunks resourceID data destinationOffset 0"

definition bridge_writeImage :: "u64 \<Rightarrow> bytes \<Rightarrow> (bridge, unit) prog" where
  "bridge_writeImage resourceID data = bridge_writeBuffer resourceID data 0"

definition readPayload :: "u64 \<Rightarrow> u64 \<Rightarrow> bytes" where
  "readPayload offset len = appendFields [] [F64 offset, F64 len]"

function readChunks :: "u64 \<Rightarrow> nat \<Rightarrow> u64 \<Rightarrow> bytes \<Rightarrow> (bridge, bytes) prog" where
  "readChunks resourceID sz remoteOffset data =
     (if \<not> length data < sz then ret data
      else
        (let chunk = min (unat IMB_PROTOCOL_MAX_PAYLOAD) (sz - length data);
             payload = readPayload (remoteOffset + word_of_nat (length data)) (word_of_nat chunk) in
         andThen (bridge_exchange IMB_MSG_READ_RESOURCE payload resourceID) (\<lambda>reply.
         andThen (bridge_expectType reply IMB_MSG_READ_RESOURCE) (\<lambda>_.
         if length (frame_payload reply) \<noteq> chunk then throw ''host returned wrong readback size''
         else readChunks resourceID sz remoteOffset (data @ frame_payload reply)))))"
  by pat_completeness auto
termination
  by (relation "measure (\<lambda>(_, sz, _, data). sz - length data)")
    (auto simp: IMB_PROTOCOL_MAX_PAYLOAD_def)

declare readChunks.simps [simp del]

definition bridge_readBuffer :: "u64 \<Rightarrow> u64 \<Rightarrow> u64 \<Rightarrow> (bridge, bytes) prog" where
  "bridge_readBuffer resourceID sz remoteOffset = readChunks resourceID (unat sz) remoteOffset []"

definition bridge_readImage :: "u64 \<Rightarrow> u64 \<Rightarrow> (bridge, bytes) prog" where
  "bridge_readImage resourceID sz =
     andThen (bridge_exchange IMB_MSG_READ_RESOURCE (readPayload 0 sz) resourceID) (\<lambda>reply.
     andThen (bridge_expectType reply IMB_MSG_READ_RESOURCE) (\<lambda>_.
     andThen (require (length (frame_payload reply) = unat sz) ''host returned wrong image readback size'') (\<lambda>_.
     ret (frame_payload reply))))"

section \<open>Commands\<close>

definition bridge_submitNoop :: "(bridge, u64) prog" where
  "bridge_submitNoop =
     (let payload = appendFields [] [F16 (command_code IMB_COMMAND_NOOP), F16 0, F32 0] in
      exchange_for_id IMB_MSG_SUBMIT_COMMAND payload 0 ''host returned no-op fence ID zero'')"

definition bridge_submitAdd :: "u64 \<Rightarrow> u32 \<Rightarrow> u32 \<Rightarrow> (bridge, u64) prog" where
  "bridge_submitAdd resourceID elementCount addend =
     (let payload = appendFields [] [F16 (command_code IMB_COMMAND_ADD_U32), F16 0, F32 0, F32 elementCount, F32 addend] in
      exchange_for_id IMB_MSG_SUBMIT_COMMAND payload resourceID ''host returned fence ID zero'')"

definition binding_fields :: "BridgeComputeBinding \<Rightarrow> field list" where
  "binding_fields b = [F32 (binding_descriptorSet b), F32 (binding_binding b), F32 (binding_arrayElement b),
     F32 (binding_kind b), F32 (binding_format b), F32 0, F64 (binding_resourceID b), F64 (binding_offset b),
     F64 (binding_length b)]"

definition computePayload :: "u32 \<Rightarrow> u32 \<Rightarrow> u32 \<Rightarrow> BridgeComputeBinding list \<Rightarrow> bytes \<Rightarrow> bytes" where
  "computePayload groupCountX groupCountY groupCountZ bindings pushConstants =
     fold (\<lambda>b payload. appendFields payload (binding_fields b)) bindings
       (appendFields [] [F16 (command_code IMB_COMMAND_DISPATCH_COMPUTE), F16 0, F32 0, F32 groupCountX,
          F32 groupCountY, F32 groupCountZ, F32 (word_of_nat (length bindings)),
          F32 (word_of_nat (length pushConstants)), F32 0])
     @ pushConstants"

definition bridge_submitCompute ::
  "u64 \<Rightarrow> u32 \<Rightarrow> u32 \<Rightarrow> u32 \<Rightarrow> BridgeComputeBinding list \<Rightarrow> bytes \<Rightarrow> (bridge, u64) prog" where
  "bridge_submitCompute pipelineID groupCountX groupCountY groupCountZ bindings pushConstants =
     andThen (require (\<not> (pipelineID = 0 \<or> groupCountX = 0 \<or> groupCountY = 0 \<or> groupCountZ = 0
         \<or> length bindings > 0xffffffff \<or> length pushConstants > 4096)) ''invalid Metal compute dispatch request'') (\<lambda>_.
     andThen (require (\<not> 32 + length bindings * 48 + length pushConstants > unat IMB_PROTOCOL_MAX_PAYLOAD)
       ''Metal compute dispatch exceeds IMB payload limit'') (\<lambda>_.
     exchange_for_id IMB_MSG_SUBMIT_COMMAND (computePayload groupCountX groupCountY groupCountZ bindings pushConstants)
       pipelineID ''host returned compute fence ID zero''))"

definition bridge_submitTriangle :: "u64 \<Rightarrow> u32 \<Rightarrow> (bridge, u64) prog" where
  "bridge_submitTriangle resourceID clearRGBA8 =
     (let payload = appendFields [] [F16 (command_code IMB_COMMAND_DRAW_TRIANGLE), F16 0, F32 0, F32 clearRGBA8, F32 0] in
      exchange_for_id IMB_MSG_SUBMIT_COMMAND payload resourceID ''host returned raster fence ID zero'')"

definition draw_fields :: "BridgeUIDraw \<Rightarrow> field list" where
  "draw_fields d = [F64 (draw_textureID d), F32 (draw_indexCount d), F32 (draw_firstIndex d), F32 (draw_vertexOffset d),
     F32 (draw_scissorX d), F32 (draw_scissorY d), F32 (draw_scissorWidth d), F32 (draw_scissorHeight d), F32 0]"

definition uiPayload :: "u64 \<Rightarrow> u64 \<Rightarrow> u64 \<Rightarrow> u64 \<Rightarrow> u32 \<Rightarrow> u32 \<Rightarrow> u32 \<Rightarrow> BridgeUIDraw list \<Rightarrow> bytes" where
  "uiPayload vertexBufferID indexBufferID vertexBufferOffset indexBufferOffset width height clearRGBA8 draws =
     fold (\<lambda>d payload. appendFields payload (draw_fields d)) draws
       (appendFields [] [F16 (command_code IMB_COMMAND_DRAW_INDEXED_UI), F16 0, F32 0, F64 vertexBufferID,
          F64 indexBufferID, F64 vertexBufferOffset, F64 indexBufferOffset, F32 width, F32 height, F32 clearRGBA8,
          F32 (word_of_nat (length draws))])"

definition bridge_submitIndexedUI ::
  "u64 \<Rightarrow> u64 \<Rightarrow> u64 \<Rightarrow> u64 \<Rightarrow> u64 \<Rightarrow> u32 \<Rightarrow> u32 \<Rightarrow> u32 \<Rightarrow> BridgeUIDraw list \<Rightarrow> (bridge, u64) prog" where
  "bridge_submitIndexedUI imageID vertexBufferID indexBufferID vertexBufferOffset indexBufferOffset width height
     clearRGBA8 draws =
     andThen (require (\<not> (draws = [] \<or> length draws > 0xffffffff)) ''invalid Kit UI draw count'') (\<lambda>_.
     andThen (require (\<not> 56 + length draws * 40 > unat IMB_PROTOCOL_MAX_PAYLOAD)
       ''Kit UI command exceeds IMB payload limit'') (\<lambda>_.
     exchange_for_id IMB_MSG_SUBMIT_COMMAND
       (uiPayload vertexBufferID indexBufferID vertexBufferOffset indexBufferOffset width height clearRGBA8 draws)
       imageID ''host returned Kit UI fence ID zero''))"

fun float3_fields :: "float3 \<Rightarrow> field list" where
  "float3_fields (x, y, z) = [F32 x, F32 y, F32 z]"

definition camera_fields :: "BridgeRayCamera \<Rightarrow> field list" where
  "camera_fields c = float3_fields (camera_position c) @ float3_fields (camera_forward c) @ float3_fields (camera_up c)
     @ [F32 (camera_verticalFOVRadians c), F32 (camera_nearDistance c), F32 (camera_farDistance c)]
     @ float3_fields (sphereLightPosition c) @ float3_fields (sphereLightColor c)
     @ [F32 (sphereLightIntensity c), F32 (sphereLightRadius c)]
     @ float3_fields (distantLightDirection c) @ float3_fields (distantLightColor c)
     @ [F32 (distantLightIntensity c), F32 (distantLightAngleDegrees c)]
     @ float3_fields (domeLightColor c) @ [F32 (domeLightIntensity c)]"

definition light_fields :: "BridgeAdditionalLight \<Rightarrow> field list" where
  "light_fields l = [F32 (light_kind l), F32 (light_schema l)] @ map F32 (light_values l) @ [F64 (light_pathHash l)]
     @ float3_fields (light_shapingAxis l) @ [F32 (light_shapingConeAngleDegrees l), F32 (light_shapingConeSoftness l),
       F32 (light_shapingFocus l)] @ float3_fields (light_shapingFocusTint l) @ [F32 (light_shapingFlags l),
       F64 (light_emissionTextureResourceID l), F64 (light_iesTextureResourceID l), F32 (light_iesAngleScale l),
       F32 (light_iesMultiplier l), F32 (light_textureFlags l), F32 0]"

definition rayOptions :: "BridgeRayCamera option \<Rightarrow> bool \<Rightarrow> u32" where
  "rayOptions camera emptyStageGrid =
     (case camera of
        None \<Rightarrow> IMB_TRACE_RAYS_OPTION_NONE
      | Some c \<Rightarrow> IMB_TRACE_RAYS_OPTION_LIVE_CAMERA
          OR (if \<not> emptyStageGrid \<and> \<not> completeLightList c \<and> hasSphereLight c
              then IMB_TRACE_RAYS_OPTION_LIVE_SPHERE_LIGHT else 0)
          OR (if \<not> emptyStageGrid \<and> \<not> completeLightList c \<and> hasDistantLight c
              then IMB_TRACE_RAYS_OPTION_LIVE_DISTANT_LIGHT else 0)
          OR (if \<not> emptyStageGrid \<and> \<not> completeLightList c \<and> hasDomeLight c
              then IMB_TRACE_RAYS_OPTION_LIVE_DOME_LIGHT else 0)
          OR (if \<not> emptyStageGrid \<and> additionalLights c \<noteq> [] then IMB_TRACE_RAYS_OPTION_ADDITIONAL_LIGHTS else 0))
     OR (if emptyStageGrid then IMB_TRACE_RAYS_OPTION_EMPTY_STAGE_GRID else 0)"

definition rayPayload :: "u64 \<Rightarrow> u32 \<Rightarrow> u32 \<Rightarrow> u32 \<Rightarrow> u32 \<Rightarrow> BridgeRayCamera option \<Rightarrow> bool \<Rightarrow> bytes" where
  "rayPayload accelerationStructureID width height missRGBA8 hitRGBA8 camera emptyStageGrid =
     (let additionalLightCount = (case camera of None \<Rightarrow> 0 | Some c \<Rightarrow> if emptyStageGrid then 0 else length (additionalLights c));
          encodedCamera = (case camera of None \<Rightarrow> emptyCamera | Some c \<Rightarrow> c);
          payload = appendFields [] [F16 (command_code IMB_COMMAND_TRACE_RAYS), F16 0, F32 0,
            F64 accelerationStructureID, F32 width, F32 height, F32 missRGBA8, F32 hitRGBA8];
          payload = appendFields payload [F32 (rayOptions camera emptyStageGrid), F32 0];
          payload = appendFields payload (camera_fields encodedCamera)
      in if additionalLightCount \<noteq> 0
         then fold (\<lambda>l payload. appendFields payload (light_fields l)) (additionalLights encodedCamera)
           (appendFields payload [F32 (word_of_nat additionalLightCount), F32 0])
         else payload)"

definition bridge_submitRayTrace ::
  "u64 \<Rightarrow> u64 \<Rightarrow> u32 \<Rightarrow> u32 \<Rightarrow> u32 \<Rightarrow> u32 \<Rightarrow> BridgeRayCamera option \<Rightarrow> bool \<Rightarrow> (bridge, u64) prog" where
  "bridge_submitRayTrace imageID accelerationStructureID width height missRGBA8 hitRGBA8 camera emptyStageGrid =
     andThen (require (\<not> (imageID = 0 \<or> \<not> emptyStageGrid \<and> accelerationStructureID = 0
         \<or> emptyStageGrid \<and> accelerationStructureID \<noteq> 0 \<or> width = 0 \<or> height = 0
         \<or> (case camera of None \<Rightarrow> False | Some c \<Rightarrow> length (additionalLights c) > IMB_TRACE_RAYS_MAX_ADDITIONAL_LIGHTS)))
       ''invalid Metal ray dispatch request'') (\<lambda>_.
     exchange_for_id IMB_MSG_SUBMIT_COMMAND
       (rayPayload accelerationStructureID width height missRGBA8 hitRGBA8 camera emptyStageGrid)
       imageID ''host returned ray dispatch fence ID zero'')"

definition bridge_waitFence :: "u64 \<Rightarrow> (bridge, unit) prog" where
  "bridge_waitFence fenceID =
     andThen (bridge_exchange IMB_MSG_WAIT_FENCE [] fenceID) (\<lambda>reply.
     andThen (bridge_expectType reply IMB_MSG_WAIT_FENCE) (\<lambda>_.
     andThen (require (length (frame_payload reply) = 8) ''host Metal fence did not signal'') (\<lambda>_.
     andThen (liftE (readLittleEndian (frame_payload reply) 0)) (\<lambda>signaled.
     require ((signaled :: u32) = 1) ''host Metal fence did not signal''))))"

end
