(* ===== verification/BridgeLayout.thy ===== *)
theory BridgeLayout
  imports BridgeConn
begin

text \<open>
  The packed structures of the protocol, \<^verbatim>\<open>protocol/include/imb_protocol.h\<close>: the payloads as the host reads
  them. The driver does not fill these structures in; it appends integer after integer. The theorems show that what it
  appends is what a reader with the structures finds.
\<close>

section \<open>Packed structures\<close>

datatype member_type = uint16 | uint32 | uint64 | int32 | float32

type_synonym struct = "member_type list"

fun member_size :: "member_type \<Rightarrow> nat" where
  "member_size uint16 = 2"
| "member_size uint32 = 4"
| "member_size uint64 = 8"
| "member_size int32 = 4"
| "member_size float32 = 4"

definition sizeof_struct :: "struct \<Rightarrow> nat" where
  "sizeof_struct st = sum_list (map member_size st)"

definition imb_hello_payload :: struct where
  "imb_hello_payload = [uint16, uint16, uint16, uint16]"

definition imb_hello_reply_payload :: struct where
  "imb_hello_reply_payload = [uint16, uint16, uint32]"

definition imb_capabilities_payload :: struct where
  "imb_capabilities_payload = [uint64, uint64, uint32, uint32]"

definition imb_create_resource_payload :: struct where
  "imb_create_resource_payload = [uint64, uint32, uint32]"

definition imb_create_image_resource_payload :: struct where
  "imb_create_image_resource_payload = [uint64, uint32, uint32, uint32, uint32, uint32, uint32]"

definition imb_create_sparse_image_resource_payload :: struct where
  "imb_create_sparse_image_resource_payload =
     [uint64, uint32, uint32, uint32, uint32, uint32, uint32, uint32, uint32, uint32, uint32]"

definition imb_query_sparse_image_properties_payload :: struct where
  "imb_query_sparse_image_properties_payload = [uint32, uint32, uint32, uint32]"

definition imb_sparse_image_properties_payload :: struct where
  "imb_sparse_image_properties_payload = [uint32, uint32, uint32, uint32, uint64]"

definition imb_update_sparse_image_mapping_payload :: struct where
  "imb_update_sparse_image_mapping_payload =
     [uint32, uint32, uint32, uint32, uint32, uint32, uint32, uint32, uint32, uint32]"

definition imb_create_compute_pipeline_payload :: struct where
  "imb_create_compute_pipeline_payload = [uint32, uint32, uint32, uint32]"

definition imb_create_acceleration_structure_payload :: struct where
  "imb_create_acceleration_structure_payload = [uint64, uint32, uint32]"

definition imb_build_primitive_acceleration_structure_payload :: struct where
  "imb_build_primitive_acceleration_structure_payload = [uint32, uint32, uint32, uint32]"

definition imb_primitive_acceleration_structure_geometry_payload :: struct where
  "imb_primitive_acceleration_structure_geometry_payload =
     [uint32, uint32, uint64, uint64, uint32, uint32, uint64, uint64, uint32, uint32, uint64, uint64]"

definition imb_build_instance_acceleration_structure_payload :: struct where
  "imb_build_instance_acceleration_structure_payload = [uint32, uint32, uint32, uint32]"

definition imb_acceleration_structure_instance_payload :: struct where
  "imb_acceleration_structure_instance_payload =
     replicate 12 float32 @ [uint32, uint32, uint32, uint32, uint64, uint64]"

definition imb_submit_command_payload :: struct where
  "imb_submit_command_payload = [uint16, uint16, uint32]"

definition imb_add_u32_command_payload :: struct where
  "imb_add_u32_command_payload = [uint16, uint16, uint32, uint32, uint32]"

definition imb_draw_triangle_command_payload :: struct where
  "imb_draw_triangle_command_payload = [uint16, uint16, uint32, uint32, uint32]"

definition imb_draw_indexed_ui_command_payload :: struct where
  "imb_draw_indexed_ui_command_payload =
     [uint16, uint16, uint32, uint64, uint64, uint64, uint64, uint32, uint32, uint32, uint32]"

definition imb_trace_rays_command_payload :: struct where
  "imb_trace_rays_command_payload =
     [uint16, uint16, uint32, uint64, uint32, uint32, uint32, uint32, uint32, uint32]
     @ replicate 3 float32 @ replicate 3 float32 @ replicate 3 float32 @ [float32, float32, float32]
     @ replicate 3 float32 @ replicate 3 float32 @ [float32, float32]
     @ replicate 3 float32 @ replicate 3 float32 @ [float32, float32]
     @ replicate 3 float32 @ [float32]"

definition imb_trace_rays_light_list_header :: struct where
  "imb_trace_rays_light_list_header = [uint32, uint32]"

definition imb_trace_light_payload :: struct where
  "imb_trace_light_payload = [uint32, uint32] @ replicate 16 float32 @ [uint64] @ replicate 3 float32
     @ [float32, float32, float32] @ replicate 3 float32 @ [uint32, uint64, uint64, float32, float32, uint32, uint32]"

definition imb_dispatch_compute_command_payload :: struct where
  "imb_dispatch_compute_command_payload =
     [uint16, uint16, uint32, uint32, uint32, uint32, uint32, uint32, uint32]"

definition imb_compute_binding_payload :: struct where
  "imb_compute_binding_payload = [uint32, uint32, uint32, uint32, uint32, uint32, uint64, uint64, uint64]"

definition imb_ui_draw_payload :: struct where
  "imb_ui_draw_payload = [uint64, uint32, uint32, int32, uint32, uint32, uint32, uint32, uint32]"

definition imb_write_resource_payload :: struct where
  "imb_write_resource_payload = [uint64, uint32, uint32]"

definition imb_read_resource_payload :: struct where
  "imb_read_resource_payload = [uint64, uint64]"

definition imb_wait_fence_reply_payload :: struct where
  "imb_wait_fence_reply_payload = [uint32, uint32]"

definition imb_error_payload :: struct where
  "imb_error_payload = [uint32, uint32]"

lemmas imb_struct_defs = imb_hello_payload_def imb_hello_reply_payload_def imb_capabilities_payload_def
  imb_create_resource_payload_def imb_create_image_resource_payload_def
  imb_create_sparse_image_resource_payload_def imb_query_sparse_image_properties_payload_def
  imb_sparse_image_properties_payload_def imb_update_sparse_image_mapping_payload_def
  imb_create_compute_pipeline_payload_def imb_create_acceleration_structure_payload_def
  imb_build_primitive_acceleration_structure_payload_def imb_primitive_acceleration_structure_geometry_payload_def
  imb_build_instance_acceleration_structure_payload_def imb_acceleration_structure_instance_payload_def
  imb_submit_command_payload_def imb_add_u32_command_payload_def imb_draw_triangle_command_payload_def
  imb_draw_indexed_ui_command_payload_def imb_trace_rays_command_payload_def imb_trace_rays_light_list_header_def
  imb_trace_light_payload_def imb_dispatch_compute_command_payload_def imb_compute_binding_payload_def
  imb_ui_draw_payload_def imb_write_resource_payload_def imb_read_resource_payload_def
  imb_wait_fence_reply_payload_def imb_error_payload_def

text \<open>The static assertions of the header.\<close>

lemma imb_static_asserts:
  "map sizeof_struct [imb_hello_payload, imb_hello_reply_payload, imb_capabilities_payload,
     imb_create_resource_payload, imb_create_image_resource_payload, imb_create_sparse_image_resource_payload,
     imb_query_sparse_image_properties_payload, imb_sparse_image_properties_payload,
     imb_update_sparse_image_mapping_payload, imb_create_compute_pipeline_payload,
     imb_create_acceleration_structure_payload, imb_build_primitive_acceleration_structure_payload,
     imb_primitive_acceleration_structure_geometry_payload, imb_build_instance_acceleration_structure_payload,
     imb_acceleration_structure_instance_payload, imb_submit_command_payload, imb_add_u32_command_payload,
     imb_draw_triangle_command_payload, imb_draw_indexed_ui_command_payload, imb_trace_rays_command_payload,
     imb_trace_rays_light_list_header, imb_trace_light_payload, imb_dispatch_compute_command_payload,
     imb_compute_binding_payload, imb_ui_draw_payload, imb_write_resource_payload, imb_read_resource_payload,
     imb_wait_fence_reply_payload, imb_error_payload]
   = [8, 8, 24, 16, 32, 48, 16, 24, 40, 16, 16, 16, 72, 16, 80, 8, 16, 16, 56, 168, 8, 152, 32, 48, 40, 16, 16, 8, 8]"
  by (simp add: sizeof_struct_def imb_struct_defs sum_list_replicate)

section \<open>Reading a structure\<close>

fun read_member :: "member_type \<Rightarrow> bytes \<Rightarrow> nat \<Rightarrow> exn + field" where
  "read_member uint16 buf off = bindE (readLittleEndian buf off) (\<lambda>v. Inr (F16 v))"
| "read_member uint64 buf off = bindE (readLittleEndian buf off) (\<lambda>v. Inr (F64 v))"
| "read_member _ buf off = bindE (readLittleEndian buf off) (\<lambda>v. Inr (F32 v))"

fun read_struct :: "struct \<Rightarrow> bytes \<Rightarrow> nat \<Rightarrow> exn + field list" where
  "read_struct [] buf off = Inr []"
| "read_struct (m # ms) buf off = bindE (read_member m buf off) (\<lambda>f.
     bindE (read_struct ms buf (off + member_size m)) (\<lambda>fs. Inr (f # fs)))"

text \<open>An array of \<open>n\<close> structures.\<close>

definition read_array :: "struct \<Rightarrow> bytes \<Rightarrow> nat \<Rightarrow> nat \<Rightarrow> (exn + field list) list" where
  "read_array st buf off n = map (\<lambda>i. read_struct st buf (off + sizeof_struct st * i)) [0..<n]"

section \<open>What the fields written are read back as\<close>

fun field_bytes :: "field \<Rightarrow> bytes" where
  "field_bytes (F16 v) = le_bytes v"
| "field_bytes (F32 v) = le_bytes v"
| "field_bytes (F64 v) = le_bytes v"

definition fields_bytes :: "field list \<Rightarrow> bytes" where
  "fields_bytes fs = concat (map field_bytes fs)"

fun fits :: "field \<Rightarrow> member_type \<Rightarrow> bool" where
  "fits (F16 _) m = (m = uint16)"
| "fits (F32 _) m = (m = uint32 \<or> m = int32 \<or> m = float32)"
| "fits (F64 _) m = (m = uint64)"

lemma fields_bytes_simps [simp]:
  "fields_bytes [] = []" "fields_bytes (f # fs) = field_bytes f @ fields_bytes fs"
  "fields_bytes (fs @ gs) = fields_bytes fs @ fields_bytes gs"
  by (simp_all add: fields_bytes_def)

lemma appendField_eq: "appendField out f = out @ field_bytes f"
  by (cases f) (simp_all add: appendLittleEndian_eq)

lemma appendFields_eq: "appendFields out fs = out @ fields_bytes fs"
proof -
  have "fold (\<lambda>f out. appendField out f) fs out = out @ fields_bytes fs"
    by (induction fs arbitrary: out) (simp_all add: appendField_eq)
  then show ?thesis by (simp add: appendFields_def)
qed

lemma fold_fields: "fold (\<lambda>x out. out @ fields_bytes (g x)) xs out = out @ concat (map (\<lambda>x. fields_bytes (g x)) xs)"
  by (induction xs arbitrary: out) simp_all

lemma length_field_bytes: "fits f m \<Longrightarrow> length (field_bytes f) = member_size m"
  by (cases f; cases m) simp_all

lemma read_member_fits: "fits f m \<Longrightarrow> read_member m (pre @ field_bytes f @ post) (length pre) = Inr f"
  by (cases f; cases m) (simp_all add: u16.dec_enc u32.dec_enc u64.dec_enc)

lemma length_fields_bytes: "list_all2 fits fs st \<Longrightarrow> length (fields_bytes fs) = sizeof_struct st"
  by (induction rule: list_all2_induct) (simp_all add: sizeof_struct_def length_field_bytes)

lemma read_struct_fits:
  "list_all2 fits fs st \<Longrightarrow> read_struct st (pre @ fields_bytes fs @ post) (length pre) = Inr fs"
proof (induction fs arbitrary: st pre)
  case Nil
  then show ?case by simp
next
  case (Cons f fs)
  then obtain m ms where st: "st = m # ms" "fits f m" "list_all2 fits fs ms" by (cases st) auto
  have "read_struct ms ((pre @ field_bytes f) @ fields_bytes fs @ post) (length (pre @ field_bytes f)) = Inr fs"
    by (rule Cons.IH [OF st(3)])
  then show ?case
    using read_member_fits [OF st(2), of pre "fields_bytes fs @ post"] st by (simp add: length_field_bytes)
qed

lemma read_struct_at:
  "list_all2 fits fs st \<Longrightarrow> off = length pre \<Longrightarrow> buf = pre @ fields_bytes fs @ post \<Longrightarrow> read_struct st buf off = Inr fs"
  by (simp add: read_struct_fits)

lemma length_concat_fields:
  assumes "\<And>x. x \<in> set xs \<Longrightarrow> list_all2 fits (g x) st"
  shows "length (concat (map (\<lambda>x. fields_bytes (g x)) xs)) = sizeof_struct st * length xs"
  using assms by (induction xs) (simp_all add: length_fields_bytes)

lemma read_array_fits:
  assumes "\<And>x. x \<in> set xs \<Longrightarrow> list_all2 fits (g x) st" and "off = length pre"
    and "buf = pre @ concat (map (\<lambda>x. fields_bytes (g x)) xs) @ post"
  shows "read_array st buf off (length xs) = map (\<lambda>x. Inr (g x)) xs"
proof (rule nth_equalityI)
  fix i assume "i < length (read_array st buf off (length xs))"
  then have i: "i < length xs" by (simp add: read_array_def)
  let ?b = "\<lambda>xs. concat (map (\<lambda>x. fields_bytes (g x)) xs)"
  have split: "?b xs = ?b (take i xs) @ fields_bytes (g (xs ! i)) @ ?b (drop (Suc i) xs)"
    using arg_cong [OF id_take_nth_drop [OF i], of ?b] by simp
  have len: "length (?b (take i xs)) = sizeof_struct st * i"
    using length_concat_fields [of "take i xs" g st] assms(1) i by (auto dest: in_set_takeD)
  have "read_struct st buf (off + sizeof_struct st * i) = Inr (g (xs ! i))"
    by (rule read_struct_at [where pre = "pre @ ?b (take i xs)" and post = "?b (drop (Suc i) xs) @ post"])
      (simp_all add: assms i split len)
  then show "read_array st buf off (length xs) ! i = map (\<lambda>x. Inr (g x)) xs ! i"
    using i by (simp add: read_array_def)
qed (simp add: read_array_def)

lemma fits_floats: "length vs = n \<Longrightarrow> list_all2 fits (map F32 vs) (replicate n float32)"
  by (auto simp: list_all2_conv_all_nth)

lemma fits_float3: "list_all2 fits (float3_fields v) (replicate 3 float32)"
  by (cases v) (simp add: numeral_3_eq_3)

lemma fits_append: "list_all2 fits fs st \<Longrightarrow> list_all2 fits gs st' \<Longrightarrow> list_all2 fits (fs @ gs) (st @ st')"
  by (rule list_all2_appendI)

lemma fits_records:
  "list_all2 fits (binding_fields b) imb_compute_binding_payload"
  "list_all2 fits (draw_fields d) imb_ui_draw_payload"
  "list_all2 fits (geometry_fields g) imb_primitive_acceleration_structure_geometry_payload"
  by (simp_all add: binding_fields_def draw_fields_def geometry_fields_def imb_struct_defs)

lemma fits_instance:
  "length (instance_transformationBits i) = 12
    \<Longrightarrow> list_all2 fits (instance_fields i) imb_acceleration_structure_instance_payload"
  unfolding instance_fields_def imb_acceleration_structure_instance_payload_def
  by (intro fits_append fits_floats) simp_all

lemma fits_light: "length (light_values l) = 16 \<Longrightarrow> list_all2 fits (light_fields l) imb_trace_light_payload"
  unfolding light_fields_def imb_trace_light_payload_def
  by (intro fits_append fits_floats fits_float3 | simp)+

lemma fits_camera:
  "list_all2 fits (camera_fields c) (replicate 3 float32 @ replicate 3 float32 @ replicate 3 float32
     @ [float32, float32, float32] @ replicate 3 float32 @ replicate 3 float32 @ [float32, float32]
     @ replicate 3 float32 @ replicate 3 float32 @ [float32, float32] @ replicate 3 float32 @ [float32])"
  unfolding camera_fields_def by (intro fits_append fits_float3 | simp)+

lemma imb_struct_sizes:
  "sizeof_struct imb_compute_binding_payload = 48" "sizeof_struct imb_ui_draw_payload = 40"
  "sizeof_struct imb_primitive_acceleration_structure_geometry_payload = 72"
  "sizeof_struct imb_acceleration_structure_instance_payload = 80"
  "sizeof_struct imb_trace_light_payload = 152" "sizeof_struct imb_trace_rays_command_payload = 168"
  using imb_static_asserts by simp_all

section \<open>The payloads of the commands\<close>

lemma ray_option_values:
  "IMB_TRACE_RAYS_OPTION_NONE = 0" "IMB_TRACE_RAYS_OPTION_LIVE_CAMERA = 1" "IMB_TRACE_RAYS_OPTION_LIVE_SPHERE_LIGHT = 2"
  "IMB_TRACE_RAYS_OPTION_LIVE_DISTANT_LIGHT = 4" "IMB_TRACE_RAYS_OPTION_LIVE_DOME_LIGHT = 8"
  "IMB_TRACE_RAYS_OPTION_EMPTY_STAGE_GRID = 16" "IMB_TRACE_RAYS_OPTION_ADDITIONAL_LIGHTS = 32"
  by (simp_all add: IMB_TRACE_RAYS_OPTION_NONE_def IMB_TRACE_RAYS_OPTION_LIVE_CAMERA_def
      IMB_TRACE_RAYS_OPTION_LIVE_SPHERE_LIGHT_def IMB_TRACE_RAYS_OPTION_LIVE_DISTANT_LIGHT_def
      IMB_TRACE_RAYS_OPTION_LIVE_DOME_LIGHT_def IMB_TRACE_RAYS_OPTION_EMPTY_STAGE_GRID_def
      IMB_TRACE_RAYS_OPTION_ADDITIONAL_LIGHTS_def)

lemma computePayload_eq:
  "computePayload x y z bindings push = fields_bytes [F16 (command_code IMB_COMMAND_DISPATCH_COMPUTE), F16 0, F32 0,
       F32 x, F32 y, F32 z, F32 (word_of_nat (length bindings)), F32 (word_of_nat (length push)), F32 0]
     @ concat (map (\<lambda>b. fields_bytes (binding_fields b)) bindings) @ push"
  by (simp add: computePayload_def fold_fields appendFields_eq)

lemma uiPayload_eq:
  "uiPayload vb ib vo io w h cl draws = fields_bytes [F16 (command_code IMB_COMMAND_DRAW_INDEXED_UI), F16 0, F32 0,
       F64 vb, F64 ib, F64 vo, F64 io, F32 w, F32 h, F32 cl, F32 (word_of_nat (length draws))]
     @ concat (map (\<lambda>d. fields_bytes (draw_fields d)) draws)"
  by (simp add: uiPayload_def fold_fields appendFields_eq)

text \<open>C27: The payload of a compute dispatch is what the packed structures of the protocol describe: a reader
  finds the group counts and the two lengths in the fixed part, then one record for each binding, in order, and then
  the push constants.\<close>

lemma compute_payload_layout:
  fixes x y z bindings push
  defines "p \<equiv> computePayload x y z bindings push"
  shows "read_struct imb_dispatch_compute_command_payload p 0 = Inr [F16 (command_code IMB_COMMAND_DISPATCH_COMPUTE),
      F16 0, F32 0, F32 x, F32 y, F32 z, F32 (word_of_nat (length bindings)), F32 (word_of_nat (length push)), F32 0]
    \<and> read_array imb_compute_binding_payload p 32 (length bindings) =
      map (\<lambda>b. Inr [F32 (binding_descriptorSet b), F32 (binding_binding b), F32 (binding_arrayElement b),
        F32 (binding_kind b), F32 (binding_format b), F32 0, F64 (binding_resourceID b), F64 (binding_offset b),
        F64 (binding_length b)]) bindings
    \<and> drop (32 + 48 * length bindings) p = push \<and> length p = 32 + 48 * length bindings + length push"
proof -
  let ?hd = "[F16 (command_code IMB_COMMAND_DISPATCH_COMPUTE), F16 0, F32 0, F32 x, F32 y, F32 z,
    F32 (word_of_nat (length bindings)), F32 (word_of_nat (length push)), F32 0]"
  let ?bs = "concat (map (\<lambda>b. fields_bytes (binding_fields b)) bindings)"
  have p: "p = fields_bytes ?hd @ ?bs @ push" unfolding p_def by (rule computePayload_eq)
  have hd: "length (fields_bytes ?hd) = 32" by simp
  have bs: "length ?bs = 48 * length bindings"
    using length_concat_fields [of bindings binding_fields, OF fits_records(1)] by (simp add: imb_struct_sizes)
  have "read_struct imb_dispatch_compute_command_payload p 0 = Inr ?hd"
    by (rule read_struct_at [where pre = "[]" and post = "?bs @ push"]) (simp_all add: imb_struct_defs p)
  moreover have "read_array imb_compute_binding_payload p 32 (length bindings) = map (\<lambda>b. Inr (binding_fields b)) bindings"
    by (rule read_array_fits [OF fits_records(1) _ p]) (simp add: hd)
  moreover have "drop (32 + 48 * length bindings) p = push" "length p = 32 + 48 * length bindings + length push"
    unfolding p using hd bs by simp_all
  ultimately show ?thesis by (simp add: binding_fields_def)
qed

text \<open>The camera and the lights of a ray dispatch.\<close>

definition encoded_camera :: "BridgeRayCamera option \<Rightarrow> BridgeRayCamera" where
  "encoded_camera camera = (case camera of None \<Rightarrow> emptyCamera | Some c \<Rightarrow> c)"

definition encoded_lights :: "BridgeRayCamera option \<Rightarrow> bool \<Rightarrow> BridgeAdditionalLight list" where
  "encoded_lights camera emptyStageGrid = (if emptyStageGrid then [] else additionalLights (encoded_camera camera))"

lemma rayPayload_eq:
  "rayPayload asid w h miss hit camera grid = fields_bytes ([F16 (command_code IMB_COMMAND_TRACE_RAYS), F16 0, F32 0,
       F64 asid, F32 w, F32 h, F32 miss, F32 hit, F32 (rayOptions camera grid), F32 0]
       @ camera_fields (encoded_camera camera))
     @ (if encoded_lights camera grid = [] then []
        else fields_bytes [F32 (word_of_nat (length (encoded_lights camera grid))), F32 0]
          @ concat (map (\<lambda>l. fields_bytes (light_fields l)) (encoded_lights camera grid)))"
  by (cases camera)
    (simp_all add: rayPayload_def Let_def fold_fields appendFields_eq encoded_lights_def encoded_camera_def
      emptyCamera_def)

text \<open>C28: The payload of a ray dispatch is what the packed structures describe: the fixed part carries the option
  bits and the camera, all zero when there is none; the list of additional lights is there, with its header and one
  record for each light, exactly when the option bit for it is set.\<close>

lemma ray_payload_layout:
  fixes asid w h miss hit camera grid
  assumes "list_all (\<lambda>l. length (light_values l) = 16) (encoded_lights camera grid)"
  defines "p \<equiv> rayPayload asid w h miss hit camera grid" and "ls \<equiv> encoded_lights camera grid"
  shows "read_struct imb_trace_rays_command_payload p 0 = Inr ([F16 (command_code IMB_COMMAND_TRACE_RAYS), F16 0, F32 0,
      F64 asid, F32 w, F32 h, F32 miss, F32 hit, F32 (rayOptions camera grid), F32 0]
      @ camera_fields (encoded_camera camera))
    \<and> (rayOptions camera grid AND IMB_TRACE_RAYS_OPTION_ADDITIONAL_LIGHTS \<noteq> 0 \<longleftrightarrow> ls \<noteq> [])
    \<and> (if ls = [] then length p = 168
       else read_struct imb_trace_rays_light_list_header p 168 = Inr [F32 (word_of_nat (length ls)), F32 0]
         \<and> read_array imb_trace_light_payload p 176 (length ls) = map (\<lambda>l. Inr (light_fields l)) ls
         \<and> length p = 176 + 152 * length ls)"
proof -
  let ?hd = "[F16 (command_code IMB_COMMAND_TRACE_RAYS), F16 0, F32 0, F64 asid, F32 w, F32 h, F32 miss, F32 hit,
    F32 (rayOptions camera grid), F32 0] @ camera_fields (encoded_camera camera)"
  let ?lh = "[F32 (word_of_nat (length ls)), F32 0]"
  let ?bs = "concat (map (\<lambda>l. fields_bytes (light_fields l)) ls)"
  let ?tail = "if ls = [] then [] else fields_bytes ?lh @ ?bs"
  have p: "p = fields_bytes ?hd @ ?tail" unfolding p_def ls_def by (rule rayPayload_eq)
  have fit: "list_all2 fits ?hd imb_trace_rays_command_payload"
    unfolding imb_trace_rays_command_payload_def by (rule fits_append [OF _ fits_camera]) simp
  have hd: "length (fields_bytes ?hd) = 168"
    using length_fields_bytes [OF fit] imb_struct_sizes by simp
  have fl: "list_all2 fits (light_fields l) imb_trace_light_payload" if "l \<in> set ls" for l
    using that assms(1) by (auto simp: ls_def list_all_iff intro: fits_light)
  have 1: "read_struct imb_trace_rays_command_payload p 0 = Inr ?hd"
    by (rule read_struct_at [where pre = "[]" and post = ?tail]) (simp_all only: fit p list.size append_Nil)
  have 2: "rayOptions camera grid AND IMB_TRACE_RAYS_OPTION_ADDITIONAL_LIGHTS \<noteq> 0 \<longleftrightarrow> ls \<noteq> []"
    unfolding ls_def encoded_lights_def encoded_camera_def rayOptions_def
    by (auto simp: emptyCamera_def ray_option_values split: option.splits)
  have 3: "read_struct imb_trace_rays_light_list_header p 168 = Inr ?lh
      \<and> read_array imb_trace_light_payload p 176 (length ls) = map (\<lambda>l. Inr (light_fields l)) ls
      \<and> length p = 176 + 152 * length ls" if ne: "ls \<noteq> []"
  proof (intro conjI)
    have q: "p = fields_bytes ?hd @ fields_bytes ?lh @ ?bs" using p ne by simp
    show "read_struct imb_trace_rays_light_list_header p 168 = Inr ?lh"
      by (rule read_struct_at [OF _ _ q]) (simp_all only: hd, simp add: imb_struct_defs)
    have q': "p = (fields_bytes ?hd @ fields_bytes ?lh) @ ?bs @ []" using q by simp
    show "read_array imb_trace_light_payload p 176 (length ls) = map (\<lambda>l. Inr (light_fields l)) ls"
      by (rule read_array_fits [OF fl _ q']) (simp_all only: length_append hd, simp)
    show "length p = 176 + 152 * length ls"
      using length_concat_fields [of ls light_fields, OF fl] hd by (simp only: q length_append imb_struct_sizes) simp
  qed
  show ?thesis
    using 1 2 3 hd p by (cases "ls = []") simp_all
qed

text \<open>A camera with one additional light.\<close>

definition sample_light :: BridgeAdditionalLight where
  "sample_light = \<lparr>light_kind = 1, light_schema = 1, light_values = replicate 16 0, light_pathHash = 5,
     light_shapingAxis = (0, 0, 0), light_shapingConeAngleDegrees = 0, light_shapingConeSoftness = 0,
     light_shapingFocus = 0, light_shapingFocusTint = (0, 0, 0), light_shapingFlags = 0, light_iesAngleScale = 0,
     light_iesMultiplier = 0, light_textureFlags = 0, light_emissionTextureResourceID = 0,
     light_iesTextureResourceID = 0\<rparr>"

definition sample_camera :: BridgeRayCamera where
  "sample_camera = emptyCamera\<lparr>additionalLights := [sample_light]\<rparr>"

lemma ray_payload_layout_witness:
  "read_array imb_trace_light_payload (rayPayload 3 8 8 0 255 (Some sample_camera) False) 176 1
     = [Inr (light_fields sample_light)]
   \<and> length (rayPayload 3 8 8 0 255 (Some sample_camera) False) = 328"
proof -
  have l: "encoded_lights (Some sample_camera) False = [sample_light]"
    by (simp add: encoded_lights_def encoded_camera_def sample_camera_def emptyCamera_def)
  have "list_all (\<lambda>l. length (light_values l) = 16) (encoded_lights (Some sample_camera) False)"
    by (simp add: l sample_light_def)
  from ray_payload_layout [OF this, of 3 8 8 0 255] show ?thesis by (simp add: l)
qed

end
