(* ===== verification/ProbeRun.thy ===== *)
theory ProbeRun
  imports ProbeClient
begin

text \<open>
  What a whole run of the guest probe does: the requests a run that returns has sent, in order
  (\<open>asks\<close>), and that a run against a host that answers every request returns, however the kernel
  splits the stream (\<open>ready\<close>).
\<close>

section \<open>The requests of a program that returns\<close>

definition requests :: "imb_message_type list \<Rightarrow> 'z endpoint_scheme \<Rightarrow> 'z endpoint_scheme \<Rightarrow> bool" where
  "requests tys s s' \<longleftrightarrow> (\<exists>fs. sent (chan s') = sent (chan s) @ stream fs \<and> numbered (nextRequestID s) fs
     \<and> map (message_type \<circ> frame_header) fs = map message_code tys
     \<and> nextRequestID s' = nextRequestID s + word_of_nat (length fs))"

definition asks :: "imb_message_type list \<Rightarrow> ('z endpoint_scheme, 'a) prog \<Rightarrow> bool" where
  "asks tys m \<longleftrightarrow> (\<forall>s x s'. m s = (Inr x, s') \<longrightarrow> requests tys s s')"

definition silent :: "(client, 'a) prog \<Rightarrow> bool" where
  "silent m \<longleftrightarrow> (\<forall>s. chan (snd (m s)) = chan s \<and> nextRequestID (snd (m s)) = nextRequestID s)"

definition keeps_bits :: "(client, 'a) prog \<Rightarrow> bool" where
  "keeps_bits m \<longleftrightarrow> (\<forall>s. capabilityBits (snd (m s)) = capabilityBits s)"

lemma requests_trans: "requests a s s1 \<Longrightarrow> requests b s1 s2 \<Longrightarrow> requests (a @ b) s s2"
proof -
  assume "requests a s s1" "requests b s1 s2"
  then obtain fs gs where
    f: "sent (chan s1) = sent (chan s) @ stream fs" "numbered (nextRequestID s) fs"
      "map (message_type \<circ> frame_header) fs = map message_code a"
      "nextRequestID s1 = nextRequestID s + word_of_nat (length fs)"
    and g: "sent (chan s2) = sent (chan s1) @ stream gs" "numbered (nextRequestID s1) gs"
      "map (message_type \<circ> frame_header) gs = map message_code b"
      "nextRequestID s2 = nextRequestID s1 + word_of_nat (length gs)"
    unfolding requests_def by blast
  then show ?thesis
    unfolding requests_def by (intro exI [of _ "fs @ gs"]) (simp add: numbered_append add.assoc)
qed

lemma requests_refl: "chan s' = chan s \<Longrightarrow> nextRequestID s' = nextRequestID s \<Longrightarrow> requests [] s s'"
  by (auto simp: requests_def intro: exI [of _ "[]"])

lemma asksD: "asks tys m \<Longrightarrow> m s = (Inr x, s') \<Longrightarrow> requests tys s s'"
  by (simp add: asks_def)

lemma asks_silent: "silent m \<Longrightarrow> asks [] m"
  by (auto simp: asks_def silent_def intro!: requests_refl) (metis snd_conv)+

lemma asks_andThen: "asks a m \<Longrightarrow> (\<And>x. asks b (f x)) \<Longrightarrow> asks (a @ b) (andThen m f)"
  unfolding asks_def by (blast elim: andThen_returnsE intro: requests_trans)

lemma asks_skip: "silent m \<Longrightarrow> (\<And>x. asks b (f x)) \<Longrightarrow> asks b (andThen m f)"
  using asks_andThen [OF asks_silent] by fastforce

lemma asks_first: "asks [a] m \<Longrightarrow> (\<And>x. asks b (f x)) \<Longrightarrow> asks (a # b) (andThen m f)"
  using asks_andThen [of "[a]" m b f] by simp

lemma asks_end: "asks [a] m \<Longrightarrow> (\<And>x. silent (f x)) \<Longrightarrow> asks [a] (andThen m f)"
  using asks_andThen [of "[a]" m "[]" f] asks_silent by fastforce

lemma silent_basic [intro]:
  "silent (ret x)" "silent (throw msg)" "silent (throwE e)" "silent (liftE r)" "silent (require b msg)"
  "silent (emit st)" "silent (expectType f ty)" "silent (\<lambda>s. (Inr (), s\<lparr>capabilityBits := bits\<rparr>))"
  "silent (\<lambda>s. (Inr (), s\<lparr>ppmFile := file\<rparr>))"
  by (simp_all add: silent_def prog_simps emit_def expectType_def)

lemma silent_andThen [intro]: "silent m \<Longrightarrow> (\<And>x. silent (f x)) \<Longrightarrow> silent (andThen m f)"
  by (auto simp: silent_def andThen_def split: prod.split sum.split) (metis snd_conv)+

lemma silent_case_option [intro]:
  "silent g \<Longrightarrow> (\<And>x. silent (f x)) \<Longrightarrow> silent (case opt of None \<Rightarrow> g | Some x \<Rightarrow> f x)"
  by (cases opt) auto

lemma silent_writePPM [intro]: "silent (Client_writePPM P path rgba w h)"
  unfolding Client_writePPM_def by (intro silent_andThen silent_basic)

lemma keeps_bits_basic [intro]:
  "keeps_bits (ret x)" "keeps_bits (throw msg)" "keeps_bits (throwE e)" "keeps_bits (liftE r)"
  "keeps_bits (require b msg)" "keeps_bits (emit st)" "keeps_bits (expectType f ty)"
  "keeps_bits (\<lambda>s. (Inr (), s\<lparr>ppmFile := file\<rparr>))"
  by (simp_all add: keeps_bits_def prog_simps emit_def expectType_def)

lemma keeps_bits_andThen [intro]:
  "keeps_bits m \<Longrightarrow> (\<And>x. keeps_bits (f x)) \<Longrightarrow> keeps_bits (andThen m f)"
  by (auto simp: keeps_bits_def andThen_def split: prod.split sum.split) (metis snd_conv)+

lemma keeps_bits_choice: "keeps_bits m \<Longrightarrow> keeps_bits m' \<Longrightarrow> keeps_bits (\<lambda>s. if b s then m s else m' s)"
  by (simp add: keeps_bits_def)

lemma keeps_bits_exchange [intro]: "keeps_bits (Client_exchange T ty p rid)"
  by (auto simp: keeps_bits_def Client_exchange_def exchange_with_def andThen_def takeRequestID_def
      on_chan_def split: prod.split sum.split)

lemma keeps_bitsD: "keeps_bits m \<Longrightarrow> m s = (r, s') \<Longrightarrow> capabilityBits s' = capabilityBits s"
  by (metis keeps_bits_def snd_conv)

lemmas client_step_defs = Client_hello_def Client_queryCapabilities_def Client_ping_def
  Client_createResource_def Client_createImage_def Client_writeResource_def Client_submitAdd_def
  Client_submitTriangle_def Client_waitFence_def Client_readResourceBytes_def
  Client_destroyResource_def Client_shutdown_def

text \<open>The requests of the parts of a run.\<close>

definition compute_requests :: "imb_message_type list" where
  "compute_requests = [IMB_MSG_CREATE_RESOURCE, IMB_MSG_WRITE_RESOURCE, IMB_MSG_SUBMIT_COMMAND,
     IMB_MSG_WAIT_FENCE, IMB_MSG_READ_RESOURCE, IMB_MSG_DESTROY_RESOURCE]"

definition raster_requests :: "imb_message_type list" where
  "raster_requests = [IMB_MSG_CREATE_RESOURCE, IMB_MSG_SUBMIT_COMMAND, IMB_MSG_WAIT_FENCE,
     IMB_MSG_READ_RESOURCE, IMB_MSG_DESTROY_RESOURCE]"

definition has_caps :: "u64 \<Rightarrow> u64 list \<Rightarrow> bool" where
  "has_caps bits required = (bits AND foldr (OR) required 0 = foldr (OR) required 0)"

definition compute_caps :: "u64 list" where
  "compute_caps = [IMB_CAP_METAL_BUFFER, IMB_CAP_METAL_COMPUTE, IMB_CAP_RESOURCE_IO, IMB_CAP_REAL_FENCE]"

definition raster_caps :: "u64 list" where
  "raster_caps = [IMB_CAP_METAL_IMAGE, IMB_CAP_METAL_RASTER, IMB_CAP_RESOURCE_IO, IMB_CAP_REAL_FENCE]"

definition run_requests :: "u64 \<Rightarrow> imb_message_type list" where
  "run_requests bits = [IMB_MSG_HELLO, IMB_MSG_QUERY_CAPABILITIES, IMB_MSG_PING]
     @ (if has_caps bits compute_caps then compute_requests else [])
     @ (if has_caps bits raster_caps then raster_requests else [])
     @ [IMB_MSG_SHUTDOWN]"

lemma keeps_bits_steps:
  "keeps_bits (Client_ping T)" "keeps_bits (Client_shutdown T)"
  "keeps_bits (Client_runMetalCompute T)" "keeps_bits (Client_runMetalRaster P)"
  unfolding Client_runMetalCompute_def Client_runMetalRaster_def Client_writePPM_def client_step_defs Let_def
  by (intro keeps_bits_andThen keeps_bits_exchange keeps_bits_basic; (auto split: option.split)?)+

context byte_transport begin

lemma asks_exchange: "length p \<le> 16777216 \<Longrightarrow> asks [ty] (Client_exchange T ty p rid)"
  unfolding asks_def
proof (intro allI impI)
  assume len: "length p \<le> 16777216"
  fix s :: "'a endpoint_scheme" and f s'
  assume run: "Client_exchange T ty p rid s = (Inr f, s')"
  note ret = exchange_returns(2) [OF run [unfolded Client_exchange_def]]
  then show "requests [ty] s s'"
    unfolding requests_def exchanged_def
    by (intro exI [of _ "[request ty p (nextRequestID s) rid]"])
      (auto simp: len request_def request_header_def well_request_def IMB_PROTOCOL_MAX_PAYLOAD_def)
qed

lemma asks_steps:
  "asks [IMB_MSG_HELLO] (Client_hello T)"
  "asks [IMB_MSG_QUERY_CAPABILITIES] (Client_queryCapabilities T)"
  "asks [IMB_MSG_PING] (Client_ping T)"
  "asks [IMB_MSG_CREATE_RESOURCE] (Client_createResource T sz)"
  "asks [IMB_MSG_CREATE_RESOURCE] (Client_createImage T w h)"
  "length vs \<le> 1024 \<Longrightarrow> asks [IMB_MSG_WRITE_RESOURCE] (Client_writeResource T r vs)"
  "asks [IMB_MSG_SUBMIT_COMMAND] (Client_submitAdd T r n a)"
  "asks [IMB_MSG_SUBMIT_COMMAND] (Client_submitTriangle T r cl)"
  "asks [IMB_MSG_WAIT_FENCE] (Client_waitFence T r)"
  "asks [IMB_MSG_READ_RESOURCE] (Client_readResourceBytes T r m)"
  "asks [IMB_MSG_DESTROY_RESOURCE] (Client_destroyResource T r)"
  "asks [IMB_MSG_SHUTDOWN] (Client_shutdown T)"
  unfolding client_step_defs Let_def
  by (intro asks_end asks_exchange silent_andThen silent_basic
    | simp add: appendLittleEndian_eq fold_append_length bytes_of_def)+

lemma asks_compute: "asks compute_requests (Client_runMetalCompute T)"
  unfolding compute_requests_def Client_runMetalCompute_def
  by (intro asks_first asks_steps asks_skip silent_basic | simp)+

lemma asks_raster:
  assumes P: "transport_of P = T"
  shows "asks raster_requests (Client_runMetalRaster P)"
  unfolding raster_requests_def Client_runMetalRaster_def Let_def P
  by (intro asks_first asks_steps asks_skip silent_basic silent_case_option silent_writePPM)

text \<open>A run that returns has sent exactly these requests, numbered from the first one on.\<close>

lemma run_asks:
  assumes P: "transport_of P = T" and run: "Client_run P s = (Inr (), s')"
  shows "requests (run_requests (capabilityBits s')) s s'"
proof -
  let ?req = "IMB_CAP_METAL_BUFFER OR IMB_CAP_METAL_COMPUTE OR IMB_CAP_RESOURCE_IO OR IMB_CAP_REAL_FENCE"
  let ?ras = "IMB_CAP_METAL_IMAGE OR IMB_CAP_METAL_RASTER OR IMB_CAP_RESOURCE_IO OR IMB_CAP_REAL_FENCE"
  from run [unfolded Client_run_def Let_def P] obtain s1 s2 s3 s4 s5 where
    1: "Client_hello T s = (Inr (), s1)" and 2: "Client_queryCapabilities T s1 = (Inr (), s2)"
    and 3: "Client_ping T s2 = (Inr (), s3)"
    and 4: "(if capabilityBits s3 AND ?req = ?req then Client_runMetalCompute T s3 else emit ComputeSkipped s3)
      = (Inr (), s4)"
    and 5: "(if capabilityBits s4 AND ?ras = ?ras then Client_runMetalRaster P s4 else emit RasterSkipped s4)
      = (Inr (), s5)"
    and 6: "Client_shutdown T s5 = (Inr (), s')"
    by (auto elim!: andThen_returnsE)
  have bits: "capabilityBits s4 = capabilityBits s3" "capabilityBits s5 = capabilityBits s4"
    "capabilityBits s' = capabilityBits s5"
    using 4 5 6 keeps_bitsD keeps_bits_steps keeps_bits_basic(6) by (metis (no_types, lifting))+
  have c: "has_caps b compute_caps \<longleftrightarrow> b AND ?req = ?req" "has_caps b raster_caps \<longleftrightarrow> b AND ?ras = ?ras" for b
    by (simp_all add: has_caps_def compute_caps_def raster_caps_def or.assoc)
  have r4: "requests (if has_caps (capabilityBits s') compute_caps then compute_requests else []) s3 s4"
    using 4 bits asksD [OF asks_compute] asksD [OF asks_silent [OF silent_basic(6)]]
    by (auto simp: c split: if_splits)
  have r5: "requests (if has_caps (capabilityBits s') raster_caps then raster_requests else []) s4 s5"
    using 5 bits asksD [OF asks_raster [OF P]] asksD [OF asks_silent [OF silent_basic(6)]]
    by (auto simp: c split: if_splits)
  have "requests ([IMB_MSG_HELLO] @ [IMB_MSG_QUERY_CAPABILITIES] @ [IMB_MSG_PING]
      @ (if has_caps (capabilityBits s') compute_caps then compute_requests else [])
      @ (if has_caps (capabilityBits s') raster_caps then raster_requests else []) @ [IMB_MSG_SHUTDOWN]) s s'"
    by (rule requests_trans [OF asksD [OF asks_steps(1) 1] requests_trans [OF asksD [OF asks_steps(2) 2]
        requests_trans [OF asksD [OF asks_steps(3) 3] requests_trans [OF r4 requests_trans [OF r5
        asksD [OF asks_steps(12) 6]]]]]])
  then show ?thesis by (simp add: run_requests_def)
qed

end


section \<open>A host that answers\<close>

text \<open>A reply, and the replies of a host that can compute but not draw, to the ten requests of a run: the buffer gets
  the resource number \<open>res\<close>, the command the fence number \<open>fence\<close>.\<close>

definition host_reply :: "imb_message_type \<Rightarrow> u64 \<Rightarrow> u64 \<Rightarrow> bytes \<Rightarrow> frame" where
  "host_reply ty requestID resourceID payload =
     \<lparr>frame_header = \<lparr>magic = IMB_PROTOCOL_MAGIC, version_major = IMB_PROTOCOL_VERSION_MAJOR,
        version_minor = IMB_PROTOCOL_VERSION_MINOR, message_type = message_code ty,
        flags = IMB_FLAG_RESPONSE, payload_length = word_of_nat (length payload),
        request_id = requestID, resource_id = resourceID\<rparr>,
      frame_payload = payload\<rparr>"

definition hello_payload :: bytes where
  "hello_payload = le_bytes IMB_PROTOCOL_VERSION_MAJOR @ le_bytes IMB_PROTOCOL_VERSION_MINOR @ le_bytes (0 :: u32)"

definition capabilities_payload :: "u64 \<Rightarrow> u64 \<Rightarrow> bytes \<Rightarrow> bytes" where
  "capabilities_payload bits maxBuffer name = le_bytes bits @ le_bytes maxBuffer
     @ le_bytes (word_of_nat (length name) :: u32) @ le_bytes (0 :: u32) @ name"

definition compute_host :: "u64 \<Rightarrow> u64 \<Rightarrow> bytes \<Rightarrow> u64 \<Rightarrow> u64 \<Rightarrow> frame list" where
  "compute_host bits maxBuffer name res fence =
     [host_reply IMB_MSG_HELLO_REPLY 1 0 hello_payload,
      host_reply IMB_MSG_CAPABILITIES_REPLY 2 0 (capabilities_payload bits maxBuffer name),
      host_reply IMB_MSG_PONG 3 0 (bytes_of ''imb-guest-probe''),
      host_reply IMB_MSG_CREATE_RESOURCE 4 res [],
      host_reply IMB_MSG_WRITE_RESOURCE 5 res [],
      host_reply IMB_MSG_SUBMIT_COMMAND 6 fence [],
      host_reply IMB_MSG_WAIT_FENCE 7 fence (le_bytes (1 :: u32) @ le_bytes (0 :: u32)),
      host_reply IMB_MSG_READ_RESOURCE 8 res [6, 0, 0, 0, 7, 0, 0, 0, 8, 0, 0, 0, 9, 0, 0, 0],
      host_reply IMB_MSG_DESTROY_RESOURCE 9 res [],
      host_reply IMB_MSG_SHUTDOWN 10 0 []]"

definition ready :: "nat \<Rightarrow> frame list \<Rightarrow> 'z endpoint_scheme \<Rightarrow> bool" where
  "ready n fs s \<longleftrightarrow> clean (chan s) \<and> n \<le> capacity (writes (chan s)) \<and> incoming (reads (chan s)) = stream fs"

definition advanced :: "client \<Rightarrow> nat \<Rightarrow> frame list \<Rightarrow> status list \<Rightarrow> client \<Rightarrow> bool" where
  "advanced s n fs sts s' \<longleftrightarrow> ready n fs s' \<and> nextRequestID s' = nextRequestID s + 1
     \<and> outputLog s' = outputLog s @ sts \<and> capabilityBits s' = capabilityBits s \<and> ppmFile s' = ppmFile s"

lemma host_reply_simps [simp]:
  "frame_payload (host_reply ty req rid p) = p"
  "message_type (frame_header (host_reply ty req rid p)) = message_code ty"
  "resource_id (frame_header (host_reply ty req rid p)) = rid"
  by (simp_all add: host_reply_def)

lemma reply_ok_host_reply:
  assumes "length p \<le> 16777216" and "ty \<noteq> IMB_MSG_ERROR"
  shows "reply_ok Client_checkReply req (host_reply ty req rid p)"
proof -
  have u: "unat (word_of_nat (length p) :: u32) = length p"
    using assms(1) by (simp add: unat_of_nat take_bit_nat_eq_self)
  have le: "(word_of_nat (length p) :: u32) \<le> 16777216"
    using assms(1) u by (simp add: word_le_nat_alt)
  have ne: "message_code ty \<noteq> 11" using assms(2) by (cases ty) simp_all
  show ?thesis
    using u le ne
    by (simp add: reply_ok_def Client_checkReply_def host_reply_def IMB_PROTOCOL_MAX_PAYLOAD_def
        IMB_FLAG_RESPONSE_def not_less)
qed

lemma ready_update [simp]:
  "ready n fs (s\<lparr>outputLog := x\<rparr>) = ready n fs s" "ready n fs (s\<lparr>capabilityBits := b\<rparr>) = ready n fs s"
  by (simp_all add: ready_def)

lemma length_bytes_of [simp]: "length (bytes_of str) = length str"
  by (simp add: bytes_of_def)

lemma emit_run [prog_simps]: "emit st s = (Inr (), s\<lparr>outputLog := outputLog s @ [st]\<rparr>)"
  by (simp add: emit_def)

lemma expectType_host_reply [simp]:
  "expectType (host_reply ty req rid p) ty = ret ()"
  by (simp add: expectType_def)

text \<open>The compute check against a host that answers.\<close>

definition compute_replies :: "u64 \<Rightarrow> u64 \<Rightarrow> u64 \<Rightarrow> frame list" where
  "compute_replies k res fence =
     [host_reply IMB_MSG_CREATE_RESOURCE k res [],
      host_reply IMB_MSG_WRITE_RESOURCE (k + 1) res [],
      host_reply IMB_MSG_SUBMIT_COMMAND (k + 2) fence [],
      host_reply IMB_MSG_WAIT_FENCE (k + 3) fence (le_bytes (1 :: u32) @ le_bytes (0 :: u32)),
      host_reply IMB_MSG_READ_RESOURCE (k + 4) res [6, 0, 0, 0, 7, 0, 0, 0, 8, 0, 0, 0, 9, 0, 0, 0],
      host_reply IMB_MSG_DESTROY_RESOURCE (k + 5) res []]"

definition compute_results :: "u64 \<Rightarrow> u64 \<Rightarrow> status list" where
  "compute_results res fence = [BufferCreated res 16, ResourceWritten res 16, AddSubmitted fence, FenceSignaled,
     ResourceRead res 16, ComputeVerified, ResourceDestroyed res]"

text \<open>The raster check: the pixels of the triangle, and what the host answers.\<close>

definition pixel_bytes :: "(u8 \<times> u8 \<times> u8 \<times> u8) list \<Rightarrow> bytes" where
  "pixel_bytes ps = concat (map (\<lambda>(r, g, b, a). [r, g, b, a]) ps)"

definition clear_pixel :: "u8 \<times> u8 \<times> u8 \<times> u8" where
  "clear_pixel = (0x10, 0x18, 0x20, 0xff)"

definition drawn :: "(u8 \<times> u8 \<times> u8 \<times> u8) list \<Rightarrow> nat" where
  "drawn ps = length (filter (\<lambda>p. p \<noteq> clear_pixel) ps)"

text \<open>A picture of 64 by 64 opaque pixels, of which the first has the clear colour and at least 512 have not.\<close>

definition triangle_image :: "(u8 \<times> u8 \<times> u8 \<times> u8) list \<Rightarrow> bool" where
  "triangle_image ps \<longleftrightarrow> length ps = 4096 \<and> hd ps = clear_pixel \<and> list_all (\<lambda>(r, g, b, a). a = 0xff) ps \<and> 512 \<le> drawn ps"

lemma pixel_bytes_simps [simp]:
  "pixel_bytes [] = []" "pixel_bytes ((r, g, b, a) # ps) = r # g # b # a # pixel_bytes ps"
  by (simp_all add: pixel_bytes_def)

lemma length_pixel_bytes [simp]: "length (pixel_bytes ps) = 4 * length ps"
  by (induction ps) auto

lemma changedPixelsLoop_spec:
  "changedPixelsLoop [0x10, 0x18, 0x20, 0xff] (pixel_bytes ps) n =
     (if list_all (\<lambda>(r, g, b, a). a = 0xff) ps then Inr (n + drawn ps)
      else Inl (RuntimeError ''Metal triangle image contains a non-opaque pixel''))"
  by (induction ps arbitrary: n) (auto simp: drawn_def clear_pixel_def split: if_split_asm)

lemma triangle_image_drawn: "triangle_image ps \<Longrightarrow> drawn ps < 4096"
  by (cases ps) (auto simp: triangle_image_def drawn_def intro: le_less_trans [OF length_filter_le])

lemma triangle_image_corner: "triangle_image ps \<Longrightarrow> take 4 (pixel_bytes ps) = [0x10, 0x18, 0x20, 0xff]"
  by (cases ps) (auto simp: triangle_image_def clear_pixel_def)

definition raster_replies :: "u64 \<Rightarrow> u64 \<Rightarrow> u64 \<Rightarrow> (u8 \<times> u8 \<times> u8 \<times> u8) list \<Rightarrow> frame list" where
  "raster_replies k img fence ps =
     [host_reply IMB_MSG_CREATE_RESOURCE k img [],
      host_reply IMB_MSG_SUBMIT_COMMAND (k + 1) fence [],
      host_reply IMB_MSG_WAIT_FENCE (k + 2) fence (le_bytes (1 :: u32) @ le_bytes (0 :: u32)),
      host_reply IMB_MSG_READ_RESOURCE (k + 3) img (pixel_bytes ps),
      host_reply IMB_MSG_DESTROY_RESOURCE (k + 4) img []]"

definition raster_results :: "string option \<Rightarrow> u64 \<Rightarrow> u64 \<Rightarrow> (u8 \<times> u8 \<times> u8 \<times> u8) list \<Rightarrow> status list" where
  "raster_results path img fence ps = [ImageCreated img 64 64, TriangleSubmitted fence, FenceSignaled,
     ResourceRead img 16384, RasterVerified 64 64 (drawn ps) path, ResourceDestroyed img]"

definition raster_file :: "string option \<Rightarrow> (u8 \<times> u8 \<times> u8 \<times> u8) list \<Rightarrow> (string \<times> bytes) option" where
  "raster_file path ps = map_option (\<lambda>file. (file, ppmBytes (pixel_bytes ps) 64 64)) path"

text \<open>A host that follows the protocol: the capabilities it reports, the numbers it gives to resources and fences, and the
  picture it draws. It answers each request of a run with the request's number: the handshake, the capabilities and the
  ping; the compute check if it has those capabilities, the raster check if it has those; the shutdown.\<close>

record probe_host =
  host_bits :: u64
  host_maxBuffer :: u64
  host_name :: bytes
  host_buffer :: u64
  host_fence :: u64
  host_image :: u64
  host_imageFence :: u64
  host_pixels :: "(u8 \<times> u8 \<times> u8 \<times> u8) list"

abbreviation computes :: "probe_host \<Rightarrow> bool" where
  "computes h \<equiv> has_caps (host_bits h) compute_caps"

abbreviation draws :: "probe_host \<Rightarrow> bool" where
  "draws h \<equiv> has_caps (host_bits h) raster_caps"

definition checks_replies :: "probe_host \<Rightarrow> frame list" where
  "checks_replies h =
     (let k = (if computes h then 10 else 4 :: u64); k' = (if draws h then k + 5 else k) in
      (if computes h then compute_replies 4 (host_buffer h) (host_fence h) else [])
      @ (if draws h then raster_replies k (host_image h) (host_imageFence h) (host_pixels h) else [])
      @ [host_reply IMB_MSG_SHUTDOWN k' 0 []])"

definition conforming_host :: "probe_host \<Rightarrow> frame list" where
  "conforming_host h =
     [host_reply IMB_MSG_HELLO_REPLY 1 0 hello_payload,
      host_reply IMB_MSG_CAPABILITIES_REPLY 2 0 (capabilities_payload (host_bits h) (host_maxBuffer h) (host_name h)),
      host_reply IMB_MSG_PONG 3 0 (bytes_of ''imb-guest-probe'')] @ checks_replies h"

definition host_ok :: "probe_host \<Rightarrow> bool" where
  "host_ok h \<longleftrightarrow> length (host_name h) \<le> 16777192
     \<and> (computes h \<longrightarrow> host_buffer h \<noteq> 0 \<and> host_fence h \<noteq> 0)
     \<and> (draws h \<longrightarrow> host_image h \<noteq> 0 \<and> host_imageFence h \<noteq> 0 \<and> triangle_image (host_pixels h))"

definition request_size :: "probe_host \<Rightarrow> nat" where
  "request_size h = 151 + (if computes h then 272 else 0) + (if draws h then 224 else 0)"

definition run_results :: "probe_host \<Rightarrow> string option \<Rightarrow> status list" where
  "run_results h path =
     [HelloNegotiated 1 22, CapabilitiesReported (host_bits h) (host_name h) (host_maxBuffer h), PingPongOk]
     @ (if computes h then compute_results (host_buffer h) (host_fence h) else [ComputeSkipped])
     @ (if draws h then raster_results path (host_image h) (host_imageFence h) (host_pixels h) else [RasterSkipped])
     @ [ShutdownOk]"

context byte_transport begin

lemma Client_exchange_complete:
  assumes "ready (32 + length p + n) (host_reply ty' (nextRequestID s) rid' q # fs) s"
    and "length q \<le> 16777216" and "ty' \<noteq> IMB_MSG_ERROR"
  obtains c' where "Client_exchange T ty p rid s = (Inr (host_reply ty' (nextRequestID s) rid' q),
      s\<lparr>chan := c', nextRequestID := nextRequestID s + 1\<rparr>)"
    and "\<And>s'. chan s' = c' \<Longrightarrow> ready n fs s'"
proof -
  from assms exchange_complete [of s p "host_reply ty' (nextRequestID s) rid' q" "stream fs"
      Client_checkReply Client_protocolError ty rid] reply_ok_host_reply
  obtain c' where c': "Client_exchange T ty p rid s = (Inr (host_reply ty' (nextRequestID s) rid' q),
      s\<lparr>chan := c', nextRequestID := nextRequestID s + 1\<rparr>)"
    "clean c'" "incoming (reads c') = stream fs"
    "capacity (writes c') + (32 + length p) = capacity (writes (chan s))"
    by (auto simp: ready_def Client_exchange_def)
  show thesis
    by (rule that [OF c'(1)]) (use c' assms(1) in \<open>simp add: ready_def\<close>)
qed

lemma hello_complete:
  assumes "ready (40 + n) (host_reply IMB_MSG_HELLO_REPLY (nextRequestID s) 0 hello_payload # fs) s"
  shows "\<exists>s'. Client_hello T s = (Inr (), s') \<and> advanced s n fs [HelloNegotiated 1 22] s'"
proof -
  let ?p = "appendLittleEndian (appendLittleEndian (appendLittleEndian (appendLittleEndian []
            IMB_PROTOCOL_VERSION_MAJOR) IMB_PROTOCOL_VERSION_MINOR)
            IMB_PROTOCOL_VERSION_MAJOR) IMB_PROTOCOL_VERSION_MINOR"
  have len: "32 + length ?p + n = 40 + n" by (simp add: appendLittleEndian_eq)
  obtain c' where c': "Client_exchange T IMB_MSG_HELLO ?p 0 s
      = (Inr (host_reply IMB_MSG_HELLO_REPLY (nextRequestID s) 0 hello_payload),
         s\<lparr>chan := c', nextRequestID := nextRequestID s + 1\<rparr>)"
    and r: "\<And>s' :: client. chan s' = c' \<Longrightarrow> ready n fs s'"
    by (rule Client_exchange_complete [OF assms [folded len]]) (auto simp: hello_payload_def)
  show ?thesis
    using r c' by (auto simp: Client_hello_def Let_def prog_simps advanced_def hello_payload_def wire_simps
        imb_protocol_constants)
qed

lemma capabilities_complete:
  assumes "ready (32 + n) (host_reply IMB_MSG_CAPABILITIES_REPLY (nextRequestID s) 0
      (capabilities_payload bits maxBuffer name) # fs) s"
    and "length name \<le> 16777192"
  shows "\<exists>s'. Client_queryCapabilities T s = (Inr (), s') \<and> ready n fs s'
    \<and> nextRequestID s' = nextRequestID s + 1 \<and> capabilityBits s' = bits \<and> ppmFile s' = ppmFile s
    \<and> outputLog s' = outputLog s @ [CapabilitiesReported bits name maxBuffer]"
proof -
  have u: "unat (word_of_nat (length name) :: u32) = length name"
    using assms(2) by (simp add: unat_of_nat take_bit_nat_eq_self)
  obtain c' where c': "Client_exchange T IMB_MSG_QUERY_CAPABILITIES [] 0 s
      = (Inr (host_reply IMB_MSG_CAPABILITIES_REPLY (nextRequestID s) 0 (capabilities_payload bits maxBuffer name)),
         s\<lparr>chan := c', nextRequestID := nextRequestID s + 1\<rparr>)"
    and r: "\<And>s' :: client. chan s' = c' \<Longrightarrow> ready n fs s'"
    by (rule Client_exchange_complete [of "[]" n]) (use assms in \<open>auto simp: capabilities_payload_def\<close>)
  show ?thesis
    using r u by (auto simp: Client_queryCapabilities_def prog_simps c' capabilities_payload_def wire_simps)
qed

lemma ping_complete:
  assumes "ready (47 + n) (host_reply IMB_MSG_PONG (nextRequestID s) 0 (bytes_of ''imb-guest-probe'') # fs) s"
  shows "\<exists>s'. Client_ping T s = (Inr (), s') \<and> advanced s n fs [PingPongOk] s'"
proof -
  have len: "32 + length (bytes_of ''imb-guest-probe'') + n = 47 + n" by simp
  obtain c' where c': "Client_exchange T IMB_MSG_PING (bytes_of ''imb-guest-probe'') 0 s
      = (Inr (host_reply IMB_MSG_PONG (nextRequestID s) 0 (bytes_of ''imb-guest-probe'')),
         s\<lparr>chan := c', nextRequestID := nextRequestID s + 1\<rparr>)"
    and r: "\<And>s' :: client. chan s' = c' \<Longrightarrow> ready n fs s'"
    by (rule Client_exchange_complete [OF assms [folded len]]) auto
  show ?thesis
    using r by (auto simp: Client_ping_def Let_def prog_simps c' advanced_def)
qed

lemma create_complete:
  assumes "ready (48 + n) (host_reply IMB_MSG_CREATE_RESOURCE (nextRequestID s) res [] # fs) s" and "res \<noteq> 0"
  shows "\<exists>s'. Client_createResource T sz s = (Inr res, s') \<and> advanced s n fs [BufferCreated res sz] s'"
proof -
  let ?p = "appendLittleEndian (appendLittleEndian (appendLittleEndian [] sz) IMB_RESOURCE_BUFFER) (0 :: u32)"
  have len: "32 + length ?p + n = 48 + n" by (simp add: appendLittleEndian_eq)
  obtain c' where c': "Client_exchange T IMB_MSG_CREATE_RESOURCE ?p 0 s
      = (Inr (host_reply IMB_MSG_CREATE_RESOURCE (nextRequestID s) res []),
         s\<lparr>chan := c', nextRequestID := nextRequestID s + 1\<rparr>)"
    and r: "\<And>s' :: client. chan s' = c' \<Longrightarrow> ready n fs s'"
    by (rule Client_exchange_complete [OF assms(1) [folded len]]) auto
  show ?thesis
    using r assms(2) by (auto simp: Client_createResource_def Let_def prog_simps c' advanced_def)
qed

lemma write_complete:
  assumes "ready (64 + n) (host_reply IMB_MSG_WRITE_RESOURCE (nextRequestID s) rid' [] # fs) s"
  shows "\<exists>s'. Client_writeResource T res [a, b, c, d] s = (Inr (), s') \<and> advanced s n fs [ResourceWritten res 16] s'"
proof -
  let ?p = "fold (\<lambda>value p. appendLittleEndian p value) [a, b, c, d]
      (appendLittleEndian (appendLittleEndian (appendLittleEndian []
            (0 :: u64)) (word_of_nat (length [a, b, c, d] * 4) :: u32)) (0 :: u32))"
  have len: "32 + length ?p + n = 64 + n" by (simp add: appendLittleEndian_eq)
  obtain c' where c': "Client_exchange T IMB_MSG_WRITE_RESOURCE ?p res s
      = (Inr (host_reply IMB_MSG_WRITE_RESOURCE (nextRequestID s) rid' []),
         s\<lparr>chan := c', nextRequestID := nextRequestID s + 1\<rparr>)"
    and r: "\<And>s' :: client. chan s' = c' \<Longrightarrow> ready n fs s'"
    by (rule Client_exchange_complete [OF assms(1) [folded len]]) auto
  show ?thesis
    using r c' by (auto simp: Client_writeResource_def Let_def prog_simps advanced_def)
qed

lemma submitAdd_complete:
  assumes "ready (48 + n) (host_reply IMB_MSG_SUBMIT_COMMAND (nextRequestID s) fence [] # fs) s" and "fence \<noteq> 0"
  shows "\<exists>s'. Client_submitAdd T res k a s = (Inr fence, s') \<and> advanced s n fs [AddSubmitted fence] s'"
proof -
  let ?p = "appendLittleEndian (appendLittleEndian (appendLittleEndian (appendLittleEndian
            (appendLittleEndian [] (command_code IMB_COMMAND_ADD_U32)) (0 :: u16)) (0 :: u32)) k) a"
  have len: "32 + length ?p + n = 48 + n" by (simp add: appendLittleEndian_eq)
  obtain c' where c': "Client_exchange T IMB_MSG_SUBMIT_COMMAND ?p res s
      = (Inr (host_reply IMB_MSG_SUBMIT_COMMAND (nextRequestID s) fence []),
         s\<lparr>chan := c', nextRequestID := nextRequestID s + 1\<rparr>)"
    and r: "\<And>s' :: client. chan s' = c' \<Longrightarrow> ready n fs s'"
    by (rule Client_exchange_complete [OF assms(1) [folded len]]) auto
  show ?thesis
    using r c' assms(2) by (auto simp: Client_submitAdd_def Let_def prog_simps advanced_def)
qed

lemma waitFence_complete:
  assumes "ready (32 + n) (host_reply IMB_MSG_WAIT_FENCE (nextRequestID s) rid'
      (le_bytes (1 :: u32) @ le_bytes (0 :: u32)) # fs) s"
  shows "\<exists>s'. Client_waitFence T fence s = (Inr (), s') \<and> advanced s n fs [FenceSignaled] s'"
proof -
  obtain c' where c': "Client_exchange T IMB_MSG_WAIT_FENCE [] fence s
      = (Inr (host_reply IMB_MSG_WAIT_FENCE (nextRequestID s) rid' (le_bytes (1 :: u32) @ le_bytes (0 :: u32))),
         s\<lparr>chan := c', nextRequestID := nextRequestID s + 1\<rparr>)"
    and r: "\<And>s' :: client. chan s' = c' \<Longrightarrow> ready n fs s'"
    by (rule Client_exchange_complete [of "[]" n]) (use assms in auto)
  show ?thesis
    using r by (auto simp: Client_waitFence_def prog_simps c' advanced_def wire_simps)
qed

lemma readBytes_complete:
  assumes "ready (48 + n) (host_reply IMB_MSG_READ_RESOURCE (nextRequestID s) rid' q # fs) s"
    and "length q = unat m" and "length q \<le> 16777216"
  shows "\<exists>s'. Client_readResourceBytes T res m s = (Inr q, s') \<and> advanced s n fs [ResourceRead res m] s'"
proof -
  let ?p = "appendLittleEndian (appendLittleEndian [] (0 :: u64)) m"
  have len: "32 + length ?p + n = 48 + n" by (simp add: appendLittleEndian_eq)
  obtain c' where c': "Client_exchange T IMB_MSG_READ_RESOURCE ?p res s
      = (Inr (host_reply IMB_MSG_READ_RESOURCE (nextRequestID s) rid' q),
         s\<lparr>chan := c', nextRequestID := nextRequestID s + 1\<rparr>)"
    and r: "\<And>s' :: client. chan s' = c' \<Longrightarrow> ready n fs s'"
    by (rule Client_exchange_complete [OF assms(1) [folded len] assms(3)]) auto
  show ?thesis
    using r c' assms(2) by (auto simp: Client_readResourceBytes_def Let_def prog_simps advanced_def)
qed

lemma destroy_complete:
  assumes "ready (32 + n) (host_reply IMB_MSG_DESTROY_RESOURCE (nextRequestID s) rid' [] # fs) s"
  shows "\<exists>s'. Client_destroyResource T res s = (Inr (), s') \<and> advanced s n fs [ResourceDestroyed res] s'"
proof -
  obtain c' where c': "Client_exchange T IMB_MSG_DESTROY_RESOURCE [] res s
      = (Inr (host_reply IMB_MSG_DESTROY_RESOURCE (nextRequestID s) rid' []),
         s\<lparr>chan := c', nextRequestID := nextRequestID s + 1\<rparr>)"
    and r: "\<And>s' :: client. chan s' = c' \<Longrightarrow> ready n fs s'"
    by (rule Client_exchange_complete [of "[]" n]) (use assms in auto)
  show ?thesis
    using r by (auto simp: Client_destroyResource_def prog_simps c' advanced_def)
qed

lemma shutdown_complete:
  assumes "ready (32 + n) (host_reply IMB_MSG_SHUTDOWN (nextRequestID s) rid' [] # fs) s"
  shows "\<exists>s'. Client_shutdown T s = (Inr (), s') \<and> advanced s n fs [ShutdownOk] s'"
proof -
  obtain c' where c': "Client_exchange T IMB_MSG_SHUTDOWN [] 0 s
      = (Inr (host_reply IMB_MSG_SHUTDOWN (nextRequestID s) rid' []),
         s\<lparr>chan := c', nextRequestID := nextRequestID s + 1\<rparr>)"
    and r: "\<And>s' :: client. chan s' = c' \<Longrightarrow> ready n fs s'"
    by (rule Client_exchange_complete [of "[]" n]) (use assms in auto)
  show ?thesis
    using r by (auto simp: Client_shutdown_def prog_simps c' advanced_def)
qed

lemma advancedD:
  assumes "advanced s n fs sts s'"
  shows "ready n fs s'" and "nextRequestID s' = nextRequestID s + 1"
    and "outputLog s' = outputLog s @ sts" and "capabilityBits s' = capabilityBits s" and "ppmFile s' = ppmFile s"
  using assms by (simp_all add: advanced_def)

lemma runMetalCompute_complete:
  assumes "ready (272 + n) (compute_replies (nextRequestID s) res fence @ fs) s" and "res \<noteq> 0" and "fence \<noteq> 0"
  shows "\<exists>s'. Client_runMetalCompute T s = (Inr (), s') \<and> ready n fs s' \<and> nextRequestID s' = nextRequestID s + 6
    \<and> capabilityBits s' = capabilityBits s \<and> ppmFile s' = ppmFile s
    \<and> outputLog s' = outputLog s @ compute_results res fence"
proof -
  let ?q = "[6, 0, 0, 0, 7, 0, 0, 0, 8, 0, 0, 0, 9, 0, 0, 0] :: bytes"
  let ?k = "nextRequestID s"
  obtain s1 where 1: "Client_createResource T 16 s = (Inr res, s1)"
    and a1: "advanced s (224 + n) (tl (compute_replies ?k res fence @ fs)) [BufferCreated res 16] s1"
    using create_complete [of "224 + n" s res "tl (compute_replies ?k res fence @ fs)" 16] assms
    by (auto simp: compute_replies_def)
  note d1 = advancedD [OF a1]
  obtain s2 where 2: "Client_writeResource T res [1, 2, 3, 4] s1 = (Inr (), s2)"
    and a2: "advanced s1 (160 + n) (tl (tl (compute_replies ?k res fence @ fs))) [ResourceWritten res 16] s2"
    using write_complete [of "160 + n" s1 res "tl (tl (compute_replies ?k res fence @ fs))" res 1 2 3 4] d1
    by (auto simp: compute_replies_def)
  note d2 = advancedD [OF a2]
  have n2: "nextRequestID s2 = ?k + 2" using d2(2) d1 by (simp add: add.commute)
  obtain s3 where 3: "Client_submitAdd T res 4 5 s2 = (Inr fence, s3)"
    and a3: "advanced s2 (112 + n) (tl (tl (tl (compute_replies ?k res fence @ fs)))) [AddSubmitted fence] s3"
    using submitAdd_complete [of "112 + n" s2 fence "tl (tl (tl (compute_replies ?k res fence @ fs)))" res 4 5] d2(1) n2 assms
    by (auto simp: compute_replies_def)
  note d3 = advancedD [OF a3]
  have n3: "nextRequestID s3 = ?k + 3" using d3(2) n2 by (simp add: add.commute)
  obtain s4 where 4: "Client_waitFence T fence s3 = (Inr (), s4)"
    and a4: "advanced s3 (80 + n) (tl (tl (tl (tl (compute_replies ?k res fence @ fs))))) [FenceSignaled] s4"
    using waitFence_complete [of "80 + n" s3 fence "tl (tl (tl (tl (compute_replies ?k res fence @ fs))))" fence] d3(1) n3
    by (auto simp: compute_replies_def)
  note d4 = advancedD [OF a4]
  have n4: "nextRequestID s4 = ?k + 4" using d4(2) n3 by (simp add: add.commute)
  obtain s5 where 5: "Client_readResourceBytes T res 16 s4 = (Inr ?q, s5)"
    and a5: "advanced s4 (32 + n) (host_reply IMB_MSG_DESTROY_RESOURCE (?k + 5) res [] # fs) [ResourceRead res 16] s5"
    using readBytes_complete [of "32 + n" s4 res ?q "host_reply IMB_MSG_DESTROY_RESOURCE (?k + 5) res [] # fs" 16 res] d4(1) n4
    by (auto simp: compute_replies_def)
  note d5 = advancedD [OF a5]
  let ?s6 = "s5\<lparr>outputLog := outputLog s5 @ [ComputeVerified]\<rparr>"
  have n5: "nextRequestID ?s6 = ?k + 5" using n4 d5 by (simp add: add.commute)
  obtain s7 where 7: "Client_destroyResource T res ?s6 = (Inr (), s7)"
    and a7: "advanced ?s6 n fs [ResourceDestroyed res] s7"
    using destroy_complete [of n ?s6 res fs res] d5(1) unfolding n5 by (auto simp: ready_def)
  note d7 = advancedD [OF a7]
  show ?thesis
    using 7 d7 n5 d5(3-) d4(3-) d3(3-) d2(3-) d1(3-)
    by (auto simp: Client_runMetalCompute_def prog_simps 1 2 3 4 5 compute_results_def)
qed

lemma createImage_complete:
  assumes "ready (64 + n) (host_reply IMB_MSG_CREATE_RESOURCE (nextRequestID s) img [] # fs) s" and "img \<noteq> 0"
  shows "\<exists>s'. Client_createImage T w h s = (Inr img, s') \<and> advanced s n fs [ImageCreated img w h] s'"
proof -
  let ?p = "appendLittleEndian (appendLittleEndian (appendLittleEndian (appendLittleEndian
            (appendLittleEndian (appendLittleEndian (appendLittleEndian []
            (ucast w * ucast h * 4 :: u64)) IMB_RESOURCE_IMAGE) (0 :: u32)) w) h) IMB_IMAGE_FORMAT_RGBA8_UNORM) (0 :: u32)"
  have len: "32 + length ?p + n = 64 + n" by (simp add: appendLittleEndian_eq)
  obtain c' where c': "Client_exchange T IMB_MSG_CREATE_RESOURCE ?p 0 s
      = (Inr (host_reply IMB_MSG_CREATE_RESOURCE (nextRequestID s) img []),
         s\<lparr>chan := c', nextRequestID := nextRequestID s + 1\<rparr>)"
    and r: "\<And>s' :: client. chan s' = c' \<Longrightarrow> ready n fs s'"
    by (rule Client_exchange_complete [OF assms(1) [folded len]]) auto
  show ?thesis
    using r assms(2) by (auto simp: Client_createImage_def Let_def prog_simps c' advanced_def)
qed

lemma submitTriangle_complete:
  assumes "ready (48 + n) (host_reply IMB_MSG_SUBMIT_COMMAND (nextRequestID s) fence [] # fs) s" and "fence \<noteq> 0"
  shows "\<exists>s'. Client_submitTriangle T img c s = (Inr fence, s') \<and> advanced s n fs [TriangleSubmitted fence] s'"
proof -
  let ?p = "appendLittleEndian (appendLittleEndian (appendLittleEndian (appendLittleEndian
            (appendLittleEndian [] (command_code IMB_COMMAND_DRAW_TRIANGLE)) (0 :: u16)) (0 :: u32)) c) (0 :: u32)"
  have len: "32 + length ?p + n = 48 + n" by (simp add: appendLittleEndian_eq)
  obtain c' where c': "Client_exchange T IMB_MSG_SUBMIT_COMMAND ?p img s
      = (Inr (host_reply IMB_MSG_SUBMIT_COMMAND (nextRequestID s) fence []),
         s\<lparr>chan := c', nextRequestID := nextRequestID s + 1\<rparr>)"
    and r: "\<And>s' :: client. chan s' = c' \<Longrightarrow> ready n fs s'"
    by (rule Client_exchange_complete [OF assms(1) [folded len]]) auto
  show ?thesis
    using r c' assms(2) by (auto simp: Client_submitTriangle_def Let_def prog_simps advanced_def)
qed

lemma runMetalRaster_complete:
  assumes P: "transport_of P = T" and ppm: "imageOutput P \<noteq> None \<longrightarrow> createOk P \<and> finishOk P"
    and r: "ready (224 + n) (raster_replies (nextRequestID s) img fence ps @ fs) s"
    and ids: "img \<noteq> 0" "fence \<noteq> 0" and ps: "triangle_image ps"
  shows "\<exists>s'. Client_runMetalRaster P s = (Inr (), s') \<and> ready n fs s' \<and> nextRequestID s' = nextRequestID s + 5
    \<and> capabilityBits s' = capabilityBits s
    \<and> ppmFile s' = (if imageOutput P = None then ppmFile s else raster_file (imageOutput P) ps)
    \<and> outputLog s' = outputLog s @ raster_results (imageOutput P) img fence ps"
proof -
  let ?k = "nextRequestID s" and ?all = "raster_replies (nextRequestID s) img fence ps @ fs"
  have len: "length (pixel_bytes ps) = 16384" using ps by (simp add: triangle_image_def)
  obtain s1 where 1: "Client_createImage T 64 64 s = (Inr img, s1)"
    and a1: "advanced s (160 + n) (tl ?all) [ImageCreated img 64 64] s1"
    using createImage_complete [of "160 + n" s img "tl ?all" 64 64] r ids by (auto simp: raster_replies_def)
  note d1 = advancedD [OF a1]
  obtain s2 where 2: "Client_submitTriangle T img 0xff201810 s1 = (Inr fence, s2)"
    and a2: "advanced s1 (112 + n) (tl (tl ?all)) [TriangleSubmitted fence] s2"
    using submitTriangle_complete [of "112 + n" s1 fence "tl (tl ?all)" img "0xff201810"] d1 ids
    by (auto simp: raster_replies_def)
  note d2 = advancedD [OF a2]
  have n2: "nextRequestID s2 = ?k + 2" using d2(2) d1 by (simp add: add.commute)
  obtain s3 where 3: "Client_waitFence T fence s2 = (Inr (), s3)"
    and a3: "advanced s2 (80 + n) (tl (tl (tl ?all))) [FenceSignaled] s3"
    using waitFence_complete [of "80 + n" s2 fence "tl (tl (tl ?all))" fence] d2(1) n2 by (auto simp: raster_replies_def)
  note d3 = advancedD [OF a3]
  have n3: "nextRequestID s3 = ?k + 3" using d3(2) n2 by (simp add: add.commute)
  obtain s4 where 4: "Client_readResourceBytes T img 16384 s3 = (Inr (pixel_bytes ps), s4)"
    and a4: "advanced s3 (32 + n) (host_reply IMB_MSG_DESTROY_RESOURCE (?k + 4) img [] # fs) [ResourceRead img 16384] s4"
    using readBytes_complete [of "32 + n" s3 img "pixel_bytes ps" "host_reply IMB_MSG_DESTROY_RESOURCE (?k + 4) img [] # fs" 16384 img]
      d3(1) n3 len
    by (auto simp: raster_replies_def)
  note d4 = advancedD [OF a4]
  let ?s5 = "if imageOutput P = None then s4 else s4\<lparr>ppmFile := raster_file (imageOutput P) ps\<rparr>"
  let ?s6 = "?s5\<lparr>outputLog := outputLog s4 @ [RasterVerified 64 64 (drawn ps) (imageOutput P)]\<rparr>"
  have n6: "nextRequestID ?s6 = ?k + 4" using n3 d4 by (simp add: add.commute)
  have "ready (32 + n) (host_reply IMB_MSG_DESTROY_RESOURCE (nextRequestID ?s6) img [] # fs) ?s6"
    using d4(1) unfolding n6 by (simp add: ready_def)
  from destroy_complete [OF this, of img] obtain s7 where 7: "Client_destroyResource T img ?s6 = (Inr (), s7)"
    and a7: "advanced ?s6 n fs [ResourceDestroyed img] s7" by blast
  note d7 = advancedD [OF a7]
  have w: "(case imageOutput P of Some path \<Rightarrow> Client_writePPM P path (pixel_bytes ps) 64 64 | None \<Rightarrow> ret ()) s4 = (Inr (), ?s5)"
    using ppm by (auto simp: Client_writePPM_def prog_simps raster_file_def andThen_def require_def ret_def split: option.split)
  have e: "emit (RasterVerified 64 64 (drawn ps) (imageOutput P)) ?s5 = (Inr (), ?s6)"
    by (simp add: emit_run)
  have opaque: "list_all (\<lambda>(r, g, b, a). a = 0xff) ps" "\<not> drawn ps < 512" "\<not> 4096 \<le> drawn ps"
    using ps triangle_image_drawn [OF ps] by (auto simp: triangle_image_def)
  have "Client_runMetalRaster P s = Client_destroyResource T img ?s6"
    by (simp add: Client_runMetalRaster_def Let_def P prog_simps 1 2 3 4 triangle_image_corner [OF ps] changedPixelsLoop_spec
        opaque w e del: if_split)
  then show ?thesis
    using 7 d7 n6 d4(3-) d3(3-) d2(3-) d1(3-) by (auto simp: raster_results_def)
qed

text \<open>A whole run against such a host.\<close>

lemma compute_part:
  assumes "ready ((if has_caps (capabilityBits s) compute_caps then 272 else 0) + n)
      ((if has_caps (capabilityBits s) compute_caps then compute_replies (nextRequestID s) res fence else []) @ fs) s"
    and "has_caps (capabilityBits s) compute_caps \<longrightarrow> res \<noteq> 0 \<and> fence \<noteq> 0"
  shows "\<exists>s'. (if has_caps (capabilityBits s) compute_caps then Client_runMetalCompute T s else emit ComputeSkipped s) = (Inr (), s')
    \<and> ready n fs s' \<and> nextRequestID s' = nextRequestID s + (if has_caps (capabilityBits s) compute_caps then 6 else 0)
    \<and> capabilityBits s' = capabilityBits s \<and> ppmFile s' = ppmFile s
    \<and> outputLog s' = outputLog s
      @ (if has_caps (capabilityBits s) compute_caps then compute_results res fence else [ComputeSkipped])"
  using assms runMetalCompute_complete [of n s res fence fs]
  by (cases "has_caps (capabilityBits s) compute_caps") (auto simp: emit_run)

lemma raster_part:
  assumes "transport_of P = T" and "imageOutput P \<noteq> None \<longrightarrow> createOk P \<and> finishOk P"
    and "ready ((if has_caps (capabilityBits s) raster_caps then 224 else 0) + n)
      ((if has_caps (capabilityBits s) raster_caps then raster_replies (nextRequestID s) img fence ps else []) @ fs) s"
    and "has_caps (capabilityBits s) raster_caps \<longrightarrow> img \<noteq> 0 \<and> fence \<noteq> 0 \<and> triangle_image ps" and "ppmFile s = None"
  shows "\<exists>s'. (if has_caps (capabilityBits s) raster_caps then Client_runMetalRaster P s else emit RasterSkipped s) = (Inr (), s')
    \<and> ready n fs s' \<and> nextRequestID s' = nextRequestID s + (if has_caps (capabilityBits s) raster_caps then 5 else 0)
    \<and> ppmFile s' = (if has_caps (capabilityBits s) raster_caps then raster_file (imageOutput P) ps else None)
    \<and> outputLog s' = outputLog s
      @ (if has_caps (capabilityBits s) raster_caps then raster_results (imageOutput P) img fence ps else [RasterSkipped])"
proof (cases "has_caps (capabilityBits s) raster_caps")
  case True
  then show ?thesis using assms runMetalRaster_complete [OF assms(1,2), of n s img fence ps fs]
    by (auto simp: raster_file_def split: if_splits)
next
  case False
  then show ?thesis using assms by (simp add: emit_run)
qed

lemma run_complete:
  assumes P: "transport_of P = T" and ppm: "imageOutput P \<noteq> None \<longrightarrow> createOk P \<and> finishOk P"
    and c: "clean c" "request_size h \<le> capacity (writes c)"
    and host: "incoming (reads c) = stream (conforming_host h)" and ok: "host_ok h"
  shows "\<exists>s'. Client_run P (Client_init c) = (Inr (), s') \<and> incoming (reads (chan s')) = []
    \<and> outputLog s' = run_results h (imageOutput P)
    \<and> ppmFile s' = (if draws h then raster_file (imageOutput P) (host_pixels h) else None)"
proof -
  let ?s = "Client_init c"
  define x y where "x = (if computes h then 272 else 0 :: nat)" and "y = (if draws h then 224 else 0 :: nat)"
  note xy = x_def y_def
  let ?pong = "host_reply IMB_MSG_PONG 3 0 (bytes_of ''imb-guest-probe'')"
  let ?cap = "host_reply IMB_MSG_CAPABILITIES_REPLY 2 0 (capabilities_payload (host_bits h) (host_maxBuffer h) (host_name h))"
  have i: "nextRequestID ?s = 1" "outputLog ?s = []" "ppmFile ?s = None" by (simp_all add: Client_init_def)
  have "ready (40 + (111 + x + y)) (host_reply IMB_MSG_HELLO_REPLY (nextRequestID ?s) 0 hello_payload # ?cap # ?pong # checks_replies h) ?s"
    using c host by (simp add: ready_def Client_init_def conforming_host_def request_size_def xy)
  then obtain s1 where 1: "Client_hello T ?s = (Inr (), s1)"
    and a1: "advanced ?s (111 + x + y) (?cap # ?pong # checks_replies h) [HelloNegotiated 1 22] s1"
    using hello_complete by blast
  note d1 = advancedD [OF a1]
  have "ready (32 + (79 + x + y)) (host_reply IMB_MSG_CAPABILITIES_REPLY (nextRequestID s1) 0
      (capabilities_payload (host_bits h) (host_maxBuffer h) (host_name h)) # ?pong # checks_replies h) s1"
    using d1(1,2) i by (simp add: add.assoc)
  then obtain s2 where 2: "Client_queryCapabilities T s1 = (Inr (), s2)"
    and d2: "ready (47 + (32 + x + y)) (?pong # checks_replies h) s2" "nextRequestID s2 = 3"
      "capabilityBits s2 = host_bits h" "ppmFile s2 = None"
      "outputLog s2 = [HelloNegotiated 1 22, CapabilitiesReported (host_bits h) (host_name h) (host_maxBuffer h)]"
    using capabilities_complete [of "79 + x + y" s1 "host_bits h" "host_maxBuffer h" "host_name h" "?pong # checks_replies h"]
      d1 i ok by (auto simp: host_ok_def add.assoc)
  obtain s3 where 3: "Client_ping T s2 = (Inr (), s3)"
    and a3: "advanced s2 (32 + x + y) (checks_replies h) [PingPongOk] s3"
    using ping_complete [of "32 + x + y" s2 "checks_replies h"] d2 by (auto simp: add.assoc)
  note d3 = advancedD [OF a3]
  have n3: "nextRequestID s3 = 4" "capabilityBits s3 = host_bits h" using d3 d2 by simp_all
  let ?n4 = "if computes h then 10 else 4 :: u64" and ?n5 = "(if computes h then 10 else 4) + (if draws h then 5 else 0) :: u64"
  let ?last = "[host_reply IMB_MSG_SHUTDOWN ?n5 0 []]"
  let ?raster = "if draws h then raster_replies ?n4 (host_image h) (host_imageFence h) (host_pixels h) else []"
  have replies: "checks_replies h = (if computes h then compute_replies 4 (host_buffer h) (host_fence h) else []) @ ?raster @ ?last"
    by (simp add: checks_replies_def Let_def)
  have "ready (x + (y + 32)) ((if computes h then compute_replies 4 (host_buffer h) (host_fence h) else []) @ ?raster @ ?last) s3"
    using d3(1) unfolding replies by (simp add: ac_simps)
  from compute_part [of s3 "y + 32" "host_buffer h" "host_fence h" "?raster @ ?last", unfolded n3, OF this [unfolded x_def]] ok
  obtain s4 where 4: "(if computes h then Client_runMetalCompute T s3 else emit ComputeSkipped s3) = (Inr (), s4)"
    and d4: "ready (y + 32) (?raster @ ?last) s4" "nextRequestID s4 = 4 + (if computes h then 6 else 0)"
      "capabilityBits s4 = host_bits h" "ppmFile s4 = ppmFile s3"
      "outputLog s4 = outputLog s3 @ (if computes h then compute_results (host_buffer h) (host_fence h) else [ComputeSkipped])"
    unfolding host_ok_def by blast
  have n4: "nextRequestID s4 = ?n4" "ppmFile s4 = None" using d4(2,4) d3(5) d2(4) by simp_all
  from raster_part [OF P ppm, of s4 32 "host_image h" "host_imageFence h" "host_pixels h" ?last, unfolded n4 d4(3),
      OF d4(1) [unfolded y_def] _ refl] ok
  obtain s5 where 5: "(if draws h then Client_runMetalRaster P s4 else emit RasterSkipped s4) = (Inr (), s5)"
    and d5: "ready 32 ?last s5" "nextRequestID s5 = ?n5"
      "ppmFile s5 = (if draws h then raster_file (imageOutput P) (host_pixels h) else None)"
      "outputLog s5 = outputLog s4
        @ (if draws h then raster_results (imageOutput P) (host_image h) (host_imageFence h) (host_pixels h) else [RasterSkipped])"
    unfolding host_ok_def by blast
  obtain s6 where 6: "Client_shutdown T s5 = (Inr (), s6)" and a6: "advanced s5 0 [] [ShutdownOk] s6"
    using shutdown_complete [of 0 s5 0 "[]"] d5(1,2) by auto
  note d6 = advancedD [OF a6]
  have bits: "IMB_CAP_METAL_BUFFER OR IMB_CAP_METAL_COMPUTE OR IMB_CAP_RESOURCE_IO OR IMB_CAP_REAL_FENCE = r \<Longrightarrow>
      b AND r = r \<longleftrightarrow> has_caps b compute_caps"
    "IMB_CAP_METAL_IMAGE OR IMB_CAP_METAL_RASTER OR IMB_CAP_RESOURCE_IO OR IMB_CAP_REAL_FENCE = r \<Longrightarrow>
      b AND r = r \<longleftrightarrow> has_caps b raster_caps" for b r
    by (auto simp: has_caps_def compute_caps_def raster_caps_def or.assoc)
  have "Client_run P ?s = (Inr (), s6)"
    using 4 5 6 n3 d4(3)
    by (simp only: Client_run_def Let_def P bits [OF refl] andThen_Inr [where m = "Client_hello T", OF 1]
        andThen_Inr [where m = "Client_queryCapabilities T", OF 2] andThen_Inr [where m = "Client_ping T", OF 3])
      (simp add: andThen_def)
  then show ?thesis using d6 d5 d4(5) d3(3) d2(5) by (auto simp: run_results_def ready_def)
qed

end

end
