(* ===== verification/ProbeProps.thy ===== *)
theory ProbeProps
  imports ProbeRun
begin

text \<open>
  The properties of the wire format, of the transports and of the guest probe, for the transports the
  sources define. Each follows from the lemmas of the locale \<open>byte_transport\<close>, which the four
  transports satisfy.
\<close>

definition guest_transports :: "transport list" where
  "guest_transports = [FileDescriptorTransport, VsockListenerTransport, ChildProcessTransport, BridgeSocket]"

lemma guest_transports_byte: "T \<in> set guest_transports \<Longrightarrow> byte_transport T"
  by (auto simp: guest_transports_def intro: fd_transport.byte_transport_axioms
      vsock_transport.byte_transport_axioms child_transport.byte_transport_axioms
      bridge_socket.byte_transport_axioms)

lemma fd_in_transports: "FileDescriptorTransport \<in> set guest_transports"
  by (simp add: guest_transports_def)

text \<open>A channel on which the peer's stream \<open>bs\<close> arrives in two pieces around an interrupted call, and
  which accepts \<open>n + 1\<close> bytes in two calls.\<close>

definition split_channel :: "nat \<Rightarrow> bytes \<Rightarrow> channel" where
  "split_channel n bs = \<lparr>sent = [], writes = [Accepted 1, WriteIntr, Accepted n],
     reads = [Segment (take 5 bs), ReadIntr, Segment (drop 5 bs)]\<rparr>"

lemma split_channel_clean: "5 < length bs \<Longrightarrow> 0 < n \<Longrightarrow> clean (split_channel n bs)"
  by (cases bs) (simp_all add: clean_def split_channel_def)

definition plain_probe :: probe where
  "plain_probe = \<lparr>transport_of = FileDescriptorTransport, imageOutput = None, createOk = True, finishOk = True\<rparr>"

definition sample_channel :: channel where
  "sample_channel = split_channel 500 (stream (compute_host 0x1e0 64 [] 7 9))"

lemma length_stream_compute_host:
  "length (stream (compute_host 0x1e0 64 [] 7 9)) = 391"
  by (simp add: compute_host_def hello_payload_def capabilities_payload_def bytes_of_def)

lemma sample_channel_ok:
  "clean sample_channel" "423 \<le> capacity (writes sample_channel)" "sent sample_channel = []"
  "incoming (reads sample_channel) = stream (compute_host 0x1e0 64 [] 7 9)"
proof -
  let ?bs = "stream (compute_host 0x1e0 64 [] 7 9)"
  show "clean sample_channel"
    unfolding sample_channel_def by (rule split_channel_clean) (simp_all add: length_stream_compute_host)
  show "incoming (reads sample_channel) = ?bs"
    by (simp only: sample_channel_def split_channel_def channel.simps incoming.simps append_take_drop_id append_Nil2)
  show "423 \<le> capacity (writes sample_channel)" "sent sample_channel = []"
    by (simp_all add: sample_channel_def split_channel_def)
qed

lemma sample_caps: "has_caps 0x1e0 compute_caps" "\<not> has_caps 0x1e0 raster_caps"
  by (simp_all add: has_caps_def compute_caps_def raster_caps_def imb_cap_defs)

text \<open>The host of this channel.\<close>

definition plain_host :: probe_host where
  "plain_host = \<lparr>host_bits = 0x1e0, host_maxBuffer = 64, host_name = [], host_buffer = 7, host_fence = 9,
     host_image = 0, host_imageFence = 0, host_pixels = []\<rparr>"

lemma plain_host: "conforming_host plain_host = compute_host 0x1e0 64 [] 7 9" "host_ok plain_host" "request_size plain_host = 423"
  using sample_caps
  by (simp_all add: plain_host_def conforming_host_def checks_replies_def compute_replies_def compute_host_def host_ok_def
      request_size_def)

lemma plain_probe_transport: "transport_of plain_probe \<in> set guest_transports"
  by (simp add: plain_probe_def guest_transports_def)

text \<open>A host with all capabilities, which draws a triangle of 600 pixels, and a probe that writes the picture to a file.\<close>

definition sample_picture :: "(u8 \<times> u8 \<times> u8 \<times> u8) list" where
  "sample_picture = replicate 3496 clear_pixel @ replicate 600 (0xff, 0, 0, 0xff)"

definition sample_host :: probe_host where
  "sample_host = \<lparr>host_bits = 0x7e0, host_maxBuffer = 64, host_name = bytes_of ''GPU'', host_buffer = 7, host_fence = 9,
     host_image = 8, host_imageFence = 10, host_pixels = sample_picture\<rparr>"

definition picture_probe :: probe where
  "picture_probe = plain_probe\<lparr>imageOutput := Some ''triangle.ppm''\<rparr>"

lemma sample_picture_ok: "triangle_image sample_picture" "drawn sample_picture = 600"
proof -
  have n: "replicate 3496 clear_pixel = clear_pixel # replicate 3495 clear_pixel"
    by (metis Suc_numeral replicate_Suc semiring_norm(5) semiring_norm(8) add_One_commute eval_nat_numeral(3))
  show d: "drawn sample_picture = 600"
    by (simp add: drawn_def sample_picture_def clear_pixel_def filter_replicate)
  show "triangle_image sample_picture"
    unfolding triangle_image_def d by (simp add: sample_picture_def clear_pixel_def list_all_iff)
qed

lemma sample_host_caps: "computes sample_host" "draws sample_host"
  by (simp_all add: sample_host_def has_caps_def compute_caps_def raster_caps_def imb_cap_defs)

lemma sample_host_ok: "host_ok sample_host"
  unfolding host_ok_def by (simp add: sample_host_def sample_picture_ok)

text \<open>C4: Against every host that follows the protocol, whatever capabilities it reports, a run of the probe succeeds, on
  every transport and however the kernel splits the stream into reads and writes. It prints the results of the handshake,
  of the compute check if the host has all of its capabilities, of the raster check if it has all of those, or that they
  are skipped; it writes the image file with the pixels the host has drawn if it is asked to; and it reads exactly the
  bytes of the replies. The host draws an opaque picture of 64 by 64 pixels that has the clear colour in the corner and
  another in at least 512 pixels; the socket takes the bytes of the requests, and the image file can be written.\<close>

lemma probe_run_completes:
  assumes "transport_of P \<in> set guest_transports" and "imageOutput P \<noteq> None \<longrightarrow> createOk P \<and> finishOk P"
    and "clean c" and "request_size h \<le> capacity (writes c)"
    and "incoming (reads c) = stream (conforming_host h)" and "host_ok h"
  shows "\<exists>s'. Client_run P (Client_init c) = (Inr (), s') \<and> incoming (reads (chan s')) = []
    \<and> outputLog s' = [HelloNegotiated 1 22, CapabilitiesReported (host_bits h) (host_name h) (host_maxBuffer h), PingPongOk]
      @ (if computes h then [BufferCreated (host_buffer h) 16, ResourceWritten (host_buffer h) 16, AddSubmitted (host_fence h),
           FenceSignaled, ResourceRead (host_buffer h) 16, ComputeVerified, ResourceDestroyed (host_buffer h)]
         else [ComputeSkipped])
      @ (if draws h then [ImageCreated (host_image h) 64 64, TriangleSubmitted (host_imageFence h), FenceSignaled,
           ResourceRead (host_image h) 16384, RasterVerified 64 64 (drawn (host_pixels h)) (imageOutput P),
           ResourceDestroyed (host_image h)]
         else [RasterSkipped])
      @ [ShutdownOk]
    \<and> ppmFile s' = (if draws h then map_option (\<lambda>path. (path, ppmBytes (pixel_bytes (host_pixels h)) 64 64)) (imageOutput P)
        else None)"
  using byte_transport.run_complete [OF guest_transports_byte [OF assms(1)] refl assms(2-)]
  unfolding run_results_def compute_results_def raster_results_def raster_file_def .

lemma probe_run_completes_witness:
  "\<exists>s'. Client_run picture_probe (Client_init (split_channel 700 (stream (conforming_host sample_host)))) = (Inr (), s')
    \<and> RasterVerified 64 64 600 (Some ''triangle.ppm'') \<in> set (outputLog s')
    \<and> ppmFile s' = Some (''triangle.ppm'', ppmBytes (pixel_bytes sample_picture) 64 64)"
proof -
  let ?c = "split_channel 700 (stream (conforming_host sample_host))"
  have T: "transport_of picture_probe \<in> set guest_transports"
    using plain_probe_transport by (simp add: picture_probe_def)
  have out: "imageOutput picture_probe = Some ''triangle.ppm''" "createOk picture_probe" "finishOk picture_probe"
    by (simp_all add: picture_probe_def plain_probe_def)
  have c: "clean ?c" by (rule split_channel_clean) (simp_all add: conforming_host_def)
  have k: "request_size sample_host \<le> capacity (writes ?c)" by (simp add: request_size_def split_channel_def)
  have i: "incoming (reads ?c) = stream (conforming_host sample_host)"
    by (simp only: split_channel_def channel.simps incoming.simps append_take_drop_id append_Nil2)
  have h: "host_pixels sample_host = sample_picture" by (simp add: sample_host_def)
  from probe_run_completes [OF T _ c k i sample_host_ok] out sample_host_caps show ?thesis
    by (auto simp: h sample_picture_ok)
qed

text \<open>C5: A run of the probe that succeeds has sent whole, well-formed request frames with consecutive
  request numbers, and their types are those of the handshake, of the compute check if the host has all of its
  capabilities, of the raster check if it has all of those, and of the shutdown, in this order.\<close>

lemma probe_run_requests:
  assumes "transport_of P \<in> set guest_transports" and "Client_run P (Client_init c) = (Inr (), s')"
  shows "\<exists>fs. sent (chan s') = sent c @ stream fs \<and> numbered 1 fs
    \<and> map (message_type \<circ> frame_header) fs = map message_code (run_requests (capabilityBits s'))"
  using byte_transport.run_asks [OF guest_transports_byte [OF assms(1)] refl assms(2)]
  by (auto simp: requests_def Client_init_def)

lemma probe_run_requests_witness:
  "\<exists>s' fs. Client_run plain_probe (Client_init sample_channel) = (Inr (), s')
    \<and> sent (chan s') = stream fs \<and> numbered 1 fs
    \<and> map (message_type \<circ> frame_header) fs = map message_code (run_requests (capabilityBits s'))"
proof -
  have c: "\<exists>s'. Client_run plain_probe (Client_init sample_channel) = (Inr (), s')"
    using byte_transport.run_complete [OF guest_transports_byte [OF plain_probe_transport] refl, of sample_channel plain_host]
      plain_host sample_channel_ok by (auto simp: plain_probe_def)
  then obtain s' where s': "Client_run plain_probe
      (Client_init sample_channel) = (Inr (), s')" by blast
  from probe_run_requests [OF plain_probe_transport s'] s' show ?thesis
    by (auto simp: sample_channel_ok)
qed

text \<open>C29: Whatever the kernel and the host answer, and whether the run succeeds or throws, the bytes the probe
  has written are whole well-formed request frames with the consecutive numbers 1, 2, ... followed by a
  beginning of the next one.\<close>

lemma probe_stream_framed:
  assumes "transport_of P \<in> set guest_transports" and "Client_run P (Client_init c) = (r, s')"
  shows "\<exists>fs g k. numbered 1 (fs @ [g]) \<and> sent (chan s') = sent c @ stream fs @ take k (frame_bytes g)"
  using speaksD [OF byte_transport.speaks_run [OF guest_transports_byte [OF assms(1)] refl] assms(2)]
  by (auto simp: said_def Client_init_def)

lemma probe_stream_framed_witness:
  "\<exists>fs g k. numbered 1 (fs @ [g])
    \<and> sent (chan (snd (Client_run plain_probe (Client_init (split_channel 500 []))))) = stream fs @ take k (frame_bytes g)"
proof -
  obtain r s' where r: "Client_run plain_probe (Client_init (split_channel 500 [])) = (r, s')" by fastforce
  have e: "sent (split_channel 500 []) = []" by (simp add: split_channel_def)
  from probe_stream_framed [OF plain_probe_transport r] show ?thesis by (simp only: r e snd_conv append_Nil)
qed

text \<open>C30: A reply or request header decodes to \<open>h\<close> exactly when it is the encoding of \<open>h\<close>: the
  32-byte codec loses nothing, and accepts nothing but encodings.\<close>

lemma header_codec_exact: "decodeHeader bs = Inr h \<longleftrightarrow> bs = encodeHeader h"
  using encode_decodeHeader decode_encodeHeader by blast

text \<open>When the client's exchange returns a reply, the request was sent whole with the client's next number,
  the reply carries the magic, the response flag, that number, a payload of at most the protocol's maximum and
  of its announced length, it is not an error reply, and exactly its bytes were taken from the stream.\<close>

lemma client_exchange_reply:
  assumes "T \<in> set guest_transports" and "Client_exchange T ty p rid s = (Inr f, s')"
  shows "magic (frame_header f) = IMB_PROTOCOL_MAGIC \<and> flags (frame_header f) AND IMB_FLAG_RESPONSE \<noteq> 0
    \<and> request_id (frame_header f) = nextRequestID s
    \<and> payload_length (frame_header f) \<le> IMB_PROTOCOL_MAX_PAYLOAD
    \<and> length (frame_payload f) = unat (payload_length (frame_header f))
    \<and> message_type (frame_header f) \<noteq> message_code IMB_MSG_ERROR
    \<and> sent (chan s') = sent (chan s) @ request_bytes ty p (nextRequestID s) rid
    \<and> incoming (reads (chan s)) = frame_bytes f @ incoming (reads (chan s'))
    \<and> nextRequestID s' = nextRequestID s + 1"
proof -
  note r = byte_transport.exchange_returns [OF guest_transports_byte [OF assms(1)] assms(2) [unfolded Client_exchange_def]]
  from r show ?thesis
    by (auto simp: reply_ok_def Client_checkReply_def exchanged_def request_bytes_def split: if_splits)
qed

lemma client_exchange_reply_witness:
  "\<exists>f s'. Client_exchange FileDescriptorTransport IMB_MSG_HELLO [] 0 (Client_init sample_channel) = (Inr f, s')
    \<and> magic (frame_header f) = IMB_PROTOCOL_MAGIC \<and> request_id (frame_header f) = 1"
proof -
  have "reply_ok Client_checkReply 1 (host_reply IMB_MSG_HELLO_REPLY 1 0 hello_payload)"
    by (rule reply_ok_host_reply) (simp_all add: hello_payload_def)
  then obtain f s' where r: "Client_exchange FileDescriptorTransport IMB_MSG_HELLO [] 0 (Client_init sample_channel) = (Inr f, s')"
    using fd_transport.exchange_complete [of "Client_init sample_channel" "[]"
        "host_reply IMB_MSG_HELLO_REPLY 1 0 hello_payload" _ Client_checkReply Client_protocolError IMB_MSG_HELLO 0]
      sample_channel_ok
    by (fastforce simp: Client_init_def Client_exchange_def compute_host_def)
  from client_exchange_reply [OF fd_in_transports r] r show ?thesis by (simp add: Client_init_def)
qed

text \<open>The image file holds the PPM header and the first three bytes of every pixel, in order.\<close>

lemma ppmBytes_pixels:
  "ppmBytes (concat (map (\<lambda>(r, g, b, a). [r, g, b, a]) ps)) w h =
     bytes_of (''P6'' @ [CHR 0x0A] @ decimal (unat w) @ '' '' @ decimal (unat h) @ [CHR 0x0A] @ ''255'' @ [CHR 0x0A])
     @ concat (map (\<lambda>(r, g, b, a). [r, g, b]) ps)"
proof -
  let ?px = "\<lambda>ps. concat (map (\<lambda>(r, g, b, a). [r, g, b, a]) ps) :: bytes"
  have len: "length (?px ps) = 4 * length ps" by (induction ps) auto
  have "concat (map (\<lambda>k. [?px ps ! (4 * k), ?px ps ! (4 * k + 1), ?px ps ! (4 * k + 2)]) [0..<length ps])
      = concat (map (\<lambda>(r, g, b, a). [r, g, b]) ps)"
  proof (induction ps)
    case (Cons p ps)
    have "concat (map (\<lambda>k. [?px (p # ps) ! (4 * k), ?px (p # ps) ! (4 * k + 1), ?px (p # ps) ! (4 * k + 2)]) (map Suc [0..<length ps]))
      = concat (map (\<lambda>k. [?px ps ! (4 * k), ?px ps ! (4 * k + 1), ?px ps ! (4 * k + 2)]) [0..<length ps])"
      by (cases p) (simp add: o_def)
    then show ?case using Cons.IH
      by (cases p) (simp add: upt_conv_Cons map_Suc_upt del: upt_Suc)
  qed simp
  then show ?thesis by (simp add: ppmBytes_def len)
qed

end
