(* ===== verification/BridgeProps.thy ===== *)
theory BridgeProps
  imports BridgeLayout ProbeProps
begin

text \<open>
  The properties of the driver's connection: every call, whatever the host answers, adds whole numbered request frames
  of at most the size the protocol allows; a reply that is accepted passed the strict header test; writing and reading
  a resource in pieces moves the right bytes; the size of an image is computed without overflow.
\<close>

section \<open>The discipline of the calls\<close>

lemma bridge_speaks_exchange: "length p \<le> 16777216 \<Longrightarrow> speaks (bridge_exchange ty p rid)"
  unfolding bridge_exchange_def by (rule bridge_socket.speaks_exchange)

lemma speaks_bridge_expectType: "speaks (bridge_expectType f ty)"
  by (auto simp: bridge_expectType_def)

lemma speaks_for_id: "length p \<le> 16777216 \<Longrightarrow> speaks (exchange_for_id ty p rid e)"
  unfolding exchange_for_id_def
  by (intro speaks_andThen speaks_basic speaks_bridge_expectType bridge_speaks_exchange)

lemma speaks_required:
  assumes "b \<Longrightarrow> speaks m"
  shows "speaks (andThen (require b msg) (\<lambda>_. m))"
proof (cases b)
  case True
  then show ?thesis using assms by (intro speaks_andThen speaks_basic)
next
  case False
  have "andThen (require b msg) (\<lambda>_. m) = throw msg"
    using False by (simp add: fun_eq_iff andThen_def require_def throw_def)
  then show ?thesis by (simp add: speaks_basic)
qed

lemma speaks_cond: "(b \<Longrightarrow> speaks m) \<Longrightarrow> (\<not> b \<Longrightarrow> speaks m') \<Longrightarrow> speaks (if b then m else m')"
  by simp

lemma speaks_caps: "speaks (\<lambda>s. (Inr (), s\<lparr>capabilities := c\<rparr>))"
  by (rule speaks_silent) simp_all

lemmas speaks_bridge = speaks_andThen speaks_required speaks_basic speaks_bridge_expectType bridge_speaks_exchange
  speaks_for_id speaks_caps

lemma payload_limit: "unat IMB_PROTOCOL_MAX_PAYLOAD = 16777216"
  by (simp add: IMB_PROTOCOL_MAX_PAYLOAD_def)

lemma length_words: "length (concat (map le_bytes (code :: u32 list))) = 4 * length code"
  by (induction code) simp_all

lemma speaks_setup: "speaks bridge_hello" "speaks bridge_queryCapabilities" "speaks bridge_construct"
  unfolding bridge_construct_def bridge_hello_def bridge_queryCapabilities_def Let_def
  by (intro speaks_bridge | simp add: appendFields_eq)+

lemma speaks_resources:
  "speaks (bridge_createBuffer sz)" "speaks (bridge_querySparseImageProperties fmt ty n)"
  "speaks (bridge_createSparseImage v w h fmt m l n ty)"
  "speaks (bridge_updateSparseImageMapping r d m sl x y z tw th td)"
  "speaks (bridge_createAccelerationStructure ty sz)" "speaks (bridge_destroyBuffer r)"
  unfolding bridge_createBuffer_def bridge_querySparseImageProperties_def bridge_createSparseImage_def
    bridge_updateSparseImageMapping_def bridge_createAccelerationStructure_def bridge_destroyBuffer_def Let_def
  by (intro speaks_bridge | simp add: appendFields_eq)+

lemma speaks_createImage: "speaks (bridge_createImage w h fmt d t)"
  unfolding bridge_createImage_def Let_def
  by (rule speaks_required) (simp add: speaks_basic speaks_for_id appendFields_eq split: option.split)

lemma speaks_createComputePipeline: "speaks (bridge_createComputePipeline code e)"
  unfolding bridge_createComputePipeline_def Let_def
  by (intro speaks_bridge speaks_if | simp add: appendFields_eq length_words payload_limit)+

lemma fields_length:
  assumes "\<And>x. x \<in> set xs \<Longrightarrow> list_all2 fits (g x) st"
  shows "length (fold (\<lambda>x out. out @ fields_bytes (g x)) xs out) = length out + sizeof_struct st * length xs"
  using length_concat_fields [of xs g st, OF assms] by (simp add: fold_fields)

lemma speaks_buildPrimitive: "speaks (bridge_buildPrimitive r bf gs)"
  unfolding bridge_buildPrimitive_def Let_def
  by (intro speaks_bridge | simp add: fields_length [OF fits_records(3)] imb_struct_sizes appendFields_eq payload_limit)+

lemma speaks_buildInstance:
  assumes "list_all (\<lambda>i. length (instance_transformationBits i) = 12) is"
  shows "speaks (bridge_buildInstance r bf is)"
proof -
  have f: "list_all2 fits (instance_fields i) imb_acceleration_structure_instance_payload" if "i \<in> set is" for i
    using that assms by (auto simp: list_all_iff intro: fits_instance)
  show ?thesis unfolding bridge_buildInstance_def Let_def
    by (intro speaks_bridge | simp add: fields_length [OF f] imb_struct_sizes appendFields_eq payload_limit)+
qed

lemma maxChunk_value: "maxChunk = 16777200"
  by (simp add: maxChunk_def payload_limit)

lemma length_writePayload: "length (writePayload d bs) = 16 + length bs"
  by (simp add: writePayload_def appendFields_eq)

lemma length_readPayload: "length (readPayload d n) = 16"
  by (simp add: readPayload_def appendFields_eq)

lemma speaks_writeChunks: "speaks (writeChunks r bs dst off)"
proof (induction r bs dst off rule: writeChunks.induct)
  case (1 r bs dst off)
  show ?case
  proof (cases "off < length bs")
    case False
    then show ?thesis by (subst writeChunks.simps) (simp add: speaks_basic)
  next
    case True
    then show ?thesis
      by (subst writeChunks.simps) (simp add: Let_def, intro speaks_bridge "1.IH",
        simp_all add: length_writePayload maxChunk_value)
  qed
qed

lemma speaks_readChunks: "speaks (readChunks r sz off bs)"
proof (induction r sz off bs rule: readChunks.induct)
  case (1 r sz off bs)
  show ?case
  proof (cases "length bs < sz")
    case False
    then show ?thesis by (subst readChunks.simps) (simp add: speaks_basic)
  next
    case True
    then show ?thesis
      by (subst readChunks.simps) (simp add: Let_def, intro speaks_bridge speaks_cond "1.IH",
        simp_all add: length_readPayload)
  qed
qed

lemma speaks_io: "speaks (bridge_writeBuffer r bs dst)" "speaks (bridge_writeImage r bs)"
  "speaks (bridge_readBuffer r sz off)" "speaks (bridge_readImage r sz)"
  unfolding bridge_writeImage_def bridge_writeBuffer_def bridge_readBuffer_def bridge_readImage_def
  by (intro speaks_writeChunks speaks_readChunks speaks_bridge | simp add: length_readPayload)+

lemma speaks_commands:
  "speaks bridge_submitNoop" "speaks (bridge_submitAdd r n a)" "speaks (bridge_submitTriangle r c)"
  "speaks (bridge_submitCompute pl x y z bs push)" "speaks (bridge_submitIndexedUI im vb ib vo io w h cl ds)"
  "speaks (bridge_waitFence f)"
  unfolding bridge_submitNoop_def bridge_submitAdd_def bridge_submitTriangle_def bridge_submitCompute_def
    bridge_submitIndexedUI_def bridge_waitFence_def Let_def
  by (intro speaks_bridge
    | simp add: appendFields_eq computePayload_eq uiPayload_eq length_concat_fields [OF fits_records(1)]
        length_concat_fields [OF fits_records(2)] imb_struct_sizes payload_limit)+

definition light_arrays :: "BridgeRayCamera option \<Rightarrow> bool" where
  "light_arrays camera = (case camera of None \<Rightarrow> True
     | Some c \<Rightarrow> list_all (\<lambda>l. length (light_values l) = 16) (additionalLights c))"

lemma speaks_submitRayTrace:
  assumes "light_arrays camera"
  shows "speaks (bridge_submitRayTrace im asid w h miss hit camera grid)"
proof -
  have a: "list_all (\<lambda>l. length (light_values l) = 16) (encoded_lights camera grid)"
    using assms by (cases camera) (simp_all add: light_arrays_def encoded_lights_def encoded_camera_def emptyCamera_def)
  have "length (rayPayload asid w h miss hit camera grid) \<le> 176 + 152 * length (encoded_lights camera grid)"
    using ray_payload_layout [OF a, of asid w h miss hit] by (cases "encoded_lights camera grid = []") simp_all
  moreover have "length (encoded_lights camera grid) \<le> 16"
    if "\<not> (case camera of None \<Rightarrow> False | Some c \<Rightarrow> IMB_TRACE_RAYS_MAX_ADDITIONAL_LIGHTS < length (additionalLights c))"
    using that by (cases camera)
      (simp_all add: encoded_lights_def encoded_camera_def emptyCamera_def IMB_TRACE_RAYS_MAX_ADDITIONAL_LIGHTS_def)
  ultimately show ?thesis
    unfolding bridge_submitRayTrace_def by (intro speaks_bridge) fastforce
qed

text \<open>The shutdown swallows the exception of its exchange, so it may return after a frame that was cut off.\<close>

lemma framed_shutdown:
  assumes "bridge_shutdown s = (r, s')"
  shows "\<exists>fs g k. numbered (nextRequestID s) (fs @ [g])
    \<and> sent (chan s') = sent (chan s) @ stream fs @ take k (frame_bytes g)"
proof (cases "connected s")
  case False
  then have "ret () s = (r, s')" using assms by (simp add: bridge_shutdown_def ret_def)
  from speaksD [OF speaks_basic(1) this] show ?thesis by (auto simp: said_def)
next
  case True
  let ?m = "andThen (bridge_exchange IMB_MSG_SHUTDOWN [] 0) (\<lambda>reply. bridge_expectType reply IMB_MSG_SHUTDOWN)"
  have m: "speaks ?m" by (intro speaks_bridge) simp
  obtain r1 s1 where 1: "?m s = (r1, s1)" by fastforce
  have "chan s' = chan s1" using assms 1 True by (auto simp: bridge_shutdown_def split: sum.splits exn.splits)
  then show ?thesis using speaksD [OF m 1] by (auto simp: said_def)
qed

text \<open>The public methods of the class as data, and a session: the constructor, some calls up to the first exception,
  and the shutdown.\<close>

datatype bridge_call =
    CreateBuffer u64 | CreateImage u32 u32 u32 u32 bool | QuerySparseImageProperties u32 u32 u32
  | CreateSparseImage u64 u32 u32 u32 u32 u32 u32 u32
  | UpdateSparseImageMapping u64 bool u32 u32 u32 u32 u32 u32 u32 u32
  | CreateComputePipeline "u32 list" "bytes option" | CreateAccelerationStructure u32 u64
  | BuildPrimitive u64 u32 "BridgePrimitiveAccelerationStructureGeometry list"
  | BuildInstance u64 u32 "BridgeInstanceAccelerationStructureInstance list"
  | DestroyBuffer u64 | WriteBuffer u64 bytes u64 | WriteImage u64 bytes | ReadBuffer u64 u64 u64 | ReadImage u64 u64
  | SubmitNoop | SubmitAdd u64 u32 u32 | SubmitCompute u64 u32 u32 u32 "BridgeComputeBinding list" bytes
  | SubmitTriangle u64 u32 | SubmitIndexedUI u64 u64 u64 u64 u64 u32 u32 u32 "BridgeUIDraw list"
  | SubmitRayTrace u64 u64 u32 u32 u32 u32 "BridgeRayCamera option" bool | WaitFence u64

definition unitE :: "('s, 'a) prog \<Rightarrow> ('s, unit) prog" where
  "unitE m = andThen m (\<lambda>_. ret ())"

fun perform :: "bridge_call \<Rightarrow> (bridge, unit) prog" where
  "perform (CreateBuffer sz) = unitE (bridge_createBuffer sz)"
| "perform (CreateImage w h fmt d t) = unitE (bridge_createImage w h fmt d t)"
| "perform (QuerySparseImageProperties fmt ty n) = unitE (bridge_querySparseImageProperties fmt ty n)"
| "perform (CreateSparseImage v w h fmt m l n ty) = unitE (bridge_createSparseImage v w h fmt m l n ty)"
| "perform (UpdateSparseImageMapping r d m sl x y z tw th td) = bridge_updateSparseImageMapping r d m sl x y z tw th td"
| "perform (CreateComputePipeline code e) = unitE (bridge_createComputePipeline code e)"
| "perform (CreateAccelerationStructure ty sz) = unitE (bridge_createAccelerationStructure ty sz)"
| "perform (BuildPrimitive r bf gs) = bridge_buildPrimitive r bf gs"
| "perform (BuildInstance r bf is) = bridge_buildInstance r bf is"
| "perform (DestroyBuffer r) = bridge_destroyBuffer r"
| "perform (WriteBuffer r bs dst) = bridge_writeBuffer r bs dst"
| "perform (WriteImage r bs) = bridge_writeImage r bs"
| "perform (ReadBuffer r sz off) = unitE (bridge_readBuffer r sz off)"
| "perform (ReadImage r sz) = unitE (bridge_readImage r sz)"
| "perform SubmitNoop = unitE bridge_submitNoop"
| "perform (SubmitAdd r n a) = unitE (bridge_submitAdd r n a)"
| "perform (SubmitCompute pl x y z bs push) = unitE (bridge_submitCompute pl x y z bs push)"
| "perform (SubmitTriangle r c) = unitE (bridge_submitTriangle r c)"
| "perform (SubmitIndexedUI im vb ib vo io w h cl ds) = unitE (bridge_submitIndexedUI im vb ib vo io w h cl ds)"
| "perform (SubmitRayTrace im asid w h miss hit camera grid) = unitE (bridge_submitRayTrace im asid w h miss hit camera grid)"
| "perform (WaitFence f) = bridge_waitFence f"

text \<open>The arrays have the lengths of their types.\<close>

fun typed_call :: "bridge_call \<Rightarrow> bool" where
  "typed_call (BuildInstance r bf is) = list_all (\<lambda>i. length (instance_transformationBits i) = 12) is"
| "typed_call (SubmitRayTrace im asid w h miss hit camera grid) = light_arrays camera"
| "typed_call _ = True"

lemma speaks_unitE: "speaks m \<Longrightarrow> speaks (unitE m)"
  unfolding unitE_def by (intro speaks_andThen speaks_basic)

lemma speaks_perform: "typed_call c \<Longrightarrow> speaks (perform c)"
  by (cases c)
    (simp_all add: speaks_unitE speaks_resources speaks_createImage speaks_createComputePipeline speaks_buildPrimitive
      speaks_buildInstance speaks_io speaks_commands speaks_submitRayTrace)

fun perform_all :: "bridge_call list \<Rightarrow> (bridge, unit) prog" where
  "perform_all [] = ret ()"
| "perform_all (c # cs) = andThen (perform c) (\<lambda>_. perform_all cs)"

definition bridge_session :: "bridge_call list \<Rightarrow> channel \<Rightarrow> bridge" where
  "bridge_session cs c = (case andThen bridge_construct (\<lambda>_. perform_all cs) (bridge_init c) of
     (Inl e, s) \<Rightarrow> s
   | (Inr _, s) \<Rightarrow> snd (bridge_shutdown s))"

lemma speaks_perform_all: "list_all typed_call cs \<Longrightarrow> speaks (perform_all cs)"
  by (induction cs) (auto intro!: speaks_andThen speaks_basic speaks_perform)

text \<open>C6: Whatever the kernel and the host answer, a session of the driver with the host - the constructor, any calls up
  to the first exception, the shutdown - has written whole well-formed request frames of at most the protocol's
  payload with the consecutive numbers 1, 2, ..., followed by a beginning of the next one.\<close>

lemma bridge_session_framed:
  assumes "list_all typed_call cs"
  shows "\<exists>fs g k. numbered 1 (fs @ [g])
    \<and> sent (chan (bridge_session cs c)) = sent c @ stream fs @ take k (frame_bytes g)"
proof -
  let ?m = "andThen bridge_construct (\<lambda>_. perform_all cs)"
  have m: "speaks ?m" by (intro speaks_andThen speaks_setup speaks_perform_all assms)
  have init: "nextRequestID (bridge_init c) = 1" "chan (bridge_init c) = c" by (simp_all add: bridge_init_def)
  obtain r s where 1: "?m (bridge_init c) = (r, s)" by fastforce
  from speaksD [OF m 1] obtain fs g k where
    n: "numbered 1 (fs @ [g])" and se: "sent (chan s) = sent c @ stream fs @ take k (frame_bytes g)"
    and ok: "\<And>x. r = Inr x \<Longrightarrow> k = 0 \<and> nextRequestID s = 1 + word_of_nat (length fs)"
    by (rule saidE) (rule that; simp add: init)
  show ?thesis
  proof (cases r)
    case (Inl e)
    then have "bridge_session cs c = s" using 1 by (simp add: bridge_session_def)
    then show ?thesis using n se by blast
  next
    case (Inr x)
    obtain r2 s2 where 2: "bridge_shutdown s = (r2, s2)" by fastforce
    then have s2: "bridge_session cs c = s2" using 1 Inr by (simp add: bridge_session_def)
    from framed_shutdown [OF 2] obtain fs' g' k' where
      f: "numbered (nextRequestID s) (fs' @ [g'])" "sent (chan s2) = sent (chan s) @ stream fs' @ take k' (frame_bytes g')"
      by blast
    have "numbered 1 fs" using n by (simp add: numbered_append)
    then have "numbered 1 ((fs @ fs') @ [g'])"
      using f(1) ok [OF Inr] numbered_append [of 1 fs "fs' @ [g']"] by simp
    moreover have "sent (chan s2) = sent c @ stream (fs @ fs') @ take k' (frame_bytes g')"
      using f(2) se ok [OF Inr] by simp
    ultimately show ?thesis unfolding s2 by blast
  qed
qed

lemma bridge_session_framed_witness:
  "\<exists>fs g k. numbered 1 (fs @ [g])
    \<and> sent (chan (bridge_session [CreateBuffer 64, WriteBuffer 7 [1, 2, 3] 0, ReadBuffer 7 3 0] (split_channel 500 [])))
      = stream fs @ take k (frame_bytes g)"
proof -
  have t: "list_all typed_call [CreateBuffer 64, WriteBuffer 7 [1, 2, 3] 0, ReadBuffer 7 3 0]" by simp
  have e: "sent (split_channel 500 []) = []" by (simp add: split_channel_def)
  from bridge_session_framed [OF t, of "split_channel 500 []"] show ?thesis by (simp only: e append_Nil)
qed

section \<open>What a reply that is accepted is\<close>

lemma bridge_exchange_facts:
  assumes "bridge_exchange ty p rid s = (Inr f, s')"
  shows "magic (frame_header f) = IMB_PROTOCOL_MAGIC \<and> version_major (frame_header f) = IMB_PROTOCOL_VERSION_MAJOR
    \<and> version_minor (frame_header f) = IMB_PROTOCOL_VERSION_MINOR \<and> flags (frame_header f) = IMB_FLAG_RESPONSE
    \<and> request_id (frame_header f) = nextRequestID s
    \<and> length (frame_payload f) = unat (payload_length (frame_header f))
    \<and> length (frame_payload f) \<le> 16777216
    \<and> message_type (frame_header f) \<noteq> message_code IMB_MSG_ERROR
    \<and> sent (chan s') = sent (chan s) @ request_bytes ty p (nextRequestID s) rid
    \<and> incoming (reads (chan s)) = frame_bytes f @ incoming (reads (chan s'))
    \<and> nextRequestID s' = nextRequestID s + 1"
proof -
  note r = bridge_socket.exchange_returns [OF assms [unfolded bridge_exchange_def]]
  have "bridge_checkReply (nextRequestID s) (frame_header f) = Inr ()"
    and l: "length (frame_payload f) = unat (payload_length (frame_header f))"
    using r(1) by (simp_all add: reply_ok_def)
  moreover from this have "payload_length (frame_header f) \<le> IMB_PROTOCOL_MAX_PAYLOAD"
    by (simp add: bridge_checkReply_def not_less split: if_splits)
  then have "length (frame_payload f) \<le> 16777216" unfolding l word_le_nat_alt payload_limit .
  ultimately show ?thesis using r
    by (auto simp: reply_ok_def bridge_checkReply_def exchanged_def request_bytes_def split: if_splits)
qed

text \<open>C7: When the driver's exchange returns a reply, the request was sent whole with the next number, and the reply is
  of the protocol's exact version, a response and nothing else, to that number, with its announced payload of at most
  the protocol's maximum, and no error; exactly its bytes were taken from the stream.\<close>

lemma bridge_exchange_reply:
  assumes "bridge_exchange ty p rid s = (Inr f, s')"
  shows "magic (frame_header f) = IMB_PROTOCOL_MAGIC \<and> version_major (frame_header f) = IMB_PROTOCOL_VERSION_MAJOR
    \<and> version_minor (frame_header f) = IMB_PROTOCOL_VERSION_MINOR \<and> flags (frame_header f) = IMB_FLAG_RESPONSE
    \<and> request_id (frame_header f) = nextRequestID s
    \<and> length (frame_payload f) = unat (payload_length (frame_header f))
    \<and> length (frame_payload f) \<le> 16777216
    \<and> message_type (frame_header f) \<noteq> message_code IMB_MSG_ERROR
    \<and> sent (chan s') = sent (chan s) @ request_bytes ty p (nextRequestID s) rid
    \<and> incoming (reads (chan s)) = frame_bytes f @ incoming (reads (chan s'))
    \<and> nextRequestID s' = nextRequestID s + 1"
  by (rule bridge_exchange_facts [OF assms])

lemma reply_ok_bridge:
  assumes "length p \<le> 16777216" and "ty \<noteq> IMB_MSG_ERROR"
  shows "reply_ok bridge_checkReply req (host_reply ty req rid p)"
proof -
  have u: "unat (word_of_nat (length p) :: u32) = length p"
    using assms(1) by (simp add: unat_of_nat take_bit_nat_eq_self)
  have le: "(word_of_nat (length p) :: u32) \<le> 16777216"
    using assms(1) u by (simp add: word_le_nat_alt)
  have ne: "message_code ty \<noteq> 11" using assms(2) by (cases ty) simp_all
  show ?thesis
    using u le ne
    by (simp add: reply_ok_def bridge_checkReply_def host_reply_def IMB_PROTOCOL_MAX_PAYLOAD_def not_less)
qed

text \<open>A host that answers the requests of a session.\<close>

lemma bridge_exchange_complete:
  assumes "ready (32 + length p + n) (host_reply ty' (nextRequestID s) rid' q # fs) s"
    and "length q \<le> 16777216" and "ty' \<noteq> IMB_MSG_ERROR"
  shows "\<exists>c'. bridge_exchange ty p rid s = (Inr (host_reply ty' (nextRequestID s) rid' q),
      s\<lparr>chan := c', nextRequestID := nextRequestID s + 1\<rparr>)
    \<and> ready n fs (s\<lparr>chan := c', nextRequestID := nextRequestID s + 1\<rparr>)"
proof -
  have c: "clean (chan s)" and k: "32 + length p \<le> capacity (writes (chan s))"
    and i: "incoming (reads (chan s)) = frame_bytes (host_reply ty' (nextRequestID s) rid' q) @ stream fs"
    using assms(1) by (auto simp: ready_def)
  from bridge_socket.exchange_complete [OF c k i reply_ok_bridge [OF assms(2,3)], of bridge_protocolError ty rid]
  show ?thesis using assms(1) by (fastforce simp: ready_def bridge_exchange_def)
qed

lemma bridge_expectType_host_reply [simp]: "bridge_expectType (host_reply ty req rid p) ty = ret ()"
  by (simp add: bridge_expectType_def)

lemma bridge_exchange_reply_witness:
  "\<exists>f s'. bridge_exchange IMB_MSG_HELLO [] 0 (bridge_init sample_channel) = (Inr f, s')
    \<and> flags (frame_header f) = IMB_FLAG_RESPONSE \<and> request_id (frame_header f) = 1"
proof -
  have r: "ready (32 + length [] + 0) (host_reply IMB_MSG_HELLO_REPLY (nextRequestID (bridge_init sample_channel)) 0
      hello_payload # tl (compute_host 0x1e0 64 [] 7 9)) (bridge_init sample_channel)"
    using sample_channel_ok by (simp add: ready_def bridge_init_def compute_host_def)
  obtain f s' where x: "bridge_exchange IMB_MSG_HELLO [] 0 (bridge_init sample_channel) = (Inr f, s')"
    using bridge_exchange_complete [OF r, of IMB_MSG_HELLO 0] by (auto simp: hello_payload_def)
  from bridge_exchange_reply [OF x] x show ?thesis by (simp add: bridge_init_def)
qed

section \<open>Writing and reading a resource in pieces\<close>

definition asked :: "bridge \<Rightarrow> frame list \<Rightarrow> frame list \<Rightarrow> bridge \<Rightarrow> bool" where
  "asked s rqs fs s' \<longleftrightarrow> sent (chan s') = sent (chan s) @ stream rqs
     \<and> incoming (reads (chan s)) = stream fs @ incoming (reads (chan s'))"

lemma asked_refl: "asked s [] [] s"
  by (simp add: asked_def)

lemma asked_trans: "asked s rqs fs s1 \<Longrightarrow> asked s1 rqs' fs' s' \<Longrightarrow> asked s (rqs @ rqs') (fs @ fs') s'"
  by (simp add: asked_def)

text \<open>A request answered by a reply of the expected type, in a program that returns.\<close>

lemma exchange_thenE:
  assumes "andThen (bridge_exchange ty p rid) (\<lambda>reply. andThen (bridge_expectType reply ty') (\<lambda>_. k reply)) s = (Inr x, s')"
  obtains f s1 where "asked s [request ty p (nextRequestID s) rid] [f] s1"
    and "message_type (frame_header f) = message_code ty'" and "length (frame_payload f) \<le> 16777216"
    and "nextRequestID s1 = nextRequestID s + 1" and "k f s1 = (Inr x, s')"
proof -
  from assms obtain f s1 where 1: "bridge_exchange ty p rid s = (Inr f, s1)"
    and 2: "andThen (bridge_expectType f ty') (\<lambda>_. k f) s1 = (Inr x, s')" by (rule andThen_returnsE)
  from 2 have t: "message_type (frame_header f) = message_code ty'" and 3: "k f s1 = (Inr x, s')"
    by (auto simp: bridge_expectType_def throwE_def ret_def elim!: andThen_returnsE split: if_splits)
  note facts = bridge_exchange_facts [OF 1]
  show thesis
    by (rule that [OF _ t _ _ 3]) (use facts in \<open>simp_all add: asked_def request_bytes_def\<close>)
qed

text \<open>What the host does with a write request, on the memory of the resource.\<close>

definition write_at :: "nat \<Rightarrow> bytes \<Rightarrow> bytes \<Rightarrow> bytes" where
  "write_at off data mem = take off mem @ data @ drop (off + length data) mem"

definition apply_write :: "frame \<Rightarrow> bytes \<Rightarrow> bytes" where
  "apply_write rq mem =
     (case (readLittleEndian (frame_payload rq) 0, readLittleEndian (frame_payload rq) 8) of
        (Inr (off :: u64), Inr (len :: u32)) \<Rightarrow> write_at (unat off) (take (unat len) (drop 16 (frame_payload rq))) mem
      | _ \<Rightarrow> mem)"

definition is_request :: "imb_message_type \<Rightarrow> u64 \<Rightarrow> frame \<Rightarrow> bool" where
  "is_request ty rid rq \<longleftrightarrow> message_type (frame_header rq) = message_code ty \<and> resource_id (frame_header rq) = rid"

lemma request_simps [simp]:
  "frame_payload (request ty p req rid) = p" "is_request ty rid (request ty p req rid)"
  "message_type (frame_header (request ty p req rid)) = message_code ty"
  by (simp_all add: request_def request_header_def is_request_def)

lemma u64_add_offset: "unat d + n < 2 ^ 64 \<Longrightarrow> unat (d + word_of_nat n :: u64) = unat d + n"
  by (simp add: unat_word_ariths u64_unat_of_nat)

lemma apply_write_request:
  assumes "unat dst + off < 2 ^ 64" and "length data \<le> 16777216"
  shows "apply_write (request ty (writePayload (dst + word_of_nat off) data) req rid) mem = write_at (unat dst + off) data mem"
proof -
  have u: "unat (word_of_nat (length data) :: u32) = length data"
    using assms(2) by (simp add: unat_of_nat take_bit_nat_eq_self)
  show ?thesis
    using assms by (simp add: apply_write_def writePayload_def appendFields_eq wire_simps u u64_add_offset)
qed

lemma write_at_append:
  assumes "off + length data \<le> length mem"
  shows "write_at (off + length data) data' (write_at off data mem) = write_at off (data @ data') mem"
  using assms by (simp add: write_at_def ac_simps)

lemma writeChunks_writes:
  "writeChunks rid bs dst off s = (Inr (), s') \<Longrightarrow> off \<le> length bs \<Longrightarrow> unat dst + length bs < 2 ^ 64
    \<Longrightarrow> \<exists>rqs fs. asked s rqs fs s' \<and> length rqs = length fs \<and> list_all (is_request IMB_MSG_WRITE_RESOURCE rid) rqs
      \<and> (\<forall>mem. unat dst + length bs \<le> length mem
           \<longrightarrow> fold apply_write rqs (write_at (unat dst) (take off bs) mem) = write_at (unat dst) bs mem)"
proof (induction rid bs dst off arbitrary: s rule: writeChunks.induct)
  case (1 rid bs dst off)
  show ?case
  proof (cases "off < length bs")
    case False
    then have "ret () s = (Inr (), s')" using "1.prems"(1) by (subst (asm) writeChunks.simps) simp
    then have "s' = s" by (simp add: ret_def)
    moreover have "take off bs = bs" using False by simp
    ultimately show ?thesis by (intro exI [of _ "[]"]) (simp add: asked_refl)
  next
    case True
    let ?chunk = "min maxChunk (length bs - off)"
    let ?data = "take ?chunk (drop off bs)"
    let ?p = "writePayload (dst + word_of_nat off) ?data"
    have len: "length ?data = ?chunk" using True by simp
    from "1.prems"(1) True have
      "andThen (bridge_exchange IMB_MSG_WRITE_RESOURCE ?p rid) (\<lambda>reply. andThen (bridge_expectType reply IMB_MSG_WRITE_RESOURCE)
        (\<lambda>_. writeChunks rid bs dst (off + ?chunk))) s = (Inr (), s')"
      by (subst (asm) writeChunks.simps) (simp add: Let_def)
    from this obtain f s1 where a: "asked s [request IMB_MSG_WRITE_RESOURCE ?p (nextRequestID s) rid] [f] s1"
      and 2: "writeChunks rid bs dst (off + ?chunk) s1 = (Inr (), s')" by (rule exchange_thenE)
    have off: "off + ?chunk \<le> length bs" using True by linarith
    from "1.IH" [OF _ refl refl 2 off "1.prems"(3)] True obtain rqs fs where b: "asked s1 rqs fs s'" "length rqs = length fs"
      "list_all (is_request IMB_MSG_WRITE_RESOURCE rid) rqs"
      "\<And>mem. unat dst + length bs \<le> length mem
        \<Longrightarrow> fold apply_write rqs (write_at (unat dst) (take (off + ?chunk) bs) mem) = write_at (unat dst) bs mem"
      by auto
    have w: "apply_write (request IMB_MSG_WRITE_RESOURCE ?p (nextRequestID s) rid) (write_at (unat dst) (take off bs) mem)
        = write_at (unat dst) (take (off + ?chunk) bs) mem"
      if "unat dst + length bs \<le> length mem" for mem
    proof -
      have "apply_write (request IMB_MSG_WRITE_RESOURCE ?p (nextRequestID s) rid) (write_at (unat dst) (take off bs) mem)
        = write_at (unat dst + length (take off bs)) ?data (write_at (unat dst) (take off bs) mem)"
        using True "1.prems"(3) by (subst apply_write_request) (simp_all add: maxChunk_value)
      also have "\<dots> = write_at (unat dst) (take off bs @ ?data) mem"
        by (rule write_at_append) (use that True in simp)
      finally show ?thesis by (simp add: take_add)
    qed
    show ?thesis
      using asked_trans [OF a b(1)] b(2-4) w
      by (intro exI [of _ "request IMB_MSG_WRITE_RESOURCE ?p (nextRequestID s) rid # rqs"] exI [of _ "f # fs"]) simp
  qed
qed

lemma write_at_empty [simp]: "write_at off [] mem = mem"
  by (simp add: write_at_def)

lemma take_write_at: "off + length data \<le> length mem \<Longrightarrow> take (length data) (drop off (write_at off data mem)) = data"
  by (simp add: write_at_def)

lemma length_write_at: "off + length data \<le> length mem \<Longrightarrow> length (write_at off data mem) = length mem"
  by (simp add: write_at_def)

text \<open>C8: When \<^verbatim>\<open>writeBuffer\<close> returns, the write requests it has sent, applied in their order to the memory of the
  resource, store the whole buffer at the destination offset and change nothing else, although a buffer may take
  several requests.\<close>

lemma write_buffer_writes:
  assumes "bridge_writeBuffer rid bs dst s = (Inr (), s')" and "unat dst + length bs \<le> length mem" and "length mem < 2 ^ 64"
  shows "\<exists>rqs. sent (chan s') = sent (chan s) @ stream rqs \<and> list_all (is_request IMB_MSG_WRITE_RESOURCE rid) rqs
    \<and> fold apply_write rqs mem = take (unat dst) mem @ bs @ drop (unat dst + length bs) mem"
proof -
  from assms(2,3) have "unat dst + length bs < 2 ^ 64" by simp
  from writeChunks_writes [OF assms(1) [unfolded bridge_writeBuffer_def] _ this] assms(2)
  show ?thesis by (fastforce simp: asked_def write_at_def)
qed

text \<open>A host that takes one write of three bytes and answers one read of them.\<close>

definition io_channel :: channel where
  "io_channel = split_channel 500 (stream [host_reply IMB_MSG_WRITE_RESOURCE 1 7 [], host_reply IMB_MSG_READ_RESOURCE 2 7 [1, 2, 3]])"

lemma io_ready: "ready 99 [host_reply IMB_MSG_WRITE_RESOURCE 1 7 [], host_reply IMB_MSG_READ_RESOURCE 2 7 [1, 2, 3]]
  (bridge_init io_channel)"
proof -
  let ?bs = "stream [host_reply IMB_MSG_WRITE_RESOURCE 1 7 [], host_reply IMB_MSG_READ_RESOURCE 2 7 [1, 2, 3]]"
  have "clean io_channel" unfolding io_channel_def by (rule split_channel_clean) simp_all
  moreover have "incoming (reads io_channel) = ?bs"
    by (simp only: io_channel_def split_channel_def channel.simps incoming.simps append_take_drop_id append_Nil2)
  moreover have "99 \<le> capacity (writes io_channel)" by (simp add: io_channel_def split_channel_def)
  ultimately show ?thesis by (simp add: ready_def bridge_init_def)
qed

lemma io_write:
  "\<exists>s. bridge_writeBuffer 7 [1, 2, 3] 2 (bridge_init io_channel) = (Inr (), s) \<and> nextRequestID s = 2
    \<and> ready 48 [host_reply IMB_MSG_READ_RESOURCE 2 7 [1, 2, 3]] s"
proof -
  let ?s = "bridge_init io_channel"
  have n: "nextRequestID ?s = 1" by (simp add: bridge_init_def)
  have r: "ready (32 + length (writePayload 2 [1, 2, 3]) + 48) (host_reply IMB_MSG_WRITE_RESOURCE (nextRequestID ?s) 7 []
      # [host_reply IMB_MSG_READ_RESOURCE 2 7 [1, 2, 3]]) ?s"
    using io_ready by (simp add: length_writePayload n)
  from bridge_exchange_complete [OF r, of IMB_MSG_WRITE_RESOURCE 7] n obtain c' where
    "bridge_exchange IMB_MSG_WRITE_RESOURCE (writePayload 2 [1, 2, 3]) 7 ?s
      = (Inr (host_reply IMB_MSG_WRITE_RESOURCE 1 7 []), ?s\<lparr>chan := c', nextRequestID := 2\<rparr>)"
    "ready 48 [host_reply IMB_MSG_READ_RESOURCE 2 7 [1, 2, 3]] (?s\<lparr>chan := c', nextRequestID := 2\<rparr>)"
    by auto
  moreover have "writeChunks 7 [1, 2, 3] 2 (Suc (Suc (Suc 0))) t = (Inr (), t)" for t
    by (subst writeChunks.simps) (simp add: ret_def)
  ultimately show ?thesis
    unfolding bridge_writeBuffer_def by (subst writeChunks.simps) (simp add: maxChunk_value Let_def prog_simps)
qed

lemma write_buffer_writes_witness:
  "\<exists>rqs s'. bridge_writeBuffer 7 [1, 2, 3] 2 (bridge_init io_channel) = (Inr (), s')
    \<and> fold apply_write rqs [9, 9, 9, 9, 9, 9] = [9, 9, 1, 2, 3, 9]"
proof -
  from io_write obtain s where s: "bridge_writeBuffer 7 [1, 2, 3] 2 (bridge_init io_channel) = (Inr (), s)" by blast
  have "\<exists>rqs. sent (chan s) = sent (chan (bridge_init io_channel)) @ stream rqs
      \<and> list_all (is_request IMB_MSG_WRITE_RESOURCE 7) rqs
      \<and> fold apply_write rqs [9, 9, 9, 9, 9, 9] = take (unat (2 :: u64)) [9, 9, 9, 9, 9, 9] @ [1, 2, 3]
        @ drop (unat (2 :: u64) + length [1 :: u8, 2, 3]) [9, 9, 9, 9, 9, 9]"
    by (rule write_buffer_writes [OF s]) simp_all
  then obtain rqs where "fold apply_write rqs [9, 9, 9, 9, 9, 9] = [9, 9, 1, 2, 3, 9]" by (elim exE conjE) simp
  with s show ?thesis by blast
qed

section \<open>A host that keeps memory\<close>

text \<open>The host answers each request in turn: a write request is stored, a read request is answered with the bytes of the
  memory it names.\<close>

definition host_memory :: "frame \<Rightarrow> bytes \<Rightarrow> bytes" where
  "host_memory rq mem =
     (if message_type (frame_header rq) = message_code IMB_MSG_WRITE_RESOURCE then apply_write rq mem else mem)"

definition host_answer :: "bytes \<Rightarrow> frame \<Rightarrow> frame" where
  "host_answer mem rq =
     (let req = request_id (frame_header rq); rid = resource_id (frame_header rq) in
      if message_type (frame_header rq) = message_code IMB_MSG_WRITE_RESOURCE then host_reply IMB_MSG_WRITE_RESOURCE req rid []
      else host_reply IMB_MSG_READ_RESOURCE req rid
        (case (readLittleEndian (frame_payload rq) 0, readLittleEndian (frame_payload rq) 8) of
           (Inr (off :: u64), Inr (len :: u64)) \<Rightarrow> take (unat len) (drop (unat off) mem)
         | _ \<Rightarrow> []))"

primrec host_answers :: "bytes \<Rightarrow> frame list \<Rightarrow> frame list" where
  "host_answers mem [] = []"
| "host_answers mem (rq # rqs) = host_answer mem rq # host_answers (host_memory rq mem) rqs"

text \<open>The pieces of at most \<open>most\<close> bytes from \<open>off\<close> to \<open>n\<close>, and the requests that write and read them.\<close>

function pieces :: "nat \<Rightarrow> nat \<Rightarrow> nat \<Rightarrow> (nat \<times> nat) list" where
  "pieces most off n =
     (if off < n \<and> 0 < most then (off, min most (n - off)) # pieces most (off + min most (n - off)) n else [])"
  by pat_completeness auto
termination
  by (relation "measure (\<lambda>(_, off, n). n - off)") auto

declare pieces.simps [simp del]

lemma pieces_end [simp]: "n \<le> off \<Longrightarrow> pieces most off n = []"
  by (simp add: pieces.simps)

lemma pieces_step:
  "off < n \<Longrightarrow> 0 < most \<Longrightarrow> pieces most off n = (off, min most (n - off)) # pieces most (off + min most (n - off)) n"
  by (simp add: pieces.simps [of most off])

fun write_requests :: "u64 \<Rightarrow> bytes \<Rightarrow> u64 \<Rightarrow> u64 \<Rightarrow> (nat \<times> nat) list \<Rightarrow> frame list" where
  "write_requests rid bs dst k [] = []"
| "write_requests rid bs dst k ((off, len) # ps) =
     request IMB_MSG_WRITE_RESOURCE (le_bytes (dst + word_of_nat off) @ le_bytes (word_of_nat len :: u32)
       @ le_bytes (0 :: u32) @ take len (drop off bs)) k rid # write_requests rid bs dst (k + 1) ps"

fun read_requests :: "u64 \<Rightarrow> u64 \<Rightarrow> u64 \<Rightarrow> (nat \<times> nat) list \<Rightarrow> frame list" where
  "read_requests rid src k [] = []"
| "read_requests rid src k ((off, len) # ps) =
     request IMB_MSG_READ_RESOURCE (le_bytes (src + word_of_nat off) @ le_bytes (word_of_nat len :: u64)) k rid
       # read_requests rid src (k + 1) ps"

definition transfer_requests :: "u64 \<Rightarrow> bytes \<Rightarrow> u64 \<Rightarrow> u64 \<Rightarrow> frame list" where
  "transfer_requests rid bs dst k =
     (let ws = pieces 16777200 0 (length bs) in
      write_requests rid bs dst k ws
        @ read_requests rid dst (k + word_of_nat (length ws)) (pieces 16777216 0 (length bs)))"

lemma host_answers_append:
  "host_answers mem (rqs @ rqs') = host_answers mem rqs @ host_answers (fold host_memory rqs mem) rqs'"
  by (induction rqs arbitrary: mem) simp_all

lemma request_header_simps [simp]:
  "request_id (frame_header (request ty p req rid)) = req" "resource_id (frame_header (request ty p req rid)) = rid"
  by (simp_all add: request_def request_header_def)

lemma writePayload_eq:
  "writePayload d bs = le_bytes d @ le_bytes (word_of_nat (length bs) :: u32) @ le_bytes (0 :: u32) @ bs"
  by (simp add: writePayload_def appendFields_eq)

lemma readPayload_eq: "readPayload d n = le_bytes d @ le_bytes n"
  by (simp add: readPayload_def appendFields_eq)

text \<open>An exchange with such a host.\<close>

lemma bridge_answered:
  assumes "ready (length (frame_bytes (request ty p (nextRequestID s) rid)) + n) (host_reply ty' (nextRequestID s) rid' q # fs) s"
    and "length q \<le> 16777216" and "ty' \<noteq> IMB_MSG_ERROR"
  obtains s' where "bridge_exchange ty p rid s = (Inr (host_reply ty' (nextRequestID s) rid' q), s')"
    and "nextRequestID s' = nextRequestID s + 1" and "ready n fs s'"
    and "sent (chan s') = sent (chan s) @ frame_bytes (request ty p (nextRequestID s) rid)"
proof -
  have r: "ready (32 + length p + n) (host_reply ty' (nextRequestID s) rid' q # fs) s" using assms(1) by simp
  obtain s' where s': "bridge_exchange ty p rid s = (Inr (host_reply ty' (nextRequestID s) rid' q), s')" "ready n fs s'"
    using bridge_exchange_complete [OF r assms(2,3), of ty rid] by blast
  then show thesis using that bridge_exchange_facts [OF s'(1)] by (simp add: request_bytes_def)
qed

lemma writeChunks_completes:
  "off \<le> length bs \<Longrightarrow> unat dst + length bs \<le> length mem \<Longrightarrow> length mem < 2 ^ 64
    \<Longrightarrow> rqs = write_requests rid bs dst (nextRequestID s) (pieces 16777200 off (length bs))
    \<Longrightarrow> fold host_memory rqs (write_at (unat dst) (take off bs) mem) = write_at (unat dst) bs mem
      \<and> (ready (length (stream rqs) + n) (host_answers (write_at (unat dst) (take off bs) mem) rqs @ fs) s
        \<longrightarrow> (\<exists>s'. writeChunks rid bs dst off s = (Inr (), s') \<and> ready n fs s'
          \<and> nextRequestID s' = nextRequestID s + word_of_nat (length (pieces 16777200 off (length bs)))
          \<and> sent (chan s') = sent (chan s) @ stream rqs))"
proof (induction rid bs dst off arbitrary: s rqs rule: writeChunks.induct)
  case (1 rid bs dst off)
  show ?case
  proof (cases "off < length bs")
    case False
    then show ?thesis using "1.prems"
      by (subst writeChunks.simps) (simp add: ret_def)
  next
    case True
    let ?k = "nextRequestID s"
    let ?chunk = "min maxChunk (length bs - off)"
    let ?data = "take ?chunk (drop off bs)"
    let ?p = "writePayload (dst + word_of_nat off) ?data"
    let ?rq = "request IMB_MSG_WRITE_RESOURCE ?p ?k rid"
    let ?mem = "\<lambda>i. write_at (unat dst) (take i bs) mem"
    have len: "length ?data = ?chunk" using True by simp
    have ps: "pieces 16777200 off (length bs) = (off, ?chunk) # pieces 16777200 (off + ?chunk) (length bs)"
      using True by (simp add: pieces_step [of off] maxChunk_value)
    define rest where "rest = write_requests rid bs dst (?k + 1) (pieces 16777200 (off + ?chunk) (length bs))"
    have rqs: "rqs = ?rq # rest"
      unfolding "1.prems"(4) ps rest_def by (simp only: write_requests.simps writePayload_eq len)
    have w: "host_memory ?rq (?mem off) = ?mem (off + ?chunk)"
    proof -
      have "apply_write ?rq (?mem off) = write_at (unat dst + length (take off bs)) ?data (?mem off)"
        using True "1.prems"(2,3) by (subst apply_write_request) (simp_all add: maxChunk_value)
      also have "\<dots> = write_at (unat dst) (take off bs @ ?data) mem"
        by (rule write_at_append) (use "1.prems"(2) True in simp)
      finally show ?thesis by (simp add: host_memory_def take_add)
    qed
    have off: "off + ?chunk \<le> length bs" using True by linarith
    note IH = "1.IH" [OF _ refl refl off "1.prems"(2,3)]
    have mem: "fold host_memory rest (?mem (off + ?chunk)) = write_at (unat dst) bs mem"
      using IH [of rest "s\<lparr>nextRequestID := ?k + 1\<rparr>"] True by (simp add: rest_def)
    have run: "\<exists>s'. writeChunks rid bs dst off s = (Inr (), s') \<and> ready n fs s'
        \<and> nextRequestID s' = ?k + word_of_nat (length (pieces 16777200 off (length bs)))
        \<and> sent (chan s') = sent (chan s) @ stream rqs"
      if ready: "ready (length (stream rqs) + n) (host_answers (?mem off) rqs @ fs) s"
    proof -
      have "ready (length (frame_bytes ?rq) + (length (stream rest) + n)) (host_reply IMB_MSG_WRITE_RESOURCE ?k rid []
          # (host_answers (?mem (off + ?chunk)) rest @ fs)) s"
        using ready w unfolding rqs by (simp add: host_answer_def Let_def add.assoc)
      from bridge_answered [OF this] obtain s1 where
        1: "bridge_exchange IMB_MSG_WRITE_RESOURCE ?p rid s = (Inr (host_reply IMB_MSG_WRITE_RESOURCE ?k rid []), s1)"
        "nextRequestID s1 = ?k + 1" "ready (length (stream rest) + n) (host_answers (?mem (off + ?chunk)) rest @ fs) s1"
        "sent (chan s1) = sent (chan s) @ frame_bytes ?rq"
        by auto
      from IH [of rest s1] True 1(2,3) obtain s' where
        2: "writeChunks rid bs dst (off + ?chunk) s1 = (Inr (), s')" "ready n fs s'"
        "nextRequestID s' = ?k + 1 + word_of_nat (length (pieces 16777200 (off + ?chunk) (length bs)))"
        "sent (chan s') = sent (chan s1) @ stream rest"
        by (auto simp: rest_def)
      have "writeChunks rid bs dst off s = (Inr (), s')"
        using True 1(1) 2(1) by (subst writeChunks.simps) (simp add: Let_def prog_simps)
      then show ?thesis using 1(4) 2 by (intro exI [of _ s']) (simp add: ps rqs add.assoc)
    qed
    show ?thesis using w mem run by (simp add: rqs)
  qed
qed

lemma readChunks_completes:
  "length acc \<le> sz \<Longrightarrow> unat src + sz \<le> length mem \<Longrightarrow> length mem < 2 ^ 64 \<Longrightarrow> acc = take (length acc) (drop (unat src) mem)
    \<Longrightarrow> rqs = read_requests rid src (nextRequestID s) (pieces 16777216 (length acc) sz)
    \<Longrightarrow> ready (length (stream rqs) + n) (host_answers mem rqs @ fs) s
    \<Longrightarrow> \<exists>s'. readChunks rid sz src acc s = (Inr (take sz (drop (unat src) mem)), s') \<and> ready n fs s'
      \<and> sent (chan s') = sent (chan s) @ stream rqs"
proof (induction rid sz src acc arbitrary: s rqs rule: readChunks.induct)
  case (1 rid sz src acc)
  show ?case
  proof (cases "length acc < sz")
    case False
    then have "length acc = sz" using "1.prems"(1) by simp
    then show ?thesis using "1.prems"(4-6)
      by (subst readChunks.simps) (simp add: ret_def)
  next
    case True
    let ?k = "nextRequestID s"
    let ?chunk = "min 16777216 (sz - length acc)"
    let ?p = "readPayload (src + word_of_nat (length acc)) (word_of_nat ?chunk)"
    let ?rq = "request IMB_MSG_READ_RESOURCE ?p ?k rid"
    let ?q = "take ?chunk (drop (unat src + length acc) mem)"
    have q: "length ?q = ?chunk" using True "1.prems"(2) by simp
    have nxt: "acc @ ?q = take (length (acc @ ?q)) (drop (unat src) mem)"
    proof -
      have "acc @ ?q = take (length acc) (drop (unat src) mem) @ take ?chunk (drop (length acc) (drop (unat src) mem))"
        by (simp only: "1.prems"(4) [symmetric] drop_drop add.commute)
      also have "\<dots> = take (length acc + ?chunk) (drop (unat src) mem)" by (simp only: take_add)
      finally show ?thesis unfolding length_append q .
    qed
    have ps: "pieces 16777216 (length acc) sz = (length acc, ?chunk) # pieces 16777216 (length (acc @ ?q)) sz"
      using pieces_step [OF True] q by simp
    define rest where "rest = read_requests rid src (?k + 1) (pieces 16777216 (length (acc @ ?q)) sz)"
    have rqs: "rqs = ?rq # rest"
      unfolding "1.prems"(5) ps rest_def by (simp only: read_requests.simps readPayload_eq)
    have u: "unat (word_of_nat ?chunk :: u64) = ?chunk" using "1.prems"(2,3) True by (intro u64_unat_of_nat) simp
    have v: "unat (src + word_of_nat (length acc)) = unat src + length acc"
      using "1.prems"(2,3) True by (intro u64_add_offset) simp
    have a: "host_answer mem ?rq = host_reply IMB_MSG_READ_RESOURCE ?k rid ?q"
      by (simp add: host_answer_def Let_def readPayload_eq wire_simps u v del: of_nat_min)
    have "ready (length (frame_bytes ?rq) + (length (stream rest) + n))
        (host_reply IMB_MSG_READ_RESOURCE ?k rid ?q # (host_answers mem rest @ fs)) s"
      using "1.prems"(6) a unfolding rqs by (simp add: host_memory_def add.assoc)
    from bridge_answered [OF this] q obtain s1 where
      1: "bridge_exchange IMB_MSG_READ_RESOURCE ?p rid s = (Inr (host_reply IMB_MSG_READ_RESOURCE ?k rid ?q), s1)"
      "nextRequestID s1 = ?k + 1" "ready (length (stream rest) + n) (host_answers mem rest @ fs) s1"
      "sent (chan s1) = sent (chan s) @ frame_bytes ?rq"
      by auto
    have le: "length (acc @ ?q) \<le> sz" unfolding length_append q using True by linarith
    have rest: "rest = read_requests rid src (nextRequestID s1) (pieces 16777216 (length (acc @ ?q)) sz)"
      unfolding rest_def 1(2) ..
    let ?f = "host_reply IMB_MSG_READ_RESOURCE ?k rid ?q"
    have "\<exists>s'. readChunks rid sz src (acc @ frame_payload ?f) s1 = (Inr (take sz (drop (unat src) mem)), s') \<and> ready n fs s'
        \<and> sent (chan s') = sent (chan s1) @ stream rest"
      by (rule "1.IH" [OF _ refl refl]) (use True q payload_limit le "1.prems"(2,3) nxt rest 1(3) in simp_all)
    then obtain s' where 2: "readChunks rid sz src (acc @ ?q) s1 = (Inr (take sz (drop (unat src) mem)), s')" "ready n fs s'"
      "sent (chan s') = sent (chan s1) @ stream rest" by auto
    have "readChunks rid sz src acc s = (Inr (take sz (drop (unat src) mem)), s')"
      using True 1(1) 2(1) q by (subst readChunks.simps) (simp add: Let_def prog_simps payload_limit)
    then show ?thesis using 1(4) 2 by (intro exI [of _ s']) (simp add: rqs)
  qed
qed

text \<open>C25: A buffer that is written and then read back comes back unchanged. The calls send exactly the write requests of the
  pieces of at most 16777200 bytes and then the read requests of the pieces of at most 16777216 bytes, and if a host that
  keeps the memory of the resource answers each of them, and the socket takes them, both calls succeed, the result is
  what was written, and all the answers are read.\<close>

lemma write_read_roundtrip:
  assumes "clean (chan s)" and "length (stream rqs) \<le> capacity (writes (chan s))"
    and "rqs = transfer_requests rid bs dst (nextRequestID s)"
    and "incoming (reads (chan s)) = stream (host_answers mem rqs)"
    and "unat dst + length bs \<le> length mem" and "length mem < 2 ^ 64"
  shows "\<exists>s'. andThen (bridge_writeBuffer rid bs dst) (\<lambda>_. bridge_readBuffer rid (word_of_nat (length bs)) dst) s = (Inr bs, s')
    \<and> sent (chan s') = sent (chan s) @ stream rqs \<and> incoming (reads (chan s')) = []"
proof -
  let ?ws = "write_requests rid bs dst (nextRequestID s) (pieces 16777200 0 (length bs))"
  let ?rs = "read_requests rid dst (nextRequestID s + word_of_nat (length (pieces 16777200 0 (length bs)))) (pieces 16777216 0 (length bs))"
  let ?mem = "write_at (unat dst) bs mem"
  have len: "unat (word_of_nat (length bs) :: u64) = length bs" using assms(5,6) by (intro u64_unat_of_nat) simp
  have rqs: "rqs = ?ws @ ?rs" by (simp add: assms(3) transfer_requests_def Let_def)
  note w = writeChunks_completes [OF le0 assms(5,6) refl, of rid s]
  have "ready (length (stream ?ws) + length (stream ?rs)) (host_answers mem ?ws @ host_answers ?mem ?rs) s"
    using assms(1,2,4) w unfolding rqs by (simp add: ready_def host_answers_append)
  then obtain s1 where 1: "writeChunks rid bs dst 0 s = (Inr (), s1)" "ready (length (stream ?rs)) (host_answers ?mem ?rs) s1"
    "nextRequestID s1 = nextRequestID s + word_of_nat (length (pieces 16777200 0 (length bs)))"
    "sent (chan s1) = sent (chan s) @ stream ?ws"
    using w by fastforce
  have "unat dst + length bs \<le> length ?mem" "length ?mem < 2 ^ 64" using assms(5,6) by (simp_all add: length_write_at)
  from readChunks_completes [of "[]" "length bs" dst ?mem, OF _ this, of ?rs rid s1 0 "[]"] 1(2,3) obtain s' where
    2: "readChunks rid (length bs) dst [] s1 = (Inr (take (length bs) (drop (unat dst) ?mem)), s')" "ready 0 [] s'"
    "sent (chan s') = sent (chan s1) @ stream ?rs" by auto
  show ?thesis
    using 1(1,4) 2 take_write_at [OF assms(5)]
    by (intro exI [of _ s']) (simp add: prog_simps bridge_writeBuffer_def bridge_readBuffer_def len rqs ready_def)
qed

lemma write_read_roundtrip_witness:
  "\<exists>s'. andThen (bridge_writeBuffer 7 [1, 2, 3] 2) (\<lambda>_. bridge_readBuffer 7 3 2) (bridge_init io_channel) = (Inr [1, 2, 3], s')"
proof -
  let ?rqs = "transfer_requests 7 [1, 2, 3] 2 1"
  have p: "pieces m 0 (Suc (Suc (Suc 0))) = [(0, 3)]" if "3 \<le> m" for m
    using that by (simp add: pieces_step)
  have rqs: "?rqs = [request IMB_MSG_WRITE_RESOURCE (le_bytes (2 :: u64) @ le_bytes (3 :: u32) @ le_bytes (0 :: u32) @ [1, 2, 3]) 1 7,
      request IMB_MSG_READ_RESOURCE (le_bytes (2 :: u64) @ le_bytes (3 :: u64)) 2 7]"
    by (simp add: transfer_requests_def Let_def p)
  have answers: "host_answers [9, 9, 9, 9, 9, 9] ?rqs
      = [host_reply IMB_MSG_WRITE_RESOURCE 1 7 [], host_reply IMB_MSG_READ_RESOURCE 2 7 [1, 2, 3]]"
    unfolding rqs by (simp add: host_answer_def host_memory_def apply_write_def write_at_def wire_simps)
  have n: "nextRequestID (bridge_init io_channel) = 1" by (simp add: bridge_init_def)
  have l: "length (stream ?rqs) \<le> 99" unfolding rqs by simp
  note r = io_ready [unfolded ready_def]
  have "\<exists>s'. andThen (bridge_writeBuffer 7 [1, 2, 3] 2) (\<lambda>_. bridge_readBuffer 7 (word_of_nat (length [1 :: u8, 2, 3])) 2)
      (bridge_init io_channel) = (Inr [1, 2, 3], s')
    \<and> sent (chan s') = sent (chan (bridge_init io_channel)) @ stream ?rqs \<and> incoming (reads (chan s')) = []"
    by (rule write_read_roundtrip [where mem = "[9, 9, 9, 9, 9, 9]"]) (use r l answers n in simp_all)
  then show ?thesis by auto
qed

section \<open>Sizes of images\<close>

lemma word_mult_guard:
  fixes a b :: u64
  assumes "a \<noteq> 0"
  shows "b > (- 1) div a \<longleftrightarrow> unat a * unat b \<ge> 2 ^ 64"
proof -
  have m: "unat (- 1 :: u64) = 2 ^ 64 - 1" by (simp add: unsigned_minus_1_eq_mask mask_eq_exp_minus_1)
  have "b > (- 1) div a \<longleftrightarrow> (2 ^ 64 - 1) div unat a < unat b"
    unfolding word_less_nat_alt unat_div m ..
  also have "\<dots> \<longleftrightarrow> 2 ^ 64 - 1 < unat b * unat a"
    using assms by (intro div_less_iff_less_mult) (simp add: unat_gt_0)
  finally show ?thesis by (auto simp: mult.commute)
qed

lemma unat_mult_small: "unat (a :: u64) * unat b < 2 ^ 64 \<Longrightarrow> unat (a * b) = unat a * unat b"
  by (simp add: unat_word_ariths)

text \<open>The size of an ordinary image is computed exactly when \<open>width * height * depth * 4\<close> fits in 64 bits, and is
  then that number; otherwise the driver refuses the image, so no size is ever a wrapped one.\<close>

lemma ordinary_image_size_exact:
  assumes "width \<noteq> 0" and "height \<noteq> 0" and "depth \<noteq> 0"
  shows "ordinaryImageSize width height depth =
    (if unat width * unat height * unat depth * 4 < 2 ^ 64
     then Some (word_of_nat (unat width * unat height * unat depth * 4)) else None)"
proof -
  let ?w = "ucast width :: u64" and ?h = "ucast height :: u64" and ?d = "ucast depth :: u64"
  have pos: "unat width \<ge> 1" "unat height \<ge> 1" "unat depth \<ge> 1"
    using assms by (simp_all add: Suc_le_eq unat_gt_0)
  have w0: "?w \<noteq> 0" using pos(1) unat_ucast32 [of width] by (metis not_one_le_zero unat_0)
  have wh: "unat width * unat height < 2 ^ 64"
  proof -
    have "unat width < 2 ^ 32" "unat height < 2 ^ 32" using unsigned_less [of width] unsigned_less [of height] by simp_all
    then have "unat width * unat height < 2 ^ 32 * 2 ^ 32" by (intro mult_strict_mono') simp_all
    then show ?thesis by simp
  qed
  have g1: "\<not> ?h > (- 1) div ?w" using word_mult_guard [OF w0, of ?h] wh by (simp add: unat_ucast32)
  have u1: "unat (?w * ?h) = unat width * unat height" using wh by (simp add: unat_mult_small unat_ucast32)
  have z1: "?w * ?h \<noteq> 0" using u1 pos by (metis mult_is_0 not_one_le_zero unat_0)
  have g2: "?d > (- 1) div (?w * ?h) \<longleftrightarrow> unat width * unat height * unat depth \<ge> 2 ^ 64"
    using word_mult_guard [OF z1, of ?d] by (simp add: u1 unat_ucast32)
  show ?thesis
  proof (cases "unat width * unat height * unat depth \<ge> 2 ^ 64")
    case True
    then have "\<not> unat width * unat height * unat depth * 4 < 2 ^ 64" by linarith
    then show ?thesis using g1 g2 True by (simp only: ordinaryImageSize_def Let_def if_True if_False simp_thms)
  next
    case False
    then have u2: "unat (?w * ?h * ?d) = unat width * unat height * unat depth"
      by (simp add: unat_mult_small u1 unat_ucast32)
    have z2: "?w * ?h * ?d \<noteq> 0" using u2 pos by (metis mult_is_0 not_one_le_zero unat_0)
    have u4: "unat (4 :: u64) = 4" by simp
    have g3: "?w * ?h * ?d > (- 1) div 4 \<longleftrightarrow> unat width * unat height * unat depth * 4 \<ge> 2 ^ 64"
    proof -
      have "(4 :: u64) \<noteq> 0" by simp
      from word_mult_guard [OF this, of "?w * ?h * ?d"] show ?thesis by (simp only: u2 u4 mult.commute [of 4])
    qed
    have "?w * ?h * ?d * 4 = word_of_nat (unat (?w * ?h * ?d) * 4)" by simp
    then have "?w * ?h * ?d * 4 = word_of_nat (unat width * unat height * unat depth * 4)" unfolding u2 .
    then show ?thesis
      using g1 g2 g3 False by (simp add: ordinaryImageSize_def Let_def)
  qed
qed

lemma ordinary_image_size_exact_witness:
  "ordinaryImageSize 1920 1080 1 = Some 8294400 \<and> ordinaryImageSize 4294967295 4294967295 2 = None"
  using ordinary_image_size_exact [of 1920 1080 1] ordinary_image_size_exact [of 4294967295 4294967295 2] by simp

text \<open>An image of more than 16 MiB, which the Vulkan driver refuses to give a backing, could not be read back:
  \<^verbatim>\<open>readImage\<close> asks for it in one reply, and a reply that large is refused by the exchange.\<close>

lemma large_image_never_read:
  assumes "unat sz > 16777216"
  shows "\<nexists>data s'. bridge_readImage rid sz s = (Inr data, s')"
proof
  assume "\<exists>data s'. bridge_readImage rid sz s = (Inr data, s')"
  then obtain data s' where "bridge_readImage rid sz s = (Inr data, s')" by blast
  from this [unfolded bridge_readImage_def] show False
  proof (rule exchange_thenE)
    fix f s1
    assume "length (frame_payload f) \<le> 16777216"
      and "andThen (require (length (frame_payload f) = unat sz) ''host returned wrong image readback size'')
        (\<lambda>_. ret (frame_payload f)) s1 = (Inr data, s')"
    then show False using assms by (auto simp: require_def throw_def elim!: andThen_returnsE split: if_splits)
  qed
qed

lemma large_image_never_read_witness: "\<nexists>data s'. bridge_readImage 7 33177600 (bridge_init io_channel) = (Inr data, s')"
  by (rule large_image_never_read) simp

section \<open>The handshake\<close>

text \<open>C26: When the constructor returns, it has sent one HELLO and one QUERY_CAPABILITIES request, and the capabilities
  it keeps hold every bit of the verified data path, which are the ones of the host's reply.\<close>

lemma bridge_construct_capabilities:
  assumes "bridge_construct (bridge_init c) = (Inr (), s')"
  shows "cap_bits (capabilities s') AND kRequiredCapabilities = kRequiredCapabilities
    \<and> (\<exists>p h q. sent (chan s') = sent c @ request_bytes IMB_MSG_HELLO p 1 0 @ request_bytes IMB_MSG_QUERY_CAPABILITIES [] 2 0
      \<and> incoming (reads c) = frame_bytes h @ frame_bytes q @ incoming (reads (chan s'))
      \<and> message_type (frame_header h) = message_code IMB_MSG_HELLO_REPLY
      \<and> message_type (frame_header q) = message_code IMB_MSG_CAPABILITIES_REPLY
      \<and> readLittleEndian (frame_payload q) 0 = Inr (cap_bits (capabilities s')))"
proof -
  from assms obtain s1 where 1: "bridge_hello (bridge_init c) = (Inr (), s1)"
    and "andThen bridge_queryCapabilities (\<lambda>caps. andThen (\<lambda>s. (Inr (), s\<lparr>capabilities := caps\<rparr>)) (\<lambda>_.
      require (\<not> cap_bits caps AND kRequiredCapabilities \<noteq> kRequiredCapabilities)
        ''host does not advertise the verified IMB Metal data path'')) s1 = (Inr (), s')"
    unfolding bridge_construct_def by (auto elim: andThen_returnsE)
  then obtain caps s2 where 2: "bridge_queryCapabilities s1 = (Inr caps, s2)" and s': "s' = s2\<lparr>capabilities := caps\<rparr>"
    and req: "cap_bits caps AND kRequiredCapabilities = kRequiredCapabilities"
    by (auto simp: require_def ret_def throw_def elim!: andThen_returnsE split: if_splits)
  from 1 [unfolded bridge_hello_def Let_def] obtain h t where h: "asked (bridge_init c)
      [request IMB_MSG_HELLO (appendFields [] [F16 IMB_PROTOCOL_VERSION_MAJOR, F16 IMB_PROTOCOL_VERSION_MINOR,
        F16 IMB_PROTOCOL_VERSION_MAJOR, F16 IMB_PROTOCOL_VERSION_MINOR]) (nextRequestID (bridge_init c)) 0] [h] t"
    "message_type (frame_header h) = message_code IMB_MSG_HELLO_REPLY" "nextRequestID t = nextRequestID (bridge_init c) + 1"
    "require (length (frame_payload h) = 8) ''invalid IMB HELLO_REPLY size'' t = (Inr (), s1)"
    by (rule exchange_thenE)
  then have t: "t = s1" by (auto simp: require_def ret_def throw_def split: if_splits)
  from 2 [unfolded bridge_queryCapabilities_def] obtain q t' where q: "asked s1
      [request IMB_MSG_QUERY_CAPABILITIES [] (nextRequestID s1) 0] [q] t'"
    "message_type (frame_header q) = message_code IMB_MSG_CAPABILITIES_REPLY"
    and k: "andThen (require (\<not> length (frame_payload q) < 24) ''invalid IMB capability payload'') (\<lambda>_.
      andThen (liftE (readLittleEndian (frame_payload q) 0)) (\<lambda>bits.
      andThen (liftE (readLittleEndian (frame_payload q) 8)) (\<lambda>maxBuffer.
      andThen (liftE (readLittleEndian (frame_payload q) 16)) (\<lambda>nameLength.
      andThen (require (\<not> unat (nameLength :: u32) > length (frame_payload q) - 24)
        ''invalid IMB Metal device name length'') (\<lambda>_.
      ret \<lparr>cap_bits = bits, maxBufferLength = maxBuffer,
           deviceName = take (unat nameLength) (drop 24 (frame_payload q))\<rparr>))))) t' = (Inr caps, s2)"
    by (rule exchange_thenE)
  from k have "t' = s2 \<and> readLittleEndian (frame_payload q) 0 = Inr (cap_bits caps)"
    by (auto simp: require_def ret_def throw_def liftE_def elim!: andThen_returnsE split: if_splits)
  then show ?thesis
    using req h q t s' asked_trans [OF h(1) q(1) [folded t]]
    by (intro conjI exI) (auto simp: asked_def bridge_init_def request_bytes_def)
qed

text \<open>A host with the required capabilities.\<close>

definition caps_replies :: "frame list" where
  "caps_replies = [host_reply IMB_MSG_HELLO_REPLY 1 0 hello_payload,
     host_reply IMB_MSG_CAPABILITIES_REPLY 2 0 (capabilities_payload 0x8fe1 64 [])]"

lemma required_bits: "kRequiredCapabilities = 0xfe1"
  by (simp add: kRequiredCapabilities_def imb_cap_defs IMB_CAP_METAL_AVAILABLE_def IMB_CAP_METAL_UI_RASTER_def)

lemma construct_completes:
  fixes c0 defines "c0 \<equiv> split_channel 500 (stream caps_replies)"
  shows "\<exists>s'. bridge_construct (bridge_init c0) = (Inr (), s')"
proof -
  let ?s = "bridge_init c0"
  let ?q = "host_reply IMB_MSG_CAPABILITIES_REPLY 2 0 (capabilities_payload 0x8fe1 64 [])"
  have n: "nextRequestID ?s = 1" by (simp add: bridge_init_def)
  have len: "length (stream caps_replies) = 96"
    by (simp add: caps_replies_def hello_payload_def capabilities_payload_def)
  have "clean c0" unfolding c0_def by (rule split_channel_clean) (simp_all add: len)
  moreover have "incoming (reads c0) = stream caps_replies"
    by (simp only: c0_def split_channel_def channel.simps incoming.simps append_take_drop_id append_Nil2)
  moreover have "72 \<le> capacity (writes c0)" by (simp add: c0_def split_channel_def)
  ultimately have r: "ready (32 + length (appendFields [] [F16 IMB_PROTOCOL_VERSION_MAJOR, F16 IMB_PROTOCOL_VERSION_MINOR,
      F16 IMB_PROTOCOL_VERSION_MAJOR, F16 IMB_PROTOCOL_VERSION_MINOR]) + 32)
      (host_reply IMB_MSG_HELLO_REPLY (nextRequestID ?s) 0 hello_payload # [?q]) ?s"
    by (simp add: ready_def caps_replies_def bridge_init_def appendFields_eq)
  from bridge_exchange_complete [OF r, of IMB_MSG_HELLO 0] n obtain c1 where
    h: "bridge_hello ?s = (Inr (), ?s\<lparr>chan := c1, nextRequestID := 2\<rparr>)" and
    r1: "ready 32 [?q] (?s\<lparr>chan := c1, nextRequestID := 2\<rparr>)"
    by (auto simp: bridge_hello_def hello_payload_def prog_simps)
  have r1': "ready (32 + length [] + 0) (host_reply IMB_MSG_CAPABILITIES_REPLY
      (nextRequestID (?s\<lparr>chan := c1, nextRequestID := 2\<rparr>)) 0 (capabilities_payload 0x8fe1 64 []) # [])
      (?s\<lparr>chan := c1, nextRequestID := 2\<rparr>)" using r1 by simp
  from bridge_exchange_complete [OF r1', of IMB_MSG_QUERY_CAPABILITIES 0] obtain s2 where
    "bridge_queryCapabilities (?s\<lparr>chan := c1, nextRequestID := 2\<rparr>)
      = (Inr \<lparr>cap_bits = 0x8fe1, maxBufferLength = 64, deviceName = []\<rparr>, s2)"
    by (auto simp: bridge_queryCapabilities_def capabilities_payload_def prog_simps wire_simps)
  then show ?thesis using h by (simp add: bridge_construct_def prog_simps andThen_def require_def ret_def required_bits)
qed

lemma bridge_construct_capabilities_witness:
  "\<exists>s'. bridge_construct (bridge_init (split_channel 500 (stream caps_replies))) = (Inr (), s')
    \<and> cap_bits (capabilities s') AND kRequiredCapabilities = kRequiredCapabilities"
proof -
  from construct_completes obtain s' where
    s: "bridge_construct (bridge_init (split_channel 500 (stream caps_replies))) = (Inr (), s')" by blast
  from bridge_construct_capabilities [OF s] s show ?thesis by blast
qed

end
