(* ===== verification/CudaState.thy ===== *)
theory CudaState
  imports Wire
begin

text \<open>
  The state of the CUDA compatibility driver, \<^verbatim>\<open>guest/cuda_shim/imb_cuda_shim.cpp\<close>: its global
  registries, the small objects they point to, and the part of the operating system the driver works
  on (open files, the pages of the address space, the allocator).

  \<^item> Objects made by \<^verbatim>\<open>new\<close> live in a typed heap \<open>heap\<close>. \<open>newAnswers\<close> is what the allocator answers
    to the next calls; an answer that is null or a live address counts as "out of memory", so the
    model holds for every allocator that gives out fresh addresses.
  \<^item> \<open>undefined\<close> is a ghost: it becomes true when the code deletes or uses something that is not a
    live object of the type it is used at, frees what was not allocated, or touches bytes that are not
    accessible. Nothing in the model reads it.
  \<^item> The address space maps an address to a \<open>cell\<close>: anonymous memory, or a byte of a file. Two
    mappings of one file share their cells, as \<^verbatim>\<open>MAP_SHARED\<close> has it.
  \<^item> The calls of \<^verbatim>\<open>munmap\<close>, \<^verbatim>\<open>close\<close> and \<^verbatim>\<open>free\<close> are logged in \<open>syscalls\<close>.

  A call of the interface takes what the kernel answers as extra arguments. An output pointer is a
  truth value, whether it is non-null, and what is stored through it is an optional result. The calls run one
  after the other in one thread: \<^verbatim>\<open>gCurrentContext\<close> is the one of that thread, and the locks have no
  counterpart. Tracing to \<^verbatim>\<open>stderr\<close> is left out, and so are failures of the standard containers.
\<close>

section \<open>Results\<close>

datatype CUresult = CUDA_SUCCESS | CUDA_ERROR_INVALID_VALUE | CUDA_ERROR_OUT_OF_MEMORY
  | CUDA_ERROR_INVALID_DEVICE | CUDA_ERROR_INVALID_HANDLE | CUDA_ERROR_NOT_FOUND
  | CUDA_ERROR_NOT_READY | CUDA_ERROR_NOT_SUPPORTED

fun CUresult_code :: "CUresult \<Rightarrow> int" where
  "CUresult_code CUDA_SUCCESS = 0"
| "CUresult_code CUDA_ERROR_INVALID_VALUE = 1"
| "CUresult_code CUDA_ERROR_OUT_OF_MEMORY = 2"
| "CUresult_code CUDA_ERROR_INVALID_DEVICE = 101"
| "CUresult_code CUDA_ERROR_INVALID_HANDLE = 400"
| "CUresult_code CUDA_ERROR_NOT_FOUND = 500"
| "CUresult_code CUDA_ERROR_NOT_READY = 600"
| "CUresult_code CUDA_ERROR_NOT_SUPPORTED = 801"

text \<open>Results are ordered by their codes, as the C interface compares them.\<close>

instantiation CUresult :: linorder
begin

definition less_eq_CUresult :: "CUresult \<Rightarrow> CUresult \<Rightarrow> bool" where
  "less_eq_CUresult a b = (CUresult_code a \<le> CUresult_code b)"

definition less_CUresult :: "CUresult \<Rightarrow> CUresult \<Rightarrow> bool" where
  "less_CUresult a b = (CUresult_code a < CUresult_code b)"

instance
proof
  fix x y z :: CUresult
  show "(x < y) = (x \<le> y \<and> \<not> y \<le> x)" by (auto simp: less_eq_CUresult_def less_CUresult_def)
  show "x \<le> x" by (simp add: less_eq_CUresult_def)
  show "x \<le> y \<Longrightarrow> y \<le> z \<Longrightarrow> x \<le> z" by (simp add: less_eq_CUresult_def)
  show "x \<le> y \<Longrightarrow> y \<le> x \<Longrightarrow> x = y" by (cases x; cases y) (simp_all add: less_eq_CUresult_def)
  show "x \<le> y \<or> y \<le> x" by (auto simp: less_eq_CUresult_def)
qed

end

lemma CUresult_code_inject [simp]: "CUresult_code a = CUresult_code b \<longleftrightarrow> a = b"
  by (cases a; cases b) simp_all

section \<open>Objects\<close>

type_synonym device = int
type_synonym fd = int

record StreamState =
  stream_flags :: u32
  priority :: int

record EventState =
  event_flags :: u32
  recorded :: bool

record ModuleState =
  image_of :: ptr

record FunctionState =
  function_module :: ptr

record LibraryState =
  library_module :: ptr

record KernelState =
  kernel_library :: ptr
  kernel_function :: ptr
  kernel_name :: string

record ArrayState =
  array_mipmap :: ptr
  array_level :: nat

record ExternalMemoryState =
  memory_fd :: fd
  memory_size :: u64
  memory_mapping :: "ptr option"

record ExternalSemaphoreState =
  semaphore_fd :: fd

record CUDA_ARRAY3D_DESCRIPTOR =
  Width :: u64
  Height :: u64
  Depth :: u64
  Format :: int
  NumChannels :: u32
  Flags :: u32

record CUDA_EXTERNAL_MEMORY_MIPMAPPED_ARRAY_DESC =
  mip_offset :: u64
  arrayDesc :: CUDA_ARRAY3D_DESCRIPTOR
  numLevels :: u32

record MipmappedArrayState =
  mip_memory :: ptr
  descriptor :: CUDA_EXTERNAL_MEMORY_MIPMAPPED_ARRAY_DESC
  levels :: "ptr list"

record GenericAllocationState =
  generic_fd :: fd
  generic_size :: u64

datatype object =
    is_stream: StreamObj StreamState
  | is_event: EventObj EventState
  | is_module: ModuleObj ModuleState
  | is_function: FunctionObj FunctionState
  | is_library: LibraryObj LibraryState
  | is_kernel: KernelObj KernelState
  | is_array: ArrayObj ArrayState
  | is_external: ExternalObj ExternalMemoryState
  | is_semaphore: SemaphoreObj ExternalSemaphoreState
  | is_mipmap: MipmapObj MipmappedArrayState

section \<open>The driver\<close>

record ContextStorageEntry =
  entry_context :: ptr
  entry_key :: ptr
  entry_value :: ptr
  entry_destructor :: ptr
  used :: bool

definition emptyEntry :: ContextStorageEntry where
  "emptyEntry = \<lparr>entry_context = 0, entry_key = 0, entry_value = 0, entry_destructor = 0, used = False\<rparr>"

datatype cell = Anonymous u64 | FileByte nat nat

datatype syscall = Munmap u64 u64 | Close fd | Free ptr

record cuda =
  heap :: "ptr \<Rightarrow> object option"
  newAnswers :: "ptr option list"
  undefined_behaviour :: bool
  gCurrentContext :: ptr
  gContextStorage :: "ContextStorageEntry list"
  gDeviceAllocations :: "(u64 \<times> u64) list"
  gVirtualReservations :: "(u64 \<times> u64) list"
  gGenericAllocations :: "(u64 \<times> GenericAllocationState) list"
  gHostAllocations :: "(u64 \<times> u64) list"
  gStreams :: "ptr list"
  gEvents :: "ptr list"
  gModules :: "ptr list"
  gFunctions :: "ptr list"
  gLibraries :: "ptr list"
  gKernels :: "ptr list"
  gArrays :: "ptr list"
  gExternalMemories :: "ptr list"
  gExternalSemaphores :: "ptr list"
  gMipmappedArrays :: "ptr list"
  gExternalDevicePointers :: "u64 list"
  gNextTextureObject :: u64
  gNextGenericAllocationHandle :: u64
  gUnsupportedNames :: "string list"
  blocks :: "(u64 \<times> u64) list"
  place :: "u64 \<Rightarrow> cell option"
  cells :: "cell \<Rightarrow> u8"
  fdTable :: "fd \<Rightarrow> nat option"
  syscalls :: "syscall list"

definition kUnsupportedSlotCount :: nat where "kUnsupportedSlotCount = 1024"
definition kUnsupportedNameSize :: nat where "kUnsupportedNameSize = 96"

text \<open>The driver as it is loaded, with an allocator, an open file table and files of the process.\<close>

definition cuda_init :: "ptr option list \<Rightarrow> (fd \<Rightarrow> nat option) \<Rightarrow> cuda" where
  "cuda_init allocator table =
     \<lparr>heap = Map.empty, newAnswers = allocator, undefined_behaviour = False, gCurrentContext = 0,
      gContextStorage = replicate 64 emptyEntry,
      gDeviceAllocations = [], gVirtualReservations = [], gGenericAllocations = [], gHostAllocations = [],
      gStreams = [], gEvents = [], gModules = [], gFunctions = [], gLibraries = [], gKernels = [],
      gArrays = [], gExternalMemories = [], gExternalSemaphores = [], gMipmappedArrays = [],
      gExternalDevicePointers = [], gNextTextureObject = 1, gNextGenericAllocationHandle = 1,
      gUnsupportedNames = replicate kUnsupportedSlotCount [],
      blocks = [], place = Map.empty, cells = (\<lambda>_. 0), fdTable = table, syscalls = []\<rparr>"

type_synonym cu = "cuda \<Rightarrow> CUresult \<times> cuda"
type_synonym 'a cu_out = "cuda \<Rightarrow> (CUresult \<times> 'a option) \<times> cuda"

definition broken :: "cuda \<Rightarrow> cuda" where
  "broken s = s\<lparr>undefined_behaviour := True\<rparr>"

text \<open>\<^verbatim>\<open>new (std::nothrow)\<close> and \<^verbatim>\<open>delete\<close> at a type.\<close>

definition new_object :: "object \<Rightarrow> cuda \<Rightarrow> ptr option \<times> cuda" where
  "new_object ob s = (case newAnswers s of
      [] \<Rightarrow> (None, s)
    | None # as \<Rightarrow> (None, s\<lparr>newAnswers := as\<rparr>)
    | Some p # as \<Rightarrow>
        if p = 0 \<or> heap s p \<noteq> None then (None, s\<lparr>newAnswers := as\<rparr>)
        else (Some p, s\<lparr>newAnswers := as, heap := (heap s)(p \<mapsto> ob)\<rparr>))"

definition delete_object :: "(object \<Rightarrow> bool) \<Rightarrow> ptr \<Rightarrow> cuda \<Rightarrow> cuda" where
  "delete_object is_type p s =
     (if p = 0 then s
      else case heap s p of
        None \<Rightarrow> broken s
      | Some ob \<Rightarrow> if is_type ob then s\<lparr>heap := (heap s)(p := None)\<rparr> else broken s)"

section \<open>Memory\<close>

text \<open>\<open>[p, p + n)\<close> as a set of addresses, modulo the size of the address space.\<close>

definition in_range :: "u64 \<Rightarrow> nat \<Rightarrow> u64 \<Rightarrow> bool" where
  "in_range p n a = (unat (a - p) < n)"

definition map_range :: "u64 \<Rightarrow> nat \<Rightarrow> (nat \<Rightarrow> cell option) \<Rightarrow> cuda \<Rightarrow> cuda" where
  "map_range p n f s = s\<lparr>place := (\<lambda>a. if in_range p n a then f (unat (a - p)) else place s a)\<rparr>"

definition accessible :: "cuda \<Rightarrow> u64 \<Rightarrow> nat \<Rightarrow> bool" where
  "accessible s p n = list_all (\<lambda>i. place s (p + word_of_nat i) \<noteq> None) [0..<n]"

definition load_byte :: "cuda \<Rightarrow> u64 \<Rightarrow> u8" where
  "load_byte s a = (case place s a of Some c \<Rightarrow> cells s c | None \<Rightarrow> 0)"

definition load_bytes :: "cuda \<Rightarrow> u64 \<Rightarrow> nat \<Rightarrow> bytes" where
  "load_bytes s p n = map (\<lambda>i. load_byte s (p + word_of_nat i)) [0..<n]"

definition store_byte :: "u64 \<Rightarrow> u8 \<Rightarrow> cuda \<Rightarrow> cuda" where
  "store_byte a b s = (case place s a of Some c \<Rightarrow> s\<lparr>cells := (cells s)(c := b)\<rparr> | None \<Rightarrow> broken s)"

fun store_bytes :: "u64 \<Rightarrow> bytes \<Rightarrow> cuda \<Rightarrow> cuda" where
  "store_bytes p [] s = s"
| "store_bytes p (b # bs) s = store_bytes (p + 1) bs (store_byte p b s)"

text \<open>Loading is undefined when a byte of the range is not accessible.\<close>

definition touch :: "u64 \<Rightarrow> nat \<Rightarrow> cuda \<Rightarrow> cuda" where
  "touch p n s = (if accessible s p n then s else broken s)"

definition log_call :: "syscall \<Rightarrow> cuda \<Rightarrow> cuda" where
  "log_call c s = s\<lparr>syscalls := syscalls s @ [c]\<rparr>"

text \<open>The system calls: \<^verbatim>\<open>malloc\<close> and \<^verbatim>\<open>free\<close>, \<^verbatim>\<open>munmap\<close>, \<^verbatim>\<open>mmap\<close> of a file (readable and
  writable), of inaccessible pages, and \<^verbatim>\<open>close\<close>.\<close>

definition malloc_block :: "ptr \<Rightarrow> u64 \<Rightarrow> cuda \<Rightarrow> cuda" where
  "malloc_block p sz s =
     (map_range p (unat sz) (\<lambda>i. Some (Anonymous (p + word_of_nat i))) s)\<lparr>blocks := map_put p sz (blocks s)\<rparr>"

definition free_block :: "ptr \<Rightarrow> cuda \<Rightarrow> cuda" where
  "free_block p s = log_call (Free p)
     (if p = 0 then s
      else case map_of (blocks s) p of
        None \<Rightarrow> broken s
      | Some sz \<Rightarrow> (map_range p (unat sz) (\<lambda>_. None) s)\<lparr>blocks := map_erase p (blocks s)\<rparr>)"

definition munmap :: "u64 \<Rightarrow> u64 \<Rightarrow> cuda \<Rightarrow> cuda" where
  "munmap p sz s = log_call (Munmap p sz) (map_range p (unat sz) (\<lambda>_. None) s)"

definition mmap_file :: "u64 \<Rightarrow> u64 \<Rightarrow> nat \<Rightarrow> nat \<Rightarrow> cuda \<Rightarrow> cuda" where
  "mmap_file p sz file offset s = map_range p (unat sz) (\<lambda>i. Some (FileByte file (offset + i))) s"

definition mmap_none :: "u64 \<Rightarrow> u64 \<Rightarrow> cuda \<Rightarrow> cuda" where
  "mmap_none p sz s = map_range p (unat sz) (\<lambda>_. None) s"

definition close_fd :: "fd \<Rightarrow> cuda \<Rightarrow> cuda" where
  "close_fd d s = log_call (Close d) (s\<lparr>fdTable := (fdTable s)(d := None)\<rparr>)"

section \<open>Laws\<close>

named_theorems mem_simps \<open>the memory of the driver\<close>

lemma broken_simps [simp]:
  "heap (broken s) = heap s" "place (broken s) = place s" "cells (broken s) = cells s"
  "gDeviceAllocations (broken s) = gDeviceAllocations s" "gHostAllocations (broken s) = gHostAllocations s"
  "undefined_behaviour (broken s)"
  by (simp_all add: broken_def)

lemma in_range_offset [mem_simps]: "i < 2 ^ 64 \<Longrightarrow> in_range p n (p + word_of_nat i) \<longleftrightarrow> i < n"
  by (simp add: in_range_def unat_of_nat take_bit_nat_eq_self)

lemma in_range_iff: "in_range p n a \<longleftrightarrow> (\<exists>i < n. i < 2 ^ 64 \<and> a = p + word_of_nat i)"
proof
  assume "in_range p n a"
  then show "\<exists>i < n. i < 2 ^ 64 \<and> a = p + word_of_nat i"
    by (intro exI [of _ "unat (a - p)"]) (use unsigned_less [of "a - p"] in \<open>auto simp: in_range_def\<close>)
next
  assume "\<exists>i < n. i < 2 ^ 64 \<and> a = p + word_of_nat i"
  then show "in_range p n a" by (auto simp: in_range_def unat_of_nat take_bit_nat_eq_self)
qed

lemma place_map_range [mem_simps]:
  "place (map_range p n f s) a = (if in_range p n a then f (unat (a - p)) else place s a)"
  by (simp add: map_range_def)

lemma map_range_frame [mem_simps, simp]:
  "heap (map_range p n f s) = heap s" "cells (map_range p n f s) = cells s"
  "undefined_behaviour (map_range p n f s) = undefined_behaviour s"
  by (simp_all add: map_range_def)

lemma store_byte_frame [simp]:
  "place (store_byte a b s) = place s" "heap (store_byte a b s) = heap s"
  by (simp_all add: store_byte_def split: option.split)

lemma store_bytes_frame [simp]:
  "place (store_bytes p bs s) = place s" "heap (store_bytes p bs s) = heap s"
  by (induction bs arbitrary: p s) simp_all

lemma new_objectE:
  assumes "new_object ob s = (r, s')"
  obtains "r = None" "s' = s\<lparr>newAnswers := newAnswers s'\<rparr>"
  | p where "r = Some p" "p \<noteq> 0" "heap s p = None" "s' = s\<lparr>newAnswers := newAnswers s', heap := (heap s)(p \<mapsto> ob)\<rparr>"
  using assms by (auto simp: new_object_def split: list.splits option.splits if_splits)

lemma delete_object_live:
  "heap s p = Some ob \<Longrightarrow> is_type ob \<Longrightarrow> p \<noteq> 0 \<Longrightarrow>
     delete_object is_type p s = s\<lparr>heap := (heap s)(p := None)\<rparr>"
  by (simp add: delete_object_def)

end
