(* ===== verification/CudaDevice.thy ===== *)
theory CudaDevice
  imports CudaState
begin

text \<open>
  Device discovery and contexts of \<^verbatim>\<open>imb_cuda_shim.cpp\<close>: one device with fixed properties, one
  current context, and the table of 64 entries that stores values per context and key.
\<close>

definition kDriverVersion :: int where "kDriverVersion = 12080"
definition kFallbackTotalMemory :: u64 where "kFallbackTotalMemory = 16 * 1024 * 1024 * 1024"
definition kDeviceUUID :: bytes where
  "kDeviceUUID = map of_char ''IMB-APPLE-M4'' @ [0, 0, 0, 1]"

text \<open>The addresses of the two tokens; any two distinct non-null addresses would do.\<close>

definition gPrimaryContextToken :: ptr where "gPrimaryContextToken = 0x1000"
definition gMemoryPoolToken :: ptr where "gMemoryPoolToken = 0x1001"

text \<open>The string a call of \<^verbatim>\<open>snprintf(buffer, length, "%s", text)\<close> leaves in the buffer.\<close>

definition snprintf_s :: "int \<Rightarrow> string \<Rightarrow> string" where
  "snprintf_s len txt = take (nat len - 1) txt"

section \<open>Memory of the system\<close>

record sysinfo =
  totalram :: u64
  freeram :: u64
  bufferram :: u64
  mem_unit :: u32

text \<open>The product wraps to 64 bits before the \<^verbatim>\<open>min\<close> with \<^verbatim>\<open>SIZE_MAX\<close>.\<close>

definition scaledSystemMemory :: "u64 \<Rightarrow> u32 \<Rightarrow> u64" where
  "scaledSystemMemory value unit = (let scaled = value * ucast unit in min scaled (- 1))"

definition systemTotalMemory :: "sysinfo option \<Rightarrow> u64" where
  "systemTotalMemory answer = (case answer of
      Some information \<Rightarrow>
        if totalram information > 0 then scaledSystemMemory (totalram information) (mem_unit information)
        else kFallbackTotalMemory
    | None \<Rightarrow> kFallbackTotalMemory)"

definition systemFreeMemory :: "sysinfo option \<Rightarrow> sysinfo option \<Rightarrow> u64" where
  "systemFreeMemory answer answer2 = (case answer of
      Some information \<Rightarrow>
        (let free = scaledSystemMemory (freeram information) (mem_unit information);
             buffers = scaledSystemMemory (bufferram information) (mem_unit information)
         in min (systemTotalMemory answer2) (free + buffers))
    | None \<Rightarrow> systemTotalMemory answer2 * 3 div 4)"

section \<open>The device\<close>

definition validDevice :: "device \<Rightarrow> bool" where
  "validDevice d = (d = 0)"

text \<open>The two tests most calls start with: the output pointer is non-null, the device is device 0.\<close>

definition fill :: "bool \<Rightarrow> 'a \<Rightarrow> CUresult \<times> 'a option" where
  "fill out v = (if \<not> out then (CUDA_ERROR_INVALID_VALUE, None) else (CUDA_SUCCESS, Some v))"

definition fill_device :: "bool \<Rightarrow> device \<Rightarrow> 'a \<Rightarrow> CUresult \<times> 'a option" where
  "fill_device out d v =
     (if \<not> out then (CUDA_ERROR_INVALID_VALUE, None)
      else if \<not> validDevice d then (CUDA_ERROR_INVALID_DEVICE, None)
      else (CUDA_SUCCESS, Some v))"

definition check_device :: "device \<Rightarrow> CUresult" where
  "check_device d = (if validDevice d then CUDA_SUCCESS else CUDA_ERROR_INVALID_DEVICE)"

definition cuInit :: "u32 \<Rightarrow> CUresult" where
  "cuInit flgs = (if flgs = 0 then CUDA_SUCCESS else CUDA_ERROR_INVALID_VALUE)"

definition cuDriverGetVersion :: "bool \<Rightarrow> CUresult \<times> int option" where
  "cuDriverGetVersion version = fill version kDriverVersion"

definition cuDeviceGetCount :: "bool \<Rightarrow> CUresult \<times> int option" where
  "cuDeviceGetCount count = fill count 1"

definition cuDeviceGet :: "bool \<Rightarrow> int \<Rightarrow> CUresult \<times> device option" where
  "cuDeviceGet dev ordinal =
     (if \<not> dev then (CUDA_ERROR_INVALID_VALUE, None)
      else if ordinal \<noteq> 0 then (CUDA_ERROR_INVALID_DEVICE, None)
      else (CUDA_SUCCESS, Some 0))"

definition cuDeviceGetName :: "bool \<Rightarrow> int \<Rightarrow> device \<Rightarrow> CUresult \<times> string option" where
  "cuDeviceGetName name len d =
     (if \<not> name \<or> len \<le> 0 then (CUDA_ERROR_INVALID_VALUE, None)
      else if \<not> validDevice d then (CUDA_ERROR_INVALID_DEVICE, None)
      else (CUDA_SUCCESS, Some (snprintf_s len ''IsaacMetalBridge CUDA-compat (Apple M4)'')))"

definition cuDeviceGetUuid :: "bool \<Rightarrow> device \<Rightarrow> CUresult \<times> bytes option" where
  "cuDeviceGetUuid uuid d = fill_device uuid d kDeviceUUID"

definition cuDeviceGetUuid_v2 :: "bool \<Rightarrow> device \<Rightarrow> CUresult \<times> bytes option" where
  "cuDeviceGetUuid_v2 uuid d = cuDeviceGetUuid uuid d"

definition cuDeviceTotalMem :: "sysinfo option \<Rightarrow> bool \<Rightarrow> device \<Rightarrow> CUresult \<times> u64 option" where
  "cuDeviceTotalMem answer out d = fill_device out d (systemTotalMemory answer)"

definition cuDeviceTotalMem_v2 :: "sysinfo option \<Rightarrow> bool \<Rightarrow> device \<Rightarrow> CUresult \<times> u64 option" where
  "cuDeviceTotalMem_v2 answer out d = cuDeviceTotalMem answer out d"

definition attribute_value :: "int \<Rightarrow> int" where
  "attribute_value attribute =
     (case map_of [(1, 1024), (2, 1024), (3, 1024), (4, 64), (5, 2147483647), (6, 65535), (7, 65535),
        (8, 49152), (10, 32), (13, 1000000), (16, 10), (17, 0), (18, 1), (20, 0), (33, 0), (34, 0),
        (36, 1000000), (37, 128), (38, 4 * 1024 * 1024), (41, 1), (50, 0), (75, 8), (76, 9), (83, 1),
        (86, 1), (89, 1)] attribute of
      Some v \<Rightarrow> v
    | None \<Rightarrow> 1)"

definition cuDeviceGetAttribute :: "bool \<Rightarrow> int \<Rightarrow> device \<Rightarrow> CUresult \<times> int option" where
  "cuDeviceGetAttribute out attribute d = fill_device out d (attribute_value attribute)"

definition cuDeviceGetPCIBusId :: "bool \<Rightarrow> int \<Rightarrow> device \<Rightarrow> CUresult \<times> string option" where
  "cuDeviceGetPCIBusId identifier len d =
     (if \<not> identifier \<or> len \<le> 0 then (CUDA_ERROR_INVALID_VALUE, None)
      else if \<not> validDevice d then (CUDA_ERROR_INVALID_DEVICE, None)
      else (CUDA_SUCCESS, Some (snprintf_s len ''0000:00:00.0'')))"

definition cuDeviceGetByPCIBusId :: "bool \<Rightarrow> string option \<Rightarrow> CUresult \<times> device option" where
  "cuDeviceGetByPCIBusId dev identifier =
     (if \<not> dev \<or> identifier = None then (CUDA_ERROR_INVALID_VALUE, None) else (CUDA_SUCCESS, Some 0))"

definition cuDeviceGetLuid :: "bool \<Rightarrow> bool \<Rightarrow> device \<Rightarrow> CUresult \<times> (bytes \<times> u32) option" where
  "cuDeviceGetLuid luid nodeMask d = fill_device (luid \<and> nodeMask) d (replicate 8 0, 1)"

definition cuDeviceGetP2PAttribute :: "bool \<Rightarrow> int \<Rightarrow> device \<Rightarrow> device \<Rightarrow> CUresult \<times> int option" where
  "cuDeviceGetP2PAttribute out attribute sourceDevice destinationDevice =
     (if \<not> out then (CUDA_ERROR_INVALID_VALUE, None)
      else if \<not> validDevice sourceDevice \<or> \<not> validDevice destinationDevice then (CUDA_ERROR_INVALID_DEVICE, None)
      else (CUDA_SUCCESS, Some 0))"

definition cuDeviceGetTexture1DLinearMaxWidth :: "bool \<Rightarrow> int \<Rightarrow> u32 \<Rightarrow> device \<Rightarrow> CUresult \<times> u64 option" where
  "cuDeviceGetTexture1DLinearMaxWidth maxWidth format channels d = fill_device maxWidth d (push_bit 27 1)"

definition cuDeviceGetDefaultMemPool :: "bool \<Rightarrow> device \<Rightarrow> CUresult \<times> ptr option" where
  "cuDeviceGetDefaultMemPool pool d = fill_device pool d gMemoryPoolToken"

definition cuDeviceGetMemPool :: "bool \<Rightarrow> device \<Rightarrow> CUresult \<times> ptr option" where
  "cuDeviceGetMemPool pool d = cuDeviceGetDefaultMemPool pool d"

definition cuDeviceSetMemPool :: "device \<Rightarrow> ptr \<Rightarrow> CUresult" where
  "cuDeviceSetMemPool d pool = check_device d"

definition cuFlushGPUDirectRDMAWrites :: "int \<Rightarrow> int \<Rightarrow> CUresult" where
  "cuFlushGPUDirectRDMAWrites target scope = CUDA_SUCCESS"

definition cuDeviceCanAccessPeer :: "bool \<Rightarrow> device \<Rightarrow> device \<Rightarrow> CUresult \<times> int option" where
  "cuDeviceCanAccessPeer canAccess d peerDevice =
     (if \<not> canAccess then (CUDA_ERROR_INVALID_VALUE, None)
      else if \<not> validDevice d \<or> \<not> validDevice peerDevice then (CUDA_ERROR_INVALID_DEVICE, None)
      else (CUDA_SUCCESS, Some 0))"

text \<open>The call asks the kernel once for the total and up to twice for the free memory.\<close>

definition cuMemGetInfo ::
  "sysinfo option \<Rightarrow> sysinfo option \<Rightarrow> sysinfo option \<Rightarrow> bool \<Rightarrow> bool \<Rightarrow> CUresult \<times> (u64 \<times> u64) option" where
  "cuMemGetInfo answer answer2 answer3 freeBytes totalBytes =
     fill (freeBytes \<and> totalBytes) (systemFreeMemory answer2 answer3, systemTotalMemory answer)"

definition cuMemGetInfo_v2 ::
  "sysinfo option \<Rightarrow> sysinfo option \<Rightarrow> sysinfo option \<Rightarrow> bool \<Rightarrow> bool \<Rightarrow> CUresult \<times> (u64 \<times> u64) option" where
  "cuMemGetInfo_v2 answer answer2 answer3 freeBytes totalBytes =
     cuMemGetInfo answer answer2 answer3 freeBytes totalBytes"

section \<open>Contexts\<close>

definition cuDevicePrimaryCtxRetain :: "bool \<Rightarrow> device \<Rightarrow> CUresult \<times> ptr option" where
  "cuDevicePrimaryCtxRetain ctxt d = fill_device ctxt d gPrimaryContextToken"

definition cuDevicePrimaryCtxRelease :: "device \<Rightarrow> CUresult" where
  "cuDevicePrimaryCtxRelease d = check_device d"

definition cuDevicePrimaryCtxRelease_v2 :: "device \<Rightarrow> CUresult" where
  "cuDevicePrimaryCtxRelease_v2 d = cuDevicePrimaryCtxRelease d"

definition cuDevicePrimaryCtxReset :: "device \<Rightarrow> cu" where
  "cuDevicePrimaryCtxReset d s =
     (if \<not> validDevice d then (CUDA_ERROR_INVALID_DEVICE, s)
      else (CUDA_SUCCESS, s\<lparr>gCurrentContext := 0\<rparr>))"

definition cuDevicePrimaryCtxReset_v2 :: "device \<Rightarrow> cu" where
  "cuDevicePrimaryCtxReset_v2 d = cuDevicePrimaryCtxReset d"

definition cuDevicePrimaryCtxGetState :: "device \<Rightarrow> bool \<Rightarrow> bool \<Rightarrow> (u32 \<times> int) cu_out" where
  "cuDevicePrimaryCtxGetState d flgs active s =
     (fill_device (flgs \<and> active) d (0, if gCurrentContext s \<noteq> 0 then 1 else 0), s)"

definition cuDevicePrimaryCtxSetFlags :: "device \<Rightarrow> u32 \<Rightarrow> CUresult" where
  "cuDevicePrimaryCtxSetFlags d flgs = check_device d"

definition cuDevicePrimaryCtxSetFlags_v2 :: "device \<Rightarrow> u32 \<Rightarrow> CUresult" where
  "cuDevicePrimaryCtxSetFlags_v2 d flgs = cuDevicePrimaryCtxSetFlags d flgs"

definition cuCtxSetCurrent :: "ptr \<Rightarrow> cu" where
  "cuCtxSetCurrent ctxt s = (CUDA_SUCCESS, s\<lparr>gCurrentContext := ctxt\<rparr>)"

definition cuCtxCreate :: "bool \<Rightarrow> u32 \<Rightarrow> device \<Rightarrow> ptr cu_out" where
  "cuCtxCreate ctxt flgs d s =
     (if \<not> ctxt then ((CUDA_ERROR_INVALID_VALUE, None), s)
      else if \<not> validDevice d then ((CUDA_ERROR_INVALID_DEVICE, None), s)
      else ((CUDA_SUCCESS, Some gPrimaryContextToken), s\<lparr>gCurrentContext := gPrimaryContextToken\<rparr>))"

definition cuCtxCreate_v2 :: "bool \<Rightarrow> u32 \<Rightarrow> device \<Rightarrow> ptr cu_out" where
  "cuCtxCreate_v2 ctxt flgs d = cuCtxCreate ctxt flgs d"

definition cuCtxDetach :: "ptr \<Rightarrow> cu" where
  "cuCtxDetach ctxt s =
     (CUDA_SUCCESS, if gCurrentContext s = ctxt then s\<lparr>gCurrentContext := 0\<rparr> else s)"

definition cuCtxGetCurrent :: "bool \<Rightarrow> ptr cu_out" where
  "cuCtxGetCurrent ctxt s = (fill ctxt (gCurrentContext s), s)"

definition cuCtxGetDevice :: "bool \<Rightarrow> CUresult \<times> device option" where
  "cuCtxGetDevice dev = fill dev 0"

definition cuCtxGetApiVersion :: "ptr \<Rightarrow> bool \<Rightarrow> CUresult \<times> u32 option" where
  "cuCtxGetApiVersion ctxt version = fill version 3020"

definition cuCtxSynchronize :: CUresult where
  "cuCtxSynchronize = CUDA_SUCCESS"

definition cuCtxGetFlags :: "bool \<Rightarrow> CUresult \<times> u32 option" where
  "cuCtxGetFlags flgs = fill flgs 0"

definition cuCtxGetLimit :: "bool \<Rightarrow> int \<Rightarrow> CUresult \<times> u64 option" where
  "cuCtxGetLimit out limit = fill out 0"

definition cuCtxSetLimit :: "int \<Rightarrow> u64 \<Rightarrow> CUresult" where
  "cuCtxSetLimit limit v = CUDA_SUCCESS"

definition cuCtxGetCacheConfig :: "bool \<Rightarrow> CUresult \<times> int option" where
  "cuCtxGetCacheConfig config = fill config 0"

definition cuCtxSetCacheConfig :: "int \<Rightarrow> CUresult" where
  "cuCtxSetCacheConfig config = CUDA_SUCCESS"

definition cuCtxGetSharedMemConfig :: "bool \<Rightarrow> CUresult \<times> int option" where
  "cuCtxGetSharedMemConfig config = fill config 0"

definition cuCtxSetSharedMemConfig :: "int \<Rightarrow> CUresult" where
  "cuCtxSetSharedMemConfig config = CUDA_SUCCESS"

definition cuCtxGetStreamPriorityRange :: "bool \<Rightarrow> bool \<Rightarrow> CUresult \<times> (int \<times> int) option" where
  "cuCtxGetStreamPriorityRange leastPriority greatestPriority = fill (leastPriority \<and> greatestPriority) (0, 0)"

definition cuCtxPushCurrent :: "ptr \<Rightarrow> cu" where
  "cuCtxPushCurrent ctxt s = (CUDA_SUCCESS, s\<lparr>gCurrentContext := ctxt\<rparr>)"

definition cuCtxPushCurrent_v2 :: "ptr \<Rightarrow> cu" where
  "cuCtxPushCurrent_v2 ctxt = cuCtxPushCurrent ctxt"

definition cuCtxPopCurrent :: "bool \<Rightarrow> ptr cu_out" where
  "cuCtxPopCurrent ctxt s =
     (if \<not> ctxt then ((CUDA_ERROR_INVALID_VALUE, None), s)
      else ((CUDA_SUCCESS, Some (gCurrentContext s)), s\<lparr>gCurrentContext := 0\<rparr>))"

definition cuCtxPopCurrent_v2 :: "bool \<Rightarrow> ptr cu_out" where
  "cuCtxPopCurrent_v2 ctxt = cuCtxPopCurrent ctxt"

definition cuCtxResetPersistingL2Cache :: CUresult where
  "cuCtxResetPersistingL2Cache = CUDA_SUCCESS"

definition cuCtxDestroy :: "ptr \<Rightarrow> cu" where
  "cuCtxDestroy ctxt s =
     (if ctxt = 0 then (CUDA_ERROR_INVALID_VALUE, s)
      else (CUDA_SUCCESS, if gCurrentContext s = ctxt then s\<lparr>gCurrentContext := 0\<rparr> else s))"

definition cuCtxDestroy_v2 :: "ptr \<Rightarrow> cu" where
  "cuCtxDestroy_v2 ctxt = cuCtxDestroy ctxt"

section \<open>Values stored per context\<close>

definition resolveContext :: "cuda \<Rightarrow> ptr \<Rightarrow> ptr" where
  "resolveContext s ctxt =
     (if ctxt \<noteq> 0 then ctxt
      else if gCurrentContext s \<noteq> 0 then gCurrentContext s
      else gPrimaryContextToken)"

definition entry_for :: "ptr \<Rightarrow> ptr \<Rightarrow> ContextStorageEntry \<Rightarrow> bool" where
  "entry_for ctxt key e = (used e \<and> entry_context e = ctxt \<and> entry_key e = key)"

text \<open>\<^verbatim>\<open>for (auto& entry : table) if (P(entry)) { entry = f(entry); return ...; }\<close>: the table with
  its first entry with \<open>P\<close> replaced, if there is one.\<close>

fun replace_first :: "('a \<Rightarrow> bool) \<Rightarrow> ('a \<Rightarrow> 'a) \<Rightarrow> 'a list \<Rightarrow> 'a list option" where
  "replace_first P f [] = None"
| "replace_first P f (e # es) =
     (if P e then Some (f e # es) else map_option ((#) e) (replace_first P f es))"

definition tablePut ::
  "ptr \<Rightarrow> ptr \<Rightarrow> ptr \<Rightarrow> ptr \<Rightarrow> ContextStorageEntry list \<Rightarrow> ContextStorageEntry list option" where
  "tablePut ctxt key v destructor table =
     (case replace_first (entry_for ctxt key) (\<lambda>e. e\<lparr>entry_value := v, entry_destructor := destructor\<rparr>) table of
        Some table' \<Rightarrow> Some table'
      | None \<Rightarrow> replace_first (\<lambda>e. \<not> used e)
          (\<lambda>_. \<lparr>entry_context = ctxt, entry_key = key, entry_value = v, entry_destructor = destructor,
               used = True\<rparr>) table)"

definition contextStoragePut :: "ptr \<Rightarrow> ptr \<Rightarrow> ptr \<Rightarrow> ptr \<Rightarrow> cu" where
  "contextStoragePut context0 key v destructor s =
     (case tablePut (resolveContext s context0) key v destructor (gContextStorage s) of
        Some table \<Rightarrow> (CUDA_SUCCESS, s\<lparr>gContextStorage := table\<rparr>)
      | None \<Rightarrow> (CUDA_ERROR_NOT_SUPPORTED, s))"

definition tableDelete :: "ptr \<Rightarrow> ptr \<Rightarrow> ContextStorageEntry list \<Rightarrow> ContextStorageEntry list" where
  "tableDelete ctxt key table =
     (case replace_first (entry_for ctxt key) (\<lambda>_. emptyEntry) table of Some table' \<Rightarrow> table' | None \<Rightarrow> table)"

definition contextStorageDelete :: "ptr \<Rightarrow> ptr \<Rightarrow> cu" where
  "contextStorageDelete context0 key s =
     (CUDA_SUCCESS, s\<lparr>gContextStorage := tableDelete (resolveContext s context0) key (gContextStorage s)\<rparr>)"

definition contextStorageGet :: "bool \<Rightarrow> ptr \<Rightarrow> ptr \<Rightarrow> ptr cu_out" where
  "contextStorageGet v context0 key s =
     (if \<not> v then ((CUDA_ERROR_INVALID_VALUE, None), s)
      else case find (entry_for (resolveContext s context0) key) (gContextStorage s) of
        Some e \<Rightarrow> ((CUDA_SUCCESS, Some (entry_value e)), s)
      | None \<Rightarrow> ((CUDA_ERROR_INVALID_HANDLE, Some 0), s))"

definition contextCheck :: "ptr \<Rightarrow> bool \<Rightarrow> bool \<Rightarrow> CUresult \<times> u32 option" where
  "contextCheck ctxt flgs tbl = fill flgs 0"

definition contextCheckFlags :: u32 where
  "contextCheckFlags = 0"

section \<open>The table as a map of bounded size\<close>

text \<open>
  What a store of a fixed number of entries promises: it is a partial map \<open>view\<close> with at most \<open>bound\<close>
  keys, a value is refused only when it is full and the key is new, and removing is always possible.
\<close>

locale bounded_store =
  fixes ok :: "'s \<Rightarrow> bool" and view :: "'s \<Rightarrow> 'k \<Rightarrow> 'v option" and bound :: nat
    and put :: "'k \<Rightarrow> 'v \<Rightarrow> 's \<Rightarrow> 's option" and del :: "'k \<Rightarrow> 's \<Rightarrow> 's"
  assumes put_view: "ok s \<Longrightarrow> put k v s = Some s' \<Longrightarrow> ok s' \<and> view s' = (view s)(k \<mapsto> v)"
    and put_full: "ok s \<Longrightarrow> put k v s = None \<longleftrightarrow> view s k = None \<and> card (dom (view s)) = bound"
    and del_view: "ok s \<Longrightarrow> ok (del k s) \<and> view (del k s) = (view s)(k := None)"
    and view_bound: "ok s \<Longrightarrow> finite (dom (view s)) \<and> card (dom (view s)) \<le> bound"
begin

text \<open>Putting many values: as long as there is room for the new keys, all of them arrive.\<close>

fun put_all :: "('k \<times> 'v) list \<Rightarrow> 's \<Rightarrow> 's option" where
  "put_all [] s = Some s"
| "put_all ((k, v) # kvs) s = (case put k v s of None \<Rightarrow> None | Some s' \<Rightarrow> put_all kvs s')"

lemma put_room: "ok s \<Longrightarrow> view s k \<noteq> None \<or> card (dom (view s)) < bound \<Longrightarrow> \<exists>s'. put k v s = Some s'"
  using put_full [of s k v] by (cases "put k v s") auto

lemma put_all_room:
  "ok s \<Longrightarrow> card (dom (view s) \<union> fst ` set kvs) \<le> bound \<Longrightarrow>
     \<exists>s'. put_all kvs s = Some s' \<and> ok s' \<and> view s' = fold (\<lambda>(k, v) m. m(k \<mapsto> v)) kvs (view s)"
proof (induction kvs arbitrary: s)
  case (Cons kv kvs)
  obtain k v where kv: "kv = (k, v)" by fastforce
  let ?D = "dom (view s)"
  have "card ?D < bound" if "view s k = None"
  proof -
    have fin: "finite (?D \<union> fst ` set (kv # kvs))" using view_bound [OF Cons.prems(1)] by simp
    have "insert k ?D \<subseteq> ?D \<union> fst ` set (kv # kvs)" by (auto simp: kv)
    from card_mono [OF fin this] have "card (insert k ?D) \<le> bound" using Cons.prems(2) by simp
    then show ?thesis using that view_bound [OF Cons.prems(1)] by (simp add: domIff)
  qed
  then obtain s1 where s1: "put k v s = Some s1" using put_room [OF Cons.prems(1)] by blast
  note v1 = put_view [OF Cons.prems(1) s1]
  have "dom (view s1) \<union> fst ` set kvs = ?D \<union> fst ` set (kv # kvs)" using v1 by (auto simp: kv)
  then obtain s' where "put_all kvs s1 = Some s'" "ok s'" "view s' = fold (\<lambda>(k, v) m. m(k \<mapsto> v)) kvs (view s1)"
    using Cons.IH [of s1] Cons.prems(2) v1 by metis
  then show ?case using v1 by (auto simp: kv s1 simp del: fun_upd_apply)
qed simp

end

definition table_ok :: "ContextStorageEntry list \<Rightarrow> bool" where
  "table_ok table \<longleftrightarrow> length table = 64
     \<and> distinct (map (\<lambda>e. (entry_context e, entry_key e)) (filter used table))"

definition table_view :: "ContextStorageEntry list \<Rightarrow> ptr \<times> ptr \<Rightarrow> (ptr \<times> ptr) option" where
  "table_view table = (\<lambda>(c, k). map_option (\<lambda>e. (entry_value e, entry_destructor e)) (find (entry_for c k) table))"

lemma replace_first_None: "replace_first P f xs = None \<longleftrightarrow> (\<forall>x\<in>set xs. \<not> P x)"
  by (induction xs) auto

lemma replace_first_split:
  "\<forall>u\<in>set us. \<not> P u \<Longrightarrow> P x \<Longrightarrow> replace_first P f (us @ x # vs) = Some (us @ f x # vs)"
  by (induction us) auto

lemma replace_first_SomeE:
  assumes "replace_first P f xs = Some ys"
  obtains us x vs where "xs = us @ x # vs" "\<forall>u\<in>set us. \<not> P u" "P x" "ys = us @ f x # vs"
proof -
  have "\<exists>x\<in>set xs. P x" using assms replace_first_None [of P f xs] by auto
  from split_list_first_prop [OF this] obtain us x vs where
    x: "xs = us @ x # vs" "P x" "\<forall>u\<in>set us. \<not> P u" by blast
  then show thesis using that assms replace_first_split [of us P x f vs] by auto
qed

text \<open>The view of a table without repeated keys is the map of its used entries.\<close>

definition entry_pairs :: "ContextStorageEntry list \<Rightarrow> ((ptr \<times> ptr) \<times> ptr \<times> ptr) list" where
  "entry_pairs table = map (\<lambda>e. ((entry_context e, entry_key e), entry_value e, entry_destructor e)) (filter used table)"

lemma table_view_map_of: "table_view table = map_of (entry_pairs table)"
proof
  fix ck :: "ptr \<times> ptr"
  show "table_view table ck = map_of (entry_pairs table) ck"
    by (induction table) (auto simp: table_view_def entry_pairs_def entry_for_def split: prod.splits)
qed

lemma table_ok_pairs: "table_ok table \<longleftrightarrow> length table = 64 \<and> distinct (map fst (entry_pairs table))"
  by (simp add: table_ok_def entry_pairs_def o_def)

lemma entry_pairs_append [simp]: "entry_pairs (xs @ ys) = entry_pairs xs @ entry_pairs ys"
  by (simp add: entry_pairs_def)

lemma entry_pairs_Cons [simp]: "entry_pairs (e # es) =
    (if used e then ((entry_context e, entry_key e), entry_value e, entry_destructor e) # entry_pairs es else entry_pairs es)"
  by (simp add: entry_pairs_def)

lemma map_of_append_Cons:
  "k \<notin> fst ` set xs \<Longrightarrow> map_of (xs @ (k, v) # ys) = (map_of (xs @ ys))(k \<mapsto> v)"
  by (induction xs) (auto simp: fun_eq_iff)

interpretation context_table: bounded_store table_ok table_view 64
  "\<lambda>(c, k) (v, d). tablePut c k v d" "\<lambda>(c, k). tableDelete c k"
proof
  fix table table' :: "ContextStorageEntry list" and ck vd :: "ptr \<times> ptr"
  obtain c k v d where ck: "ck = (c, k)" "vd = (v, d)" by fastforce
  assume ok: "table_ok table"
  show "finite (dom (table_view table)) \<and> card (dom (table_view table)) \<le> 64"
  proof -
    have "card (dom (table_view table)) \<le> length (entry_pairs table)"
      unfolding table_view_map_of dom_map_of_conv_image_fst using card_length [of "map fst (entry_pairs table)"] by simp
    also have "\<dots> \<le> 64" using ok by (auto simp: table_ok_def entry_pairs_def intro: order.trans [OF length_filter_le])
    finally show ?thesis by (simp add: table_view_map_of finite_dom_map_of)
  qed
  have keys: "(c, k) \<notin> fst ` set (entry_pairs us) \<union> fst ` set (entry_pairs vs)"
    if "table = us @ e # vs" "entry_for c k e" for us e vs
    using ok that by (auto simp: table_ok_pairs entry_for_def)
  have cut: "table_view (us @ e # vs) = (map_of (entry_pairs us @ entry_pairs vs))((c, k) \<mapsto> (entry_value e, entry_destructor e))"
    if "entry_for c k e" "(c, k) \<notin> fst ` set (entry_pairs us) \<union> fst ` set (entry_pairs vs)" for us e vs
    using that by (simp add: table_view_map_of entry_for_def map_of_append_Cons del: map_of_append)
  show "table_ok ((case ck of (c, k) \<Rightarrow> tableDelete c k) table)
      \<and> table_view ((case ck of (c, k) \<Rightarrow> tableDelete c k) table) = (table_view table)(ck := None)"
  proof (cases "replace_first (entry_for c k) (\<lambda>_. emptyEntry) table")
    case None
    then have "table_view table ck = None"
      by (auto simp: table_view_def ck replace_first_None find_None_iff)
    then show ?thesis using ok None by (auto simp: tableDelete_def ck fun_eq_iff)
  next
    case (Some t)
    then obtain us e vs where t: "table = us @ e # vs" "entry_for c k e" "t = us @ emptyEntry # vs"
      by (rule replace_first_SomeE)
    note k = keys [OF t(1,2)] and e = t(2) [unfolded entry_for_def]
    have "map_of (entry_pairs us @ entry_pairs vs) (c, k) = None"
      using k unfolding map_of_eq_None_iff set_append image_Un .
    then have "(map_of (entry_pairs us @ entry_pairs vs))((c, k) := None) = map_of (entry_pairs us @ entry_pairs vs)"
      by (simp add: fun_upd_idem)
    then show ?thesis using ok e t Some cut [OF t(2) k]
      by (simp add: tableDelete_def ck table_ok_pairs table_view_map_of emptyEntry_def del: map_of_append)
  qed
  let ?f = "\<lambda>e. e\<lparr>entry_value := v, entry_destructor := d\<rparr>"
    and ?g = "\<lambda>_. \<lparr>entry_context = c, entry_key = k, entry_value = v, entry_destructor = d, used = True\<rparr>"
  show "table_ok table' \<and> table_view table' = (table_view table)(ck \<mapsto> vd)"
    if put: "(case ck of (c, k) \<Rightarrow> \<lambda>(v, d). tablePut c k v d) vd table = Some table'"
  proof (cases "replace_first (entry_for c k) ?f table")
    case None
    then have none: "\<forall>e\<in>set table. \<not> entry_for c k e" by (simp add: replace_first_None)
    from put None have "replace_first (\<lambda>e. \<not> used e) ?g table = Some table'"
      by (simp add: tablePut_def ck)
    then obtain us e vs where t: "table = us @ e # vs" "\<not> used e" "table' = us @ ?g e # vs"
      by (rule replace_first_SomeE)
    have k: "(c, k) \<notin> fst ` set (entry_pairs us) \<union> fst ` set (entry_pairs vs)"
      using none t(1) by (auto simp: entry_pairs_def entry_for_def)
    show ?thesis using ok t k cut [of "?g e" us vs]
      by (auto simp: ck table_ok_pairs table_view_map_of entry_for_def simp del: map_of_append)
  next
    case (Some t)
    with put have t': "table' = t" by (simp add: tablePut_def ck)
    from Some obtain us e vs where t: "table = us @ e # vs" "entry_for c k e" "t = us @ ?f e # vs"
      by (rule replace_first_SomeE)
    note k = keys [OF t(1,2)] and e = t(2) [unfolded entry_for_def]
    have e': "entry_for c k (?f e)" using e by (simp add: entry_for_def)
    show ?thesis using ok t t' e cut [OF t(2) k] cut [OF e' k]
      by (simp add: ck table_ok_pairs)
  qed
  have card: "card (dom (table_view table)) = length (filter used table)"
    using ok distinct_card [of "map fst (entry_pairs table)"]
    by (simp add: table_view_map_of dom_map_of_conv_image_fst table_ok_pairs) (simp add: entry_pairs_def)
  have "length (filter used table) = 64 \<longleftrightarrow> (\<forall>e\<in>set table. used e)"
    using ok length_filter_less [of _ table used] filter_True [of table used]
    unfolding table_ok_def by (metis nat_neq_iff)
  moreover have "table_view table ck = None \<longleftrightarrow> (\<forall>e\<in>set table. \<not> entry_for c k e)"
    by (auto simp: table_view_def ck find_None_iff)
  moreover have "tablePut c k v d table = None \<longleftrightarrow> (\<forall>e\<in>set table. \<not> entry_for c k e) \<and> (\<forall>e\<in>set table. used e)"
    using replace_first_None [of "entry_for c k" ?f table] replace_first_None [of "\<lambda>e. \<not> used e" ?g table]
    by (cases "replace_first (entry_for c k) ?f table") (auto simp: tablePut_def)
  ultimately show "((case ck of (c, k) \<Rightarrow> \<lambda>(v, d). tablePut c k v d) vd table = None)
      \<longleftrightarrow> (table_view table ck = None \<and> card (dom (table_view table)) = 64)"
    by (simp add: ck card)
qed

end
