(* ===== verification/CudaObjects.thy ===== *)
theory CudaObjects
  imports CudaDevice
begin

text \<open>
  The handles of \<^verbatim>\<open>imb_cuda_shim.cpp\<close> that point to small objects: streams, events, modules,
  libraries, kernels and functions. Each kind has a registry; a call first checks that its handle is
  registered. Dereferencing a pointer that is not a live object of its type is undefined, as in the code.
\<close>

section \<open>Dereferencing\<close>

definition deref :: "(object \<Rightarrow> 'a option) \<Rightarrow> ptr \<Rightarrow> 'r \<Rightarrow> ('a \<Rightarrow> cuda \<Rightarrow> 'r \<times> cuda) \<Rightarrow> cuda \<Rightarrow> 'r \<times> cuda" where
  "deref as_type p r f s = (case heap s p of
      Some ob \<Rightarrow> (case as_type ob of Some x \<Rightarrow> f x s | None \<Rightarrow> (r, broken s))
    | None \<Rightarrow> (r, broken s))"

definition as_stream :: "object \<Rightarrow> StreamState option" where
  "as_stream ob = (case ob of StreamObj x \<Rightarrow> Some x | _ \<Rightarrow> None)"
definition as_event :: "object \<Rightarrow> EventState option" where
  "as_event ob = (case ob of EventObj x \<Rightarrow> Some x | _ \<Rightarrow> None)"
definition as_library :: "object \<Rightarrow> LibraryState option" where
  "as_library ob = (case ob of LibraryObj x \<Rightarrow> Some x | _ \<Rightarrow> None)"
definition as_kernel :: "object \<Rightarrow> KernelState option" where
  "as_kernel ob = (case ob of KernelObj x \<Rightarrow> Some x | _ \<Rightarrow> None)"

definition write_object :: "ptr \<Rightarrow> object \<Rightarrow> cuda \<Rightarrow> cuda" where
  "write_object p ob s = s\<lparr>heap := (heap s)(p \<mapsto> ob)\<rparr>"

section \<open>Streams and events\<close>

definition cuStreamCreate :: "bool \<Rightarrow> u32 \<Rightarrow> ptr cu_out" where
  "cuStreamCreate stream fl s =
     (if \<not> stream then ((CUDA_ERROR_INVALID_VALUE, None), s)
      else case new_object (StreamObj \<lparr>stream_flags = fl, priority = 0\<rparr>) s of
        (None, s1) \<Rightarrow> ((CUDA_ERROR_OUT_OF_MEMORY, None), s1)
      | (Some state, s1) \<Rightarrow> ((CUDA_SUCCESS, Some state), s1\<lparr>gStreams := set_insert state (gStreams s1)\<rparr>))"

definition cuStreamCreateWithPriority :: "bool \<Rightarrow> u32 \<Rightarrow> int \<Rightarrow> ptr cu_out" where
  "cuStreamCreateWithPriority stream fl prio s =
     (case cuStreamCreate stream fl s of
        ((CUDA_SUCCESS, Some state), s1) \<Rightarrow>
          deref as_stream state (CUDA_SUCCESS, Some state)
            (\<lambda>x s2. ((CUDA_SUCCESS, Some state), write_object state (StreamObj (x\<lparr>priority := prio\<rparr>)) s2)) s1
      | other \<Rightarrow> other)"

definition cuStreamDestroy :: "ptr \<Rightarrow> cu" where
  "cuStreamDestroy stream s =
     (if stream = 0 then (CUDA_SUCCESS, s)
      else if stream \<notin> set (gStreams s) then (CUDA_ERROR_INVALID_HANDLE, s)
      else (CUDA_SUCCESS, delete_object is_stream stream (s\<lparr>gStreams := set_erase stream (gStreams s)\<rparr>)))"

definition cuStreamDestroy_v2 :: "ptr \<Rightarrow> cu" where
  "cuStreamDestroy_v2 stream = cuStreamDestroy stream"

definition cuStreamQuery :: "ptr \<Rightarrow> cu" where
  "cuStreamQuery stream s =
     (if stream = 0 then (CUDA_SUCCESS, s)
      else (if stream \<in> set (gStreams s) then CUDA_SUCCESS else CUDA_ERROR_INVALID_HANDLE, s))"

definition cuStreamSynchronize :: "ptr \<Rightarrow> cu" where
  "cuStreamSynchronize stream = cuStreamQuery stream"

definition cuEventCreate :: "bool \<Rightarrow> u32 \<Rightarrow> ptr cu_out" where
  "cuEventCreate event fl s =
     (if \<not> event then ((CUDA_ERROR_INVALID_VALUE, None), s)
      else case new_object (EventObj \<lparr>event_flags = fl, recorded = False\<rparr>) s of
        (None, s1) \<Rightarrow> ((CUDA_ERROR_OUT_OF_MEMORY, None), s1)
      | (Some state, s1) \<Rightarrow> ((CUDA_SUCCESS, Some state), s1\<lparr>gEvents := set_insert state (gEvents s1)\<rparr>))"

definition cuEventRecord :: "ptr \<Rightarrow> ptr \<Rightarrow> cu" where
  "cuEventRecord event stream s =
     (if event \<notin> set (gEvents s) then (CUDA_ERROR_INVALID_HANDLE, s)
      else deref as_event event CUDA_SUCCESS
        (\<lambda>x s1. (CUDA_SUCCESS, write_object event (EventObj (x\<lparr>recorded := True\<rparr>)) s1)) s)"

definition cuEventQuery :: "ptr \<Rightarrow> cu" where
  "cuEventQuery event s =
     (if event \<notin> set (gEvents s) then (CUDA_ERROR_INVALID_HANDLE, s)
      else deref as_event event CUDA_SUCCESS
        (\<lambda>x s1. (if recorded x then CUDA_SUCCESS else CUDA_ERROR_NOT_READY, s1)) s)"

definition cuEventSynchronize :: "ptr \<Rightarrow> cu" where
  "cuEventSynchronize event s =
     (if event \<notin> set (gEvents s) then (CUDA_ERROR_INVALID_HANDLE, s)
      else deref as_event event CUDA_SUCCESS
        (\<lambda>x s1. (CUDA_SUCCESS, write_object event (EventObj (x\<lparr>recorded := True\<rparr>)) s1)) s)"

definition cuEventDestroy :: "ptr \<Rightarrow> cu" where
  "cuEventDestroy event s =
     (if event = 0 then (CUDA_SUCCESS, s)
      else if event \<notin> set (gEvents s) then (CUDA_ERROR_INVALID_HANDLE, s)
      else (CUDA_SUCCESS, delete_object is_event event (s\<lparr>gEvents := set_erase event (gEvents s)\<rparr>)))"

definition cuEventDestroy_v2 :: "ptr \<Rightarrow> cu" where
  "cuEventDestroy_v2 event = cuEventDestroy event"

definition cuStreamWaitEvent :: "ptr \<Rightarrow> ptr \<Rightarrow> u32 \<Rightarrow> cu" where
  "cuStreamWaitEvent stream event fl s =
     (if stream \<noteq> 0 \<and> stream \<notin> set (gStreams s) then (CUDA_ERROR_INVALID_HANDLE, s)
      else cuEventSynchronize event s)"

section \<open>Modules\<close>

text \<open>An img is a pointer the driver only stores.\<close>

definition loadModuleToken :: "bool \<Rightarrow> ptr \<Rightarrow> ptr cu_out" where
  "loadModuleToken module img s =
     (if \<not> module \<or> img = 0 then ((CUDA_ERROR_INVALID_VALUE, None), s)
      else case new_object (ModuleObj \<lparr>image_of = img\<rparr>) s of
        (None, s1) \<Rightarrow> ((CUDA_ERROR_OUT_OF_MEMORY, None), s1)
      | (Some state, s1) \<Rightarrow> ((CUDA_SUCCESS, Some state), s1\<lparr>gModules := set_insert state (gModules s1)\<rparr>))"

definition cuModuleLoadDataEx :: "bool \<Rightarrow> ptr \<Rightarrow> u32 \<Rightarrow> ptr cu_out" where
  "cuModuleLoadDataEx module img options = loadModuleToken module img"

definition cuModuleLoadData :: "bool \<Rightarrow> ptr \<Rightarrow> ptr cu_out" where
  "cuModuleLoadData module img = loadModuleToken module img"

definition cuModuleLoadFatBinary :: "bool \<Rightarrow> ptr \<Rightarrow> ptr cu_out" where
  "cuModuleLoadFatBinary module fatbin = loadModuleToken module fatbin"

definition cudartGetModuleFromCubin :: "bool \<Rightarrow> ptr \<Rightarrow> ptr cu_out" where
  "cudartGetModuleFromCubin module fatbinWrapper = loadModuleToken module fatbinWrapper"

definition cudartGetPrimaryContext :: "bool \<Rightarrow> device \<Rightarrow> CUresult \<times> ptr option" where
  "cudartGetPrimaryContext ctxt d = fill_device ctxt d gPrimaryContextToken"

definition cudartGetModuleFromCubinExt1 :: "bool \<Rightarrow> ptr \<Rightarrow> ptr \<Rightarrow> ptr \<Rightarrow> u32 \<Rightarrow> ptr cu_out" where
  "cudartGetModuleFromCubinExt1 module fatbinWrapper optionKeys optionValues optionCount s =
     (if optionKeys \<noteq> 0 \<or> optionValues \<noteq> 0 \<or> optionCount \<noteq> 0 then ((CUDA_ERROR_NOT_SUPPORTED, None), s)
      else loadModuleToken module fatbinWrapper s)"

definition cudartGetModuleFromCubinExt2 :: "ptr \<Rightarrow> bool \<Rightarrow> ptr \<Rightarrow> ptr \<Rightarrow> u32 \<Rightarrow> ptr cu_out" where
  "cudartGetModuleFromCubinExt2 fatbinHeader module optionKeys optionValues optionCount s =
     (if optionKeys \<noteq> 0 \<or> optionValues \<noteq> 0 \<or> optionCount \<noteq> 0 then ((CUDA_ERROR_NOT_SUPPORTED, None), s)
      else loadModuleToken module fatbinHeader s)"

definition cudartLoadCompilers :: CUresult where
  "cudartLoadCompilers = CUDA_SUCCESS"

definition cuModuleGetFunction :: "bool \<Rightarrow> ptr \<Rightarrow> string option \<Rightarrow> ptr cu_out" where
  "cuModuleGetFunction function module name s =
     (if \<not> function \<or> module = 0 \<or> name = None then ((CUDA_ERROR_INVALID_VALUE, None), s)
      else if module \<notin> set (gModules s) then ((CUDA_ERROR_INVALID_HANDLE, None), s)
      else case new_object (FunctionObj \<lparr>function_module = module\<rparr>) s of
        (None, s1) \<Rightarrow> ((CUDA_ERROR_OUT_OF_MEMORY, None), s1)
      | (Some state, s1) \<Rightarrow> ((CUDA_SUCCESS, Some state), s1\<lparr>gFunctions := set_insert state (gFunctions s1)\<rparr>))"

definition cuModuleUnload :: "ptr \<Rightarrow> cu" where
  "cuModuleUnload module s =
     (if module = 0 then (CUDA_SUCCESS, s)
      else if module \<notin> set (gModules s) then (CUDA_ERROR_INVALID_HANDLE, s)
      else (CUDA_SUCCESS, delete_object is_module module (s\<lparr>gModules := set_erase module (gModules s)\<rparr>)))"

definition cuLaunchKernel :: "ptr \<Rightarrow> cu" where
  "cuLaunchKernel function s =
     (if function \<in> set (gFunctions s) then CUDA_SUCCESS else CUDA_ERROR_INVALID_HANDLE, s)"

definition cuModuleGetLoadingMode :: "bool \<Rightarrow> CUresult \<times> int option" where
  "cuModuleGetLoadingMode mode = fill mode 1"

section \<open>Libraries and kernels\<close>

definition loadLibraryToken :: "bool \<Rightarrow> ptr \<Rightarrow> ptr cu_out" where
  "loadLibraryToken library img s =
     (if \<not> library \<or> img = 0 then ((CUDA_ERROR_INVALID_VALUE, None), s)
      else case loadModuleToken True img s of
        ((CUDA_SUCCESS, Some module), s1) \<Rightarrow>
          (case new_object (LibraryObj \<lparr>library_module = module\<rparr>) s1 of
             (None, s2) \<Rightarrow>
               ((CUDA_ERROR_OUT_OF_MEMORY, None),
                delete_object is_module module (s2\<lparr>gModules := set_erase module (gModules s2)\<rparr>))
           | (Some state, s2) \<Rightarrow>
               ((CUDA_SUCCESS, Some state), s2\<lparr>gLibraries := set_insert state (gLibraries s2)\<rparr>))
      | ((r, _), s1) \<Rightarrow> ((r, None), s1))"

text \<open>The options come as a count and two pointers, of which only being null matters.\<close>

definition cuLibraryLoadData :: "bool \<Rightarrow> ptr \<Rightarrow> bool \<Rightarrow> bool \<Rightarrow> u32 \<Rightarrow> bool \<Rightarrow> bool \<Rightarrow> u32 \<Rightarrow> ptr cu_out" where
  "cuLibraryLoadData library code jitOptions jitOptionValues jitOptionCount
       libraryOptions libraryOptionValues libraryOptionCount s =
     (if (jitOptionCount \<noteq> 0 \<and> (\<not> jitOptions \<or> \<not> jitOptionValues))
         \<or> (libraryOptionCount \<noteq> 0 \<and> (\<not> libraryOptions \<or> \<not> libraryOptionValues))
      then ((CUDA_ERROR_INVALID_VALUE, None), s)
      else loadLibraryToken library code s)"

definition cuLibraryLoadFromFile :: "bool \<Rightarrow> ptr \<Rightarrow> bool \<Rightarrow> bool \<Rightarrow> u32 \<Rightarrow> bool \<Rightarrow> bool \<Rightarrow> u32 \<Rightarrow> ptr cu_out" where
  "cuLibraryLoadFromFile library fileName jitOptions jitOptionValues jitOptionCount
       libraryOptions libraryOptionValues libraryOptionCount =
     cuLibraryLoadData library fileName jitOptions jitOptionValues jitOptionCount
       libraryOptions libraryOptionValues libraryOptionCount"

definition cuLibraryGetModule :: "bool \<Rightarrow> ptr \<Rightarrow> ptr cu_out" where
  "cuLibraryGetModule module library s =
     (if \<not> module \<or> library = 0 then ((CUDA_ERROR_INVALID_VALUE, None), s)
      else if library \<notin> set (gLibraries s) then ((CUDA_ERROR_INVALID_HANDLE, None), s)
      else deref as_library library (CUDA_SUCCESS, None)
        (\<lambda>x s1. if library_module x \<notin> set (gModules s1) then ((CUDA_ERROR_INVALID_HANDLE, None), s1)
                else ((CUDA_SUCCESS, Some (library_module x)), s1)) s)"

definition cuLibraryGetKernel :: "bool \<Rightarrow> ptr \<Rightarrow> string option \<Rightarrow> ptr cu_out" where
  "cuLibraryGetKernel kern library name s =
     (case name of
        None \<Rightarrow> ((CUDA_ERROR_INVALID_VALUE, None), s)
      | Some text \<Rightarrow>
      if \<not> kern \<or> library = 0 then ((CUDA_ERROR_INVALID_VALUE, None), s)
      else if library \<notin> set (gLibraries s) then ((CUDA_ERROR_INVALID_HANDLE, None), s)
      else deref as_library library (CUDA_SUCCESS, None)
        (\<lambda>x s0. if library_module x \<notin> set (gModules s0) then ((CUDA_ERROR_INVALID_HANDLE, None), s0)
          else case new_object (FunctionObj \<lparr>function_module = library_module x\<rparr>) s0 of
            (None, s1) \<Rightarrow> ((CUDA_ERROR_OUT_OF_MEMORY, None), s1)
          | (Some functionState, s1) \<Rightarrow>
              (case new_object (KernelObj \<lparr>kernel_library = library, kernel_function = functionState,
                                           kernel_name = text\<rparr>) s1 of
                 (None, s2) \<Rightarrow> ((CUDA_ERROR_OUT_OF_MEMORY, None), delete_object is_function functionState s2)
               | (Some kernelState, s2) \<Rightarrow>
                   ((CUDA_SUCCESS, Some kernelState),
                    s2\<lparr>gFunctions := set_insert functionState (gFunctions s2),
                       gKernels := set_insert kernelState (gKernels s2)\<rparr>))) s)"

definition cuKernelGetFunction :: "bool \<Rightarrow> ptr \<Rightarrow> ptr cu_out" where
  "cuKernelGetFunction function kern s =
     (if \<not> function \<or> kern = 0 then ((CUDA_ERROR_INVALID_VALUE, None), s)
      else if kern \<notin> set (gKernels s) then ((CUDA_ERROR_INVALID_HANDLE, None), s)
      else deref as_kernel kern (CUDA_SUCCESS, None)
        (\<lambda>x s1. if kernel_function x \<notin> set (gFunctions s1) then ((CUDA_ERROR_INVALID_HANDLE, None), s1)
                else ((CUDA_SUCCESS, Some (kernel_function x)), s1)) s)"

definition cuKernelGetName :: "bool \<Rightarrow> ptr \<Rightarrow> string cu_out" where
  "cuKernelGetName name kern s =
     (if \<not> name \<or> kern = 0 then ((CUDA_ERROR_INVALID_VALUE, None), s)
      else if kern \<notin> set (gKernels s) then ((CUDA_ERROR_INVALID_HANDLE, None), s)
      else deref as_kernel kern (CUDA_SUCCESS, None) (\<lambda>x s1. ((CUDA_SUCCESS, Some (kernel_name x)), s1)) s)"

definition cuKernelGetAttribute :: "bool \<Rightarrow> int \<Rightarrow> ptr \<Rightarrow> device \<Rightarrow> int cu_out" where
  "cuKernelGetAttribute out attribute kern d s =
     (if \<not> out \<or> kern = 0 \<or> \<not> validDevice d then ((CUDA_ERROR_INVALID_VALUE, None), s)
      else if kern \<notin> set (gKernels s) then ((CUDA_ERROR_INVALID_HANDLE, None), s)
      else ((CUDA_SUCCESS, Some 0), s))"

definition cuKernelSetAttribute :: "int \<Rightarrow> int \<Rightarrow> ptr \<Rightarrow> device \<Rightarrow> cu" where
  "cuKernelSetAttribute attribute v kern d s =
     (if kern = 0 \<or> \<not> validDevice d then (CUDA_ERROR_INVALID_VALUE, s)
      else (if kern \<in> set (gKernels s) then CUDA_SUCCESS else CUDA_ERROR_INVALID_HANDLE, s))"

definition cuKernelSetCacheConfig :: "ptr \<Rightarrow> int \<Rightarrow> device \<Rightarrow> cu" where
  "cuKernelSetCacheConfig kern config d s =
     (if kern = 0 \<or> \<not> validDevice d then (CUDA_ERROR_INVALID_VALUE, s)
      else (if kern \<in> set (gKernels s) then CUDA_SUCCESS else CUDA_ERROR_INVALID_HANDLE, s))"

text \<open>The loop of \<^verbatim>\<open>cuLibraryUnload\<close> over the registered kernels, in the order of the registry.\<close>

fun unload_kernels :: "ptr \<Rightarrow> ptr list \<Rightarrow> cuda \<Rightarrow> cuda" where
  "unload_kernels library [] s = s"
| "unload_kernels library (kern # rest) s =
     (case heap s kern of
        Some (KernelObj x) \<Rightarrow>
          if kernel_library x \<noteq> library then unload_kernels library rest s
          else
            (let s1 = s\<lparr>gFunctions := set_erase (kernel_function x) (gFunctions s)\<rparr>;
                 s2 = delete_object is_function (kernel_function x) s1;
                 s3 = s2\<lparr>gKernels := set_erase kern (gKernels s2)\<rparr>
             in unload_kernels library rest (delete_object is_kernel kern s3))
      | _ \<Rightarrow> unload_kernels library rest (broken s))"

definition cuLibraryUnload :: "ptr \<Rightarrow> cu" where
  "cuLibraryUnload library s =
     (if library = 0 then (CUDA_SUCCESS, s)
      else if library \<notin> set (gLibraries s) then (CUDA_ERROR_INVALID_HANDLE, s)
      else
        (let s1 = unload_kernels library (gKernels s) s in
         deref as_library library CUDA_SUCCESS
           (\<lambda>x s2.
              (let s3 = s2\<lparr>gModules := set_erase (library_module x) (gModules s2),
                          gLibraries := set_erase library (gLibraries s2)\<rparr>;
                   s4 = delete_object is_module (library_module x) s3
               in (CUDA_SUCCESS, delete_object is_library library s4))) s1))"

end
