(* ===== verification/CudaMemory.thy ===== *)
theory CudaMemory
  imports CudaState
begin

text \<open>
  Device and host memory of \<^verbatim>\<open>imb_cuda_shim.cpp\<close>: allocations, address reservations and the
  mapping of memory handles into them, and the copies and fills, which work on the ranges the driver
  has registered (\<^verbatim>\<open>resolveDeviceRange\<close>).
\<close>

section \<open>Ranges\<close>

definition range_inside :: "u64 \<Rightarrow> u64 \<Rightarrow> u64 \<times> u64 \<Rightarrow> bool" where
  "range_inside pointer sz = (\<lambda>(base, allocationSize).
     pointer \<ge> base \<and> pointer - base \<le> allocationSize \<and> sz \<le> allocationSize - (pointer - base))"

text \<open>The host address of a device range, which is the device address itself.\<close>

definition resolveDeviceRange :: "cuda \<Rightarrow> u64 \<Rightarrow> u64 \<Rightarrow> ptr option" where
  "resolveDeviceRange s pointer sz =
     (if list_ex (range_inside pointer sz) (gDeviceAllocations s) then Some pointer
      else if list_ex (range_inside pointer sz) (gHostAllocations s) then Some pointer
      else None)"

text \<open>\<^verbatim>\<open>fillDeviceMemory\<close> at a type of \<open>sizeof TYPE('a word)\<close> bytes.\<close>

definition fillDeviceMemory :: "u64 \<Rightarrow> 'a::len word \<Rightarrow> u64 \<Rightarrow> cu" where
  "fillDeviceMemory destination v count s =
     (let width = word_of_nat (sizeof TYPE('a word)) :: u64 in
      if count > (- 1) div width then (CUDA_ERROR_INVALID_VALUE, s)
      else case resolveDeviceRange s destination (count * width) of
        None \<Rightarrow> (CUDA_ERROR_INVALID_VALUE, s)
      | Some host \<Rightarrow> (CUDA_SUCCESS, store_bytes host (concat (replicate (unat count) (le_bytes v))) s))"

section \<open>Allocations\<close>

text \<open>The answer of \<^verbatim>\<open>malloc\<close>: an address, or nothing.\<close>

definition cuMemAlloc :: "bool \<Rightarrow> u64 \<Rightarrow> ptr option \<Rightarrow> u64 cu_out" where
  "cuMemAlloc pointer sz malloc s =
     (if \<not> pointer \<or> sz = 0 then ((CUDA_ERROR_INVALID_VALUE, None), s)
      else case malloc of
        None \<Rightarrow> ((CUDA_ERROR_OUT_OF_MEMORY, None), s)
      | Some allocation \<Rightarrow>
          (let s1 = malloc_block allocation sz s in
           ((CUDA_SUCCESS, Some allocation),
            s1\<lparr>gDeviceAllocations := map_put allocation sz (gDeviceAllocations s1)\<rparr>)))"

definition cuMemAlloc_v2 :: "bool \<Rightarrow> u64 \<Rightarrow> ptr option \<Rightarrow> u64 cu_out" where
  "cuMemAlloc_v2 pointer sz malloc = cuMemAlloc pointer sz malloc"

definition cuMemFree :: "u64 \<Rightarrow> cu" where
  "cuMemFree pointer s =
     (if pointer = 0 then (CUDA_SUCCESS, s)
      else if \<not> map_contains pointer (gDeviceAllocations s) then (CUDA_ERROR_INVALID_VALUE, s)
      else
        (let external = pointer \<in> set (gExternalDevicePointers s);
             s1 = s\<lparr>gDeviceAllocations := map_erase pointer (gDeviceAllocations s),
                    gExternalDevicePointers := set_erase pointer (gExternalDevicePointers s)\<rparr> in
         (CUDA_SUCCESS, if \<not> external then free_block pointer s1 else s1)))"

definition cuMemFree_v2 :: "u64 \<Rightarrow> cu" where
  "cuMemFree_v2 pointer = cuMemFree pointer"

definition cuMemHostAlloc :: "bool \<Rightarrow> u64 \<Rightarrow> u32 \<Rightarrow> ptr option \<Rightarrow> ptr cu_out" where
  "cuMemHostAlloc pointer sz fl malloc s =
     (if \<not> pointer \<or> sz = 0 then ((CUDA_ERROR_INVALID_VALUE, None), s)
      else case malloc of
        None \<Rightarrow> ((CUDA_ERROR_OUT_OF_MEMORY, None), s)
      | Some allocation \<Rightarrow>
          (let s1 = malloc_block allocation sz s in
           ((CUDA_SUCCESS, Some allocation),
            s1\<lparr>gHostAllocations := map_put allocation sz (gHostAllocations s1)\<rparr>)))"

definition cuMemFreeHost :: "ptr \<Rightarrow> cu" where
  "cuMemFreeHost pointer s =
     (if pointer = 0 then (CUDA_SUCCESS, s)
      else if \<not> map_contains pointer (gHostAllocations s) then (CUDA_ERROR_INVALID_VALUE, s)
      else (CUDA_SUCCESS, free_block pointer (s\<lparr>gHostAllocations := map_erase pointer (gHostAllocations s)\<rparr>)))"

definition cuMemHostGetDevicePointer :: "bool \<Rightarrow> ptr \<Rightarrow> u32 \<Rightarrow> u64 cu_out" where
  "cuMemHostGetDevicePointer devicePointer hostPointer fl s =
     (if \<not> devicePointer \<or> hostPointer = 0 then ((CUDA_ERROR_INVALID_VALUE, None), s)
      else if \<not> map_contains hostPointer (gHostAllocations s) then ((CUDA_ERROR_INVALID_VALUE, None), s)
      else ((CUDA_SUCCESS, Some hostPointer), s))"

definition cuMemHostGetDevicePointer_v2 :: "bool \<Rightarrow> ptr \<Rightarrow> u32 \<Rightarrow> u64 cu_out" where
  "cuMemHostGetDevicePointer_v2 devicePointer hostPointer fl = cuMemHostGetDevicePointer devicePointer hostPointer fl"

section \<open>Reservations and mappings\<close>

text \<open>The part of \<^verbatim>\<open>cuMemAddressReserve\<close> that cuts an aligned range out of a larger one: the aligned
  address, and what is unmapped before and after it.\<close>

definition alignedAddress :: "u64 \<Rightarrow> u64 \<Rightarrow> u64" where
  "alignedAddress rawAddress alignment = (rawAddress + alignment - 1) AND NOT (alignment - 1)"

definition trimReservation :: "u64 \<Rightarrow> u64 \<Rightarrow> u64 \<Rightarrow> cuda \<Rightarrow> cuda" where
  "trimReservation raw sz alignment s =
     (let aligned = alignedAddress raw alignment;
          prefix = aligned - raw;
          suffix = alignment - prefix;
          s1 = (if prefix \<noteq> 0 then munmap raw prefix s else s)
      in if suffix \<noteq> 0 then munmap (aligned + sz) suffix s1 else s1)"

text \<open>The answer of the one call of \<^verbatim>\<open>mmap\<close>: an address, or failure. The reserved pages are inaccessible.\<close>

definition cuMemAddressReserve :: "bool \<Rightarrow> u64 \<Rightarrow> u64 \<Rightarrow> u64 \<Rightarrow> u64 \<Rightarrow> ptr option \<Rightarrow> u64 cu_out" where
  "cuMemAddressReserve pointer sz alignment0 requestedAddress fl mmap s =
     (if \<not> pointer \<or> sz = 0 \<or> fl \<noteq> 0 then ((CUDA_ERROR_INVALID_VALUE, None), s)
      else let alignment = (if alignment0 = 0 then 64 * 1024 else alignment0) in
      if alignment AND (alignment - 1) \<noteq> 0 \<or> alignment < 4096 then ((CUDA_ERROR_INVALID_VALUE, None), s)
      else if requestedAddress = 0 \<and> sz > (- 1) - alignment then ((CUDA_ERROR_OUT_OF_MEMORY, None), s)
      else case mmap of
        None \<Rightarrow> ((CUDA_ERROR_OUT_OF_MEMORY, None), s)
      | Some raw \<Rightarrow>
          (let reservation = (if requestedAddress \<noteq> 0 then raw else alignedAddress raw alignment);
               s1 = (if requestedAddress \<noteq> 0 then mmap_none raw sz s
                     else trimReservation raw sz alignment (mmap_none raw (sz + alignment) s))
           in ((CUDA_SUCCESS, Some reservation),
               s1\<lparr>gVirtualReservations := map_put reservation sz (gVirtualReservations s1)\<rparr>)))"

text \<open>The last argument is whether \<^verbatim>\<open>munmap\<close> succeeds.\<close>

definition cuMemAddressFree :: "u64 \<Rightarrow> u64 \<Rightarrow> bool \<Rightarrow> cu" where
  "cuMemAddressFree pointer sz munmapOk s =
     (if pointer = 0 \<or> sz = 0 then (CUDA_ERROR_INVALID_VALUE, s)
      else if map_of (gVirtualReservations s) pointer \<noteq> Some sz then (CUDA_ERROR_INVALID_VALUE, s)
      else
        (let s1 = s\<lparr>gVirtualReservations := map_erase pointer (gVirtualReservations s),
                    gDeviceAllocations := map_erase pointer (gDeviceAllocations s)\<rparr> in
         if munmapOk then (CUDA_SUCCESS, munmap pointer sz s1) else (CUDA_ERROR_INVALID_VALUE, s1)))"

text \<open>\<^verbatim>\<open>memfd_create\<close> answers with a descriptor and the identity of the new file, or fails; the next
  argument is whether \<^verbatim>\<open>ftruncate\<close> succeeds.\<close>

definition cuMemCreate :: "bool \<Rightarrow> u64 \<Rightarrow> bool \<Rightarrow> u64 \<Rightarrow> (fd \<times> nat) option \<Rightarrow> bool \<Rightarrow> u64 cu_out" where
  "cuMemCreate handle sz properties fl memfd ftruncateOk s =
     (if \<not> handle \<or> \<not> properties \<or> sz = 0 \<or> fl \<noteq> 0 then ((CUDA_ERROR_INVALID_VALUE, None), s)
      else case memfd of
        None \<Rightarrow> ((CUDA_ERROR_OUT_OF_MEMORY, None), s)
      | Some (d, file) \<Rightarrow>
          (let s1 = s\<lparr>fdTable := (fdTable s)(d \<mapsto> file)\<rparr> in
           if \<not> ftruncateOk then ((CUDA_ERROR_OUT_OF_MEMORY, None), close_fd d s1)
           else
             (let allocationHandle = gNextGenericAllocationHandle s1 in
              ((CUDA_SUCCESS, Some allocationHandle),
               s1\<lparr>gNextGenericAllocationHandle := allocationHandle + 1,
                  gGenericAllocations := map_put allocationHandle \<lparr>generic_fd = d, generic_size = sz\<rparr>
                    (gGenericAllocations s1)\<rparr>))))"

definition cuMemRelease :: "u64 \<Rightarrow> cu" where
  "cuMemRelease handle s =
     (case map_of (gGenericAllocations s) handle of
        None \<Rightarrow> (CUDA_ERROR_INVALID_HANDLE, s)
      | Some allocation \<Rightarrow>
          (let s1 = s\<lparr>gGenericAllocations := map_erase handle (gGenericAllocations s)\<rparr> in
           (CUDA_SUCCESS, if generic_fd allocation \<ge> 0 then close_fd (generic_fd allocation) s1 else s1)))"

text \<open>The last argument is whether the fixed mapping succeeds; a closed descriptor makes it fail.\<close>

definition cuMemMap :: "u64 \<Rightarrow> u64 \<Rightarrow> u64 \<Rightarrow> u64 \<Rightarrow> u64 \<Rightarrow> bool \<Rightarrow> cu" where
  "cuMemMap pointer sz offset handle fl mmapOk s =
     (if pointer = 0 \<or> sz = 0 \<or> fl \<noteq> 0 then (CUDA_ERROR_INVALID_VALUE, s)
      else case map_of (gGenericAllocations s) handle of
        None \<Rightarrow> (CUDA_ERROR_INVALID_HANDLE, s)
      | Some allocation \<Rightarrow>
          (let insideReservation = list_ex (range_inside pointer sz) (gVirtualReservations s) in
           if \<not> insideReservation \<or> offset > generic_size allocation \<or> sz > generic_size allocation - offset
           then (CUDA_ERROR_INVALID_VALUE, s)
           else case fdTable s (generic_fd allocation) of
             None \<Rightarrow> (CUDA_ERROR_OUT_OF_MEMORY, s)
           | Some file \<Rightarrow>
               if \<not> mmapOk then (CUDA_ERROR_OUT_OF_MEMORY, s)
               else
                 (let s1 = mmap_file pointer sz file (unat offset) s in
                  (CUDA_SUCCESS, s1\<lparr>gDeviceAllocations := map_put pointer sz (gDeviceAllocations s1)\<rparr>))))"

definition cuMemUnmap :: "u64 \<Rightarrow> u64 \<Rightarrow> bool \<Rightarrow> cu" where
  "cuMemUnmap pointer sz mmapOk s =
     (if pointer = 0 \<or> sz = 0 then (CUDA_ERROR_INVALID_VALUE, s)
      else if map_of (gDeviceAllocations s) pointer \<noteq> Some sz then (CUDA_ERROR_INVALID_VALUE, s)
      else
        (let s1 = s\<lparr>gDeviceAllocations := map_erase pointer (gDeviceAllocations s)\<rparr> in
         if mmapOk then (CUDA_SUCCESS, mmap_none pointer sz s1) else (CUDA_ERROR_INVALID_VALUE, s1)))"

definition cuMemSetAccess :: "u64 \<Rightarrow> u64 \<Rightarrow> bool \<Rightarrow> u64 \<Rightarrow> cu" where
  "cuMemSetAccess pointer sz descriptors descriptorCount s =
     (if pointer = 0 \<or> sz = 0 \<or> \<not> descriptors \<or> descriptorCount = 0 then (CUDA_ERROR_INVALID_VALUE, s)
      else (if resolveDeviceRange s pointer sz \<noteq> None then CUDA_SUCCESS else CUDA_ERROR_INVALID_VALUE, s))"

definition cuMemGetAllocationGranularity :: "bool \<Rightarrow> bool \<Rightarrow> int \<Rightarrow> CUresult \<times> u64 option" where
  "cuMemGetAllocationGranularity granularity properties opt =
     (if \<not> granularity \<or> \<not> properties \<or> (opt \<noteq> 0 \<and> opt \<noteq> 1) then (CUDA_ERROR_INVALID_VALUE, None)
      else (CUDA_SUCCESS, Some (64 * 1024)))"

text \<open>\<^verbatim>\<open>dup\<close> answers with a new descriptor of the same file.\<close>

definition cuMemExportToShareableHandle :: "bool \<Rightarrow> u64 \<Rightarrow> int \<Rightarrow> u64 \<Rightarrow> fd option \<Rightarrow> fd cu_out" where
  "cuMemExportToShareableHandle shareableHandle handle handleType fl dup s =
     (if \<not> shareableHandle \<or> handleType \<noteq> 1 \<or> fl \<noteq> 0 then ((CUDA_ERROR_INVALID_VALUE, None), s)
      else case map_of (gGenericAllocations s) handle of
        None \<Rightarrow> ((CUDA_ERROR_INVALID_HANDLE, None), s)
      | Some allocation \<Rightarrow>
          (case dup of
             None \<Rightarrow> ((CUDA_ERROR_OUT_OF_MEMORY, None), s)
           | Some exported \<Rightarrow>
               ((CUDA_SUCCESS, Some exported),
                s\<lparr>fdTable := (fdTable s)(exported := fdTable s (generic_fd allocation))\<rparr>)))"

section \<open>Copies and fills\<close>

text \<open>The host side of a copy is a list of \<open>size\<close> bytes, or nothing for a null pointer; the length of the
  list plays the role of the size argument.\<close>

definition cuMemcpyHtoD :: "u64 \<Rightarrow> bytes option \<Rightarrow> u64 \<Rightarrow> cu" where
  "cuMemcpyHtoD destination source sz s =
     (if source = None \<and> sz \<noteq> 0 then (CUDA_ERROR_INVALID_VALUE, s)
      else case resolveDeviceRange s destination sz of
        None \<Rightarrow> (CUDA_ERROR_INVALID_VALUE, s)
      | Some host \<Rightarrow>
          (CUDA_SUCCESS, case source of None \<Rightarrow> s | Some data \<Rightarrow> store_bytes host (take (unat sz) data) s))"

definition cuMemcpyHtoD_v2 :: "u64 \<Rightarrow> bytes option \<Rightarrow> u64 \<Rightarrow> cu" where
  "cuMemcpyHtoD_v2 destination source sz = cuMemcpyHtoD destination source sz"

definition cuMemcpyHtoDAsync_v2 :: "u64 \<Rightarrow> bytes option \<Rightarrow> u64 \<Rightarrow> ptr \<Rightarrow> cu" where
  "cuMemcpyHtoDAsync_v2 destination source sz stream = cuMemcpyHtoD destination source sz"

definition cuMemcpyDtoH :: "bool \<Rightarrow> u64 \<Rightarrow> u64 \<Rightarrow> bytes cu_out" where
  "cuMemcpyDtoH destination source sz s =
     (if \<not> destination \<and> sz \<noteq> 0 then ((CUDA_ERROR_INVALID_VALUE, None), s)
      else case resolveDeviceRange s source sz of
        None \<Rightarrow> ((CUDA_ERROR_INVALID_VALUE, None), s)
      | Some host \<Rightarrow> ((CUDA_SUCCESS, Some (load_bytes s host (unat sz))), touch host (unat sz) s))"

definition cuMemcpyDtoH_v2 :: "bool \<Rightarrow> u64 \<Rightarrow> u64 \<Rightarrow> bytes cu_out" where
  "cuMemcpyDtoH_v2 destination source sz = cuMemcpyDtoH destination source sz"

definition cuMemcpyDtoHAsync_v2 :: "bool \<Rightarrow> u64 \<Rightarrow> u64 \<Rightarrow> ptr \<Rightarrow> bytes cu_out" where
  "cuMemcpyDtoHAsync_v2 destination source sz stream = cuMemcpyDtoH destination source sz"

definition cuMemcpyDtoD :: "u64 \<Rightarrow> u64 \<Rightarrow> u64 \<Rightarrow> cu" where
  "cuMemcpyDtoD destination source sz s =
     (case (resolveDeviceRange s destination sz, resolveDeviceRange s source sz) of
        (Some destinationHost, Some sourceHost) \<Rightarrow>
          (CUDA_SUCCESS, store_bytes destinationHost (load_bytes s sourceHost (unat sz)) (touch sourceHost (unat sz) s))
      | _ \<Rightarrow> (CUDA_ERROR_INVALID_VALUE, s))"

definition cuMemcpyDtoD_v2 :: "u64 \<Rightarrow> u64 \<Rightarrow> u64 \<Rightarrow> cu" where
  "cuMemcpyDtoD_v2 destination source sz = cuMemcpyDtoD destination source sz"

definition cuMemcpyDtoDAsync_v2 :: "u64 \<Rightarrow> u64 \<Rightarrow> u64 \<Rightarrow> ptr \<Rightarrow> cu" where
  "cuMemcpyDtoDAsync_v2 destination source sz stream = cuMemcpyDtoD destination source sz"

definition cuMemcpyPeerAsync :: "u64 \<Rightarrow> ptr \<Rightarrow> u64 \<Rightarrow> ptr \<Rightarrow> u64 \<Rightarrow> ptr \<Rightarrow> cu" where
  "cuMemcpyPeerAsync destination destinationContext source sourceContext sz stream = cuMemcpyDtoD destination source sz"

definition cuMemcpy3DAsync_v2 :: CUresult where
  "cuMemcpy3DAsync_v2 = CUDA_SUCCESS"

definition cuMemsetD8_v2 :: "u64 \<Rightarrow> u8 \<Rightarrow> u64 \<Rightarrow> cu" where
  "cuMemsetD8_v2 destination v count = fillDeviceMemory destination v count"

definition cuMemsetD16_v2 :: "u64 \<Rightarrow> u16 \<Rightarrow> u64 \<Rightarrow> cu" where
  "cuMemsetD16_v2 destination v count = fillDeviceMemory destination v count"

definition cuMemsetD32_v2 :: "u64 \<Rightarrow> u32 \<Rightarrow> u64 \<Rightarrow> cu" where
  "cuMemsetD32_v2 destination v count = fillDeviceMemory destination v count"

definition cuMemsetD8Async :: "u64 \<Rightarrow> u8 \<Rightarrow> u64 \<Rightarrow> ptr \<Rightarrow> cu" where
  "cuMemsetD8Async destination v count stream = cuMemsetD8_v2 destination v count"

definition cuMemsetD32Async :: "u64 \<Rightarrow> u32 \<Rightarrow> u64 \<Rightarrow> ptr \<Rightarrow> cu" where
  "cuMemsetD32Async destination v count stream = cuMemsetD32_v2 destination v count"

end
