(* ===== verification/CudaExternal.thy ===== *)
theory CudaExternal
  imports CudaObjects CudaMemory
begin

text \<open>
  External memory, mipmapped arrays, arrays and external semaphores of \<^verbatim>\<open>imb_cuda_shim.cpp\<close>: a file
  descriptor is imported and mapped, parts of the mapping become device pointers or arrays, and a
  semaphore is a 64-bit value at the start of its file.
\<close>

definition as_external :: "object \<Rightarrow> ExternalMemoryState option" where
  "as_external ob = (case ob of ExternalObj x \<Rightarrow> Some x | _ \<Rightarrow> None)"
definition as_semaphore :: "object \<Rightarrow> ExternalSemaphoreState option" where
  "as_semaphore ob = (case ob of SemaphoreObj x \<Rightarrow> Some x | _ \<Rightarrow> None)"
definition as_mipmap :: "object \<Rightarrow> MipmappedArrayState option" where
  "as_mipmap ob = (case ob of MipmapObj x \<Rightarrow> Some x | _ \<Rightarrow> None)"
definition as_array :: "object \<Rightarrow> ArrayState option" where
  "as_array ob = (case ob of ArrayObj x \<Rightarrow> Some x | _ \<Rightarrow> None)"

section \<open>External memory\<close>

record CUDA_EXTERNAL_MEMORY_HANDLE_DESC =
  memory_type :: int
  memory_handle_fd :: fd
  memory_handle_size :: u64
  memory_handle_flags :: u32

record CUDA_EXTERNAL_MEMORY_BUFFER_DESC =
  buffer_offset :: u64
  buffer_size :: u64
  buffer_flags :: u32

text \<open>The answers of the kernel: the size \<^verbatim>\<open>fstat\<close> reports, or nothing when it fails, and the address
  \<^verbatim>\<open>mmap\<close> gives, or nothing. An integer is the value of \<^verbatim>\<open>off_t\<close>.\<close>

definition cuImportExternalMemory ::
  "bool \<Rightarrow> CUDA_EXTERNAL_MEMORY_HANDLE_DESC option \<Rightarrow> int option \<Rightarrow> ptr option \<Rightarrow> ptr cu_out" where
  "cuImportExternalMemory externalMemory descr fstat mmap s =
     (case descr of
        None \<Rightarrow> ((CUDA_ERROR_INVALID_VALUE, None), s)
      | Some d \<Rightarrow>
      if \<not> externalMemory \<or> memory_type d \<noteq> 1 \<or> memory_handle_fd d < 0 \<or> memory_handle_size d = 0
         \<or> memory_handle_flags d AND NOT 1 \<noteq> 0
      then ((CUDA_ERROR_INVALID_VALUE, None), s)
      else case fstat of
        None \<Rightarrow> ((CUDA_ERROR_INVALID_VALUE, None), s)
      | Some st_size \<Rightarrow>
          if st_size < 0 \<or> st_size < int (unat (memory_handle_size d)) then ((CUDA_ERROR_INVALID_VALUE, None), s)
          else case (mmap, fdTable s (memory_handle_fd d)) of
            (Some mapping, Some fileno) \<Rightarrow>
              (let s0 = mmap_file mapping (memory_handle_size d) fileno 0 s in
               case new_object (ExternalObj \<lparr>memory_fd = memory_handle_fd d, memory_size = memory_handle_size d,
                                             memory_mapping = Some mapping\<rparr>) s0 of
                 (None, s1) \<Rightarrow> ((CUDA_ERROR_OUT_OF_MEMORY, None), munmap mapping (memory_handle_size d) s1)
               | (Some state, s1) \<Rightarrow>
                   ((CUDA_SUCCESS, Some state), s1\<lparr>gExternalMemories := set_insert state (gExternalMemories s1)\<rparr>))
          | _ \<Rightarrow> ((CUDA_ERROR_OUT_OF_MEMORY, None), s))"

definition cuExternalMemoryGetMappedBuffer ::
  "bool \<Rightarrow> ptr \<Rightarrow> CUDA_EXTERNAL_MEMORY_BUFFER_DESC option \<Rightarrow> u64 cu_out" where
  "cuExternalMemoryGetMappedBuffer devicePointer externalMemory descr s =
     (case descr of
        None \<Rightarrow> ((CUDA_ERROR_INVALID_VALUE, None), s)
      | Some d \<Rightarrow>
      if \<not> devicePointer \<or> buffer_size d = 0 \<or> buffer_flags d \<noteq> 0 then ((CUDA_ERROR_INVALID_VALUE, None), s)
      else if externalMemory \<notin> set (gExternalMemories s) then ((CUDA_ERROR_INVALID_HANDLE, None), s)
      else deref as_external externalMemory (CUDA_SUCCESS, None)
        (\<lambda>state s1.
          if buffer_offset d > memory_size state \<or> buffer_size d > memory_size state - buffer_offset d
          then ((CUDA_ERROR_INVALID_HANDLE, None), s1)
          else
            (let mapping = (case memory_mapping state of Some m \<Rightarrow> m | None \<Rightarrow> - 1);
                 pointer = mapping + buffer_offset d
             in ((CUDA_SUCCESS, Some pointer),
                 s1\<lparr>gDeviceAllocations := map_put pointer (buffer_size d) (gDeviceAllocations s1),
                    gExternalDevicePointers := set_insert pointer (gExternalDevicePointers s1)\<rparr>))) s)"

text \<open>A mapping of one of the registered mipmapped arrays keeps its memory alive.\<close>

fun some_mipmap_of :: "ptr \<Rightarrow> ptr list \<Rightarrow> cuda \<Rightarrow> bool \<times> cuda" where
  "some_mipmap_of memory [] s = (False, s)"
| "some_mipmap_of memory (mipmap # rest) s =
     (case heap s mipmap of
        Some (MipmapObj x) \<Rightarrow> if mip_memory x = memory then (True, s) else some_mipmap_of memory rest s
      | _ \<Rightarrow> some_mipmap_of memory rest (broken s))"

definition cuDestroyExternalMemory :: "ptr \<Rightarrow> cu" where
  "cuDestroyExternalMemory externalMemory s =
     (if externalMemory = 0 then (CUDA_SUCCESS, s)
      else if externalMemory \<notin> set (gExternalMemories s) then (CUDA_ERROR_INVALID_HANDLE, s)
      else case some_mipmap_of externalMemory (gMipmappedArrays s) s of
        (True, s1) \<Rightarrow> (CUDA_ERROR_INVALID_HANDLE, s1)
      | (False, s1) \<Rightarrow>
          deref as_external externalMemory CUDA_SUCCESS
            (\<lambda>state s2.
              (let s3 = s2\<lparr>gExternalMemories := set_erase externalMemory (gExternalMemories s2)\<rparr>;
                   s4 = (case memory_mapping state of Some m \<Rightarrow> munmap m (memory_size state) s3 | None \<Rightarrow> s3);
                   s5 = (if memory_fd state \<ge> 0 then close_fd (memory_fd state) s4 else s4)
               in (CUDA_SUCCESS, delete_object is_external externalMemory s5))) s1)"

section \<open>Mipmapped arrays and arrays\<close>

definition write_level :: "ptr \<Rightarrow> nat \<Rightarrow> ptr \<Rightarrow> cuda \<Rightarrow> cuda" where
  "write_level mipmap level array s = (case heap s mipmap of
      Some (MipmapObj x) \<Rightarrow> write_object mipmap (MipmapObj (x\<lparr>levels := (levels x)[level := array]\<rparr>)) s
    | _ \<Rightarrow> broken s)"

text \<open>The loop that creates the arrays of the levels \<open>level\<close>, \<open>level + 1\<close>, ...; it stops with \<open>False\<close>
  when the allocator throws.\<close>

fun create_levels :: "ptr \<Rightarrow> nat \<Rightarrow> nat \<Rightarrow> cuda \<Rightarrow> bool \<times> cuda" where
  "create_levels mipmap level 0 s = (True, s)"
| "create_levels mipmap level (Suc n) s =
     (case new_object (ArrayObj \<lparr>array_mipmap = mipmap, array_level = level\<rparr>) s of
        (None, s1) \<Rightarrow> (False, s1)
      | (Some array, s1) \<Rightarrow>
          (let s2 = write_level mipmap level array s1
           in create_levels mipmap (Suc level) n (s2\<lparr>gArrays := set_insert array (gArrays s2)\<rparr>)))"

text \<open>\<^verbatim>\<open>for (auto* array : state->levels) if (array != nullptr) { gArrays.erase(array); delete array; }\<close>\<close>

fun delete_levels :: "ptr list \<Rightarrow> cuda \<Rightarrow> cuda" where
  "delete_levels [] s = s"
| "delete_levels (array # rest) s =
     delete_levels rest
       (if array \<noteq> 0 then delete_object is_array array (s\<lparr>gArrays := set_erase array (gArrays s)\<rparr>) else s)"

definition cuExternalMemoryGetMappedMipmappedArray ::
  "bool \<Rightarrow> ptr \<Rightarrow> CUDA_EXTERNAL_MEMORY_MIPMAPPED_ARRAY_DESC option \<Rightarrow> ptr cu_out" where
  "cuExternalMemoryGetMappedMipmappedArray mipmap externalMemory descr s =
     (case descr of
        None \<Rightarrow> ((CUDA_ERROR_INVALID_VALUE, None), s)
      | Some d \<Rightarrow>
      if \<not> mipmap \<or> numLevels d = 0 \<or> Width (arrayDesc d) = 0 \<or> Height (arrayDesc d) = 0
         \<or> NumChannels (arrayDesc d) = 0 \<or> NumChannels (arrayDesc d) > 4
      then ((CUDA_ERROR_INVALID_VALUE, None), s)
      else if externalMemory \<notin> set (gExternalMemories s) then ((CUDA_ERROR_INVALID_HANDLE, None), s)
      else deref as_external externalMemory (CUDA_SUCCESS, None)
        (\<lambda>memory s0.
          if mip_offset d \<ge> memory_size memory then ((CUDA_ERROR_INVALID_HANDLE, None), s0)
          else case new_object (MipmapObj \<lparr>mip_memory = externalMemory, descriptor = d,
                                           levels = replicate (unat (numLevels d)) 0\<rparr>) s0 of
            (None, s1) \<Rightarrow> ((CUDA_ERROR_OUT_OF_MEMORY, None), s1)
          | (Some state, s1) \<Rightarrow>
              (case create_levels state 0 (unat (numLevels d)) s1 of
                 (True, s2) \<Rightarrow>
                   ((CUDA_SUCCESS, Some state), s2\<lparr>gMipmappedArrays := set_insert state (gMipmappedArrays s2)\<rparr>)
               | (False, s2) \<Rightarrow>
                   deref as_mipmap state (CUDA_ERROR_OUT_OF_MEMORY, None)
                     (\<lambda>x s3. ((CUDA_ERROR_OUT_OF_MEMORY, None),
                              delete_object is_mipmap state (delete_levels (levels x) s3))) s2)) s)"

definition cuMipmappedArrayGetLevel :: "bool \<Rightarrow> ptr \<Rightarrow> u32 \<Rightarrow> ptr cu_out" where
  "cuMipmappedArrayGetLevel array mipmap level s =
     (if \<not> array then ((CUDA_ERROR_INVALID_VALUE, None), s)
      else if mipmap \<notin> set (gMipmappedArrays s) then ((CUDA_ERROR_INVALID_HANDLE, None), s)
      else deref as_mipmap mipmap (CUDA_SUCCESS, None)
        (\<lambda>x s1. if unat level \<ge> length (levels x) \<or> levels x ! unat level = 0
                then ((CUDA_ERROR_INVALID_HANDLE, None), s1)
                else ((CUDA_SUCCESS, Some (levels x ! unat level)), s1)) s)"

definition cuMipmappedArrayDestroy :: "ptr \<Rightarrow> cu" where
  "cuMipmappedArrayDestroy mipmap s =
     (if mipmap = 0 then (CUDA_SUCCESS, s)
      else if mipmap \<notin> set (gMipmappedArrays s) then (CUDA_ERROR_INVALID_HANDLE, s)
      else deref as_mipmap mipmap CUDA_SUCCESS
        (\<lambda>x s1. (CUDA_SUCCESS, delete_object is_mipmap mipmap (delete_levels (levels x) s1)))
        (s\<lparr>gMipmappedArrays := set_erase mipmap (gMipmappedArrays s)\<rparr>))"

definition cuArray3DCreate_v2 :: "bool \<Rightarrow> bool \<Rightarrow> ptr cu_out" where
  "cuArray3DCreate_v2 array descr s =
     (if \<not> array \<or> \<not> descr then ((CUDA_ERROR_INVALID_VALUE, None), s)
      else case new_object (ArrayObj \<lparr>array_mipmap = 0, array_level = 0\<rparr>) s of
        (None, s1) \<Rightarrow> ((CUDA_ERROR_OUT_OF_MEMORY, None), s1)
      | (Some state, s1) \<Rightarrow> ((CUDA_SUCCESS, Some state), s1\<lparr>gArrays := set_insert state (gArrays s1)\<rparr>))"

definition cuArrayDestroy :: "ptr \<Rightarrow> cu" where
  "cuArrayDestroy array s =
     (if array = 0 then (CUDA_SUCCESS, s)
      else if array \<notin> set (gArrays s) then (CUDA_ERROR_INVALID_HANDLE, s)
      else deref as_array array CUDA_SUCCESS
        (\<lambda>a s1.
          if array_mipmap a \<noteq> 0 \<and> array_mipmap a \<in> set (gMipmappedArrays s1)
          then deref as_mipmap (array_mipmap a) CUDA_SUCCESS
            (\<lambda>x s2. (CUDA_SUCCESS, delete_object is_array array
                (if array_level a < length (levels x) \<and> levels x ! array_level a = array
                 then write_level (array_mipmap a) (array_level a) 0 s2 else s2))) s1
          else (CUDA_SUCCESS, delete_object is_array array s1))
        (s\<lparr>gArrays := set_erase array (gArrays s)\<rparr>))"

definition cuTexObjectCreate :: "bool \<Rightarrow> bool \<Rightarrow> bool \<Rightarrow> u64 cu_out" where
  "cuTexObjectCreate texture resourceDescriptor textureDescriptor s =
     (if \<not> texture \<or> \<not> resourceDescriptor \<or> \<not> textureDescriptor then ((CUDA_ERROR_INVALID_VALUE, None), s)
      else ((CUDA_SUCCESS, Some (gNextTextureObject s)), s\<lparr>gNextTextureObject := gNextTextureObject s + 1\<rparr>))"

definition cuTexObjectDestroy :: "u64 \<Rightarrow> CUresult" where
  "cuTexObjectDestroy texture = (if texture = 0 then CUDA_ERROR_INVALID_VALUE else CUDA_SUCCESS)"

section \<open>External semaphores\<close>

record CUDA_EXTERNAL_SEMAPHORE_HANDLE_DESC =
  semaphore_type :: int
  semaphore_handle_fd :: fd
  semaphore_handle_flags :: u32

text \<open>One element of the arrays of semaphores and parameters of the asynchronous calls.\<close>

record semaphore_params =
  params_semaphore :: ptr
  fence_value :: u64
  params_flags :: u32

definition cuImportExternalSemaphore ::
  "bool \<Rightarrow> CUDA_EXTERNAL_SEMAPHORE_HANDLE_DESC option \<Rightarrow> int option \<Rightarrow> ptr cu_out" where
  "cuImportExternalSemaphore externalSemaphore descr fstat s =
     (case descr of
        None \<Rightarrow> ((CUDA_ERROR_INVALID_VALUE, None), s)
      | Some d \<Rightarrow>
      if \<not> externalSemaphore \<or> semaphore_type d \<noteq> 1 \<or> semaphore_handle_fd d < 0 \<or> semaphore_handle_flags d \<noteq> 0
      then ((CUDA_ERROR_INVALID_VALUE, None), s)
      else case fstat of
        None \<Rightarrow> ((CUDA_ERROR_INVALID_VALUE, None), s)
      | Some st_size \<Rightarrow>
          if st_size < 8 then ((CUDA_ERROR_INVALID_VALUE, None), s)
          else case new_object (SemaphoreObj \<lparr>semaphore_fd = semaphore_handle_fd d\<rparr>) s of
            (None, s1) \<Rightarrow> ((CUDA_ERROR_OUT_OF_MEMORY, None), s1)
          | (Some state, s1) \<Rightarrow>
              ((CUDA_SUCCESS, Some state), s1\<lparr>gExternalSemaphores := set_insert state (gExternalSemaphores s1)\<rparr>))"

text \<open>What \<^verbatim>\<open>pwrite\<close> and \<^verbatim>\<open>pread\<close> answer: a number of bytes (at most what was asked for), an
  interruption, or an error; after the last answer the call fails.\<close>

datatype io_answer = Moved nat | Interrupted | IOError

definition write_file :: "nat \<Rightarrow> nat \<Rightarrow> bytes \<Rightarrow> cuda \<Rightarrow> cuda" where
  "write_file fileno offset bs s = s\<lparr>cells := (\<lambda>c. case c of
      FileByte f i \<Rightarrow> if f = fileno \<and> offset \<le> i \<and> i < offset + length bs then bs ! (i - offset) else cells s c
    | Anonymous a \<Rightarrow> cells s c)\<rparr>"

fun pwrite_loop :: "fd \<Rightarrow> bytes \<Rightarrow> nat \<Rightarrow> io_answer list \<Rightarrow> cuda \<Rightarrow> bool \<times> io_answer list \<times> cuda" where
  "pwrite_loop d data written [] s = (written \<ge> length data, [], s)"
| "pwrite_loop d data written (a # as) s =
     (if written \<ge> length data then (True, a # as, s)
      else case (a, fdTable s d) of
        (Interrupted, _) \<Rightarrow> pwrite_loop d data written as s
      | (Moved n, Some fileno) \<Rightarrow>
          (let k = min n (length data - written) in
           if k = 0 then (False, as, s)
           else pwrite_loop d data (written + k) as
             (write_file fileno written (take k (drop written data)) s))
      | _ \<Rightarrow> (False, as, s))"

fun pread_loop :: "fd \<Rightarrow> nat \<Rightarrow> bytes \<Rightarrow> io_answer list \<Rightarrow> cuda \<Rightarrow> bytes option \<times> io_answer list" where
  "pread_loop d wanted got [] s = (if length got \<ge> wanted then Some got else None, [])"
| "pread_loop d wanted got (a # as) s =
     (if length got \<ge> wanted then (Some got, a # as)
      else case (a, fdTable s d) of
        (Interrupted, _) \<Rightarrow> pread_loop d wanted got as s
      | (Moved n, Some fileno) \<Rightarrow>
          (let k = min n (wanted - length got) in
           if k = 0 then (None, as)
           else pread_loop d wanted (got @ map (\<lambda>i. cells s (FileByte fileno i)) [length got..<length got + k]) as s)
      | _ \<Rightarrow> (None, as))"

fun signal_loop :: "semaphore_params list \<Rightarrow> io_answer list \<Rightarrow> cu" where
  "signal_loop [] answers s = (CUDA_SUCCESS, s)"
| "signal_loop (p # ps) answers s =
     (if params_semaphore p \<notin> set (gExternalSemaphores s) \<or> params_flags p \<noteq> 0 then (CUDA_ERROR_INVALID_HANDLE, s)
      else case heap s (params_semaphore p) of
        Some (SemaphoreObj x) \<Rightarrow>
          (let v = (if fence_value p = 0 then 1 else fence_value p) in
           case pwrite_loop (semaphore_fd x) (le_bytes v) 0 answers s of
             (False, _, s1) \<Rightarrow> (CUDA_ERROR_INVALID_HANDLE, s1)
           | (True, answers1, s1) \<Rightarrow> signal_loop ps answers1 s1)
      | _ \<Rightarrow> (CUDA_SUCCESS, broken s))"

fun wait_loop :: "semaphore_params list \<Rightarrow> io_answer list \<Rightarrow> cu" where
  "wait_loop [] answers s = (CUDA_SUCCESS, s)"
| "wait_loop (p # ps) answers s =
     (if params_semaphore p \<notin> set (gExternalSemaphores s) \<or> params_flags p \<noteq> 0 then (CUDA_ERROR_INVALID_HANDLE, s)
      else case heap s (params_semaphore p) of
        Some (SemaphoreObj x) \<Rightarrow>
          (case pread_loop (semaphore_fd x) 8 [] answers s of
             (None, _) \<Rightarrow> (CUDA_ERROR_INVALID_HANDLE, s)
           | (Some current, answers1) \<Rightarrow> wait_loop ps answers1 s)
      | _ \<Rightarrow> (CUDA_SUCCESS, broken s))"

text \<open>The two arrays are one list of elements; \<open>given\<close> is whether both pointers are non-null.\<close>

definition cuSignalExternalSemaphoresAsync :: "bool \<Rightarrow> semaphore_params list \<Rightarrow> io_answer list \<Rightarrow> cu" where
  "cuSignalExternalSemaphoresAsync given ps answers s =
     (if ps \<noteq> [] \<and> \<not> given then (CUDA_ERROR_INVALID_VALUE, s) else signal_loop ps answers s)"

definition cuWaitExternalSemaphoresAsync :: "bool \<Rightarrow> semaphore_params list \<Rightarrow> io_answer list \<Rightarrow> cu" where
  "cuWaitExternalSemaphoresAsync given ps answers s =
     (if ps \<noteq> [] \<and> \<not> given then (CUDA_ERROR_INVALID_VALUE, s) else wait_loop ps answers s)"

definition cuDestroyExternalSemaphore :: "ptr \<Rightarrow> cu" where
  "cuDestroyExternalSemaphore externalSemaphore s =
     (if externalSemaphore = 0 then (CUDA_SUCCESS, s)
      else if externalSemaphore \<notin> set (gExternalSemaphores s) then (CUDA_ERROR_INVALID_HANDLE, s)
      else deref as_semaphore externalSemaphore CUDA_SUCCESS
        (\<lambda>x s1. (CUDA_SUCCESS, delete_object is_semaphore externalSemaphore
            (if semaphore_fd x \<ge> 0 then close_fd (semaphore_fd x) s1 else s1)))
        (s\<lparr>gExternalSemaphores := set_erase externalSemaphore (gExternalSemaphores s)\<rparr>))"

end
