(* ===== verification/CudaHandles.thy ===== *)
theory CudaHandles
  imports CudaExternal
begin

text \<open>
  The invariant of the object registries of the CUDA driver: every registered handle is a live object of its
  kind, every pointer the driver will follow or delete from it is registered too, and no two libraries share a module
  and no two kernels a function. The invariant is stated over the heap and one set of handles per kind
  (\<open>hinv\<close>), so that a call is a few steps of three sorts: write an unregistered object, register an
  object, unregister one that nothing refers to.
\<close>

section \<open>Kinds and registries\<close>

datatype kind = KStream | KEvent | KModule | KFunction | KLibrary | KKernel | KArray | KExternal
  | KSemaphore | KMipmap

fun kind_of :: "object \<Rightarrow> kind" where
  "kind_of (StreamObj _) = KStream"
| "kind_of (EventObj _) = KEvent"
| "kind_of (ModuleObj _) = KModule"
| "kind_of (FunctionObj _) = KFunction"
| "kind_of (LibraryObj _) = KLibrary"
| "kind_of (KernelObj _) = KKernel"
| "kind_of (ArrayObj _) = KArray"
| "kind_of (ExternalObj _) = KExternal"
| "kind_of (SemaphoreObj _) = KSemaphore"
| "kind_of (MipmapObj _) = KMipmap"

fun registered :: "cuda \<Rightarrow> kind \<Rightarrow> ptr set" where
  "registered s KStream = set (gStreams s)"
| "registered s KEvent = set (gEvents s)"
| "registered s KModule = set (gModules s)"
| "registered s KFunction = set (gFunctions s)"
| "registered s KLibrary = set (gLibraries s)"
| "registered s KKernel = set (gKernels s)"
| "registered s KArray = set (gArrays s)"
| "registered s KExternal = set (gExternalMemories s)"
| "registered s KSemaphore = set (gExternalSemaphores s)"
| "registered s KMipmap = set (gMipmappedArrays s)"

named_theorems registry_simps \<open>the registries after an update\<close>

lemma registered_updates [registry_simps]:
  "registered (s\<lparr>gStreams := xs\<rparr>) = (registered s)(KStream := set xs)"
  "registered (s\<lparr>gEvents := xs\<rparr>) = (registered s)(KEvent := set xs)"
  "registered (s\<lparr>gModules := xs\<rparr>) = (registered s)(KModule := set xs)"
  "registered (s\<lparr>gFunctions := xs\<rparr>) = (registered s)(KFunction := set xs)"
  "registered (s\<lparr>gLibraries := xs\<rparr>) = (registered s)(KLibrary := set xs)"
  "registered (s\<lparr>gKernels := xs\<rparr>) = (registered s)(KKernel := set xs)"
  "registered (s\<lparr>gArrays := xs\<rparr>) = (registered s)(KArray := set xs)"
  "registered (s\<lparr>gExternalMemories := xs\<rparr>) = (registered s)(KExternal := set xs)"
  "registered (s\<lparr>gExternalSemaphores := xs\<rparr>) = (registered s)(KSemaphore := set xs)"
  "registered (s\<lparr>gMipmappedArrays := xs\<rparr>) = (registered s)(KMipmap := set xs)"
  by (rule ext, rename_tac k, case_tac k, simp_all)+

lemma registered_cong:
  assumes "gStreams s' = gStreams s" "gEvents s' = gEvents s" "gModules s' = gModules s"
    "gFunctions s' = gFunctions s" "gLibraries s' = gLibraries s" "gKernels s' = gKernels s"
    "gArrays s' = gArrays s" "gExternalMemories s' = gExternalMemories s"
    "gExternalSemaphores s' = gExternalSemaphores s" "gMipmappedArrays s' = gMipmappedArrays s"
  shows "registered s' = registered s"
  by (rule ext, rename_tac k, case_tac k) (use assms in simp_all)

lemma registered_other [registry_simps]:
  "registered (s\<lparr>newAnswers := as\<rparr>) = registered s"
  "registered (s\<lparr>heap := h\<rparr>) = registered s"
  "registered (s\<lparr>undefined_behaviour := b\<rparr>) = registered s"
  "registered (s\<lparr>gDeviceAllocations := d\<rparr>) = registered s"
  "registered (s\<lparr>gExternalDevicePointers := e\<rparr>) = registered s"
  "registered (s\<lparr>syscalls := c\<rparr>) = registered s"
  "registered (s\<lparr>fdTable := t\<rparr>) = registered s"
  "registered (s\<lparr>place := p\<rparr>) = registered s"
  "registered (s\<lparr>cells := ce\<rparr>) = registered s"
  by (rule registered_cong; simp)+

section \<open>The invariant\<close>

definition objs :: "kind \<Rightarrow> (ptr \<Rightarrow> object option) \<Rightarrow> ptr set" where
  "objs k h = {p. p \<noteq> 0 \<and> (\<exists>ob. h p = Some ob \<and> kind_of ob = k)}"

text \<open>The pointers the driver follows or deletes from a handle.\<close>

definition lib_module :: "(ptr \<Rightarrow> object option) \<Rightarrow> ptr \<Rightarrow> ptr" where
  "lib_module h l = (case h l of Some (LibraryObj x) \<Rightarrow> library_module x | _ \<Rightarrow> 0)"

definition kern_function :: "(ptr \<Rightarrow> object option) \<Rightarrow> ptr \<Rightarrow> ptr" where
  "kern_function h k = (case h k of Some (KernelObj x) \<Rightarrow> kernel_function x | _ \<Rightarrow> 0)"

definition mip_parent :: "(ptr \<Rightarrow> object option) \<Rightarrow> ptr \<Rightarrow> ptr" where
  "mip_parent h m = (case h m of Some (MipmapObj x) \<Rightarrow> mip_memory x | _ \<Rightarrow> 0)"

definition mip_levels :: "(ptr \<Rightarrow> object option) \<Rightarrow> ptr \<Rightarrow> ptr list" where
  "mip_levels h m = (case h m of Some (MipmapObj x) \<Rightarrow> levels x | _ \<Rightarrow> [])"

definition array_home :: "(ptr \<Rightarrow> object option) \<Rightarrow> ptr \<Rightarrow> (ptr \<times> nat) option" where
  "array_home h a = (case h a of Some (ArrayObj x) \<Rightarrow> Some (array_mipmap x, array_level x) | _ \<Rightarrow> None)"

text \<open>The levels of a mipmap: null, or a registered array that knows its place.\<close>

definition levels_ok :: "(ptr \<Rightarrow> object option) \<Rightarrow> ptr set \<Rightarrow> ptr \<Rightarrow> bool" where
  "levels_ok h A m \<longleftrightarrow> (\<forall>i < length (mip_levels h m). mip_levels h m ! i = 0
     \<or> mip_levels h m ! i \<in> A \<and> array_home h (mip_levels h m ! i) = Some (m, i))"

definition hinv :: "(ptr \<Rightarrow> object option) \<Rightarrow> (kind \<Rightarrow> ptr set) \<Rightarrow> bool" where
  "hinv h R \<longleftrightarrow> (\<forall>k. R k \<subseteq> objs k h)
     \<and> (\<forall>l \<in> R KLibrary. lib_module h l \<in> R KModule) \<and> inj_on (lib_module h) (R KLibrary)
     \<and> (\<forall>k \<in> R KKernel. kern_function h k \<in> R KFunction) \<and> inj_on (kern_function h) (R KKernel)
     \<and> (\<forall>m \<in> R KMipmap. mip_parent h m \<in> R KExternal \<and> levels_ok h (R KArray) m)"

definition handles_ok :: "cuda \<Rightarrow> bool" where
  "handles_ok s \<longleftrightarrow> hinv (heap s) (registered s) \<and> distinct (gKernels s)"

lemma objs_kind: "p \<in> objs k h \<Longrightarrow> p \<in> objs k' h \<Longrightarrow> k = k'"
  by (auto simp: objs_def)

lemma hinv_kind: "hinv h R \<Longrightarrow> p \<in> R k \<Longrightarrow> p \<in> R k' \<Longrightarrow> k = k'"
  unfolding hinv_def by (blast dest: objs_kind)

lemma hinv_objs: "hinv h R \<Longrightarrow> p \<in> R k \<Longrightarrow> p \<noteq> 0 \<and> (\<exists>ob. h p = Some ob \<and> kind_of ob = k)"
  unfolding hinv_def objs_def by blast

lemma fun_upd_views:
  "lib_module (h(p := ob)) = (lib_module h)(p := lib_module (\<lambda>_. ob) p)"
  "kern_function (h(p := ob)) = (kern_function h)(p := kern_function (\<lambda>_. ob) p)"
  "mip_parent (h(p := ob)) = (mip_parent h)(p := mip_parent (\<lambda>_. ob) p)"
  "mip_levels (h(p := ob)) = (mip_levels h)(p := mip_levels (\<lambda>_. ob) p)"
  "array_home (h(p := ob)) = (array_home h)(p := array_home (\<lambda>_. ob) p)"
  by (auto simp: lib_module_def kern_function_def mip_parent_def mip_levels_def array_home_def fun_eq_iff)

lemma inj_on_upd_notin: "p \<notin> A \<Longrightarrow> inj_on (f(p := v)) A = inj_on f A"
  by (rule inj_on_cong) auto

section \<open>The three sorts of steps\<close>

text \<open>Creating, changing or deleting an object that is not registered.\<close>

lemma hinv_write:
  assumes h: "hinv h R" and p: "\<And>k. p \<notin> R k"
  shows "hinv (h(p := ob)) R"
proof -
  have "R k \<subseteq> objs k (h(p := ob))" for k
    using h p [of k] by (fastforce simp: hinv_def objs_def)
  moreover have "levels_ok (h(p := ob)) (R KArray) m" if "m \<in> R KMipmap" for m
  proof -
    have "levels_ok h (R KArray) m" "m \<noteq> p" using h that p by (auto simp: hinv_def)
    then show ?thesis using p [of KArray] by (auto simp: levels_ok_def fun_upd_views)
  qed
  ultimately show ?thesis
    using h p [of KLibrary] p [of KKernel] p [of KMipmap]
    unfolding hinv_def fun_upd_views by (auto simp: inj_on_upd_notin)
qed

text \<open>Registering an object whose own references are in order.\<close>

lemma hinv_register:
  assumes h: "hinv h R" and p: "p \<in> objs k h"
    and l: "k = KLibrary \<Longrightarrow> lib_module h p \<in> R KModule \<and> lib_module h p \<notin> lib_module h ` R KLibrary"
    and f: "k = KKernel \<Longrightarrow> kern_function h p \<in> R KFunction \<and> kern_function h p \<notin> kern_function h ` R KKernel"
    and m: "k = KMipmap \<Longrightarrow> mip_parent h p \<in> R KExternal \<and> levels_ok h (R KArray) p"
  shows "hinv h (R(k := insert p (R k)))"
proof -
  note i = h [unfolded hinv_def]
  have "(R(k := insert p (R k))) k' \<subseteq> objs k' h" for k' using i p by auto
  moreover have "levels_ok h (insert p (R KArray)) q" if "levels_ok h (R KArray) q" for q
    using that by (auto simp: levels_ok_def)
  ultimately show ?thesis
    unfolding hinv_def using i l f m by (cases k) (auto simp: inj_on_insert)
qed

text \<open>Unregistering an object nothing registered refers to.\<close>

definition referenced :: "(ptr \<Rightarrow> object option) \<Rightarrow> (kind \<Rightarrow> ptr set) \<Rightarrow> kind \<Rightarrow> ptr \<Rightarrow> bool" where
  "referenced h R k p \<longleftrightarrow> (k = KModule \<and> p \<in> lib_module h ` R KLibrary)
     \<or> (k = KFunction \<and> p \<in> kern_function h ` R KKernel)
     \<or> (k = KExternal \<and> p \<in> mip_parent h ` R KMipmap)
     \<or> (k = KArray \<and> (\<exists>m \<in> R KMipmap. p \<in> set (mip_levels h m)))"

lemma hinv_unregister:
  assumes h: "hinv h R" and p: "\<not> referenced h R k p" and nz: "p \<noteq> 0"
  shows "hinv h (R(k := R k - {p}))"
proof -
  note i = h [unfolded hinv_def]
  have 1: "(R(k := R k - {p})) k' \<subseteq> objs k' h" for k' using i by auto
  have 2: "levels_ok h (R KArray - {p}) m" if "k = KArray" "m \<in> R KMipmap" for m
  proof -
    have "levels_ok h (R KArray) m" "p \<notin> set (mip_levels h m)" using i p that by (auto simp: referenced_def)
    then show ?thesis unfolding levels_ok_def by (metis Diff_iff nth_mem singletonD)
  qed
  show ?thesis
    unfolding hinv_def using i p 1 2 by (cases k) (auto simp: referenced_def intro: inj_on_subset)
qed

text \<open>An object of a kind nothing refers to is not referenced.\<close>

lemma not_referenced: "k \<notin> {KModule, KFunction, KExternal, KArray} \<Longrightarrow> \<not> referenced h R k p"
  by (auto simp: referenced_def)

end
