(* ===== verification/CudaHandleSteps.thy ===== *)
theory CudaHandleSteps
  imports CudaHandles
begin

text \<open>
  Every call on handles keeps the invariant of the registries and never uses or deletes a dead object, with
  one exception that the lemma on \<^verbatim>\<open>cuModuleUnload\<close> names: the module of a registered library.
\<close>

definition good :: "cuda \<Rightarrow> cuda \<Rightarrow> bool" where
  "good s s' \<longleftrightarrow> handles_ok s' \<and> undefined_behaviour s' = undefined_behaviour s"

lemma good_refl: "handles_ok s \<Longrightarrow> good s s"
  by (simp add: good_def)

lemma goodI:
  assumes "hinv (heap s') (registered s')" and "distinct (gKernels s')"
    and "undefined_behaviour s' = undefined_behaviour s"
  shows "good s s'"
  using assms by (simp add: good_def handles_ok_def)

lemma good_trans: "good s s1 \<Longrightarrow> good s1 s2 \<Longrightarrow> good s s2"
  by (simp add: good_def)

lemma good_ok: "good s s' \<Longrightarrow> handles_ok s'"
  by (simp add: good_def)

lemma good_cong:
  assumes "handles_ok s" and "heap s' = heap s" and "registered s' = registered s" and "gKernels s' = gKernels s"
    and "undefined_behaviour s' = undefined_behaviour s"
  shows "good s s'"
  using assms by (simp add: good_def handles_ok_def)

section \<open>Objects\<close>

lemma new_object_frame:
  assumes "new_object ob s = (r, s')"
  shows "registered s' = registered s" and "gKernels s' = gKernels s"
    and "undefined_behaviour s' = undefined_behaviour s"
  using assms by (auto simp: new_object_def registry_simps split: list.splits option.splits if_splits)

lemma new_object_None:
  assumes "handles_ok s" and "new_object ob s = (None, s')"
  shows "good s s'"
  using assms new_object_frame [OF assms(2)]
  by (intro good_cong) (auto simp: new_object_def split: list.splits option.splits if_splits)

lemma unregistered_fresh: "handles_ok s \<Longrightarrow> heap s p = None \<Longrightarrow> p \<notin> registered s k"
  using hinv_objs [of "heap s" "registered s" p k] by (auto simp: handles_ok_def)

lemma new_object_Some:
  assumes "handles_ok s" and "new_object ob s = (Some p, s')"
  shows "good s s'" and "p \<noteq> 0" and "heap s' = (heap s)(p \<mapsto> ob)" and "p \<notin> registered s k"
    and "heap s p = None"
proof -
  show p: "p \<noteq> 0" "heap s' = (heap s)(p \<mapsto> ob)" and fr: "heap s p = None"
    using assms(2) by (auto simp: new_object_def split: list.splits option.splits if_splits)
  show "p \<notin> registered s k" using unregistered_fresh [OF assms(1) fr] .
  have "hinv (heap s') (registered s')"
    unfolding p(2) new_object_frame(1) [OF assms(2)]
    by (rule hinv_write) (use assms(1) unregistered_fresh [OF assms(1) fr] in \<open>auto simp: handles_ok_def\<close>)
  then show "good s s'"
    using assms(1) new_object_frame [OF assms(2)] by (intro goodI) (simp_all add: handles_ok_def)
qed

lemma delete_object_ok:
  assumes "handles_ok s" and "\<And>k. p \<notin> registered s k" and "heap s p = Some ob" and "is_type ob" and "p \<noteq> 0"
  shows "good s (delete_object is_type p s)"
proof -
  have e: "delete_object is_type p s = s\<lparr>heap := (heap s)(p := None)\<rparr>"
    using assms by (simp add: delete_object_live)
  show ?thesis unfolding e
    by (rule goodI) (use assms hinv_write [of "heap s" "registered s" p None] in \<open>simp_all add: handles_ok_def registry_simps\<close>)
qed

lemma write_object_ok:
  assumes "handles_ok s" and "\<And>k. p \<notin> registered s k"
  shows "good s (write_object p ob s)"
  unfolding write_object_def
  by (rule goodI) (use assms hinv_write [of "heap s" "registered s" p "Some ob"] in \<open>simp_all add: handles_ok_def registry_simps\<close>)

text \<open>A registered handle is a live object of its kind.\<close>

lemma registered_live:
  assumes "handles_ok s" and "p \<in> registered s k"
  obtains ob where "heap s p = Some ob" and "kind_of ob = k" and "p \<noteq> 0"
  using hinv_objs [of "heap s" "registered s" p k] assms by (auto simp: handles_ok_def)

lemma kind_cases:
  "kind_of ob = KStream \<longleftrightarrow> (\<exists>x. ob = StreamObj x)" "kind_of ob = KEvent \<longleftrightarrow> (\<exists>x. ob = EventObj x)"
  "kind_of ob = KModule \<longleftrightarrow> (\<exists>x. ob = ModuleObj x)" "kind_of ob = KFunction \<longleftrightarrow> (\<exists>x. ob = FunctionObj x)"
  "kind_of ob = KLibrary \<longleftrightarrow> (\<exists>x. ob = LibraryObj x)" "kind_of ob = KKernel \<longleftrightarrow> (\<exists>x. ob = KernelObj x)"
  "kind_of ob = KArray \<longleftrightarrow> (\<exists>x. ob = ArrayObj x)" "kind_of ob = KExternal \<longleftrightarrow> (\<exists>x. ob = ExternalObj x)"
  "kind_of ob = KSemaphore \<longleftrightarrow> (\<exists>x. ob = SemaphoreObj x)" "kind_of ob = KMipmap \<longleftrightarrow> (\<exists>x. ob = MipmapObj x)"
  by (cases ob; simp)+

lemma handle_of:
  assumes "handles_ok s"
  shows "p \<in> set (gStreams s) \<Longrightarrow> \<exists>x. heap s p = Some (StreamObj x)"
    and "p \<in> set (gEvents s) \<Longrightarrow> \<exists>x. heap s p = Some (EventObj x)"
    and "p \<in> set (gModules s) \<Longrightarrow> \<exists>x. heap s p = Some (ModuleObj x)"
    and "p \<in> set (gFunctions s) \<Longrightarrow> \<exists>x. heap s p = Some (FunctionObj x)"
    and "p \<in> set (gLibraries s) \<Longrightarrow> \<exists>x. heap s p = Some (LibraryObj x)"
    and "p \<in> set (gKernels s) \<Longrightarrow> \<exists>x. heap s p = Some (KernelObj x)"
    and "p \<in> set (gArrays s) \<Longrightarrow> \<exists>x. heap s p = Some (ArrayObj x)"
    and "p \<in> set (gExternalMemories s) \<Longrightarrow> \<exists>x. heap s p = Some (ExternalObj x)"
    and "p \<in> set (gExternalSemaphores s) \<Longrightarrow> \<exists>x. heap s p = Some (SemaphoreObj x)"
    and "p \<in> set (gMipmappedArrays s) \<Longrightarrow> \<exists>x. heap s p = Some (MipmapObj x)"
  using hinv_objs [of "heap s" "registered s" p KStream] hinv_objs [of "heap s" "registered s" p KEvent]
    hinv_objs [of "heap s" "registered s" p KModule] hinv_objs [of "heap s" "registered s" p KFunction]
    hinv_objs [of "heap s" "registered s" p KLibrary] hinv_objs [of "heap s" "registered s" p KKernel]
    hinv_objs [of "heap s" "registered s" p KArray] hinv_objs [of "heap s" "registered s" p KExternal]
    hinv_objs [of "heap s" "registered s" p KSemaphore] hinv_objs [of "heap s" "registered s" p KMipmap]
    assms by (auto simp: handles_ok_def kind_cases)

lemma deref_run [prog_simps]:
  "heap s p = Some ob \<Longrightarrow> as_type ob = Some x \<Longrightarrow> deref as_type p r f s = f x s"
  by (simp add: deref_def)

lemmas as_type_defs = as_stream_def as_event_def as_library_def as_kernel_def as_external_def
  as_semaphore_def as_mipmap_def as_array_def

section \<open>Registering and unregistering\<close>

text \<open>The pattern of every creating call: a new object, then its registration.\<close>

lemma create_simple:
  assumes "handles_ok s" and "new_object ob s = (Some p, s1)" and "kind_of ob = k"
    and "k \<notin> {KLibrary, KKernel, KMipmap}"
  shows "hinv (heap s1) ((registered s1)(k := insert p (registered s1 k)))"
proof -
  note n = new_object_Some [OF assms(1,2)]
  have "hinv (heap s1) (registered s1)" using n(1) by (simp add: good_def handles_ok_def)
  then show ?thesis
    by (rule hinv_register) (use n(2,3) assms(3,4) in \<open>auto simp: objs_def\<close>)
qed

lemma create_ok:
  assumes ok: "handles_ok s" and k: "kind_of ob = k" "k \<notin> {KLibrary, KKernel, KMipmap}"
    and upd: "\<And>p s1. registered (upd p s1) = (registered s1)(k := insert p (registered s1 k))
        \<and> heap (upd p s1) = heap s1 \<and> gKernels (upd p s1) = gKernels s1
        \<and> undefined_behaviour (upd p s1) = undefined_behaviour s1"
  shows "good s (snd (case new_object ob s of (None, s1) \<Rightarrow> (a, s1) | (Some p, s1) \<Rightarrow> (b p, upd p s1)))"
proof (cases "new_object ob s")
  case (Pair r s1)
  show ?thesis
  proof (cases r)
    case None
    then show ?thesis using new_object_None [OF ok] Pair by simp
  next
    case (Some p)
    then have n: "new_object ob s = (Some p, s1)" using Pair by simp
    have "good s1 (upd p s1)"
      by (rule goodI) (use upd [of p s1] create_simple [OF ok n k] new_object_frame [OF n] ok in \<open>simp_all add: handles_ok_def\<close>)
    with new_object_Some(1) [OF ok n] have "good s (upd p s1)" by (rule good_trans)
    then show ?thesis using n by simp
  qed
qed

lemma rewrite_ok:
  assumes ok: "handles_ok s" and p: "p \<in> registered s k" and k: "kind_of ob = k" "k \<in> {KStream, KEvent}"
  shows "good s (write_object p ob s)"
proof -
  note h = ok [unfolded handles_ok_def hinv_def]
  have other: "p \<notin> registered s k'" if "k' \<noteq> k" for k'
    using hinv_kind [of "heap s" "registered s" p k k'] p that ok by (auto simp: handles_ok_def)
  have "hinv ((heap s)(p \<mapsto> ob)) (registered s)"
  proof -
    have "registered s k' \<subseteq> objs k' ((heap s)(p \<mapsto> ob))" for k'
    proof
      fix q assume q: "q \<in> registered s k'"
      show "q \<in> objs k' ((heap s)(p \<mapsto> ob))"
      proof (cases "q = p")
        case True
        then have "k' = k" using q other by blast
        moreover have "p \<noteq> 0" using registered_live [OF ok p] by blast
        ultimately show ?thesis using True k by (simp add: objs_def)
      next
        case False
        have "registered s k' \<subseteq> objs k' (heap s)" using h by blast
        then have "q \<in> objs k' (heap s)" using q by blast
        then show ?thesis using False by (simp add: objs_def)
      qed
    qed
    moreover have "levels_ok ((heap s)(p \<mapsto> ob)) (registered s KArray) m" if m: "m \<in> registered s KMipmap" for m
    proof -
      have "levels_ok (heap s) (registered s KArray) m" "m \<noteq> p" using h m k other [of KMipmap] by auto
      moreover have "p \<notin> registered s KArray" using k other [of KArray] by auto
      ultimately show ?thesis by (auto simp: levels_ok_def fun_upd_views)
    qed
    ultimately show ?thesis
      using h k other [of KLibrary] other [of KKernel] other [of KMipmap]
      unfolding hinv_def fun_upd_views by (auto simp: inj_on_upd_notin)
  qed
  then show ?thesis
    unfolding write_object_def using ok by (intro goodI) (simp_all add: registry_simps handles_ok_def)
qed

text \<open>The pattern of every destroying call: unregister a handle nothing refers to, then delete it.\<close>

lemma unregister_ok:
  assumes "handles_ok s" and "p \<in> registered s k" and "\<not> referenced (heap s) (registered s) k p"
    and "registered s' = (registered s)(k := registered s k - {p})" and "heap s' = heap s"
    and "undefined_behaviour s' = undefined_behaviour s" and "distinct (gKernels s')"
  shows "good s s'" and "\<And>k'. p \<notin> registered s' k'"
proof -
  have h: "hinv (heap s) (registered s)" using assms(1) by (simp add: handles_ok_def)
  have nz: "p \<noteq> 0" using hinv_objs [OF h assms(2)] by simp
  show "good s s'"
    using hinv_unregister [OF h assms(3) nz] assms(4-7) by (intro goodI) simp_all
  show "p \<notin> registered s' k'" for k'
    using hinv_kind [OF h assms(2), of k'] assms(4) by auto
qed

lemma destroy_ok:
  assumes "handles_ok s" and "p \<in> registered s k" and "\<not> referenced (heap s) (registered s) k p"
    and "registered s' = (registered s)(k := registered s k - {p})" and "heap s' = heap s"
    and "undefined_behaviour s' = undefined_behaviour s" and "distinct (gKernels s')"
    and "\<And>ob. kind_of ob = k \<Longrightarrow> is_type ob"
  shows "good s (delete_object is_type p s')"
proof -
  note u = unregister_ok [OF assms(1-7)]
  obtain ob where ob: "heap s p = Some ob" "kind_of ob = k" "p \<noteq> 0"
    using registered_live [OF assms(1,2)] by blast
  have "good s' (delete_object is_type p s')"
    by (rule delete_object_ok [of _ _ ob]) (use u ob assms(5,8) in \<open>auto simp: good_def\<close>)
  with u(1) show ?thesis by (rule good_trans)
qed

lemma distinct_gKernels: "handles_ok s \<Longrightarrow> distinct (gKernels s)"
  by (simp add: handles_ok_def)

section \<open>Streams and events\<close>

lemma good_create_stream: "handles_ok s \<Longrightarrow> good s (snd (cuStreamCreate out fl s))"
  by (auto simp: cuStreamCreate_def good_refl registry_simps intro!: create_ok [where k = KStream])

lemma cuStreamCreate_registers:
  "cuStreamCreate out fl s = ((CUDA_SUCCESS, q), s') \<Longrightarrow> \<exists>p. q = Some p \<and> p \<in> set (gStreams s')"
  by (auto simp: cuStreamCreate_def split: if_splits prod.splits option.splits)

lemma good_streams:
  assumes ok: "handles_ok s"
  shows "good s (snd (cuStreamCreateWithPriority out fl prio s))"
    and "good s (snd (cuStreamDestroy p s))" and "good s (snd (cuStreamQuery p s))"
proof -
  obtain r s1 where c: "cuStreamCreate out fl s = (r, s1)" by fastforce
  have g: "good s s1" using good_create_stream [OF ok, of out fl] c by simp
  show "good s (snd (cuStreamCreateWithPriority out fl prio s))"
  proof (cases "fst r = CUDA_SUCCESS")
    case True
    then obtain p where r: "r = (CUDA_SUCCESS, Some p)" and p: "p \<in> set (gStreams s1)"
      using cuStreamCreate_registers [of out fl s "snd r" s1] c by (cases r) auto
    obtain x where x: "heap s1 p = Some (StreamObj x)" using handle_of(1) [OF good_ok [OF g] p] by blast
    have "good s1 (write_object p (StreamObj (x\<lparr>priority := prio\<rparr>)) s1)"
      by (rule rewrite_ok [of _ _ KStream]) (use good_ok [OF g] p in simp_all)
    then show ?thesis using good_trans [OF g] c r x
      by (simp add: cuStreamCreateWithPriority_def prog_simps as_type_defs)
  next
    case False
    then have "cuStreamCreateWithPriority out fl prio s = (r, s1)"
      using c by (cases r; cases "fst r") (simp_all add: cuStreamCreateWithPriority_def)
    then show ?thesis using g by simp
  qed
  show "good s (snd (cuStreamDestroy p s))"
  proof -
    have "good s (delete_object is_stream p (s\<lparr>gStreams := set_erase p (gStreams s)\<rparr>))" if "p \<in> set (gStreams s)"
      by (rule destroy_ok [OF ok, of p KStream])
        (use that ok in \<open>auto simp: registry_simps not_referenced kind_cases distinct_gKernels\<close>)
    then show ?thesis using ok by (simp add: cuStreamDestroy_def good_refl)
  qed
  show "good s (snd (cuStreamQuery p s))"
    using ok by (simp add: cuStreamQuery_def good_refl)
qed

lemma record_event_ok:
  assumes ok: "handles_ok s" and p: "p \<in> set (gEvents s)"
  shows "good s (snd (deref as_event p CUDA_SUCCESS (\<lambda>x s1. (CUDA_SUCCESS, write_object p (EventObj (x\<lparr>recorded := True\<rparr>)) s1)) s))"
proof -
  obtain x where x: "heap s p = Some (EventObj x)" using handle_of(2) [OF ok p] by blast
  show ?thesis using rewrite_ok [OF ok, of p KEvent] p x by (simp add: prog_simps as_type_defs)
qed

lemma good_events:
  assumes ok: "handles_ok s"
  shows "good s (snd (cuEventCreate out fl s))" and "good s (snd (cuEventRecord p q s))"
    and "good s (snd (cuEventQuery p s))" and "good s (snd (cuEventSynchronize p s))"
    and "good s (snd (cuEventDestroy p s))" and "good s (snd (cuStreamWaitEvent q p fl s))"
proof -
  show "good s (snd (cuEventCreate out fl s))"
    using ok by (auto simp: cuEventCreate_def good_refl registry_simps intro!: create_ok [where k = KEvent])
  show "good s (snd (cuEventRecord p q s))"
    using record_event_ok [OF ok] ok by (simp add: cuEventRecord_def good_refl)
  show sync: "good s (snd (cuEventSynchronize p s))"
    using record_event_ok [OF ok] ok by (simp add: cuEventSynchronize_def good_refl)
  show "good s (snd (cuStreamWaitEvent q p fl s))"
    using sync ok by (simp add: cuStreamWaitEvent_def good_refl)
  show "good s (snd (cuEventQuery p s))"
    using handle_of(2) [OF ok, of p] ok by (auto simp: cuEventQuery_def good_refl prog_simps as_type_defs)
  show "good s (snd (cuEventDestroy p s))"
  proof -
    have "good s (delete_object is_event p (s\<lparr>gEvents := set_erase p (gEvents s)\<rparr>))" if "p \<in> set (gEvents s)"
      by (rule destroy_ok [OF ok, of p KEvent])
        (use that ok in \<open>auto simp: registry_simps not_referenced kind_cases distinct_gKernels\<close>)
    then show ?thesis using ok by (simp add: cuEventDestroy_def good_refl)
  qed
qed

section \<open>Modules and functions\<close>

lemma good_loadModuleToken: "handles_ok s \<Longrightarrow> good s (snd (loadModuleToken out img s))"
  by (auto simp: loadModuleToken_def good_refl registry_simps intro!: create_ok [where k = KModule])

lemma loadModuleToken_registers:
  assumes "handles_ok s" and "loadModuleToken out img s = ((CUDA_SUCCESS, q), s')"
  shows "\<exists>p. q = Some p \<and> p \<in> set (gModules s') \<and> p \<notin> registered s k \<and> heap s p = None
    \<and> gLibraries s' = gLibraries s \<and> heap s' = (heap s)(p \<mapsto> ModuleObj \<lparr>image_of = img\<rparr>)"
proof -
  from assms(2) obtain p s1 where n: "new_object (ModuleObj \<lparr>image_of = img\<rparr>) s = (Some p, s1)"
    and q: "q = Some p" "s' = s1\<lparr>gModules := set_insert p (gModules s1)\<rparr>"
    by (auto simp: loadModuleToken_def split: if_splits prod.splits option.splits)
  have "gLibraries s1 = gLibraries s"
    using fun_cong [OF new_object_frame(1) [OF n], of KLibrary] n
    by (auto simp: new_object_def split: list.splits option.splits if_splits)
  then show ?thesis using new_object_Some [OF assms(1) n] q by simp
qed

lemma good_modules:
  assumes ok: "handles_ok s"
  shows "good s (snd (cuModuleGetFunction out m name s))" and "good s (snd (cuLaunchKernel f s))"
    and "good s (snd (cudartGetModuleFromCubinExt1 out img a b c s))"
    and "good s (snd (cudartGetModuleFromCubinExt2 img out a b c s))"
proof -
  show "good s (snd (cuModuleGetFunction out m name s))"
    using ok by (auto simp: cuModuleGetFunction_def good_refl registry_simps intro!: create_ok [where k = KFunction])
  show "good s (snd (cuLaunchKernel f s))" using ok by (simp add: cuLaunchKernel_def good_refl)
  show "good s (snd (cudartGetModuleFromCubinExt1 out img a b c s))"
    using ok good_loadModuleToken by (simp add: cudartGetModuleFromCubinExt1_def good_refl)
  show "good s (snd (cudartGetModuleFromCubinExt2 img out a b c s))"
    using ok good_loadModuleToken by (simp add: cudartGetModuleFromCubinExt2_def good_refl)
qed

text \<open>Unloading a module that no registered library holds.\<close>

lemma good_cuModuleUnload:
  assumes ok: "handles_ok s" and free: "m \<notin> lib_module (heap s) ` set (gLibraries s)"
  shows "good s (snd (cuModuleUnload m s))"
proof -
  have "good s (delete_object is_module m (s\<lparr>gModules := set_erase m (gModules s)\<rparr>))" if "m \<in> set (gModules s)"
    by (rule destroy_ok [OF ok, of m KModule])
      (use that ok free in \<open>auto simp: registry_simps referenced_def kind_cases distinct_gKernels\<close>)
  then show ?thesis using ok by (simp add: cuModuleUnload_def good_refl)
qed

end
