(* ===== verification/CudaLibrarySteps.thy ===== *)
theory CudaLibrarySteps
  imports CudaHandleSteps
begin

text \<open>
  Libraries and kernels keep the invariant of the registries. A library owns its module, a kernel its
  function; unloading a library deletes its kernels, their functions and the module.
\<close>

lemma lib_module_registered:
  "handles_ok s \<Longrightarrow> l \<in> set (gLibraries s) \<Longrightarrow> lib_module (heap s) l \<in> set (gModules s)"
  by (auto simp: handles_ok_def hinv_def dest: spec)

lemma kern_function_registered:
  "handles_ok s \<Longrightarrow> k \<in> set (gKernels s) \<Longrightarrow> kern_function (heap s) k \<in> set (gFunctions s)"
  by (auto simp: handles_ok_def hinv_def dest: spec)

lemma lib_module_at: "heap s l = Some (LibraryObj x) \<Longrightarrow> lib_module (heap s) l = library_module x"
  by (simp add: lib_module_def)

lemma kern_function_at: "heap s k = Some (KernelObj x) \<Longrightarrow> kern_function (heap s) k = kernel_function x"
  by (simp add: kern_function_def)

lemma new_library_ok:
  assumes ok: "handles_ok s" and m: "m \<in> set (gModules s)" "m \<notin> lib_module (heap s) ` set (gLibraries s)"
    and n: "new_object (LibraryObj \<lparr>library_module = m\<rparr>) s = (Some l, s2)"
  shows "good s (s2\<lparr>gLibraries := set_insert l (gLibraries s2)\<rparr>)"
proof -
  note f = new_object_frame [OF n] and o = new_object_Some [OF ok n]
  have libs: "gLibraries s2 = gLibraries s" and mods: "gModules s2 = gModules s"
    using n by (auto simp: new_object_def split: list.splits option.splits if_splits)
  have "hinv (heap s2) (registered s2)" using o(1) by (simp add: good_def handles_ok_def)
  then have "hinv (heap s2) ((registered s2)(KLibrary := insert l (registered s2 KLibrary)))"
  proof (rule hinv_register)
    show "l \<in> objs KLibrary (heap s2)" using o(2,3) by (simp add: objs_def)
    have 1: "lib_module (heap s2) l = m" by (simp add: o(3) lib_module_def)
    have "lib_module (heap s2) q = lib_module (heap s) q" if "q \<in> set (gLibraries s)" for q
      using o(4) [of KLibrary] that by (auto simp: o(3) fun_upd_views)
    then show "lib_module (heap s2) l \<in> registered s2 KModule
        \<and> lib_module (heap s2) l \<notin> lib_module (heap s2) ` registered s2 KLibrary"
      using m 1 by (simp add: libs mods)
  qed simp_all
  then show ?thesis using f ok libs by (intro goodI) (simp_all add: registry_simps handles_ok_def)
qed

lemma loadLibraryToken_ok:
  assumes ok: "handles_ok s"
  shows "good s (snd (loadLibraryToken out img s))"
proof (cases "\<not> out \<or> img = 0")
  case True
  then show ?thesis using ok by (auto simp: loadLibraryToken_def good_refl)
next
  case False
  obtain r q s1 where c: "loadModuleToken True img s = ((r, q), s1)" by (metis prod.exhaust)
  have g: "good s s1" using good_loadModuleToken [OF ok, of True img] c by simp
  show ?thesis
  proof (cases "r = CUDA_SUCCESS")
    case False
    then have "snd (loadLibraryToken out img s) = s1"
      using c \<open>\<not> (\<not> out \<or> img = 0)\<close> by (cases r) (simp_all add: loadLibraryToken_def)
    then show ?thesis using g by simp
  next
    case True
    note reg = loadModuleToken_registers [OF ok c [unfolded True]]
    then obtain m where m: "q = Some m" "m \<in> set (gModules s1)" "heap s m = None"
      "gLibraries s1 = gLibraries s" "heap s1 = (heap s)(m \<mapsto> ModuleObj \<lparr>image_of = img\<rparr>)" by blast
    have libs: "lib_module (heap s1) q \<noteq> m \<and> q \<noteq> m" if "q \<in> set (gLibraries s)" for q
    proof -
      have "m \<notin> set (gLibraries s) \<and> m \<notin> set (gModules s)"
        using unregistered_fresh [OF ok m(3), of KLibrary] unregistered_fresh [OF ok m(3), of KModule] by simp
      then show ?thesis
        using lib_module_registered [OF ok that] that by (auto simp: m(5) fun_upd_views)
    qed
    then have m2: "m \<notin> lib_module (heap s1) ` set (gLibraries s1)" by (auto simp: m(4))
    obtain r2 s2 where n: "new_object (LibraryObj \<lparr>library_module = m\<rparr>) s1 = (r2, s2)" by fastforce
    show ?thesis
    proof (cases r2)
      case (Some l)
      have "good s1 (s2\<lparr>gLibraries := set_insert l (gLibraries s2)\<rparr>)"
        by (rule new_library_ok [OF good_ok [OF g] m(2) m2]) (use n Some in simp)
      then show ?thesis using good_trans [OF g] False n Some c m(1) True
        by (simp add: loadLibraryToken_def)
    next
      case None
      have g2: "good s1 s2" by (rule new_object_None [OF good_ok [OF g]]) (use n None in simp)
      have same: "heap s2 = heap s1" "registered s2 = registered s1"
        using n None new_object_frame [OF n]
        by (auto simp: new_object_def split: list.splits option.splits if_splits)
      have "m \<notin> lib_module (heap s2) ` registered s2 KLibrary" using m2 by (simp add: same)
      moreover have "m \<in> registered s2 KModule" using m(2) by (simp add: same)
      ultimately have "good s2 (delete_object is_module m (s2\<lparr>gModules := set_erase m (gModules s2)\<rparr>))"
        by (intro destroy_ok [OF good_ok [OF g2], of m KModule])
          (use distinct_gKernels [OF good_ok [OF g2]] in \<open>auto simp: registry_simps referenced_def kind_cases\<close>)
      then show ?thesis using good_trans [OF good_trans [OF g g2]] False n None c m(1) True
        by (simp add: loadLibraryToken_def)
    qed
  qed
qed

lemma good_libraries:
  assumes ok: "handles_ok s"
  shows "good s (snd (cuLibraryLoadData out code a b c d e f s))"
    and "good s (snd (cuLibraryLoadFromFile out code a b c d e f s))"
    and "good s (snd (cuLibraryGetModule out l s))"
proof -
  show 1: "good s (snd (cuLibraryLoadData out code a b c d e f s))"
    using ok loadLibraryToken_ok [OF ok] by (simp add: cuLibraryLoadData_def good_refl)
  then show "good s (snd (cuLibraryLoadFromFile out code a b c d e f s))" by (simp add: cuLibraryLoadFromFile_def)
  show "good s (snd (cuLibraryGetModule out l s))"
    using handle_of(5) [OF ok, of l] ok by (auto simp: cuLibraryGetModule_def good_refl prog_simps as_type_defs)
qed

section \<open>Kernels\<close>

lemma new_kernel_ok:
  assumes ok: "handles_ok s" and l: "l \<in> set (gLibraries s)"
    and n1: "new_object (FunctionObj fo) s = (Some f, s1)"
    and n2: "new_object (KernelObj \<lparr>kernel_library = l, kernel_function = f, kernel_name = nm\<rparr>) s1 = (Some k, s2)"
  shows "good s (s2\<lparr>gFunctions := set_insert f (gFunctions s2), gKernels := set_insert k (gKernels s2)\<rparr>)"
proof -
  note o1 = new_object_Some [OF ok n1] and f1 = new_object_frame [OF n1]
  note o2 = new_object_Some [OF good_ok [OF o1(1)] n2] and f2 = new_object_frame [OF n2]
  have ne: "k \<noteq> f" using o2(5) o1(3) by auto
  let ?R = "registered s2" and ?h = "heap s2"
  have R: "?R = registered s" using f1 f2 by simp
  have h: "hinv ?h ?R" using o2(1) by (simp add: good_def handles_ok_def)
  have h1: "hinv ?h (?R(KFunction := insert f (?R KFunction)))"
    by (rule hinv_register [OF h]) (use o1 o2 ne in \<open>auto simp: objs_def\<close>)
  have kf: "kern_function ?h k = f" by (simp add: o2(3) kern_function_def)
  have other: "kern_function ?h q \<noteq> f" if "q \<in> registered s KKernel" for q
  proof -
    have "q \<noteq> k" "q \<noteq> f" using that o2(4) [of KKernel] o1(4) [of KKernel] f1 by auto
    then have "kern_function ?h q = kern_function (heap s) q" by (simp add: o2(3) o1(3) fun_upd_views)
    moreover have "kern_function (heap s) q \<in> registered s KFunction"
      using kern_function_registered [OF ok, of q] that by simp
    ultimately show ?thesis using o1(4) [of KFunction] by auto
  qed
  have h2: "hinv ?h ((?R(KFunction := insert f (?R KFunction)))(KKernel := insert k ((?R(KFunction := insert f (?R KFunction))) KKernel)))"
  proof (rule hinv_register [OF h1])
    show "k \<in> objs KKernel ?h" using o2 by (simp add: objs_def)
    have "f \<notin> kern_function ?h ` registered s KKernel" using other by blast
    then show "kern_function ?h k \<in> (?R(KFunction := insert f (?R KFunction))) KFunction
        \<and> kern_function ?h k \<notin> kern_function ?h ` (?R(KFunction := insert f (?R KFunction))) KKernel"
      by (simp only: kf R fun_upd_apply kind.distinct if_True if_False insertI1 simp_thms)
  qed simp_all
  let ?s' = "s2\<lparr>gFunctions := set_insert f (gFunctions s2), gKernels := set_insert k (gKernels s2)\<rparr>"
  have reg: "registered ?s' = (?R(KFunction := insert f (?R KFunction)))(KKernel := insert k ((?R(KFunction := insert f (?R KFunction))) KKernel))"
    and hp: "heap ?s' = heap s2"
    by (simp_all add: registry_simps)
  show ?thesis
  proof (rule goodI)
    show "hinv (heap ?s') (registered ?s')" unfolding reg hp by (rule h2)
    show "distinct (gKernels ?s')" using f1 f2 distinct_gKernels [OF ok] by (simp add: distinct_set_insert)
    show "undefined_behaviour ?s' = undefined_behaviour s" using f1 f2 by simp
  qed
qed

lemma good_cuLibraryGetKernel:
  assumes ok: "handles_ok s"
  shows "good s (snd (cuLibraryGetKernel out l name s))"
proof (cases "name = None \<or> \<not> out \<or> l = 0 \<or> l \<notin> set (gLibraries s)")
  case True
  then show ?thesis using ok by (cases name) (auto simp: cuLibraryGetKernel_def good_refl)
next
  case False
  then obtain nm where nm: "name = Some nm" and l: "l \<in> set (gLibraries s)" by auto
  obtain x where x: "heap s l = Some (LibraryObj x)" using handle_of(5) [OF ok l] by blast
  have mreg: "library_module x \<in> set (gModules s)"
    using lib_module_registered [OF ok l] lib_module_at [OF x] by simp
  let ?fo = "\<lparr>function_module = library_module x\<rparr>"
  obtain r1 s1 where n1: "new_object (FunctionObj ?fo) s = (r1, s1)" by fastforce
  show ?thesis
  proof (cases r1)
    case None
    then have "good s s1" using new_object_None [OF ok] n1 by simp
    then show ?thesis using None n1 False nm x mreg
      by (simp add: cuLibraryGetKernel_def prog_simps as_type_defs)
  next
    case (Some f)
    then have n1': "new_object (FunctionObj ?fo) s = (Some f, s1)" using n1 by simp
    note o1 = new_object_Some [OF ok n1']
    let ?ko = "\<lparr>kernel_library = l, kernel_function = f, kernel_name = nm\<rparr>"
    obtain r2 s2 where n2: "new_object (KernelObj ?ko) s1 = (r2, s2)" by fastforce
    show ?thesis
    proof (cases r2)
      case None
      have g2: "good s1 s2" by (rule new_object_None [OF good_ok [OF o1(1)]]) (use n2 None in simp)
      have same: "heap s2 = heap s1" "registered s2 = registered s"
        using n2 None new_object_frame [OF n2] new_object_frame [OF n1']
        by (auto simp: new_object_def split: list.splits option.splits if_splits)
      have "good s2 (delete_object is_function f s2)"
        by (rule delete_object_ok [OF good_ok [OF g2], of _ "FunctionObj ?fo"]) (use o1 same in auto)
      then show ?thesis using good_trans [OF good_trans [OF o1(1) g2]] False n1' n2 None nm x mreg
        by (simp add: cuLibraryGetKernel_def prog_simps as_type_defs)
    next
      case (Some k)
      have "good s (s2\<lparr>gFunctions := set_insert f (gFunctions s2), gKernels := set_insert k (gKernels s2)\<rparr>)"
        by (rule new_kernel_ok [OF ok l n1']) (use n2 Some in simp)
      then show ?thesis using False n1' n2 Some nm x mreg
        by (simp add: cuLibraryGetKernel_def prog_simps as_type_defs)
    qed
  qed
qed

lemma good_kernels:
  assumes ok: "handles_ok s"
  shows "good s (snd (cuKernelGetFunction out k s))" and "good s (snd (cuKernelGetName out k s))"
    and "good s (snd (cuKernelGetAttribute out a k d s))" and "good s (snd (cuKernelSetAttribute a v k d s))"
    and "good s (snd (cuKernelSetCacheConfig k a d s))"
  using handle_of(6) [OF ok, of k] ok
  by (auto simp: cuKernelGetFunction_def cuKernelGetName_def cuKernelGetAttribute_def cuKernelSetAttribute_def
      cuKernelSetCacheConfig_def good_refl prog_simps as_type_defs)

section \<open>Unloading a library\<close>

text \<open>One kernel of the library and its function.\<close>

lemma unload_one_ok:
  assumes ok: "handles_ok s" and k: "k \<in> set (gKernels s)" and x: "heap s k = Some (KernelObj x)"
  defines "f \<equiv> kernel_function x"
  defines "s' \<equiv> s\<lparr>gFunctions := set_erase f (gFunctions s), heap := (heap s)(f := None, k := None),
                  gKernels := set_erase k (gKernels s)\<rparr>"
  shows "delete_object is_kernel k
      (let s2 = delete_object is_function f (s\<lparr>gFunctions := set_erase f (gFunctions s)\<rparr>)
       in s2\<lparr>gKernels := set_erase k (gKernels s2)\<rparr>) = s'"
    and "good s s'"
proof -
  have fr: "f \<in> set (gFunctions s)" using kern_function_registered [OF ok k] kern_function_at [OF x] by (simp add: f_def)
  obtain y where y: "heap s f = Some (FunctionObj y)" using handle_of(4) [OF ok fr] by blast
  have nz: "f \<noteq> 0" "k \<noteq> 0" using registered_live [OF ok, of f KFunction] registered_live [OF ok, of k KKernel] fr k by auto
  have ne: "f \<noteq> k" using x y by auto
  show "delete_object is_kernel k
      (let s2 = delete_object is_function f (s\<lparr>gFunctions := set_erase f (gFunctions s)\<rparr>)
       in s2\<lparr>gKernels := set_erase k (gKernels s2)\<rparr>) = s'"
    using x y nz ne by (simp add: delete_object_def s'_def Let_def)
  let ?R = "registered s" and ?h = "heap s"
  have h: "hinv ?h ?R" using ok by (simp add: handles_ok_def)
  have kfx: "kern_function ?h k = f" using kern_function_at [OF x] by (simp add: f_def)
  have inj: "inj_on (kern_function ?h) (?R KKernel)" using h by (simp add: hinv_def)
  let ?R1 = "?R(KKernel := ?R KKernel - {k})"
  have h1: "hinv ?h ?R1" by (rule hinv_unregister [OF h]) (use nz in \<open>simp_all add: not_referenced\<close>)
  let ?R2 = "?R1(KFunction := ?R1 KFunction - {f})"
  have "hinv ?h ?R2"
    by (rule hinv_unregister [OF h1])
      (use nz inj kfx k in \<open>auto simp: referenced_def inj_on_def\<close>)
  moreover have "f \<notin> ?R2 kk" "k \<notin> ?R2 kk" for kk
    using hinv_kind [OF h, of f KFunction kk] hinv_kind [OF h, of k KKernel kk] fr k by auto
  ultimately have "hinv (?h(f := None, k := None)) ?R2"
    by (intro hinv_write)
  then show "good s s'"
    unfolding s'_def using ok
    by (intro goodI) (auto simp: registry_simps handles_ok_def fun_upd_twist)
qed

lemma unload_kernels_ok:
  "handles_ok s \<Longrightarrow> set ks \<subseteq> set (gKernels s) \<Longrightarrow> distinct ks \<Longrightarrow>
     good s (unload_kernels l ks s) \<and> gLibraries (unload_kernels l ks s) = gLibraries s
     \<and> (\<forall>p \<in> set (gLibraries s). heap (unload_kernels l ks s) p = heap s p)"
proof (induction ks arbitrary: s)
  case Nil
  then show ?case by (simp add: good_refl)
next
  case (Cons k ks)
  have k: "k \<in> set (gKernels s)" using Cons.prems by simp
  obtain x where x: "heap s k = Some (KernelObj x)" using handle_of(6) [OF Cons.prems(1) k] by blast
  show ?case
  proof (cases "kernel_library x = l")
    case False
    then show ?thesis using Cons x by simp
  next
    case True
    let ?f = "kernel_function x"
    let ?s = "s\<lparr>gFunctions := set_erase ?f (gFunctions s), heap := (heap s)(?f := None, k := None),
                gKernels := set_erase k (gKernels s)\<rparr>"
    note one = unload_one_ok [OF Cons.prems(1) k x]
    have e: "unload_kernels l (k # ks) s = unload_kernels l ks ?s"
      using x True one(1) by (simp add: Let_def)
    have libs: "heap ?s p = heap s p" if "p \<in> set (gLibraries s)" for p
    proof -
      have "hinv (heap s) (registered s)" using Cons.prems(1) by (simp add: handles_ok_def)
      from hinv_kind [OF this, of p KLibrary KKernel] hinv_kind [OF this, of p KLibrary KFunction] that k
        kern_function_registered [OF Cons.prems(1) k] kern_function_at [OF x]
      have "p \<noteq> k" "p \<noteq> ?f" by auto
      then show ?thesis by simp
    qed
    have "set ks \<subseteq> set (gKernels ?s)" using Cons.prems(2,3) by auto
    from Cons.IH [OF good_ok [OF one(2)] this] Cons.prems(3) libs show ?thesis
      unfolding e using good_trans [OF one(2)] by simp
  qed
qed

lemma unload_library_ok:
  assumes ok: "handles_ok s" and l: "l \<in> set (gLibraries s)" and x: "heap s l = Some (LibraryObj x)"
  defines "m \<equiv> library_module x"
  defines "s' \<equiv> s\<lparr>gModules := set_erase m (gModules s), gLibraries := set_erase l (gLibraries s),
                 heap := (heap s)(m := None, l := None)\<rparr>"
  shows "delete_object is_library l (delete_object is_module m
      (s\<lparr>gModules := set_erase m (gModules s), gLibraries := set_erase l (gLibraries s)\<rparr>)) = s'"
    and "good s s'"
proof -
  have m: "m \<in> set (gModules s)" and lm: "lib_module (heap s) l = m"
    using lib_module_registered [OF ok l] lib_module_at [OF x] by (simp_all add: m_def)
  obtain y where y: "heap s m = Some (ModuleObj y)" using handle_of(3) [OF ok m] by blast
  have nz: "m \<noteq> 0" "l \<noteq> 0" using registered_live [OF ok, of m KModule] registered_live [OF ok, of l KLibrary] m l by auto
  have ne: "m \<noteq> l" using x y by auto
  show "delete_object is_library l (delete_object is_module m
      (s\<lparr>gModules := set_erase m (gModules s), gLibraries := set_erase l (gLibraries s)\<rparr>)) = s'"
    using x y nz ne by (simp add: delete_object_def s'_def)
  let ?R = "registered s" and ?h = "heap s"
  have h: "hinv ?h ?R" using ok by (simp add: handles_ok_def)
  have inj: "inj_on (lib_module ?h) (?R KLibrary)" using h by (simp add: hinv_def)
  let ?R1 = "?R(KLibrary := ?R KLibrary - {l})"
  have h1: "hinv ?h ?R1" by (rule hinv_unregister [OF h]) (use nz in \<open>simp_all add: not_referenced\<close>)
  let ?R2 = "?R1(KModule := ?R1 KModule - {m})"
  have "hinv ?h ?R2"
    by (rule hinv_unregister [OF h1])
      (use nz inj lm l in \<open>auto simp: referenced_def inj_on_def\<close>)
  moreover have "m \<notin> ?R2 kk" "l \<notin> ?R2 kk" for kk
    using hinv_kind [OF h, of m KModule kk] hinv_kind [OF h, of l KLibrary kk] m l by auto
  ultimately have "hinv (?h(m := None, l := None)) ?R2"
    by (intro hinv_write)
  then show "good s s'"
    unfolding s'_def using ok
    by (intro goodI) (auto simp: registry_simps handles_ok_def fun_upd_twist)
qed

lemma good_cuLibraryUnload:
  assumes ok: "handles_ok s"
  shows "good s (snd (cuLibraryUnload l s))"
proof (cases "l = 0 \<or> l \<notin> set (gLibraries s)")
  case True
  then show ?thesis using ok by (auto simp: cuLibraryUnload_def good_refl)
next
  case False
  then have l: "l \<in> set (gLibraries s)" by auto
  obtain s1 where s1: "unload_kernels l (gKernels s) s = s1" by blast
  have u: "good s s1" "gLibraries s1 = gLibraries s"
    using unload_kernels_ok [OF ok, of "gKernels s" l] distinct_gKernels [OF ok] by (auto simp: s1)
  have l1: "l \<in> set (gLibraries s1)" using l u(2) by simp
  obtain x where x: "heap s1 l = Some (LibraryObj x)" using handle_of(5) [OF good_ok [OF u(1)] l1] by blast
  note t = unload_library_ok [OF good_ok [OF u(1)] l1 x]
  have "snd (cuLibraryUnload l s) = s1\<lparr>gModules := set_erase (library_module x) (gModules s1),
      gLibraries := set_erase l (gLibraries s1), heap := (heap s1)(library_module x := None, l := None)\<rparr>"
    using False by (simp add: cuLibraryUnload_def s1 deref_run [OF x] as_library_def t(1))
  then show ?thesis using good_trans [OF u(1) t(2)] by simp
qed

end
