(* ===== verification/CudaArraySteps.thy ===== *)
theory CudaArraySteps
  imports CudaLibrarySteps
begin

text \<open>
  External memory, mipmapped arrays, arrays and external semaphores keep the invariant of the registries.
  A mipmap refers to its memory, which therefore cannot be destroyed, and to its level arrays, which
  clear their entry when they are destroyed first.
\<close>

lemma mip_at: "heap s m = Some (MipmapObj x) \<Longrightarrow> mip_levels (heap s) m = levels x \<and> mip_parent (heap s) m = mip_memory x"
  by (simp add: mip_levels_def mip_parent_def)

lemma array_at: "heap s a = Some (ArrayObj x) \<Longrightarrow> array_home (heap s) a = Some (array_mipmap x, array_level x)"
  by (simp add: array_home_def)

lemma mip_levels_ok:
  "handles_ok s \<Longrightarrow> m \<in> set (gMipmappedArrays s) \<Longrightarrow> levels_ok (heap s) (set (gArrays s)) m"
  by (auto simp: handles_ok_def hinv_def)

section \<open>External memory and semaphores\<close>

lemma good_memory_frame:
  assumes "handles_ok s"
  shows "good s (mmap_file p sz f off s)" and "good s (munmap p sz s)" and "good s (mmap_none p sz s)"
    and "good s (close_fd d s)" and "good s (write_file f off bs s)"
  by (rule good_cong [OF assms]; simp add: mmap_file_def munmap_def mmap_none_def close_fd_def log_call_def
      map_range_def write_file_def registry_simps)+

lemma good_import:
  assumes ok: "handles_ok s"
  shows "good s (snd (cuImportExternalMemory out descr fstat mmap s))"
proof (cases "\<exists>d st m f. descr = Some d \<and> fstat = Some st \<and> mmap = Some m \<and> fdTable s (memory_handle_fd d) = Some f")
  case False
  then show ?thesis using ok
    by (auto simp: cuImportExternalMemory_def good_refl split: option.splits)
next
  case True
  then obtain d st m f where c: "descr = Some d" "fstat = Some st" "mmap = Some m"
    "fdTable s (memory_handle_fd d) = Some f" by blast
  let ?s0 = "mmap_file m (memory_handle_size d) f 0 s"
  let ?ob = "ExternalObj \<lparr>memory_fd = memory_handle_fd d, memory_size = memory_handle_size d, memory_mapping = Some m\<rparr>"
  have g0: "good s ?s0" by (rule good_memory_frame [OF ok])
  obtain r s1 where n: "new_object ?ob ?s0 = (r, s1)" by fastforce
  have "good ?s0 (snd (case new_object ?ob ?s0 of
      (None, s1) \<Rightarrow> ((CUDA_ERROR_OUT_OF_MEMORY, None), munmap m (memory_handle_size d) s1)
    | (Some state, s1) \<Rightarrow> ((CUDA_SUCCESS, Some state), s1\<lparr>gExternalMemories := set_insert state (gExternalMemories s1)\<rparr>)))"
  proof (cases r)
    case None
    have "good ?s0 s1" by (rule new_object_None [OF good_ok [OF g0]]) (use n None in simp)
    then show ?thesis using n None good_trans good_memory_frame(2) [OF good_ok] by simp
  next
    case (Some p)
    have "good ?s0 (snd (case new_object ?ob ?s0 of (None, s1) \<Rightarrow> ((CUDA_ERROR_OUT_OF_MEMORY, None), s1)
      | (Some p, s1) \<Rightarrow> ((CUDA_SUCCESS, Some p), s1\<lparr>gExternalMemories := set_insert p (gExternalMemories s1)\<rparr>)))"
      by (rule create_ok [where k = KExternal, OF good_ok [OF g0]]) (simp_all add: registry_simps)
    then show ?thesis using n Some by simp
  qed
  then show ?thesis
    using ok c good_trans [OF g0]
    by (simp add: cuImportExternalMemory_def good_refl Let_def)
qed

lemma good_mapped_buffer:
  assumes ok: "handles_ok s"
  shows "good s (snd (cuExternalMemoryGetMappedBuffer out e descr s))"
proof -
  have g: "good s (s\<lparr>gDeviceAllocations := a, gExternalDevicePointers := b\<rparr>)" for a b
    by (rule good_cong [OF ok]) (simp_all add: registry_simps)
  show ?thesis using handle_of(8) [OF ok, of e] ok g
    by (auto simp: cuExternalMemoryGetMappedBuffer_def good_refl prog_simps as_type_defs Let_def split: option.split)
qed

lemma some_mipmap_of_run:
  "handles_ok s \<Longrightarrow> set ms \<subseteq> set (gMipmappedArrays s) \<Longrightarrow>
     some_mipmap_of e ms s = (e \<in> mip_parent (heap s) ` set ms, s)"
proof (induction ms)
  case (Cons m ms)
  obtain x where x: "heap s m = Some (MipmapObj x)" using handle_of(10) [OF Cons.prems(1), of m] Cons.prems(2) by auto
  then show ?case using Cons mip_at [OF x] by auto
qed simp

text \<open>Memory can be destroyed exactly when no registered mipmap is a view of it.\<close>

lemma good_cuDestroyExternalMemory:
  assumes ok: "handles_ok s"
  shows "good s (snd (cuDestroyExternalMemory e s))"
proof (cases "e = 0 \<or> e \<notin> set (gExternalMemories s) \<or> e \<in> mip_parent (heap s) ` set (gMipmappedArrays s)")
  case True
  then show ?thesis using ok some_mipmap_of_run [OF ok, of "gMipmappedArrays s" e]
    by (auto simp: cuDestroyExternalMemory_def good_refl)
next
  case False
  then have e: "e \<in> set (gExternalMemories s)" by simp
  obtain x where x: "heap s e = Some (ExternalObj x)" using handle_of(8) [OF ok e] by blast
  let ?s3 = "s\<lparr>gExternalMemories := set_erase e (gExternalMemories s)\<rparr>"
  let ?s4 = "case memory_mapping x of Some m \<Rightarrow> munmap m (memory_size x) ?s3 | None \<Rightarrow> ?s3"
  let ?s5 = "if memory_fd x \<ge> 0 then close_fd (memory_fd x) ?s4 else ?s4"
  have eq: "heap ?s5 = heap s" "registered ?s5 = (registered s)(KExternal := registered s KExternal - {e})"
    "undefined_behaviour ?s5 = undefined_behaviour s" "gKernels ?s5 = gKernels s"
    by (simp_all add: close_fd_def munmap_def log_call_def map_range_def registry_simps split: option.split)
  have "good s (delete_object is_external e ?s5)"
    by (rule destroy_ok [OF ok, of e KExternal])
      (use e False eq distinct_gKernels [OF ok] in \<open>auto simp: referenced_def kind_cases\<close>)
  then show ?thesis using False some_mipmap_of_run [OF ok, of "gMipmappedArrays s" e]
    by (simp add: cuDestroyExternalMemory_def deref_run [OF x] as_external_def Let_def)
qed

lemma good_semaphores:
  assumes ok: "handles_ok s"
  shows "good s (snd (cuImportExternalSemaphore out descr2 fstat s))"
    and "good s (snd (cuDestroyExternalSemaphore q s))"
proof -
  show "good s (snd (cuImportExternalSemaphore out descr2 fstat s))"
    using ok by (auto simp: cuImportExternalSemaphore_def good_refl registry_simps
        intro!: create_ok [where k = KSemaphore] split: option.split)
  show "good s (snd (cuDestroyExternalSemaphore q s))"
  proof (cases "q = 0 \<or> q \<notin> set (gExternalSemaphores s)")
    case True
    then show ?thesis using ok by (auto simp: cuDestroyExternalSemaphore_def good_refl)
  next
    case False
    then have q: "q \<in> set (gExternalSemaphores s)" by simp
    obtain x where x: "heap s q = Some (SemaphoreObj x)" using handle_of(9) [OF ok q] by blast
    let ?s1 = "s\<lparr>gExternalSemaphores := set_erase q (gExternalSemaphores s)\<rparr>"
    let ?s2 = "if semaphore_fd x \<ge> 0 then close_fd (semaphore_fd x) ?s1 else ?s1"
    have x1: "heap ?s1 q = Some (SemaphoreObj x)" using x by simp
    have "good s (delete_object is_semaphore q ?s2)"
      by (rule destroy_ok [OF ok, of q KSemaphore])
        (use q ok in \<open>auto simp: close_fd_def log_call_def registry_simps not_referenced kind_cases distinct_gKernels\<close>)
    then show ?thesis using False
      by (simp add: cuDestroyExternalSemaphore_def deref_run [OF x1] as_semaphore_def)
  qed
qed

lemma write_file_frame [simp]:
  "heap (write_file f off bs s) = heap s" "registered (write_file f off bs s) = registered s"
  "gKernels (write_file f off bs s) = gKernels s"
  "undefined_behaviour (write_file f off bs s) = undefined_behaviour s"
  "gExternalSemaphores (write_file f off bs s) = gExternalSemaphores s"
  "fdTable (write_file f off bs s) = fdTable s"
  by (simp_all add: write_file_def registry_simps)

lemma pwrite_loop_frame:
  "heap (snd (snd (pwrite_loop d data w answers s))) = heap s
   \<and> registered (snd (snd (pwrite_loop d data w answers s))) = registered s
   \<and> gKernels (snd (snd (pwrite_loop d data w answers s))) = gKernels s
   \<and> undefined_behaviour (snd (snd (pwrite_loop d data w answers s))) = undefined_behaviour s
   \<and> gExternalSemaphores (snd (snd (pwrite_loop d data w answers s))) = gExternalSemaphores s"
  by (induction d data w answers s rule: pwrite_loop.induct)
    (simp_all add: Let_def split: option.split io_answer.split)

lemma signal_loop_good: "handles_ok s \<Longrightarrow> good s (snd (signal_loop ps answers s))"
proof (induction ps arbitrary: answers s)
  case (Cons p ps)
  show ?case
  proof (cases "params_semaphore p \<notin> set (gExternalSemaphores s) \<or> params_flags p \<noteq> 0")
    case True
    then show ?thesis using Cons.prems by (simp add: good_refl)
  next
    case False
    then obtain x where x: "heap s (params_semaphore p) = Some (SemaphoreObj x)"
      using handle_of(9) [OF Cons.prems] by blast
    let ?data = "le_bytes (if fence_value p = 0 then 1 else fence_value p)"
    obtain b as s1 where w: "pwrite_loop (semaphore_fd x) ?data 0 answers s = (b, as, s1)" by (metis prod.exhaust)
    have g: "good s s1"
      by (rule good_cong [OF Cons.prems]) (use pwrite_loop_frame [of "semaphore_fd x" ?data 0 answers s] w in simp_all)
    then show ?thesis using False x w Cons.IH [OF good_ok [OF g], of as] good_trans [OF g]
      by (cases b) (simp_all add: Let_def)
  qed
qed (simp add: good_refl)

lemma wait_loop_good: "handles_ok s \<Longrightarrow> good s (snd (wait_loop ps answers s))"
proof (induction ps arbitrary: answers)
  case (Cons p ps)
  then show ?case
    using handle_of(9) [OF Cons.prems, of "params_semaphore p"]
    by (auto simp: good_refl split: prod.split option.split)
qed (simp add: good_refl)

lemma good_semaphore_waits:
  assumes "handles_ok s"
  shows "good s (snd (cuSignalExternalSemaphoresAsync given ps answers s))"
    and "good s (snd (cuWaitExternalSemaphoresAsync given ps answers s))"
  using assms signal_loop_good wait_loop_good
  by (simp_all add: cuSignalExternalSemaphoresAsync_def cuWaitExternalSemaphoresAsync_def good_refl)

section \<open>Arrays\<close>

lemma good_array_calls:
  assumes ok: "handles_ok s"
  shows "good s (snd (cuArray3DCreate_v2 out d s))" and "good s (snd (cuMipmappedArrayGetLevel out m level s))"
    and "good s (snd (cuTexObjectCreate out r t s))"
proof -
  show "good s (snd (cuArray3DCreate_v2 out d s))"
    using ok by (auto simp: cuArray3DCreate_v2_def good_refl registry_simps intro!: create_ok [where k = KArray])
  show "good s (snd (cuMipmappedArrayGetLevel out m level s))"
    using handle_of(10) [OF ok, of m] ok
    by (auto simp: cuMipmappedArrayGetLevel_def good_refl prog_simps as_type_defs)
  show "good s (snd (cuTexObjectCreate out r t s))"
    using ok by (auto simp: cuTexObjectCreate_def good_refl intro!: good_cong intro: registered_cong)
qed

text \<open>Clearing the entry of an array in the mipmap it belongs to.\<close>

lemma clear_level_ok:
  assumes ok: "handles_ok s" and m: "m \<in> set (gMipmappedArrays s)" and x: "heap s m = Some (MipmapObj x)"
  shows "good s (write_level m i 0 s)"
    and "mip_levels (heap (write_level m i 0 s)) m = (mip_levels (heap s) m)[i := 0]"
    and "q \<noteq> m \<Longrightarrow> heap (write_level m i 0 s) q = heap s q"
    and "registered (write_level m i 0 s) = registered s"
proof -
  let ?ob = "MipmapObj (x\<lparr>levels := (levels x)[i := 0]\<rparr>)" and ?R = "registered s" and ?h = "heap s"
  have e: "write_level m i 0 s = s\<lparr>heap := ?h(m \<mapsto> ?ob)\<rparr>"
    using x by (simp add: write_level_def write_object_def)
  show "mip_levels (heap (write_level m i 0 s)) m = (mip_levels (heap s) m)[i := 0]"
    "q \<noteq> m \<Longrightarrow> heap (write_level m i 0 s) q = heap s q" "registered (write_level m i 0 s) = ?R"
    using x by (simp_all add: e mip_levels_def registry_simps)
  have h: "hinv ?h ?R" using ok by (simp add: handles_ok_def)
  have other: "m \<notin> ?R k" if "k \<noteq> KMipmap" for k
    using hinv_kind [OF h, of m KMipmap k] m that by auto
  have typed: "?R k \<subseteq> objs k (?h(m \<mapsto> ?ob))" for k
  proof
    fix q assume q: "q \<in> ?R k"
    then have "q \<in> objs k ?h" using h by (auto simp: hinv_def)
    moreover have "k = KMipmap" if "q = m" using q other that by blast
    ultimately show "q \<in> objs k (?h(m \<mapsto> ?ob))" by (auto simp: objs_def)
  qed
  have lv: "levels_ok (?h(m \<mapsto> ?ob)) (?R KArray) q" if q: "q \<in> ?R KMipmap" for q
  proof -
    have ok': "levels_ok ?h (?R KArray) q" using h q by (auto simp: hinv_def)
    have arr: "a \<in> ?R KArray \<Longrightarrow> array_home (?h(m \<mapsto> ?ob)) a = array_home ?h a" for a
      using other [of KArray] by (auto simp: array_home_def)
    show ?thesis
    proof (cases "q = m")
      case True
      show ?thesis unfolding levels_ok_def
      proof (intro allI impI)
        fix j assume j: "j < length (mip_levels (?h(m \<mapsto> ?ob)) q)"
        have ls: "mip_levels (?h(m \<mapsto> ?ob)) q = (mip_levels ?h q)[i := 0]"
          using True x by (simp add: mip_levels_def)
        show "mip_levels (?h(m \<mapsto> ?ob)) q ! j = 0 \<or> mip_levels (?h(m \<mapsto> ?ob)) q ! j \<in> ?R KArray
            \<and> array_home (?h(m \<mapsto> ?ob)) (mip_levels (?h(m \<mapsto> ?ob)) q ! j) = Some (q, j)"
        proof (cases "j = i")
          case True
          then show ?thesis using j by (simp add: ls)
        next
          case False
          then show ?thesis using ok' j arr unfolding ls levels_ok_def by auto
        qed
      qed
    next
      case False
      then have "mip_levels (?h(m \<mapsto> ?ob)) q = mip_levels ?h q" by (simp add: mip_levels_def)
      then show ?thesis using ok' arr unfolding levels_ok_def by auto
    qed
  qed
  have "mip_parent (?h(m \<mapsto> ?ob)) q = mip_parent ?h q" for q
    using x by (simp add: mip_parent_def)
  then have "hinv (?h(m \<mapsto> ?ob)) ?R"
    using h typed lv other [of KLibrary] other [of KKernel]
    unfolding hinv_def by (auto simp: fun_upd_views inj_on_upd_notin)
  then show "good s (write_level m i 0 s)"
    unfolding e using ok by (intro goodI) (simp_all add: registry_simps handles_ok_def)
qed

end
