(* ===== verification/CudaMipmapSteps.thy ===== *)
theory CudaMipmapSteps
  imports CudaArraySteps
begin

text \<open>
  Destroying arrays and creating and destroying mipmapped arrays. The level arrays of a mipmap are created
  one by one before the mipmap is registered (\<open>building\<close>), and a failing allocation takes all of them
  back.
\<close>

lemma write_level_gArrays:
  "write_level m i a (s\<lparr>gArrays := xs\<rparr>) = (write_level m i a s)\<lparr>gArrays := xs\<rparr>"
  by (simp add: write_level_def write_object_def broken_def split: option.split object.split)

lemma write_level_other [simp]:
  "gArrays (write_level m i a s) = gArrays s" "gMipmappedArrays (write_level m i a s) = gMipmappedArrays s"
  "gKernels (write_level m i a s) = gKernels s"
  by (simp_all add: write_level_def write_object_def broken_def split: option.split object.split)

text \<open>An array a registered mipmap refers to knows its place.\<close>

lemma array_home_of:
  assumes ok: "handles_ok s" and m: "m \<in> set (gMipmappedArrays s)" and a: "a \<in> set (mip_levels (heap s) m)" "a \<noteq> 0"
  shows "\<exists>i < length (mip_levels (heap s) m). mip_levels (heap s) m ! i = a \<and> array_home (heap s) a = Some (m, i)"
proof -
  from a(1) obtain i where i: "i < length (mip_levels (heap s) m)" "mip_levels (heap s) m ! i = a"
    by (auto simp: in_set_conv_nth)
  then show ?thesis using mip_levels_ok [OF ok m] a(2) unfolding levels_ok_def by auto
qed

lemma delete_array_ok:
  assumes ok: "handles_ok s" and a: "a \<in> set (gArrays s)" and r: "\<not> referenced (heap s) (registered s) KArray a"
  shows "good s (delete_object is_array a (s\<lparr>gArrays := set_erase a (gArrays s)\<rparr>))"
  by (rule destroy_ok [OF ok, of a KArray]) (use a r ok in \<open>auto simp: registry_simps kind_cases distinct_gKernels\<close>)

lemma good_cuArrayDestroy:
  assumes ok: "handles_ok s"
  shows "good s (snd (cuArrayDestroy a s))"
proof (cases "a = 0 \<or> a \<notin> set (gArrays s)")
  case True
  then show ?thesis using ok by (auto simp: cuArrayDestroy_def good_refl)
next
  case False
  then have a: "a \<in> set (gArrays s)" "a \<noteq> 0" by auto
  obtain y where y: "heap s a = Some (ArrayObj y)" using handle_of(7) [OF ok a(1)] by blast
  let ?M = "array_mipmap y" and ?l = "array_level y" and ?s1 = "s\<lparr>gArrays := set_erase a (gArrays s)\<rparr>"
  have y1: "heap ?s1 a = Some (ArrayObj y)" using y by simp
  have home: "m = ?M \<and> ?l < length (mip_levels (heap s) m) \<and> mip_levels (heap s) m ! ?l = a"
    if "m \<in> set (gMipmappedArrays s)" "a \<in> set (mip_levels (heap s) m)" for m
    using array_home_of [OF ok that a(2)] array_at [OF y] by auto
  show ?thesis
  proof (cases "?M \<noteq> 0 \<and> ?M \<in> set (gMipmappedArrays s)")
    case False
    have "?M \<noteq> 0" if "?M \<in> set (gMipmappedArrays s)"
      using registered_live [OF ok, of ?M KMipmap] that by auto
    then have "\<not> referenced (heap s) (registered s) KArray a"
      using home False by (auto simp: referenced_def)
    from delete_array_ok [OF ok a(1) this] show ?thesis
      using False a by (auto simp: cuArrayDestroy_def deref_run [OF y1] as_array_def)
  next
    case True
    then have M: "?M \<in> set (gMipmappedArrays s)" by simp
    obtain x where x: "heap s ?M = Some (MipmapObj x)" using handle_of(10) [OF ok M] by blast
    have x1: "heap ?s1 ?M = Some (MipmapObj x)" using x by simp
    have lx: "mip_levels (heap s) ?M = levels x" using mip_at [OF x] by simp
    show ?thesis
    proof (cases "?l < length (levels x) \<and> levels x ! ?l = a")
      case at: True
      let ?w = "write_level ?M ?l 0 s"
      note c = clear_level_ok [OF ok M x]
      have ne: "q \<noteq> ?M" if q1: "q \<in> set (gMipmappedArrays s)" and q2: "a \<in> set (mip_levels (heap ?w) q)" for q
      proof
        assume q: "q = ?M"
        then obtain i where i: "i < length (levels x)" "(levels x)[?l := 0] ! i = a"
          using q2 by (auto simp: c(2) lx in_set_conv_nth)
        then have "i \<noteq> ?l" using a(2) by auto
        then have "levels x ! i = a" using i by simp
        then have "array_home (heap s) a = Some (?M, i)"
          using mip_levels_ok [OF ok M] i(1) a(2) unfolding levels_ok_def lx by auto
        then show False using array_at [OF y] \<open>i \<noteq> ?l\<close> by simp
      qed
      have "\<not> referenced (heap ?w) (registered ?w) KArray a"
      proof
        assume "referenced (heap ?w) (registered ?w) KArray a"
        then obtain q where q: "q \<in> set (gMipmappedArrays s)" "a \<in> set (mip_levels (heap ?w) q)"
          by (auto simp: referenced_def)
        note n = ne [OF q]
        then have "mip_levels (heap ?w) q = mip_levels (heap s) q" by (simp add: mip_levels_def c(3))
        then show False using home [OF q(1)] q(2) n by simp
      qed
      from delete_array_ok [OF good_ok [OF c(1)] _ this] a(1)
      have "good ?w (delete_object is_array a (?w\<lparr>gArrays := set_erase a (gArrays s)\<rparr>))" by simp
      with c(1) have "good s (delete_object is_array a (?w\<lparr>gArrays := set_erase a (gArrays s)\<rparr>))" by (rule good_trans)
      then show ?thesis using True at a
        by (simp add: cuArrayDestroy_def deref_run [OF y1] deref_run [OF x1] as_array_def as_mipmap_def write_level_gArrays)
    next
      case no: False
      have "\<not> referenced (heap s) (registered s) KArray a"
      proof
        assume "referenced (heap s) (registered s) KArray a"
        then obtain q where "q \<in> set (gMipmappedArrays s)" "a \<in> set (mip_levels (heap s) q)"
          by (auto simp: referenced_def)
        from home [OF this] lx no show False by metis
      qed
      from delete_array_ok [OF ok a(1) this] show ?thesis
        using True no a
        by (auto simp: cuArrayDestroy_def deref_run [OF y1] deref_run [OF x1] as_array_def as_mipmap_def)
    qed
  qed
qed

section \<open>Deleting the levels of a mipmap\<close>

lemma delete_levels_ok:
  "handles_ok s \<Longrightarrow> \<forall>a \<in> set ls. a \<noteq> 0 \<longrightarrow> a \<in> set (gArrays s) \<and> \<not> referenced (heap s) (registered s) KArray a \<Longrightarrow>
     distinct (filter (\<lambda>a. a \<noteq> 0) ls) \<Longrightarrow>
     good s (delete_levels ls s) \<and> (\<forall>k. k \<noteq> KArray \<longrightarrow> registered (delete_levels ls s) k = registered s k)
     \<and> registered (delete_levels ls s) KArray \<subseteq> registered s KArray
     \<and> (\<forall>p. p \<notin> set ls \<longrightarrow> heap (delete_levels ls s) p = heap s p)"
proof (induction ls arbitrary: s)
  case Nil
  then show ?case by (simp add: good_refl)
next
  case (Cons a ls)
  show ?case
  proof (cases "a = 0")
    case True
    then show ?thesis using Cons by simp
  next
    case False
    let ?s1 = "delete_object is_array a (s\<lparr>gArrays := set_erase a (gArrays s)\<rparr>)"
    have a: "a \<in> set (gArrays s)" and r: "\<not> referenced (heap s) (registered s) KArray a"
      using Cons.prems(2) False by auto
    note g = delete_array_ok [OF Cons.prems(1) a r]
    obtain y where y: "heap s a = Some (ArrayObj y)" using handle_of(7) [OF Cons.prems(1) a] by blast
    have s1: "?s1 = s\<lparr>gArrays := set_erase a (gArrays s), heap := (heap s)(a := None)\<rparr>"
      using y False by (simp add: delete_object_def)
    have lv: "mip_levels (heap ?s1) m = mip_levels (heap s) m" for m
      using y by (simp add: s1 mip_levels_def)
    have "\<forall>b \<in> set ls. b \<noteq> 0 \<longrightarrow> b \<in> set (gArrays ?s1) \<and> \<not> referenced (heap ?s1) (registered ?s1) KArray b"
    proof (intro ballI impI)
      fix b assume b: "b \<in> set ls" "b \<noteq> 0"
      then have "b \<noteq> a" using Cons.prems(3) False by auto
      then show "b \<in> set (gArrays ?s1) \<and> \<not> referenced (heap ?s1) (registered ?s1) KArray b"
        using Cons.prems(2) b unfolding referenced_def lv unfolding s1 by simp
    qed
    moreover have "distinct (filter (\<lambda>a. a \<noteq> 0) ls)" using Cons.prems(3) False by simp
    ultimately have "good ?s1 (delete_levels ls ?s1) \<and> (\<forall>k. k \<noteq> KArray \<longrightarrow> registered (delete_levels ls ?s1) k = registered ?s1 k)
     \<and> registered (delete_levels ls ?s1) KArray \<subseteq> registered ?s1 KArray
     \<and> (\<forall>p. p \<notin> set ls \<longrightarrow> heap (delete_levels ls ?s1) p = heap ?s1 p)"
      by (intro Cons.IH [OF good_ok [OF g]])
    moreover have "registered ?s1 = (registered s)(KArray := set (gArrays s) - {a})" by (simp add: s1 registry_simps)
    moreover have "heap ?s1 = (heap s)(a := None)" by (simp add: s1)
    moreover have "set (gArrays s) - {a} \<subseteq> registered s KArray" by auto
    moreover have "delete_levels (a # ls) s = delete_levels ls ?s1" using False by simp
    ultimately show ?thesis using good_trans [OF g, of "delete_levels ls ?s1"] by (auto simp del: registered.simps delete_levels.simps)
  qed
qed

lemma distinct_levels:
  assumes "\<forall>i < length ls. ls ! i = 0 \<or> array_home h (ls ! i) = Some (m, i)"
  shows "distinct (filter (\<lambda>a. a \<noteq> 0) ls)"
proof -
  have "distinct (filter (\<lambda>a. a \<noteq> 0) ls) \<longleftrightarrow> True" using assms
  proof (induction ls rule: rev_induct)
    case (snoc a ls)
    have "\<forall>i < length ls. ls ! i = 0 \<or> array_home h (ls ! i) = Some (m, i)"
      using snoc.prems by (auto simp: nth_append split: if_splits)
    moreover have "a \<notin> set ls" if "a \<noteq> 0"
    proof
      assume "a \<in> set ls"
      then obtain i where i: "i < length ls" "ls ! i = a" by (auto simp: in_set_conv_nth)
      have "array_home h a = Some (m, i)" using snoc.prems [rule_format, of i] i that by (simp add: nth_append)
      moreover have "array_home h a = Some (m, length ls)" using snoc.prems [rule_format, of "length ls"] that by simp
      ultimately show False using i(1) by simp
    qed
    ultimately show ?case using snoc.IH by auto
  qed simp
  then show ?thesis by simp
qed

lemma good_cuMipmappedArrayDestroy:
  assumes ok: "handles_ok s"
  shows "good s (snd (cuMipmappedArrayDestroy m s))"
proof (cases "m = 0 \<or> m \<notin> set (gMipmappedArrays s)")
  case True
  then show ?thesis using ok by (auto simp: cuMipmappedArrayDestroy_def good_refl)
next
  case False
  then have m: "m \<in> set (gMipmappedArrays s)" by simp
  obtain x where x: "heap s m = Some (MipmapObj x)" using handle_of(10) [OF ok m] by blast
  let ?s1 = "s\<lparr>gMipmappedArrays := set_erase m (gMipmappedArrays s)\<rparr>"
  have u: "good s ?s1" "\<And>k. m \<notin> registered ?s1 k"
    by (rule unregister_ok [OF ok, of m KMipmap]; use m ok in \<open>simp add: registry_simps not_referenced distinct_gKernels\<close>)+
  have lv: "levels x = mip_levels (heap s) m" using mip_at [OF x] by simp
  have at: "\<forall>i < length (levels x). levels x ! i = 0 \<or> levels x ! i \<in> set (gArrays s)
      \<and> array_home (heap s) (levels x ! i) = Some (m, i)"
    using mip_levels_ok [OF ok m] by (simp add: levels_ok_def lv)
  have mem: "\<forall>a \<in> set (levels x). a \<noteq> 0 \<longrightarrow> a \<in> set (gArrays ?s1) \<and> \<not> referenced (heap ?s1) (registered ?s1) KArray a"
  proof (intro ballI impI conjI)
    fix a assume a: "a \<in> set (levels x)" "a \<noteq> 0"
    then obtain i where i: "i < length (levels x)" "levels x ! i = a" by (auto simp: in_set_conv_nth)
    then show "a \<in> set (gArrays ?s1)" using at a by auto
    have home: "array_home (heap s) a = Some (m, i)" using at i a by auto
    show "\<not> referenced (heap ?s1) (registered ?s1) KArray a"
    proof
      assume "referenced (heap ?s1) (registered ?s1) KArray a"
      then obtain q where "q \<in> set (gMipmappedArrays s)" "q \<noteq> m" "a \<in> set (mip_levels (heap s) q)"
        by (auto simp: referenced_def)
      then show False using array_home_of [OF ok _ _ a(2)] home by fastforce
    qed
  qed
  have dist: "distinct (filter (\<lambda>a. a \<noteq> 0) (levels x))"
    by (rule distinct_levels [of _ "heap s" m]) (use at in blast)
  note d = delete_levels_ok [OF good_ok [OF u(1)] mem dist]
  let ?s2 = "delete_levels (levels x) ?s1"
  have "m \<notin> set (levels x)"
  proof
    assume "m \<in> set (levels x)"
    then have "m \<in> set (gArrays s)" using mem False by auto
    then show False using handle_of(7) [OF ok] x by fastforce
  qed
  then have hm: "heap ?s2 m = Some (MipmapObj x)" using d x by simp
  have "good ?s2 (delete_object is_mipmap m ?s2)"
  proof (rule delete_object_ok [OF good_ok [OF conjunct1 [OF d]] _ hm])
    show "m \<notin> registered ?s2 k" for k
      using conjunct1 [OF conjunct2 [OF d]] conjunct1 [OF conjunct2 [OF conjunct2 [OF d]]] u(2) [of k]
      by (cases "k = KArray") (blast, metis)
  qed (use False in simp_all)
  then have "good s (delete_object is_mipmap m ?s2)"
    using good_trans [OF u(1)] good_trans d by blast
  moreover have x1: "heap ?s1 m = Some (MipmapObj x)" using x by simp
  ultimately show ?thesis using False
    by (simp add: cuMipmappedArrayDestroy_def deref_run [OF x1] as_mipmap_def)
qed

section \<open>Creating the levels of a mipmap\<close>

text \<open>The mipmap \<open>m\<close> is not registered yet, and its first \<open>n\<close> levels are made.\<close>

definition building :: "ptr \<Rightarrow> nat \<Rightarrow> cuda \<Rightarrow> MipmappedArrayState \<Rightarrow> bool" where
  "building m n s x \<longleftrightarrow> heap s m = Some (MipmapObj x) \<and> m \<noteq> 0 \<and> (\<forall>k. m \<notin> registered s k)
     \<and> n \<le> length (levels x)
     \<and> (\<forall>i < n. levels x ! i \<in> set (gArrays s) \<and> array_home (heap s) (levels x ! i) = Some (m, i))
     \<and> (\<forall>i. n \<le> i \<longrightarrow> i < length (levels x) \<longrightarrow> levels x ! i = 0)"

lemma build_step:
  assumes ok: "handles_ok s" and b: "building m n s x" and n: "n < length (levels x)"
    and new: "new_object (ArrayObj \<lparr>array_mipmap = m, array_level = n\<rparr>) s = (Some a, s1)"
  defines "s2 \<equiv> write_level m n a s1"
  defines "s3 \<equiv> s2\<lparr>gArrays := set_insert a (gArrays s2)\<rparr>"
  shows "good s s3" and "building m (Suc n) s3 (x\<lparr>levels := (levels x)[n := a]\<rparr>)"
    and "k \<noteq> KArray \<Longrightarrow> registered s3 k = registered s k"
proof -
  note o = new_object_Some [OF ok new] and f = new_object_frame [OF new] and b' = b [unfolded building_def]
  let ?x = "x\<lparr>levels := (levels x)[n := a]\<rparr>"
  have ne: "a \<noteq> m" using o(5) b' by auto
  have m1: "heap s1 m = Some (MipmapObj x)" using b' ne by (simp add: o(3))
  have s2: "s2 = write_object m (MipmapObj ?x) s1" by (simp add: s2_def write_level_def m1)
  have reg2: "registered s2 = registered s" using f by (simp add: s2 write_object_def registry_simps)
  have m2: "m \<notin> registered s1 k" for k using b' f by simp
  have g2: "good s1 s2" unfolding s2 by (rule write_object_ok [OF good_ok [OF o(1)] m2])
  have h2: "heap s2 = (heap s)(a \<mapsto> ArrayObj \<lparr>array_mipmap = m, array_level = n\<rparr>, m \<mapsto> MipmapObj ?x)"
    by (simp add: s2 write_object_def o(3))
  have "hinv (heap s2) ((registered s2)(KArray := insert a (registered s2 KArray)))"
    by (rule hinv_register)
      (use good_ok [OF g2] o(2) ne in \<open>auto simp: handles_ok_def objs_def h2\<close>)
  moreover have reg3: "registered s3 = (registered s2)(KArray := insert a (registered s2 KArray))"
    and h3: "heap s3 = heap s2" and u3: "undefined_behaviour s3 = undefined_behaviour s2" "gKernels s3 = gKernels s2"
    by (simp_all add: s3_def registry_simps)
  ultimately have "good s2 s3"
    using g2 by (intro goodI) (simp_all add: good_def handles_ok_def del: registered.simps fun_upd_apply)
  then show "good s s3" using good_trans [OF o(1)] good_trans [OF g2] by blast
  show "registered s3 k = registered s k" if "k \<noteq> KArray" using that by (simp add: reg3 reg2)
  have arrs: "set (gArrays s3) = insert a (set (gArrays s))"
    using fun_cong [OF reg3, of KArray] fun_cong [OF reg2, of KArray] by simp
  have home: "array_home (heap s3) q = array_home (heap s) q" if "q \<in> set (gArrays s)" for q
  proof -
    have "q \<in> registered s KArray" using that by simp
    then have "q \<noteq> a" "q \<noteq> m" using o(4) [of KArray] b' by blast+
    then show ?thesis by (simp add: h3 h2 array_home_def)
  qed
  have newhome: "array_home (heap s3) a = Some (m, n)" using ne by (simp add: h3 h2 array_home_def)
  show "building m (Suc n) s3 ?x"
    unfolding building_def
  proof (intro conjI allI impI)
    show "heap s3 m = Some (MipmapObj ?x)" by (simp add: h3 h2)
    show "m \<noteq> 0" using b' by blast
    show "m \<notin> registered s3 k" for k
    proof -
      have "m \<notin> registered s k" "m \<notin> registered s KArray" using b' by blast+
      then show ?thesis using ne by (simp add: reg3 reg2 del: registered.simps)
    qed
    show "Suc n \<le> length (levels ?x)" using n by simp
  next
    fix i assume i: "i < Suc n"
    show "levels ?x ! i \<in> set (gArrays s3)" "array_home (heap s3) (levels ?x ! i) = Some (m, i)"
      using i n b' newhome home by (cases "i = n"; simp add: arrs)+
  next
    fix i assume "Suc n \<le> i" "i < length (levels ?x)"
    then show "levels ?x ! i = 0" using b' by simp
  qed
qed

lemma create_levels_ok:
  "handles_ok s \<Longrightarrow> building m n s x \<Longrightarrow> n + r = length (levels x) \<Longrightarrow>
     \<exists>b s' x' n'. create_levels m n r s = (b, s') \<and> good s s' \<and> building m n' s' x' \<and> mip_memory x' = mip_memory x
       \<and> (\<forall>k. k \<noteq> KArray \<longrightarrow> registered s' k = registered s k) \<and> (b \<longrightarrow> n' = length (levels x'))"
proof (induction r arbitrary: n s x)
  case 0
  then show ?case by (auto intro!: exI [of _ n] good_refl)
next
  case (Suc r)
  obtain q s1 where new: "new_object (ArrayObj \<lparr>array_mipmap = m, array_level = n\<rparr>) s = (q, s1)" by fastforce
  show ?case
  proof (cases q)
    case None
    have g: "good s s1" by (rule new_object_None [OF Suc.prems(1)]) (use new None in simp)
    have same: "heap s1 = heap s" "registered s1 = registered s"
      using new None new_object_frame [OF new]
      by (auto simp: new_object_def split: list.splits option.splits if_splits)
    have arr: "gArrays s1 = gArrays s"
      using new None by (auto simp: new_object_def split: list.splits option.splits if_splits)
    have "building m n s1 x" using Suc.prems(2) by (simp add: building_def same arr)
    then show ?thesis using new None g same by auto
  next
    case (Some a)
    let ?s2 = "write_level m n a s1"
    let ?s3 = "?s2\<lparr>gArrays := set_insert a (gArrays ?s2)\<rparr>"
    have n: "n < length (levels x)" using Suc.prems(3) by simp
    have new': "new_object (ArrayObj \<lparr>array_mipmap = m, array_level = n\<rparr>) s = (Some a, s1)" using new Some by simp
    note st = build_step [OF Suc.prems(1,2) n new']
    have e: "create_levels m n (Suc r) s = create_levels m (Suc n) r ?s3" using new' by (simp add: Let_def)
    from Suc.IH [OF good_ok [OF st(1)] st(2)] Suc.prems(3) obtain b s' x' n' where
      c: "create_levels m (Suc n) r ?s3 = (b, s')" "good ?s3 s'" "building m n' s' x'" "mip_memory x' = mip_memory x"
        "\<forall>k. k \<noteq> KArray \<longrightarrow> registered s' k = registered ?s3 k" "b \<longrightarrow> n' = length (levels x')" by auto
    have "good s s'" by (rule good_trans [OF st(1) c(2)])
    then show ?thesis unfolding e using c st(3) by (intro exI conjI) (auto simp del: registered.simps)
  qed
qed

text \<open>A mipmap whose construction stops is taken back completely.\<close>

lemma discard_building:
  assumes ok: "handles_ok s" and b: "building m n s x"
  shows "good s (delete_object is_mipmap m (delete_levels (levels x) s))"
proof -
  note b' = b [unfolded building_def]
  have at: "levels x ! i = 0 \<or> levels x ! i \<in> set (gArrays s) \<and> array_home (heap s) (levels x ! i) = Some (m, i)"
    if "i < length (levels x)" for i
    using b' that by (cases "i < n") auto
  have mem: "\<forall>a \<in> set (levels x). a \<noteq> 0 \<longrightarrow> a \<in> set (gArrays s) \<and> \<not> referenced (heap s) (registered s) KArray a"
  proof (intro ballI impI conjI)
    fix a assume a: "a \<in> set (levels x)" "a \<noteq> 0"
    then obtain i where i: "i < length (levels x)" "levels x ! i = a" by (auto simp: in_set_conv_nth)
    then show "a \<in> set (gArrays s)" using at a by auto
    have home: "array_home (heap s) a = Some (m, i)" using at i a by auto
    show "\<not> referenced (heap s) (registered s) KArray a"
    proof
      assume "referenced (heap s) (registered s) KArray a"
      then obtain q where q: "q \<in> set (gMipmappedArrays s)" "a \<in> set (mip_levels (heap s) q)"
        by (auto simp: referenced_def)
      have "q \<noteq> m" using b' q(1) by (metis registered.simps(10))
      then show False using array_home_of [OF ok q a(2)] home by auto
    qed
  qed
  have dist: "distinct (filter (\<lambda>a. a \<noteq> 0) (levels x))"
    by (rule distinct_levels [of _ "heap s" m]) (use at in blast)
  note d = delete_levels_ok [OF ok mem dist]
  let ?s2 = "delete_levels (levels x) s"
  have "m \<notin> set (levels x)"
  proof
    assume "m \<in> set (levels x)"
    then have "m \<in> set (gArrays s)" using mem b' by auto
    then show False using b' by (metis registered.simps(7))
  qed
  then have hm: "heap ?s2 m = Some (MipmapObj x)" using d b' by simp
  have "good ?s2 (delete_object is_mipmap m ?s2)"
  proof (rule delete_object_ok [OF good_ok [OF conjunct1 [OF d]] _ hm])
    show "m \<notin> registered ?s2 k" for k
      using conjunct1 [OF conjunct2 [OF d]] conjunct1 [OF conjunct2 [OF conjunct2 [OF d]]] b'
      by (cases "k = KArray") (blast, metis)
  qed (use b' in simp_all)
  then show ?thesis using good_trans d by blast
qed

lemma register_building:
  assumes ok: "handles_ok s" and b: "building m (length (levels x)) s x" and e: "mip_memory x \<in> set (gExternalMemories s)"
  shows "good s (s\<lparr>gMipmappedArrays := set_insert m (gMipmappedArrays s)\<rparr>)"
proof -
  note b' = b [unfolded building_def]
  have "hinv (heap s) (registered s)" using ok by (simp add: handles_ok_def)
  then have "hinv (heap s) ((registered s)(KMipmap := insert m (registered s KMipmap)))"
  proof (rule hinv_register)
    show "m \<in> objs KMipmap (heap s)" using b' by (simp add: objs_def)
    have "levels_ok (heap s) (registered s KArray) m"
      using b' by (simp add: levels_ok_def mip_levels_def)
    then show "mip_parent (heap s) m \<in> registered s KExternal \<and> levels_ok (heap s) (registered s KArray) m"
      using b' e by (simp add: mip_parent_def)
  qed simp_all
  then show ?thesis using ok by (intro goodI) (simp_all add: registry_simps handles_ok_def)
qed

lemma good_mapped_mipmap:
  assumes ok: "handles_ok s"
  shows "good s (snd (cuExternalMemoryGetMappedMipmappedArray out e descr s))"
proof (cases "e \<in> set (gExternalMemories s) \<and> descr \<noteq> None")
  case False
  then show ?thesis using ok
    by (auto simp: cuExternalMemoryGetMappedMipmappedArray_def good_refl split: option.split)
next
  case True
  then obtain d where e: "e \<in> set (gExternalMemories s)" and d: "descr = Some d" by auto
  obtain y where y: "heap s e = Some (ExternalObj y)" using handle_of(8) [OF ok e] by blast
  let ?x = "\<lparr>mip_memory = e, descriptor = d, levels = replicate (unat (numLevels d)) 0\<rparr>"
  obtain q s1 where new: "new_object (MipmapObj ?x) s = (q, s1)" by fastforce
  show ?thesis
  proof (cases q)
    case None
    then have "good s s1" using new_object_None [OF ok] new by simp
    then show ?thesis using ok e d new None
      by (simp add: cuExternalMemoryGetMappedMipmappedArray_def good_refl deref_run [OF y] as_external_def)
  next
    case (Some m)
    then have new': "new_object (MipmapObj ?x) s = (Some m, s1)" using new by simp
    note o = new_object_Some [OF ok new'] and f = new_object_frame [OF new']
    have "building m 0 s1 ?x"
      unfolding building_def using o f by (simp del: registered.simps)
    from create_levels_ok [OF good_ok [OF o(1)] this, of "unat (numLevels d)"] obtain b s2 x n where
      c: "create_levels m 0 (unat (numLevels d)) s1 = (b, s2)" "good s1 s2" "building m n s2 x" "mip_memory x = e"
        "\<forall>k. k \<noteq> KArray \<longrightarrow> registered s2 k = registered s1 k" "b \<longrightarrow> n = length (levels x)" by auto
    note g2 = good_trans [OF o(1) c(2)]
    have m: "heap s2 m = Some (MipmapObj x)" using c(3) by (simp add: building_def)
    have "registered s2 KExternal = registered s KExternal"
      using spec [OF c(5), of KExternal] unfolding f by blast
    then have e2: "mip_memory x \<in> set (gExternalMemories s2)" using e c(4) by simp
    show ?thesis
    proof (cases b)
      case True
      then have "good s (s2\<lparr>gMipmappedArrays := set_insert m (gMipmappedArrays s2)\<rparr>)"
        using register_building [OF good_ok [OF g2] _ e2] c(3,6) good_trans [OF g2] by blast
      then show ?thesis using ok e d new' c(1) True
        by (simp add: cuExternalMemoryGetMappedMipmappedArray_def good_refl deref_run [OF y] as_external_def)
    next
      case False
      have "good s (delete_object is_mipmap m (delete_levels (levels x) s2))"
        by (rule good_trans [OF g2 discard_building [OF good_ok [OF g2] c(3)]])
      then show ?thesis using ok e d new' c(1) False
        by (simp add: cuExternalMemoryGetMappedMipmappedArray_def good_refl deref_run [OF y] as_external_def
            deref_run [OF m] as_mipmap_def)
    qed
  qed
qed

end
