(* ===== verification/CudaMemoryProps.thy ===== *)
theory CudaMemoryProps
  imports CudaMemory
begin

text \<open>
  What the memory calls of the CUDA driver guarantee: which ranges they accept, that copies and fills move
  exactly the bytes they name, that a refused call changes nothing, that a reservation is aligned and cut
  out without loss; and two sequences of calls after which a registered range is no longer backed by memory.
\<close>

section \<open>Loads and stores\<close>

text \<open>A range whose bytes are accessible and pairwise different cells.\<close>

definition plain_range :: "cuda \<Rightarrow> u64 \<Rightarrow> nat \<Rightarrow> bool" where
  "plain_range s p n \<longleftrightarrow> accessible s p n
     \<and> distinct (map (\<lambda>i. place s (p + word_of_nat i)) [0..<n])"

lemma accessible_iff: "accessible s p n \<longleftrightarrow> (\<forall>i<n. place s (p + word_of_nat i) \<noteq> None)"
  by (auto simp: accessible_def list_all_iff)

lemma plain_range_iff:
  "plain_range s p n \<longleftrightarrow> (\<forall>i<n. place s (p + word_of_nat i) \<noteq> None)
     \<and> (\<forall>i<n. \<forall>j<n. place s (p + word_of_nat i) = place s (p + word_of_nat j) \<longrightarrow> i = j)"
  by (auto simp: plain_range_def accessible_iff distinct_map inj_on_def)

lemma plain_range_store [simp]: "plain_range (store_byte a b s) p n = plain_range s p n"
  by (simp add: plain_range_iff)

lemma next_address: "(p :: u64) + 1 + word_of_nat i = p + word_of_nat (Suc i)"
  by (simp add: add.assoc)

lemma plain_range_tail: "plain_range s p (Suc n) \<Longrightarrow> plain_range s (p + 1) n"
  unfolding plain_range_iff next_address by (metis Suc_inject Suc_less_eq)

lemma store_byte_keep: "place s a \<noteq> Some c \<Longrightarrow> cells (store_byte a b s) c = cells s c"
  by (auto simp: store_byte_def split: option.split)

lemma store_bytes_keep:
  "\<forall>i<length bs. place s (p + word_of_nat i) \<noteq> Some c \<Longrightarrow> cells (store_bytes p bs s) c = cells s c"
proof (induction bs arbitrary: p s)
  case (Cons b bs)
  have 1: "place s p \<noteq> Some c" using Cons.prems [rule_format, of 0] by simp
  have 2: "\<forall>i<length bs. place (store_byte p b s) (p + 1 + word_of_nat i) \<noteq> Some c"
    using Cons.prems unfolding next_address by auto
  show ?case using Cons.IH [OF 2] store_byte_keep [OF 1] by simp
qed simp

lemma load_store_bytes:
  "plain_range s p (length bs) \<Longrightarrow> load_bytes (store_bytes p bs s) p (length bs) = bs"
proof (induction bs arbitrary: p s)
  case Nil
  show ?case by (simp add: load_bytes_def)
next
  case (Cons b bs)
  note pr = Cons.prems [unfolded length_Cons plain_range_iff]
  from pr have "place s (p + word_of_nat 0) \<noteq> None" by blast
  then obtain c where c: "place s p = Some c" by auto
  have other: "\<forall>i<length bs. place (store_byte p b s) (p + 1 + word_of_nat i) \<noteq> Some c"
  proof (intro allI impI)
    fix i assume "i < length bs"
    then have "place s (p + word_of_nat (Suc i)) \<noteq> place s (p + word_of_nat 0)"
      using pr by (metis Suc_less_eq nat.distinct(1) zero_less_Suc)
    then show "place (store_byte p b s) (p + 1 + word_of_nat i) \<noteq> Some c"
      using c unfolding next_address by simp
  qed
  have "cells (store_bytes (p + 1) bs (store_byte p b s)) c = b"
    using store_bytes_keep [OF other] c by (simp add: store_byte_def)
  then have head: "load_byte (store_bytes (p + 1) bs (store_byte p b s)) p = b"
    using c by (simp add: load_byte_def)
  have tail: "load_bytes (store_bytes (p + 1) bs (store_byte p b s)) (p + 1) (length bs) = bs"
    by (rule Cons.IH) (use plain_range_tail [OF Cons.prems [unfolded length_Cons]] in simp)
  show ?case using head tail
    by (simp add: load_bytes_def upt_conv_Cons map_Suc_upt [symmetric] o_def add.assoc del: upt_Suc)
qed

lemma store_bytes_ub:
  "accessible s p (length bs) \<Longrightarrow> undefined_behaviour (store_bytes p bs s) = undefined_behaviour s"
proof (induction bs arbitrary: p s)
  case (Cons b bs)
  have a: "\<forall>i<Suc (length bs). place s (p + word_of_nat i) \<noteq> None" using Cons.prems by (simp add: accessible_iff)
  have 1: "place s p \<noteq> None" using a [rule_format, of 0] by simp
  have "accessible (store_byte p b s) (p + 1) (length bs)"
    unfolding accessible_iff next_address using a by auto
  then show ?case using Cons.IH 1 by (auto simp: store_byte_def split: option.splits)
qed simp

lemma accessible_store [simp]: "accessible (store_bytes a bs s) p n = accessible s p n"
  by (simp add: accessible_iff)

lemma plain_accessible: "plain_range s p n \<Longrightarrow> accessible s p n"
  by (simp add: plain_range_def)

lemma length_load_bytes [simp]: "length (load_bytes s p n) = n"
  by (simp add: load_bytes_def)

lemma store_bytes_registries [simp]:
  "gDeviceAllocations (store_bytes p bs s) = gDeviceAllocations s"
  "gHostAllocations (store_bytes p bs s) = gHostAllocations s"
proof -
  have 1: "gDeviceAllocations (store_byte a b s) = gDeviceAllocations s
      \<and> gHostAllocations (store_byte a b s) = gHostAllocations s" for a b s
    by (simp add: store_byte_def split: option.split)
  show "gDeviceAllocations (store_bytes p bs s) = gDeviceAllocations s"
    by (induction bs arbitrary: p s) (simp_all add: 1)
  show "gHostAllocations (store_bytes p bs s) = gHostAllocations s"
    by (induction bs arbitrary: p s) (simp_all add: 1)
qed

lemma resolve_store [simp]: "resolveDeviceRange (store_bytes p bs s) = resolveDeviceRange s"
  by (simp add: fun_eq_iff resolveDeviceRange_def)

lemma resolve_touch [simp]: "resolveDeviceRange (touch p n s) = resolveDeviceRange s"
  by (simp add: fun_eq_iff resolveDeviceRange_def touch_def)

lemma touch_accessible: "accessible s p n \<Longrightarrow> touch p n s = s"
  by (simp add: touch_def)

text \<open>Fresh memory from the allocator is plain.\<close>

lemma malloc_block_place:
  "i < unat sz \<Longrightarrow> place (malloc_block p sz s) (p + word_of_nat i) = Some (Anonymous (p + word_of_nat i))"
proof -
  assume i: "i < unat sz"
  then have "i < 2 ^ 64" using u64_unat_less [of sz] by simp
  with i show ?thesis
    by (simp add: malloc_block_def mem_simps u64_unat_of_nat)
qed

lemma malloc_block_plain:
  assumes "unat off + n \<le> unat sz"
  shows "plain_range (malloc_block p sz s) (p + off) n"
proof -
  have b: "unat sz < 2 ^ 64" using u64_unat_less [of sz] by simp
  have at: "p + off + word_of_nat i = p + word_of_nat (unat off + i)" for i
    by (simp add: add.assoc)
  have pl: "place (malloc_block p sz s) (p + off + word_of_nat i) = Some (Anonymous (p + word_of_nat (unat off + i)))"
    if "i < n" for i
    unfolding at using that assms by (intro malloc_block_place) simp
  have "i = j" if "i < n" "j < n" "(word_of_nat (unat off + i) :: u64) = word_of_nat (unat off + j)" for i j
    using u64_of_nat_inject [OF _ _ that(3)] that(1,2) assms b by simp
  then show ?thesis unfolding plain_range_iff using pl by auto
qed

section \<open>Which ranges are accepted\<close>

lemma range_inside_iff:
  "range_inside p sz (b, n) \<longleftrightarrow> unat b \<le> unat p \<and> unat p + unat sz \<le> unat b + unat n"
  unfolding range_inside_def prod.case by (rule word_range_test)

lemma list_ex_range_inside:
  "list_ex (range_inside p sz) xs \<longleftrightarrow> (\<exists>(b, n) \<in> set xs. unat b \<le> unat p \<and> unat p + unat sz \<le> unat b + unat n)"
  by (induction xs) (auto simp: range_inside_iff)

text \<open>A device range is accepted exactly when it lies inside one registered device or host allocation,
  computed without overflow, and its host address is then its device address.\<close>

lemma resolveDeviceRange_spec:
  "resolveDeviceRange s p sz = Some h \<longleftrightarrow> h = p
     \<and> (\<exists>(b, n) \<in> set (gDeviceAllocations s @ gHostAllocations s).
           unat b \<le> unat p \<and> unat p + unat sz \<le> unat b + unat n)"
  by (auto simp: resolveDeviceRange_def list_ex_range_inside)

text \<open>A copy or a fill that is refused leaves the driver, its memory and its registries unchanged.\<close>

lemma refused_copy_unchanged:
  "(fst (cuMemcpyHtoD p data sz s) \<noteq> CUDA_SUCCESS \<longrightarrow> snd (cuMemcpyHtoD p data sz s) = s)
   \<and> (fst (fst (cuMemcpyDtoH out q sz s)) \<noteq> CUDA_SUCCESS \<longrightarrow>
        snd (cuMemcpyDtoH out q sz s) = s \<and> snd (fst (cuMemcpyDtoH out q sz s)) = None)
   \<and> (fst (cuMemcpyDtoD p q sz s) \<noteq> CUDA_SUCCESS \<longrightarrow> snd (cuMemcpyDtoD p q sz s) = s)
   \<and> (fst (fillDeviceMemory p v k s) \<noteq> CUDA_SUCCESS \<longrightarrow> snd (fillDeviceMemory p v k s) = s)"
  by (auto simp: cuMemcpyHtoD_def cuMemcpyDtoH_def cuMemcpyDtoD_def fillDeviceMemory_def Let_def
      split: option.splits if_splits)

lemma refused_copy_unchanged_witness:
  "fst (cuMemcpyHtoD 4096 (Some [1]) 1 (cuda_init [] Map.empty)) = CUDA_ERROR_INVALID_VALUE
   \<and> snd (cuMemcpyHtoD 4096 (Some [1]) 1 (cuda_init [] Map.empty)) = cuda_init [] Map.empty"
  using refused_copy_unchanged [of 4096 "Some [1]" 1 "cuda_init [] Map.empty"]
  by (simp add: cuMemcpyHtoD_def resolveDeviceRange_def cuda_init_def)

section \<open>Copies and fills\<close>

lemma HtoD_plain:
  assumes "resolveDeviceRange s p (word_of_nat (length data)) = Some p" and "length data < 2 ^ 64"
    and "plain_range s p (length data)"
  shows "\<exists>s'. cuMemcpyHtoD p (Some data) (word_of_nat (length data)) s = (CUDA_SUCCESS, s')
    \<and> load_bytes s' p (length data) = data \<and> undefined_behaviour s' = undefined_behaviour s
    \<and> resolveDeviceRange s' = resolveDeviceRange s \<and> place s' = place s"
  using assms load_store_bytes [OF assms(3)] store_bytes_ub [OF plain_accessible [OF assms(3)]]
  by (simp add: cuMemcpyHtoD_def u64_unat_of_nat)

lemma resolve_new_block:
  assumes "unat off + n \<le> unat sz" and "unat a + unat sz \<le> 2 ^ 64" and "0 < n"
    and "(a, sz) \<in> set (gDeviceAllocations s)"
  shows "resolveDeviceRange s (a + off) (word_of_nat n) = Some (a + off)"
proof -
  have n: "n < 2 ^ 64" using assms(1) u64_unat_less [of sz] by linarith
  have "unat (a + off) = unat a + unat off"
    using assms(1,2,3) by (intro unat_add_lem [THEN iffD1]) simp
  then have "range_inside (a + off) (word_of_nat n) (a, sz)"
    using assms(1) n by (simp add: range_inside_iff u64_unat_of_nat)
  then show ?thesis using assms(4) by (auto simp: resolveDeviceRange_def list_ex_iff)
qed

text \<open>C31: What is copied into a part of a freshly allocated block is read back from it unchanged, and neither
  copy touches anything outside the block.\<close>

lemma alloc_copy_roundtrip:
  assumes "cuMemAlloc True sz (Some a) s = ((CUDA_SUCCESS, Some p), s1)"
    and "unat a + unat sz \<le> 2 ^ 64" and "unat off + length data \<le> unat sz" and "data \<noteq> []"
  shows "\<exists>s2. cuMemcpyHtoD (p + off) (Some data) (word_of_nat (length data)) s1 = (CUDA_SUCCESS, s2)
    \<and> cuMemcpyDtoH True (p + off) (word_of_nat (length data)) s2 = ((CUDA_SUCCESS, Some data), s2)
    \<and> undefined_behaviour s2 = undefined_behaviour s"
proof -
  from assms(1) have p: "p = a"
    and s1: "s1 = (malloc_block a sz s)\<lparr>gDeviceAllocations := map_put a sz (gDeviceAllocations (malloc_block a sz s))\<rparr>"
    by (auto simp: cuMemAlloc_def Let_def split: if_splits)
  have pl: "plain_range s1 (p + off) (length data)"
    using malloc_block_plain [OF assms(3), of a s] by (simp add: s1 p plain_range_iff)
  have len: "length data < 2 ^ 64" using assms(3) u64_unat_less [of sz] by linarith
  have "resolveDeviceRange s1 (p + off) (word_of_nat (length data)) = Some (p + off)"
    unfolding p by (rule resolve_new_block [OF assms(3,2)]) (use assms(4) in \<open>simp_all add: s1 map_put_def\<close>)
  note r = this
  from HtoD_plain [OF r len pl] obtain s2 where
    2: "cuMemcpyHtoD (p + off) (Some data) (word_of_nat (length data)) s1 = (CUDA_SUCCESS, s2)"
      "load_bytes s2 (p + off) (length data) = data" "undefined_behaviour s2 = undefined_behaviour s1"
      "resolveDeviceRange s2 = resolveDeviceRange s1" "place s2 = place s1" by blast
  have acc: "accessible s2 (p + off) (length data)"
    using plain_accessible [OF pl] 2(5) by (simp add: accessible_iff)
  have "undefined_behaviour s1 = undefined_behaviour s" by (simp add: s1 malloc_block_def)
  then show ?thesis
    using 2 r acc len by (simp add: cuMemcpyDtoH_def u64_unat_of_nat touch_accessible)
qed

lemma alloc_copy_roundtrip_witness:
  "\<exists>s2. cuMemcpyHtoD (4096 + 3) (Some [7, 8]) (word_of_nat (length ([7, 8] :: bytes)))
        (snd (cuMemAlloc True 16 (Some 4096) (cuda_init [] Map.empty))) = (CUDA_SUCCESS, s2)
    \<and> cuMemcpyDtoH True (4096 + 3) (word_of_nat (length ([7, 8] :: bytes))) s2 = ((CUDA_SUCCESS, Some [7, 8]), s2)
    \<and> undefined_behaviour s2 = undefined_behaviour (cuda_init [] Map.empty)"
  by (rule alloc_copy_roundtrip [where sz = 16 and a = 4096])
    (simp_all add: cuMemAlloc_def Let_def)

definition sample_alloc :: cuda where
  "sample_alloc = snd (cuMemAlloc True 16 (Some 4096) (cuda_init [] Map.empty))"

lemma sample_alloc_simps:
  "gDeviceAllocations sample_alloc = [(4096, 16)]" "gHostAllocations sample_alloc = []"
  "undefined_behaviour sample_alloc = False"
  by (simp_all add: sample_alloc_def cuMemAlloc_def malloc_block_def map_range_def cuda_init_def map_put_def Let_def)

lemma sample_alloc_plain: "unat off + n \<le> 16 \<Longrightarrow> plain_range sample_alloc (4096 + off) n"
  using malloc_block_plain [of off n 16 4096 "cuda_init [] Map.empty"]
  by (simp add: sample_alloc_def cuMemAlloc_def Let_def plain_range_iff)

text \<open>A fill writes the little-endian bytes of the value, as often as asked, from the start of the range.\<close>

lemma fill_spec:
  fixes v :: "'a::len word"
  assumes "fillDeviceMemory p v count s = (CUDA_SUCCESS, s')"
    and "plain_range s p (unat count * sizeof TYPE('a word))"
  shows "load_bytes s' p (unat count * sizeof TYPE('a word)) = concat (replicate (unat count) (le_bytes v))
    \<and> undefined_behaviour s' = undefined_behaviour s"
proof -
  let ?bs = "concat (replicate (unat count) (le_bytes v))"
  have len: "length ?bs = unat count * sizeof TYPE('a word)"
    by (simp add: length_concat sum_list_replicate)
  from assms(1) have s': "s' = store_bytes p ?bs s"
    by (auto simp: fillDeviceMemory_def Let_def resolveDeviceRange_def split: if_splits)
  show ?thesis
    using load_store_bytes [of s p ?bs] store_bytes_ub [of s p ?bs] assms(2) plain_accessible [OF assms(2)]
    by (simp add: s' len)
qed

lemma fill_spec_witness:
  "\<exists>s'. fillDeviceMemory 4096 (0x0102 :: u16) 3 sample_alloc = (CUDA_SUCCESS, s')
     \<and> load_bytes s' 4096 6 = [2, 1, 2, 1, 2, 1] \<and> \<not> undefined_behaviour s'"
proof -
  obtain s' where s': "fillDeviceMemory 4096 (0x0102 :: u16) 3 sample_alloc = (CUDA_SUCCESS, s')"
    by (simp add: fillDeviceMemory_def resolveDeviceRange_def sample_alloc_simps range_inside_def)
  have "plain_range sample_alloc 4096 (unat (3 :: u64) * sizeof TYPE(u16))"
    using sample_alloc_plain [of 0 6] by simp
  from fill_spec [OF s' this]
  have f: "load_bytes s' 4096 (unat (3 :: u64) * sizeof TYPE(u16)) = concat (replicate (unat (3 :: u64)) (le_bytes (0x0102 :: u16)))"
    "undefined_behaviour s' = False" by (simp_all only: sample_alloc_simps)
  have u: "unat (3 :: u64) = 3" "unat (3 :: u64) * sizeof TYPE(u16) = 6" by simp_all
  have v: "le_bytes (0x0102 :: u16) = [2, 1]" by code_simp
  have "concat (replicate 3 [2, 1 :: u8]) = [2, 1, 2, 1, 2, 1]" by (simp add: numeral_3_eq_3)
  with f s' show ?thesis unfolding u(2) unfolding u(1) v by auto
qed

text \<open>A copy from device to device gives the destination the bytes the source had before, also when the
  two ranges overlap.\<close>

lemma DtoD_spec:
  assumes "cuMemcpyDtoD p q sz s = (CUDA_SUCCESS, s')"
    and "plain_range s p (unat sz)" and "accessible s q (unat sz)"
  shows "load_bytes s' p (unat sz) = load_bytes s q (unat sz) \<and> undefined_behaviour s' = undefined_behaviour s"
proof -
  have "s' = store_bytes p (load_bytes s q (unat sz)) s"
    using assms(1,3) by (auto simp: cuMemcpyDtoD_def resolveDeviceRange_def touch_accessible
        split: option.splits if_splits)
  then show ?thesis
    using load_store_bytes [of s p "load_bytes s q (unat sz)"] store_bytes_ub [of s p "load_bytes s q (unat sz)"]
      assms(2) plain_accessible [OF assms(2)] by simp
qed

lemma DtoD_spec_witness:
  "\<exists>s'. cuMemcpyDtoD 4097 4096 8 sample_alloc = (CUDA_SUCCESS, s')
     \<and> load_bytes s' 4097 8 = load_bytes sample_alloc 4096 8 \<and> \<not> undefined_behaviour s'"
proof -
  obtain s' where s': "cuMemcpyDtoD 4097 4096 8 sample_alloc = (CUDA_SUCCESS, s')"
    by (simp add: cuMemcpyDtoD_def resolveDeviceRange_def sample_alloc_simps range_inside_def)
  have "plain_range sample_alloc 4097 (unat (8 :: u64))" "accessible sample_alloc 4096 (unat (8 :: u64))"
    using sample_alloc_plain [of 1 8] plain_accessible [OF sample_alloc_plain [of 0 8]] by simp_all
  from DtoD_spec [OF s' this] s' show ?thesis by (simp add: sample_alloc_simps)
qed

section \<open>Reservations\<close>

lemma and_not_mask_split: "(x :: u64) = (x AND m) + (x AND NOT m)"
proof -
  have "(x AND m) + (x AND NOT m) = (x AND m) OR (x AND NOT m)"
    by (rule disjunctive_add) (auto simp: bit_simps)
  also have "\<dots> = x" by (rule bit_word_eqI) (auto simp: bit_simps)
  finally show ?thesis by simp
qed

lemma word_and_le_right: "(x :: u64) AND m \<le> m"
  by (simp add: word_le_def uint_and AND_upper2)

lemma alignedAddress_bounds:
  assumes "unat raw + unat alignment \<le> 2 ^ 64" and "alignment \<noteq> 0"
  shows "unat raw \<le> unat (alignedAddress raw alignment)"
    and "unat (alignedAddress raw alignment) < unat raw + unat alignment"
    and "alignedAddress raw alignment AND (alignment - 1) = 0"
proof -
  let ?m = "alignment - 1" and ?x = "raw + (alignment - 1)"
  have m: "unat ?m = unat alignment - 1"
    using assms(2) by (simp add: unat_minus_one)
  have pos: "0 < unat alignment" using assms(2) by (simp add: unat_gt_0)
  have x: "unat ?x = unat raw + unat ?m"
    using assms(1) m pos by (intro unat_add_lem [THEN iffD1]) simp
  have al: "alignedAddress raw alignment = ?x AND NOT ?m"
    by (simp add: alignedAddress_def algebra_simps)
  have "?x = (?x AND ?m) + (?x AND NOT ?m)" by (rule and_not_mask_split)
  then have d: "?x AND NOT ?m = ?x - (?x AND ?m)" by (metis add_diff_cancel_left')
  have le: "unat (?x AND ?m) \<le> unat ?m" using word_and_le_right [of ?x ?m] by (simp add: word_le_nat_alt)
  have "?x AND ?m \<le> ?x" unfolding word_le_nat_alt x using le by simp
  then have u: "unat (alignedAddress raw alignment) = unat raw + unat ?m - unat (?x AND ?m)"
    by (simp add: al d unat_sub x)
  show "unat raw \<le> unat (alignedAddress raw alignment)"
    "unat (alignedAddress raw alignment) < unat raw + unat alignment"
    using u le m pos by linarith+
  show "alignedAddress raw alignment AND (alignment - 1) = 0"
    unfolding al by (rule bit_word_eqI) (simp add: bit_simps)
qed

text \<open>C32: A reservation at no particular address is aligned as asked, lies inside the range the kernel gave,
  and exactly what lies before and after it in that range is unmapped again.\<close>

lemma reserve_spec:
  assumes "cuMemAddressReserve True sz al0 0 0 (Some raw) s = ((CUDA_SUCCESS, Some p), s')"
    and "al = (if al0 = 0 then 65536 else al0)"
    and "unat raw + unat sz + unat al \<le> 2 ^ 64"
  shows "p AND (al - 1) = 0 \<and> unat raw \<le> unat p \<and> unat p + unat sz + unat (al - (p - raw)) = unat raw + unat sz + unat al
    \<and> map_of (gVirtualReservations s') p = Some sz
    \<and> syscalls s' = syscalls s @ (if p = raw then [] else [Munmap raw (p - raw)]) @ [Munmap (p + sz) (al - (p - raw))]"
proof -
  have al: "4096 \<le> al" and p: "p = alignedAddress raw al"
    and s': "s' = (trimReservation raw sz al (mmap_none raw (sz + al) s))
        \<lparr>gVirtualReservations := map_put p sz (gVirtualReservations (trimReservation raw sz al (mmap_none raw (sz + al) s)))\<rparr>"
    using assms(1,2) by (auto simp: cuMemAddressReserve_def Let_def not_less split: if_splits)
  have nz: "al \<noteq> 0" using al by auto
  have b: "unat raw + unat al \<le> 2 ^ 64" using assms(3) by simp
  note k = alignedAddress_bounds [OF b nz, folded p]
  have pre: "unat (p - raw) = unat p - unat raw" using k(1) by (intro unat_sub) (simp add: word_le_nat_alt)
  have le: "p - raw \<le> al" using pre k by (simp add: word_le_nat_alt)
  have suf: "unat (al - (p - raw)) = unat al - (unat p - unat raw)" using unat_sub [OF le] pre by simp
  have "0 < unat (al - (p - raw))" using suf k by linarith
  then have nz2: "al - (p - raw) \<noteq> 0" by (simp add: unat_gt_0)
  have nz3: "p - raw = 0 \<longleftrightarrow> p = raw" by simp
  show ?thesis
    using k suf nz2
    by (auto simp: s' trimReservation_def Let_def p [symmetric] munmap_def log_call_def mmap_none_def map_range_def)
qed

lemma reserve_spec_witness:
  "\<exists>p s'. cuMemAddressReserve True 8192 0 0 0 (Some 0x12345000) (cuda_init [] Map.empty) = ((CUDA_SUCCESS, Some p), s')
    \<and> p AND (65536 - 1) = 0 \<and> map_of (gVirtualReservations s') p = Some 8192"
proof -
  obtain p s' where r: "cuMemAddressReserve True 8192 0 0 0 (Some 0x12345000) (cuda_init [] Map.empty) = ((CUDA_SUCCESS, Some p), s')"
    by (simp add: cuMemAddressReserve_def Let_def)
  from reserve_spec [OF r, of 65536] r show ?thesis by simp
qed

end
