(* ===== verification/CudaMemSafety.thy ===== *)
theory CudaMemSafety
  imports CudaMemoryProps
begin

text \<open>
  Memory safety of the CUDA driver. As long as a program uses the allocation, copy and fill calls,
  whatever their arguments, the driver never touches a byte outside a live block and never frees what it did
  not allocate (\<open>mem_reachable_safe\<close>). Address reservations and imported memory break this: the last section
  has the sequences of calls.
\<close>

section \<open>The invariant\<close>

definition blocks_ok :: "cuda \<Rightarrow> bool" where
  "blocks_ok s \<longleftrightarrow>
     (\<forall>p n a. map_of (blocks s) p = Some n \<longrightarrow> in_range p (unat n) a \<longrightarrow> place s a = Some (Anonymous a))
   \<and> (\<forall>p n. map_of (blocks s) p = Some n \<longrightarrow> unat p + unat n \<le> 2 ^ 64)
   \<and> (\<forall>p n q m a. map_of (blocks s) p = Some n \<longrightarrow> map_of (blocks s) q = Some m \<longrightarrow>
        in_range p (unat n) a \<longrightarrow> in_range q (unat m) a \<longrightarrow> p = q)"

definition backed :: "cuda \<Rightarrow> bool" where
  "backed s \<longleftrightarrow> map_ok (gDeviceAllocations s) \<and> map_ok (gHostAllocations s) \<and> gExternalDevicePointers s = []
   \<and> (\<forall>p n. map_of (gDeviceAllocations s) p = Some n \<longrightarrow> map_of (blocks s) p = Some n)
   \<and> (\<forall>p n. map_of (gHostAllocations s) p = Some n \<longrightarrow> map_of (blocks s) p = Some n)
   \<and> (\<forall>p. map_of (gDeviceAllocations s) p = None \<or> map_of (gHostAllocations s) p = None)"

definition mem_ok :: "cuda \<Rightarrow> bool" where
  "mem_ok s \<longleftrightarrow> blocks_ok s \<and> backed s \<and> \<not> undefined_behaviour s"

text \<open>What the allocator promises: a non-null block, inside the address space, apart from every live one.\<close>

definition fresh_block :: "cuda \<Rightarrow> ptr \<Rightarrow> u64 \<Rightarrow> bool" where
  "fresh_block s p n \<longleftrightarrow> p \<noteq> 0 \<and> unat p + unat n \<le> 2 ^ 64 \<and> map_of (blocks s) p = None
     \<and> (\<forall>q m a. map_of (blocks s) q = Some m \<longrightarrow> in_range q (unat m) a \<longrightarrow> \<not> in_range p (unat n) a)"

section \<open>The steps\<close>

inductive mem_step :: "cuda \<Rightarrow> cuda \<Rightarrow> bool" where
  alloc: "fresh_block s p n \<Longrightarrow> mem_step s (snd (cuMemAlloc out n (Some p) s))"
| alloc_fails: "mem_step s (snd (cuMemAlloc out n None s))"
| free: "mem_step s (snd (cuMemFree p s))"
| host_alloc: "fresh_block s p n \<Longrightarrow> mem_step s (snd (cuMemHostAlloc out n fl (Some p) s))"
| host_alloc_fails: "mem_step s (snd (cuMemHostAlloc out n fl None s))"
| host_free: "mem_step s (snd (cuMemFreeHost p s))"
| host_pointer: "mem_step s (snd (cuMemHostGetDevicePointer out p fl s))"
| to_device: "source = None \<or> source = Some data \<and> unat n \<le> length data \<Longrightarrow> mem_step s (snd (cuMemcpyHtoD p source n s))"
| to_host: "mem_step s (snd (cuMemcpyDtoH out p n s))"
| on_device: "mem_step s (snd (cuMemcpyDtoD p q n s))"
| fill8: "mem_step s (snd (cuMemsetD8_v2 p v8 k s))"
| fill16: "mem_step s (snd (cuMemsetD16_v2 p v16 k s))"
| fill32: "mem_step s (snd (cuMemsetD32_v2 p v32 k s))"
| access: "mem_step s (snd (cuMemSetAccess p n descriptors k s))"

inductive mem_reachable :: "cuda \<Rightarrow> cuda \<Rightarrow> bool" for s0 where
  start: "mem_reachable s0 s0"
| step: "mem_reachable s0 s \<Longrightarrow> mem_step s s' \<Longrightarrow> mem_reachable s0 s'"

inductive_cases mem_stepE: "mem_step s s'"

lemma mem_ok_frame:
  assumes "mem_ok s" and "blocks s' = blocks s" and "place s' = place s"
    and "gDeviceAllocations s' = gDeviceAllocations s" and "gHostAllocations s' = gHostAllocations s"
    and "gExternalDevicePointers s' = gExternalDevicePointers s"
    and "undefined_behaviour s' = undefined_behaviour s"
  shows "mem_ok s'"
  using assms by (simp add: mem_ok_def blocks_ok_def backed_def)

lemma store_bytes_other [simp]:
  "blocks (store_bytes p bs s) = blocks s" "gExternalDevicePointers (store_bytes p bs s) = gExternalDevicePointers s"
proof -
  have 1: "blocks (store_byte a b s) = blocks s
      \<and> gExternalDevicePointers (store_byte a b s) = gExternalDevicePointers s" for a b s
    by (simp add: store_byte_def broken_def split: option.split)
  show "blocks (store_bytes p bs s) = blocks s"
    by (induction bs arbitrary: p s) (simp_all add: 1)
  show "gExternalDevicePointers (store_bytes p bs s) = gExternalDevicePointers s"
    by (induction bs arbitrary: p s) (simp_all add: 1)
qed

text \<open>A range that is accepted is accessible, and so storing into it and loading from it is safe.\<close>

lemma resolved_accessible:
  assumes "mem_ok s" and "resolveDeviceRange s p n = Some h"
  shows "h = p" and "k \<le> unat n \<Longrightarrow> accessible s h k"
proof -
  from assms(2) obtain b m where h: "h = p"
    and b: "(b, m) \<in> set (gDeviceAllocations s @ gHostAllocations s)"
    and r: "unat b \<le> unat p" "unat p + unat n \<le> unat b + unat m"
    by (auto simp: resolveDeviceRange_spec)
  have bl: "map_of (blocks s) b = Some m"
    using b assms(1) by (auto simp: mem_ok_def backed_def map_ok_in_set)
  have "place s (p + word_of_nat i) \<noteq> None" if "i < unat n" for i
  proof -
    have "p + word_of_nat i = b + word_of_nat (unat p - unat b + i)"
      using r(1) by (simp add: of_nat_diff)
    moreover have "unat p - unat b + i < unat m" using that r by linarith
    ultimately have "in_range b (unat m) (p + word_of_nat i)"
      using u64_unat_less [of m] in_range_offset [of "unat p - unat b + i" b "unat m"] by (metis less_trans)
    then show ?thesis using assms(1) bl by (auto simp: mem_ok_def blocks_ok_def)
  qed
  then show "h = p" "k \<le> unat n \<Longrightarrow> accessible s h k" by (auto simp: h accessible_iff)
qed

lemma mem_ok_store:
  assumes "mem_ok s" and "resolveDeviceRange s p n = Some h" and "length bs \<le> unat n"
  shows "mem_ok (store_bytes h bs s)"
  by (rule mem_ok_frame [OF assms(1)])
    (simp_all add: store_bytes_ub resolved_accessible(2) [OF assms(1,2,3)])

lemma mem_ok_malloc:
  assumes ok: "mem_ok s" and fresh: "fresh_block s p n"
  shows "blocks_ok (malloc_block p n s)"
proof -
  let ?s = "malloc_block p n s"
  have bl: "map_of (blocks ?s) = (map_of (blocks s))(p \<mapsto> n)" by (simp add: malloc_block_def map_range_def)
  have pl: "place ?s a = (if in_range p (unat n) a then Some (Anonymous a) else place s a)" for a
    by (simp add: malloc_block_def map_range_def)
  note b = ok [unfolded mem_ok_def blocks_ok_def] and f = fresh [unfolded fresh_block_def]
  show ?thesis unfolding blocks_ok_def bl
  proof (intro conjI allI impI)
    fix q m a assume "((map_of (blocks s))(p \<mapsto> n)) q = Some m" "in_range q (unat m) a"
    then show "place ?s a = Some (Anonymous a)" using b by (auto simp: pl split: if_splits)
  next
    fix q m assume "((map_of (blocks s))(p \<mapsto> n)) q = Some m"
    then show "unat q + unat m \<le> 2 ^ 64" using b f by (auto split: if_splits)
  next
    fix q m q' m' a
    assume "((map_of (blocks s))(p \<mapsto> n)) q = Some m" "((map_of (blocks s))(p \<mapsto> n)) q' = Some m'"
      "in_range q (unat m) a" "in_range q' (unat m') a"
    then show "q = q'" using b f by (metis fun_upd_apply option.inject)
  qed
qed

lemma free_block_ok:
  assumes b: "blocks_ok s" and p: "map_of (blocks s) p = Some n" and nz: "p \<noteq> 0"
  shows "blocks_ok (free_block p s)" and "undefined_behaviour (free_block p s) = undefined_behaviour s"
    and "map_of (blocks (free_block p s)) = (map_of (blocks s))(p := None)"
proof -
  let ?s = "free_block p s"
  show bl: "map_of (blocks ?s) = (map_of (blocks s))(p := None)"
    using p nz by (simp add: free_block_def log_call_def map_range_def)
  show "undefined_behaviour ?s = undefined_behaviour s"
    using p nz by (simp add: free_block_def log_call_def map_range_def)
  have pl: "place ?s a = (if in_range p (unat n) a then None else place s a)" for a
    using p nz by (simp add: free_block_def log_call_def map_range_def)
  note b' = b [unfolded blocks_ok_def]
  show "blocks_ok ?s" unfolding blocks_ok_def bl pl
  proof (intro conjI allI impI)
    fix q m a assume q: "((map_of (blocks s))(p := None)) q = Some m" "in_range q (unat m) a"
    then have "q \<noteq> p" "map_of (blocks s) q = Some m" by (auto split: if_splits)
    moreover from this have "\<not> in_range p (unat n) a" using b' q(2) p by blast
    ultimately show "(if in_range p (unat n) a then None else place s a) = Some (Anonymous a)"
      using b' q(2) by simp
  next
    fix q m assume "((map_of (blocks s))(p := None)) q = Some m"
    then show "unat q + unat m \<le> 2 ^ 64" using b' by (auto split: if_splits)
  next
    fix q m q' m' a
    assume "((map_of (blocks s))(p := None)) q = Some m" "((map_of (blocks s))(p := None)) q' = Some m'"
      "in_range q (unat m) a" "in_range q' (unat m') a"
    then show "q = q'" using b' by (metis fun_upd_apply option.distinct(1))
  qed
qed

lemma malloc_block_frame:
  "gDeviceAllocations (malloc_block p n s) = gDeviceAllocations s"
  "gHostAllocations (malloc_block p n s) = gHostAllocations s"
  "gExternalDevicePointers (malloc_block p n s) = gExternalDevicePointers s"
  "undefined_behaviour (malloc_block p n s) = undefined_behaviour s"
  "map_of (blocks (malloc_block p n s)) = (map_of (blocks s))(p \<mapsto> n)"
  by (simp_all add: malloc_block_def map_range_def)

lemma free_block_frame:
  "gDeviceAllocations (free_block p s) = gDeviceAllocations s"
  "gHostAllocations (free_block p s) = gHostAllocations s"
  "gExternalDevicePointers (free_block p s) = gExternalDevicePointers s"
  by (simp_all add: free_block_def log_call_def map_range_def broken_def split: option.split)

text \<open>One lemma per call that changes the registries.\<close>

lemma blocks_ok_cong: "blocks s' = blocks s \<Longrightarrow> place s' = place s \<Longrightarrow> blocks_ok s \<Longrightarrow> blocks_ok s'"
  by (simp add: blocks_ok_def)

lemma backed_fresh:
  "mem_ok s \<Longrightarrow> fresh_block s p n \<Longrightarrow>
     map_of (gDeviceAllocations s) p = None \<and> map_of (gHostAllocations s) p = None"
  unfolding mem_ok_def backed_def fresh_block_def by (metis not_None_eq)

lemma mem_ok_cuMemAlloc:
  assumes "mem_ok s" and "fresh_block s p n"
  shows "mem_ok (snd (cuMemAlloc out n (Some p) s))"
proof (cases "\<not> out \<or> n = 0")
  case True
  then show ?thesis using assms(1) by (auto simp: cuMemAlloc_def)
next
  case False
  let ?s = "(malloc_block p n s)\<lparr>gDeviceAllocations := map_put p n (gDeviceAllocations (malloc_block p n s))\<rparr>"
  have e: "snd (cuMemAlloc out n (Some p) s) = ?s" using False by (simp add: cuMemAlloc_def Let_def)
  have "blocks_ok ?s" by (rule blocks_ok_cong [OF _ _ mem_ok_malloc [OF assms]]) simp_all
  moreover have "backed ?s"
    using backed_fresh [OF assms] assms(1) unfolding mem_ok_def backed_def
    by (auto simp: malloc_block_frame intro: map_ok_put)
  ultimately show ?thesis unfolding e using assms(1) by (simp add: mem_ok_def malloc_block_frame)
qed

lemma mem_ok_cuMemHostAlloc:
  assumes "mem_ok s" and "fresh_block s p n"
  shows "mem_ok (snd (cuMemHostAlloc out n fl (Some p) s))"
proof (cases "\<not> out \<or> n = 0")
  case True
  then show ?thesis using assms(1) by (auto simp: cuMemHostAlloc_def)
next
  case False
  let ?s = "(malloc_block p n s)\<lparr>gHostAllocations := map_put p n (gHostAllocations (malloc_block p n s))\<rparr>"
  have e: "snd (cuMemHostAlloc out n fl (Some p) s) = ?s" using False by (simp add: cuMemHostAlloc_def Let_def)
  have "blocks_ok ?s" by (rule blocks_ok_cong [OF _ _ mem_ok_malloc [OF assms]]) simp_all
  moreover have "backed ?s"
    using backed_fresh [OF assms] assms(1) unfolding mem_ok_def backed_def
    by (auto simp: malloc_block_frame intro: map_ok_put)
  ultimately show ?thesis unfolding e using assms(1) by (simp add: mem_ok_def malloc_block_frame)
qed

lemma mem_ok_cuMemFree:
  assumes ok: "mem_ok s"
  shows "mem_ok (snd (cuMemFree p s))"
proof (cases "p = 0 \<or> map_of (gDeviceAllocations s) p = None")
  case True
  then show ?thesis using ok by (auto simp: cuMemFree_def map_contains_def)
next
  case False
  then obtain n where n: "map_of (gDeviceAllocations s) p = Some n" and nz: "p \<noteq> 0" by auto
  note b = ok [unfolded mem_ok_def backed_def]
  have other: "map_of (gHostAllocations s) p = None" using b n by (metis option.distinct(1))
  let ?s1 = "s\<lparr>gDeviceAllocations := map_erase p (gDeviceAllocations s),
                gExternalDevicePointers := set_erase p (gExternalDevicePointers s)\<rparr>"
  have e: "snd (cuMemFree p s) = free_block p ?s1" using False b by (auto simp: cuMemFree_def map_contains_def)
  have 1: "blocks_ok ?s1" by (rule blocks_ok_cong [of _ s]) (use ok in \<open>simp_all add: mem_ok_def\<close>)
  have bl: "map_of (blocks ?s1) p = Some n" using b n by simp
  note f = free_block_ok [OF 1 bl nz]
  have "backed (free_block p ?s1)"
    using b n other unfolding backed_def f(3) free_block_frame
    by (auto simp: set_erase_def intro: map_ok_erase)
  then show ?thesis unfolding e using f b by (simp add: mem_ok_def)
qed

lemma mem_ok_cuMemFreeHost:
  assumes ok: "mem_ok s"
  shows "mem_ok (snd (cuMemFreeHost p s))"
proof (cases "p = 0 \<or> map_of (gHostAllocations s) p = None")
  case True
  then show ?thesis using ok by (auto simp: cuMemFreeHost_def map_contains_def)
next
  case False
  then obtain n where n: "map_of (gHostAllocations s) p = Some n" and nz: "p \<noteq> 0" by auto
  note b = ok [unfolded mem_ok_def backed_def]
  have other: "map_of (gDeviceAllocations s) p = None" using b n by (metis option.distinct(1))
  let ?s1 = "s\<lparr>gHostAllocations := map_erase p (gHostAllocations s)\<rparr>"
  have e: "snd (cuMemFreeHost p s) = free_block p ?s1" using False by (auto simp: cuMemFreeHost_def map_contains_def)
  have 1: "blocks_ok ?s1" by (rule blocks_ok_cong [of _ s]) (use ok in \<open>simp_all add: mem_ok_def\<close>)
  have bl: "map_of (blocks ?s1) p = Some n" using b n by simp
  note f = free_block_ok [OF 1 bl nz]
  have "backed (free_block p ?s1)"
    using b n other unfolding backed_def f(3) free_block_frame
    by (auto intro: map_ok_erase)
  then show ?thesis unfolding e using f b by (simp add: mem_ok_def)
qed

lemma mem_ok_fill:
  fixes v :: "'a::len word"
  assumes ok: "mem_ok s" and w: "sizeof TYPE('a word) < 2 ^ 64" "sizeof TYPE('a word) \<noteq> 0"
  shows "mem_ok (snd (fillDeviceMemory p v k s))"
proof -
  let ?w = "word_of_nat (sizeof TYPE('a word)) :: u64"
  let ?bs = "concat (replicate (unat k) (le_bytes v))"
  show ?thesis
  proof (cases "k > (- 1) div ?w")
    case True
    then show ?thesis using ok by (simp add: fillDeviceMemory_def Let_def)
  next
    case False
    have uw: "unat ?w = sizeof TYPE('a word)" using w by (simp add: u64_unat_of_nat)
    have "unat k \<le> (2 ^ 64 - 1) div sizeof TYPE('a word)"
      using False uw by (simp add: not_less word_le_nat_alt unat_div unsigned_minus_1_eq_mask mask_eq_exp_minus_1)
    then have "unat k * sizeof TYPE('a word) \<le> 2 ^ 64 - 1"
      by (rule le_trans [OF mult_le_mono1 div_times_less_eq_dividend])
    then have u: "unat (k * ?w) = unat k * sizeof TYPE('a word)"
      using uw by (intro trans [OF unat_mult_lem [THEN iffD1]]) simp_all
    have len: "length ?bs = unat (k * ?w)" by (simp add: u length_concat sum_list_replicate)
    show ?thesis
      using False ok mem_ok_store [OF ok, of p "k * ?w" _ ?bs] len
      by (simp add: fillDeviceMemory_def Let_def split: option.split)
  qed
qed

lemma mem_ok_copies:
  assumes ok: "mem_ok s"
  shows "source = None \<or> source = Some data \<and> unat n \<le> length data \<Longrightarrow> mem_ok (snd (cuMemcpyHtoD p source n s))"
    and "mem_ok (snd (cuMemcpyDtoH out p n s))" and "mem_ok (snd (cuMemcpyDtoD p q n s))"
proof -
  show "mem_ok (snd (cuMemcpyHtoD p source n s))"
    if "source = None \<or> source = Some data \<and> unat n \<le> length data"
    using that ok mem_ok_store [OF ok, of p n _ "take (unat n) data"]
    by (auto simp: cuMemcpyHtoD_def split: option.split)
  show "mem_ok (snd (cuMemcpyDtoH out p n s))"
    using ok resolved_accessible(2) [OF ok, of p n] by (auto simp: cuMemcpyDtoH_def touch_accessible split: option.split)
  show "mem_ok (snd (cuMemcpyDtoD p q n s))"
    using ok resolved_accessible(2) [OF ok, of q n] mem_ok_store [OF ok, of p n]
    by (auto simp: cuMemcpyDtoD_def touch_accessible split: option.split)
qed

lemma mem_step_ok: "mem_step s s' \<Longrightarrow> mem_ok s \<Longrightarrow> mem_ok s'"
proof (induction rule: mem_step.induct)
  case (alloc s p n out)
  then show ?case by (intro mem_ok_cuMemAlloc)
next
  case (host_alloc s p n out fl)
  then show ?case by (intro mem_ok_cuMemHostAlloc)
next
  case (free s p)
  then show ?case by (intro mem_ok_cuMemFree)
next
  case (host_free s p)
  then show ?case by (intro mem_ok_cuMemFreeHost)
next
  case (to_device source data n s p)
  then show ?case by (intro mem_ok_copies(1))
next
  case (to_host s out p n)
  then show ?case by (intro mem_ok_copies(2))
next
  case (on_device s p q n)
  then show ?case by (intro mem_ok_copies(3))
next
  case (fill8 s p v k)
  then show ?case unfolding cuMemsetD8_v2_def by (intro mem_ok_fill) (simp_all add: sizeof_def)
next
  case (fill16 s p v k)
  then show ?case unfolding cuMemsetD16_v2_def by (intro mem_ok_fill) (simp_all add: sizeof_def)
next
  case (fill32 s p v k)
  then show ?case unfolding cuMemsetD32_v2_def by (intro mem_ok_fill) (simp_all add: sizeof_def)
qed (auto simp: cuMemAlloc_def cuMemHostAlloc_def cuMemHostGetDevicePointer_def cuMemSetAccess_def)

lemma mem_ok_init: "mem_ok (cuda_init allocator table)"
  by (simp add: mem_ok_def blocks_ok_def backed_def cuda_init_def)

lemma mem_reachable_ok: "mem_reachable s0 s \<Longrightarrow> mem_ok s0 \<Longrightarrow> mem_ok s"
  by (induction rule: mem_reachable.induct) (auto intro: mem_step_ok)

text \<open>C3: Whatever sequence of allocations, frees, copies and fills a program asks for, with whatever sizes,
  addresses and (even repeated or invalid) pointers, and whatever blocks the allocator gives out, the driver
  touches only bytes of live blocks and frees only what it allocated, and every registered range is a live
  block of its registered size.\<close>

theorem mem_reachable_safe:
  assumes "mem_reachable (cuda_init allocator table) s"
  shows "\<not> undefined_behaviour s \<and> blocks_ok s \<and> backed s"
  using mem_reachable_ok [OF assms mem_ok_init] by (simp add: mem_ok_def)

lemma mem_reachable_safe_witness:
  "\<exists>s. mem_reachable (cuda_init [] Map.empty) s \<and> gDeviceAllocations s = [] \<and> syscalls s = [Free 4096]
     \<and> \<not> undefined_behaviour s"
proof -
  let ?s0 = "cuda_init [] Map.empty"
  let ?s1 = "snd (cuMemAlloc True 16 (Some 4096) ?s0)"
  let ?s2 = "snd (cuMemFree 4096 (snd (cuMemcpyHtoD 4100 (Some [1, 2]) 2 ?s1)))"
  have 1: "fresh_block ?s0 4096 16" by (simp add: fresh_block_def cuda_init_def)
  have 2: "mem_step ?s1 (snd (cuMemcpyHtoD 4100 (Some [1, 2]) 2 ?s1))"
    by (rule mem_step.to_device [of _ "[1, 2]"]) simp
  have r: "mem_reachable ?s0 ?s2"
    by (rule mem_reachable.step [OF mem_reachable.step [OF mem_reachable.step [OF mem_reachable.start
        mem_step.alloc [OF 1]] 2] mem_step.free])
  have "gDeviceAllocations ?s2 = [] \<and> syscalls ?s2 = [Free 4096]"
    by (simp add: cuMemAlloc_def Let_def cuda_init_def malloc_block_def map_range_def map_put_def map_erase_def
        cuMemcpyHtoD_def resolveDeviceRange_def range_inside_def store_byte_def in_range_def
        cuMemFree_def map_contains_def free_block_def log_call_def)
  with mem_reachable_safe [OF r] r show ?thesis by blast
qed

section \<open>Where it breaks\<close>

text \<open>The state after reserving two pages at 65536, creating a handle of one page and mapping it into the second
  page.\<close>

definition reserved_state :: cuda where
  "reserved_state = snd (cuMemCreate True 4096 True 0 (Some (3, 0)) True
     (snd (cuMemAddressReserve True 8192 0 65536 0 (Some 65536) (cuda_init [] Map.empty))))"

definition mapped_state :: cuda where
  "mapped_state = snd (cuMemMap 69632 4096 0 1 0 True reserved_state)"

lemma reserved_state_simps:
  "gVirtualReservations reserved_state = [(65536, 8192)]" "gDeviceAllocations reserved_state = []"
  "gGenericAllocations reserved_state = [(1, \<lparr>generic_fd = 3, generic_size = 4096\<rparr>)]"
  "blocks reserved_state = []" "gExternalDevicePointers reserved_state = []" "fdTable reserved_state 3 = Some 0"
  by (simp_all add: reserved_state_def cuMemCreate_def cuMemAddressReserve_def cuda_init_def Let_def mmap_none_def
      map_range_def map_put_def)

lemma mapped_state_eq:
  "cuMemMap 69632 4096 0 1 0 True reserved_state = (CUDA_SUCCESS, mapped_state)"
  by (simp add: mapped_state_def cuMemMap_def reserved_state_simps range_inside_def Let_def)

lemma mapped_state_simps:
  "gVirtualReservations mapped_state = [(65536, 8192)]" "gDeviceAllocations mapped_state = [(69632, 4096)]"
  by (simp_all add: mapped_state_def cuMemMap_def reserved_state_simps range_inside_def Let_def mmap_file_def
      map_range_def map_put_def)

text \<open>After \<^verbatim>\<open>cuMemAddressFree\<close> a mapping that starts inside the freed reservation is still
  registered: a copy into it is accepted, and writes to unmapped memory.\<close>

lemma address_free_leaves_mapping:
  assumes "map_of (gVirtualReservations s) p = Some sz" and "map_of (gDeviceAllocations s) q = Some n"
    and "q \<noteq> p" and "range_inside q n (p, sz)" and "p \<noteq> 0" and "n \<noteq> 0"
  shows "fst (cuMemAddressFree p sz True s) = CUDA_SUCCESS
    \<and> fst (cuMemcpyHtoD q (Some [b]) 1 (snd (cuMemAddressFree p sz True s))) = CUDA_SUCCESS
    \<and> undefined_behaviour (snd (cuMemcpyHtoD q (Some [b]) 1 (snd (cuMemAddressFree p sz True s))))"
proof -
  have r: "unat p \<le> unat q" "unat q + unat n \<le> unat p + unat sz"
    using assms(4) by (simp_all add: range_inside_iff)
  have n: "0 < unat n" using assms(6) by (simp add: unat_gt_0)
  have sz: "sz \<noteq> 0" using r n by (auto simp: unat_eq_0)
  let ?s = "munmap p sz (s\<lparr>gVirtualReservations := map_erase p (gVirtualReservations s),
                    gDeviceAllocations := map_erase p (gDeviceAllocations s)\<rparr>)"
  have e: "cuMemAddressFree p sz True s = (CUDA_SUCCESS, ?s)"
    using assms(1,5) sz by (simp add: cuMemAddressFree_def Let_def)
  have "in_range p (unat sz) q" using r n by (simp add: in_range_def unat_sub word_le_nat_alt)
  then have pl: "place ?s q = None" by (simp add: munmap_def log_call_def map_range_def)
  have "map_of (gDeviceAllocations ?s) q = Some n"
    using assms(2,3) by (simp add: munmap_def log_call_def map_range_def)
  then have "(q, n) \<in> set (gDeviceAllocations ?s)" by (rule map_of_SomeD)
  moreover have "range_inside q 1 (q, n)" using n by (simp add: range_inside_iff)
  ultimately have "resolveDeviceRange ?s q 1 = Some q"
    by (auto simp: resolveDeviceRange_def list_ex_iff)
  then show ?thesis by (simp add: e cuMemcpyHtoD_def store_byte_def pl)
qed

lemma address_free_leaves_mapping_witness:
  "fst (cuMemAddressFree 65536 8192 True mapped_state) = CUDA_SUCCESS
    \<and> undefined_behaviour (snd (cuMemcpyHtoD 69632 (Some [7]) 1 (snd (cuMemAddressFree 65536 8192 True mapped_state))))"
  using address_free_leaves_mapping [of mapped_state 65536 8192 69632 4096 7]
  by (simp add: mapped_state_simps range_inside_def)

text \<open>\<^verbatim>\<open>cuMemFree\<close> accepts the address of a mapped handle, and then calls \<^verbatim>\<open>free\<close> on memory
  that did not come from \<^verbatim>\<open>malloc\<close>.\<close>

lemma free_of_mapping:
  assumes "cuMemMap p sz off h 0 True s = (CUDA_SUCCESS, s1)"
    and "map_of (blocks s) p = None" and "p \<notin> set (gExternalDevicePointers s)"
  shows "fst (cuMemFree p s1) = CUDA_SUCCESS \<and> undefined_behaviour (snd (cuMemFree p s1))
    \<and> syscalls (snd (cuMemFree p s1)) = syscalls s @ [Free p]"
proof -
  have p: "p \<noteq> 0" using assms(1) by (auto simp: cuMemMap_def)
  from assms(1) obtain fileno where
    "s1 = (mmap_file p sz fileno (unat off) s)
       \<lparr>gDeviceAllocations := map_put p sz (gDeviceAllocations (mmap_file p sz fileno (unat off) s))\<rparr>"
    by (auto simp: cuMemMap_def Let_def split: option.splits if_splits)
  then show ?thesis
    using assms(2,3) p
    by (simp add: cuMemFree_def map_contains_def Let_def free_block_def log_call_def mmap_file_def map_range_def broken_def)
qed

lemma free_of_mapping_witness:
  "fst (cuMemFree 69632 mapped_state) = CUDA_SUCCESS \<and> undefined_behaviour (snd (cuMemFree 69632 mapped_state))"
  using free_of_mapping [OF mapped_state_eq] by (simp add: reserved_state_simps)

end
