(* ===== verification/CudaSafety.thy ===== *)
theory CudaSafety
  imports CudaMipmapSteps CudaMemSafety
begin

text \<open>
  Handle safety of the CUDA driver: the step relation of the interface, the reachable states, and the
  invariant of the registries in all of them. The one call that breaks it, unloading the module of a registered
  library by its own handle, is left out of the relation \<open>handle_call\<close>; \<open>driver_run\<close> has it and records it, and at the
  end it is shown to be broken, beside other sequences whose results are not what the interface promises.
\<close>

section \<open>The calls\<close>

inductive handle_call :: "cuda \<Rightarrow> cuda \<Rightarrow> bool" where
  "handle_call s (snd (cuStreamCreate out fl s))"
| "handle_call s (snd (cuStreamCreateWithPriority out fl prio s))"
| "handle_call s (snd (cuStreamDestroy p s))"
| "handle_call s (snd (cuStreamQuery p s))"
| "handle_call s (snd (cuEventCreate out fl s))"
| "handle_call s (snd (cuEventRecord p q s))"
| "handle_call s (snd (cuEventQuery p s))"
| "handle_call s (snd (cuEventSynchronize p s))"
| "handle_call s (snd (cuEventDestroy p s))"
| "handle_call s (snd (cuStreamWaitEvent q p fl s))"
| "handle_call s (snd (loadModuleToken out img s))"
| "handle_call s (snd (cuModuleGetFunction out p name s))"
| module_unload: "p \<notin> lib_module (heap s) ` set (gLibraries s) \<Longrightarrow> handle_call s (snd (cuModuleUnload p s))"
| "handle_call s (snd (cuLaunchKernel p s))"
| "handle_call s (snd (cuLibraryLoadData out img a b c d e f s))"
| "handle_call s (snd (cuLibraryGetModule out p s))"
| "handle_call s (snd (cuLibraryGetKernel out p name s))"
| "handle_call s (snd (cuLibraryUnload p s))"
| "handle_call s (snd (cuKernelGetFunction out p s))"
| "handle_call s (snd (cuKernelGetName out p s))"
| "handle_call s (snd (cuImportExternalMemory out mdescr fstat mmap s))"
| "handle_call s (snd (cuExternalMemoryGetMappedBuffer out p bdescr s))"
| "handle_call s (snd (cuExternalMemoryGetMappedMipmappedArray out p adescr s))"
| "handle_call s (snd (cuMipmappedArrayGetLevel out p level s))"
| "handle_call s (snd (cuMipmappedArrayDestroy p s))"
| "handle_call s (snd (cuDestroyExternalMemory p s))"
| "handle_call s (snd (cuImportExternalSemaphore out sdescr fstat s))"
| "handle_call s (snd (cuSignalExternalSemaphoresAsync given ps answers s))"
| "handle_call s (snd (cuWaitExternalSemaphoresAsync given ps answers s))"
| "handle_call s (snd (cuDestroyExternalSemaphore p s))"
| "handle_call s (snd (cuArray3DCreate_v2 out d s))"
| "handle_call s (snd (cuArrayDestroy p s))"
| "handle_call s (snd (cuTexObjectCreate out a b s))"

inductive memory_call :: "cuda \<Rightarrow> cuda \<Rightarrow> bool" where
  "memory_call s (snd (cuMemAlloc out sz malloc s))"
| "memory_call s (snd (cuMemFree p s))"
| "memory_call s (snd (cuMemHostAlloc out sz fl malloc s))"
| "memory_call s (snd (cuMemFreeHost p s))"
| "memory_call s (snd (cuMemHostGetDevicePointer out p fl s))"
| "memory_call s (snd (cuMemAddressReserve out sz al req flg mmap s))"
| "memory_call s (snd (cuMemAddressFree p sz b s))"
| "memory_call s (snd (cuMemCreate out sz props flg memfd b s))"
| "memory_call s (snd (cuMemRelease h s))"
| "memory_call s (snd (cuMemMap p sz off h flg b s))"
| "memory_call s (snd (cuMemUnmap p sz b s))"
| "memory_call s (snd (cuMemSetAccess p sz b n s))"
| "memory_call s (snd (cuMemExportToShareableHandle out h ty flg dup s))"
| "memory_call s (snd (cuMemcpyHtoD p source sz s))"
| "memory_call s (snd (cuMemcpyDtoH out p sz s))"
| "memory_call s (snd (cuMemcpyDtoD p q sz s))"
| "memory_call s (snd (cuMemsetD8_v2 p v8 n s))"
| "memory_call s (snd (cuMemsetD16_v2 p v16 n s))"
| "memory_call s (snd (cuMemsetD32_v2 p v32 n s))"

inductive context_call :: "cuda \<Rightarrow> cuda \<Rightarrow> bool" where
  "context_call s (snd (cuCtxSetCurrent p s))"
| "context_call s (snd (cuCtxCreate out fl d s))"
| "context_call s (snd (cuCtxDetach p s))"
| "context_call s (snd (cuCtxPushCurrent p s))"
| "context_call s (snd (cuCtxPopCurrent out s))"
| "context_call s (snd (cuCtxDestroy p s))"
| "context_call s (snd (cuDevicePrimaryCtxReset d s))"
| "context_call s (snd (contextStoragePut p key v destructor s))"
| "context_call s (snd (contextStorageDelete p key s))"

inductive cuda_step :: "cuda \<Rightarrow> cuda \<Rightarrow> bool" where
  handle: "handle_call s s' \<Longrightarrow> cuda_step s s'"
| memory: "memory_call s s' \<Longrightarrow> cuda_step s s'"
| ctxt: "context_call s s' \<Longrightarrow> cuda_step s s'"

inductive cuda_reachable :: "cuda \<Rightarrow> cuda \<Rightarrow> bool" for s0 where
  start: "cuda_reachable s0 s0"
| step: "cuda_reachable s0 s \<Longrightarrow> cuda_step s s' \<Longrightarrow> cuda_reachable s0 s'"

inductive_cases cuda_stepE: "cuda_step s s'"
inductive_simps cuda_step_iff: "cuda_step s s'"

section \<open>The invariant holds in every reachable state\<close>

lemmas good_calls = good_create_stream good_streams good_events good_loadModuleToken good_modules
  good_cuModuleUnload good_libraries good_cuLibraryGetKernel good_kernels good_cuLibraryUnload
  good_import good_mapped_buffer good_mapped_mipmap good_array_calls good_cuMipmappedArrayDestroy
  good_cuDestroyExternalMemory good_semaphores good_semaphore_waits good_cuArrayDestroy

lemma handle_call_good: "handle_call s s' \<Longrightarrow> handles_ok s \<Longrightarrow> good s s'"
  by (induction rule: handle_call.induct) (rule good_calls; assumption)+

definition same_objects :: "cuda \<Rightarrow> cuda \<Rightarrow> bool" where
  "same_objects s s' \<longleftrightarrow> heap s' = heap s \<and> registered s' = registered s \<and> gKernels s' = gKernels s"

lemma same_objects_refl [simp]: "same_objects s s"
  by (simp add: same_objects_def)

lemma same_objects_ok: "same_objects s s' \<Longrightarrow> handles_ok s \<Longrightarrow> handles_ok s'"
  by (simp add: same_objects_def handles_ok_def)

lemma same_objects_store [simp]: "same_objects s0 (store_bytes p bs s) = same_objects s0 s"
proof (induction bs arbitrary: p s)
  case (Cons b bs)
  have "same_objects s0 (store_byte p b s) = same_objects s0 s"
    by (simp add: same_objects_def store_byte_def broken_def registry_simps split: option.split)
  then show ?case using Cons by simp
qed simp

lemma same_objects_upd [simp]:
  "same_objects s0 (broken s) = same_objects s0 s"
  "same_objects s0 (touch p n s) = same_objects s0 s"
  "same_objects s0 (map_range p n f s) = same_objects s0 s"
  "same_objects s0 (log_call c s) = same_objects s0 s"
  "same_objects s0 (s\<lparr>blocks := bl\<rparr>) = same_objects s0 s"
  "same_objects s0 (s\<lparr>fdTable := t\<rparr>) = same_objects s0 s"
  "same_objects s0 (s\<lparr>gCurrentContext := c'\<rparr>) = same_objects s0 s"
  "same_objects s0 (s\<lparr>gContextStorage := cs\<rparr>) = same_objects s0 s"
  "same_objects s0 (s\<lparr>gDeviceAllocations := d\<rparr>) = same_objects s0 s"
  "same_objects s0 (s\<lparr>gHostAllocations := ha\<rparr>) = same_objects s0 s"
  "same_objects s0 (s\<lparr>gVirtualReservations := v\<rparr>) = same_objects s0 s"
  "same_objects s0 (s\<lparr>gGenericAllocations := g\<rparr>) = same_objects s0 s"
  "same_objects s0 (s\<lparr>gNextGenericAllocationHandle := nh\<rparr>) = same_objects s0 s"
  "same_objects s0 (s\<lparr>gExternalDevicePointers := x\<rparr>) = same_objects s0 s"
  by (simp_all add: same_objects_def broken_def touch_def map_range_def log_call_def registry_simps
      registered_cong [of "s\<lparr>blocks := bl\<rparr>" s] registered_cong [of "s\<lparr>gCurrentContext := c'\<rparr>" s]
      registered_cong [of "s\<lparr>gContextStorage := cs\<rparr>" s] registered_cong [of "s\<lparr>gHostAllocations := ha\<rparr>" s]
      registered_cong [of "s\<lparr>gVirtualReservations := v\<rparr>" s] registered_cong [of "s\<lparr>gGenericAllocations := g\<rparr>" s]
      registered_cong [of "s\<lparr>gNextGenericAllocationHandle := nh\<rparr>" s])

lemmas os_defs = malloc_block_def free_block_def munmap_def mmap_file_def mmap_none_def close_fd_def

lemma memory_call_same: "memory_call s s' \<Longrightarrow> same_objects s s'"
  by (induction rule: memory_call.induct)
    (simp_all add: cuMemAlloc_def cuMemFree_def cuMemHostAlloc_def cuMemFreeHost_def cuMemHostGetDevicePointer_def
      cuMemAddressReserve_def trimReservation_def cuMemAddressFree_def cuMemCreate_def cuMemRelease_def cuMemMap_def
      cuMemUnmap_def cuMemSetAccess_def cuMemExportToShareableHandle_def cuMemcpyHtoD_def cuMemcpyDtoH_def
      cuMemcpyDtoD_def cuMemsetD8_v2_def cuMemsetD16_v2_def cuMemsetD32_v2_def fillDeviceMemory_def Let_def os_defs
      split: option.split prod.split)

lemma context_call_same: "context_call s s' \<Longrightarrow> same_objects s s' \<and> undefined_behaviour s' = undefined_behaviour s"
  by (induction rule: context_call.induct)
    (simp_all add: cuCtxSetCurrent_def cuCtxCreate_def cuCtxDetach_def cuCtxPushCurrent_def cuCtxPopCurrent_def
      cuCtxDestroy_def cuDevicePrimaryCtxReset_def contextStoragePut_def contextStorageDelete_def
      split: option.split)

lemma handles_ok_init: "handles_ok (cuda_init allocator table)"
proof -
  have "registered (cuda_init allocator table) k = {}" for k by (cases k) (simp_all add: cuda_init_def)
  then show ?thesis by (simp add: handles_ok_def hinv_def) (simp add: cuda_init_def)
qed

lemma reachable_handles_ok: "cuda_reachable s0 s \<Longrightarrow> handles_ok s0 \<Longrightarrow> handles_ok s"
proof (induction rule: cuda_reachable.induct)
  case (step s s')
  then show ?case
    by (metis cuda_step_iff good_ok handle_call_good memory_call_same context_call_same same_objects_ok)
qed

text \<open>All calls, with the one that \<^theory_text>\<open>handle_call\<close> leaves out: \<open>driver_run s0 foreign s\<close> says that calls lead from \<open>s0\<close> to \<open>s\<close>,
  and \<open>foreign\<close> whether one of them unloaded the module of a registered library by the module's own handle, which the
  driver accepts.\<close>

inductive driver_call :: "cuda \<Rightarrow> bool \<Rightarrow> cuda \<Rightarrow> bool" where
  "cuda_step s s' \<Longrightarrow> driver_call s False s'"
| "driver_call s (p \<in> lib_module (heap s) ` set (gLibraries s)) (snd (cuModuleUnload p s))"

inductive driver_run :: "cuda \<Rightarrow> bool \<Rightarrow> cuda \<Rightarrow> bool" for s0 where
  start: "driver_run s0 False s0"
| step: "driver_run s0 foreign s \<Longrightarrow> driver_call s foreign' s' \<Longrightarrow> driver_run s0 (foreign \<or> foreign') s'"

lemma driver_call_step: "driver_call s False s' \<Longrightarrow> cuda_step s s'"
  by (erule driver_call.cases) (auto intro: cuda_step.handle module_unload)

lemma driver_run_reachable: "driver_run s0 foreign s \<Longrightarrow> \<not> foreign \<Longrightarrow> cuda_reachable s0 s"
  by (induction rule: driver_run.induct) (auto intro: cuda_reachable.intros driver_call_step)

lemma reachable_driver_run: "cuda_reachable s0 s \<Longrightarrow> driver_run s0 False s"
proof (induction rule: cuda_reachable.induct)
  case (step s s')
  then show ?case using driver_run.step [OF step.IH driver_call.intros(1)] by simp
qed (rule driver_run.start)

text \<open>C1: In every state the driver can reach by any calls with any arguments, whatever the allocator and the kernel
  answered, each registered handle is a live object of its kind, the module of a registered library and the function of
  a registered kernel are registered and owned by it alone, and the memory and the non-null levels of a registered
  mipmap are registered. The one thing the program must not have done is to unload the module of a registered library by
  the module's own handle: the driver accepts that call, and \<open>library_module_double_delete\<close> shows what comes of it.\<close>

theorem registered_handles_live:
  assumes "driver_run (cuda_init allocator table) foreign s" and "\<not> foreign"
  shows "(\<forall>k. registered s k \<subseteq> objs k (heap s))
    \<and> lib_module (heap s) ` registered s KLibrary \<subseteq> registered s KModule \<and> inj_on (lib_module (heap s)) (registered s KLibrary)
    \<and> kern_function (heap s) ` registered s KKernel \<subseteq> registered s KFunction \<and> inj_on (kern_function (heap s)) (registered s KKernel)
    \<and> mip_parent (heap s) ` registered s KMipmap \<subseteq> registered s KExternal
    \<and> (\<Union>m \<in> registered s KMipmap. set (mip_levels (heap s) m)) - {0} \<subseteq> registered s KArray"
proof -
  have "handles_ok s" by (rule reachable_handles_ok [OF driver_run_reachable [OF assms] handles_ok_init])
  then have h: "hinv (heap s) (registered s)" by (simp add: handles_ok_def)
  have "a \<in> registered s KArray" if "m \<in> registered s KMipmap" "a \<in> set (mip_levels (heap s) m)" "a \<noteq> 0" for m a
    using h that unfolding hinv_def levels_ok_def by (metis in_set_conv_nth)
  then show ?thesis using h unfolding hinv_def by blast
qed

text \<open>A library, then a kernel of it.\<close>

definition sample_library :: cuda where
  "sample_library = snd (cuLibraryLoadData True 1 False False 0 False False 0
     (cuda_init [Some 16, Some 32, Some 48, Some 64] Map.empty))"

definition sample_kernel :: cuda where
  "sample_kernel = snd (cuLibraryGetKernel True 32 (Some ''k'') sample_library)"

lemmas library_calls = cuLibraryLoadData_def loadLibraryToken_def loadModuleToken_def new_object_def set_insert_def

lemma sample_library_simps:
  "heap sample_library = [16 \<mapsto> ModuleObj \<lparr>image_of = 1\<rparr>, 32 \<mapsto> LibraryObj \<lparr>library_module = 16\<rparr>]"
  "gLibraries sample_library = [32]" "gModules sample_library = [16]" "gKernels sample_library = []"
  "gFunctions sample_library = []" "newAnswers sample_library = [Some 48, Some 64]"
  "undefined_behaviour sample_library = False"
  by (simp_all add: sample_library_def library_calls cuda_init_def)

lemma sample_kernel_simps:
  "gKernels sample_kernel = [64]" "gFunctions sample_kernel = [48]" "gLibraries sample_kernel = [32]"
  "gModules sample_kernel = [16]"
  "heap sample_kernel = [16 \<mapsto> ModuleObj \<lparr>image_of = 1\<rparr>, 32 \<mapsto> LibraryObj \<lparr>library_module = 16\<rparr>,
     48 \<mapsto> FunctionObj \<lparr>function_module = 16\<rparr>,
     64 \<mapsto> KernelObj \<lparr>kernel_library = 32, kernel_function = 48, kernel_name = ''k''\<rparr>]"
  by (simp_all add: sample_kernel_def cuLibraryGetKernel_def sample_library_simps deref_def as_library_def
      new_object_def set_insert_def)

lemma sample_reachable:
  "cuda_reachable (cuda_init [Some 16, Some 32, Some 48, Some 64] Map.empty) sample_kernel"
proof -
  let ?s0 = "cuda_init [Some 16, Some 32, Some 48, Some 64] Map.empty"
  have "handle_call ?s0 sample_library" unfolding sample_library_def by (rule handle_call.intros)
  moreover have "handle_call sample_library sample_kernel" unfolding sample_kernel_def by (rule handle_call.intros)
  ultimately show ?thesis by (meson cuda_reachable.intros cuda_step.handle)
qed

lemma registered_handles_live_witness:
  "registered sample_kernel KKernel = {64} \<and> kern_function (heap sample_kernel) 64 = 48
   \<and> kern_function (heap sample_kernel) ` registered sample_kernel KKernel \<subseteq> registered sample_kernel KFunction
   \<and> lib_module (heap sample_kernel) ` registered sample_kernel KLibrary \<subseteq> registered sample_kernel KModule"
  using registered_handles_live [OF reachable_driver_run [OF sample_reachable]] by (simp add: sample_kernel_simps kern_function_def)

text \<open>C2: No call on a handle, made in a reachable state, uses or deletes anything but live objects at their own
  type, whatever pointer the program passes as the handle; the only call left out is unloading the module of
  a registered library.\<close>

theorem handle_calls_safe:
  assumes "cuda_reachable (cuda_init allocator table) s" and "handle_call s s'"
  shows "undefined_behaviour s' = undefined_behaviour s"
  using handle_call_good [OF assms(2) reachable_handles_ok [OF assms(1) handles_ok_init]] by (simp add: good_def)

lemma handle_calls_safe_witness:
  "undefined_behaviour (snd (cuLibraryUnload 32 sample_kernel)) = undefined_behaviour sample_kernel
   \<and> heap (snd (cuLibraryUnload 32 sample_kernel)) = Map.empty"
proof
  show "undefined_behaviour (snd (cuLibraryUnload 32 sample_kernel)) = undefined_behaviour sample_kernel"
    by (rule handle_calls_safe [OF sample_reachable]) (rule handle_call.intros)
  show "heap (snd (cuLibraryUnload 32 sample_kernel)) = Map.empty"
    by (simp add: cuLibraryUnload_def sample_kernel_simps Let_def delete_object_def deref_def as_library_def set_erase_def
        fun_eq_iff)
qed

section \<open>Life of a handle\<close>

text \<open>A created stream is accepted until it is destroyed, and after that refused, by the query and by a second
  destruction.\<close>

lemma stream_lifecycle:
  assumes "cuStreamCreate True fl s = ((CUDA_SUCCESS, Some p), s1)"
  shows "fst (cuStreamQuery p s1) = CUDA_SUCCESS \<and> fst (cuStreamDestroy p s1) = CUDA_SUCCESS
    \<and> fst (cuStreamQuery p (snd (cuStreamDestroy p s1))) = CUDA_ERROR_INVALID_HANDLE
    \<and> fst (cuStreamDestroy p (snd (cuStreamDestroy p s1))) = CUDA_ERROR_INVALID_HANDLE"
proof -
  from assms have p: "p \<noteq> 0" "p \<in> set (gStreams s1)"
    by (auto simp: cuStreamCreate_def new_object_def split: list.splits option.splits if_splits)
  have "gStreams (delete_object is_stream p (s1\<lparr>gStreams := set_erase p (gStreams s1)\<rparr>)) = set_erase p (gStreams s1)"
    by (simp add: delete_object_def broken_def split: option.split)
  then show ?thesis using p by (simp add: cuStreamQuery_def cuStreamDestroy_def)
qed

lemma stream_lifecycle_witness:
  "\<exists>s1. cuStreamCreate True 0 (cuda_init [Some 8] Map.empty) = ((CUDA_SUCCESS, Some 8), s1)
     \<and> fst (cuStreamQuery 8 (snd (cuStreamDestroy 8 s1))) = CUDA_ERROR_INVALID_HANDLE"
proof -
  obtain s1 where c: "cuStreamCreate True 0 (cuda_init [Some 8] Map.empty) = ((CUDA_SUCCESS, Some 8), s1)"
    by (simp add: cuStreamCreate_def new_object_def cuda_init_def)
  from stream_lifecycle [OF c] c show ?thesis by blast
qed

text \<open>An event is not ready until it is recorded or waited for, and ready from then on.\<close>

lemma event_recording:
  assumes "p \<in> set (gEvents s)" and "heap s p = Some (EventObj e)" and "\<not> recorded e"
  shows "fst (cuEventQuery p s) = CUDA_ERROR_NOT_READY
    \<and> fst (cuEventRecord p q s) = CUDA_SUCCESS \<and> fst (cuEventQuery p (snd (cuEventRecord p q s))) = CUDA_SUCCESS
    \<and> fst (cuEventSynchronize p s) = CUDA_SUCCESS \<and> fst (cuEventQuery p (snd (cuEventSynchronize p s))) = CUDA_SUCCESS"
  using assms
  by (simp add: cuEventQuery_def cuEventRecord_def cuEventSynchronize_def deref_def as_event_def write_object_def)

lemma event_recording_witness:
  "fst (cuEventQuery 8 (snd (cuEventRecord 8 0 (snd (cuEventCreate True 0 (cuda_init [Some 8] Map.empty)))))) = CUDA_SUCCESS
   \<and> fst (cuEventQuery 8 (snd (cuEventCreate True 0 (cuda_init [Some 8] Map.empty)))) = CUDA_ERROR_NOT_READY"
proof -
  let ?s = "snd (cuEventCreate True 0 (cuda_init [Some 8] Map.empty))"
  have "8 \<in> set (gEvents ?s)" "heap ?s 8 = Some (EventObj \<lparr>event_flags = 0, recorded = False\<rparr>)"
    by (simp_all add: cuEventCreate_def new_object_def cuda_init_def set_insert_def)
  from event_recording [OF this] show ?thesis by simp
qed

section \<open>Sequences that break\<close>

lemma delete_object_removes: "heap (delete_object is_type q s) p = heap s p \<or> heap (delete_object is_type q s) p = None"
  by (simp add: delete_object_def broken_def split: option.split)

lemma unload_kernels_removes:
  "heap (unload_kernels l ks s) p = heap s p \<or> heap (unload_kernels l ks s) p = None"
proof (induction ks arbitrary: s)
  case (Cons k ks)
  show ?case
  proof (cases "\<exists>x. heap s k = Some (KernelObj x)")
    case False
    then have "unload_kernels l (k # ks) s = unload_kernels l ks (broken s)"
      by (auto split: option.split object.split)
    then show ?thesis using Cons [of "broken s"] by simp
  next
    case True
    then obtain x where x: "heap s k = Some (KernelObj x)" by blast
    let ?s1 = "delete_object is_function (kernel_function x) (s\<lparr>gFunctions := set_erase (kernel_function x) (gFunctions s)\<rparr>)"
    let ?s2 = "delete_object is_kernel k (?s1\<lparr>gKernels := set_erase k (gKernels ?s1)\<rparr>)"
    have "heap ?s2 p = heap s p \<or> heap ?s2 p = None"
      using delete_object_removes [of is_kernel k "?s1\<lparr>gKernels := set_erase k (gKernels ?s1)\<rparr>" p]
        delete_object_removes [of is_function "kernel_function x" "s\<lparr>gFunctions := set_erase (kernel_function x) (gFunctions s)\<rparr>" p]
      by auto
    then show ?thesis using Cons [of s] Cons [of ?s2] x by (auto simp: Let_def)
  qed
qed simp

text \<open>C34: The module \<^verbatim>\<open>cuLibraryGetModule\<close> gives out can be unloaded while its library is registered; unloading
  the library then deletes a module that is no longer there.\<close>

lemma library_module_double_delete:
  assumes "cuLibraryGetModule True l s = ((CUDA_SUCCESS, Some m), s)" and "m \<noteq> 0"
    and "heap s m = Some (ModuleObj y)" and "\<not> undefined_behaviour s"
  shows "fst (cuModuleUnload m s) = CUDA_SUCCESS \<and> \<not> undefined_behaviour (snd (cuModuleUnload m s))
    \<and> fst (cuLibraryUnload l (snd (cuModuleUnload m s))) = CUDA_SUCCESS
    \<and> undefined_behaviour (snd (cuLibraryUnload l (snd (cuModuleUnload m s))))"
proof -
  from assms(1) have l: "l \<noteq> 0" "l \<in> set (gLibraries s)"
    by (auto simp: cuLibraryGetModule_def split: if_splits)
  have "m \<in> set (gModules s) \<and> (\<forall>x. heap s l = Some (LibraryObj x) \<longrightarrow> library_module x = m)"
    using assms(1) l by (auto simp: cuLibraryGetModule_def deref_def as_library_def split: option.splits if_splits object.splits)
  then have m: "m \<in> set (gModules s)" and x: "\<And>x. heap s l = Some (LibraryObj x) \<Longrightarrow> library_module x = m" by auto
  let ?s1 = "s\<lparr>gModules := set_erase m (gModules s), heap := (heap s)(m := None)\<rparr>"
  have u: "cuModuleUnload m s = (CUDA_SUCCESS, ?s1)"
    using m assms(2,3) by (simp add: cuModuleUnload_def delete_object_def)
  let ?s2 = "unload_kernels l (gKernels ?s1) ?s1"
  have h2: "heap ?s2 p = heap ?s1 p \<or> heap ?s2 p = None" for p by (rule unload_kernels_removes)
  have hm: "heap ?s2 m = None" using h2 [of m] by auto
  have ll: "l \<in> set (gLibraries ?s1)" using l by simp
  show ?thesis
  proof (cases "\<exists>x. heap ?s2 l = Some (LibraryObj x)")
    case True
    then obtain z where z: "heap ?s2 l = Some (LibraryObj z)" by blast
    then have "heap ?s1 l = Some (LibraryObj z)" using h2 [of l] by simp
    then have "heap s l = Some (LibraryObj z)" by (simp split: if_splits)
    then have "library_module z = m" by (rule x)
    then have "undefined_behaviour (snd (cuLibraryUnload l ?s1)) \<and> fst (cuLibraryUnload l ?s1) = CUDA_SUCCESS"
      using z hm l assms(2)
      by (auto simp: cuLibraryUnload_def Let_def deref_def as_library_def delete_object_def broken_def split: option.split)
    then show ?thesis using u assms(4) by simp
  next
    case False
    then have "undefined_behaviour (snd (cuLibraryUnload l ?s1)) \<and> fst (cuLibraryUnload l ?s1) = CUDA_SUCCESS"
      using l by (auto simp: cuLibraryUnload_def Let_def deref_def as_library_def split: option.split object.split)
    then show ?thesis using u assms(4) by simp
  qed
qed

lemma library_module_double_delete_witness:
  "fst (cuLibraryUnload 32 (snd (cuModuleUnload 16 sample_library))) = CUDA_SUCCESS
   \<and> undefined_behaviour (snd (cuLibraryUnload 32 (snd (cuModuleUnload 16 sample_library))))"
proof -
  have "cuLibraryGetModule True 32 sample_library = ((CUDA_SUCCESS, Some 16), sample_library)"
    by (simp add: cuLibraryGetModule_def sample_library_simps deref_def as_library_def)
  from library_module_double_delete [OF this] show ?thesis by (simp add: sample_library_simps)
qed

text \<open>A function stays launchable after its module is unloaded.\<close>

lemma function_outlives_module:
  assumes "cuModuleGetFunction True m (Some name) s = ((CUDA_SUCCESS, Some f), s1)"
  shows "fst (cuModuleUnload m s1) = CUDA_SUCCESS \<and> fst (cuLaunchKernel f (snd (cuModuleUnload m s1))) = CUDA_SUCCESS"
proof -
  from assms have "m \<in> set (gModules s1)" "f \<in> set (gFunctions s1)"
    by (auto simp: cuModuleGetFunction_def new_object_def split: list.splits option.splits if_splits)
  then show ?thesis
    by (simp add: cuModuleUnload_def cuLaunchKernel_def delete_object_def broken_def split: option.split)
qed

lemma function_outlives_module_witness:
  "fst (cuLaunchKernel 48 (snd (cuModuleUnload 16 (snd (cuModuleGetFunction True 16 (Some ''f'') sample_library))))) = CUDA_SUCCESS"
proof -
  obtain s1 where c: "cuModuleGetFunction True 16 (Some ''f'') sample_library = ((CUDA_SUCCESS, Some 48), s1)"
    by (simp add: cuModuleGetFunction_def sample_library_simps new_object_def)
  from function_outlives_module [OF c] c show ?thesis by simp
qed

text \<open>A context pushed twice is not a stack: the second push and one pop leave no current context.\<close>

lemma context_stack_lost:
  "gCurrentContext (snd (cuCtxPopCurrent True (snd (cuCtxPushCurrent b (snd (cuCtxPushCurrent a s)))))) = 0
   \<and> fst (cuCtxPopCurrent True (snd (cuCtxPushCurrent b (snd (cuCtxPushCurrent a s))))) = (CUDA_SUCCESS, Some b)"
  by (simp add: cuCtxPopCurrent_def cuCtxPushCurrent_def)

end
