(* ===== verification/CudaDispatch.thy ===== *)
theory CudaDispatch
  imports CudaSafety
begin

text \<open>
  How programs reach the CUDA driver: the symbol lookup of \<^verbatim>\<open>cuGetProcAddress\<close>, which gives every
  unknown symbol a slot of its own in a table of 1024 trampolines, the export tables, and the texts of errors.
  A function pointer is the name of the call it points to, or the number of a trampoline.
\<close>

datatype entry_point = Call string | Trampoline nat

section \<open>The slots of unknown symbols\<close>

text \<open>The hash of a symbol, byte by byte.\<close>

definition hash_step :: "u64 \<Rightarrow> char \<Rightarrow> u64" where
  "hash_step hash c = (hash XOR word_of_nat (of_char c)) * 1099511628211"

definition symbol_hash :: "string \<Rightarrow> u64" where
  "symbol_hash symbol = fold (\<lambda>c hash. hash_step hash c) symbol 1469598103934665603"

definition slot_of :: "u64 \<Rightarrow> nat \<Rightarrow> nat" where
  "slot_of hash probe = unat (hash + word_of_nat probe) mod kUnsupportedSlotCount"

text \<open>The loop over the probes; the first argument counts those that are left. A slot whose name starts
  with the null character is free; \<^verbatim>\<open>snprintf\<close> cuts a name to 95 characters.\<close>

fun probe_slots :: "nat \<Rightarrow> nat \<Rightarrow> string \<Rightarrow> string list \<Rightarrow> nat \<times> string list" where
  "probe_slots 0 probe symbol names = (0, names)"
| "probe_slots (Suc n) probe symbol names =
     (let slot = slot_of (symbol_hash symbol) probe in
      if names ! slot = [] then (slot, names[slot := take (kUnsupportedNameSize - 1) symbol])
      else if names ! slot = symbol then (slot, names)
      else probe_slots n (Suc probe) symbol names)"

definition unsupportedSlotFor :: "string \<Rightarrow> cuda \<Rightarrow> nat \<times> cuda" where
  "unsupportedSlotFor symbol s =
     (case probe_slots kUnsupportedSlotCount 0 symbol (gUnsupportedNames s) of
        (slot, names) \<Rightarrow> (slot, s\<lparr>gUnsupportedNames := names\<rparr>))"

text \<open>What calling a trampoline returns.\<close>

definition unsupportedSlot :: "nat \<Rightarrow> CUresult" where
  "unsupportedSlot slot = CUDA_SUCCESS"

section \<open>The lookup\<close>

definition known_symbols :: "string list" where
  "known_symbols = [
     ''cuInit'', ''cuDriverGetVersion'', ''cuDeviceGetCount'', ''cuDeviceGet'',
     ''cuDeviceGetName'', ''cuDeviceGetUuid'', ''cuDeviceGetUuid_v2'', ''cuDeviceTotalMem'',
     ''cuDeviceTotalMem_v2'', ''cuDeviceGetAttribute'', ''cuDeviceGetPCIBusId'',
     ''cuDeviceGetByPCIBusId'', ''cuDeviceGetLuid'', ''cuDeviceGetP2PAttribute'',
     ''cuDeviceGetTexture1DLinearMaxWidth'', ''cuDeviceGetDefaultMemPool'', ''cuDeviceGetMemPool'',
     ''cuDeviceSetMemPool'', ''cuFlushGPUDirectRDMAWrites'', ''cuDevicePrimaryCtxRetain'',
     ''cuDevicePrimaryCtxRelease'', ''cuDevicePrimaryCtxRelease_v2'', ''cuDevicePrimaryCtxReset'',
     ''cuDevicePrimaryCtxReset_v2'', ''cuDevicePrimaryCtxGetState'',
     ''cuDevicePrimaryCtxSetFlags'', ''cuDevicePrimaryCtxSetFlags_v2'', ''cuCtxSetCurrent'',
     ''cuCtxCreate'', ''cuCtxCreate_v2'', ''cuCtxDestroy'', ''cuCtxDestroy_v2'', ''cuCtxDetach'',
     ''cuCtxGetCurrent'', ''cuCtxGetDevice'', ''cuCtxGetApiVersion'', ''cuCtxSynchronize'',
     ''cuCtxGetFlags'', ''cuCtxGetLimit'', ''cuCtxSetLimit'', ''cuCtxGetCacheConfig'',
     ''cuCtxSetCacheConfig'', ''cuCtxGetSharedMemConfig'', ''cuCtxSetSharedMemConfig'',
     ''cuCtxGetStreamPriorityRange'', ''cuCtxPushCurrent'', ''cuCtxPushCurrent_v2'',
     ''cuCtxPopCurrent'', ''cuCtxPopCurrent_v2'', ''cuCtxResetPersistingL2Cache'',
     ''cuDeviceCanAccessPeer'', ''cuMemGetInfo'', ''cuMemGetInfo_v2'', ''cuMemAlloc'',
     ''cuMemAlloc_v2'', ''cuMemFree'', ''cuMemFree_v2'', ''cuMemAddressReserve'',
     ''cuMemAddressFree'', ''cuMemCreate'', ''cuMemRelease'', ''cuMemMap'', ''cuMemUnmap'',
     ''cuMemSetAccess'', ''cuMemGetAllocationGranularity'', ''cuMemExportToShareableHandle'',
     ''cuMemHostAlloc'', ''cuMemFreeHost'', ''cuMemHostGetDevicePointer'',
     ''cuMemHostGetDevicePointer_v2'', ''cuMemcpyHtoD'', ''cuMemcpyHtoD_v2'',
     ''cuMemcpyHtoDAsync_v2'', ''cuMemcpyDtoH'', ''cuMemcpyDtoH_v2'', ''cuMemcpyDtoHAsync_v2'',
     ''cuMemcpyDtoD'', ''cuMemcpyDtoD_v2'', ''cuMemcpyDtoDAsync_v2'', ''cuMemcpyPeerAsync'',
     ''cuMemcpy3DAsync_v2'', ''cuMemsetD8_v2'', ''cuMemsetD16_v2'', ''cuMemsetD32_v2'',
     ''cuMemsetD8Async'', ''cuMemsetD32Async'', ''cuStreamCreate'', ''cuStreamCreateWithPriority'',
     ''cuStreamDestroy'', ''cuStreamDestroy_v2'', ''cuStreamQuery'', ''cuStreamSynchronize'',
     ''cuEventCreate'', ''cuEventRecord'', ''cuEventQuery'', ''cuEventSynchronize'',
     ''cuEventDestroy'', ''cuEventDestroy_v2'', ''cuStreamWaitEvent'', ''cuModuleLoadData'',
     ''cuModuleLoadDataEx'', ''cuModuleLoadFatBinary'', ''cuModuleGetFunction'',
     ''cuModuleUnload'', ''cuLibraryLoadData'', ''cuLibraryLoadFromFile'', ''cuLibraryGetModule'',
     ''cuLibraryGetKernel'', ''cuLibraryUnload'', ''cuKernelGetFunction'', ''cuKernelGetName'',
     ''cuKernelGetAttribute'', ''cuKernelSetAttribute'', ''cuKernelSetCacheConfig'',
     ''cuLaunchKernel'', ''cuImportExternalMemory'', ''cuExternalMemoryGetMappedBuffer'',
     ''cuExternalMemoryGetMappedMipmappedArray'', ''cuMipmappedArrayGetLevel'',
     ''cuMipmappedArrayDestroy'', ''cuDestroyExternalMemory'', ''cuImportExternalSemaphore'',
     ''cuSignalExternalSemaphoresAsync'', ''cuWaitExternalSemaphoresAsync'',
     ''cuDestroyExternalSemaphore'', ''cuArray3DCreate_v2'', ''cuArrayDestroy'',
     ''cuTexObjectCreate'', ''cuTexObjectDestroy'', ''cuModuleGetLoadingMode'', ''cuGetErrorName'',
     ''cuGetErrorString'', ''cuGetProcAddress'', ''cuGetProcAddress_v2'', ''cuGetExportTable'']"

definition lookup :: "string option \<Rightarrow> cuda \<Rightarrow> entry_point option \<times> cuda" where
  "lookup symbol s = (case symbol of
      None \<Rightarrow> (None, s)
    | Some name \<Rightarrow>
        if name \<in> set known_symbols then (Some (Call name), s)
        else (case unsupportedSlotFor name s of (slot, s1) \<Rightarrow> (Some (Trampoline slot), s1)))"

text \<open>The result is what is stored through the function pointer, if anything is: perhaps null.\<close>

definition cuGetProcAddress :: "string option \<Rightarrow> bool \<Rightarrow> int \<Rightarrow> u64 \<Rightarrow> entry_point option cu_out" where
  "cuGetProcAddress symbol function cudaVersion fl s = (case symbol of
      None \<Rightarrow> ((CUDA_ERROR_INVALID_VALUE, None), s)
    | Some name \<Rightarrow>
        if \<not> function then ((CUDA_ERROR_INVALID_VALUE, None), s)
        else if name = [] then ((CUDA_ERROR_NOT_FOUND, Some None), s)
        else (case lookup symbol s of (entry, s1) \<Rightarrow>
          ((if entry = None then CUDA_ERROR_NOT_SUPPORTED else CUDA_SUCCESS, Some entry), s1)))"

definition cuGetProcAddress_v2 ::
  "string option \<Rightarrow> bool \<Rightarrow> int \<Rightarrow> u64 \<Rightarrow> bool \<Rightarrow> cuda \<Rightarrow> (CUresult \<times> entry_point option option \<times> int option) \<times> cuda" where
  "cuGetProcAddress_v2 symbol function cudaVersion fl symbolStatus s =
     (case cuGetProcAddress symbol function cudaVersion fl s of
        ((result, out), s1) \<Rightarrow>
          ((result, out, if symbolStatus then Some (if result = CUDA_SUCCESS then 0 else 2) else None), s1))"

definition cuGetErrorName :: "CUresult \<Rightarrow> bool \<Rightarrow> CUresult \<times> string option" where
  "cuGetErrorName error name =
     fill name (if error = CUDA_SUCCESS then ''CUDA_SUCCESS'' else ''CUDA_ERROR_NOT_SUPPORTED'')"

definition cuGetErrorString :: "CUresult \<Rightarrow> bool \<Rightarrow> CUresult \<times> string option" where
  "cuGetErrorString error txt =
     fill txt (if error = CUDA_SUCCESS then ''success''
               else ''operation is not implemented by IsaacMetalBridge'')"

section \<open>Export tables\<close>

definition kCudartExportTableUUID :: bytes where
  "kCudartExportTableUUID = [0x6b, 0xd5, 0xfb, 0x6c, 0x5b, 0xf4, 0xe7, 0x4a, 0x89, 0x87, 0xd9, 0x39, 0x12, 0xfd, 0x9d, 0xf9]"
definition kRuntimeCallbackHooksUUID :: bytes where
  "kRuntimeCallbackHooksUUID = [0xa0, 0x94, 0x79, 0x8c, 0x2e, 0x74, 0x2e, 0x74, 0x93, 0xf2, 0x08, 0x00, 0x20, 0x0c, 0x0a, 0x66]"
definition kToolsTlsUUID :: bytes where
  "kToolsTlsUUID = [0x42, 0xd8, 0x5a, 0x81, 0x23, 0xf6, 0xcb, 0x47, 0x82, 0x98, 0xf6, 0xe7, 0x8a, 0x3a, 0xec, 0xdc]"
definition kContextLocalStorageUUID :: bytes where
  "kContextLocalStorageUUID = [0xc6, 0x93, 0x33, 0x6e, 0x11, 0x21, 0xdf, 0x11, 0xa8, 0xc3, 0x68, 0xf3, 0x55, 0xd8, 0x95, 0x93]"
definition kContextChecksUUID :: bytes where
  "kContextChecksUUID = [0x26, 0x3e, 0x88, 0x60, 0x7c, 0xd2, 0x61, 0x43, 0x92, 0xf6, 0xbb, 0xd5, 0x00, 0x6d, 0xfa, 0x7e]"
definition kIntegrityCheckUUID :: bytes where
  "kIntegrityCheckUUID = [0xd4, 0x08, 0x20, 0x55, 0xbd, 0xe6, 0x70, 0x4b, 0x8d, 0x34, 0xba, 0x12, 0x3c, 0x66, 0xe1, 0xf2]"

text \<open>A table starts with its size in bytes, where it has one, and holds functions and null entries.\<close>

datatype table_entry = SizeOfTable nat | Function string | NullEntry

definition gCudartExportTable :: "table_entry list" where
  "gCudartExportTable = [SizeOfTable (13 * 8), Function ''cudartGetModuleFromCubin'', Function ''cudartGetPrimaryContext'',
     NullEntry, NullEntry, NullEntry, Function ''cudartGetModuleFromCubinExt1'', Function ''cudartInterfaceNoop'',
     Function ''cudartGetModuleFromCubinExt2'', NullEntry, NullEntry, NullEntry, Function ''cudartLoadCompilers'']"

definition gRuntimeCallbackHooksTable :: "table_entry list" where
  "gRuntimeCallbackHooksTable = [SizeOfTable (7 * 8), NullEntry, Function ''getRuntimeCallbackBuffer1'', NullEntry,
     NullEntry, NullEntry, Function ''getRuntimeCallbackBuffer2'']"

definition gToolsTlsTable :: "table_entry list" where
  "gToolsTlsTable = [SizeOfTable (4 * 8), NullEntry, NullEntry, NullEntry]"

definition gContextLocalStorageTable :: "table_entry list" where
  "gContextLocalStorageTable = [Function ''contextStoragePut'', Function ''contextStorageDelete'',
     Function ''contextStorageGet'', NullEntry]"

definition gContextChecksTable :: "table_entry list" where
  "gContextChecksTable = [SizeOfTable (4 * 8), NullEntry, Function ''contextCheck'', Function ''contextCheckFlags'']"

definition gIntegrityCheckTable :: "table_entry list" where
  "gIntegrityCheckTable = [SizeOfTable (3 * 8), Function ''integrityCheck'', NullEntry]"

text \<open>The sizes reported by the two callback buffers count elements.\<close>

definition getRuntimeCallbackBuffer1 :: "bool \<Rightarrow> bool \<Rightarrow> string option \<times> nat option" where
  "getRuntimeCallbackBuffer1 buffer sz =
     (if buffer then Some ''gRuntimeCallbackBuffer1'' else None, if sz then Some 1024 else None)"

definition getRuntimeCallbackBuffer2 :: "bool \<Rightarrow> bool \<Rightarrow> string option \<times> nat option" where
  "getRuntimeCallbackBuffer2 buffer sz =
     (if buffer then Some ''gRuntimeCallbackBuffer2'' else None, if sz then Some 14 else None)"

text \<open>\<open>tableId\<close> is the 16 bytes the pointer points to, or nothing when it is null.\<close>

definition cuGetExportTable :: "bool \<Rightarrow> bytes option \<Rightarrow> CUresult \<times> table_entry list option option" where
  "cuGetExportTable table tableId = (case tableId of
      None \<Rightarrow> (CUDA_ERROR_INVALID_VALUE, None)
    | Some uuid \<Rightarrow>
        if \<not> table then (CUDA_ERROR_INVALID_VALUE, None)
        else if uuid = kCudartExportTableUUID then (CUDA_SUCCESS, Some (Some gCudartExportTable))
        else if uuid = kRuntimeCallbackHooksUUID then (CUDA_SUCCESS, Some (Some gRuntimeCallbackHooksTable))
        else if uuid = kToolsTlsUUID then (CUDA_SUCCESS, Some (Some gToolsTlsTable))
        else if uuid = kContextLocalStorageUUID then (CUDA_SUCCESS, Some (Some gContextLocalStorageTable))
        else if uuid = kContextChecksUUID then (CUDA_SUCCESS, Some (Some gContextChecksTable))
        else if uuid = kIntegrityCheckUUID then (CUDA_SUCCESS, Some (Some gIntegrityCheckTable))
        else (CUDA_ERROR_NOT_SUPPORTED, Some None))"

section \<open>Slots are stable and not shared\<close>

lemma names_after: "gUnsupportedNames (snd (unsupportedSlotFor symbol s)) = snd (probe_slots 1024 0 symbol (gUnsupportedNames s))"
  by (simp add: unsupportedSlotFor_def kUnsupportedSlotCount_def split: prod.split)

text \<open>The probes of a symbol visit every slot.\<close>

lemma slot_of_bound: "slot_of h p < 1024"
  by (simp add: slot_of_def kUnsupportedSlotCount_def)

lemma slot_of_mod: "slot_of h p = (unat h + p) mod 1024"
proof -
  have "unat (h + word_of_nat p) mod 1024 = ((unat h + p) mod 2 ^ 64) mod 1024"
    by (simp add: unat_word_ariths unat_of_nat take_bit_eq_mod mod_simps)
  also have "\<dots> = (unat h + p) mod 1024" by (simp add: mod_mod_cancel)
  finally show ?thesis by (simp add: slot_of_def kUnsupportedSlotCount_def)
qed

lemma slots_cover: "i < 1024 \<Longrightarrow> \<exists>p < 1024. slot_of h p = i"
proof -
  assume i: "i < 1024"
  let ?p = "(i + (1024 - unat h mod 1024)) mod 1024"
  have "(unat h + ?p) mod 1024 = (unat h mod 1024 + (i + (1024 - unat h mod 1024))) mod 1024"
    by (simp only: mod_add_right_eq mod_add_left_eq)
  also have "unat h mod 1024 + (i + (1024 - unat h mod 1024)) = i + 1024"
    using mod_less_divisor [of 1024 "unat h"] by linarith
  also have "(i + 1024) mod 1024 = i" using i by simp
  finally have "slot_of h ?p = i" by (simp only: slot_of_mod)
  moreover have "?p < 1024" by simp
  ultimately show ?thesis by blast
qed

text \<open>The loop stops at the first probe that is free or holds the symbol.\<close>

lemma probe_slots_stops:
  assumes "\<forall>p < k. names ! slot_of (symbol_hash symbol) (q + p) \<noteq> []
      \<and> names ! slot_of (symbol_hash symbol) (q + p) \<noteq> symbol"
    and "k < n" and "names ! slot_of (symbol_hash symbol) (q + k) \<in> {[], symbol}"
  shows "probe_slots n q symbol names =
    (slot_of (symbol_hash symbol) (q + k),
     if names ! slot_of (symbol_hash symbol) (q + k) = []
     then names[slot_of (symbol_hash symbol) (q + k) := take (kUnsupportedNameSize - 1) symbol] else names)"
  using assms
proof (induction k arbitrary: n q)
  case 0
  then obtain m where "n = Suc m" by (cases n) auto
  then show ?case using 0 by (auto simp: Let_def)
next
  case (Suc k)
  then obtain m where m: "n = Suc m" by (cases n) auto
  have 0: "names ! slot_of (symbol_hash symbol) q \<noteq> [] \<and> names ! slot_of (symbol_hash symbol) q \<noteq> symbol"
    using Suc.prems(1) [rule_format, of 0] by simp
  have "probe_slots m (Suc q) symbol names =
    (slot_of (symbol_hash symbol) (Suc q + k),
     if names ! slot_of (symbol_hash symbol) (Suc q + k) = []
     then names[slot_of (symbol_hash symbol) (Suc q + k) := take (kUnsupportedNameSize - 1) symbol] else names)"
  proof (rule Suc.IH)
    show "\<forall>p < k. names ! slot_of (symbol_hash symbol) (Suc q + p) \<noteq> []
      \<and> names ! slot_of (symbol_hash symbol) (Suc q + p) \<noteq> symbol"
      using Suc.prems(1) by (metis Suc_less_eq add_Suc_shift)
  qed (use Suc.prems m in simp_all)
  then show ?case using 0 m by (simp add: Let_def)
qed

lemma probe_slots_full:
  "\<forall>p < n. names ! slot_of (symbol_hash symbol) (q + p) \<notin> {[], symbol} \<Longrightarrow>
     probe_slots n q symbol names = (0, names)"
proof (induction n arbitrary: q)
  case (Suc n)
  have "\<forall>p < n. names ! slot_of (symbol_hash symbol) (Suc q + p) \<notin> {[], symbol}"
    using Suc.prems by (metis Suc_less_eq add_Suc_shift)
  then show ?case using Suc.IH Suc.prems [rule_format, of 0] by (simp add: Let_def)
qed simp

lemma probe_slots_cases:
  assumes "length names = 1024"
  obtains (full) "\<forall>x \<in> set names. x \<noteq> [] \<and> x \<noteq> symbol" "probe_slots 1024 0 symbol names = (0, names)"
  | (found) k where "k < 1024" "\<forall>p < k. names ! slot_of (symbol_hash symbol) p \<notin> {[], symbol}"
      "names ! slot_of (symbol_hash symbol) k \<in> {[], symbol}"
      "probe_slots 1024 0 symbol names = (slot_of (symbol_hash symbol) k,
         if names ! slot_of (symbol_hash symbol) k = []
         then names[slot_of (symbol_hash symbol) k := take 95 symbol] else names)"
proof (cases "\<exists>p < 1024. names ! slot_of (symbol_hash symbol) p \<in> {[], symbol}")
  case True
  let ?P = "\<lambda>p. p < 1024 \<and> names ! slot_of (symbol_hash symbol) p \<in> {[], symbol}"
  obtain k where kd: "k = (LEAST p. ?P p)" by blast
  have k: "k < 1024" "names ! slot_of (symbol_hash symbol) k \<in> {[], symbol}"
    using LeastI_ex [OF True] unfolding kd by blast+
  have before: "\<forall>p < k. names ! slot_of (symbol_hash symbol) p \<notin> {[], symbol}"
  proof (intro allI impI)
    fix p assume p: "p < k"
    then have "\<not> ?P p" unfolding kd by (rule not_less_Least)
    moreover have "p < 1024" using p k(1) by (rule less_trans)
    ultimately show "names ! slot_of (symbol_hash symbol) p \<notin> {[], symbol}" by blast
  qed
  have b0: "\<forall>p < k. names ! slot_of (symbol_hash symbol) (0 + p) \<noteq> []
      \<and> names ! slot_of (symbol_hash symbol) (0 + p) \<noteq> symbol"
    using before by simp
  have k0: "names ! slot_of (symbol_hash symbol) (0 + k) \<in> {[], symbol}" using k(2) by simp
  have "95 = kUnsupportedNameSize - 1" by (simp add: kUnsupportedNameSize_def)
  then have "probe_slots 1024 0 symbol names = (slot_of (symbol_hash symbol) k,
     if names ! slot_of (symbol_hash symbol) k = []
     then names[slot_of (symbol_hash symbol) k := take 95 symbol] else names)"
    using probe_slots_stops [OF b0 k(1) k0] by (simp only: add_0)
  then show thesis by (rule found [OF k(1) before k(2)])
next
  case False
  have "x \<noteq> [] \<and> x \<noteq> symbol" if x: "x \<in> set names" for x
  proof -
    obtain i where i: "i < 1024" "names ! i = x" using x assms by (auto simp: in_set_conv_nth)
    obtain p where "p < 1024" "slot_of (symbol_hash symbol) p = i" using slots_cover [OF i(1)] by blast
    then show ?thesis using False i(2) by auto
  qed
  then show thesis using full probe_slots_full [of 1024 names symbol 0] False by auto
qed

text \<open>The invariant of the table: used slots have different labels, and each label is reached from its hash
  over used slots.\<close>

definition names_ok :: "string list \<Rightarrow> bool" where
  "names_ok names \<longleftrightarrow> length names = 1024
     \<and> (\<forall>i < 1024. \<forall>j < 1024. names ! i \<noteq> [] \<longrightarrow> names ! i = names ! j \<longrightarrow> i = j)
     \<and> (\<forall>i < 1024. names ! i \<noteq> [] \<longrightarrow> (\<exists>k. slot_of (symbol_hash (names ! i)) k = i
          \<and> (\<forall>p < k. names ! slot_of (symbol_hash (names ! i)) p \<noteq> [])))"

lemma names_ok_put:
  assumes ok: "names_ok names" and sym: "symbol \<noteq> []"
    and k: "\<forall>p < k. names ! slot_of (symbol_hash symbol) p \<notin> {[], symbol}"
    and free: "names ! slot_of (symbol_hash symbol) k = []"
  shows "names_ok (names[slot_of (symbol_hash symbol) k := symbol])"
proof -
  let ?h = "symbol_hash symbol"
  let ?j = "slot_of ?h k"
  let ?n = "names[?j := symbol]"
  note o = ok [unfolded names_ok_def]
  have jl: "?j < 1024" by (rule slot_of_bound)
  have absent: "names ! i \<noteq> symbol" if "i < 1024" for i
  proof
    assume e: "names ! i = symbol"
    have "names ! i \<noteq> [] \<longrightarrow> (\<exists>k. slot_of (symbol_hash (names ! i)) k = i
          \<and> (\<forall>p < k. names ! slot_of (symbol_hash (names ! i)) p \<noteq> []))" using o that by blast
    then obtain k' where k': "slot_of ?h k' = i" "\<forall>p < k'. names ! slot_of ?h p \<noteq> []"
      unfolding e using sym by blast
    consider "k' < k" | "k' = k" | "k < k'" by linarith
    then show False using k k' e free sym by cases auto
  qed
  have nth: "?n ! i = (if i = ?j then symbol else names ! i)" if "i < 1024" for i
    using o that by (auto simp: nth_list_update)
  have used: "?n ! i \<noteq> []" if "i < 1024" "names ! i \<noteq> []" for i
    using nth [OF that(1)] that(2) sym by auto
  show ?thesis unfolding names_ok_def
  proof (intro conjI allI impI)
    show "length ?n = 1024" using o by simp
  next
    fix i j assume ij: "i < 1024" "j < 1024" "?n ! i \<noteq> []" "?n ! i = ?n ! j"
    have eq: "i = j" if "names ! i \<noteq> []" "names ! i = names ! j" using o ij(1,2) that by blast
    show "i = j"
    proof (cases "i = ?j \<or> j = ?j")
      case True
      then show ?thesis using ij(4) absent [OF ij(1)] absent [OF ij(2)] unfolding nth [OF ij(1)] nth [OF ij(2)]
        by (simp split: if_splits)
    next
      case False
      then show ?thesis using ij(3,4) eq unfolding nth [OF ij(1)] nth [OF ij(2)] by simp
    qed
  next
    fix i assume i: "i < 1024" "?n ! i \<noteq> []"
    show "\<exists>k. slot_of (symbol_hash (?n ! i)) k = i \<and> (\<forall>p < k. ?n ! slot_of (symbol_hash (?n ! i)) p \<noteq> [])"
    proof (cases "i = ?j")
      case True
      then have "?n ! i = symbol" using nth [OF jl] by simp
      then show ?thesis using True k used [OF slot_of_bound] by (intro exI [of _ k]) auto
    next
      case False
      then have ni: "?n ! i = names ! i" using nth [OF i(1)] by simp
      have "\<exists>k'. slot_of (symbol_hash (names ! i)) k' = i \<and> (\<forall>p < k'. names ! slot_of (symbol_hash (names ! i)) p \<noteq> [])"
        using o i ni by simp
      then show ?thesis using used [OF slot_of_bound] unfolding ni by blast
    qed
  qed
qed

lemma symbol_slot_known:
  assumes "length (gUnsupportedNames s) = 1024" and "symbol \<noteq> []" and "length symbol < 96"
    and "[] \<in> set (gUnsupportedNames s) \<or> symbol \<in> set (gUnsupportedNames s)"
    and "unsupportedSlotFor symbol s = (slot, s1)"
  shows "slot < 1024 \<and> gUnsupportedNames s1 ! slot = symbol \<and> unsupportedSlotFor symbol s1 = (slot, s1)
    \<and> (\<forall>i. gUnsupportedNames s ! i \<noteq> [] \<longrightarrow> gUnsupportedNames s1 ! i = gUnsupportedNames s ! i)"
proof -
  let ?n = "gUnsupportedNames s" and ?h = "symbol_hash symbol"
  have t: "take 95 symbol = symbol" using assms(3) by simp
  show ?thesis
  proof (cases rule: probe_slots_cases [OF assms(1), of symbol, case_names full found])
    case full
    then show ?thesis using assms(4) by blast
  next
    case (found k)
    let ?n' = "if ?n ! slot_of ?h k = [] then ?n[slot_of ?h k := symbol] else ?n"
    have s1: "slot = slot_of ?h k" "gUnsupportedNames s1 = ?n'" "s1 = s\<lparr>gUnsupportedNames := ?n'\<rparr>"
      using assms(5) found(4) t by (auto simp: unsupportedSlotFor_def kUnsupportedSlotCount_def)
    have lab: "?n' ! slot_of ?h k = symbol"
      using found(3) assms(1) slot_of_bound by auto
    have "\<forall>p < k. ?n' ! slot_of ?h (0 + p) \<noteq> [] \<and> ?n' ! slot_of ?h (0 + p) \<noteq> symbol"
    proof (intro allI impI)
      fix p assume "p < k"
      then have p: "?n ! slot_of ?h p \<notin> {[], symbol}" using found(2) by blast
      then have "?n ! slot_of ?h k = [] \<longrightarrow> slot_of ?h p \<noteq> slot_of ?h k" by auto
      then show "?n' ! slot_of ?h (0 + p) \<noteq> [] \<and> ?n' ! slot_of ?h (0 + p) \<noteq> symbol"
        using p by (auto simp: nth_list_update_neq)
    qed
    from probe_slots_stops [OF this found(1)] lab assms(2)
    have "probe_slots 1024 0 symbol ?n' = (slot_of ?h k, ?n')" by simp
    then have "unsupportedSlotFor symbol s1 = (slot, s1)"
      using s1 by (simp add: unsupportedSlotFor_def kUnsupportedSlotCount_def)
    then have "unsupportedSlotFor symbol s1 = (slot_of ?h k, s1)" unfolding s1(1) .
    moreover have "\<forall>i. ?n ! i \<noteq> [] \<longrightarrow> ?n' ! i = ?n ! i"
    proof (intro allI impI)
      fix i assume "?n ! i \<noteq> []"
      then show "?n' ! i = ?n ! i" by (cases "i = slot_of ?h k") (simp_all add: nth_list_update_neq)
    qed
    ultimately show ?thesis using lab slot_of_bound [of ?h k] unfolding s1(1,2) by (intro conjI) simp_all
  qed
qed

text \<open>A lookup keeps the invariant.\<close>

lemma names_ok_lookup:
  assumes ok: "names_ok (gUnsupportedNames s)" and sym: "symbol \<noteq> []" "length symbol < 96"
  shows "names_ok (gUnsupportedNames (snd (unsupportedSlotFor symbol s)))
    \<and> set (gUnsupportedNames (snd (unsupportedSlotFor symbol s))) \<subseteq> insert symbol (set (gUnsupportedNames s))"
proof -
  have len: "length (gUnsupportedNames s) = 1024" using ok by (simp add: names_ok_def)
  have t: "take 95 symbol = symbol" using sym by simp
  show ?thesis
  proof (cases rule: probe_slots_cases [OF len, of symbol, case_names full found])
    case full
    then show ?thesis using ok unfolding names_after by auto
  next
    case (found k)
    let ?i = "slot_of (symbol_hash symbol) k"
    have after: "gUnsupportedNames (snd (unsupportedSlotFor symbol s))
        = (if gUnsupportedNames s ! ?i = [] then (gUnsupportedNames s)[?i := symbol] else gUnsupportedNames s)"
      using names_after [of symbol s] unfolding found(4) snd_conv t .
    show ?thesis
    proof (cases "gUnsupportedNames s ! ?i = []")
      case True
      then show ?thesis
        using names_ok_put [OF ok sym(1) found(2)] set_update_subset_insert [of "gUnsupportedNames s" ?i symbol]
        unfolding after by simp
    next
      case False
      then show ?thesis using ok unfolding after by auto
    qed
  qed
qed

lemma names_ok_init: "names_ok (gUnsupportedNames (cuda_init allocator table))"
  by (simp add: names_ok_def cuda_init_def kUnsupportedSlotCount_def)

text \<open>As long as the looked-up names are non-empty and shorter than 96 characters, no two used slots get the
  same label: two symbols share a trampoline only when the table is full.\<close>

lemma slots_not_shared:
  assumes "list_all (\<lambda>symbol. symbol \<noteq> [] \<and> length symbol < 96) symbols"
    and "s = fold (\<lambda>symbol s. snd (unsupportedSlotFor symbol s)) symbols (cuda_init allocator table)"
    and "i < 1024" and "j < 1024" and "gUnsupportedNames s ! i = gUnsupportedNames s ! j"
    and "gUnsupportedNames s ! i \<noteq> []"
  shows "i = j"
proof -
  have "names_ok (gUnsupportedNames (fold (\<lambda>symbol s. snd (unsupportedSlotFor symbol s)) symbols s0))"
    if "names_ok (gUnsupportedNames s0)" "list_all (\<lambda>symbol. symbol \<noteq> [] \<and> length symbol < 96) symbols" for s0 symbols
    using that by (induction symbols arbitrary: s0) (simp_all add: names_ok_lookup)
  then have "names_ok (gUnsupportedNames s)" using names_ok_init assms(1,2) by blast
  then show ?thesis using assms(3-6) unfolding names_ok_def by blast
qed

lemma slots_not_shared_witness:
  "\<exists>s slot. s = fold (\<lambda>symbol s. snd (unsupportedSlotFor symbol s)) [''cuFoo''] (cuda_init [] Map.empty)
     \<and> gUnsupportedNames s ! slot = ''cuFoo'' \<and> {j. j < 1024 \<and> gUnsupportedNames s ! j = ''cuFoo''} = {slot}"
proof -
  let ?s0 = "cuda_init [] Map.empty"
  obtain slot s1 where u: "unsupportedSlotFor ''cuFoo'' ?s0 = (slot, s1)" by fastforce
  have r: "length (gUnsupportedNames ?s0) = 1024" "[] \<in> set (gUnsupportedNames ?s0)"
    by (simp_all add: cuda_init_def kUnsupportedSlotCount_def)
  have a: "slot < 1024" "gUnsupportedNames s1 ! slot = ''cuFoo''"
    using symbol_slot_known [OF r(1) _ _ _ u] r(2) by auto
  have all: "list_all (\<lambda>symbol. symbol \<noteq> [] \<and> length symbol < 96) [''cuFoo'']" by simp
  have s1: "s1 = fold (\<lambda>symbol s. snd (unsupportedSlotFor symbol s)) [''cuFoo''] ?s0" using u by simp
  have "j = slot" if j: "j < 1024" "gUnsupportedNames s1 ! j = ''cuFoo''" for j
    by (rule slots_not_shared [OF all s1 j(1) a(1)]) (simp_all only: j(2) a(2) list.simps not_False_eq_True)
  then have "{j. j < 1024 \<and> gUnsupportedNames s1 ! j = ''cuFoo''} = {slot}" using a by blast
  then show ?thesis using a s1 by blast
qed

text \<open>A symbol of 96 or more characters is never found again: with room in the table, every lookup takes one more
  slot, and cannot give the slot of the lookup before.\<close>

lemma long_symbol_takes_slots:
  assumes "length (gUnsupportedNames s) = 1024" and "96 \<le> length symbol"
    and "\<forall>x \<in> set (gUnsupportedNames s). length x < 96"
    and "unsupportedSlotFor symbol s = (slot, s1)" and "[] \<in> set (gUnsupportedNames s)"
    and "unsupportedSlotFor symbol s1 = (slot2, s2)" and "[] \<in> set (gUnsupportedNames s1)"
  shows "gUnsupportedNames s ! slot = [] \<and> gUnsupportedNames s1 ! slot = take 95 symbol
    \<and> gUnsupportedNames s1 ! slot2 = [] \<and> slot2 \<noteq> slot"
proof -
  have one: "gUnsupportedNames s ! slot = [] \<and> gUnsupportedNames s1 = (gUnsupportedNames s)[slot := take 95 symbol] \<and> slot < 1024"
    if len: "length (gUnsupportedNames s) = 1024" and short: "\<forall>x \<in> set (gUnsupportedNames s). length x < 96"
      and run: "unsupportedSlotFor symbol s = (slot, s1)" and room: "[] \<in> set (gUnsupportedNames s)"
    for s s1 slot
  proof -
    have ne: "gUnsupportedNames s ! i \<noteq> symbol" if "i < 1024" for i
      using short len that assms(2) nth_mem [of i "gUnsupportedNames s"] by fastforce
    show ?thesis
    proof (cases rule: probe_slots_cases [OF len, of symbol, case_names full found])
      case full
      then show ?thesis using room by blast
    next
      case (found k)
      then have "gUnsupportedNames s ! slot_of (symbol_hash symbol) k = []" using ne [OF slot_of_bound] by blast
      then show ?thesis using found(4) run slot_of_bound
        by (auto simp: unsupportedSlotFor_def kUnsupportedSlotCount_def)
    qed
  qed
  note a = one [OF assms(1,3,4,5)]
  have len1: "length (gUnsupportedNames s1) = 1024" using a assms(1) by simp
  have "\<forall>x \<in> set (gUnsupportedNames s1). length x < 96"
    using a assms(3) set_update_subset_insert [of "gUnsupportedNames s" slot "take 95 symbol"] by fastforce
  note b = one [OF len1 this assms(6,7)]
  have "take 95 symbol \<noteq> []" using assms(2) by (cases symbol) auto
  moreover have "gUnsupportedNames s1 ! slot = take 95 symbol" using a assms(1) by simp
  ultimately show ?thesis using a b by metis
qed

lemma long_symbol_takes_slots_witness:
  "\<exists>slot s1 slot2 s2. unsupportedSlotFor (replicate 100 CHR ''x'') (cuda_init [] Map.empty) = (slot, s1)
     \<and> unsupportedSlotFor (replicate 100 CHR ''x'') s1 = (slot2, s2) \<and> slot2 \<noteq> slot"
proof -
  let ?s0 = "cuda_init [] Map.empty" and ?x = "replicate 100 CHR ''x''"
  obtain slot s1 where u: "unsupportedSlotFor ?x ?s0 = (slot, s1)" by fastforce
  obtain slot2 s2 where v: "unsupportedSlotFor ?x s1 = (slot2, s2)" by fastforce
  have n0: "gUnsupportedNames ?s0 = replicate 1024 []" by (simp add: cuda_init_def kUnsupportedSlotCount_def)
  have len: "length (gUnsupportedNames ?s0) = 1024" by (simp add: n0)
  have x: "96 \<le> length ?x" by simp
  have short: "\<forall>x \<in> set (gUnsupportedNames ?s0). length x < 96" and room: "[] \<in> set (gUnsupportedNames ?s0)"
    by (simp_all add: n0)
  have "[] \<in> set (gUnsupportedNames s1)"
  proof (cases rule: probe_slots_cases [OF len, of ?x, case_names full found])
    case full
    then show ?thesis using room by blast
  next
    case (found k)
    let ?i = "slot_of (symbol_hash ?x) k"
    have "gUnsupportedNames s1 = (if gUnsupportedNames ?s0 ! ?i = [] then (gUnsupportedNames ?s0)[?i := take 95 ?x] else gUnsupportedNames ?s0)"
      using names_after [of ?x ?s0] unfolding u found(4) snd_conv .
    then have s1: "gUnsupportedNames s1 = gUnsupportedNames ?s0 \<or> gUnsupportedNames s1 = (gUnsupportedNames ?s0)[?i := take 95 ?x]"
      by meson
    let ?j = "if ?i = 0 then 1 else 0"
    have j: "?j < (1024::nat)" "?j \<noteq> ?i" by auto
    have "(replicate 1024 [])[?i := take 95 ?x] ! ?j = replicate 1024 [] ! ?j"
      by (rule nth_list_update_neq) (rule j(2) [symmetric])
    moreover have "replicate 1024 [] ! ?j = []" by (rule nth_replicate) (rule j(1))
    ultimately have "gUnsupportedNames s1 ! ?j = []" using s1 unfolding n0 by metis
    moreover have "?j < length (gUnsupportedNames s1)" using s1 j(1) unfolding n0 by (metis length_list_update length_replicate)
    ultimately have "gUnsupportedNames s1 ! ?j = []" "?j < length (gUnsupportedNames s1)" .
    then show ?thesis by (metis nth_mem)
  qed
  from long_symbol_takes_slots [OF len x short u room v this] u v show ?thesis by blast
qed

section \<open>The answers of a sequence of lookups\<close>

primrec lookup_answers ::
  "int \<Rightarrow> u64 \<Rightarrow> string list \<Rightarrow> cuda \<Rightarrow> (CUresult \<times> entry_point option option \<times> int option) list" where
  "lookup_answers version fl [] s = []"
| "lookup_answers version fl (name # names) s =
     (case cuGetProcAddress_v2 (Some name) True version fl True s of
        (answer, s1) \<Rightarrow> answer # lookup_answers version fl names s1)"

definition found_at :: "entry_point \<Rightarrow> CUresult \<times> entry_point option option \<times> int option" where
  "found_at entry = (CUDA_SUCCESS, Some (Some entry), Some 0)"

lemma lookup_answer:
  assumes "name \<noteq> []"
  shows "cuGetProcAddress_v2 (Some name) True version fl True s =
    (if name \<in> set known_symbols then (found_at (Call name), s)
     else (found_at (Trampoline (fst (unsupportedSlotFor name s))), snd (unsupportedSlotFor name s)))"
  using assms by (simp add: cuGetProcAddress_v2_def cuGetProcAddress_def lookup_def found_at_def split: prod.split)

text \<open>A table without room holds 1024 symbols.\<close>

lemma names_room:
  assumes "names_ok names" and "set names - {[]} \<subseteq> U" and "finite U" and "card U \<le> 1024" and "symbol \<in> U"
  shows "[] \<in> set names \<or> symbol \<in> set names"
proof (rule ccontr)
  assume c: "\<not> ([] \<in> set names \<or> symbol \<in> set names)"
  have len: "length names = 1024" using assms(1) by (simp add: names_ok_def)
  have "names ! i \<noteq> []" if "i < 1024" for i using c len that nth_mem by metis
  then have "distinct names" using assms(1) by (auto simp: names_ok_def distinct_conv_nth)
  then have "card (set names) = 1024" using len by (simp add: distinct_card)
  moreover have "card (insert symbol (set names)) \<le> card U"
    using c assms(2,3,5) by (intro card_mono) auto
  ultimately show False using c assms(4) by simp
qed

text \<open>The answers, read in the table \<open>T\<close> after the last lookup.\<close>

lemma lookup_answers_table:
  assumes "names_ok (gUnsupportedNames s)" and "set (gUnsupportedNames s) - {[]} \<subseteq> U" and "finite U" and "card U \<le> 1024"
    and "set names - set known_symbols \<subseteq> U" and "list_all (\<lambda>name. name \<noteq> [] \<and> length name < 96) names"
  shows "\<exists>T. names_ok T \<and> (\<forall>i. gUnsupportedNames s ! i \<noteq> [] \<longrightarrow> T ! i = gUnsupportedNames s ! i)
    \<and> list_all2 (\<lambda>name answer. if name \<in> set known_symbols then answer = found_at (Call name)
        else \<exists>slot < 1024. T ! slot = name \<and> answer = found_at (Trampoline slot)) names (lookup_answers version fl names s)"
  using assms(1,2,5,6)
proof (induction names arbitrary: s)
  case Nil
  then show ?case by auto
next
  case (Cons name names)
  have name: "name \<noteq> []" "length name < 96" using Cons.prems(4) by simp_all
  show ?case
  proof (cases "name \<in> set known_symbols")
    case True
    then show ?thesis using Cons.IH [of s] Cons.prems by (auto simp: lookup_answer [OF name(1)])
  next
    case False
    obtain slot s1 where u: "unsupportedSlotFor name s = (slot, s1)" by fastforce
    have room: "[] \<in> set (gUnsupportedNames s) \<or> name \<in> set (gUnsupportedNames s)"
      using False Cons.prems by (intro names_room [OF _ _ assms(3,4)]) auto
    have len: "length (gUnsupportedNames s) = 1024" using Cons.prems(1) by (simp add: names_ok_def)
    note slot = symbol_slot_known [OF len name room u]
    have "names_ok (gUnsupportedNames s1)" "set (gUnsupportedNames s1) - {[]} \<subseteq> U"
      using names_ok_lookup [OF Cons.prems(1) name] Cons.prems(2,3) False unfolding u by auto
    then obtain T where T: "names_ok T" "\<forall>i. gUnsupportedNames s1 ! i \<noteq> [] \<longrightarrow> T ! i = gUnsupportedNames s1 ! i"
      "list_all2 (\<lambda>name answer. if name \<in> set known_symbols then answer = found_at (Call name)
        else \<exists>slot < 1024. T ! slot = name \<and> answer = found_at (Trampoline slot)) names (lookup_answers version fl names s1)"
      using Cons.IH [of s1] Cons.prems(3,4) by auto
    have "T ! slot = name" using T(2) slot name(1) by auto
    moreover have "\<forall>i. gUnsupportedNames s ! i \<noteq> [] \<longrightarrow> T ! i = gUnsupportedNames s ! i" using T(2) slot by metis
    ultimately show ?thesis
      using T(1,3) slot False by (intro exI [of _ T]) (auto simp: lookup_answer [OF name(1)] u)
  qed
qed

text \<open>C33: In any sequence of lookups of non-empty names of fewer than 96 characters from the start of the driver, of which at
  most 1024 different ones are no known symbols, every lookup succeeds with matching status: a known symbol is answered
  with the driver's own function, any other name with a trampoline below 1024 that belongs to this name alone and stays
  the same however often the name is looked up and whatever is looked up in between.\<close>

theorem lookups_keep_trampolines:
  assumes "list_all (\<lambda>name. name \<noteq> [] \<and> length name < 96) names" and "card (set names - set known_symbols) \<le> 1024"
  shows "\<exists>trampoline. inj_on trampoline (set names - set known_symbols)
    \<and> trampoline ` (set names - set known_symbols) \<subseteq> {..<1024}
    \<and> lookup_answers version fl names (cuda_init allocator table)
      = map (\<lambda>name. (CUDA_SUCCESS, Some (Some (if name \<in> set known_symbols then Call name else Trampoline (trampoline name))),
          Some 0)) names"
proof -
  let ?U = "set names - set known_symbols" and ?s = "cuda_init allocator table"
  have empty: "set (gUnsupportedNames ?s) - {[]} \<subseteq> ?U" by (auto simp: cuda_init_def)
  obtain T where T: "names_ok T"
    "list_all2 (\<lambda>name answer. if name \<in> set known_symbols then answer = found_at (Call name)
        else \<exists>slot < 1024. T ! slot = name \<and> answer = found_at (Trampoline slot)) names (lookup_answers version fl names ?s)"
    using lookup_answers_table [OF names_ok_init empty _ assms(2) order_refl assms(1)] by blast
  define f where "f name = (SOME i. i < 1024 \<and> T ! i = name)" for name
  have f: "f name < 1024 \<and> T ! f name = name" if "slot < 1024" "T ! slot = name" for name slot
    unfolding f_def by (rule someI [where x = slot]) (use that in simp)
  have one: "slot = f name" if "slot < 1024" "T ! slot = name" "name \<noteq> []" for name slot
    using T(1) f [OF that(1,2)] that unfolding names_ok_def by metis
  have all: "\<exists>slot < 1024. T ! slot = name" if "name \<in> ?U" for name
    using T(2) that by (auto simp: list_all2_conv_all_nth in_set_conv_nth split: if_splits)
  have "inj_on f ?U" using f all by (metis (no_types, lifting) inj_onI)
  moreover have "f ` ?U \<subseteq> {..<1024}" using f all by blast
  moreover have "lookup_answers version fl names ?s
      = map (\<lambda>name. found_at (if name \<in> set known_symbols then Call name else Trampoline (f name))) names"
  proof (rule nth_equalityI)
    show "length (lookup_answers version fl names ?s)
        = length (map (\<lambda>name. found_at (if name \<in> set known_symbols then Call name else Trampoline (f name))) names)"
      using T(2) by (simp add: list_all2_lengthD)
  next
    fix i assume "i < length (lookup_answers version fl names ?s)"
    then have i: "i < length names" using T(2) by (simp add: list_all2_lengthD)
    then have "names ! i \<noteq> []" using assms(1) by (auto simp: list_all_iff)
    then show "lookup_answers version fl names ?s ! i
        = map (\<lambda>name. found_at (if name \<in> set known_symbols then Call name else Trampoline (f name))) names ! i"
      using list_all2_nthD [OF T(2) i] i one by (auto split: if_splits)
  qed
  ultimately show ?thesis by (intro exI [of _ f]) (simp add: found_at_def)
qed

lemma lookups_keep_trampolines_witness:
  "\<exists>i j. i \<noteq> j \<and> i < 1024 \<and> j < 1024
    \<and> lookup_answers 12080 0 [''cuFoo'', ''cuInit'', ''cuBar'', ''cuFoo''] (cuda_init [] Map.empty)
      = map (\<lambda>entry. (CUDA_SUCCESS, Some (Some entry), Some 0)) [Trampoline i, Call ''cuInit'', Trampoline j, Trampoline i]"
proof -
  let ?names = "[''cuFoo'', ''cuInit'', ''cuBar'', ''cuFoo'']"
  have k: "''cuFoo'' \<notin> set known_symbols" "''cuBar'' \<notin> set known_symbols" "''cuInit'' \<in> set known_symbols"
    by (simp_all add: known_symbols_def)
  have u: "set ?names - set known_symbols = {''cuFoo'', ''cuBar''}" using k by auto
  have l: "list_all (\<lambda>name. name \<noteq> [] \<and> length name < 96) ?names" by simp
  from lookups_keep_trampolines [OF l, of 12080 0 "[]" Map.empty] obtain f where
    f: "inj_on f (set ?names - set known_symbols)" "f ` (set ?names - set known_symbols) \<subseteq> {..<1024}"
    "lookup_answers 12080 0 ?names (cuda_init [] Map.empty) = map (\<lambda>name. (CUDA_SUCCESS,
      Some (Some (if name \<in> set known_symbols then Call name else Trampoline (f name))), Some 0)) ?names"
    unfolding u by auto
  from f(1,2) have "f ''cuFoo'' \<noteq> f ''cuBar''" "f ''cuFoo'' < 1024" "f ''cuBar'' < 1024"
    unfolding u by auto
  then show ?thesis using f(3) k by (intro exI [of _ "f ''cuFoo''"] exI [of _ "f ''cuBar''"]) simp
qed

end
