(* ===== verification/CudaIntegrity.thy ===== *)
theory CudaIntegrity
  imports CudaDevice
begin

text \<open>
  The integrity check of \<^verbatim>\<open>imb_cuda_shim.cpp\<close>, the function behind the last export table: a hash over an
  accumulator of 66 bytes that is fed byte by byte, used twice with a masked key. The theory shows which function it
  is: the streaming hash is MD2 (RFC 1319, with the checksum of its errata), written here block by block as
  \<open>md2\<close>, and the two passes are the keyed hash HMAC of RFC 2104 over it. The locale \<open>streaming_hash\<close> is
  what the two passes rely on.
\<close>

section \<open>The code\<close>

definition kIntegrityMixingTable :: bytes where
  "kIntegrityMixingTable =
    [0x29, 0x2e, 0x43, 0xc9, 0xa2, 0xd8, 0x7c, 0x01, 0x3d, 0x36, 0x54, 0xa1, 0xec, 0xf0, 0x06, 0x13,
     0x62, 0xa7, 0x05, 0xf3, 0xc0, 0xc7, 0x73, 0x8c, 0x98, 0x93, 0x2b, 0xd9, 0xbc, 0x4c, 0x82, 0xca,
     0x1e, 0x9b, 0x57, 0x3c, 0xfd, 0xd4, 0xe0, 0x16, 0x67, 0x42, 0x6f, 0x18, 0x8a, 0x17, 0xe5, 0x12,
     0xbe, 0x4e, 0xc4, 0xd6, 0xda, 0x9e, 0xde, 0x49, 0xa0, 0xfb, 0xf5, 0x8e, 0xbb, 0x2f, 0xee, 0x7a,
     0xa9, 0x68, 0x79, 0x91, 0x15, 0xb2, 0x07, 0x3f, 0x94, 0xc2, 0x10, 0x89, 0x0b, 0x22, 0x5f, 0x21,
     0x80, 0x7f, 0x5d, 0x9a, 0x5a, 0x90, 0x32, 0x27, 0x35, 0x3e, 0xcc, 0xe7, 0xbf, 0xf7, 0x97, 0x03,
     0xff, 0x19, 0x30, 0xb3, 0x48, 0xa5, 0xb5, 0xd1, 0xd7, 0x5e, 0x92, 0x2a, 0xac, 0x56, 0xaa, 0xc6,
     0x4f, 0xb8, 0x38, 0xd2, 0x96, 0xa4, 0x7d, 0xb6, 0x76, 0xfc, 0x6b, 0xe2, 0x9c, 0x74, 0x04, 0xf1,
     0x45, 0x9d, 0x70, 0x59, 0x64, 0x71, 0x87, 0x20, 0x86, 0x5b, 0xcf, 0x65, 0xe6, 0x2d, 0xa8, 0x02,
     0x1b, 0x60, 0x25, 0xad, 0xae, 0xb0, 0xb9, 0xf6, 0x1c, 0x46, 0x61, 0x69, 0x34, 0x40, 0x7e, 0x0f,
     0x55, 0x47, 0xa3, 0x23, 0xdd, 0x51, 0xaf, 0x3a, 0xc3, 0x5c, 0xf9, 0xce, 0xba, 0xc5, 0xea, 0x26,
     0x2c, 0x53, 0x0d, 0x6e, 0x85, 0x28, 0x84, 0x09, 0xd3, 0xdf, 0xcd, 0xf4, 0x41, 0x81, 0x4d, 0x52,
     0x6a, 0xdc, 0x37, 0xc8, 0x6c, 0xc1, 0xab, 0xfa, 0x24, 0xe1, 0x7b, 0x08, 0x0c, 0xbd, 0xb1, 0x4a,
     0x78, 0x88, 0x95, 0x8b, 0xe3, 0x63, 0xe8, 0x6d, 0xe9, 0xcb, 0xd5, 0xfe, 0x3b, 0x00, 0x1d, 0x39,
     0xf2, 0xef, 0xb7, 0x0e, 0x66, 0x58, 0xd0, 0xe4, 0xa6, 0x77, 0x72, 0xf8, 0xeb, 0x75, 0x4b, 0x0a,
     0x31, 0x44, 0x50, 0xb4, 0x8f, 0xed, 0x1f, 0x1a, 0xdb, 0x99, 0x8d, 0x33, 0x9f, 0x11, 0x83, 0x14]"

text \<open>The loop over the bytes 1 to 47, and the rounds around it. The round counter is a byte that is increased until
  it is \<^verbatim>\<open>0x12\<close>.\<close>

definition mixBytes :: "u8 \<Rightarrow> bytes \<Rightarrow> u8 \<times> bytes" where
  "mixBytes state accumulator =
     fold (\<lambda>index (state, accumulator).
         let state = accumulator ! index XOR kIntegrityMixingTable ! unat state
         in (state, accumulator[index := state]))
       [1..<0x30] (state, accumulator)"

function mixRounds :: "u8 \<Rightarrow> u8 \<Rightarrow> bytes \<Rightarrow> bytes" where
  "mixRounds round state accumulator =
     (let state = state XOR accumulator ! 0;
          accumulator = accumulator[0 := state];
          (state, accumulator) = mixBytes state accumulator;
          state = state + round
      in if round + 1 = 0x12 then accumulator
         else mixRounds (round + 1) (kIntegrityMixingTable ! unat state) accumulator)"
  by pat_completeness auto
termination
proof (relation "measure (\<lambda>(round, _, _). unat (0x11 - round))")
  fix round state a s1 b and s2 :: u8 and c :: bytes and s3 :: u8
  assume "round + 1 \<noteq> (0x12 :: u8)"
  then have "0x11 - round \<noteq> 0" by auto
  then have "unat (0x11 - round - 1) = unat (0x11 - round) - 1" "0 < unat (0x11 - round)"
    by (rule unat_minus_one, simp add: unat_gt_0 del: right_minus_eq)
  moreover have "0x11 - (round + 1) = 0x11 - round - 1" by (rule diff_add_eq_diff_diff_swap [THEN trans]) (simp add: algebra_simps)
  ultimately show "((round + 1, kIntegrityMixingTable ! unat s3, c), round, state, a) \<in> measure (\<lambda>(round, _, _). unat (0x11 - round))"
    by simp
qed auto

declare mixRounds.simps [simp del]

definition integritySinglePass :: "bytes \<Rightarrow> u8 \<Rightarrow> bytes" where
  "integritySinglePass accumulator byte =
     (let position = accumulator ! 0x40;
          accumulator = accumulator[unat position + 0x10 := byte];
          nextPosition = (position + 1) AND 0x0f;
          accumulator = accumulator[unat position + 0x20 := accumulator ! unat position XOR byte];
          mixed = kIntegrityMixingTable ! unat (byte XOR accumulator ! 0x41);
          previous = accumulator ! (unat position + 0x30);
          accumulator = accumulator[unat position + 0x30 := mixed XOR previous];
          accumulator = accumulator[0x41 := mixed XOR previous];
          accumulator = accumulator[0x40 := nextPosition]
      in if nextPosition \<noteq> 0 then accumulator else mixRounds 0 0x29 accumulator)"

definition integrityHashBytes :: "bytes \<Rightarrow> bytes \<Rightarrow> u8 \<Rightarrow> bytes" where
  "integrityHashBytes accumulator input xorMask =
     fold (\<lambda>byte accumulator. integritySinglePass accumulator (byte XOR xorMask)) input accumulator"

text \<open>The result is the first 16 bytes, copied into two 64-bit integers.\<close>

definition integrityFinalize :: "bytes \<Rightarrow> (u64 \<times> u64) \<times> bytes" where
  "integrityFinalize accumulator =
     (let padding = 16 - accumulator ! 0x40;
          accumulator = ((\<lambda>a. integritySinglePass a padding) ^^ unat padding) accumulator;
          accumulator = fold (\<lambda>index a. integritySinglePass a (a ! index)) [0x30..<0x40] accumulator
      in ((le_word (\<lambda>i. accumulator ! i) 8, le_word (\<lambda>i. accumulator ! (8 + i)) 8), accumulator))"

record IntegrityPass3Input =
  pass3_driverVersion :: u32
  pass3_requestedVersion :: u32
  pass3_process :: u32
  pass3_thread :: u32
  pass3_cudartTable :: ptr
  pass3_integrityTable :: ptr
  pass3_integrityFunction :: ptr
  pass3_unixSeconds :: u64

record IntegrityDeviceInfo =
  info_uuid :: bytes
  info_pciDomain :: u32
  info_pciBus :: u32
  info_pciDevice :: u32

text \<open>The bytes of the two structures in memory; neither has padding.\<close>

definition pass3_bytes :: "IntegrityPass3Input \<Rightarrow> bytes" where
  "pass3_bytes p = le_bytes (pass3_driverVersion p) @ le_bytes (pass3_requestedVersion p)
     @ le_bytes (pass3_process p) @ le_bytes (pass3_thread p) @ le_bytes (pass3_cudartTable p)
     @ le_bytes (pass3_integrityTable p) @ le_bytes (pass3_integrityFunction p) @ le_bytes (pass3_unixSeconds p)"

definition info_bytes :: "IntegrityDeviceInfo \<Rightarrow> bytes" where
  "info_bytes d = info_uuid d @ le_bytes (info_pciDomain d) @ le_bytes (info_pciBus d) @ le_bytes (info_pciDevice d)"

definition integrityKey :: bytes where
  "integrityKey = [0x14, 0x6a, 0xdd, 0xae, 0x53, 0xa9, 0xa7, 0x52, 0xaa, 0x08, 0x41, 0x36, 0x0b, 0xf5, 0x5a, 0x9f]"

text \<open>The two calls of \<^verbatim>\<open>std::fill\<close> between the passes.\<close>

definition resetAccumulator :: "bytes \<Rightarrow> bytes" where
  "resetAccumulator accumulator = replicate 16 0 @ take 32 (drop 16 accumulator) @ replicate 18 0"

text \<open>What the operating system and the linker give: the process, the thread, and the addresses of the two
  tables and of the function itself.\<close>

record integrity_env =
  env_pid :: u32
  env_thread :: u32
  env_cudartTable :: ptr
  env_integrityTable :: ptr
  env_integrityFunction :: ptr

definition integrityCheck :: "integrity_env \<Rightarrow> u32 \<Rightarrow> u64 \<Rightarrow> bool \<Rightarrow> CUresult \<times> (u64 \<times> u64) option" where
  "integrityCheck env version unixSeconds result =
     (if \<not> result then (CUDA_ERROR_INVALID_VALUE, None)
      else if version mod 10 = 0 then (CUDA_SUCCESS, Some (0x3341181c03cb675c, 0x8ed383aa1f4cd1e8))
      else if version mod 10 = 1 then (CUDA_SUCCESS, Some (0x1841181c03cb675c, 0x8ed383aa1f4cd1e8))
      else
        (let accumulator = replicate 66 0;
             accumulator = integrityHashBytes accumulator integrityKey 0x36;
             processInfo = \<lparr>pass3_driverVersion = word_of_int kDriverVersion, pass3_requestedVersion = version,
               pass3_process = env_pid env, pass3_thread = env_thread env,
               pass3_cudartTable = env_cudartTable env, pass3_integrityTable = env_integrityTable env,
               pass3_integrityFunction = env_integrityFunction env, pass3_unixSeconds = unixSeconds\<rparr>;
             accumulator = integrityHashBytes accumulator (pass3_bytes processInfo) 0;
             deviceInfo = \<lparr>info_uuid = kDeviceUUID, info_pciDomain = 0, info_pciBus = 0, info_pciDevice = 0\<rparr>;
             accumulator = integrityHashBytes accumulator (info_bytes deviceInfo) 0;
             (firstPass, accumulator) = integrityFinalize accumulator;
             accumulator = resetAccumulator accumulator;
             accumulator = integrityHashBytes accumulator integrityKey 0x5c;
             accumulator = integrityHashBytes accumulator (le_bytes (fst firstPass) @ le_bytes (snd firstPass)) 0;
             (finalPass, accumulator) = integrityFinalize accumulator
         in (CUDA_SUCCESS, Some finalPass)))"

section \<open>The reference\<close>

text \<open>MD2 of a message: pad it to whole blocks of 16 bytes, append the checksum block, and compress block by block
  into a state of 48 bytes, of which the first 16 are the digest.\<close>

definition md2_sub :: "u8 \<Rightarrow> u8" where
  "md2_sub b = kIntegrityMixingTable ! unat b"

definition md2_step :: "nat \<Rightarrow> u8 \<times> bytes \<Rightarrow> u8 \<times> bytes" where
  "md2_step k = (\<lambda>(t, X). let t = X ! k XOR md2_sub t in (t, X[k := t]))"

definition md2_round :: "nat \<Rightarrow> u8 \<times> bytes \<Rightarrow> u8 \<times> bytes" where
  "md2_round j tX = (case fold md2_step [0..<48] tX of (t, X) \<Rightarrow> (t + word_of_nat j, X))"

definition md2_compress :: "bytes \<Rightarrow> bytes \<Rightarrow> bytes" where
  "md2_compress block digest =
     take 16 (snd (fold md2_round [0..<18] (0, digest @ block @ map2 (XOR) digest block)))"

definition md2_check :: "bytes \<Rightarrow> u8 \<times> bytes \<Rightarrow> u8 \<times> bytes" where
  "md2_check block = fold (\<lambda>j (L, C). let c = md2_sub (block ! j XOR L) XOR C ! j in (c, C[j := c])) [0..<16]"

fun blocks16 :: "nat \<Rightarrow> bytes \<Rightarrow> bytes list" where
  "blocks16 0 m = []"
| "blocks16 (Suc n) m = take 16 m # blocks16 n (drop 16 m)"

definition md2_pad :: "bytes \<Rightarrow> bytes" where
  "md2_pad m = (let p = 16 - length m mod 16 in m @ replicate p (word_of_nat p))"

definition md2 :: "bytes \<Rightarrow> bytes" where
  "md2 m = (let padded = md2_pad m;
                bs = blocks16 (length padded div 16) padded;
                checksum = snd (fold md2_check bs (0, replicate 16 0))
            in fold md2_compress (bs @ [checksum]) (replicate 16 0))"

text \<open>HMAC with a key of one block.\<close>

definition hmac_md2 :: "bytes \<Rightarrow> bytes \<Rightarrow> bytes" where
  "hmac_md2 key m = md2 (map (\<lambda>b. b XOR 0x5c) key @ md2 (map (\<lambda>b. b XOR 0x36) key @ m))"

section \<open>A pass of the code is a step of the reference\<close>

lemma mixing_table_0: "md2_sub 0 = 0x29"
  by (simp add: md2_sub_def kIntegrityMixingTable_def)

lemma mixBytes_step:
  "mixBytes (md2_sub t XOR X ! 0) (X[0 := md2_sub t XOR X ! 0]) = fold md2_step [0..<48] (t, X)"
proof -
  have "(\<lambda>index (state, accumulator :: bytes). let state = accumulator ! index XOR kIntegrityMixingTable ! unat state
         in (state, accumulator[index := state])) = md2_step"
    by (simp add: md2_step_def md2_sub_def Let_def fun_eq_iff split: prod.split)
  then have "mixBytes s Y = fold md2_step [1..<48] (s, Y)" for s Y by (simp add: mixBytes_def)
  moreover have "[0..<48] = 0 # [1..<48]" by (simp add: upt_rec)
  ultimately show ?thesis by (simp add: md2_step_def xor.commute Let_def)
qed

lemma mixRounds_rounds:
  "j < 18 \<Longrightarrow> mixRounds (word_of_nat j) (md2_sub t) X = snd (fold md2_round [j..<18] (t, X))"
proof (induction "17 - j" arbitrary: j t X)
  case 0
  then have j: "j = 17" by simp
  have "[17..<18] = [17 :: nat]" by (simp add: upt_rec)
  then show ?case unfolding j
    by (subst mixRounds.simps) (simp add: mixBytes_step md2_round_def Let_def split: prod.split)
next
  case (Suc n)
  obtain s Y where sY: "fold md2_step [0..<48] (t, X) = (s, Y)" by fastforce
  have j: "j < 17" using Suc.hyps(2) by simp
  have "word_of_nat j + 1 \<noteq> (0x12 :: u8)"
  proof
    assume "word_of_nat j + 1 = (0x12 :: u8)"
    then have "word_of_nat (Suc j) = (word_of_nat 18 :: u8)" by (simp add: add.commute)
    moreover have "unat (word_of_nat (Suc j) :: u8) = Suc j" by (rule u8_unat_of_nat) (use j in simp)
    moreover have "unat (word_of_nat 18 :: u8) = 18" by simp
    ultimately have "Suc j = 18" by metis
    then show False using j by simp
  qed
  moreover have "word_of_nat j + 1 = (word_of_nat (Suc j) :: u8)" by simp
  moreover have "mixRounds (word_of_nat (Suc j)) (md2_sub (s + word_of_nat j)) Y
      = snd (fold md2_round [Suc j..<18] (s + word_of_nat j, Y))"
    using Suc.hyps(1) [of "Suc j"] Suc.hyps(2) j by simp
  moreover have "[j..<18] = j # [Suc j..<18]" using j by (simp add: upt_rec)
  moreover have "md2_round j (t, X) = (s + word_of_nat j, Y)" by (simp add: md2_round_def sY)
  ultimately show ?case
    by (subst mixRounds.simps) (simp add: mixBytes_step sY Let_def md2_sub_def [symmetric] add.commute [of "word_of_nat j" "1 :: u8"])
qed

text \<open>The rounds only work on the first 48 bytes.\<close>

lemma md2_steps_frame:
  "\<forall>k \<in> set ks. k < length X \<Longrightarrow> fold md2_step ks (t, X @ Z)
     = (fst (fold md2_step ks (t, X)), snd (fold md2_step ks (t, X)) @ Z) \<and> length (snd (fold md2_step ks (t, X))) = length X"
  by (induction ks arbitrary: t X) (simp_all add: md2_step_def Let_def nth_append list_update_append)

lemma md2_rounds_frame:
  "length X = 48 \<Longrightarrow> fold md2_round js (t, X @ Z)
     = (fst (fold md2_round js (t, X)), snd (fold md2_round js (t, X)) @ Z) \<and> length (snd (fold md2_round js (t, X))) = 48"
proof (induction js arbitrary: t X)
  case (Cons j js)
  have f: "fold md2_step [0..<48] (t, X @ Z) = (fst (fold md2_step [0..<48] (t, X)), snd (fold md2_step [0..<48] (t, X)) @ Z)"
    "length (snd (fold md2_step [0..<48] (t, X))) = 48"
    using md2_steps_frame [of "[0..<48]" X t Z] Cons.prems by simp_all
  show ?case using Cons.IH [OF f(2)] by (simp add: md2_round_def f(1) split_beta del: upt_Suc)
qed simp

definition check_step :: "bytes \<Rightarrow> nat \<Rightarrow> u8 \<times> bytes \<Rightarrow> u8 \<times> bytes" where
  "check_step block j = (\<lambda>(L, C). let c = md2_sub (block ! j XOR L) XOR C ! j in (c, C[j := c]))"

lemma md2_check_steps: "md2_check block = fold (check_step block) [0..<16]"
  by (simp add: md2_check_def check_step_def [abs_def])

text \<open>The accumulator by its parts: the digest, the block, their sum, the checksum, the position and the last
  checksum byte.\<close>

lemma single_pass:
  assumes "length x = 16" "length b = 16" "length y = 16" "length C = 16" "j < 16"
  shows "integritySinglePass (x @ b @ y @ C @ [word_of_nat j, L]) byte =
    (let c = md2_sub (byte XOR L) XOR C ! j;
         acc = x @ b[j := byte] @ y[j := x ! j XOR byte] @ C[j := c] @ [word_of_nat (Suc j mod 16), c]
     in if j = 15 then mixRounds 0 0x29 acc else acc)"
proof -
  have u: "unat (word_of_nat j :: u8) = j" using assms(5) by (simp add: unat_of_nat)
  have s: "unat (word_of_nat (Suc j) :: u8) = Suc j" by (rule u8_unat_of_nat) (use assms(5) in simp)
  have m: "unat (word_of_nat (Suc j mod 16) :: u8) = Suc j mod 16" by (rule u8_unat_of_nat) simp
  have p: "(word_of_nat j + 1) AND 0x0f = (word_of_nat (Suc j mod 16) :: u8)"
  proof -
    have "(word_of_nat j + 1 :: u8) = word_of_nat (Suc j)" by simp
    moreover have "(0x0f :: u8) = mask 4" by (simp add: mask_eq_exp_minus_1)
    ultimately have "(word_of_nat j + 1) AND 0x0f = (take_bit 4 (word_of_nat (Suc j)) :: u8)" by (simp only: take_bit_eq_mask)
    moreover have "unat (take_bit 4 (word_of_nat (Suc j)) :: u8) = Suc j mod 16"
      unfolding unsigned_take_bit_eq s by (simp add: take_bit_eq_mod)
    ultimately show ?thesis by (metis m unsigned_word_eqI)
  qed
  have z: "(word_of_nat (Suc j mod 16) = (0 :: u8)) = (j = 15)"
  proof -
    have "(word_of_nat (Suc j mod 16) = (0 :: u8)) = (Suc j mod 16 = 0)" using m by (metis unat_0 unat_eq_0 of_nat_0)
    moreover have "(Suc j mod 16 = 0) = (j = 15)" using assms(5) by presburger
    ultimately show ?thesis by (rule trans)
  qed
  show ?thesis using assms
    by (simp add: integritySinglePass_def u p z nth_append list_update_append md2_sub_def Let_def nth_Cons')
qed

section \<open>Blocks\<close>

text \<open>Between two blocks the accumulator holds the digest so far, the running checksum, its last byte and position
  0; what the middle part holds does not matter.\<close>

definition between_blocks :: "bytes \<Rightarrow> u8 \<times> bytes \<Rightarrow> bytes \<Rightarrow> bool" where
  "between_blocks x LC acc \<longleftrightarrow> (\<exists>b y. acc = x @ b @ y @ snd LC @ [0, fst LC] \<and> length x = 16 \<and> length b = 16
     \<and> length y = 16 \<and> length (snd LC) = 16)"

definition absorb :: "bytes \<Rightarrow> bytes \<Rightarrow> bytes" where
  "absorb m acc = fold (\<lambda>b a. integritySinglePass a b) m acc"

lemma absorb_simps [simp]:
  "absorb [] acc = acc" "absorb (b # m) acc = absorb m (integritySinglePass acc b)"
  "absorb (m @ n) acc = absorb n (absorb m acc)"
  by (simp_all add: absorb_def)

lemma check_steps_length [simp]: "length (snd (fold (check_step blk) js LC)) = length (snd LC)"
  by (induction js arbitrary: LC) (simp_all add: check_step_def Let_def split_beta)

lemma md2_check_length [simp]: "length (snd (md2_check blk LC)) = length (snd LC)"
  by (simp add: md2_check_steps del: upt_Suc)

lemma update_after_prefix: "length p = j \<Longrightarrow> j < length b \<Longrightarrow> (p @ drop j b)[j := v] = (p @ [v]) @ drop (Suc j) b"
  by (simp add: list_update_append flip: Cons_nth_drop_Suc)

text \<open>Within a block, \<open>j\<close> bytes of it absorbed.\<close>

lemma absorb_part:
  assumes "length x = 16" "length b = 16" "length y = 16" "length C = 16" "j \<le> 15" "j \<le> length m"
  shows "absorb (take j m) (x @ b @ y @ C @ [0, L]) =
    x @ (take j m @ drop j b) @ (map2 (XOR) (take j x) (take j m) @ drop j y)
      @ snd (fold (check_step m) [0..<j] (L, C)) @ [word_of_nat j, fst (fold (check_step m) [0..<j] (L, C))]"
  using assms(5,6)
proof (induction j)
  case 0
  then show ?case by simp
next
  case (Suc j)
  let ?LC = "fold (check_step m) [0..<j] (L, C)"
  let ?b = "take j m @ drop j b" and ?y = "map2 (XOR) (take j x) (take j m) @ drop j y"
  have lens: "length ?b = 16" "length ?y = 16" "length (snd ?LC) = 16" "j < 16" using assms Suc.prems by simp_all
  have t: "take (Suc j) m = take j m @ [m ! j]" using Suc.prems by (simp add: take_Suc_conv_app_nth)
  have x: "take (Suc j) x = take j x @ [x ! j]" using assms Suc.prems by (simp add: take_Suc_conv_app_nth)
  have b: "?b[j := m ! j] = take (Suc j) m @ drop (Suc j) b"
    using update_after_prefix [of "take j m" j b "m ! j"] assms Suc.prems by (simp add: t)
  have y: "?y[j := x ! j XOR m ! j] = map2 (XOR) (take (Suc j) x) (take (Suc j) m) @ drop (Suc j) y"
    using update_after_prefix [of "map2 (XOR) (take j x) (take j m)" j y "x ! j XOR m ! j"] assms Suc.prems by (simp add: t x)
  have "absorb (take (Suc j) m) (x @ b @ y @ C @ [0, L])
      = integritySinglePass (x @ ?b @ ?y @ snd ?LC @ [word_of_nat j, fst ?LC]) (m ! j)"
    using Suc by (simp add: t)
  also have "\<dots> = x @ ?b[j := m ! j] @ ?y[j := x ! j XOR m ! j]
      @ snd (check_step m j ?LC) @ [word_of_nat (Suc j), fst (check_step m j ?LC)]"
    using Suc.prems unfolding single_pass [OF assms(1) lens]
    by (simp add: check_step_def Let_def split_beta del: word_of_nat_eq_iff)
  also have "check_step m j ?LC = fold (check_step m) [0..<Suc j] (L, C)" by simp
  finally show ?case unfolding b y by simp
qed

text \<open>A whole block is one step of the reference.\<close>

lemma absorb_block:
  assumes "between_blocks x LC acc" and "length m = 16"
  shows "between_blocks (md2_compress m x) (md2_check m LC) (absorb m acc)"
proof -
  obtain L C where LC: "LC = (L, C)" by fastforce
  from assms(1) obtain b y where acc: "acc = x @ b @ y @ C @ [0, L]"
    and lens: "length x = 16" "length b = 16" "length y = 16" "length C = 16"
    by (auto simp: between_blocks_def LC)
  let ?LC = "fold (check_step m) [0..<15] (L, C)"
  let ?b = "take 15 m @ drop 15 b" and ?y = "map2 (XOR) (take 15 x) (take 15 m) @ drop 15 y"
  let ?LC' = "md2_check m (L, C)"
  let ?X = "x @ m @ map2 (XOR) x m"
  have sixteen: "[0..<16] = [0..<15] @ [15 :: nat]" by (simp add: upt_rec)
  have LC': "?LC' = check_step m 15 ?LC" unfolding md2_check_steps sixteen by simp
  have m: "m = take 15 m @ [m ! 15]" and x: "x = take 15 x @ [x ! 15]"
    using take_Suc_conv_app_nth [of 15 m] take_Suc_conv_app_nth [of 15 x] assms(2) lens(1) by simp_all
  have "map2 (XOR) x m = map2 (XOR) (take 15 x @ [x ! 15]) (take 15 m @ [m ! 15])" using m x by metis
  then have mx: "map2 (XOR) x m = map2 (XOR) (take 15 x) (take 15 m) @ [x ! 15 XOR m ! 15]"
    using assms(2) lens(1) by simp
  have lens2: "length ?b = 16" "length ?y = 16" "length (snd ?LC) = 16" "15 < (16 :: nat)" using assms lens by simp_all
  have b: "?b[15 := m ! 15] = m"
    using update_after_prefix [of "take 15 m" 15 b "m ! 15"] lens assms(2) m by simp
  have y: "?y[15 := x ! 15 XOR m ! 15] = map2 (XOR) x m"
    using update_after_prefix [of "map2 (XOR) (take 15 x) (take 15 m)" 15 y "x ! 15 XOR m ! 15"] lens assms(2)
    by (simp add: mx)
  have "absorb m acc = integritySinglePass (absorb (take 15 m) acc) (m ! 15)"
    using arg_cong [OF m, of "\<lambda>m. absorb m acc"] by simp
  also have "absorb (take 15 m) acc = x @ ?b @ ?y @ snd ?LC @ [word_of_nat 15, fst ?LC]"
    unfolding acc using absorb_part [OF lens, of 15 m L] assms(2) by simp
  also have "integritySinglePass \<dots> (m ! 15) = mixRounds 0 0x29 (?X @ snd ?LC' @ [0, fst ?LC'])"
    unfolding single_pass [OF lens(1) lens2] b y LC' by (simp add: check_step_def Let_def split_beta)
  also have "\<dots> = snd (fold md2_round [0..<18] (0, ?X @ snd ?LC' @ [0, fst ?LC']))"
    using mixRounds_rounds [of 0 0] by (simp add: mixing_table_0 del: upt_Suc)
  also have "\<dots> = snd (fold md2_round [0..<18] (0, ?X)) @ snd ?LC' @ [0, fst ?LC']"
    using md2_rounds_frame [of ?X "[0..<18]" 0] assms(2) lens by simp
  finally have a: "absorb m acc = snd (fold md2_round [0..<18] (0, ?X)) @ snd ?LC' @ [0, fst ?LC']" .
  have l: "length (snd (fold md2_round [0..<18] (0, ?X))) = 48"
    using md2_rounds_frame [of ?X "[0..<18]" 0] assms(2) lens by simp
  have split: "Y = take 16 Y @ take 16 (drop 16 Y) @ drop 32 Y" for Y :: bytes
    by (metis append_take_drop_id drop_drop numeral_Bit0)
  have "between_blocks (take 16 Y) ?LC' (Y @ snd ?LC' @ [0, fst ?LC'])" if "length Y = 48" for Y
    unfolding between_blocks_def
    by (intro exI [of _ "take 16 (drop 16 Y)"] exI [of _ "drop 32 Y"] conjI)
      (use that lens split [of Y] in \<open>simp_all flip: append_assoc\<close>)
  from this [OF l] show ?thesis unfolding a LC md2_compress_def by simp
qed

lemma absorb_blocks:
  assumes "between_blocks x LC acc" and "\<forall>b \<in> set bs. length b = 16"
  shows "between_blocks (fold md2_compress bs x) (fold md2_check bs LC) (absorb (concat bs) acc)"
  using assms by (induction bs arbitrary: x LC acc) (simp_all add: absorb_block)

lemma blocks16: "length m = 16 * n \<Longrightarrow> concat (blocks16 n m) = m \<and> (\<forall>b \<in> set (blocks16 n m). length b = 16)"
  by (induction n m rule: blocks16.induct) auto

text \<open>The position after a message only depends on its length.\<close>

lemma position_in_block:
  assumes "between_blocks x LC acc" and "length rest \<le> 15"
  shows "absorb rest acc ! 0x40 = word_of_nat (length rest)"
proof -
  from assms(1) obtain b y where a: "acc = x @ b @ y @ snd LC @ [0, fst LC]"
    "length x = 16" "length b = 16" "length y = 16" "length (snd LC) = 16"
    unfolding between_blocks_def by blast
  let ?LC = "fold (check_step rest) [0..<length rest] (fst LC, snd LC)"
  let ?P = "x @ (take (length rest) rest @ drop (length rest) b)
    @ (map2 (XOR) (take (length rest) x) (take (length rest) rest) @ drop (length rest) y) @ snd ?LC"
  have "absorb rest acc = ?P @ [word_of_nat (length rest), fst ?LC]"
    using absorb_part [OF a(2-5) assms(2) order_refl, of "fst LC"] unfolding a(1) by simp
  moreover have "length ?P = 64" using a(2-5) assms(2) by simp
  ultimately show ?thesis using nth_append_length [of ?P] by simp
qed

lemma position_after:
  assumes "between_blocks x LC acc"
  shows "absorb m acc ! 0x40 = word_of_nat (length m mod 16)"
proof -
  let ?q = "length m div 16"
  obtain front rest where m: "m = front @ rest" and front: "length front = 16 * ?q" and rest: "length rest = length m mod 16"
  proof
    show "m = take (16 * ?q) m @ drop (16 * ?q) m" by (rule append_take_drop_id [symmetric])
    show "length (take (16 * ?q) m) = 16 * ?q" unfolding length_take by (rule min_absorb2) (rule times_div_less_eq_dividend)
    show "length (drop (16 * ?q) m) = length m mod 16" unfolding length_drop by (rule minus_mult_div_eq_mod)
  qed
  note bs = blocks16 [OF front]
  have "between_blocks (fold md2_compress (blocks16 ?q front) x) (fold md2_check (blocks16 ?q front) LC) (absorb front acc)"
    using absorb_blocks [OF assms conjunct2 [OF bs]] unfolding conjunct1 [OF bs] .
  moreover have "length rest \<le> 15" unfolding rest using mod_less_divisor [of 16 "length m"] by simp
  ultimately have "absorb rest (absorb front acc) ! 0x40 = word_of_nat (length rest)" by (rule position_in_block)
  moreover have "absorb m acc = absorb rest (absorb front acc)" unfolding m by simp
  ultimately show ?thesis unfolding rest by simp
qed

text \<open>The second loop of \<^verbatim>\<open>integrityFinalize\<close> reads the checksum while it is updated: each byte is read before the
  pass that changes it.\<close>

lemma check_steps_later: "k \<le> i \<Longrightarrow> snd (fold (check_step blk) [0..<k] LC) ! i = snd LC ! i"
  by (induction k) (simp_all add: check_step_def Let_def split_beta)

lemma absorb_checksum:
  assumes "between_blocks x (L, C) acc"
  shows "fold (\<lambda>index a. integritySinglePass a (a ! index)) [0x30..<0x40] acc = absorb C acc"
proof -
  from assms obtain b y where a: "acc = x @ b @ y @ C @ [0, L]"
    and lens: "length x = 16" "length b = 16" "length y = 16" "length C = 16"
    unfolding between_blocks_def by auto
  have read: "absorb (take k C) acc ! (48 + k) = C ! k" if k: "k < 16" for k
  proof -
    let ?LC = "fold (check_step C) [0..<k] (L, C)"
    let ?P = "x @ (take k C @ drop k b) @ (map2 (XOR) (take k x) (take k C) @ drop k y)"
    have "absorb (take k C) acc = ?P @ snd ?LC @ [word_of_nat k, fst ?LC]"
      unfolding a using absorb_part [OF lens, of k C L] k lens by simp
    moreover have P: "length ?P = 48" using lens k by simp
    moreover have "length (snd ?LC) = 16" using lens(4) by simp
    ultimately have "absorb (take k C) acc ! (48 + k) = snd ?LC ! k"
      using k by (simp add: nth_append del: append_assoc)
    then show ?thesis by (simp add: check_steps_later)
  qed
  have "fold (\<lambda>index a. integritySinglePass a (a ! index)) (map ((+) 48) [0..<k]) acc = absorb (take k C) acc" if "k \<le> 16" for k
    using that
  proof (induction k)
    case (Suc k)
    have "take (Suc k) C = take k C @ [C ! k]" using Suc.prems lens(4) by (simp add: take_Suc_conv_app_nth)
    then show ?case using Suc read [of k] by simp
  qed simp
  from this [of 16] have "fold (\<lambda>index a. integritySinglePass a (a ! index)) (map ((+) 48) [0..<16]) acc = absorb C acc"
    using lens(4) by simp
  moreover have "map ((+) 48) [0..<16] = [48..<64 :: nat]" by code_simp
  ultimately show ?thesis by simp
qed

lemma funpow_absorb: "((\<lambda>a. integritySinglePass a p) ^^ n) acc = absorb (replicate n p) acc"
  by (induction n arbitrary: acc) (simp_all add: funpow_Suc_right del: funpow.simps(2))

definition digest_bytes :: "u64 \<times> u64 \<Rightarrow> bytes" where
  "digest_bytes r = le_bytes (fst r) @ le_bytes (snd r)"

definition fresh_accumulator :: "bytes \<Rightarrow> bool" where
  "fresh_accumulator acc \<longleftrightarrow> between_blocks (replicate 16 0) (0, replicate 16 0) acc"

lemma finalize_md2:
  assumes "fresh_accumulator acc" and "integrityFinalize (absorb m acc) = (r, acc')"
  shows "digest_bytes r = md2 m \<and> fresh_accumulator (resetAccumulator acc')"
proof -
  let ?r = "length m mod 16"
  let ?p = "16 - ?r"
  let ?bs = "blocks16 (length (md2_pad m) div 16) (md2_pad m)"
  let ?LC = "fold md2_check ?bs (0, replicate 16 0)"
  note f = assms(1) [unfolded fresh_accumulator_def]
  have r: "?r < 16" by simp
  have pad: "16 - absorb m acc ! 0x40 = (word_of_nat ?p :: u8)"
    unfolding position_after [OF f] using r by (simp add: of_nat_diff)
  have up: "unat (word_of_nat ?p :: u8) = ?p" by (rule u8_unat_of_nat) (use r in simp)
  have padded: "absorb (replicate ?p (word_of_nat ?p)) (absorb m acc) = absorb (md2_pad m) acc"
    by (simp add: md2_pad_def Let_def)
  have "length (md2_pad m) = length m + ?p" by (simp add: md2_pad_def Let_def)
  moreover have "length m = 16 * (length m div 16) + ?r" by simp
  ultimately have "length (md2_pad m) = 16 * (length m div 16) + 16" using r by linarith
  then have "length (md2_pad m) = 16 * (length (md2_pad m) div 16)" by presburger
  note bs = blocks16 [OF this]
  have between: "between_blocks (fold md2_compress ?bs (replicate 16 0)) ?LC (absorb (md2_pad m) acc)"
    using absorb_blocks [OF f conjunct2 [OF bs]] unfolding conjunct1 [OF bs] .
  then have "length (snd ?LC) = 16" unfolding between_blocks_def by blast
  from absorb_block [OF between this]
  have final: "between_blocks (md2 m) (md2_check (snd ?LC) ?LC) (absorb (snd ?LC) (absorb (md2_pad m) acc))"
    unfolding md2_def Let_def by simp
  let ?A = "absorb (snd ?LC) (absorb (md2_pad m) acc)"
  have "integrityFinalize (absorb m acc) = ((le_word (\<lambda>i. ?A ! i) 8, le_word (\<lambda>i. ?A ! (8 + i)) 8), ?A)"
    using absorb_checksum [of _ "fst ?LC" "snd ?LC"] between
    by (simp only: integrityFinalize_def Let_def pad up funpow_absorb padded prod.collapse)
  then have rA: "r = (le_word (\<lambda>i. ?A ! i) 8, le_word (\<lambda>i. ?A ! (8 + i)) 8)" "acc' = ?A" using assms(2) by simp_all
  from final obtain b y L C where A: "?A = md2 m @ b @ y @ C @ [0, L]"
    and lens: "length (md2 m) = 16" "length b = 16" "length y = 16" "length C = 16"
    unfolding between_blocks_def by blast
  have w: "le_bytes (le_word (\<lambda>i. ?A ! (k + i)) 8 :: u64) = take 8 (drop k (md2 m))" if "k + 8 \<le> 16" for k
  proof -
    have "(le_word (\<lambda>i. ?A ! (k + i)) 8 :: u64) = le_word (\<lambda>i. take 8 (drop k (md2 m)) ! i) 8"
      unfolding le_word_def A by (rule fold_cong) (use that lens in \<open>auto simp: nth_append\<close>)
    then show ?thesis using le_bytes_le_word [of "take 8 (drop k (md2 m))", where 'a = 64] that lens by simp
  qed
  have "digest_bytes r = take 8 (md2 m) @ take 8 (drop 8 (md2 m))"
    using w [of 0] w [of 8] unfolding digest_bytes_def rA by simp
  also have "\<dots> = md2 m" using lens(1) append_take_drop_id [of 8 "md2 m"] by simp
  finally have "digest_bytes r = md2 m" .
  moreover have "fresh_accumulator (resetAccumulator acc')"
    using lens unfolding rA(2) A resetAccumulator_def fresh_accumulator_def between_blocks_def
    by (intro exI [of _ b] exI [of _ y]) (simp add: numeral_eq_Suc replicate_add [symmetric])
  ultimately show ?thesis ..
qed

section \<open>A keyed hash from a streaming hash\<close>

text \<open>What the two passes rely on: absorbing a message into a fresh accumulator and finishing gives its hash, and
  the accumulator can be made fresh again.\<close>

locale streaming_hash =
  fixes absorb_all :: "bytes \<Rightarrow> 's \<Rightarrow> 's"
    and finish :: "'s \<Rightarrow> 'r \<times> 's"
    and fresh :: "'s \<Rightarrow> bool"
    and reset :: "'s \<Rightarrow> 's"
    and digest :: "'r \<Rightarrow> bytes"
    and H :: "bytes \<Rightarrow> bytes"
  assumes absorb_append: "absorb_all (m @ n) s = absorb_all n (absorb_all m s)"
    and finish_hash: "fresh s \<Longrightarrow> finish (absorb_all m s) = (r, s') \<Longrightarrow> digest r = H m \<and> fresh (reset s')"
begin

lemma nested_hash:
  assumes "fresh s" and "finish (absorb_all m (absorb_all k1 s)) = (r1, s1)"
    and "finish (absorb_all (digest r1) (absorb_all k2 (reset s1))) = (r2, s2)"
  shows "digest r2 = H (k2 @ H (k1 @ m))"
proof -
  from assms(2) have "finish (absorb_all (k1 @ m) s) = (r1, s1)" by (simp only: absorb_append)
  from finish_hash [OF assms(1) this] have d: "digest r1 = H (k1 @ m)" and f: "fresh (reset s1)" by simp_all
  from assms(3) have "finish (absorb_all (k2 @ digest r1) (reset s1)) = (r2, s2)" by (simp only: absorb_append)
  from finish_hash [OF f this] show ?thesis by (simp add: d)
qed

end

interpretation md2_stream: streaming_hash absorb integrityFinalize fresh_accumulator resetAccumulator digest_bytes md2
  by unfold_locales (simp, rule finalize_md2)

lemma fresh_zeros: "fresh_accumulator (replicate 66 0)"
  unfolding fresh_accumulator_def between_blocks_def
  by (intro exI [of _ "replicate 16 0"]) (simp add: numeral_eq_Suc)

lemma integrityHashBytes_absorb: "integrityHashBytes acc m msk = absorb (map (\<lambda>b. b XOR msk) m) acc"
  by (simp add: integrityHashBytes_def absorb_def fold_map comp_def)

text \<open>The message of a check: the process structure and the device structure.\<close>

definition check_message :: "integrity_env \<Rightarrow> u32 \<Rightarrow> u64 \<Rightarrow> bytes" where
  "check_message env version unixSeconds =
     le_bytes (12080 :: u32) @ le_bytes version @ le_bytes (env_pid env) @ le_bytes (env_thread env)
     @ le_bytes (env_cudartTable env) @ le_bytes (env_integrityTable env) @ le_bytes (env_integrityFunction env)
     @ le_bytes unixSeconds @ kDeviceUUID @ replicate 12 0"

lemma zero_info: "le_bytes (0 :: u32) @ le_bytes (0 :: u32) @ le_bytes (0 :: u32) = replicate 12 0"
  by code_simp

section \<open>Properties\<close>

text \<open>C35: The streaming hash of the integrity check is MD2: absorbing any message into a zeroed accumulator and
  finalizing gives the MD2 digest of the message, and the reset between the passes makes the accumulator as good as new:
  the next message gives its own MD2 digest.\<close>

lemma integrity_hash_md2:
  "digest_bytes (fst (integrityFinalize (integrityHashBytes (replicate 66 0) m 0))) = md2 m
   \<and> digest_bytes (fst (integrityFinalize (integrityHashBytes
       (resetAccumulator (snd (integrityFinalize (integrityHashBytes (replicate 66 0) m 0)))) m' 0))) = md2 m'"
proof -
  obtain r s where 1: "integrityFinalize (absorb m (replicate 66 0)) = (r, s)" by fastforce
  obtain r' s' where 2: "integrityFinalize (absorb m' (resetAccumulator s)) = (r', s')" by fastforce
  note a = md2_stream.finish_hash [OF fresh_zeros 1]
  note b = md2_stream.finish_hash [OF conjunct2 [OF a] 2]
  have m: "map (\<lambda>b. b XOR 0) x = x" for x :: bytes by simp
  show ?thesis using a b unfolding integrityHashBytes_absorb m 1 snd_conv 2 fst_conv by blast
qed

text \<open>C36: For every version whose last digit is not 0 or 1 the integrity check gives the HMAC-MD2, under its fixed key of
  16 bytes, of the driver version, the requested version, the process, the thread, the three addresses, the time and
  the identity of the device; for the digits 0 and 1 it gives a constant, and without an output it gives an error.\<close>

lemma integrity_check_hmac:
  "map_prod id (map_option digest_bytes) (integrityCheck env version unixSeconds result) =
     (if \<not> result then (CUDA_ERROR_INVALID_VALUE, None)
      else (CUDA_SUCCESS, Some
        (if version mod 10 = 0 then digest_bytes (0x3341181c03cb675c, 0x8ed383aa1f4cd1e8)
         else if version mod 10 = 1 then digest_bytes (0x1841181c03cb675c, 0x8ed383aa1f4cd1e8)
         else hmac_md2 integrityKey (check_message env version unixSeconds))))"
proof (cases "\<not> result \<or> version mod 10 \<in> {0, 1}")
  case True
  then show ?thesis by (auto simp: integrityCheck_def)
next
  case False
  let ?k1 = "map (\<lambda>b. b XOR 0x36) integrityKey" and ?k2 = "map (\<lambda>b. b XOR 0x5c) integrityKey"
  let ?m = "check_message env version unixSeconds"
  have m0: "map (\<lambda>b. b XOR 0) x = x" for x :: bytes by simp
  obtain r1 s1 where 1: "integrityFinalize (absorb ?m (absorb ?k1 (replicate 66 0))) = (r1, s1)" by fastforce
  obtain r2 s2 where 2: "integrityFinalize (absorb (digest_bytes r1) (absorb ?k2 (resetAccumulator s1))) = (r2, s2)"
    by fastforce
  have "integrityCheck env version unixSeconds True = (CUDA_SUCCESS, Some r2)"
  proof -
    have "absorb (info_bytes \<lparr>info_uuid = kDeviceUUID, info_pciDomain = 0, info_pciBus = 0, info_pciDevice = 0\<rparr>)
        (absorb (pass3_bytes \<lparr>pass3_driverVersion = word_of_int kDriverVersion, pass3_requestedVersion = version,
               pass3_process = env_pid env, pass3_thread = env_thread env,
               pass3_cudartTable = env_cudartTable env, pass3_integrityTable = env_integrityTable env,
               pass3_integrityFunction = env_integrityFunction env, pass3_unixSeconds = unixSeconds\<rparr>) acc) = absorb ?m acc" for acc
      unfolding absorb_simps(3) [symmetric]
      by (simp add: check_message_def pass3_bytes_def info_bytes_def kDriverVersion_def zero_info)
    then show ?thesis using False 1 2
      unfolding integrityCheck_def integrityHashBytes_absorb m0 Let_def digest_bytes_def by simp
  qed
  moreover have "digest_bytes r2 = hmac_md2 integrityKey ?m"
    unfolding hmac_md2_def by (rule md2_stream.nested_hash [OF fresh_zeros 1 2])
  ultimately show ?thesis using False by simp
qed

end
