(* ===== verification/CudaStorage.thy ===== *)
theory CudaStorage
  imports CudaDevice
begin

text \<open>
  The context storage of \<^verbatim>\<open>imb_cuda_shim.cpp\<close> as a refinement: a run of its operations against a partial map of at
  most 64 keys, on the facts of the interpretation \<open>context_table\<close>; and the bounds of the reported memory.
\<close>

datatype storage_op = Put ptr ptr ptr ptr | Delete ptr ptr

definition storage_step :: "storage_op \<Rightarrow> cu" where
  "storage_step op = (case op of Put c k v d \<Rightarrow> contextStoragePut c k v d | Delete c k \<Rightarrow> contextStorageDelete c k)"

text \<open>The abstract store: a map; a new key is refused when there are 64.\<close>

definition map_step :: "(ptr \<Rightarrow> ptr) \<Rightarrow> storage_op \<Rightarrow> (ptr \<times> ptr \<rightharpoonup> ptr \<times> ptr) \<Rightarrow> CUresult \<times> (ptr \<times> ptr \<rightharpoonup> ptr \<times> ptr)" where
  "map_step resolve op m = (case op of
      Put c k v d \<Rightarrow>
        if m (resolve c, k) = None \<and> card (dom m) = 64 then (CUDA_ERROR_NOT_SUPPORTED, m)
        else (CUDA_SUCCESS, m((resolve c, k) \<mapsto> (v, d)))
    | Delete c k \<Rightarrow> (CUDA_SUCCESS, m((resolve c, k) := None)))"

fun run_steps :: "('op \<Rightarrow> 's \<Rightarrow> CUresult \<times> 's) \<Rightarrow> 'op list \<Rightarrow> 's \<Rightarrow> CUresult list \<times> 's" where
  "run_steps step [] s = ([], s)"
| "run_steps step (op # ops) s = (case step op s of (r, s1) \<Rightarrow> (case run_steps step ops s1 of (rs, s2) \<Rightarrow> (r # rs, s2)))"

definition stores :: "cuda \<Rightarrow> (ptr \<times> ptr \<rightharpoonup> ptr \<times> ptr) \<Rightarrow> bool" where
  "stores s m \<longleftrightarrow> table_ok (gContextStorage s) \<and> m = table_view (gContextStorage s)"

lemma storage_step_simulates:
  assumes "stores s m" and "storage_step op s = (r, s')"
  shows "\<exists>m'. map_step (resolveContext s) op m = (r, m') \<and> stores s' m' \<and> gCurrentContext s' = gCurrentContext s"
proof (cases op)
  case (Put c k v d)
  let ?t = "gContextStorage s" and ?c = "resolveContext s c"
  note ok = assms(1) [unfolded stores_def]
  show ?thesis
  proof (cases "tablePut ?c k v d ?t")
    case None
    then show ?thesis using ok assms(2) Put context_table.put_full [of ?t "(?c, k)" "(v, d)"]
      by (auto simp: storage_step_def contextStoragePut_def map_step_def stores_def)
  next
    case (Some t)
    then show ?thesis using ok assms(2) Put context_table.put_full [of ?t "(?c, k)" "(v, d)"]
        context_table.put_view [of ?t "(?c, k)" "(v, d)" t]
      by (auto simp: storage_step_def contextStoragePut_def map_step_def stores_def)
  qed
next
  case (Delete c k)
  then show ?thesis using assms context_table.del_view [of "gContextStorage s" "(resolveContext s c, k)"]
    by (auto simp: storage_step_def contextStorageDelete_def map_step_def stores_def)
qed

lemma storage_run_simulates:
  assumes "stores s m" and "run_steps storage_step ops s = (rs, s')"
  shows "\<exists>m'. run_steps (map_step (resolveContext s)) ops m = (rs, m') \<and> stores s' m' \<and> gCurrentContext s' = gCurrentContext s"
  using assms
proof (induction ops arbitrary: s m rs)
  case (Cons op ops)
  from Cons.prems(2) obtain r s1 rs1 where 1: "storage_step op s = (r, s1)" and 2: "run_steps storage_step ops s1 = (rs1, s')"
    and rs: "rs = r # rs1" by (auto split: prod.splits)
  from storage_step_simulates [OF Cons.prems(1) 1] obtain m1 where
    m1: "map_step (resolveContext s) op m = (r, m1)" "stores s1 m1" "gCurrentContext s1 = gCurrentContext s" by blast
  have "resolveContext s1 = resolveContext s" using m1(3) by (simp add: resolveContext_def fun_eq_iff)
  then show ?case using Cons.IH [OF m1(2) 2] m1 rs by auto
qed simp

section \<open>Properties\<close>

text \<open>C37: The context storage refines a partial map from context and key to value and destructor, of at most 64 keys:
  any sequence of put and delete operations gives the results of the map's operations, and a lookup afterwards gives
  the map's value, or the error and a null value where the map has none.\<close>

lemma context_storage_refines_map:
  "case run_steps storage_step ops (cuda_init allocator table) of (rs, s) \<Rightarrow>
   case run_steps (map_step (resolveContext (cuda_init allocator table))) ops Map.empty of (rs', m) \<Rightarrow>
     rs = rs' \<and> contextStorageGet True c k s =
       (case m (resolveContext (cuda_init allocator table) c, k) of
          Some (v, d) \<Rightarrow> ((CUDA_SUCCESS, Some v), s)
        | None \<Rightarrow> ((CUDA_ERROR_INVALID_HANDLE, Some 0), s))"
proof -
  let ?s = "cuda_init allocator table"
  obtain rs s where run: "run_steps storage_step ops ?s = (rs, s)" by fastforce
  have "stores ?s Map.empty"
    by (auto simp: stores_def cuda_init_def table_ok_def table_view_def emptyEntry_def entry_for_def fun_eq_iff find_None_iff)
  from storage_run_simulates [OF this run] obtain m where
    m: "run_steps (map_step (resolveContext ?s)) ops Map.empty = (rs, m)" "stores s m" "gCurrentContext s = gCurrentContext ?s"
    by blast
  have "resolveContext s c = resolveContext ?s c" using m(3) by (simp add: resolveContext_def)
  then show ?thesis using m(2) unfolding run m(1)
    by (auto simp: stores_def contextStorageGet_def table_view_def split: option.split)
qed

text \<open>The free memory the driver reports is never more than the total it reports with the same answer of the system,
  and a total of memory units that exceeds 64 bits is reported modulo \<open>2 ^ 64\<close>, not cut off at the maximum.\<close>

lemma system_memory_bounds:
  "systemFreeMemory info info \<le> systemTotalMemory info
   \<and> unat (scaledSystemMemory value unit) = unat value * unat unit mod 2 ^ 64"
proof
  have "x * 3 div 4 \<le> x" if "x = systemTotalMemory None" for x :: u64
    using that by (simp add: systemTotalMemory_def kFallbackTotalMemory_def)
  then show "systemFreeMemory info info \<le> systemTotalMemory info"
    by (simp add: systemFreeMemory_def Let_def split: option.split)
  have "min x (- 1) = x" for x :: u64 by (simp add: min_def word_order.extremum_unique)
  then show "unat (scaledSystemMemory value unit) = unat value * unat unit mod 2 ^ 64"
    by (simp add: scaledSystemMemory_def unat_word_ariths unsigned_ucast_eq take_bit_eq_mod mod_simps)
qed

end
