(* ===== verification/ClockShim.thy ===== *)
theory ClockShim
  imports Prelude
begin

text \<open>
  The clock shim \<^verbatim>\<open>guest/timer_shim/imb_clock_shim.cpp\<close>: a \<^verbatim>\<open>clock_gettime\<close> that makes the first
  calls from some call sites take at least two microseconds. A call site is a return address; the sites are kept in a
  table of 256 entries that threads claim with compare-and-swap. What the dynamic linker and the real clock answer are
  arguments: the file a return address lies in, and the list of the clock's answers.

  The sequential functions come first; then the table under interleaved lookups of many threads, one compare-and-swap
  per step, on the same definition of a probe.
\<close>

section \<open>Call sites\<close>

record CallSite =
  site_address :: u64
  delayedCalls :: u32
  isCarboniteCalibration :: u8

definition kCallSiteCount :: nat where "kCallSiteCount = 256"
definition kMaximumDelayedCalls :: u32 where "kMaximumDelayedCalls = 512"

record clock_shim =
  gCallSites :: "CallSite list"
  gRealClockGettime :: bool
  gReportedDelay :: bool

definition shim_init :: clock_shim where
  "shim_init = \<lparr>gCallSites = replicate kCallSiteCount \<lparr>site_address = 0, delayedCalls = 0, isCarboniteCalibration = 0\<rparr>,
     gRealClockGettime = False, gReportedDelay = False\<rparr>"

definition pathUsesCarboniteTscCalibration :: "string option \<Rightarrow> bool" where
  "pathUsesCarboniteTscCalibration path = (case path of
      None \<Rightarrow> False
    | Some p \<Rightarrow> strstr p ''libomni.anim.behavior.core.plugin.so'' \<or> strstr p ''libcarb.tasking.plugin.so''
        \<or> strstr p ''libcarb.profiler-cpu.plugin.so'')"

text \<open>The slot of the first probe, and the slot of probe \<open>p\<close>.\<close>

definition first_slot :: "u64 \<Rightarrow> nat" where
  "first_slot addr = unat (drop_bit 4 addr XOR drop_bit 13 addr) mod kCallSiteCount"

definition site_slot :: "u64 \<Rightarrow> nat \<Rightarrow> nat" where
  "site_slot addr probe = (first_slot addr + probe) mod kCallSiteCount"

text \<open>One compare-and-swap: it claims a free entry, accepts an entry of the address, and fails on another.\<close>

definition probe_once :: "u64 \<Rightarrow> nat \<Rightarrow> CallSite list \<Rightarrow> bool \<times> CallSite list" where
  "probe_once addr probe sites =
     (let i = site_slot addr probe in
      if site_address (sites ! i) = 0 then (True, sites[i := (sites ! i)\<lparr>site_address := addr\<rparr>])
      else (site_address (sites ! i) = addr, sites))"

fun probe_sites :: "nat \<Rightarrow> nat \<Rightarrow> u64 \<Rightarrow> CallSite list \<Rightarrow> nat option \<times> CallSite list" where
  "probe_sites 0 probe addr sites = (None, sites)"
| "probe_sites (Suc n) probe addr sites =
     (case probe_once addr probe sites of
        (True, sites') \<Rightarrow> (Some (site_slot addr probe), sites')
      | (False, sites') \<Rightarrow> probe_sites n (probe + 1) addr sites')"

definition callSiteFor :: "u64 \<Rightarrow> CallSite list \<Rightarrow> nat option \<times> CallSite list" where
  "callSiteFor addr sites = probe_sites kCallSiteCount 0 addr sites"

text \<open>\<^verbatim>\<open>dladdr\<close> answers with the file name of the object the address lies in, which may be null, or fails.\<close>

definition decide_site :: "string option option \<Rightarrow> CallSite \<Rightarrow> CallSite" where
  "decide_site dladdr site =
     (if isCarboniteCalibration site = 0
      then site\<lparr>isCarboniteCalibration :=
        (case dladdr of Some fname \<Rightarrow> if pathUsesCarboniteTscCalibration fname then 2 else 1 | None \<Rightarrow> 1)\<rparr>
      else site)"

definition shouldDelayCall :: "string option option \<Rightarrow> u64 \<Rightarrow> clock_shim \<Rightarrow> bool \<times> clock_shim" where
  "shouldDelayCall dladdr returnAddress s =
     (if returnAddress = 0 then (False, s)
      else case callSiteFor returnAddress (gCallSites s) of
        (None, sites) \<Rightarrow> (False, s\<lparr>gCallSites := sites\<rparr>)
      | (Some i, sites) \<Rightarrow>
          (let site = decide_site dladdr (sites ! i) in
           if isCarboniteCalibration site \<noteq> 2 then (False, s\<lparr>gCallSites := sites[i := site]\<rparr>)
           else (delayedCalls site < kMaximumDelayedCalls,
             s\<lparr>gCallSites := sites[i := site\<lparr>delayedCalls := delayedCalls site + 1\<rparr>]\<rparr>)))"

section \<open>The clock\<close>









section \<open>Many threads\<close>

text \<open>Where a thread is: outside, about to make probe \<open>p\<close> for an address, or back from the lookup.\<close>

datatype thread = Idle | Looking u64 nat | Found u64 nat | Missed u64

inductive table_step :: "CallSite list \<times> (nat \<Rightarrow> thread) \<Rightarrow> CallSite list \<times> (nat \<Rightarrow> thread) \<Rightarrow> bool" where
  enter: "addr \<noteq> 0 \<Longrightarrow> \<forall>a p. threads t \<noteq> Looking a p \<Longrightarrow>
     table_step (sites, threads) (sites, threads(t := Looking addr 0))"
| claim: "threads t = Looking addr p \<Longrightarrow> probe_once addr p sites = (True, sites') \<Longrightarrow>
     table_step (sites, threads) (sites', threads(t := Found addr (site_slot addr p)))"
| pass: "threads t = Looking addr p \<Longrightarrow> probe_once addr p sites = (False, sites') \<Longrightarrow>
     table_step (sites, threads) (sites', threads(t := if p + 1 < kCallSiteCount then Looking addr (p + 1) else Missed addr))"
| count: "i < length sites \<Longrightarrow> site_address site = site_address (sites ! i) \<Longrightarrow>
     table_step (sites, threads) (sites[i := site], threads)"

inductive table_reachable :: "CallSite list \<times> (nat \<Rightarrow> thread) \<Rightarrow> bool" where
  start: "table_reachable (gCallSites shim_init, \<lambda>_. Idle)"
| step: "table_reachable x \<Longrightarrow> table_step x y \<Longrightarrow> table_reachable y"

inductive_cases table_stepE: "table_step (sites, threads) y"

section \<open>The probe sequence\<close>

lemma site_slot_bound: "site_slot a p < 256"
  by (simp add: site_slot_def kCallSiteCount_def)

lemma site_slot_cover:
  assumes "i < 256"
  shows "\<exists>p < 256. site_slot a p = i"
proof -
  have f: "first_slot a < 256" by (simp add: first_slot_def kCallSiteCount_def)
  let ?p = "if first_slot a \<le> i then i - first_slot a else i + 256 - first_slot a"
  have "?p < 256" using f assms by auto
  moreover have "(first_slot a + ?p) mod 256 = i"
  proof (cases "first_slot a \<le> i")
    case False
    then have "first_slot a + ?p = i + 256" using f by simp
    then show ?thesis using assms by simp
  qed (use assms in simp)
  ultimately show ?thesis unfolding site_slot_def kCallSiteCount_def by blast
qed

definition addr_at :: "CallSite list \<Rightarrow> nat \<Rightarrow> u64" where
  "addr_at sites i = site_address (sites ! i)"

text \<open>The first \<open>p\<close> probes of an address find other addresses. Entries that are taken never change hands, so this
  stays so.\<close>

definition passed :: "(nat \<Rightarrow> u64) \<Rightarrow> u64 \<Rightarrow> nat \<Rightarrow> bool" where
  "passed ad a p \<longleftrightarrow> (\<forall>q < p. ad (site_slot a q) \<noteq> 0 \<and> ad (site_slot a q) \<noteq> a)"

definition keeps :: "(nat \<Rightarrow> u64) \<Rightarrow> (nat \<Rightarrow> u64) \<Rightarrow> bool" where
  "keeps ad ad' \<longleftrightarrow> (\<forall>i. ad i \<noteq> 0 \<longrightarrow> ad' i = ad i)"

lemma passed_keeps: "passed ad a p \<Longrightarrow> keeps ad ad' \<Longrightarrow> passed ad' a p"
  by (simp add: passed_def keeps_def)

lemma passed_Suc: "passed ad a (Suc p) \<longleftrightarrow> passed ad a p \<and> ad (site_slot a p) \<noteq> 0 \<and> ad (site_slot a p) \<noteq> a"
  by (auto simp: passed_def less_Suc_eq)

lemma passed_all: "passed ad a 256 \<Longrightarrow> i < 256 \<Longrightarrow> ad i \<noteq> 0 \<and> ad i \<noteq> a"
proof -
  assume a: "passed ad a 256" and i: "i < 256"
  obtain p where "p < 256" "site_slot a p = i" using site_slot_cover [OF i] by blast
  then show ?thesis using a by (auto simp: passed_def)
qed

text \<open>Each entry is reached from its address over entries of others.\<close>

definition placed :: "(nat \<Rightarrow> u64) \<Rightarrow> bool" where
  "placed ad \<longleftrightarrow> (\<forall>i < 256. ad i \<noteq> 0 \<longrightarrow> (\<exists>p. site_slot (ad i) p = i \<and> passed ad (ad i) p))"

lemma placed_unique:
  assumes "placed ad" and "i < 256" and "ad i = a" and "a \<noteq> 0" and "passed ad a p" and "ad (site_slot a p) \<in> {0, a}"
  shows "i = site_slot a p"
proof -
  from assms(1-4) obtain q where q: "site_slot a q = i" "passed ad a q" unfolding placed_def by blast
  consider "q < p" | "q = p" | "p < q" by linarith
  then show ?thesis
  proof cases
    case 1
    then have "ad (site_slot a q) \<noteq> a" using assms(5) by (simp add: passed_def)
    then show ?thesis using assms(3) q(1) by simp
  next
    case 3
    then have "ad (site_slot a p) \<noteq> 0 \<and> ad (site_slot a p) \<noteq> a" using q(2) by (simp add: passed_def)
    then show ?thesis using assms(6) by simp
  qed (use q(1) in simp)
qed

lemma placed_claim:
  assumes "placed ad" and "passed ad a p" and "ad (site_slot a p) = 0" and "a \<noteq> 0"
  shows "placed (ad(site_slot a p := a)) \<and> keeps ad (ad(site_slot a p := a))"
proof -
  have k: "keeps ad (ad(site_slot a p := a))" using assms(3) by (simp add: keeps_def)
  have "\<exists>q. site_slot ((ad(site_slot a p := a)) i) q = i \<and> passed (ad(site_slot a p := a)) ((ad(site_slot a p := a)) i) q"
    if i: "i < 256" and ne: "(ad(site_slot a p := a)) i \<noteq> 0" for i
  proof (cases "i = site_slot a p")
    case True
    then show ?thesis using passed_keeps [OF assms(2) k] by auto
  next
    case False
    then obtain q where "site_slot (ad i) q = i" "passed ad (ad i) q" using assms(1) i ne unfolding placed_def by auto
    then show ?thesis using passed_keeps [OF _ k] False by (intro exI [of _ q]) simp
  qed
  then show ?thesis using k by (simp add: placed_def)
qed

text \<open>What one compare-and-swap does.\<close>

lemma probe_onceE:
  assumes "probe_once a p sites = (b, sites')" and "length sites = 256" and "a \<noteq> 0"
  obtains (claimed) "b" "addr_at sites (site_slot a p) = 0" "addr_at sites' = (addr_at sites)(site_slot a p := a)"
      "sites' = sites[site_slot a p := (sites ! site_slot a p)\<lparr>site_address := a\<rparr>]"
    | (known) "b" "addr_at sites (site_slot a p) = a" "sites' = sites"
    | (other) "\<not> b" "addr_at sites (site_slot a p) \<notin> {0, a}" "sites' = sites"
proof (cases "site_address (sites ! site_slot a p) = 0")
  case True
  then have s: "b" "sites' = sites[site_slot a p := (sites ! site_slot a p)\<lparr>site_address := a\<rparr>]"
    using assms(1) by (simp_all add: probe_once_def Let_def)
  have "addr_at sites' = (addr_at sites)(site_slot a p := a)"
    using site_slot_bound [of a p] assms(2) by (auto simp: addr_at_def s(2) fun_eq_iff nth_list_update_neq)
  then show thesis using claimed s True by (simp add: addr_at_def)
next
  case False
  then have "b = (addr_at sites (site_slot a p) = a)" "sites' = sites" "addr_at sites (site_slot a p) \<noteq> 0"
    using assms(1) by (auto simp: probe_once_def Let_def addr_at_def)
  then show thesis using known other by (cases "addr_at sites (site_slot a p) = a") simp_all
qed

section \<open>The invariant of the table\<close>

fun thread_ok :: "(nat \<Rightarrow> u64) \<Rightarrow> thread \<Rightarrow> bool" where
  "thread_ok ad Idle = True"
| "thread_ok ad (Looking a p) = (a \<noteq> 0 \<and> p < 256 \<and> passed ad a p)"
| "thread_ok ad (Found a i) = (a \<noteq> 0 \<and> i < 256 \<and> ad i = a)"
| "thread_ok ad (Missed a) = passed ad a 256"

lemma thread_ok_keeps: "thread_ok ad th \<Longrightarrow> keeps ad ad' \<Longrightarrow> thread_ok ad' th"
  by (cases th) (auto simp: passed_keeps keeps_def)

definition table_inv :: "CallSite list \<times> (nat \<Rightarrow> thread) \<Rightarrow> bool" where
  "table_inv = (\<lambda>(sites, threads). length sites = 256 \<and> placed (addr_at sites) \<and> (\<forall>t. thread_ok (addr_at sites) (threads t)))"

lemma table_inv_step:
  assumes "table_inv (sites, threads)" and "table_step (sites, threads) y"
  shows "table_inv y"
proof -
  note inv = assms(1) [unfolded table_inv_def, simplified]
  show ?thesis
  proof (cases rule: table_stepE [OF assms(2), case_names enter claim pass count])
    case (enter addr t)
    then show ?thesis using inv by (simp add: table_inv_def passed_def)
  next
    case (claim t addr p sites')
    then have th: "addr \<noteq> 0" "p < 256" "passed (addr_at sites) addr p" using inv by (metis thread_ok.simps(2))+
    from claim(3) conjunct1 [OF inv] th(1) show ?thesis
    proof (cases rule: probe_onceE)
      case claimed
      have k: "placed (addr_at sites')" "keeps (addr_at sites) (addr_at sites')"
        using placed_claim [OF _ th(3) claimed(2) th(1)] inv unfolding claimed(3) by simp_all
      have "thread_ok (addr_at sites') (threads ta)" for ta using inv thread_ok_keeps [OF _ k(2)] by simp
      moreover have "thread_ok (addr_at sites') (Found addr (site_slot addr p))"
        using th(1) site_slot_bound by (simp add: claimed(3))
      moreover have "length sites' = 256" using inv claimed(4) by simp
      ultimately show ?thesis using k(1) claim(1) by (simp add: table_inv_def)
    qed (use inv claim(1) th site_slot_bound in \<open>auto simp: table_inv_def\<close>)
  next
    case (pass t addr p sites')
    then have th: "addr \<noteq> 0" "p < 256" "passed (addr_at sites) addr p" using inv by (metis thread_ok.simps(2))+
    from pass(3) conjunct1 [OF inv] th(1) show ?thesis
    proof (cases rule: probe_onceE)
      case other
      have P: "passed (addr_at sites) addr (Suc p)" using th(3) other(2) by (simp add: passed_Suc)
      have "passed (addr_at sites) addr 256" if "\<not> Suc p < 256"
      proof -
        have "Suc p = 256" using that th(2) by simp
        then show ?thesis using P by simp
      qed
      then show ?thesis using P inv other(3) pass(1) th by (auto simp: table_inv_def kCallSiteCount_def)
    qed (use pass in auto)
  next
    case (count i site)
    then have "addr_at (sites[i := site]) = addr_at sites"
      by (auto simp: addr_at_def fun_eq_iff nth_list_update)
    then show ?thesis using inv count(1) by (simp add: table_inv_def)
  qed
qed

lemma table_inv_reachable: "table_reachable x \<Longrightarrow> table_inv x"
proof (induction rule: table_reachable.induct)
  case start
  then show ?case by (simp add: table_inv_def placed_def addr_at_def shim_init_def kCallSiteCount_def)
next
  case (step x y)
  then show ?case using table_inv_step [of "fst x" "snd x" y] by simp
qed

section \<open>Calls one after the other\<close>

lemma probe_sites_result:
  assumes "length sites = 256" and "a \<noteq> 0" and "passed (addr_at sites) a q" and "q + n = 256"
    and "probe_sites n q a sites = (r, sites')"
  shows "case r of
      None \<Rightarrow> passed (addr_at sites) a 256 \<and> sites' = sites
    | Some i \<Rightarrow> (\<exists>p. i = site_slot a p \<and> passed (addr_at sites) a p)
        \<and> (addr_at sites i = a \<and> sites' = sites
           \<or> addr_at sites i = 0 \<and> sites' = sites[i := (sites ! i)\<lparr>site_address := a\<rparr>])"
  using assms(3-)
proof (induction n arbitrary: q)
  case (Suc n)
  obtain b s1 where 1: "probe_once a q sites = (b, s1)" by fastforce
  from 1 assms(1,2) show ?case
  proof (cases rule: probe_onceE)
    case other
    then have "passed (addr_at sites) a (Suc q)" using Suc.prems(1) by (simp add: passed_Suc)
    then show ?thesis using Suc.IH [of "Suc q"] Suc.prems other 1 by simp
  qed (use Suc.prems 1 in auto)
qed simp

definition is_calibration :: "string option option \<Rightarrow> bool" where
  "is_calibration info \<longleftrightarrow> (case info of Some fname \<Rightarrow> pathUsesCarboniteTscCalibration fname | None \<Rightarrow> False)"

text \<open>The table after a list of calls: the addresses called, each with its decision and the number of its calls.\<close>

definition site_after :: "(u64 \<Rightarrow> string option option) \<Rightarrow> u64 list \<Rightarrow> CallSite \<Rightarrow> bool" where
  "site_after info calls site \<longleftrightarrow>
     (if site_address site = 0 then site = \<lparr>site_address = 0, delayedCalls = 0, isCarboniteCalibration = 0\<rparr>
      else isCarboniteCalibration site = (if is_calibration (info (site_address site)) then 2 else 1)
        \<and> delayedCalls site = (if is_calibration (info (site_address site))
            then word_of_nat (count_list calls (site_address site)) else 0))"

definition table_after :: "(u64 \<Rightarrow> string option option) \<Rightarrow> u64 list \<Rightarrow> CallSite list \<Rightarrow> bool" where
  "table_after info calls sites \<longleftrightarrow> length sites = 256 \<and> placed (addr_at sites)
     \<and> addr_at sites ` {..<256} - {0} = set calls - {0} \<and> (\<forall>j < 256. site_after info calls (sites ! j))"

definition run_calls :: "(u64 \<Rightarrow> string option option) \<Rightarrow> u64 list \<Rightarrow> clock_shim \<Rightarrow> clock_shim" where
  "run_calls info calls s = fold (\<lambda>a s. snd (shouldDelayCall (info a) a s)) calls s"

lemma image_without: "z \<notin> X \<Longrightarrow> a \<notin> X \<Longrightarrow> X - {z} = C - {z} \<Longrightarrow> X \<subseteq> C - {z} - {a}"
  by auto

lemma image_replaced:
  "X' = insert a R \<Longrightarrow> X = insert x R \<Longrightarrow> x = a \<or> x = z \<Longrightarrow> X - {z} = set calls - {z} \<Longrightarrow> X' - {z} = set (calls @ [a]) - {z}"
  by auto

lemma callSiteFor_after:
  assumes "table_after info calls sites" and "a \<noteq> 0" and "card (set (a # calls) - {0}) \<le> 256"
    and "callSiteFor a sites = (r, sites')"
  obtains i where "r = Some i" "i < 256" "length sites' = 256" "placed (addr_at sites')"
    "\<forall>j < 256. addr_at sites' j = a \<longleftrightarrow> j = i"
    "sites' = sites[i := sites' ! i]"
    "addr_at sites i = a \<and> sites' ! i = sites ! i \<or> a \<notin> set calls \<and> sites ! i = \<lparr>site_address = 0, delayedCalls = 0, isCarboniteCalibration = 0\<rparr>
       \<and> sites' ! i = \<lparr>site_address = a, delayedCalls = 0, isCarboniteCalibration = 0\<rparr>"
proof -
  note t = assms(1) [unfolded table_after_def]
  have "passed (addr_at sites) a 0" by (simp add: passed_def)
  from probe_sites_result [OF conjunct1 [OF t] assms(2) this, of 256 r sites'] assms(4)
  have R: "case r of
      None \<Rightarrow> passed (addr_at sites) a 256 \<and> sites' = sites
    | Some i \<Rightarrow> (\<exists>p. i = site_slot a p \<and> passed (addr_at sites) a p)
        \<and> (addr_at sites i = a \<and> sites' = sites
           \<or> addr_at sites i = 0 \<and> sites' = sites[i := (sites ! i)\<lparr>site_address := a\<rparr>])"
    by (simp add: callSiteFor_def kCallSiteCount_def)
  show thesis
  proof (cases r)
    case None
    then have full: "addr_at sites i \<noteq> 0 \<and> addr_at sites i \<noteq> a" if "i < 256" for i
      using R None passed_all [OF _ that, of "addr_at sites" a] by simp
    have inj: "inj_on (addr_at sites) {..<256}"
    proof (rule inj_onI)
      fix i j assume ij: "i \<in> {..<256}" "j \<in> {..<256}" "addr_at sites i = addr_at sites j"
      from t full ij obtain p where p: "site_slot (addr_at sites i) p = i" "passed (addr_at sites) (addr_at sites i) p"
        unfolding placed_def by blast
      show "i = j" using placed_unique [of "addr_at sites" j "addr_at sites i" p] t ij full p by simp
    qed
    have "addr_at sites ` {..<256} \<subseteq> set calls - {0} - {a}"
    proof -
      have "0 \<notin> addr_at sites ` {..<256}" "a \<notin> addr_at sites ` {..<256}" using full by auto
      then show ?thesis by (rule image_without) (rule conjunct1 [OF conjunct2 [OF conjunct2 [OF t]]])
    qed
    moreover have "card (addr_at sites ` {..<256}) = 256" using card_image [OF inj] by simp
    ultimately have "256 \<le> card (set calls - {0} - {a})" by (metis card_mono finite_Diff finite_set)
    moreover have E: "set (a # calls) - {0} = insert a (set calls - {0} - {a})" using assms(2) by auto
    have "card (set (a # calls) - {0}) = Suc (card (set calls - {0} - {a}))"
      unfolding E by (rule card_insert_disjoint) auto
    ultimately show ?thesis using assms(3) by simp
  next
    case (Some i)
    with R obtain p where p: "i = site_slot a p" "passed (addr_at sites) a p" by auto
    have i: "i < 256" using p(1) site_slot_bound by simp
    have one: "j = i" if "j < 256" "addr_at sites j = a" "addr_at sites i \<in> {0, a}" for j
      using placed_unique [of "addr_at sites" j a p] t that assms(2) p by simp
    from R Some consider "addr_at sites i = a" "sites' = sites"
      | "addr_at sites i = 0" "sites' = sites[i := (sites ! i)\<lparr>site_address := a\<rparr>]" by auto
    then show ?thesis
    proof cases
      case 1
      then show ?thesis using that [OF Some i] t one by auto
    next
      case 2
      have ad: "addr_at sites' = (addr_at sites)(i := a)" using 2 t i by (auto simp: addr_at_def fun_eq_iff nth_list_update_neq)
      have "placed (addr_at sites')" using placed_claim [OF _ p(2) _ assms(2)] t 2(1) unfolding ad p(1) by simp
      have "a \<notin> addr_at sites ` {..<256}"
      proof
        assume "a \<in> addr_at sites ` {..<256}"
        then obtain j where "j < 256" "addr_at sites j = a" by auto
        then show False using one 2(1) assms(2) by auto
      qed
      moreover note conjunct1 [OF conjunct2 [OF conjunct2 [OF t]]]
      ultimately have new: "a \<notin> set calls" using assms(2) by blast
      have "site_after info calls (sites ! i)" using t i by simp
      then have z: "sites ! i = \<lparr>site_address = 0, delayedCalls = 0, isCarboniteCalibration = 0\<rparr>"
        using 2(1) by (simp add: site_after_def addr_at_def)
      show ?thesis
      proof (rule that [OF Some i])
        show "\<forall>j < 256. addr_at sites' j = a \<longleftrightarrow> j = i" using one 2(1) unfolding ad by auto
      qed (use \<open>placed (addr_at sites')\<close> new z 2(2) t i in simp_all)
    qed
  qed
qed

text \<open>One call: the count of its site goes up, and the call is delayed as long as the count is below the limit.\<close>

lemma shouldDelayCall_after:
  assumes t: "table_after info calls (gCallSites s)" and room: "card (set (a # calls) - {0}) \<le> 256"
    and run: "shouldDelayCall (info a) a s = (b, s')"
  shows "table_after info (calls @ [a]) (gCallSites s')
    \<and> b = (a \<noteq> 0 \<and> is_calibration (info a) \<and> count_list calls a mod 2 ^ 32 < 512)"
proof (cases "a = 0")
  case True
  then have "site_after info (calls @ [0]) = site_after info calls" by (auto simp: site_after_def fun_eq_iff)
  then show ?thesis using True t run by (simp add: shouldDelayCall_def table_after_def)
next
  case False
  let ?s = "gCallSites s" and ?cal = "is_calibration (info a)"
  obtain r sites' where c: "callSiteFor a ?s = (r, sites')" by fastforce
  note tt = t [unfolded table_after_def]
  obtain i where i: "r = Some i" "i < 256" "length sites' = 256" "placed (addr_at sites')"
    and only: "\<forall>j < 256. addr_at sites' j = a \<longleftrightarrow> j = i" and upd: "sites' = ?s[i := sites' ! i]"
    and old: "addr_at ?s i = a \<and> sites' ! i = ?s ! i \<or> a \<notin> set calls \<and> ?s ! i = \<lparr>site_address = 0, delayedCalls = 0, isCarboniteCalibration = 0\<rparr>
       \<and> sites' ! i = \<lparr>site_address = a, delayedCalls = 0, isCarboniteCalibration = 0\<rparr>"
    by (rule callSiteFor_after [OF t False room c]) (rule that)
  let ?site = "decide_site (info a) (sites' ! i)"
  have si: "site_after info calls (?s ! i)" using tt i(2) by simp
  have site: "site_address ?site = a \<and> isCarboniteCalibration ?site = (if ?cal then 2 else 1)
      \<and> delayedCalls ?site = (if ?cal then word_of_nat (count_list calls a) else 0)"
    using old si False
    by (auto simp: site_after_def decide_site_def is_calibration_def addr_at_def count_list_0_iff split: option.split)
  let ?new = "if ?cal then ?site\<lparr>delayedCalls := delayedCalls ?site + 1\<rparr> else ?site"
  have s': "gCallSites s' = sites'[i := ?new]" and b: "b = (?cal \<and> delayedCalls ?site < 512)"
    using run False c i(1) site by (auto simp: shouldDelayCall_def Let_def kMaximumDelayedCalls_def)
  have ad: "addr_at (gCallSites s') = addr_at sites'"
    using only i(2,3) site by (auto simp: s' addr_at_def fun_eq_iff nth_list_update)
  have others: "gCallSites s' ! j = ?s ! j \<and> addr_at sites' j \<noteq> a" if "j < 256" "j \<noteq> i" for j
    using that only upd s' by (metis nth_list_update_neq)
  have "site_after info (calls @ [a]) (gCallSites s' ! j)" if "j < 256" for j
  proof (cases "j = i")
    case True
    then show ?thesis using site i(2,3) False by (simp add: s' site_after_def)
  next
    case False
    then have "site_address (?s ! j) \<noteq> a" using others [OF that] upd that by (metis addr_at_def nth_list_update_neq)
    moreover have "site_after info calls (?s ! j)" using tt that by simp
    ultimately show ?thesis using others [OF that False] by (simp add: site_after_def)
  qed
  moreover have img: "addr_at sites' ` {..<256} - {0} = set (calls @ [a]) - {0}"
  proof -
    have rest: "addr_at sites' j = addr_at ?s j" if "j \<noteq> i" for j using upd that by (metis addr_at_def nth_list_update_neq)
    have ai: "addr_at sites' i = a" using only i(2) by simp
    have "{..<256} = insert i ({..<256} - {i})" using i(2) by auto
    then have split: "f ` {..<256} = insert (f i) (f ` ({..<256} - {i}))" for f :: "nat \<Rightarrow> u64" by (metis image_insert)
    have "addr_at sites' ` ({..<256} - {i}) = addr_at ?s ` ({..<256} - {i})" by (rule image_cong) (use rest in auto)
    then have "addr_at sites' ` {..<256} = insert a (addr_at ?s ` ({..<256} - {i}))"
      using split [of "addr_at sites'"] unfolding ai by simp
    moreover note split [of "addr_at ?s"]
    moreover have "addr_at ?s i = a \<or> addr_at ?s i = 0" using old by (auto simp: addr_at_def)
    moreover note conjunct1 [OF conjunct2 [OF conjunct2 [OF tt]]]
    ultimately show ?thesis by (rule image_replaced)
  qed
  moreover have "length (gCallSites s') = 256" using i(3) by (simp add: s')
  ultimately have "table_after info (calls @ [a]) (gCallSites s')" using i(4) unfolding table_after_def ad by blast
  moreover have "b = (?cal \<and> count_list calls a mod 2 ^ 32 < 512)"
  proof (cases ?cal)
    case True
    then have "delayedCalls ?site = word_of_nat (count_list calls a)" using site by simp
    then show ?thesis using True b by (simp only: word_less_nat_alt unat_of_nat) (simp add: take_bit_eq_mod)
  qed (use b in simp)
  ultimately show ?thesis using False by simp
qed

lemma table_after_init: "table_after info [] (gCallSites shim_init)"
  by (auto simp: table_after_def placed_def addr_at_def shim_init_def kCallSiteCount_def site_after_def)

lemma run_calls_after:
  assumes "card (set calls - {0}) \<le> 256"
  shows "table_after info calls (gCallSites (run_calls info calls shim_init))"
  using assms
proof (induction calls rule: rev_induct)
  case Nil
  then show ?case by (simp add: run_calls_def table_after_init)
next
  case (snoc a calls)
  obtain b s' where c: "shouldDelayCall (info a) a (run_calls info calls shim_init) = (b, s')" by fastforce
  have "set calls - {0} \<subseteq> set (calls @ [a]) - {0}" by auto
  then have "card (set calls - {0}) \<le> 256" using snoc.prems card_mono [of "set (calls @ [a]) - {0}" "set calls - {0}"] by simp
  moreover have "card (set (a # calls) - {0}) \<le> 256" using snoc.prems by simp
  ultimately have "table_after info (calls @ [a]) (gCallSites s')" using shouldDelayCall_after [OF snoc.IH _ c] by blast
  moreover have "run_calls info (calls @ [a]) shim_init = s'" using c by (simp add: run_calls_def)
  ultimately show ?case by simp
qed



section \<open>Properties\<close>

text \<open>C38: However the lookups of any number of threads interleave, one compare-and-swap at a time, no address ever gets two
  entries of the table, a thread that comes back with an entry holds one of its own address, which stays that address's
  entry, and a thread that comes back without one has a full table of other addresses before it.\<close>

theorem call_sites_concurrent:
  assumes "table_reachable (sites, threads)"
  shows "(\<forall>i < 256. \<forall>j < 256. site_address (sites ! i) = site_address (sites ! j) \<longrightarrow> site_address (sites ! i) \<noteq> 0 \<longrightarrow> i = j)
    \<and> (\<forall>t a i. threads t = Found a i \<longrightarrow> i < 256 \<and> site_address (sites ! i) = a)
    \<and> (\<forall>t a. threads t = Missed a \<longrightarrow> (\<forall>i < 256. site_address (sites ! i) \<notin> {0, a}))"
proof -
  note inv = table_inv_reachable [OF assms, unfolded table_inv_def, simplified]
  have "i = j" if ij: "i < 256" "j < 256" "addr_at sites i = addr_at sites j" "addr_at sites i \<noteq> 0" for i j
  proof -
    from inv ij obtain p where p: "site_slot (addr_at sites i) p = i" "passed (addr_at sites) (addr_at sites i) p"
      unfolding placed_def by blast
    then show ?thesis using placed_unique [of "addr_at sites" j "addr_at sites i" p] inv ij by simp
  qed
  moreover have "thread_ok (addr_at sites) (threads t)" for t using inv by blast
  then have "i < 256 \<and> addr_at sites i = a" if "threads t = Found a i" for t a i using that by (metis thread_ok.simps(3))
  moreover have "addr_at sites i \<notin> {0, a}" if "threads t = Missed a" "i < 256" for t a i
  proof -
    have "passed (addr_at sites) a 256" using inv that(1) by (metis thread_ok.simps(4))
    then show ?thesis using passed_all that(2) by blast
  qed
  ultimately show ?thesis by (simp add: addr_at_def)
qed

lemma call_sites_concurrent_witness:
  "\<exists>sites threads. table_reachable (sites, threads) \<and> threads 7 = Found 0x10 1 \<and> site_address (sites ! 1) = 0x10
     \<and> (\<forall>i < 256. site_address (sites ! i) = 0x10 \<longrightarrow> i = 1)"
proof -
  let ?s = "gCallSites shim_init" and ?th = "\<lambda>_ :: nat. Idle"
  have slot: "site_slot 0x10 0 = 1" by (simp add: site_slot_def first_slot_def kCallSiteCount_def)
  have "table_step (?s, ?th) (?s, ?th(7 := Looking 0x10 0))" by (rule table_step.enter) auto
  then have r1: "table_reachable (?s, ?th(7 := Looking 0x10 0))" by (rule table_reachable.step [OF table_reachable.start])
  obtain s1 where p: "probe_once 0x10 0 ?s = (True, s1)"
    by (simp add: probe_once_def Let_def slot shim_init_def kCallSiteCount_def)
  have "table_step (?s, ?th(7 := Looking 0x10 0)) (s1, (?th(7 := Looking 0x10 0))(7 := Found 0x10 (site_slot 0x10 0)))"
    by (rule table_step.claim [OF _ p]) simp
  from table_reachable.step [OF r1 this] have r2: "table_reachable (s1, ?th(7 := Found 0x10 1))" by (simp add: slot)
  note c = call_sites_concurrent [OF r2]
  have "site_address (s1 ! 1) = 0x10" using c by (metis fun_upd_same)
  moreover have "i = 1" if "i < 256" "site_address (s1 ! i) = 0x10" for i
    using conjunct1 [OF c, rule_format, OF that(1), of 1] that(2) calculation by simp
  ultimately show ?thesis using r2 by (intro exI [of _ s1] exI [of _ "?th(7 := Found 0x10 1)"]) simp
qed

text \<open>C39: Of the calls from one call site the first 512 are delayed if its file is one of the calibrating libraries, and none
  otherwise, whatever other call sites call in between, as long as at most 256 call sites call at all; but the counter
  wraps, so after \<open>2 ^ 32\<close> calls another 512 are delayed.\<close>

lemma delayed_calls:
  assumes "card (set (a # calls) - {0}) \<le> 256" and "s = run_calls info calls shim_init"
  shows "fst (shouldDelayCall (info a) a s) \<longleftrightarrow> a \<noteq> 0 \<and> is_calibration (info a) \<and> count_list calls a mod 2 ^ 32 < 512"
proof -
  obtain b s' where c: "shouldDelayCall (info a) a s = (b, s')" by fastforce
  have "set calls - {0} \<subseteq> set (a # calls) - {0}" by auto
  then have "card (set calls - {0}) \<le> 256" using assms(1) card_mono [of "set (a # calls) - {0}" "set calls - {0}"] by simp
  from shouldDelayCall_after [OF run_calls_after [OF this, of info, folded assms(2)] assms(1) c] show ?thesis by (simp add: c)
qed

lemma delayed_calls_witness:
  "fst (shouldDelayCall (Some (Some ''libcarb.tasking.plugin.so'')) 16
     (run_calls (\<lambda>_. Some (Some ''libcarb.tasking.plugin.so'')) (replicate 511 16) shim_init))
   \<and> \<not> fst (shouldDelayCall (Some (Some ''libcarb.tasking.plugin.so'')) 16
     (run_calls (\<lambda>_. Some (Some ''libcarb.tasking.plugin.so'')) (replicate 512 16) shim_init))"
proof -
  have c: "count_list (replicate n x) x = n" for n and x :: u64 by (induction n) auto
  have room: "card (set (16 # replicate n 16) - {0 :: u64}) \<le> 256" for n
  proof -
    have one: "set (16 # replicate n 16) - {0 :: u64} = {16}" by auto
    show ?thesis unfolding one by simp
  qed
  note d = delayed_calls [OF room refl, where info = "\<lambda>_. Some (Some ''libcarb.tasking.plugin.so'')"]
  have "is_calibration (Some (Some ''libcarb.tasking.plugin.so''))"
    by (simp add: is_calibration_def pathUsesCarboniteTscCalibration_def)
  then show ?thesis using d [of 511] d [of 512] by (simp add: c)
qed








end
