(* ===== verification/FileOpenTrace.thy ===== *)
theory FileOpenTrace
  imports Prelude
begin

text \<open>
  The diagnostic library \<^verbatim>\<open>guest/diagnostics/imb_file_open_trace.cpp\<close>: wrappers of \<^verbatim>\<open>open\<close>, \<^verbatim>\<open>open64\<close>, \<^verbatim>\<open>openat\<close>,
  \<^verbatim>\<open>fopen\<close> and \<^verbatim>\<open>fopen64\<close> that report some files on the standard error stream. The state is \<^verbatim>\<open>errno\<close> and what was
  written to that stream. The real functions are arguments: from their arguments and \<^verbatim>\<open>errno\<close> to a result and
  \<^verbatim>\<open>errno\<close>; so are the texts of \<^verbatim>\<open>strerror\<close>, and what formatting and writing leave in \<^verbatim>\<open>errno\<close>.
\<close>

record tracer =
  errno :: int
  stderr :: string

record trace_env =
  strerror :: "int \<Rightarrow> string"
  formatErrno :: "int \<Rightarrow> int"
  writeErrno :: "int \<Rightarrow> int"

definition shouldTrace :: "string option \<Rightarrow> bool" where
  "shouldTrace path = (case path of
      None \<Rightarrow> False
    | Some p \<Rightarrow> strstr p ''shadercache'' \<or> strstr p ''.desc'' \<or> strstr p ''8ffb883e060d5f4c492fcc4e2b66a396'')"

definition signed_decimal :: "int \<Rightarrow> string" where
  "signed_decimal i = (if i < 0 then ''-'' @ decimal (nat (- i)) else decimal (nat i))"

definition traceLine :: "trace_env \<Rightarrow> string \<Rightarrow> string \<Rightarrow> int \<Rightarrow> int \<Rightarrow> string" where
  "traceLine env operation p result savedErrno =
     ''imb-file-open-trace: '' @ operation @ '' path='' @ [CHR 0x27] @ p @ [CHR 0x27] @ '' result='' @ signed_decimal result
     @ '' errno='' @ signed_decimal savedErrno @ '' ('' @ strerror env savedErrno @ '')'' @ [CHR 0x0A]"

text \<open>The line is formatted into 2048 bytes, so that at most 2047 characters of it are written.\<close>

definition traceResult :: "trace_env \<Rightarrow> string \<Rightarrow> string option \<Rightarrow> int \<Rightarrow> int \<Rightarrow> tracer \<Rightarrow> tracer" where
  "traceResult env operation path result savedErrno s =
     (if \<not> shouldTrace path then s
      else
        (let line = traceLine env operation (the path) result savedErrno;
             s1 = s\<lparr>errno := formatErrno env (errno s)\<rparr>
         in if length line > 0
            then s1\<lparr>stderr := stderr s1 @ take (if length line < 2048 then length line else 2047) line,
                    errno := writeErrno env (errno s1)\<rparr>
            else s1))"

text \<open>What the five wrappers have in common: call the real function with a cleared \<^verbatim>\<open>errno\<close>, report, restore.\<close>

definition wrap_call :: "trace_env \<Rightarrow> string \<Rightarrow> string option \<Rightarrow> (int \<Rightarrow> int \<times> int) \<Rightarrow> tracer \<Rightarrow> int \<times> tracer" where
  "wrap_call env operation path call s =
     (case call 0 of
        (result, savedErrno) \<Rightarrow>
          (let s1 = traceResult env operation path result savedErrno (s\<lparr>errno := savedErrno\<rparr>)
           in (result, s1\<lparr>errno := savedErrno\<rparr>)))"

definition O_CREAT :: u32 where "O_CREAT = 0x40"

text \<open>The mode is passed on exactly when the flags ask for a new file.\<close>

type_synonym real_open = "string option \<Rightarrow> u32 \<Rightarrow> u32 option \<Rightarrow> int \<Rightarrow> int \<times> int"

definition open_wrapper :: "trace_env \<Rightarrow> real_open \<Rightarrow> string option \<Rightarrow> u32 \<Rightarrow> u32 \<Rightarrow> tracer \<Rightarrow> int \<times> tracer" where
  "open_wrapper env realOpen path flgs argument =
     wrap_call env ''open'' path (realOpen path flgs (if flgs AND O_CREAT \<noteq> 0 then Some argument else None))"

definition open64_wrapper :: "trace_env \<Rightarrow> real_open \<Rightarrow> string option \<Rightarrow> u32 \<Rightarrow> u32 \<Rightarrow> tracer \<Rightarrow> int \<times> tracer" where
  "open64_wrapper env realOpen64 path flgs argument =
     wrap_call env ''open64'' path (realOpen64 path flgs (if flgs AND O_CREAT \<noteq> 0 then Some argument else None))"

definition openat_wrapper :: "trace_env \<Rightarrow> (int \<Rightarrow> real_open) \<Rightarrow> int \<Rightarrow> string option \<Rightarrow> u32 \<Rightarrow> u32 \<Rightarrow> tracer \<Rightarrow> int \<times> tracer" where
  "openat_wrapper env realOpenAt directory path flgs argument =
     wrap_call env ''openat'' path (realOpenAt directory path flgs (if flgs AND O_CREAT \<noteq> 0 then Some argument else None))"

definition fopen_wrapper :: "trace_env \<Rightarrow> (string option \<Rightarrow> string \<Rightarrow> int \<Rightarrow> int \<times> int) \<Rightarrow> string option \<Rightarrow> string \<Rightarrow> tracer \<Rightarrow> int \<times> tracer" where
  "fopen_wrapper env realFopen path mode = wrap_call env ''fopen'' path (realFopen path mode)"

definition fopen64_wrapper :: "trace_env \<Rightarrow> (string option \<Rightarrow> string \<Rightarrow> int \<Rightarrow> int \<times> int) \<Rightarrow> string option \<Rightarrow> string \<Rightarrow> tracer \<Rightarrow> int \<times> tracer" where
  "fopen64_wrapper env realFopen64 path mode = wrap_call env ''fopen64'' path (realFopen64 path mode)"

section \<open>Properties\<close>

text \<open>The wrappers are transparent: whatever formatting and writing the report do to \<^verbatim>\<open>errno\<close>, the caller sees the result
  and the \<^verbatim>\<open>errno\<close> of the real function, which got the mode exactly when the flags ask for a new file; at most 2047 characters
  are reported, and nothing for a path that is not traced.\<close>

lemma wrapper_transparent:
  "(case open_wrapper env realOpen path flgs argument s of (result, s') \<Rightarrow>
      (result, errno s') = realOpen path flgs (if flgs AND O_CREAT \<noteq> 0 then Some argument else None) 0
      \<and> (\<exists>report. stderr s' = stderr s @ report \<and> length report \<le> 2047 \<and> (shouldTrace path \<or> report = [])))
   \<and> (case openat_wrapper env realOpenAt directory path flgs argument s of (result, s') \<Rightarrow>
      (result, errno s') = realOpenAt directory path flgs (if flgs AND O_CREAT \<noteq> 0 then Some argument else None) 0)
   \<and> (case fopen_wrapper env realFopen path mode s of (result, s') \<Rightarrow> (result, errno s') = realFopen path mode 0)"
proof -
  have w: "case wrap_call env op path call s of (result, s') \<Rightarrow> (result, errno s') = call 0
      \<and> (\<exists>report. stderr s' = stderr s @ report \<and> length report \<le> 2047 \<and> (shouldTrace path \<or> report = []))"
    for op and call :: "int \<Rightarrow> int \<times> int"
    by (auto simp: wrap_call_def traceResult_def Let_def split: prod.split)
  let ?mode = "if flgs AND O_CREAT \<noteq> 0 then Some argument else None"
  show ?thesis
    using w [where op = "''open''" and call = "realOpen path flgs ?mode"]
      w [where op = "''openat''" and call = "realOpenAt directory path flgs ?mode"]
      w [where op = "''fopen''" and call = "realFopen path mode"]
    unfolding open_wrapper_def openat_wrapper_def fopen_wrapper_def case_prod_beta by blast
qed

end
