(* ===== verification/VkFormat.thy ===== *)
theory VkFormat
  imports BridgeConn
begin

text \<open>
  Formats and sizes of images, from the helper functions of
  \<^verbatim>\<open>src/guest/vulkan_icd/imb_vulkan_icd.cpp\<close>: the texel blocks of a format, the saturating
  arithmetic of the sizes, the bytes of a mip level, of a layer and of an allocation, the offset of a
  subresource, and the blocks and the mip tail of a sparse image. A format, an image type and a set of
  flags are the numbers of the Vulkan headers (abbreviations below). A shift of an extent by
  a level of 32 or more, which C++ leaves undefined, gives 0 here; an image has fewer levels.
\<close>

section \<open>Numbers of the Vulkan headers\<close>

type_synonym VkFormat = u32
type_synonym VkDeviceSize = u64

abbreviation (input) VK_FORMAT_R8_UNORM :: VkFormat where "VK_FORMAT_R8_UNORM \<equiv> 9"
abbreviation (input) VK_FORMAT_R8_SRGB :: VkFormat where "VK_FORMAT_R8_SRGB \<equiv> 15"
abbreviation (input) VK_FORMAT_R8G8_UNORM :: VkFormat where "VK_FORMAT_R8G8_UNORM \<equiv> 16"
abbreviation (input) VK_FORMAT_R8G8_SRGB :: VkFormat where "VK_FORMAT_R8G8_SRGB \<equiv> 22"
abbreviation (input) VK_FORMAT_R8G8B8_UNORM :: VkFormat where "VK_FORMAT_R8G8B8_UNORM \<equiv> 23"
abbreviation (input) VK_FORMAT_B8G8R8_SRGB :: VkFormat where "VK_FORMAT_B8G8R8_SRGB \<equiv> 36"
abbreviation (input) VK_FORMAT_R8G8B8A8_UNORM :: VkFormat where "VK_FORMAT_R8G8B8A8_UNORM \<equiv> 37"
abbreviation (input) VK_FORMAT_R8G8B8A8_SNORM :: VkFormat where "VK_FORMAT_R8G8B8A8_SNORM \<equiv> 38"
abbreviation (input) VK_FORMAT_R8G8B8A8_UINT :: VkFormat where "VK_FORMAT_R8G8B8A8_UINT \<equiv> 41"
abbreviation (input) VK_FORMAT_R8G8B8A8_SINT :: VkFormat where "VK_FORMAT_R8G8B8A8_SINT \<equiv> 42"
abbreviation (input) VK_FORMAT_R8G8B8A8_SRGB :: VkFormat where "VK_FORMAT_R8G8B8A8_SRGB \<equiv> 43"
abbreviation (input) VK_FORMAT_B8G8R8A8_UNORM :: VkFormat where "VK_FORMAT_B8G8R8A8_UNORM \<equiv> 44"
abbreviation (input) VK_FORMAT_B8G8R8A8_SRGB :: VkFormat where "VK_FORMAT_B8G8R8A8_SRGB \<equiv> 50"
abbreviation (input) VK_FORMAT_A2B10G10R10_SINT_PACK32 :: VkFormat where "VK_FORMAT_A2B10G10R10_SINT_PACK32 \<equiv> 69"
abbreviation (input) VK_FORMAT_R16_UNORM :: VkFormat where "VK_FORMAT_R16_UNORM \<equiv> 70"
abbreviation (input) VK_FORMAT_R16_SFLOAT :: VkFormat where "VK_FORMAT_R16_SFLOAT \<equiv> 76"
abbreviation (input) VK_FORMAT_R16G16_UNORM :: VkFormat where "VK_FORMAT_R16G16_UNORM \<equiv> 77"
abbreviation (input) VK_FORMAT_R16G16_SFLOAT :: VkFormat where "VK_FORMAT_R16G16_SFLOAT \<equiv> 83"
abbreviation (input) VK_FORMAT_R16G16B16_UNORM :: VkFormat where "VK_FORMAT_R16G16B16_UNORM \<equiv> 84"
abbreviation (input) VK_FORMAT_R16G16B16_SFLOAT :: VkFormat where "VK_FORMAT_R16G16B16_SFLOAT \<equiv> 90"
abbreviation (input) VK_FORMAT_R16G16B16A16_UNORM :: VkFormat where "VK_FORMAT_R16G16B16A16_UNORM \<equiv> 91"
abbreviation (input) VK_FORMAT_R16G16B16A16_SFLOAT :: VkFormat where "VK_FORMAT_R16G16B16A16_SFLOAT \<equiv> 97"
abbreviation (input) VK_FORMAT_R32_UINT :: VkFormat where "VK_FORMAT_R32_UINT \<equiv> 98"
abbreviation (input) VK_FORMAT_R32_SINT :: VkFormat where "VK_FORMAT_R32_SINT \<equiv> 99"
abbreviation (input) VK_FORMAT_R32_SFLOAT :: VkFormat where "VK_FORMAT_R32_SFLOAT \<equiv> 100"
abbreviation (input) VK_FORMAT_R32G32_UINT :: VkFormat where "VK_FORMAT_R32G32_UINT \<equiv> 101"
abbreviation (input) VK_FORMAT_R32G32_SFLOAT :: VkFormat where "VK_FORMAT_R32G32_SFLOAT \<equiv> 103"
abbreviation (input) VK_FORMAT_R32G32B32_UINT :: VkFormat where "VK_FORMAT_R32G32B32_UINT \<equiv> 104"
abbreviation (input) VK_FORMAT_R32G32B32_SFLOAT :: VkFormat where "VK_FORMAT_R32G32B32_SFLOAT \<equiv> 106"
abbreviation (input) VK_FORMAT_R32G32B32A32_UINT :: VkFormat where "VK_FORMAT_R32G32B32A32_UINT \<equiv> 107"
abbreviation (input) VK_FORMAT_R32G32B32A32_SFLOAT :: VkFormat where "VK_FORMAT_R32G32B32A32_SFLOAT \<equiv> 109"
abbreviation (input) VK_FORMAT_D16_UNORM :: VkFormat where "VK_FORMAT_D16_UNORM \<equiv> 124"
abbreviation (input) VK_FORMAT_X8_D24_UNORM_PACK32 :: VkFormat where "VK_FORMAT_X8_D24_UNORM_PACK32 \<equiv> 125"
abbreviation (input) VK_FORMAT_D32_SFLOAT :: VkFormat where "VK_FORMAT_D32_SFLOAT \<equiv> 126"
abbreviation (input) VK_FORMAT_S8_UINT :: VkFormat where "VK_FORMAT_S8_UINT \<equiv> 127"
abbreviation (input) VK_FORMAT_D16_UNORM_S8_UINT :: VkFormat where "VK_FORMAT_D16_UNORM_S8_UINT \<equiv> 128"
abbreviation (input) VK_FORMAT_D24_UNORM_S8_UINT :: VkFormat where "VK_FORMAT_D24_UNORM_S8_UINT \<equiv> 129"
abbreviation (input) VK_FORMAT_D32_SFLOAT_S8_UINT :: VkFormat where "VK_FORMAT_D32_SFLOAT_S8_UINT \<equiv> 130"
abbreviation (input) VK_FORMAT_BC1_RGB_UNORM_BLOCK :: VkFormat where "VK_FORMAT_BC1_RGB_UNORM_BLOCK \<equiv> 131"
abbreviation (input) VK_FORMAT_BC1_RGBA_SRGB_BLOCK :: VkFormat where "VK_FORMAT_BC1_RGBA_SRGB_BLOCK \<equiv> 134"
abbreviation (input) VK_FORMAT_BC2_UNORM_BLOCK :: VkFormat where "VK_FORMAT_BC2_UNORM_BLOCK \<equiv> 135"
abbreviation (input) VK_FORMAT_BC3_UNORM_BLOCK :: VkFormat where "VK_FORMAT_BC3_UNORM_BLOCK \<equiv> 137"
abbreviation (input) VK_FORMAT_BC3_SRGB_BLOCK :: VkFormat where "VK_FORMAT_BC3_SRGB_BLOCK \<equiv> 138"
abbreviation (input) VK_FORMAT_BC4_UNORM_BLOCK :: VkFormat where "VK_FORMAT_BC4_UNORM_BLOCK \<equiv> 139"
abbreviation (input) VK_FORMAT_BC4_SNORM_BLOCK :: VkFormat where "VK_FORMAT_BC4_SNORM_BLOCK \<equiv> 140"
abbreviation (input) VK_FORMAT_BC5_UNORM_BLOCK :: VkFormat where "VK_FORMAT_BC5_UNORM_BLOCK \<equiv> 141"
abbreviation (input) VK_FORMAT_BC7_SRGB_BLOCK :: VkFormat where "VK_FORMAT_BC7_SRGB_BLOCK \<equiv> 146"

abbreviation (input) VK_IMAGE_ASPECT_COLOR_BIT :: u32 where "VK_IMAGE_ASPECT_COLOR_BIT \<equiv> 1"
abbreviation (input) VK_IMAGE_ASPECT_DEPTH_BIT :: u32 where "VK_IMAGE_ASPECT_DEPTH_BIT \<equiv> 2"
abbreviation (input) VK_IMAGE_ASPECT_STENCIL_BIT :: u32 where "VK_IMAGE_ASPECT_STENCIL_BIT \<equiv> 4"
abbreviation (input) VK_IMAGE_ASPECT_METADATA_BIT :: u32 where "VK_IMAGE_ASPECT_METADATA_BIT \<equiv> 8"
abbreviation (input) VK_IMAGE_TYPE_2D :: u32 where "VK_IMAGE_TYPE_2D \<equiv> 1"
abbreviation (input) VK_IMAGE_TYPE_3D :: u32 where "VK_IMAGE_TYPE_3D \<equiv> 2"
abbreviation (input) VK_IMAGE_CREATE_SPARSE_BINDING_BIT :: u32 where "VK_IMAGE_CREATE_SPARSE_BINDING_BIT \<equiv> 1"
abbreviation (input) VK_IMAGE_CREATE_SPARSE_RESIDENCY_BIT :: u32 where "VK_IMAGE_CREATE_SPARSE_RESIDENCY_BIT \<equiv> 2"
abbreviation (input) VK_SAMPLE_COUNT_1_BIT :: u32 where "VK_SAMPLE_COUNT_1_BIT \<equiv> 1"

abbreviation UINT64_MAX :: u64 where "UINT64_MAX \<equiv> - 1"
abbreviation UINT32_MAX :: u32 where "UINT32_MAX \<equiv> - 1"

record VkExtent3D =
  extWidth :: u32
  extHeight :: u32
  extDepth :: u32

abbreviation extent3 :: "u32 \<Rightarrow> u32 \<Rightarrow> u32 \<Rightarrow> VkExtent3D" where
  "extent3 w h d \<equiv> \<lparr>extWidth = w, extHeight = h, extDepth = d\<rparr>"

section \<open>Formats\<close>

definition kMetalSparseImageBlockBytes :: VkDeviceSize where "kMetalSparseImageBlockBytes = 16384"
definition kSparseImageBlockBytes :: VkDeviceSize where "kSparseImageBlockBytes = 65536"

record FormatBlockInfo =
  blkWidth :: u32
  blkHeight :: u32
  blkDepth :: u32
  blkBytes :: u32

abbreviation blk :: "u32 \<Rightarrow> u32 \<Rightarrow> u32 \<Rightarrow> u32 \<Rightarrow> FormatBlockInfo" where
  "blk w h d b \<equiv> \<lparr>blkWidth = w, blkHeight = h, blkDepth = d, blkBytes = b\<rparr>"

text \<open>The last line is the default of the structure's members.\<close>

definition formatBlockInfo :: "VkFormat \<Rightarrow> FormatBlockInfo" where
  "formatBlockInfo value =
    (if value \<ge> VK_FORMAT_R8_UNORM \<and> value \<le> VK_FORMAT_R8_SRGB then blk 1 1 1 1
     else if value \<ge> VK_FORMAT_R8G8_UNORM \<and> value \<le> VK_FORMAT_R8G8_SRGB then blk 1 1 1 2
     else if value \<ge> VK_FORMAT_R8G8B8_UNORM \<and> value \<le> VK_FORMAT_B8G8R8_SRGB then blk 1 1 1 3
     else if value \<ge> VK_FORMAT_R8G8B8A8_UNORM \<and> value \<le> VK_FORMAT_A2B10G10R10_SINT_PACK32 then blk 1 1 1 4
     else if value \<ge> VK_FORMAT_R16_UNORM \<and> value \<le> VK_FORMAT_R16_SFLOAT then blk 1 1 1 2
     else if value \<ge> VK_FORMAT_R16G16_UNORM \<and> value \<le> VK_FORMAT_R16G16_SFLOAT then blk 1 1 1 4
     else if value \<ge> VK_FORMAT_R16G16B16_UNORM \<and> value \<le> VK_FORMAT_R16G16B16_SFLOAT then blk 1 1 1 6
     else if value \<ge> VK_FORMAT_R16G16B16A16_UNORM \<and> value \<le> VK_FORMAT_R16G16B16A16_SFLOAT then blk 1 1 1 8
     else if value \<ge> VK_FORMAT_R32_UINT \<and> value \<le> VK_FORMAT_R32_SFLOAT then blk 1 1 1 4
     else if value \<ge> VK_FORMAT_R32G32_UINT \<and> value \<le> VK_FORMAT_R32G32_SFLOAT then blk 1 1 1 8
     else if value \<ge> VK_FORMAT_R32G32B32_UINT \<and> value \<le> VK_FORMAT_R32G32B32_SFLOAT then blk 1 1 1 12
     else if value \<ge> VK_FORMAT_R32G32B32A32_UINT \<and> value \<le> VK_FORMAT_R32G32B32A32_SFLOAT then blk 1 1 1 16
     else if value \<ge> VK_FORMAT_BC1_RGB_UNORM_BLOCK \<and> value \<le> VK_FORMAT_BC1_RGBA_SRGB_BLOCK then blk 4 4 1 8
     else if value \<ge> VK_FORMAT_BC2_UNORM_BLOCK \<and> value \<le> VK_FORMAT_BC3_SRGB_BLOCK then blk 4 4 1 16
     else if value \<ge> VK_FORMAT_BC4_UNORM_BLOCK \<and> value \<le> VK_FORMAT_BC4_SNORM_BLOCK then blk 4 4 1 8
     else if value \<ge> VK_FORMAT_BC5_UNORM_BLOCK \<and> value \<le> VK_FORMAT_BC7_SRGB_BLOCK then blk 4 4 1 16
     else blk 1 1 1 4)"

text \<open>The formats of the \<^verbatim>\<open>switch\<close>, by their numbers: the normalized and integer formats of
  8 bits with one, two and four channels, the same and the floats of 16 bits, and the integers and floats of
  32 bits.\<close>

definition texelBufferFormatSupported :: "VkFormat \<Rightarrow> bool" where
  "texelBufferFormatSupported format \<longleftrightarrow> format \<in> set
    [9, 10, 13, 14, 16, 17, 20, 21, 37, 38, 41, 42, 70, 71, 74, 75, 76, 77, 78, 81, 82, 83,
     91, 92, 95, 96, 97, 98, 99, 100, 101, 102, 103, 107, 108, 109]"

definition formatAspectMask :: "VkFormat \<Rightarrow> u32" where
  "formatAspectMask format =
    (if format = VK_FORMAT_D16_UNORM \<or> format = VK_FORMAT_X8_D24_UNORM_PACK32 \<or> format = VK_FORMAT_D32_SFLOAT
     then VK_IMAGE_ASPECT_DEPTH_BIT
     else if format = VK_FORMAT_S8_UINT then VK_IMAGE_ASPECT_STENCIL_BIT
     else if format = VK_FORMAT_D16_UNORM_S8_UINT \<or> format = VK_FORMAT_D24_UNORM_S8_UINT
         \<or> format = VK_FORMAT_D32_SFLOAT_S8_UINT
     then VK_IMAGE_ASPECT_DEPTH_BIT OR VK_IMAGE_ASPECT_STENCIL_BIT
     else VK_IMAGE_ASPECT_COLOR_BIT)"

text \<open>The numbers 1 to 11 of the protocol's image formats; 0 is a format the host does not know.\<close>

definition bridgeImageFormat :: "VkFormat \<Rightarrow> u32" where
  "bridgeImageFormat format =
    (if format = VK_FORMAT_R8G8B8A8_UNORM then 1
     else if format = VK_FORMAT_B8G8R8A8_UNORM then 2
     else if format = VK_FORMAT_BC3_UNORM_BLOCK then 3
     else if format = VK_FORMAT_BC3_SRGB_BLOCK then 6
     else if format = VK_FORMAT_BC5_UNORM_BLOCK then 7
     else if format = VK_FORMAT_R16_UNORM then 4
     else if format = VK_FORMAT_R16G16B16A16_UNORM then 5
     else if format = VK_FORMAT_R8G8B8A8_UINT then 8
     else if format = VK_FORMAT_R8G8B8A8_SNORM then 9
     else if format = VK_FORMAT_R8G8B8A8_SRGB then 10
     else if format = VK_FORMAT_R32G32B32A32_SFLOAT then 11
     else 0)"

section \<open>Saturating arithmetic\<close>

definition clampedMultiply :: "u64 \<Rightarrow> u64 \<Rightarrow> u64" where
  "clampedMultiply left right =
    (if left \<noteq> 0 \<and> right > UINT64_MAX div left then UINT64_MAX else left * right)"

definition clampedAdd :: "u64 \<Rightarrow> u64 \<Rightarrow> u64" where
  "clampedAdd left right = (if right > UINT64_MAX - left then UINT64_MAX else left + right)"

definition alignClamped :: "u64 \<Rightarrow> u64 \<Rightarrow> u64" where
  "alignClamped value alignment =
    (if alignment = 0 \<or> value > UINT64_MAX - (alignment - 1) then UINT64_MAX
     else (value + alignment - 1) AND NOT (alignment - 1))"

section \<open>Sizes of images\<close>

text \<open>The blocks that cover an extent, in the 32-bit arithmetic of the code.\<close>

definition blocksFor :: "u32 \<Rightarrow> u32 \<Rightarrow> u64" where
  "blocksFor extent unit = ucast ((extent + unit - 1) div unit)"

definition mipByteSize :: "VkFormat \<Rightarrow> VkExtent3D \<Rightarrow> u64" where
  "mipByteSize format extent =
    (let block = formatBlockInfo format;
         blocksX = blocksFor (extWidth extent) (blkWidth block);
         blocksY = blocksFor (extHeight extent) (blkHeight block);
         blocksZ = blocksFor (extDepth extent) (blkDepth block)
     in clampedMultiply (clampedMultiply (clampedMultiply blocksX blocksY) blocksZ) (ucast (blkBytes block)))"

definition levelExtent :: "VkExtent3D \<Rightarrow> nat \<Rightarrow> VkExtent3D" where
  "levelExtent extent level =
    extent3 (max 1 (drop_bit level (extWidth extent)))
            (max 1 (drop_bit level (extHeight extent)))
            (max 1 (drop_bit level (extDepth extent)))"

text \<open>The loop over the first levels, which adds their bytes to a sum that was \<open>start\<close>.\<close>

primrec addLevels :: "VkFormat \<Rightarrow> VkExtent3D \<Rightarrow> u64 \<Rightarrow> nat \<Rightarrow> u64" where
  "addLevels format extent start 0 = start"
| "addLevels format extent start (Suc level) =
    clampedAdd (addLevels format extent start level) (mipByteSize format (levelExtent extent level))"

definition imageLayerByteSize :: "VkFormat \<Rightarrow> VkExtent3D \<Rightarrow> u32 \<Rightarrow> u64" where
  "imageLayerByteSize format extent mipLevels = addLevels format extent 0 (unat mipLevels)"

definition imageSubresourceByteOffset :: "VkFormat \<Rightarrow> VkExtent3D \<Rightarrow> u32 \<Rightarrow> u32 \<Rightarrow> u32 \<Rightarrow> u64" where
  "imageSubresourceByteOffset format extent mipLevels mipLevel arrayLayer =
    addLevels format extent
      (clampedMultiply (imageLayerByteSize format extent mipLevels) (ucast arrayLayer)) (unat mipLevel)"

section \<open>Sparse images\<close>

definition metalSparseImageGranularity :: "VkFormat \<Rightarrow> u32 \<Rightarrow> VkExtent3D" where
  "metalSparseImageGranularity format type =
    (let block = formatBlockInfo format;
         (blockCountX, blockCountY) =
           (if blkBytes block \<le> 1 then (128, 128)
            else if blkBytes block = 2 then (128, 64)
            else if blkBytes block = 8 then (64, 32)
            else if blkBytes block \<ge> 16 then (32, 32)
            else (64, 64))
     in extent3 (blockCountX * blkWidth block) (blockCountY * blkHeight block)
          (if type = VK_IMAGE_TYPE_3D then 4 else 1))"

definition sparseImageGranularity :: "VkFormat \<Rightarrow> u32 \<Rightarrow> VkExtent3D" where
  "sparseImageGranularity format type =
    (let metal = metalSparseImageGranularity format type
     in extent3 (extWidth metal * 2) (extHeight metal * 2) (extDepth metal))"

record VkSparseImageMemoryRequirements =
  aspectMask :: u32
  imageGranularity :: VkExtent3D
  imageMipTailFirstLod :: u32
  imageMipTailSize :: VkDeviceSize
  imageMipTailOffset :: VkDeviceSize
  imageMipTailStride :: VkDeviceSize

text \<open>The bytes of the blocks that cover an extent.\<close>

definition tiledBytes :: "VkExtent3D \<Rightarrow> VkExtent3D \<Rightarrow> u64 \<Rightarrow> u64" where
  "tiledBytes extent granularity unitBytes =
    clampedMultiply
      (clampedMultiply
        (clampedMultiply (blocksFor (extWidth extent) (extWidth granularity))
                         (blocksFor (extHeight extent) (extHeight granularity)))
        (blocksFor (extDepth extent) (extDepth granularity)))
      unitBytes"

definition smallerThanBlock :: "VkExtent3D \<Rightarrow> VkExtent3D \<Rightarrow> bool" where
  "smallerThanBlock extent granularity \<longleftrightarrow>
    extWidth extent < extWidth granularity \<or> extHeight extent < extHeight granularity
      \<or> extDepth extent < extDepth granularity"

text \<open>The loop over the levels: the first level of the mip tail so far (the number of levels
  while there is none), the bytes of the tiled levels and of the tail of one layer.\<close>

primrec sparseLevels :: "VkFormat \<Rightarrow> u32 \<Rightarrow> VkExtent3D \<Rightarrow> u32 \<Rightarrow> nat \<Rightarrow> u32 \<times> u64 \<times> u64" where
  "sparseLevels format type extent mipLevels 0 = (mipLevels, 0, 0)"
| "sparseLevels format type extent mipLevels (Suc n) =
    (case sparseLevels format type extent mipLevels n of (firstLod0, tiled, tail) \<Rightarrow>
      let granularity = sparseImageGranularity format type;
          level = levelExtent extent n;
          firstLod = (if firstLod0 = mipLevels \<and> smallerThanBlock level granularity
                      then word_of_nat n else firstLod0)
      in if word_of_nat n < firstLod
         then (firstLod, clampedAdd tiled (tiledBytes level granularity kSparseImageBlockBytes), tail)
         else (firstLod, tiled,
               clampedAdd tail (tiledBytes level (metalSparseImageGranularity format type) kMetalSparseImageBlockBytes)))"

definition sparseImageRequirements ::
  "VkFormat \<Rightarrow> u32 \<Rightarrow> VkExtent3D \<Rightarrow> u32 \<Rightarrow> u32 \<Rightarrow> VkSparseImageMemoryRequirements" where
  "sparseImageRequirements format type extent mipLevels arrayLayers =
    (case sparseLevels format type extent mipLevels (unat mipLevels) of (firstLod, tiled, tail) \<Rightarrow>
      let tailSize = (if firstLod < mipLevels then alignClamped (max tail 1) kSparseImageBlockBytes else 0)
      in \<lparr>aspectMask = formatAspectMask format,
          imageGranularity = sparseImageGranularity format type,
          imageMipTailFirstLod = firstLod,
          imageMipTailSize = tailSize,
          imageMipTailOffset = alignClamped (clampedMultiply tiled (ucast arrayLayers)) kSparseImageBlockBytes,
          imageMipTailStride = tailSize\<rparr>)"

definition imageAllocationSize ::
  "VkFormat \<Rightarrow> u32 \<Rightarrow> VkExtent3D \<Rightarrow> u32 \<Rightarrow> u32 \<Rightarrow> u32 \<Rightarrow> u32 \<Rightarrow> VkDeviceSize" where
  "imageAllocationSize format type extent mipLevels arrayLayers samples createFlags =
    (if createFlags AND VK_IMAGE_CREATE_SPARSE_RESIDENCY_BIT \<noteq> 0
     then (let sparse = sparseImageRequirements format type extent mipLevels arrayLayers
           in if imageMipTailSize sparse = 0 then imageMipTailOffset sparse
              else clampedAdd (imageMipTailOffset sparse)
                     (clampedAdd
                       (clampedMultiply (imageMipTailStride sparse)
                         (if arrayLayers > 0 then ucast (arrayLayers - 1) else 0))
                       (imageMipTailSize sparse)))
     else (let layer = addLevels format extent 0 (unat mipLevels);
               layers = clampedMultiply layer (ucast arrayLayers);
               all = clampedMultiply layers (ucast samples)
           in alignClamped (max all 1) 256))"

section \<open>The arithmetic saturates\<close>

text \<open>A number cut off at the largest 64-bit value.\<close>

definition sat64 :: "nat \<Rightarrow> nat" where "sat64 n = min n (2 ^ 64 - 1)"

named_theorems sat_simps \<open>the saturating arithmetic read as natural numbers\<close>

lemma unat_UINT64_MAX: "unat UINT64_MAX = 2 ^ 64 - 1"
  by (simp add: unsigned_minus_1_eq_mask mask_eq_exp_minus_1)

lemma sat64_mult [simp]: "sat64 (sat64 a * b) = sat64 (a * b)"
  by (cases "b = 0"; cases "a \<le> 2 ^ 64 - 1")
    (auto simp: sat64_def min_def dest: mult_le_mono [of _ _ 1 b] intro: order_trans)

lemma sat64_add [simp]: "sat64 (sat64 a + b) = sat64 (a + b)" "sat64 (a + sat64 b) = sat64 (a + b)"
  by (simp_all add: sat64_def min_def)

lemma sat64_small: "n < 2 ^ 64 \<Longrightarrow> sat64 n = n"
  by (simp add: sat64_def)

lemma sat64_le: "sat64 n \<le> n"
  by (simp add: sat64_def)

lemma sat64_less: "sat64 n < 2 ^ 64 - 1 \<Longrightarrow> sat64 n = n"
  by (simp add: sat64_def)

lemma sat64_zero [simp]: "sat64 0 = 0"
  by (simp add: sat64_def)

lemma unat_clampedMultiply [sat_simps]: "unat (clampedMultiply a b) = sat64 (unat a * unat b)"
proof (cases "a = 0")
  case False
  then have pos: "0 < unat a" by (simp add: unat_gt_0)
  have test: "b > UINT64_MAX div a \<longleftrightarrow> 2 ^ 64 - 1 < unat a * unat b"
  proof -
    have "b > UINT64_MAX div a \<longleftrightarrow> (2 ^ 64 - 1) div unat a < unat b"
      unfolding word_less_nat_alt unat_div unat_UINT64_MAX ..
    also have "\<dots> \<longleftrightarrow> 2 ^ 64 - 1 < unat b * unat a"
      using pos by (rule div_less_iff_less_mult)
    finally show ?thesis by (simp add: mult.commute)
  qed
  show ?thesis
  proof (cases "2 ^ 64 - 1 < unat a * unat b")
    case True
    then show ?thesis
      using test False by (simp add: clampedMultiply_def sat64_def unat_UINT64_MAX)
  next
    case small: False
    then have "unat (a * b) = unat a * unat b"
      by (intro unat_mult_lem [THEN iffD1]) simp
    then show ?thesis
      using test small by (simp add: clampedMultiply_def sat64_def)
  qed
qed (simp add: clampedMultiply_def)

lemma unat_clampedAdd [sat_simps]: "unat (clampedAdd a b) = sat64 (unat a + unat b)"
proof -
  have test: "b > UINT64_MAX - a \<longleftrightarrow> 2 ^ 64 - 1 < unat a + unat b"
    using u64_unat_less [of a] by (auto simp: word_less_nat_alt unat_sub unat_UINT64_MAX)
  show ?thesis
  proof (cases "2 ^ 64 - 1 < unat a + unat b")
    case True
    then show ?thesis using test by (simp add: clampedAdd_def sat64_def unat_UINT64_MAX)
  next
    case False
    then have "unat (a + b) = unat a + unat b"
      by (intro unat_add_lem [THEN iffD1]) simp
    then show ?thesis using test False by (simp add: clampedAdd_def sat64_def)
  qed
qed

text \<open>Aligning to a power of two rounds up to a multiple, or gives the largest value.\<close>

definition round_up :: "nat \<Rightarrow> nat \<Rightarrow> nat" where
  "round_up n unit = (n + unit - 1) div unit * unit"

lemma round_up_ge: "0 < unit \<Longrightarrow> n \<le> round_up n unit"
  unfolding round_up_def
  using div_mult_mod_eq [of "n + unit - 1" unit] mod_less_divisor [of unit "n + unit - 1"] by linarith

lemma and_not_mask_unat: "unat (x AND NOT (2 ^ k - 1) :: u64) = unat x div 2 ^ k * 2 ^ k"
proof -
  have "x AND NOT (2 ^ k - 1) = push_bit k (drop_bit k x)"
    by (rule bit_eqI) (auto simp: bit_simps mask_eq_exp_minus_1 [symmetric])
  moreover have "unat (push_bit k (drop_bit k x)) = unat x div 2 ^ k * 2 ^ k"
  proof -
    have "unat x div 2 ^ k * 2 ^ k < 2 ^ 64"
      using u64_unat_less [of x] div_times_less_eq_dividend [of "unat x" "2 ^ k"]
      by (rule le_less_trans [rotated])
    then show ?thesis
      using u64_unat_less [of x] by (simp only: unsigned_push_bit_eq unsigned_drop_bit_eq)
        (simp add: push_bit_eq_mult drop_bit_eq_div take_bit_nat_eq_self)
  qed
  ultimately show ?thesis by simp
qed

lemma unat_alignClamped:
  assumes "alignment = 2 ^ k" "k < 64" "unat v + 2 ^ k \<le> 2 ^ 64"
  shows "unat (alignClamped v alignment) = round_up (unat v) (2 ^ k)"
proof -
  have p: "unat (2 ^ k :: u64) = 2 ^ k"
  proof -
    have "(2 ^ k :: u64) = word_of_nat (2 ^ k)" by simp
    moreover have "(2 :: nat) ^ k < 2 ^ 64" using assms(2) by (rule power_strict_increasing) simp
    ultimately show ?thesis by (simp only: u64_unat_of_nat)
  qed
  have nz: "(2 ^ k :: u64) \<noteq> 0" using p by (metis power_not_zero unat_0 zero_neq_numeral)
  have m: "unat (2 ^ k - 1 :: u64) = 2 ^ k - 1"
    using p nz by (simp add: unat_minus_one)
  have "\<not> v > UINT64_MAX - (2 ^ k - 1)"
  proof -
    have "unat (UINT64_MAX - (2 ^ k - 1)) = 2 ^ 64 - 1 - (2 ^ k - 1)"
      using unat_minus_le [OF word_n1_ge, of "2 ^ k - 1 :: u64"] by (simp only: m unat_UINT64_MAX)
    then show ?thesis
      using assms(3) u64_unat_less [of v] unfolding word_less_nat_alt by linarith
  qed
  moreover have "unat (v + 2 ^ k - 1) = unat v + 2 ^ k - 1"
  proof -
    have "v + 2 ^ k - 1 = v + (2 ^ k - 1)" by (simp add: add_diff_eq)
    moreover have "unat (v + (2 ^ k - 1)) = unat v + unat (2 ^ k - 1 :: u64)"
    proof (intro unat_add_lem [THEN iffD1])
      have "unat v + (2 ^ k - 1) < 2 ^ 64"
        using assms(3) zero_less_power [of "2 :: nat" k] by linarith
      then show "unat v + unat (2 ^ k - 1 :: u64) < 2 ^ LENGTH(64)" by (simp add: m)
    qed
    ultimately show ?thesis using m by (simp add: add_diff_eq)
  qed
  ultimately show ?thesis
    using nz by (simp add: alignClamped_def assms(1) round_up_def and_not_mask_unat)
qed

end
