(* ===== verification/VkFormatProps.thy ===== *)
theory VkFormatProps
  imports VkFormat
begin

text \<open>
  The sizes of \<^theory_text>\<open>VkFormat\<close> against the exact numbers: the bytes of a level are the blocks that cover
  it times the bytes of a block, the bytes of a layer are those of its levels, and the 64-bit code computes
  these numbers cut off at \<open>2 ^ 64 - 1\<close>. From this the layout of an image: its subresources do not
  overlap and lie inside the allocation the driver asks for.
\<close>

section \<open>Exact sizes\<close>

definition cover :: "nat \<Rightarrow> nat \<Rightarrow> nat" where
  "cover n unit = (n + unit - 1) div unit"

definition levelSize :: "nat \<Rightarrow> nat \<Rightarrow> nat" where
  "levelSize n level = max 1 (n div 2 ^ level)"

definition exactLevelBytes :: "VkFormat \<Rightarrow> VkExtent3D \<Rightarrow> nat \<Rightarrow> nat" where
  "exactLevelBytes format extent level =
    (let block = formatBlockInfo format
     in cover (levelSize (unat (extWidth extent)) level) (unat (blkWidth block))
      * cover (levelSize (unat (extHeight extent)) level) (unat (blkHeight block))
      * cover (levelSize (unat (extDepth extent)) level) (unat (blkDepth block))
      * unat (blkBytes block))"

text \<open>The bytes of the levels before \<open>n\<close>.\<close>

definition exactBytes :: "VkFormat \<Rightarrow> VkExtent3D \<Rightarrow> nat \<Rightarrow> nat" where
  "exactBytes format extent n = (\<Sum>level<n. exactLevelBytes format extent level)"

text \<open>Rounding an extent up to blocks does not leave 32 bits.\<close>

definition extent_fits :: "VkExtent3D \<Rightarrow> bool" where
  "extent_fits extent \<longleftrightarrow> unat (extWidth extent) + 1024 \<le> 2 ^ 32 \<and> unat (extHeight extent) + 1024 \<le> 2 ^ 32
    \<and> unat (extDepth extent) + 1024 \<le> 2 ^ 32"

lemma block_dimensions:
  "unat (blkWidth (formatBlockInfo format)) \<in> {1, 4}"
  "unat (blkHeight (formatBlockInfo format)) \<in> {1, 4}"
  "unat (blkDepth (formatBlockInfo format)) = 1"
  "unat (blkBytes (formatBlockInfo format)) \<in> {1, 2, 3, 4, 6, 8, 12, 16}"
  by (simp_all add: formatBlockInfo_def)

lemma unat_blocksFor:
  assumes "unat a + unat u \<le> 2 ^ 32" "0 < unat u"
  shows "unat (blocksFor a u) = cover (unat a) (unat u)"
proof -
  have m: "unat (u - 1) = unat u - 1"
    using assms(2) by (intro unat_minus_one) auto
  have "a + u - 1 = a + (u - 1)" by (simp add: add_diff_eq)
  moreover have "unat (a + (u - 1)) = unat a + unat (u - 1)"
  proof (intro unat_add_lem [THEN iffD1])
    show "unat a + unat (u - 1) < 2 ^ LENGTH(32)"
      using assms m by simp
  qed
  ultimately have "unat (a + u - 1) = unat a + unat u - 1"
    using m assms(2) by (simp only:)
  then show ?thesis
    by (simp only: blocksFor_def cover_def unat_ucast32 unat_div)
qed

lemma unat_level: "unat (max 1 (drop_bit level (w :: u32))) = levelSize (unat w) level"
proof -
  have "unat (drop_bit level w) = unat w div 2 ^ level"
    using unsigned_less [of w, where ?'a = nat] by (simp only: unsigned_drop_bit_eq)
      (simp add: drop_bit_eq_div take_bit_nat_eq_self)
  then show ?thesis
    by (auto simp: levelSize_def max_def word_le_nat_alt unat_UINT64_MAX)
qed

lemma levelSize_le: "levelSize n level \<le> max 1 n"
  unfolding levelSize_def
  by (rule max.mono) (simp_all add: div_le_dividend)

lemma unat_mipByteSize:
  assumes "extent_fits extent"
  shows "unat (mipByteSize format (levelExtent extent level)) = sat64 (exactLevelBytes format extent level)"
proof -
  let ?b = "formatBlockInfo format"
  have w: "unat (blocksFor (max 1 (drop_bit level x)) u) = cover (levelSize (unat x) level) (unat u)"
    if "unat x + 1024 \<le> 2 ^ 32" "unat u \<in> {1, 4}" for x u :: u32
  proof -
    have "levelSize (unat x) level + unat u \<le> 2 ^ 32"
      using that levelSize_le [of "unat x" level] by auto
    then show ?thesis
      using that by (subst unat_blocksFor) (auto simp: unat_level)
  qed
  have s: "sat64 (sat64 (sat64 (a * b) * c) * d) = sat64 (a * b * c * d)" for a b c d
    by simp
  have "unat (ucast (blkBytes ?b) :: u64) = unat (blkBytes ?b)"
    by (rule unat_ucast32)
  then show ?thesis
    using assms block_dimensions [of format]
    by (simp add: mipByteSize_def levelExtent_def sat_simps w extent_fits_def exactLevelBytes_def Let_def)
qed

lemma unat_addLevels:
  assumes "extent_fits extent"
  shows "unat (addLevels format extent start n) = sat64 (unat start + exactBytes format extent n)"
proof (induction n)
  case 0
  show ?case using u64_unat_less [of start] by (simp add: exactBytes_def sat64_small)
next
  case (Suc n)
  then show ?case
    by (simp add: sat_simps unat_mipByteSize [OF assms] exactBytes_def add.assoc)
qed

text \<open>C12: The bytes of a layer and the offset of a subresource are the exact numbers, cut off at the
  largest 64-bit value: no product or sum of the code wraps, for any format and any extent whose
  rounding to blocks stays inside 32 bits.\<close>

lemma image_sizes_saturate:
  assumes "extent_fits extent"
  shows "unat (imageLayerByteSize format extent mipLevels) = sat64 (exactBytes format extent (unat mipLevels))
    \<and> unat (imageSubresourceByteOffset format extent mipLevels mipLevel arrayLayer)
      = sat64 (exactBytes format extent (unat mipLevels) * unat arrayLayer + exactBytes format extent (unat mipLevel))"
  by (simp_all add: imageLayerByteSize_def imageSubresourceByteOffset_def unat_addLevels [OF assms] sat_simps
      unat_ucast32)

lemma image_sizes_saturate_witness:
  "unat (imageLayerByteSize VK_FORMAT_BC3_UNORM_BLOCK (extent3 5 5 1) 2) = 80
    \<and> unat (imageSubresourceByteOffset VK_FORMAT_BC3_UNORM_BLOCK (extent3 5 5 1) 2 1 3) = 304"
proof -
  let ?e = "extent3 5 5 1"
  have f: "extent_fits ?e" by (simp add: extent_fits_def)
  have "exactLevelBytes VK_FORMAT_BC3_UNORM_BLOCK ?e 0 = 64" "exactLevelBytes VK_FORMAT_BC3_UNORM_BLOCK ?e 1 = 16"
    by (simp_all add: exactLevelBytes_def formatBlockInfo_def cover_def levelSize_def)
  then have "exactBytes VK_FORMAT_BC3_UNORM_BLOCK ?e 2 = 80" "exactBytes VK_FORMAT_BC3_UNORM_BLOCK ?e 1 = 64"
    by (simp_all add: exactBytes_def numeral_2_eq_2)
  then show ?thesis
    using image_sizes_saturate [OF f, of VK_FORMAT_BC3_UNORM_BLOCK 2 1 3]
    by (simp add: sat64_def)
qed

section \<open>The layout of an image\<close>

lemma exactBytes_mono: "m \<le> n \<Longrightarrow> exactBytes format extent m \<le> exactBytes format extent n"
  by (auto simp: exactBytes_def intro: sum_mono2)

lemma exactBytes_Suc: "exactBytes format extent (Suc n) = exactBytes format extent n + exactLevelBytes format extent n"
  by (simp add: exactBytes_def)

text \<open>An allocation size that is not the largest value is exact.\<close>

lemma imageAllocationSize_exact:
  assumes fits: "extent_fits extent"
    and plain: "createFlags AND VK_IMAGE_CREATE_SPARSE_RESIDENCY_BIT = 0"
    and ok: "imageAllocationSize format type extent mipLevels arrayLayers samples createFlags \<noteq> UINT64_MAX"
  defines "bytes_all \<equiv> exactBytes format extent (unat mipLevels) * unat arrayLayers * unat samples"
  shows "bytes_all \<le> 2 ^ 64 - 256"
    and "unat (imageAllocationSize format type extent mipLevels arrayLayers samples createFlags)
      = round_up (max bytes_all 1) 256"
proof -
  let ?all = "clampedMultiply (clampedMultiply (addLevels format extent 0 (unat mipLevels)) (ucast arrayLayers)) (ucast samples)"
  have size: "imageAllocationSize format type extent mipLevels arrayLayers samples createFlags
      = alignClamped (max ?all 1) 256"
    using plain by (simp add: imageAllocationSize_def Let_def)
  have "unat ?all = sat64 bytes_all"
    by (simp add: sat_simps unat_addLevels [OF fits] unat_ucast32 bytes_all_def)
  then have m: "unat (max ?all 1) = max (sat64 bytes_all) 1"
    by (simp add: max_def word_le_nat_alt unat_UINT64_MAX)
  have "\<not> (max ?all 1) > UINT64_MAX - (256 - 1)"
    using ok unfolding size alignClamped_def by (metis (mono_tags))
  then have "unat (max ?all 1) \<le> 2 ^ 64 - 256"
    by (simp add: word_less_nat_alt)
  then have b: "unat (max ?all 1) + 2 ^ 8 \<le> 2 ^ 64"
    by simp
  then show "bytes_all \<le> 2 ^ 64 - 256"
    using m by (auto simp: sat64_def max_def split: if_splits)
  then have "sat64 bytes_all = bytes_all" by (simp add: sat64_def)
  then show "unat (imageAllocationSize format type extent mipLevels arrayLayers samples createFlags)
      = round_up (max bytes_all 1) 256"
    unfolding size using unat_alignClamped [OF _ _ b, of 256] m by simp
qed

text \<open>The range of a subresource: the first byte and the byte after the last.\<close>

definition subresourceRange :: "VkFormat \<Rightarrow> VkExtent3D \<Rightarrow> u32 \<Rightarrow> u32 \<times> u32 \<Rightarrow> nat set" where
  "subresourceRange format extent mipLevels sub =
    (case sub of (mipLevel, arrayLayer) \<Rightarrow>
      let offset = unat (imageSubresourceByteOffset format extent mipLevels mipLevel arrayLayer)
      in {offset ..< offset + unat (mipByteSize format (levelExtent extent (unat mipLevel)))})"

lemma layered_ranges_disjoint:
  fixes f :: "nat \<Rightarrow> nat"
  assumes mono: "\<And>m n. m \<le> n \<Longrightarrow> f m \<le> f n"
    and "mip < levels" "mip' < levels" "(mip, layer) \<noteq> (mip', layer')"
  shows "{f levels * layer + f mip ..< f levels * layer + f (Suc mip)}
    \<inter> {f levels * layer' + f mip' ..< f levels * layer' + f (Suc mip')} = {}"
proof -
  have inside: "f levels * l + f (Suc m) \<le> f levels * l'" if "l < l'" "m < levels" for l l' m
  proof -
    have "f (Suc m) \<le> f levels" using that by (intro mono) simp
    moreover have "f levels * Suc l \<le> f levels * l'" using that by (intro mult_le_mono2) simp
    ultimately show ?thesis by simp
  qed
  consider "layer < layer'" | "layer' < layer" | "layer = layer'" "mip < mip'" | "layer = layer'" "mip' < mip"
    using assms(4) by (metis linorder_neqE_nat)
  then show ?thesis
  proof cases
    case 1
    then show ?thesis using inside [OF 1 assms(2)] by fastforce
  next
    case 2
    then show ?thesis using inside [OF 2 assms(3)] by fastforce
  next
    case 3
    then have "f (Suc mip) \<le> f mip'" by (intro mono) simp
    then show ?thesis using 3 by fastforce
  next
    case 4
    then have "f (Suc mip') \<le> f mip" by (intro mono) simp
    then show ?thesis using 4 by fastforce
  qed
qed

text \<open>In an image whose size the driver accepts, a subresource starts at the exact offset.\<close>

lemma subresourceRange_exact:
  assumes fits: "extent_fits extent"
    and fit: "exactBytes format extent (unat mipLevels) * unat arrayLayers < 2 ^ 64"
    and "mip < mipLevels" "layer < arrayLayers"
  defines "f \<equiv> exactBytes format extent"
  shows "subresourceRange format extent mipLevels (mip, layer)
      = {f (unat mipLevels) * unat layer + f (unat mip) ..< f (unat mipLevels) * unat layer + f (Suc (unat mip))}"
    and "f (unat mipLevels) * unat layer + f (Suc (unat mip)) \<le> f (unat mipLevels) * unat arrayLayers"
proof -
  have "f (Suc (unat mip)) \<le> f (unat mipLevels)"
    using assms(3) unfolding f_def word_less_nat_alt by (intro exactBytes_mono) simp
  moreover have "f (unat mipLevels) * Suc (unat layer) \<le> f (unat mipLevels) * unat arrayLayers"
    using assms(4) by (intro mult_le_mono2) (simp add: word_less_nat_alt)
  ultimately show bound: "f (unat mipLevels) * unat layer + f (Suc (unat mip)) \<le> f (unat mipLevels) * unat arrayLayers"
    by simp
  have step: "f (Suc (unat mip)) = f (unat mip) + exactLevelBytes format extent (unat mip)"
    by (simp add: f_def exactBytes_Suc)
  have small: "f (unat mipLevels) * unat layer + f (unat mip) + exactLevelBytes format extent (unat mip) < 2 ^ 64"
    using bound fit step unfolding f_def by linarith
  then have "sat64 (exactLevelBytes format extent (unat mip)) = exactLevelBytes format extent (unat mip)"
    "sat64 (f (unat mipLevels) * unat layer + f (unat mip)) = f (unat mipLevels) * unat layer + f (unat mip)"
    by (simp_all add: sat64_small)
  then show "subresourceRange format extent mipLevels (mip, layer)
      = {f (unat mipLevels) * unat layer + f (unat mip) ..< f (unat mipLevels) * unat layer + f (Suc (unat mip))}"
    by (simp add: subresourceRange_def Let_def imageSubresourceByteOffset_def imageLayerByteSize_def
        unat_addLevels [OF fits] sat_simps unat_ucast32 unat_mipByteSize [OF fits] step add.assoc flip: f_def)
qed

section \<open>Sparse images\<close>

lemma unat_word_of_nat32: "n < 2 ^ 32 \<Longrightarrow> unat (word_of_nat n :: u32) = n"
  by (simp add: unat_of_nat take_bit_nat_eq_self)

text \<open>The first level of the mip tail is the first one that is smaller than a block.\<close>

lemma sparseLevels_first:
  assumes "n \<le> unat mipLevels" "sparseLevels format type extent mipLevels n = (firstLod, tiled, tail)"
  shows "(\<forall>l<n. l < unat firstLod \<longrightarrow> \<not> smallerThanBlock (levelExtent extent l) (sparseImageGranularity format type))
    \<and> (firstLod \<noteq> mipLevels \<longrightarrow>
        unat firstLod < n \<and> smallerThanBlock (levelExtent extent (unat firstLod)) (sparseImageGranularity format type))"
  using assms
proof (induction n arbitrary: firstLod tiled tail)
  case 0
  then show ?case by simp
next
  case (Suc n)
  obtain f t u where prev: "sparseLevels format type extent mipLevels n = (f, t, u)"
    by (metis prod_cases3)
  have n: "unat (word_of_nat n :: u32) = n"
    using Suc.prems(1) unsigned_less [of mipLevels, where ?'a = nat] by (intro unat_word_of_nat32) simp
  have IH: "(\<forall>l<n. l < unat f \<longrightarrow> \<not> smallerThanBlock (levelExtent extent l) (sparseImageGranularity format type))
    \<and> (f \<noteq> mipLevels \<longrightarrow>
        unat f < n \<and> smallerThanBlock (levelExtent extent (unat f)) (sparseImageGranularity format type))"
    using Suc.prems(1) by (intro Suc.IH [OF _ prev]) simp
  have first: "firstLod = (if f = mipLevels \<and> smallerThanBlock (levelExtent extent n) (sparseImageGranularity format type)
      then word_of_nat n else f)"
    using Suc.prems(2) by (auto simp: prev Let_def split: if_splits)
  show ?case
  proof (cases "f = mipLevels \<and> smallerThanBlock (levelExtent extent n) (sparseImageGranularity format type)")
    case True
    then have "\<forall>l<n. \<not> smallerThanBlock (levelExtent extent l) (sparseImageGranularity format type)"
      using IH Suc.prems(1) by simp
    then show ?thesis
      using True first n by (simp add: less_Suc_eq)
  next
    case False
    then have "firstLod = f" unfolding first by (rule if_not_P)
    then show ?thesis using IH False by (auto simp: less_Suc_eq)
  qed
qed

text \<open>The exact numbers: the blocks that cover a level, and the bytes of the texels of a block.\<close>

definition exactBlocks :: "VkExtent3D \<Rightarrow> VkExtent3D \<Rightarrow> nat \<Rightarrow> nat" where
  "exactBlocks extent granularity level =
    cover (levelSize (unat (extWidth extent)) level) (unat (extWidth granularity))
    * cover (levelSize (unat (extHeight extent)) level) (unat (extHeight granularity))
    * cover (levelSize (unat (extDepth extent)) level) (unat (extDepth granularity))"

definition blockBytes :: "VkFormat \<Rightarrow> VkExtent3D \<Rightarrow> nat" where
  "blockBytes format granularity =
    (let block = formatBlockInfo format
     in (unat (extWidth granularity) div unat (blkWidth block)) * (unat (extHeight granularity) div unat (blkHeight block))
       * unat (extDepth granularity) * unat (blkBytes block))"

definition unit_fits :: "VkExtent3D \<Rightarrow> bool" where
  "unit_fits g \<longleftrightarrow> unat (extWidth g) \<in> {1..1024} \<and> unat (extHeight g) \<in> {1..1024} \<and> unat (extDepth g) \<in> {1..1024}"

lemma granularity_fits:
  "unit_fits (metalSparseImageGranularity format type)" "unit_fits (sparseImageGranularity format type)"
  by (simp_all add: unit_fits_def sparseImageGranularity_def metalSparseImageGranularity_def formatBlockInfo_def Let_def)

lemma unat_tiledBytes:
  assumes "extent_fits extent" "unit_fits g"
  shows "unat (tiledBytes (levelExtent extent level) g b) = sat64 (exactBlocks extent g level * unat b)"
proof -
  have "unat (blocksFor (max 1 (drop_bit level x)) u) = cover (levelSize (unat x) level) (unat u)"
    if "unat x + 1024 \<le> 2 ^ 32" "unat u \<in> {1..1024}" for x u :: u32
  proof -
    have "levelSize (unat x) level + unat u \<le> 2 ^ 32"
      using that levelSize_le [of "unat x" level] by auto
    then show ?thesis
      using that by (subst unat_blocksFor) (auto simp: unat_level)
  qed
  then show ?thesis
    using assms by (simp add: tiledBytes_def levelExtent_def sat_simps extent_fits_def unit_fits_def exactBlocks_def)
qed

lemma sparseLevels_bytes:
  assumes fits: "extent_fits extent"
    and "n \<le> unat mipLevels" "sparseLevels format type extent mipLevels n = (firstLod, tiled, tail)"
  shows "unat tiled = sat64 (\<Sum>l<min n (unat firstLod). exactBlocks extent (sparseImageGranularity format type) l * 65536)
    \<and> unat tail = sat64 (\<Sum>l\<in>{unat firstLod..<n}. exactBlocks extent (metalSparseImageGranularity format type) l * 16384)"
  using assms(2,3)
proof (induction n arbitrary: firstLod tiled tail)
  case 0
  then show ?case by simp
next
  case (Suc n)
  let ?g = "sparseImageGranularity format type" and ?m = "metalSparseImageGranularity format type"
  obtain f t u where prev: "sparseLevels format type extent mipLevels n = (f, t, u)"
    by (metis prod_cases3)
  have n: "unat (word_of_nat n :: u32) = n"
    using Suc.prems(1) unsigned_less [of mipLevels, where ?'a = nat] by (intro unat_word_of_nat32) simp
  have le: "n \<le> unat mipLevels" using Suc.prems(1) by simp
  note IH = Suc.IH [OF le prev] and first = sparseLevels_first [OF le prev]
  have step: "firstLod = (if f = mipLevels \<and> smallerThanBlock (levelExtent extent n) ?g then word_of_nat n else f)"
    "tiled = (if n < unat firstLod then clampedAdd t (tiledBytes (levelExtent extent n) ?g kSparseImageBlockBytes) else t)"
    "tail = (if n < unat firstLod then u
      else clampedAdd u (tiledBytes (levelExtent extent n) ?m kMetalSparseImageBlockBytes))"
    using Suc.prems(2) n by (auto simp: prev Let_def word_less_nat_alt split: if_splits)
  have early: "n < unat firstLod \<longleftrightarrow> firstLod = mipLevels \<and> f = mipLevels"
    using step(1) first n Suc.prems(1) by auto
  have same: "min n (unat f) = min n (unat firstLod)" "{unat f..<n} = {unat firstLod..<n}"
    using step(1) n le by (auto split: if_splits)
  show ?case
  proof (cases "n < unat firstLod")
    case True
    then have "min (Suc n) (unat firstLod) = Suc (min n (unat firstLod))" "{unat firstLod..<Suc n} = {}"
      "{unat firstLod..<n} = {}" "min n (unat firstLod) = n"
      by auto
    then show ?thesis
      using True step IH same by (simp add: sat_simps unat_tiledBytes [OF fits granularity_fits(2)] kSparseImageBlockBytes_def)
  next
    case False
    then have "min (Suc n) (unat firstLod) = min n (unat firstLod)"
      by auto
    then show ?thesis
      using False step IH same
      by (simp add: sat_simps unat_tiledBytes [OF fits granularity_fits(1)] kMetalSparseImageBlockBytes_def sum.op_ivl_Suc)
  qed
qed

text \<open>An aligned size that is not the largest value is exact.\<close>

lemma alignClamped_exact:
  assumes "alignment = 2 ^ k" "k < 64" "alignClamped v alignment \<noteq> UINT64_MAX"
  shows "unat v + 2 ^ k \<le> 2 ^ 64" "unat (alignClamped v alignment) = round_up (unat v) (2 ^ k)"
proof -
  have p: "unat alignment = 2 ^ k"
  proof -
    have "alignment = word_of_nat (2 ^ k)" by (simp add: assms(1))
    moreover have "(2 :: nat) ^ k < 2 ^ 64" using assms(2) by (rule power_strict_increasing) simp
    ultimately show ?thesis by (simp only: u64_unat_of_nat)
  qed
  then have m: "unat (alignment - 1) = 2 ^ k - 1" by (subst unat_minus_one) auto
  have "\<not> v > UINT64_MAX - (alignment - 1)"
    using assms(3) unfolding alignClamped_def by (metis (mono_tags))
  moreover have "unat (UINT64_MAX - (alignment - 1)) = 2 ^ 64 - 1 - (2 ^ k - 1)"
    using unat_minus_le [OF word_n1_ge, of "alignment - 1"] by (simp only: m unat_UINT64_MAX)
  moreover have "(2 :: nat) ^ k \<le> 2 ^ 64" "(1 :: nat) \<le> 2 ^ k" using power_increasing [of k 64 "2 :: nat"] assms(2) by simp_all
  ultimately show "unat v + 2 ^ k \<le> 2 ^ 64"
    unfolding word_less_nat_alt by linarith
  then show "unat (alignClamped v alignment) = round_up (unat v) (2 ^ k)"
    using assms by (intro unat_alignClamped)
qed

lemma known_block_bytes:
  assumes "bridgeImageFormat format \<noteq> 0"
  shows "blockBytes format (sparseImageGranularity format VK_IMAGE_TYPE_2D) = 65536"
    and "blockBytes format (metalSparseImageGranularity format VK_IMAGE_TYPE_2D) = 16384"
proof -
  have "format \<in> {37, 44, 137, 138, 141, 70, 91, 41, 38, 43, 109}"
    using assms unfolding bridgeImageFormat_def by (simp split: if_splits)
  then have "formatBlockInfo format \<in> {blk 1 1 1 4, blk 4 4 1 16, blk 1 1 1 2, blk 1 1 1 8, blk 1 1 1 16}"
    by (elim insertE emptyE) (simp_all add: formatBlockInfo_def)
  then consider "formatBlockInfo format = blk 1 1 1 4" | "formatBlockInfo format = blk 4 4 1 16"
    | "formatBlockInfo format = blk 1 1 1 2" | "formatBlockInfo format = blk 1 1 1 8" | "formatBlockInfo format = blk 1 1 1 16"
    by (elim insertE emptyE)
  note cases_block = this
  show "blockBytes format (sparseImageGranularity format VK_IMAGE_TYPE_2D) = 65536"
    by (cases rule: cases_block) (simp_all add: blockBytes_def sparseImageGranularity_def metalSparseImageGranularity_def Let_def word_le_nat_alt)
  show "blockBytes format (metalSparseImageGranularity format VK_IMAGE_TYPE_2D) = 16384"
    by (cases rule: cases_block) (simp_all add: blockBytes_def metalSparseImageGranularity_def Let_def word_le_nat_alt)
qed

text \<open>The layout of a sparse image, level by level.\<close>

lemma sparse_layout:
  assumes fits: "extent_fits extent" and known: "bridgeImageFormat format \<noteq> 0"
    and sparse: "createFlags AND VK_IMAGE_CREATE_SPARSE_RESIDENCY_BIT \<noteq> 0" and layers: "arrayLayers \<noteq> 0"
    and ok: "imageAllocationSize format VK_IMAGE_TYPE_2D extent mipLevels arrayLayers samples createFlags \<noteq> UINT64_MAX"
    and r: "r = sparseImageRequirements format VK_IMAGE_TYPE_2D extent mipLevels arrayLayers"
  shows "blockBytes format (imageGranularity r) = unat kSparseImageBlockBytes
    \<and> blockBytes format (metalSparseImageGranularity format VK_IMAGE_TYPE_2D) = unat kMetalSparseImageBlockBytes
    \<and> (\<forall>l < min (unat mipLevels) (unat (imageMipTailFirstLod r)).
         \<not> smallerThanBlock (levelExtent extent l) (imageGranularity r))
    \<and> (imageMipTailFirstLod r \<noteq> mipLevels \<longrightarrow>
         smallerThanBlock (levelExtent extent (unat (imageMipTailFirstLod r))) (imageGranularity r))
    \<and> (\<Sum>l < min (unat mipLevels) (unat (imageMipTailFirstLod r)).
          exactBlocks extent (imageGranularity r) l * unat kSparseImageBlockBytes) * unat arrayLayers
        \<le> unat (imageMipTailOffset r)
    \<and> (\<Sum>l \<in> {unat (imageMipTailFirstLod r)..<unat mipLevels}.
          exactBlocks extent (metalSparseImageGranularity format VK_IMAGE_TYPE_2D) l * unat kMetalSparseImageBlockBytes)
        \<le> unat (imageMipTailSize r)
    \<and> unat (imageMipTailOffset r) + unat (imageMipTailStride r) * (unat arrayLayers - 1) + unat (imageMipTailSize r)
        = unat (imageAllocationSize format VK_IMAGE_TYPE_2D extent mipLevels arrayLayers samples createFlags)"
proof -
  let ?g = "sparseImageGranularity format VK_IMAGE_TYPE_2D" and ?m = "metalSparseImageGranularity format VK_IMAGE_TYPE_2D"
  obtain f t u where run: "sparseLevels format VK_IMAGE_TYPE_2D extent mipLevels (unat mipLevels) = (f, t, u)"
    by (metis prod_cases3)
  have r': "imageGranularity r = ?g" "imageMipTailFirstLod r = f"
    "imageMipTailSize r = (if f < mipLevels then alignClamped (max u 1) kSparseImageBlockBytes else 0)"
    "imageMipTailOffset r = alignClamped (clampedMultiply t (ucast arrayLayers)) kSparseImageBlockBytes"
    "imageMipTailStride r = imageMipTailSize r"
    by (simp_all add: r sparseImageRequirements_def run Let_def)
  have size: "imageAllocationSize format VK_IMAGE_TYPE_2D extent mipLevels arrayLayers samples createFlags
      = (if imageMipTailSize r = 0 then imageMipTailOffset r
         else clampedAdd (imageMipTailOffset r)
           (clampedAdd (clampedMultiply (imageMipTailStride r) (ucast (arrayLayers - 1))) (imageMipTailSize r)))"
    using sparse layers by (simp add: imageAllocationSize_def Let_def r word_gt_0)
  note first = sparseLevels_first [OF order_refl run] and bytes = sparseLevels_bytes [OF fits order_refl run]
  have less: "f < mipLevels \<longleftrightarrow> f \<noteq> mipLevels"
    using first by (auto simp: word_less_nat_alt)
  have block: "kSparseImageBlockBytes = 2 ^ 16" by (simp add: kSparseImageBlockBytes_def)
  have one: "unat (ucast (arrayLayers - 1) :: u64) = unat arrayLayers - 1"
    using layers by (simp only: unat_ucast32) (rule unat_minus_one)
  have offset: "imageMipTailOffset r \<noteq> UINT64_MAX"
  proof
    assume full: "imageMipTailOffset r = UINT64_MAX"
    then have "unat (imageAllocationSize format VK_IMAGE_TYPE_2D extent mipLevels arrayLayers samples createFlags) = 2 ^ 64 - 1"
      unfolding size by (auto simp: sat_simps unat_UINT64_MAX sat64_def simp del: sat64_add)
    then show False using ok unat_UINT64_MAX by (metis word_unat_eq_iff)
  qed
  have exact_offset: "unat (imageMipTailOffset r) = round_up (sat64 (unat t * unat arrayLayers)) 65536"
    "sat64 (unat t * unat arrayLayers) = unat t * unat arrayLayers"
    using alignClamped_exact [OF block _ offset [unfolded r'(4)]] unfolding r'(4)
    by (simp_all add: sat_simps unat_ucast32) (simp add: sat64_def min_def split: if_splits)
  have tiled: "(\<Sum>l < min (unat mipLevels) (unat f). exactBlocks extent ?g l * 65536) * unat arrayLayers
      \<le> unat (imageMipTailOffset r)"
  proof -
    have "unat t * 1 \<le> unat t * unat arrayLayers"
      using layers by (intro mult_le_mono2) (simp add: Suc_le_eq unat_gt_0)
    moreover have "unat t * unat arrayLayers \<le> 2 ^ 64 - 65536"
      using alignClamped_exact(1) [OF block _ offset [unfolded r'(4)]] exact_offset(2) by (simp add: sat_simps unat_ucast32)
    ultimately have "unat t = (\<Sum>l < min (unat mipLevels) (unat f). exactBlocks extent ?g l * 65536)"
      using bytes by (auto simp: sat64_def min_def split: if_splits)
    then show ?thesis
      using exact_offset round_up_ge [of 65536 "unat t * unat arrayLayers"] by (simp del: sum.lessThan_Suc)
  qed
  have tails: "(\<Sum>l \<in> {unat f..<unat mipLevels}. exactBlocks extent ?m l * 16384) \<le> unat (imageMipTailSize r)
    \<and> unat (imageMipTailOffset r) + unat (imageMipTailStride r) * (unat arrayLayers - 1) + unat (imageMipTailSize r)
        = unat (imageAllocationSize format VK_IMAGE_TYPE_2D extent mipLevels arrayLayers samples createFlags)"
  proof (cases "f < mipLevels")
    case False
    then show ?thesis using less size by (simp add: r'(3,5))
  next
    case True
    have full: "x \<noteq> UINT64_MAX" if "unat x < 2 ^ 64 - 1" for x
      using that unat_UINT64_MAX by auto
    let ?tail = "alignClamped (max u 1) kSparseImageBlockBytes"
    have tail: "imageMipTailSize r = ?tail" using True by (simp add: r'(3))
    have nonzero: "?tail \<noteq> 0"
    proof
      assume zero: "?tail = 0"
      then have "unat ?tail = round_up (unat (max u 1)) (2 ^ 16)"
        using block by (intro alignClamped_exact) simp_all
      then have "unat (max u 1) \<le> 0"
        using round_up_ge [of "2 ^ 16" "unat (max u 1)"] zero by simp
      then show False by (simp add: max_def word_le_nat_alt split: if_splits)
    qed
    have "unat (imageAllocationSize format VK_IMAGE_TYPE_2D extent mipLevels arrayLayers samples createFlags)
        = sat64 (unat (imageMipTailOffset r) + (unat ?tail * (unat arrayLayers - 1) + unat ?tail))"
      unfolding size using nonzero by (simp add: tail r'(5) sat_simps one)
    moreover have "unat (imageAllocationSize format VK_IMAGE_TYPE_2D extent mipLevels arrayLayers samples createFlags) \<noteq> 2 ^ 64 - 1"
      using ok unat_UINT64_MAX by (metis word_unat_eq_iff)
    ultimately have sum: "unat (imageAllocationSize format VK_IMAGE_TYPE_2D extent mipLevels arrayLayers samples createFlags)
        = unat (imageMipTailOffset r) + (unat ?tail * (unat arrayLayers - 1) + unat ?tail)"
      and "unat ?tail < 2 ^ 64 - 1"
      by (simp_all add: sat64_def min_def split: if_splits)
    then have "?tail \<noteq> UINT64_MAX" using full by blast
    then have ex: "unat (max u 1) + 65536 \<le> 2 ^ 64" "unat ?tail = round_up (unat (max u 1)) 65536"
      using alignClamped_exact [OF block, of "max u 1"] by simp_all
    have "unat u \<le> unat (max u 1)" by (simp flip: word_le_nat_alt)
    then have "(\<Sum>l \<in> {unat f..<unat mipLevels}. exactBlocks extent ?m l * 16384) \<le> unat ?tail"
      using ex round_up_ge [of 65536 "unat (max u 1)"] bytes by (auto simp: sat64_def min_def split: if_splits)
    then show ?thesis using sum by (simp add: tail r'(5))
  qed
  show ?thesis
    using known_block_bytes [OF known] first tiled tails
    by (simp add: r'(1,2) kSparseImageBlockBytes_def kMetalSparseImageBlockBytes_def)
qed

text \<open>C14: A sparse image of a format the host knows: a block of its granularity holds exactly 64 KiB and
  one of Metal's 16 KiB; no level before the mip tail is smaller than a block and the first level of the
  tail is; the tails lie behind the blocks of all the layers, one after the other, and the last one ends
  at the allocation size, when that is not the largest value.\<close>

lemma sparse_image_layout:
  assumes fits: "extent_fits extent" and known: "bridgeImageFormat format \<noteq> 0"
    and sparse: "createFlags AND VK_IMAGE_CREATE_SPARSE_RESIDENCY_BIT \<noteq> 0" and layers: "arrayLayers \<noteq> 0"
    and ok: "imageAllocationSize format VK_IMAGE_TYPE_2D extent mipLevels arrayLayers samples createFlags \<noteq> UINT64_MAX"
    and r: "r = sparseImageRequirements format VK_IMAGE_TYPE_2D extent mipLevels arrayLayers"
  shows "blockBytes format (imageGranularity r) = unat kSparseImageBlockBytes
    \<and> blockBytes format (metalSparseImageGranularity format VK_IMAGE_TYPE_2D) = unat kMetalSparseImageBlockBytes
    \<and> (\<forall>l < min (unat mipLevels) (unat (imageMipTailFirstLod r)).
         \<not> smallerThanBlock (levelExtent extent l) (imageGranularity r))
    \<and> (imageMipTailFirstLod r \<noteq> mipLevels \<longrightarrow>
         smallerThanBlock (levelExtent extent (unat (imageMipTailFirstLod r))) (imageGranularity r))
    \<and> (\<Sum>l < min (unat mipLevels) (unat (imageMipTailFirstLod r)).
          exactBlocks extent (imageGranularity r) l * unat kSparseImageBlockBytes) * unat arrayLayers
        \<le> unat (imageMipTailOffset r)
    \<and> (\<Sum>l \<in> {unat (imageMipTailFirstLod r)..<unat mipLevels}.
          exactBlocks extent (metalSparseImageGranularity format VK_IMAGE_TYPE_2D) l * unat kMetalSparseImageBlockBytes)
        \<le> unat (imageMipTailSize r)
    \<and> unat (imageMipTailOffset r) + unat (imageMipTailStride r) * (unat arrayLayers - 1) + unat (imageMipTailSize r)
        = unat (imageAllocationSize format VK_IMAGE_TYPE_2D extent mipLevels arrayLayers samples createFlags)"
  by (rule sparse_layout [OF assms])

lemma sparse_image_layout_witness:
  "unat (imageMipTailOffset (sparseImageRequirements VK_FORMAT_R8G8B8A8_UNORM VK_IMAGE_TYPE_2D (extent3 200 200 1) 2 1))
     + 65536 = unat (imageAllocationSize VK_FORMAT_R8G8B8A8_UNORM VK_IMAGE_TYPE_2D (extent3 200 200 1) 2 1 1 2)"
proof -
  let ?e = "extent3 200 200 1"
  have m: "metalSparseImageGranularity VK_FORMAT_R8G8B8A8_UNORM VK_IMAGE_TYPE_2D = extent3 64 64 1"
    by (simp add: metalSparseImageGranularity_def formatBlockInfo_def Let_def word_le_nat_alt)
  then have g: "sparseImageGranularity VK_FORMAT_R8G8B8A8_UNORM VK_IMAGE_TYPE_2D = extent3 128 128 1"
    by (simp add: sparseImageGranularity_def)
  have l0: "levelExtent ?e 0 = ?e" and l1: "levelExtent ?e (Suc 0) = extent3 100 100 1"
    by (simp_all add: levelExtent_def max_def word_le_nat_alt unat_UINT64_MAX)
  have t0: "tiledBytes ?e (extent3 128 128 1) kSparseImageBlockBytes = 262144"
    and t1: "tiledBytes (extent3 100 100 1) (extent3 64 64 1) kMetalSparseImageBlockBytes = 65536"
    by (simp_all add: tiledBytes_def blocksFor_def clampedMultiply_def kSparseImageBlockBytes_def
        kMetalSparseImageBlockBytes_def word_less_nat_alt unat_UINT64_MAX)
  have "sparseLevels VK_FORMAT_R8G8B8A8_UNORM VK_IMAGE_TYPE_2D ?e 2 (Suc (Suc 0)) = (1, 262144, 65536)"
    by (simp add: m g l0 l1 t0 t1 smallerThanBlock_def clampedAdd_def word_less_nat_alt unat_UINT64_MAX)
  then have r: "sparseImageRequirements VK_FORMAT_R8G8B8A8_UNORM VK_IMAGE_TYPE_2D ?e 2 1
    = \<lparr>aspectMask = 1, imageGranularity = extent3 128 128 1, imageMipTailFirstLod = 1, imageMipTailSize = 65536,
       imageMipTailOffset = 262144, imageMipTailStride = 65536\<rparr>"
    by (simp add: sparseImageRequirements_def numeral_2_eq_2 [symmetric] g formatAspectMask_def clampedMultiply_def
        alignClamped_def kSparseImageBlockBytes_def word_less_nat_alt max_def word_le_nat_alt unat_UINT64_MAX)
  then have "imageAllocationSize VK_FORMAT_R8G8B8A8_UNORM VK_IMAGE_TYPE_2D ?e 2 1 1 2 \<noteq> UINT64_MAX"
    by (simp add: imageAllocationSize_def clampedMultiply_def clampedAdd_def)
  then show ?thesis
    using sparse_image_layout [OF _ _ _ _ _ refl, of ?e VK_FORMAT_R8G8B8A8_UNORM 2 1 2 1]
    by (simp add: extent_fits_def bridgeImageFormat_def r)
qed

section \<open>The subresources of an image\<close>

lemma cover_blocks:
  assumes "u dvd g" "0 < g"
  shows "cover n u \<le> cover n g * (g div u)"
proof -
  have u: "0 < u" using assms by (auto intro!: Nat.gr0I)
  have "n \<le> cover n g * g"
    using round_up_ge [OF assms(2), of n] by (simp add: round_up_def cover_def)
  also have "\<dots> = cover n g * (g div u) * u" using assms(1) by simp
  finally have "(n + u - 1) div u \<le> (cover n g * (g div u) * u + (u - 1)) div u"
    using u by (intro div_le_mono) simp
  also have "\<dots> = cover n g * (g div u)" using u by (simp only: div_mult_self3) simp
  finally show ?thesis by (simp only: cover_def)
qed

text \<open>The blocks that cover a level hold at least its bytes.\<close>

lemma exactLevelBytes_blocks:
  assumes "unit_fits g" and "unat (blkWidth (formatBlockInfo format)) dvd unat (extWidth g)"
    and "unat (blkHeight (formatBlockInfo format)) dvd unat (extHeight g)"
  shows "exactLevelBytes format extent l \<le> exactBlocks extent g l * blockBytes format g"
proof -
  let ?b = "formatBlockInfo format" and ?x = "levelSize (unat (extWidth extent)) l"
  let ?y = "levelSize (unat (extHeight extent)) l" and ?z = "levelSize (unat (extDepth extent)) l"
  have pos: "0 < unat (extWidth g)" "0 < unat (extHeight g)" "0 < unat (extDepth g)"
    using assms(1) by (auto simp: unit_fits_def)
  have "cover ?x (unat (blkWidth ?b)) * cover ?y (unat (blkHeight ?b)) * cover ?z (unat (blkDepth ?b)) * unat (blkBytes ?b)
    \<le> (cover ?x (unat (extWidth g)) * (unat (extWidth g) div unat (blkWidth ?b)))
      * (cover ?y (unat (extHeight g)) * (unat (extHeight g) div unat (blkHeight ?b)))
      * (cover ?z (unat (extDepth g)) * unat (extDepth g)) * unat (blkBytes ?b)"
    using cover_blocks [OF assms(2) pos(1)] cover_blocks [OF assms(3) pos(2)] cover_blocks [OF one_dvd pos(3), of ?z]
    by (intro mult_le_mono) (simp_all add: block_dimensions(3))
  then show ?thesis by (simp only: exactLevelBytes_def exactBlocks_def blockBytes_def Let_def ac_simps)
qed

lemma granularity_blocks:
  assumes "g \<in> {sparseImageGranularity format type, metalSparseImageGranularity format type}"
  shows "unat (blkWidth (formatBlockInfo format)) dvd unat (extWidth g)"
    and "unat (blkHeight (formatBlockInfo format)) dvd unat (extHeight g)"
proof -
  let ?b = "formatBlockInfo format"
  have d: "blkWidth ?b \<in> {1, 4}" "blkHeight ?b \<in> {1, 4}" by (simp_all add: formatBlockInfo_def)
  show "unat (blkWidth ?b) dvd unat (extWidth g)"
    using assms d(1) by (auto simp: sparseImageGranularity_def metalSparseImageGranularity_def Let_def)
  show "unat (blkHeight ?b) dvd unat (extHeight g)"
    using assms d(2) by (auto simp: sparseImageGranularity_def metalSparseImageGranularity_def Let_def)
qed

text \<open>A sparse image has room for the bytes of all its levels and layers.\<close>

lemma sparse_allocation_holds:
  assumes fits: "extent_fits extent" and known: "bridgeImageFormat format \<noteq> 0"
    and sparse: "createFlags AND VK_IMAGE_CREATE_SPARSE_RESIDENCY_BIT \<noteq> 0" and layers: "arrayLayers \<noteq> 0"
    and ok: "imageAllocationSize format VK_IMAGE_TYPE_2D extent mipLevels arrayLayers samples createFlags \<noteq> UINT64_MAX"
  shows "exactBytes format extent (unat mipLevels) * unat arrayLayers
    \<le> unat (imageAllocationSize format VK_IMAGE_TYPE_2D extent mipLevels arrayLayers samples createFlags)"
proof -
  let ?g = "sparseImageGranularity format VK_IMAGE_TYPE_2D" and ?m = "metalSparseImageGranularity format VK_IMAGE_TYPE_2D"
  obtain r where r: "r = sparseImageRequirements format VK_IMAGE_TYPE_2D extent mipLevels arrayLayers" by blast
  have g: "imageGranularity r = ?g" and stride: "imageMipTailStride r = imageMipTailSize r"
    by (simp_all add: r sparseImageRequirements_def Let_def split: prod.split)
  note layout = sparse_layout [OF fits known sparse layers ok r, unfolded g]
  let ?f = "min (unat mipLevels) (unat (imageMipTailFirstLod r))" and ?n = "unat mipLevels"
  let ?tiled = "\<Sum>l < ?f. exactBlocks extent ?g l * unat kSparseImageBlockBytes"
  let ?tail = "\<Sum>l \<in> {unat (imageMipTailFirstLod r)..<?n}. exactBlocks extent ?m l * unat kMetalSparseImageBlockBytes"
  have b: "blockBytes format ?g = unat kSparseImageBlockBytes" "blockBytes format ?m = unat kMetalSparseImageBlockBytes"
    using layout by blast+
  have dvds: "unat (blkWidth (formatBlockInfo format)) dvd unat (extWidth x)"
    "unat (blkHeight (formatBlockInfo format)) dvd unat (extHeight x)" if "x \<in> {?g, ?m}" for x
    using granularity_blocks [OF that] by blast+
  have split: "{..<?n} = {..<?f} \<union> {unat (imageMipTailFirstLod r)..<?n}" by auto
  have "exactBytes format extent ?n \<le> ?tiled + ?tail"
    unfolding exactBytes_def split
    by (subst sum.union_disjoint)
      (auto intro!: add_mono sum_mono exactLevelBytes_blocks granularity_fits dvds simp flip: b)
  then have "exactBytes format extent ?n * unat arrayLayers \<le> (?tiled + ?tail) * unat arrayLayers"
    by (rule mult_le_mono1)
  also have "\<dots> = ?tiled * unat arrayLayers + ?tail * unat arrayLayers" by (rule add_mult_distrib)
  also have "\<dots> \<le> unat (imageMipTailOffset r) + unat (imageMipTailSize r) * unat arrayLayers"
    using layout by (intro add_mono mult_le_mono1) blast+
  also have "unat (imageMipTailSize r) * unat arrayLayers
      = unat (imageMipTailStride r) * (unat arrayLayers - 1) + unat (imageMipTailSize r)"
    using layers unfolding stride by (cases "unat arrayLayers") (simp_all add: unat_eq_0)
  finally show ?thesis using layout by (simp add: add.assoc)
qed

text \<open>C13: In an image whose allocation size the driver accepts (it is not the largest value) every subresource lies
  inside the allocation, and two different subresources do not overlap. An image with sparse residency is of the kind the
  driver creates: two-dimensional, of a format the host knows. The extent is one whose rounding to blocks stays inside
  32 bits.\<close>

lemma subresources_apart:
  assumes "extent_fits extent"
    and "createFlags AND VK_IMAGE_CREATE_SPARSE_RESIDENCY_BIT = 0 \<or> type = VK_IMAGE_TYPE_2D \<and> bridgeImageFormat format \<noteq> 0"
    and "samples \<noteq> 0"
    and "imageAllocationSize format type extent mipLevels arrayLayers samples createFlags \<noteq> UINT64_MAX"
    and "mip < mipLevels" "layer < arrayLayers" "mip' < mipLevels" "layer' < arrayLayers"
  shows "subresourceRange format extent mipLevels (mip, layer)
      \<subseteq> {..< unat (imageAllocationSize format type extent mipLevels arrayLayers samples createFlags)}
    \<and> ((mip, layer) \<noteq> (mip', layer') \<longrightarrow>
        subresourceRange format extent mipLevels (mip, layer)
          \<inter> subresourceRange format extent mipLevels (mip', layer') = {})"
proof -
  let ?f = "exactBytes format extent"
  have size: "?f (unat mipLevels) * unat arrayLayers
      \<le> unat (imageAllocationSize format type extent mipLevels arrayLayers samples createFlags)"
  proof (cases "createFlags AND VK_IMAGE_CREATE_SPARSE_RESIDENCY_BIT = 0")
    case True
    have "?f (unat mipLevels) * unat arrayLayers \<le> ?f (unat mipLevels) * unat arrayLayers * unat samples"
      using assms(3) by (simp add: Suc_le_eq unat_gt_0)
    also have "\<dots> \<le> unat (imageAllocationSize format type extent mipLevels arrayLayers samples createFlags)"
      unfolding imageAllocationSize_exact(2) [OF assms(1) True assms(4)]
      using round_up_ge [of 256 "max (?f (unat mipLevels) * unat arrayLayers * unat samples) 1"] by linarith
    finally show ?thesis .
  next
    case False
    have "arrayLayers \<noteq> 0" using assms(6) by auto
    then show ?thesis using sparse_allocation_holds [OF assms(1) _ False] assms(2,4) False by auto
  qed
  then have bytes: "?f (unat mipLevels) * unat arrayLayers < 2 ^ 64"
    using u64_unat_less by (rule le_less_trans)
  note range = subresourceRange_exact [OF assms(1) bytes]
  have "subresourceRange format extent mipLevels (mip, layer)
      \<subseteq> {..< unat (imageAllocationSize format type extent mipLevels arrayLayers samples createFlags)}"
    using range [OF assms(5,6)] size by fastforce
  moreover have "subresourceRange format extent mipLevels (mip, layer)
      \<inter> subresourceRange format extent mipLevels (mip', layer') = {}" if "(mip, layer) \<noteq> (mip', layer')"
    unfolding range(1) [OF assms(5,6)] range(1) [OF assms(7,8)]
    using assms(5,7) that by (intro layered_ranges_disjoint) (auto simp: exactBytes_mono word_less_nat_alt word_unat_eq_iff)
  ultimately show ?thesis by blast
qed

lemma subresources_apart_witness:
  "subresourceRange VK_FORMAT_R8G8B8A8_UNORM (extent3 4 4 1) 2 (0, 0)
    \<inter> subresourceRange VK_FORMAT_R8G8B8A8_UNORM (extent3 4 4 1) 2 (1, 0) = {}"
proof -
  have "addLevels VK_FORMAT_R8G8B8A8_UNORM (extent3 4 4 1) 0 (Suc (Suc 0)) = 80"
    by (simp add: mipByteSize_def levelExtent_def formatBlockInfo_def blocksFor_def clampedMultiply_def clampedAdd_def)
  then have "imageAllocationSize VK_FORMAT_R8G8B8A8_UNORM VK_IMAGE_TYPE_2D (extent3 4 4 1) 2 1 1 0 \<noteq> UINT64_MAX"
    by (simp add: imageAllocationSize_def Let_def clampedMultiply_def alignClamped_def numeral_2_eq_2 [symmetric])
  then show ?thesis
    using subresources_apart [of "extent3 4 4 1" 0 1 VK_FORMAT_R8G8B8A8_UNORM VK_IMAGE_TYPE_2D 2 1 0 0 1 0]
    by (simp add: extent_fits_def)
qed

end
