(* ===== verification/VkState.thy ===== *)
theory VkState
  imports VkFormat CudaExternal
begin

text \<open>
  The state of the Vulkan driver, \<^verbatim>\<open>struct DriverState\<close> of
  \<^verbatim>\<open>src/guest/vulkan_icd/imb_vulkan_icd.cpp\<close>, with the objects its registries hold.

  \<^item> A registry and the objects it points to are one map from pointers: every operation that takes an
    object out of its registry deletes it, and none deletes a registered one. A pointer that an
    object keeps may outlive its target; using it then sets the ghost \<open>vk_broken\<close>, which nothing reads.
    The buffers, which the code searches one after the other, are an association list.
  \<^item> \<open>os\<close> is the process around the driver: its open files and their bytes, together with
    the state of the CUDA library of \<^theory_text>\<open>CudaState\<close>, which lives in the same process and shares file descriptors
    with the driver. The Vulkan driver changes only the file table, the bytes of files and the log of calls.
  \<^item> \<open>ioAnswers\<close> is what the next calls of \<^verbatim>\<open>pread\<close> and \<^verbatim>\<open>pwrite\<close> answer (after the last answer a call
    fails), \<open>allocAnswers\<close> what \<^verbatim>\<open>new (std::nothrow)\<close> answers; null or a live address counts as
    "out of memory".
  \<^item> \<open>vkBridge\<close> is the connection to the host, \<^theory_text>\<open>None\<close> for the null pointer.

  The lock is held during each call, so calls run one after the other. Tracing is left out, and so are
  failures of the standard containers. A chain of \<^verbatim>\<open>pNext\<close> structures is a list.
\<close>

datatype VkResult = VK_SUCCESS | VK_NOT_READY | VK_TIMEOUT
  | VK_ERROR_OUT_OF_HOST_MEMORY | VK_ERROR_OUT_OF_DEVICE_MEMORY | VK_ERROR_INITIALIZATION_FAILED
  | VK_ERROR_DEVICE_LOST | VK_ERROR_MEMORY_MAP_FAILED | VK_ERROR_FEATURE_NOT_PRESENT
  | VK_ERROR_TOO_MANY_OBJECTS | VK_ERROR_FORMAT_NOT_SUPPORTED | VK_ERROR_INVALID_EXTERNAL_HANDLE
  | VK_ERROR_OUT_OF_POOL_MEMORY

abbreviation (input) VK_WHOLE_SIZE :: u64 where "VK_WHOLE_SIZE \<equiv> - 1"

section \<open>Memory, buffers and images\<close>

record DeviceMemoryState =
  mem_device :: ptr
  mem_size :: u64
  mem_resourceID :: u64
  mem_bytes :: bytes
  mapped :: bool
  mappedOffset :: u64
  mappedSize :: u64
  mapReferenceCount :: u32
  dirtyOffset :: u64
  dirtyEnd :: u64
  mem_exportHandleTypes :: u32
  mem_externalFD :: fd

definition new_memory :: DeviceMemoryState where
  "new_memory = \<lparr>mem_device = 0, mem_size = 0, mem_resourceID = 0, mem_bytes = [], mapped = False,
     mappedOffset = 0, mappedSize = 0, mapReferenceCount = 0, dirtyOffset = VK_WHOLE_SIZE, dirtyEnd = 0,
     mem_exportHandleTypes = 0, mem_externalFD = -1\<rparr>"

record SparseBufferBinding =
  resourceOffset :: u64
  bindingSize :: u64
  bindingMemory :: ptr
  bindingMemoryOffset :: u64
  bindingFlags :: u32

text \<open>\<^verbatim>\<open>SparseImageOpaqueBinding\<close> has the same members.\<close>

type_synonym SparseImageOpaqueBinding = SparseBufferBinding

record VkImageSubresource =
  sub_aspectMask :: u32
  sub_mipLevel :: u32
  sub_arrayLayer :: u32

record VkOffset3D =
  offX :: "32 word"
  offY :: "32 word"
  offZ :: "32 word"

record SparseImageBinding =
  ib_subresource :: VkImageSubresource
  ib_offset :: VkOffset3D
  ib_extent :: VkExtent3D
  ib_memory :: ptr
  ib_memoryOffset :: u64
  ib_flags :: u32

record BufferState =
  buf_device :: ptr
  buf_size :: u64
  buf_usage :: u32
  buf_flags :: u32
  buf_memory :: ptr
  buf_memoryOffset :: u64
  deviceAddress :: u64
  buf_sparseBindings :: "SparseBufferBinding list"

record ImageState =
  img_device :: ptr
  img_extent :: VkExtent3D
  img_format :: VkFormat
  img_usage :: u32
  img_flags :: u32
  img_type :: u32
  img_tiling :: u32
  img_samples :: u32
  img_mipLevels :: u32
  img_arrayLayers :: u32
  img_size :: u64
  img_resourceID :: u64
  img_memory :: ptr
  img_memoryOffset :: u64
  sparseBytes :: bytes
  sparseGranularity :: VkExtent3D
  sparseTileBytes :: u64
  metalSparseGranularity :: VkExtent3D
  metalSparseTileBytes :: u64
  initializedSubresources :: "bool list"
  img_sparseBindings :: "SparseImageBinding list"
  sparseOpaqueBindings :: "SparseImageOpaqueBinding list"
  storageDescriptorSequence :: u64
  img_dirty :: bool

section \<open>Views, samplers, shaders, pipelines and descriptors\<close>

record BufferViewState =
  bv_device :: ptr
  bv_buffer :: ptr
  bv_format :: VkFormat
  bv_offset :: u64
  bv_range :: u64

record ImageViewState =
  iv_device :: ptr
  iv_image :: ptr

text \<open>The floating point members are their bits.\<close>

record SamplerState =
  smp_device :: ptr
  magFilter :: u32
  minFilter :: u32
  mipmapMode :: u32
  addressModeU :: u32
  addressModeV :: u32
  addressModeW :: u32
  mipLodBias :: u32
  anisotropyEnable :: u32
  maxAnisotropy :: u32
  compareEnable :: u32
  compareOp :: u32
  minLod :: u32
  maxLod :: u32
  borderColor :: u32
  unnormalizedCoordinates :: u32

record ShaderModuleState =
  sh_device :: ptr
  sh_isAddUInt32 :: bool
  isTriangleVertex :: bool
  isTriangleFragment :: bool
  sh_usesFloat64Matrix :: bool
  sh_hash :: u64
  sh_code :: "u32 list"

record VkDescriptorSetLayoutBinding =
  layout_binding :: u32
  layout_descriptorType :: u32
  layout_descriptorCount :: u32
  layout_stageFlags :: u32

record DescriptorSetLayoutState =
  dsl_device :: ptr
  dsl_bindings :: "VkDescriptorSetLayoutBinding list"

record VkPushConstantRange =
  range_stageFlags :: u32
  range_offset :: u32
  range_size :: u32

record PipelineLayoutState =
  pl_device :: ptr
  setLayouts :: "ptr list"
  pushConstantRanges :: "VkPushConstantRange list"

record RenderPassState =
  rp_device :: ptr
  colorFormat :: VkFormat

record FramebufferState =
  fb_device :: ptr
  fb_renderPass :: ptr
  colorImage :: ptr
  fb_width :: u32
  fb_height :: u32

text \<open>A pipeline, without what ray tracing pipelines use.\<close>

record PipelineState =
  pipe_device :: ptr
  pipe_layout :: ptr
  isAddUInt32 :: bool
  usesFloat64Matrix :: bool
  requiresSoftwareFloat64Execution :: bool
  computeHash :: u64
  bridgeComputePipelineID :: u64
  graphics :: bool
  isFixedTriangle :: bool
  isKitUI :: bool

record DescriptorPoolState =
  dp_device :: ptr
  maxSets :: u32
  allocatedSets :: u32

record BufferBinding =
  bb_buffer :: ptr
  bb_offset :: u64
  bb_range :: u64
  bb_type :: u32
  bb_format :: VkFormat

record ImageBinding =
  imb_image :: ptr
  imb_type :: u32

text \<open>The unordered maps are association lists; the code leaves the order of an iteration over them open.\<close>

record DescriptorSetState =
  ds_device :: ptr
  ds_pool :: ptr
  ds_layout :: ptr
  ds_buffer :: ptr
  ds_offset :: u64
  ds_range :: u64
  sampledImages :: "(u32 \<times> ptr) list"
  storageImages :: "(u64 \<times> ptr) list"
  ds_accelerationStructuresKHR :: "(u64 \<times> ptr) list"
  computeBuffers :: "(u64 \<times> BufferBinding) list"
  computeImages :: "(u64 \<times> ImageBinding) list"
  computeSamplers :: "(u64 \<times> ptr) list"

text \<open>Without the bounds of the triangles, which only the fallback for scenes uses.\<close>

record AccelerationStructureKHRState =
  acc_device :: ptr
  acc_buffer :: ptr
  acc_offset :: u64
  acc_size :: u64
  acc_type :: u32
  acc_deviceAddress :: u64
  bridgeResourceID :: u64
  triangleCount :: u64
  acc_built :: bool
  builtFromSceneState :: bool

section \<open>Synchronization objects\<close>

record FenceState =
  fence_device :: ptr
  bridgeFenceID :: u64
  resultMemory :: ptr
  resultImage :: ptr
  submitted :: bool
  fence_signaled :: bool

definition new_fence :: FenceState where
  "new_fence = \<lparr>fence_device = 0, bridgeFenceID = 0, resultMemory = 0, resultImage = 0,
     submitted = False, fence_signaled = False\<rparr>"

record SemaphoreState =
  sem_device :: ptr
  sem_signaled :: bool
  timeline :: bool
  sem_value :: u64
  sem_exportHandleTypes :: u32
  sem_externalFD :: fd

definition new_semaphore :: SemaphoreState where
  "new_semaphore = \<lparr>sem_device = 0, sem_signaled = False, timeline = False, sem_value = 0,
     sem_exportHandleTypes = 0, sem_externalFD = -1\<rparr>"

record QueryPoolState =
  pool_device :: ptr
  pool_type :: u32
  pool_count :: u32
  pipelineStatistics :: u32
  pool_values :: "u64 list"
  pool_available :: "bool list"

section \<open>Recorded commands\<close>

record VkBufferCopy =
  srcOffset :: u64
  dstOffset :: u64
  copySize :: u64

record VkImageSubresourceLayers =
  lay_aspectMask :: u32
  lay_mipLevel :: u32
  baseArrayLayer :: u32
  layerCount :: u32

record VkImageSubresourceRange =
  rng_aspectMask :: u32
  baseMipLevel :: u32
  levelCount :: u32
  rng_baseArrayLayer :: u32
  rng_layerCount :: u32

record VkImageCopy =
  srcSubresource :: VkImageSubresourceLayers
  icSrcOffset :: VkOffset3D
  dstSubresource :: VkImageSubresourceLayers
  icDstOffset :: VkOffset3D
  icExtent :: VkExtent3D

record VkBufferImageCopy =
  bufferOffset :: u64
  bufferRowLength :: u32
  bufferImageHeight :: u32
  imageSubresource :: VkImageSubresourceLayers
  imageOffset :: VkOffset3D
  imageExtent :: VkExtent3D

text \<open>What the sequence number is stored with; the pointers are those of the registries. The clear
  color is the four words of the union. The geometries of an acceleration structure build are the words of
  the structures of the interface.\<close>

record RecordedBufferCopy =
  bc_sequence :: u64
  bc_source :: ptr
  bc_destination :: ptr
  bc_regions :: "VkBufferCopy list"

record RecordedBufferUpdate =
  bu_sequence :: u64
  bu_destination :: ptr
  bu_offset :: u64
  bu_data :: bytes

record RecordedBufferFill =
  bf_sequence :: u64
  bf_destination :: ptr
  bf_offset :: u64
  bf_size :: u64
  bf_data :: u32

record RecordedImageClear =
  cl_sequence :: u64
  cl_image :: ptr
  cl_color :: "u32 list"
  cl_ranges :: "VkImageSubresourceRange list"

record RecordedImageCopy =
  ic_sequence :: u64
  ic_source :: ptr
  ic_destination :: ptr
  ic_regions :: "VkImageCopy list"

record RecordedBufferToImageCopy =
  bi_sequence :: u64
  bi_source :: ptr
  bi_destination :: ptr
  bi_regions :: "VkBufferImageCopy list"

record RecordedImageToBufferCopy =
  ib_sequence :: u64
  ib_source :: ptr
  ib_destination :: ptr
  ib_regions :: "VkBufferImageCopy list"

record RecordedAccelerationStructureBuildKHR =
  as_sequence :: u64
  as_destination :: ptr
  as_source :: ptr
  as_type :: u32
  as_flags :: u32
  as_mode :: u32
  scratchAddress :: u64
  as_geometries :: "u64 list list"
  as_ranges :: "u64 list list"

record RecordedComputeDispatch =
  cd_sequence :: u64
  cd_pipeline :: ptr
  bridgeEligible :: bool
  cd_descriptorSets :: "ptr list"
  cd_groupCountX :: u32
  cd_groupCountY :: u32
  cd_groupCountZ :: u32
  cd_pushConstants :: bytes

text \<open>A command buffer, without the rest of the state of the graphics and ray tracing commands.\<close>

record CommandBufferState =
  cmd_device :: ptr
  cmd_pool :: ptr
  recording :: bool
  executable :: bool
  cmd_pipeline :: ptr
  cmd_descriptorSet :: ptr
  addend :: u32
  hasPushConstant :: bool
  computePushConstants :: bytes
  cmd_groupCountX :: u32
  graphicsDescriptorSets :: "ptr list"
  computeDescriptorSets :: "ptr list"
  rayTracingDescriptorSets :: "ptr list"
  textureIndex :: u32
  nextCommandSequence :: u64
  bufferCopies :: "RecordedBufferCopy list"
  bufferUpdates :: "RecordedBufferUpdate list"
  bufferFills :: "RecordedBufferFill list"
  imageClears :: "RecordedImageClear list"
  imageCopies :: "RecordedImageCopy list"
  bufferToImageCopies :: "RecordedBufferToImageCopy list"
  imageToBufferCopies :: "RecordedImageToBufferCopy list"
  accelerationStructureBuildsKHR :: "RecordedAccelerationStructureBuildKHR list"
  computeDispatches :: "RecordedComputeDispatch list"

section \<open>The driver\<close>

record vk =
  os :: cuda
  ioAnswers :: "io_answer list"
  allocAnswers :: "ptr option list"
  vk_broken :: bool
  vkBridge :: "bridge option"
  devices :: "(ptr \<times> ptr list) list"
  memories :: "ptr \<Rightarrow> DeviceMemoryState option"
  buffers :: "(ptr \<times> BufferState) list"
  images :: "ptr \<Rightarrow> ImageState option"
  commandPools :: "ptr \<Rightarrow> ptr option"
  commandBuffers :: "ptr \<Rightarrow> CommandBufferState option"
  fences :: "ptr \<Rightarrow> FenceState option"
  semaphores :: "ptr \<Rightarrow> SemaphoreState option"
  queryPools :: "ptr \<Rightarrow> QueryPoolState option"
  nextBufferDeviceAddress :: u64
  bufferViews :: "ptr \<Rightarrow> BufferViewState option"
  imageViews :: "ptr \<Rightarrow> ImageViewState option"
  samplers :: "ptr \<Rightarrow> SamplerState option"
  shaderModules :: "ptr \<Rightarrow> ShaderModuleState option"
  descriptorSetLayouts :: "ptr \<Rightarrow> DescriptorSetLayoutState option"
  pipelineLayouts :: "ptr \<Rightarrow> PipelineLayoutState option"
  pipelines :: "ptr \<Rightarrow> PipelineState option"
  descriptorPools :: "ptr \<Rightarrow> DescriptorPoolState option"
  descriptorSets :: "ptr \<Rightarrow> DescriptorSetState option"
  accelerationStructuresKHR :: "ptr \<Rightarrow> AccelerationStructureKHRState option"
  renderPasses :: "ptr \<Rightarrow> RenderPassState option"
  framebuffers :: "ptr \<Rightarrow> FramebufferState option"
  pipelineCaches :: "ptr \<Rightarrow> ptr option"
  nextStorageDescriptorSequence :: u64

definition vk_init :: "cuda \<Rightarrow> io_answer list \<Rightarrow> ptr option list \<Rightarrow> bridge option \<Rightarrow> vk" where
  "vk_init process io allocator connection =
     \<lparr>os = process, ioAnswers = io, allocAnswers = allocator, vk_broken = False, vkBridge = connection,
      devices = [], memories = Map.empty, buffers = [], images = Map.empty, commandPools = Map.empty,
      commandBuffers = Map.empty, fences = Map.empty, semaphores = Map.empty, queryPools = Map.empty,
      nextBufferDeviceAddress = 0x0000010000000000, bufferViews = Map.empty, imageViews = Map.empty, samplers = Map.empty,
      shaderModules = Map.empty, descriptorSetLayouts = Map.empty, pipelineLayouts = Map.empty, pipelines = Map.empty,
      descriptorPools = Map.empty, descriptorSets = Map.empty, accelerationStructuresKHR = Map.empty,
      renderPasses = Map.empty, framebuffers = Map.empty, pipelineCaches = Map.empty,
      nextStorageDescriptorSequence = 1\<rparr>"

definition undefined_vk :: "vk \<Rightarrow> vk" where
  "undefined_vk s = s\<lparr>vk_broken := True\<rparr>"

definition live :: "vk \<Rightarrow> ptr \<Rightarrow> bool" where
  "live s p \<longleftrightarrow> memories s p \<noteq> None \<or> map_of (buffers s) p \<noteq> None \<or> images s p \<noteq> None
     \<or> commandPools s p \<noteq> None \<or> commandBuffers s p \<noteq> None \<or> fences s p \<noteq> None
     \<or> semaphores s p \<noteq> None \<or> queryPools s p \<noteq> None \<or> bufferViews s p \<noteq> None \<or> imageViews s p \<noteq> None
     \<or> samplers s p \<noteq> None \<or> shaderModules s p \<noteq> None \<or> descriptorSetLayouts s p \<noteq> None
     \<or> pipelineLayouts s p \<noteq> None \<or> pipelines s p \<noteq> None \<or> descriptorPools s p \<noteq> None
     \<or> descriptorSets s p \<noteq> None \<or> accelerationStructuresKHR s p \<noteq> None
     \<or> renderPasses s p \<noteq> None \<or> framebuffers s p \<noteq> None \<or> pipelineCaches s p \<noteq> None"

text \<open>\<^verbatim>\<open>new (std::nothrow)\<close>: the address of the new object.\<close>

definition new_state :: "vk \<Rightarrow> ptr option \<times> vk" where
  "new_state s = (case allocAnswers s of
      [] \<Rightarrow> (None, s)
    | None # as \<Rightarrow> (None, s\<lparr>allocAnswers := as\<rparr>)
    | Some p # as \<Rightarrow> ((if p = 0 \<or> live s p then None else Some p), s\<lparr>allocAnswers := as\<rparr>))"

definition validVkDevice :: "vk \<Rightarrow> ptr \<Rightarrow> bool" where
  "validVkDevice s device = map_contains device (devices s)"

definition deviceForQueue :: "vk \<Rightarrow> ptr \<Rightarrow> ptr" where
  "deviceForQueue s queue =
     (case find (\<lambda>entry. queue \<in> set (snd entry)) (devices s) of None \<Rightarrow> 0 | Some entry \<Rightarrow> fst entry)"

section \<open>Updating one object\<close>

definition put_memory :: "ptr \<Rightarrow> DeviceMemoryState \<Rightarrow> vk \<Rightarrow> vk" where
  "put_memory p m s = s\<lparr>memories := (memories s)(p \<mapsto> m)\<rparr>"

definition put_image :: "ptr \<Rightarrow> ImageState \<Rightarrow> vk \<Rightarrow> vk" where
  "put_image p i s = s\<lparr>images := (images s)(p \<mapsto> i)\<rparr>"

definition put_buffer :: "ptr \<Rightarrow> BufferState \<Rightarrow> vk \<Rightarrow> vk" where
  "put_buffer p b s = s\<lparr>buffers := AList.update p b (buffers s)\<rparr>"

definition put_semaphore :: "ptr \<Rightarrow> SemaphoreState \<Rightarrow> vk \<Rightarrow> vk" where
  "put_semaphore p x s = s\<lparr>semaphores := (semaphores s)(p \<mapsto> x)\<rparr>"

definition put_fence :: "ptr \<Rightarrow> FenceState \<Rightarrow> vk \<Rightarrow> vk" where
  "put_fence p x s = s\<lparr>fences := (fences s)(p \<mapsto> x)\<rparr>"

definition put_command :: "ptr \<Rightarrow> CommandBufferState \<Rightarrow> vk \<Rightarrow> vk" where
  "put_command p c s = s\<lparr>commandBuffers := (commandBuffers s)(p \<mapsto> c)\<rparr>"

text \<open>A method of the connection, called from the driver.\<close>

definition via_bridge :: "(bridge, 'a) prog \<Rightarrow> (vk, 'a) prog" where
  "via_bridge m s = (case vkBridge s of
      None \<Rightarrow> (Inl (RuntimeError ''''), undefined_vk s)
    | Some b \<Rightarrow> (case m b of (r, b1) \<Rightarrow> (r, s\<lparr>vkBridge := Some b1\<rparr>)))"

text \<open>\<^verbatim>\<open>catch (const std::exception&)\<close>; a call that never returns is not caught.\<close>

definition catching :: "(vk, 'a) prog \<Rightarrow> (vk, 'a) prog \<Rightarrow> (vk, 'a) prog" where
  "catching m handler s = (case m s of
      (Inl Blocked, s1) \<Rightarrow> (Inl Blocked, s1)
    | (Inl e, s1) \<Rightarrow> handler s1
    | (Inr x, s1) \<Rightarrow> (Inr x, s1))"

end
