(* ===== verification/VkSync.thy ===== *)
theory VkSync
  imports VkState
begin

text \<open>
  Semaphores and query pools of the Vulkan driver (\<^verbatim>\<open>imb_vkCreateSemaphore\<close> to
  \<^verbatim>\<open>imb_vkWaitSemaphores\<close>, \<^verbatim>\<open>imb_vkCreateQueryPool\<close> to \<^verbatim>\<open>imb_vkCmdResetQueryPool\<close>, and
  \<^verbatim>\<open>completeQueueSubmitSynchronizationLocked\<close>). A semaphore that is exported or imported has a file whose
  first eight bytes hold its payload: 0 or 1, or the counter of a timeline semaphore. An output pointer is a
  truth value, whether it is non-null, and what is stored through it is an optional result.
\<close>

abbreviation (input) HANDLE_TYPE_OPAQUE_FD_BIT :: u32 where "HANDLE_TYPE_OPAQUE_FD_BIT \<equiv> 1"
abbreviation (input) SEMAPHORE_GET_FD_INFO :: u32 where "SEMAPHORE_GET_FD_INFO \<equiv> 1000079001"
abbreviation (input) IMPORT_SEMAPHORE_FD_INFO :: u32 where "IMPORT_SEMAPHORE_FD_INFO \<equiv> 1000079000"

section \<open>Files\<close>

text \<open>\<^verbatim>\<open>mkstemp\<close> opens a new, empty file; \<^verbatim>\<open>ftruncate\<close> makes it readable as zeros.\<close>

definition open_temporary :: "fd \<Rightarrow> nat \<Rightarrow> cuda \<Rightarrow> cuda" where
  "open_temporary d fileno s = s\<lparr>fdTable := (fdTable s)(d \<mapsto> fileno),
     cells := (\<lambda>c. case c of FileByte f i \<Rightarrow> if f = fileno then 0 else cells s c | Anonymous a \<Rightarrow> cells s c)\<rparr>"

definition dup_fd :: "fd \<Rightarrow> fd \<Rightarrow> cuda \<Rightarrow> cuda" where
  "dup_fd d d' s = s\<lparr>fdTable := (fdTable s)(d' := fdTable s d)\<rparr>"

section \<open>Creation\<close>

datatype semaphore_next = SemaphoreTypeCreateInfo u32 u64 | ExportSemaphoreCreateInfo u32 | OtherStructure

fun semaphore_chain :: "semaphore_next list \<Rightarrow> SemaphoreState \<Rightarrow> SemaphoreState option" where
  "semaphore_chain [] x = Some x"
| "semaphore_chain (SemaphoreTypeCreateInfo type initialValue # next) x =
    (if type \<noteq> 0 \<and> type \<noteq> 1 then None
     else semaphore_chain next
       (x\<lparr>timeline := (type = 1), sem_value := (if type = 1 then initialValue else 0),
          sem_signaled := (type = 1 \<and> initialValue \<noteq> 0)\<rparr>))"
| "semaphore_chain (ExportSemaphoreCreateInfo handleTypes # next) x =
    semaphore_chain next (x\<lparr>sem_exportHandleTypes := handleTypes\<rparr>)"
| "semaphore_chain (OtherStructure # next) x = semaphore_chain next x"

text \<open>\<open>createInfo\<close> is the flags and the chain.\<close>

definition vkCreateSemaphore ::
  "ptr \<Rightarrow> (u32 \<times> semaphore_next list) option \<Rightarrow> bool \<Rightarrow> vk \<Rightarrow> (VkResult \<times> ptr option) \<times> vk" where
  "vkCreateSemaphore device createInfo out s =
    (case createInfo of
       None \<Rightarrow> ((VK_ERROR_INITIALIZATION_FAILED, None), s)
     | Some (createFlags, next) \<Rightarrow>
       if \<not> out \<or> createFlags \<noteq> 0 then ((VK_ERROR_INITIALIZATION_FAILED, None), s)
       else if \<not> validVkDevice s device then ((VK_ERROR_INITIALIZATION_FAILED, None), s)
       else (case new_state s of
         (None, s1) \<Rightarrow> ((VK_ERROR_OUT_OF_HOST_MEMORY, None), s1)
       | (Some state, s1) \<Rightarrow>
           (case semaphore_chain next (new_semaphore\<lparr>sem_device := device\<rparr>) of
              None \<Rightarrow> ((VK_ERROR_INITIALIZATION_FAILED, None), s1)
            | Some x \<Rightarrow>
                if sem_exportHandleTypes x AND NOT HANDLE_TYPE_OPAQUE_FD_BIT \<noteq> 0
                then ((VK_ERROR_INVALID_EXTERNAL_HANDLE, None), s1)
                else ((VK_SUCCESS, Some state), put_semaphore state x s1))))"

definition vkDestroySemaphore :: "ptr \<Rightarrow> vk \<Rightarrow> vk" where
  "vkDestroySemaphore semaphore s =
    (if semaphore = 0 then s
     else case semaphores s semaphore of
       None \<Rightarrow> s
     | Some x \<Rightarrow> s\<lparr>semaphores := (semaphores s)(semaphore := None),
           os := (if sem_externalFD x \<ge> 0 then close_fd (sem_externalFD x) (os s) else os s)\<rparr>)"

section \<open>The payload in the file\<close>

definition sem_payload :: "SemaphoreState \<Rightarrow> u64" where
  "sem_payload x = (if timeline x then sem_value x else if sem_signaled x then 1 else 0)"

definition syncSemaphoreToExternalFD :: "SemaphoreState \<Rightarrow> vk \<Rightarrow> VkResult \<times> vk" where
  "syncSemaphoreToExternalFD x s =
    (if sem_externalFD x < 0 then (VK_SUCCESS, s)
     else case pwrite_loop (sem_externalFD x) (le_bytes (sem_payload x)) 0 (ioAnswers s) (os s) of
       (ok, answers, process) \<Rightarrow>
         ((if ok then VK_SUCCESS else VK_ERROR_INVALID_EXTERNAL_HANDLE), s\<lparr>ioAnswers := answers, os := process\<rparr>))"

text \<open>The eight bytes that were read, as a number.\<close>

definition payload_of :: "bytes \<Rightarrow> u64" where
  "payload_of bs = (case readLittleEndian bs 0 of Inr v \<Rightarrow> v | Inl _ \<Rightarrow> 0)"

definition refreshSemaphoreFromExternalFD :: "ptr \<Rightarrow> SemaphoreState \<Rightarrow> vk \<Rightarrow> VkResult \<times> SemaphoreState \<times> vk" where
  "refreshSemaphoreFromExternalFD p x s =
    (if sem_externalFD x < 0 then (VK_SUCCESS, x, s)
     else case pread_loop (sem_externalFD x) 8 [] (ioAnswers s) (os s) of
       (None, answers) \<Rightarrow> (VK_ERROR_INVALID_EXTERNAL_HANDLE, x, s\<lparr>ioAnswers := answers\<rparr>)
     | (Some bs, answers) \<Rightarrow>
         let payload = payload_of bs;
             x1 = (if timeline x
                   then (let v = max (sem_value x) payload in x\<lparr>sem_value := v, sem_signaled := (v \<noteq> 0)\<rparr>)
                   else x\<lparr>sem_signaled := (payload \<noteq> 0)\<rparr>)
         in (VK_SUCCESS, x1, put_semaphore p x1 (s\<lparr>ioAnswers := answers\<rparr>)))"

section \<open>Export and import\<close>

record VkSemaphoreGetFdInfoKHR =
  sg_sType :: u32
  sg_semaphore :: ptr
  sg_handleType :: u32

record VkImportSemaphoreFdInfoKHR =
  si_sType :: u32
  si_semaphore :: ptr
  si_flags :: u32
  si_handleType :: u32
  si_fd :: fd

text \<open>The answers of the kernel: the descriptor and the file of \<^verbatim>\<open>mkstemp\<close>, whether \<^verbatim>\<open>ftruncate\<close>
  succeeds, the descriptor of \<^verbatim>\<open>dup\<close>.\<close>

definition backing_semaphore ::
  "ptr \<Rightarrow> SemaphoreState \<Rightarrow> (fd \<times> nat) option \<Rightarrow> bool \<Rightarrow> vk \<Rightarrow> (VkResult + SemaphoreState) \<times> vk" where
  "backing_semaphore p x mkstemp ftruncate s =
    (if sem_externalFD x \<ge> 0 then (Inr x, s)
     else case mkstemp of
       None \<Rightarrow> (Inl VK_ERROR_TOO_MANY_OBJECTS, s)
     | Some (d, fileno) \<Rightarrow>
         let s1 = s\<lparr>os := open_temporary d fileno (os s)\<rparr> in
         if \<not> ftruncate then (Inl VK_ERROR_OUT_OF_HOST_MEMORY, s1\<lparr>os := close_fd d (os s1)\<rparr>)
         else let x1 = x\<lparr>sem_externalFD := d\<rparr> in (Inr x1, put_semaphore p x1 s1))"

definition vkGetSemaphoreFdKHR ::
  "ptr \<Rightarrow> VkSemaphoreGetFdInfoKHR option \<Rightarrow> bool \<Rightarrow> (fd \<times> nat) option \<Rightarrow> bool \<Rightarrow> fd option \<Rightarrow> vk
    \<Rightarrow> (VkResult \<times> fd option) \<times> vk" where
  "vkGetSemaphoreFdKHR device info out mkstemp ftruncate dup s =
    (case info of
       None \<Rightarrow> ((VK_ERROR_INVALID_EXTERNAL_HANDLE, None), s)
     | Some i \<Rightarrow>
       if \<not> out \<or> sg_sType i \<noteq> SEMAPHORE_GET_FD_INFO \<or> sg_handleType i \<noteq> HANDLE_TYPE_OPAQUE_FD_BIT
       then ((VK_ERROR_INVALID_EXTERNAL_HANDLE, None), s)
       else (case semaphores s (sg_semaphore i) of
         None \<Rightarrow> ((VK_ERROR_INVALID_EXTERNAL_HANDLE, None), s)
       | Some x \<Rightarrow>
         if \<not> validVkDevice s device \<or> sem_device x \<noteq> device
           \<or> sem_exportHandleTypes x AND HANDLE_TYPE_OPAQUE_FD_BIT = 0
         then ((VK_ERROR_INVALID_EXTERNAL_HANDLE, None), s)
         else (case backing_semaphore (sg_semaphore i) x mkstemp ftruncate s of
           (Inl e, s1) \<Rightarrow> ((e, None), s1)
         | (Inr x1, s1) \<Rightarrow>
             (case syncSemaphoreToExternalFD x1 s1 of (r, s2) \<Rightarrow>
                if r \<noteq> VK_SUCCESS then ((r, None), s2)
                else case dup of
                  None \<Rightarrow> ((VK_ERROR_TOO_MANY_OBJECTS, None), s2)
                | Some d \<Rightarrow> ((VK_SUCCESS, Some d), s2\<lparr>os := dup_fd (sem_externalFD x1) d (os s2)\<rparr>)))))"

definition vkImportSemaphoreFdKHR ::
  "ptr \<Rightarrow> VkImportSemaphoreFdInfoKHR option \<Rightarrow> int option \<Rightarrow> vk \<Rightarrow> VkResult \<times> vk" where
  "vkImportSemaphoreFdKHR device info fstat s =
    (case info of
       None \<Rightarrow> (VK_ERROR_INVALID_EXTERNAL_HANDLE, s)
     | Some i \<Rightarrow>
       if si_sType i \<noteq> IMPORT_SEMAPHORE_FD_INFO \<or> si_handleType i \<noteq> HANDLE_TYPE_OPAQUE_FD_BIT
         \<or> si_fd i < 0 \<or> si_flags i AND NOT 1 \<noteq> 0
       then (VK_ERROR_INVALID_EXTERNAL_HANDLE, s)
       else (case (semaphores s (si_semaphore i), fstat) of
         (Some x, Some st_size) \<Rightarrow>
           if \<not> validVkDevice s device \<or> sem_device x \<noteq> device \<or> st_size < 8
           then (VK_ERROR_INVALID_EXTERNAL_HANDLE, s)
           else
             let s1 = (if sem_externalFD x \<ge> 0 then s\<lparr>os := close_fd (sem_externalFD x) (os s)\<rparr> else s);
                 x1 = x\<lparr>sem_externalFD := si_fd i,
                        sem_exportHandleTypes := sem_exportHandleTypes x OR HANDLE_TYPE_OPAQUE_FD_BIT\<rparr>
             in (case refreshSemaphoreFromExternalFD (si_semaphore i) x1 (put_semaphore (si_semaphore i) x1 s1) of
                   (r, x2, s2) \<Rightarrow>
                     if r \<noteq> VK_SUCCESS
                     then (r, put_semaphore (si_semaphore i) (x2\<lparr>sem_externalFD := -1\<rparr>) s2)
                     else (VK_SUCCESS, s2))
       | _ \<Rightarrow> (VK_ERROR_INVALID_EXTERNAL_HANDLE, s)))"

section \<open>Counters, signals and waits\<close>

definition vkGetSemaphoreCounterValue :: "ptr \<Rightarrow> ptr \<Rightarrow> bool \<Rightarrow> vk \<Rightarrow> (VkResult \<times> u64 option) \<times> vk" where
  "vkGetSemaphoreCounterValue device semaphore out s =
    (if \<not> out \<or> semaphore = 0 then ((VK_ERROR_INITIALIZATION_FAILED, None), s)
     else case semaphores s semaphore of
       None \<Rightarrow> ((VK_ERROR_DEVICE_LOST, None), s)
     | Some x \<Rightarrow>
         if \<not> validVkDevice s device \<or> sem_device x \<noteq> device then ((VK_ERROR_DEVICE_LOST, None), s)
         else case refreshSemaphoreFromExternalFD semaphore x s of
           (r, x1, s1) \<Rightarrow> if r \<noteq> VK_SUCCESS then ((r, None), s1) else ((VK_SUCCESS, Some (sem_payload x1)), s1))"

text \<open>\<open>signalInfo\<close> is the semaphore and the value.\<close>

definition vkSignalSemaphore :: "ptr \<Rightarrow> (ptr \<times> u64) option \<Rightarrow> vk \<Rightarrow> VkResult \<times> vk" where
  "vkSignalSemaphore device signalInfo s =
    (case signalInfo of
       None \<Rightarrow> (VK_ERROR_INITIALIZATION_FAILED, s)
     | Some (semaphore, v) \<Rightarrow>
       if semaphore = 0 then (VK_ERROR_INITIALIZATION_FAILED, s)
       else (case semaphores s semaphore of
         None \<Rightarrow> (VK_ERROR_DEVICE_LOST, s)
       | Some x \<Rightarrow>
         if \<not> validVkDevice s device \<or> sem_device x \<noteq> device then (VK_ERROR_DEVICE_LOST, s)
         else let x1 = (if timeline x then x\<lparr>sem_value := max (sem_value x) v\<rparr> else x)\<lparr>sem_signaled := True\<rparr>
              in syncSemaphoreToExternalFD x1 (put_semaphore semaphore x1 s)))"

text \<open>The loop over the semaphores and values of a wait; the accumulators are \<open>anySatisfied\<close> and
  \<open>allSatisfied\<close>.\<close>

fun wait_semaphores :: "ptr \<Rightarrow> (ptr \<times> u64) list \<Rightarrow> bool \<Rightarrow> bool \<Rightarrow> vk \<Rightarrow> (VkResult + bool \<times> bool) \<times> vk" where
  "wait_semaphores device [] anySat allSat s = (Inr (anySat, allSat), s)"
| "wait_semaphores device ((semaphore, v) # ws) anySat allSat s =
    (case semaphores s semaphore of
       None \<Rightarrow> (Inl VK_ERROR_DEVICE_LOST, s)
     | Some x \<Rightarrow>
         if sem_device x \<noteq> device then (Inl VK_ERROR_DEVICE_LOST, s)
         else case refreshSemaphoreFromExternalFD semaphore x s of
           (r, x1, s1) \<Rightarrow>
             if r \<noteq> VK_SUCCESS then (Inl r, s1)
             else let satisfied = (if timeline x1 then sem_value x1 \<ge> v else sem_signaled x1)
                  in wait_semaphores device ws (anySat \<or> satisfied) (allSat \<and> satisfied) s1)"

text \<open>\<open>waitInfo\<close> is the flags and the pairs of semaphores and values; \<open>given\<close> is whether both arrays are
  non-null.\<close>

definition vkWaitSemaphores :: "ptr \<Rightarrow> (u32 \<times> (ptr \<times> u64) list) option \<Rightarrow> bool \<Rightarrow> vk \<Rightarrow> VkResult \<times> vk" where
  "vkWaitSemaphores device waitInfo given s =
    (case waitInfo of
       None \<Rightarrow> (VK_ERROR_INITIALIZATION_FAILED, s)
     | Some (waitFlags, ws) \<Rightarrow>
       if ws \<noteq> [] \<and> \<not> given then (VK_ERROR_INITIALIZATION_FAILED, s)
       else if \<not> validVkDevice s device then (VK_ERROR_DEVICE_LOST, s)
       else (case wait_semaphores device ws False True s of
         (Inl e, s1) \<Rightarrow> (e, s1)
       | (Inr (anySat, allSat), s1) \<Rightarrow>
           ((if (if waitFlags AND 1 \<noteq> 0 then anySat else allSat) then VK_SUCCESS else VK_TIMEOUT), s1)))"

section \<open>Synchronization of a submission\<close>

text \<open>The semaphores of a \<^verbatim>\<open>VkSubmitInfo\<close>; \<open>signalValues\<close> is the array of the first timeline structure of
  its chain (\<open>Some None\<close> when that array is null).\<close>

record VkSubmitInfo =
  waitSemaphores :: "ptr list"
  signalSemaphores :: "ptr list"
  signalValues :: "u64 list option option"

fun submit_waits :: "ptr \<Rightarrow> ptr list \<Rightarrow> vk \<Rightarrow> VkResult \<times> vk" where
  "submit_waits device [] s = (VK_SUCCESS, s)"
| "submit_waits device (semaphore # rest) s =
    (case semaphores s semaphore of
       None \<Rightarrow> (VK_ERROR_INITIALIZATION_FAILED, s)
     | Some x \<Rightarrow>
         if sem_device x \<noteq> device then (VK_ERROR_INITIALIZATION_FAILED, s)
         else (case refreshSemaphoreFromExternalFD semaphore x s of
           (r, x1, s1) \<Rightarrow>
             if r \<noteq> VK_SUCCESS then (r, s1)
             else (let x2 = (if timeline x1 then x1 else x1\<lparr>sem_signaled := False\<rparr>)
                   in case syncSemaphoreToExternalFD x2 (put_semaphore semaphore x2 s1) of
                     (r, s2) \<Rightarrow> if r \<noteq> VK_SUCCESS then (r, s2) else submit_waits device rest s2)))"

definition signal_value :: "u64 list option option \<Rightarrow> nat \<Rightarrow> SemaphoreState \<Rightarrow> u64" where
  "signal_value given index x =
    (case given of
       Some (Some vs) \<Rightarrow> if index < length vs then vs ! index else sem_value x + 1
     | _ \<Rightarrow> sem_value x + 1)"

fun submit_signals :: "ptr \<Rightarrow> u64 list option option \<Rightarrow> nat \<Rightarrow> ptr list \<Rightarrow> vk \<Rightarrow> VkResult \<times> vk" where
  "submit_signals device given index [] s = (VK_SUCCESS, s)"
| "submit_signals device given index (semaphore # rest) s =
    (case semaphores s semaphore of
       None \<Rightarrow> (VK_ERROR_INITIALIZATION_FAILED, s)
     | Some x \<Rightarrow>
         if sem_device x \<noteq> device then (VK_ERROR_INITIALIZATION_FAILED, s)
         else (let x1 = (if timeline x
                         then x\<lparr>sem_value := max (sem_value x) (signal_value given index x)\<rparr>
                         else x)\<lparr>sem_signaled := True\<rparr>
               in case syncSemaphoreToExternalFD x1 (put_semaphore semaphore x1 s) of
                 (r, s1) \<Rightarrow> if r \<noteq> VK_SUCCESS then (r, s1)
                            else submit_signals device given (index + 1) rest s1))"

fun completeQueueSubmitSynchronization :: "ptr \<Rightarrow> VkSubmitInfo list \<Rightarrow> vk \<Rightarrow> VkResult \<times> vk" where
  "completeQueueSubmitSynchronization device [] s = (VK_SUCCESS, s)"
| "completeQueueSubmitSynchronization device (submit # rest) s =
    (case submit_waits device (waitSemaphores submit) s of
       (r, s1) \<Rightarrow>
         if r \<noteq> VK_SUCCESS then (r, s1)
         else (case submit_signals device (signalValues submit) 0 (signalSemaphores submit) s1 of
           (r, s2) \<Rightarrow> if r \<noteq> VK_SUCCESS then (r, s2) else completeQueueSubmitSynchronization device rest s2))"

section \<open>Query pools\<close>

record VkQueryPoolCreateInfo =
  qp_flags :: u32
  qp_queryType :: u32
  qp_queryCount :: u32
  qp_pipelineStatistics :: u32

definition vkCreateQueryPool ::
  "ptr \<Rightarrow> VkQueryPoolCreateInfo option \<Rightarrow> bool \<Rightarrow> vk \<Rightarrow> (VkResult \<times> ptr option) \<times> vk" where
  "vkCreateQueryPool device createInfo out s =
    (case createInfo of
       None \<Rightarrow> ((VK_ERROR_INITIALIZATION_FAILED, None), s)
     | Some info \<Rightarrow>
       if \<not> out \<or> qp_queryCount info = 0 \<or> qp_flags info \<noteq> 0 then ((VK_ERROR_INITIALIZATION_FAILED, None), s)
       else if \<not> validVkDevice s device then ((VK_ERROR_DEVICE_LOST, None), s)
       else (case new_state s of
         (None, s1) \<Rightarrow> ((VK_ERROR_OUT_OF_HOST_MEMORY, None), s1)
       | (Some p, s1) \<Rightarrow>
           ((VK_SUCCESS, Some p),
            s1\<lparr>queryPools := (queryPools s1)(p \<mapsto>
              \<lparr>pool_device = device, pool_type = qp_queryType info, pool_count = qp_queryCount info,
               pipelineStatistics = qp_pipelineStatistics info,
               pool_values = replicate (unat (qp_queryCount info)) 0,
               pool_available = replicate (unat (qp_queryCount info)) False\<rparr>)\<rparr>)))"

definition vkDestroyQueryPool :: "ptr \<Rightarrow> vk \<Rightarrow> vk" where
  "vkDestroyQueryPool queryPool s =
    (if queryPool = 0 then s else s\<lparr>queryPools := (queryPools s)(queryPool := None)\<rparr>)"

definition query_range :: "QueryPoolState \<Rightarrow> u32 \<Rightarrow> u32 \<Rightarrow> bool" where
  "query_range q firstQuery queryCount \<longleftrightarrow>
    \<not> (firstQuery > pool_count q \<or> queryCount > pool_count q - firstQuery)"

text \<open>\<^verbatim>\<open>std::fill_n\<close> from an index.\<close>

definition fill_from :: "nat \<Rightarrow> nat \<Rightarrow> 'a \<Rightarrow> 'a list \<Rightarrow> 'a list" where
  "fill_from first n v xs = take first xs @ replicate n v @ drop (first + n) xs"

definition reset_queries :: "u32 \<Rightarrow> u32 \<Rightarrow> QueryPoolState \<Rightarrow> QueryPoolState" where
  "reset_queries firstQuery queryCount q =
    q\<lparr>pool_values := fill_from (unat firstQuery) (unat queryCount) 0 (pool_values q),
      pool_available := fill_from (unat firstQuery) (unat queryCount) False (pool_available q)\<rparr>"

definition vkResetQueryPool :: "ptr \<Rightarrow> ptr \<Rightarrow> u32 \<Rightarrow> u32 \<Rightarrow> vk \<Rightarrow> vk" where
  "vkResetQueryPool device queryPool firstQuery queryCount s =
    (case queryPools s queryPool of
       None \<Rightarrow> s
     | Some q \<Rightarrow>
         if \<not> validVkDevice s device \<or> \<not> query_range q firstQuery queryCount then s
         else s\<lparr>queryPools := (queryPools s)(queryPool \<mapsto> reset_queries firstQuery queryCount q)\<rparr>)"

definition vkCmdResetQueryPool :: "ptr \<Rightarrow> ptr \<Rightarrow> u32 \<Rightarrow> u32 \<Rightarrow> vk \<Rightarrow> vk" where
  "vkCmdResetQueryPool commandBuffer queryPool firstQuery queryCount s =
    (case (commandBuffers s commandBuffer, queryPools s queryPool) of
       (Some c, Some q) \<Rightarrow>
         if \<not> recording c \<or> \<not> query_range q firstQuery queryCount then s
         else s\<lparr>queryPools := (queryPools s)(queryPool \<mapsto> reset_queries firstQuery queryCount q)\<rparr>
     | _ \<Rightarrow> s)"

function countBits :: "u32 \<Rightarrow> u32 \<Rightarrow> u32" where
  "countBits bits valueCount =
    (if bits = 0 then valueCount else countBits (drop_bit 1 bits) (valueCount + (bits AND 1)))"
  by pat_completeness auto
termination
proof (relation "measure (\<lambda>(bits, _). unat bits)")
  fix bits valueCount :: u32
  assume "bits \<noteq> 0"
  then have "unat bits div 2 < unat bits" by (simp add: unat_gt_0)
  then show "((drop_bit 1 bits, valueCount + (bits AND 1)), bits, valueCount) \<in> measure (\<lambda>(bits, _). unat bits)"
    by (simp add: drop_bit_eq_div unat_div)
qed simp

declare countBits.simps [simp del]

text \<open>The caller's memory is a list of bytes; a store that leaves it is undefined.\<close>

definition store_at :: "u64 \<Rightarrow> bytes \<Rightarrow> bytes \<times> bool \<Rightarrow> bytes \<times> bool" where
  "store_at offset bs mem = (case mem of (data, ok) \<Rightarrow>
    if unat offset + length bs \<le> length data
    then (take (unat offset) data @ bs @ drop (unat offset + length bs) data, ok)
    else (data, False))"

definition query_row :: "QueryPoolState \<Rightarrow> u32 \<Rightarrow> bool \<Rightarrow> bool \<Rightarrow> nat \<Rightarrow> bytes" where
  "query_row q valueCount wide withAvailability queryIndex =
    (let valueSize = (if wide then 8 else 4);
         encode = (\<lambda>v :: u64. if wide then le_bytes v else le_bytes (ucast v :: u32))
     in encode (pool_values q ! queryIndex) @ replicate ((unat valueCount - 1) * valueSize) 0
        @ (if withAvailability then encode (if pool_available q ! queryIndex then 1 else 0) else []))"

fun query_rows :: "(nat \<Rightarrow> bytes) \<Rightarrow> u64 \<Rightarrow> nat \<Rightarrow> nat \<Rightarrow> bytes \<times> bool \<Rightarrow> bytes \<times> bool" where
  "query_rows row stride query 0 mem = mem"
| "query_rows row stride query (Suc n) mem =
    query_rows row stride (Suc query) n (store_at (word_of_nat query * stride) (row query) mem)"

definition query_valueCount :: "QueryPoolState \<Rightarrow> u32" where
  "query_valueCount q = (if pool_type q = 1 then max (countBits (pipelineStatistics q) 0) 1 else 1)"

definition query_rowSize :: "QueryPoolState \<Rightarrow> bool \<Rightarrow> bool \<Rightarrow> u64" where
  "query_rowSize q wide withAvailability =
    ucast (query_valueCount q + (if withAvailability then 1 else 0)) * (if wide then 8 else 4)"

text \<open>\<open>data\<close> is the memory behind the pointer, of \<open>dataSize\<close> bytes; the result has it as it is afterwards.\<close>

definition vkGetQueryPoolResults ::
  "ptr \<Rightarrow> ptr \<Rightarrow> u32 \<Rightarrow> u32 \<Rightarrow> bytes option \<Rightarrow> u64 \<Rightarrow> u32 \<Rightarrow> vk \<Rightarrow> (VkResult \<times> bytes option) \<times> vk" where
  "vkGetQueryPoolResults device queryPool firstQuery queryCount data stride queryFlags s =
    (if queryCount \<noteq> 0 \<and> data = None then ((VK_ERROR_INITIALIZATION_FAILED, data), s)
     else case queryPools s queryPool of
       None \<Rightarrow> ((VK_ERROR_DEVICE_LOST, data), s)
     | Some q \<Rightarrow>
         if \<not> validVkDevice s device \<or> pool_device q \<noteq> device \<or> \<not> query_range q firstQuery queryCount
         then ((VK_ERROR_DEVICE_LOST, data), s)
         else (let wide = (queryFlags AND 1 \<noteq> 0);
                   withAvailability = (queryFlags AND 4 \<noteq> 0);
                   rowSize = query_rowSize q wide withAvailability;
                   dataSize = word_of_nat (case data of None \<Rightarrow> 0 | Some bs \<Rightarrow> length bs);
                   required = ucast (queryCount - 1) * stride + rowSize
               in if queryCount \<noteq> 0 \<and> (dataSize < required \<or> stride < rowSize)
                  then ((VK_ERROR_INITIALIZATION_FAILED, data), s)
                  else (case data of
                    None \<Rightarrow> ((VK_SUCCESS, data), s)
                  | Some bs \<Rightarrow>
                      (case query_rows (\<lambda>i. query_row q (query_valueCount q) wide withAvailability
                              (unat firstQuery + i)) stride 0 (unat queryCount) (bs, True) of
                         (bs1, ok) \<Rightarrow> ((VK_SUCCESS, Some bs1), if ok then s else undefined_vk s)))))"

end
