(* ===== verification/VkSyncProps.thy ===== *)
theory VkSyncProps
  imports VkSync
begin

text \<open>
  What the semaphores and query pools guarantee. The loops over \<^verbatim>\<open>pwrite\<close> and \<^verbatim>\<open>pread\<close> move
  exactly the bytes of the payload, whatever the kernel interrupts and splits; a counter of a timeline semaphore
  never goes back; a semaphore that was exported and signalled through the CUDA library shows the signalled
  value; the results of queries stay inside the memory of the caller.
\<close>

section \<open>The loops over files\<close>

lemma write_file_nil [simp]: "write_file f w [] s = s"
proof -
  have "(\<lambda>c. case c of FileByte f' i \<Rightarrow> if f' = f \<and> w \<le> i \<and> i < w + length ([] :: bytes) then ([] :: bytes) ! (i - w) else cells s c
      | Anonymous a \<Rightarrow> cells s c) = cells s"
    by (rule ext) (auto split: cell.split)
  then show ?thesis by (simp add: write_file_def del: list.size)
qed

lemma write_file_append: "write_file f (w + length a) b (write_file f w a s) = write_file f w (a @ b) s"
proof -
  have "cells (write_file f (w + length a) b (write_file f w a s)) = cells (write_file f w (a @ b) s)"
    by (rule ext) (auto simp: write_file_def nth_append split: cell.split)
  then show ?thesis by (simp add: write_file_def)
qed

lemma fdTable_write_file [simp]: "fdTable (write_file f w bs s) = fdTable s"
  by (simp add: write_file_def)

lemma cells_write_file:
  "cells (write_file f w bs s) (FileByte f i) = (if w \<le> i \<and> i < w + length bs then bs ! (i - w) else cells s (FileByte f i))"
  by (simp add: write_file_def)

text \<open>A write loop that succeeds has stored all the data that was left.\<close>

lemma pwrite_loop_all:
  assumes "pwrite_loop d data written answers s = (True, answers', s')"
    and "fdTable s d = Some f" and "written \<le> length data"
  shows "s' = write_file f written (drop written data) s"
  using assms
proof (induction answers arbitrary: written s)
  case (Cons a as)
  show ?case
  proof (cases "written \<ge> length data")
    case False
    show ?thesis
    proof (cases a)
      case (Moved n)
      let ?k = "min n (length data - written)"
      let ?s = "write_file f written (take ?k (drop written data)) s"
      have rest: "pwrite_loop d data (written + ?k) as ?s = (True, answers', s')"
        using Cons.prems False Moved by (auto simp: Let_def split: if_splits)
      have "s' = write_file f (written + ?k) (drop (written + ?k) data) ?s"
        using Cons.prems(2) False by (intro Cons.IH [OF rest]) simp_all
      moreover have "length (take ?k (drop written data)) = ?k" by simp
      ultimately show ?thesis
        by (metis append_take_drop_id drop_drop add.commute write_file_append)
    qed (use Cons False in auto)
  qed (use Cons in auto)
qed simp

lemma pread_loop_all:
  assumes "pread_loop d wanted got answers s = (Some bs, answers')"
    and "fdTable s d = Some f" and "length got \<le> wanted"
  shows "bs = got @ map (\<lambda>i. cells s (FileByte f i)) [length got..<wanted]"
  using assms
proof (induction answers arbitrary: got)
  case Nil
  then show ?case by (auto split: if_splits)
next
  case (Cons a as)
  show ?case
  proof (cases "length got \<ge> wanted")
    case False
    show ?thesis
    proof (cases a)
      case (Moved n)
      let ?k = "min n (wanted - length got)"
      let ?got = "got @ map (\<lambda>i. cells s (FileByte f i)) [length got..<length got + ?k]"
      have rest: "pread_loop d wanted ?got as s = (Some bs, answers')"
        using Cons.prems False Moved by (auto simp: Let_def split: if_splits)
      have "length got + ?k \<le> wanted" using False by simp
      moreover have "bs = ?got @ map (\<lambda>i. cells s (FileByte f i)) [length ?got..<wanted]"
        using Cons.prems(2) False by (intro Cons.IH [OF rest]) simp_all
      ultimately show ?thesis
        using upt_add_eq_append [of "length got" "length got + ?k" "wanted - (length got + ?k)"] by simp
    qed (use Cons False in auto)
  qed (use Cons in auto)
qed

text \<open>The payload of a file.\<close>

definition file_payload :: "cuda \<Rightarrow> nat \<Rightarrow> u64" where
  "file_payload s f = payload_of (map (\<lambda>i. cells s (FileByte f i)) [0..<8])"

lemma payload_of_le_bytes: "payload_of (le_bytes v) = v"
proof -
  have "readLittleEndian (le_bytes v) 0 = Inr v"
    using u64.dec_enc [of "[]" v "[]"] by simp
  then show ?thesis by (simp add: payload_of_def)
qed

lemma file_payload_written: "file_payload (write_file f 0 (le_bytes v) s) f = v"
proof -
  have "map (\<lambda>i. cells (write_file f 0 (le_bytes v) s) (FileByte f i)) [0..<8] = le_bytes v"
    by (rule nth_equalityI) (simp_all add: cells_write_file sizeof_def)
  then show ?thesis by (simp add: file_payload_def payload_of_le_bytes)
qed

lemma pwrite_payload:
  assumes "pwrite_loop d (le_bytes (v :: u64)) 0 answers s = (True, answers', s')" "fdTable s d = Some f"
  shows "s' = write_file f 0 (le_bytes v) s"
  using pwrite_loop_all [OF assms] by simp

lemma pread_payload:
  assumes "pread_loop d 8 [] answers s = (Some bs, answers')" "fdTable s d = Some f"
  shows "payload_of bs = file_payload s f"
  using pread_loop_all [OF assms] by (simp add: file_payload_def)

section \<open>Counters never go back\<close>

definition sem_le :: "SemaphoreState \<Rightarrow> SemaphoreState \<Rightarrow> bool" where
  "sem_le x y \<longleftrightarrow> timeline y = timeline x \<and> sem_device y = sem_device x \<and> (timeline x \<longrightarrow> sem_value x \<le> sem_value y)"

definition sems_le :: "vk \<Rightarrow> vk \<Rightarrow> bool" where
  "sems_le s s' \<longleftrightarrow> (\<forall>p x. semaphores s p = Some x \<longrightarrow> (\<exists>y. semaphores s' p = Some y \<and> sem_le x y))"

lemma sem_le_refl [simp, intro]: "sem_le x x"
  by (simp add: sem_le_def)

lemma sem_le_trans [trans]: "sem_le x y \<Longrightarrow> sem_le y z \<Longrightarrow> sem_le x z"
  by (auto simp: sem_le_def)

lemma sems_le_refl [simp, intro]: "sems_le s s"
  by (simp add: sems_le_def)

lemma sems_le_trans [trans]: "sems_le s t \<Longrightarrow> sems_le t u \<Longrightarrow> sems_le s u"
  unfolding sems_le_def by (meson sem_le_trans)

lemma sems_le_same [intro]: "semaphores s' = semaphores s \<Longrightarrow> sems_le s s'"
  by (simp add: sems_le_def)

lemma sems_le_put: "semaphores s p = Some x \<Longrightarrow> sem_le x y \<Longrightarrow> sems_le s (put_semaphore p y s)"
  by (auto simp: sems_le_def put_semaphore_def)

lemma semaphores_put [simp]: "semaphores (put_semaphore p x s) = (semaphores s)(p \<mapsto> x)"
  by (simp add: put_semaphore_def)

text \<open>Two steps of the model: the file is written, or read into the semaphore.\<close>

lemma syncSemaphore_same: "syncSemaphoreToExternalFD x s = (r, s') \<Longrightarrow> semaphores s' = semaphores s"
  by (auto simp: syncSemaphoreToExternalFD_def split: if_splits prod.splits)

lemma refreshSemaphore_le:
  assumes "refreshSemaphoreFromExternalFD p x s = (r, y, s')" "semaphores s p = Some x"
  shows "sem_le x y" "semaphores s' p = Some y" "sems_le s s'"
proof -
  have "sem_le x y \<and> semaphores s' = (semaphores s)(p \<mapsto> y)"
    using assms by (auto simp: refreshSemaphoreFromExternalFD_def Let_def sem_le_def fun_upd_idem
        split: if_splits prod.splits option.splits)
  then show "sem_le x y" "semaphores s' p = Some y" "sems_le s s'"
    using assms(2) by (auto simp: sems_le_def)
qed

text \<open>What the driver does with semaphores, call by call; \<open>Elsewhere\<close> is whatever else happens in the
  process in between: the other library, other threads and processes with the same files.\<close>

datatype sync_op =
    CreateSemaphore ptr "(u32 \<times> semaphore_next list) option" bool
  | DestroySemaphore ptr
  | GetSemaphoreFd ptr "VkSemaphoreGetFdInfoKHR option" bool "(fd \<times> nat) option" bool "fd option"
  | ImportSemaphoreFd ptr "VkImportSemaphoreFdInfoKHR option" "int option"
  | GetCounterValue ptr ptr bool
  | SignalSemaphore ptr "(ptr \<times> u64) option"
  | WaitSemaphores ptr "(u32 \<times> (ptr \<times> u64) list) option" bool
  | FinishSubmit ptr "VkSubmitInfo list"
  | Elsewhere cuda "io_answer list" "ptr option list"

fun sync_step :: "sync_op \<Rightarrow> vk \<Rightarrow> vk" where
  "sync_step (CreateSemaphore device info out) s = snd (vkCreateSemaphore device info out s)"
| "sync_step (DestroySemaphore p) s = vkDestroySemaphore p s"
| "sync_step (GetSemaphoreFd device info out mkstemp ftruncate dup) s =
     snd (vkGetSemaphoreFdKHR device info out mkstemp ftruncate dup s)"
| "sync_step (ImportSemaphoreFd device info fstat) s = snd (vkImportSemaphoreFdKHR device info fstat s)"
| "sync_step (GetCounterValue device p out) s = snd (vkGetSemaphoreCounterValue device p out s)"
| "sync_step (SignalSemaphore device info) s = snd (vkSignalSemaphore device info s)"
| "sync_step (WaitSemaphores device info given) s = snd (vkWaitSemaphores device info given s)"
| "sync_step (FinishSubmit device submits) s = snd (completeQueueSubmitSynchronization device submits s)"
| "sync_step (Elsewhere process io allocator) s = s\<lparr>os := process, ioAnswers := io, allocAnswers := allocator\<rparr>"

lemma new_state_spec:
  assumes "new_state s = (r, s')"
  shows "\<exists>as. s' = s\<lparr>allocAnswers := as\<rparr>" "r = Some p \<Longrightarrow> p \<noteq> 0 \<and> \<not> live s p"
proof -
  show "\<exists>as. s' = s\<lparr>allocAnswers := as\<rparr>"
    using assms by (intro exI [of _ "allocAnswers s'"]) (auto simp: new_state_def split: list.splits option.splits)
  show "r = Some p \<Longrightarrow> p \<noteq> 0 \<and> \<not> live s p"
    using assms by (auto simp: new_state_def split: list.splits option.splits if_splits)
qed

lemma create_le: "sems_le s (snd (vkCreateSemaphore device info out s))"
proof -
  have "sems_le s s'" if "new_state s = (r, s')" for r s'
    using new_state_spec(1) [OF that] by auto
  moreover have "sems_le s (put_semaphore p x s')" if "new_state s = (Some p, s')" for p x s'
    using new_state_spec [OF that] by (auto simp: sems_le_def live_def)
  ultimately show ?thesis
    by (auto simp: vkCreateSemaphore_def split: option.splits prod.splits)
qed

lemma getfd_le: "sems_le s (snd (vkGetSemaphoreFdKHR device info out mkstemp ftruncate dup s))"
proof (cases "info = None")
  case False
  then obtain i where i: "info = Some i" by blast
  show ?thesis
  proof (cases "semaphores s (sg_semaphore i)")
    case (Some x)
    have b: "sems_le s s1 \<and> (\<forall>x1. r = Inr x1 \<longrightarrow> semaphores s1 (sg_semaphore i) = Some x1)"
      if "backing_semaphore (sg_semaphore i) x mkstemp ftruncate s = (r, s1)" for r s1
      using that Some
      by (auto simp: backing_semaphore_def Let_def sems_le_def sem_le_def split: if_splits option.splits prod.splits)
    have c: "sems_le s s2" if "backing_semaphore (sg_semaphore i) x mkstemp ftruncate s = (r, s1)"
      "syncSemaphoreToExternalFD x1 s1 = (r2, s2)" for r s1 x1 r2 s2
      using b [OF that(1)] syncSemaphore_same [OF that(2)] by (metis sems_le_trans sems_le_same)
    have d: "sems_le s s2 \<Longrightarrow> sems_le s (s2\<lparr>os := p\<rparr>)" for s2 p
      by (simp add: sems_le_def)
    show ?thesis
      using Some i b c d
      by (auto simp: vkGetSemaphoreFdKHR_def split: prod.splits sum.splits option.splits)
  qed (simp add: vkGetSemaphoreFdKHR_def i)
qed (simp add: vkGetSemaphoreFdKHR_def)

lemma import_tail_le:
  assumes "semaphores s p = Some x" "semaphores s1 = semaphores s" "sem_le x x1"
  shows "sems_le s (snd (case refreshSemaphoreFromExternalFD p x1 (put_semaphore p x1 s1) of
    (r, x2, s2) \<Rightarrow> if r \<noteq> VK_SUCCESS then (r, put_semaphore p (x2\<lparr>sem_externalFD := -1\<rparr>) s2) else (VK_SUCCESS, s2)))"
proof (cases "refreshSemaphoreFromExternalFD p x1 (put_semaphore p x1 s1)")
  case (fields r y s3)
  have a: "sems_le s (put_semaphore p x1 s1)"
    using assms by (auto simp: sems_le_def)
  have b: "semaphores s3 p = Some y" "sems_le (put_semaphore p x1 s1) s3"
    using refreshSemaphore_le [OF fields] by simp_all
  have "sems_le s3 (put_semaphore p (y\<lparr>sem_externalFD := -1\<rparr>) s3)"
    by (rule sems_le_put [OF b(1)]) (simp add: sem_le_def)
  then show ?thesis using a b(2) fields by (auto intro: sems_le_trans)
qed

lemma import_le: "sems_le s (snd (vkImportSemaphoreFdKHR device info fstat s))"
proof (cases info)
  case (Some i)
  show ?thesis
  proof (cases "semaphores s (si_semaphore i)")
    case x: (Some x)
    have "sem_le x (x\<lparr>sem_externalFD := si_fd i, sem_exportHandleTypes := sem_exportHandleTypes x OR HANDLE_TYPE_OPAQUE_FD_BIT\<rparr>)"
      by (simp add: sem_le_def)
    note tail = import_tail_le [OF x _ this]
    show ?thesis
      using tail [of s] tail [of "s\<lparr>os := close_fd (sem_externalFD x) (os s)\<rparr>"]
      by (simp add: vkImportSemaphoreFdKHR_def Some x Let_def split: option.split)
  qed (simp add: vkImportSemaphoreFdKHR_def Some)
qed (simp add: vkImportSemaphoreFdKHR_def)

lemma counter_le: "sems_le s (snd (vkGetSemaphoreCounterValue device p out s))"
  using refreshSemaphore_le(3)
  by (fastforce simp: vkGetSemaphoreCounterValue_def split: option.splits prod.splits)

lemma sync_put_le:
  "semaphores s p = Some x \<Longrightarrow> sem_le x y \<Longrightarrow> sems_le s (snd (syncSemaphoreToExternalFD y (put_semaphore p y s)))"
  using sems_le_put syncSemaphore_same by (metis prod.collapse sems_le_trans sems_le_same)

lemma signal_le: "sems_le s (snd (vkSignalSemaphore device info s))"
  by (auto simp: vkSignalSemaphore_def sem_le_def Let_def intro!: sync_put_le split: option.splits)

lemma wait_le: "sems_le s (snd (wait_semaphores device ws anySat allSat s))"
proof (induction ws arbitrary: anySat allSat s)
  case (Cons w ws)
  obtain p v where w: "w = (p, v)" by force
  show ?case
  proof (cases "semaphores s p")
    case (Some x)
    show ?thesis
    proof (cases "refreshSemaphoreFromExternalFD p x s")
      case (fields r y s1)
      then have "sems_le s s1" using Some refreshSemaphore_le by blast
      then show ?thesis using Some fields w Cons.IH by (auto simp: Let_def intro: sems_le_trans)
    qed
  qed (simp add: w)
qed simp

lemma submit_waits_le: "sems_le s (snd (submit_waits device ps s))"
proof (induction ps arbitrary: s)
  case (Cons p ps)
  show ?case
  proof (cases "semaphores s p")
    case (Some x)
    show ?thesis
    proof (cases "refreshSemaphoreFromExternalFD p x s")
      case (fields r y s1)
      note r = refreshSemaphore_le [OF fields Some]
      let ?z = "if timeline y then y else y\<lparr>sem_signaled := False\<rparr>"
      have z: "sem_le y ?z" by (simp add: sem_le_def)
      obtain r2 s2 where s2: "syncSemaphoreToExternalFD ?z (put_semaphore p ?z s1) = (r2, s2)" by force
      have "sems_le s s2" using sync_put_le [OF r(2) z] r(3) s2 by (metis sems_le_trans snd_conv)
      then show ?thesis using Some fields s2 Cons.IH r(3) by (auto simp: Let_def intro: sems_le_trans)
    qed
  qed simp
qed simp

lemma submit_signals_le: "sems_le s (snd (submit_signals device given index ps s))"
proof (induction ps arbitrary: index s)
  case (Cons p ps)
  show ?case
  proof (cases "semaphores s p")
    case (Some x)
    let ?y = "(if timeline x then x\<lparr>sem_value := max (sem_value x) (signal_value given index x)\<rparr> else x)\<lparr>sem_signaled := True\<rparr>"
    have y: "sem_le x ?y" by (simp add: sem_le_def)
    obtain r2 s2 where s2: "syncSemaphoreToExternalFD ?y (put_semaphore p ?y s) = (r2, s2)" by force
    have "sems_le s s2" using sync_put_le [OF Some y] s2 by (metis snd_conv)
    then show ?thesis using Some s2 Cons.IH by (auto simp: Let_def intro: sems_le_trans)
  qed simp
qed simp

lemma finish_submit_le: "sems_le s (snd (completeQueueSubmitSynchronization device submits s))"
proof (induction submits arbitrary: s)
  case (Cons x submits)
  obtain r1 s1 where 1: "submit_waits device (waitSemaphores x) s = (r1, s1)" by force
  obtain r2 s2 where 2: "submit_signals device (signalValues x) 0 (signalSemaphores x) s1 = (r2, s2)" by force
  have "sems_le s s1" "sems_le s1 s2"
    using submit_waits_le [of s device "waitSemaphores x"] submit_signals_le [of s1 device "signalValues x" 0 "signalSemaphores x"] 1 2
    by simp_all
  then show ?case using 1 2 Cons.IH by (auto intro: sems_le_trans)
qed simp

lemma sync_step_le:
  assumes "op \<noteq> DestroySemaphore p" "semaphores s p = Some x"
  shows "\<exists>y. semaphores (sync_step op s) p = Some y \<and> sem_le x y"
proof (cases op)
  case (DestroySemaphore q)
  then show ?thesis using assms by (auto simp: vkDestroySemaphore_def split: option.split)
next
  case (WaitSemaphores device info given)
  have w: "sems_le s s1" if "wait_semaphores device ws a b s = (r, s1)" for ws a b r s1
    using wait_le [of s device ws a b] that by simp
  have "sems_le s (snd (vkWaitSemaphores device info given s))"
    by (auto simp: vkWaitSemaphores_def split: option.split prod.split sum.split dest: w)
  then show ?thesis using assms WaitSemaphores by (simp add: sems_le_def)
qed (use assms create_le getfd_le import_le counter_le signal_le finish_submit_le in \<open>simp_all add: sems_le_def\<close>)

text \<open>C9: The counter of a timeline semaphore never goes back, and the semaphore stays a timeline semaphore
  of its device, through any sequence of calls that does not destroy it, whatever the rest of the process writes
  to the shared file in between and wherever the kernel fails.\<close>

lemma timeline_never_decreases:
  assumes "semaphores s p = Some x" "timeline x" "DestroySemaphore p \<notin> set calls"
  shows "\<exists>y. semaphores (fold sync_step calls s) p = Some y \<and> timeline y \<and> sem_device y = sem_device x
    \<and> sem_value x \<le> sem_value y"
proof -
  have "\<exists>y. semaphores (fold sync_step calls s) p = Some y \<and> sem_le x y"
    using assms(1,3)
  proof (induction calls arbitrary: s x)
    case (Cons c calls)
    obtain y where y: "semaphores (sync_step c s) p = Some y" "sem_le x y"
      using sync_step_le [of c p s x] Cons.prems by auto
    then show ?case using Cons.IH [OF y(1)] Cons.prems(2) by (auto intro: sem_le_trans)
  qed auto
  then show ?thesis using assms(2) by (auto simp: sem_le_def)
qed

lemma timeline_never_decreases_witness:
  "\<exists>y. semaphores (fold sync_step [SignalSemaphore 1 (Some (16, 5)), SignalSemaphore 1 (Some (16, 2))]
      ((vk_init (cuda_init [] Map.empty) [] [] None)\<lparr>devices := [(1, [])],
         semaphores := [16 \<mapsto> new_semaphore\<lparr>sem_device := 1, timeline := True, sem_value := 3\<rparr>]\<rparr>)) 16 = Some y
    \<and> timeline y \<and> sem_device y = 1 \<and> 3 \<le> sem_value y"
proof -
  let ?s = "(vk_init (cuda_init [] Map.empty) [] [] None)\<lparr>devices := [(1, [])],
         semaphores := [16 \<mapsto> new_semaphore\<lparr>sem_device := 1, timeline := True, sem_value := 3\<rparr>]\<rparr>"
  show ?thesis
    using timeline_never_decreases [of ?s 16 "new_semaphore\<lparr>sem_device := 1, timeline := True, sem_value := 3\<rparr>"
        "[SignalSemaphore 1 (Some (16, 5)), SignalSemaphore 1 (Some (16, 2))]"]
    by (simp add: new_semaphore_def)
qed

section \<open>A semaphore shared with the CUDA library\<close>

lemma refresh_value:
  assumes "refreshSemaphoreFromExternalFD p x s = (VK_SUCCESS, y, s')"
    and "sem_externalFD x \<ge> 0" "fdTable (os s) (sem_externalFD x) = Some f"
  shows "sem_payload y = (if timeline x then max (sem_value x) (file_payload (os s) f)
    else if file_payload (os s) f \<noteq> 0 then 1 else 0)"
  using assms pread_payload [OF _ assms(3)]
  by (auto simp: refreshSemaphoreFromExternalFD_def Let_def sem_payload_def split: option.splits prod.splits if_splits)

lemma vkGetSemaphoreFdKHR_success:
  assumes "vkGetSemaphoreFdKHR device (Some i) out mkstemp ftruncate dup s = ((VK_SUCCESS, Some d), s')"
  obtains x where "semaphores s' (sg_semaphore i) = Some x" "sem_device x = device" "validVkDevice s' device"
    "\<exists>process. os s' = dup_fd (sem_externalFD x) d process"
proof -
  from assms obtain x0 x s1 s2 where 0: "semaphores s (sg_semaphore i) = Some x0" "validVkDevice s device" "sem_device x0 = device"
    and 1: "backing_semaphore (sg_semaphore i) x0 mkstemp ftruncate s = (Inr x, s1)"
    and 2: "syncSemaphoreToExternalFD x s1 = (VK_SUCCESS, s2)"
    and 3: "s' = s2\<lparr>os := dup_fd (sem_externalFD x) d (os s2)\<rparr>"
    by (auto simp: vkGetSemaphoreFdKHR_def split: if_splits option.splits prod.splits sum.splits)
  have b: "semaphores s1 (sg_semaphore i) = Some x" "sem_device x = device" "devices s1 = devices s"
    using 0 1 by (auto simp: backing_semaphore_def Let_def put_semaphore_def split: if_splits option.splits prod.splits)
  have "semaphores s2 = semaphores s1" "devices s2 = devices s1"
    using 2 by (auto simp: syncSemaphoreToExternalFD_def split: if_splits prod.splits)
  then show thesis
    using that [of x] b 0(2) 3 by (auto simp: validVkDevice_def)
qed

lemma cuda_signal_stores:
  assumes imported: "cuImportExternalSemaphore True (Some \<lparr>semaphore_type = 1, semaphore_handle_fd = d, semaphore_handle_flags = 0\<rparr>)
      fstat c = ((CUDA_SUCCESS, Some q), c1)"
    and signal: "cuSignalExternalSemaphoresAsync True [\<lparr>params_semaphore = q, fence_value = v, params_flags = 0\<rparr>] answers c1
      = (CUDA_SUCCESS, c2)"
    and opened: "fdTable c d = Some f"
  shows "fdTable c2 = fdTable c" "file_payload c2 f = (if v = 0 then 1 else v)"
proof -
  have c1: "heap c1 q = Some (SemaphoreObj \<lparr>semaphore_fd = d\<rparr>)" "q \<in> set (gExternalSemaphores c1)" "fdTable c1 = fdTable c"
    using imported by (auto simp: cuImportExternalSemaphore_def new_object_def split: if_splits option.splits list.splits prod.splits)
  let ?v = "if v = 0 then 1 else v"
  obtain answers' where "pwrite_loop d (le_bytes ?v) 0 answers c1 = (True, answers', c2)"
    using signal c1(1,2) by (auto simp: cuSignalExternalSemaphoresAsync_def Let_def split: prod.splits bool.splits cong: if_cong)
  then have "c2 = write_file f 0 (le_bytes ?v) c1"
    using opened c1(3) by (intro pwrite_payload) simp_all
  then show "fdTable c2 = fdTable c" "file_payload c2 f = ?v"
    using c1(3) file_payload_written [of f ?v c1] by simp_all
qed

text \<open>C10: A semaphore exported by the Vulkan driver, imported by the CUDA library and signalled there with a
  value: when the counter is read next, it is the larger of the old counter and that value (0 counts as 1), for a
  binary semaphore 1.\<close>

lemma cuda_signal_reaches_vulkan:
  assumes exported: "vkGetSemaphoreFdKHR device (Some i) True mkstemp ftruncate dup s = ((VK_SUCCESS, Some d), s1)"
    and x: "semaphores s1 (sg_semaphore i) = Some x" "sem_externalFD x \<ge> 0"
    and kernel: "d \<noteq> sem_externalFD x" "fdTable (os s1) (sem_externalFD x) = Some f"
    and imported: "cuImportExternalSemaphore True (Some \<lparr>semaphore_type = 1, semaphore_handle_fd = d, semaphore_handle_flags = 0\<rparr>)
      fstat (os s1) = ((CUDA_SUCCESS, Some q), c1)"
    and signal: "cuSignalExternalSemaphoresAsync True [\<lparr>params_semaphore = q, fence_value = v, params_flags = 0\<rparr>] answers c1
      = (CUDA_SUCCESS, c2)"
    and counter: "vkGetSemaphoreCounterValue device (sg_semaphore i) True (s1\<lparr>os := c2, ioAnswers := io\<rparr>)
      = ((VK_SUCCESS, Some n), s2)"
  shows "n = (if timeline x then max (sem_value x) (if v = 0 then 1 else v) else 1)"
proof -
  obtain process where "os s1 = dup_fd (sem_externalFD x) d process"
    using vkGetSemaphoreFdKHR_success [OF exported] x(1) by (metis option.inject)
  then have "fdTable (os s1) d = Some f"
    using kernel by (simp add: dup_fd_def)
  note stored = cuda_signal_stores [OF imported signal this]
  obtain y s3 where r: "refreshSemaphoreFromExternalFD (sg_semaphore i) x (s1\<lparr>os := c2, ioAnswers := io\<rparr>) = (VK_SUCCESS, y, s3)"
    and n: "n = sem_payload y"
    using counter x(1) by (auto simp: vkGetSemaphoreCounterValue_def split: if_splits prod.splits)
  have "sem_payload y = (if timeline x then max (sem_value x) (file_payload c2 f) else if file_payload c2 f \<noteq> 0 then 1 else 0)"
    using refresh_value [OF r x(2), of f] kernel(2) stored(1) by simp
  then show ?thesis
    using n stored(2) by (simp split: if_splits)
qed

text \<open>A process in which the driver exports the semaphore at 16 and the library imports it at 32.\<close>

lemma cuda_signal_reaches_vulkan_witness:
  "\<exists>c1 c2 s1. cuSignalExternalSemaphoresAsync True [\<lparr>params_semaphore = 32, fence_value = 7, params_flags = 0\<rparr>] [Moved 8] c1
      = (CUDA_SUCCESS, c2)
    \<and> fst (vkGetSemaphoreCounterValue 1 16 True (s1\<lparr>os := c2, ioAnswers := [Interrupted, Moved 3, Moved 8]\<rparr>)) = (VK_SUCCESS, Some 7)"
proof -
  let ?x = "new_semaphore\<lparr>sem_device := 1, timeline := True, sem_value := 3, sem_exportHandleTypes := 1\<rparr>"
  let ?s = "(vk_init (cuda_init [Some 32] Map.empty) [Moved 8] [] None)\<lparr>devices := [(1, [])], semaphores := [16 \<mapsto> ?x]\<rparr>"
  let ?i = "\<lparr>sg_sType = SEMAPHORE_GET_FD_INFO, sg_semaphore = 16, sg_handleType = HANDLE_TYPE_OPAQUE_FD_BIT\<rparr>"
  have len: "length (le_bytes (w :: u64)) = 8" for w by (simp add: sizeof_def)
  obtain s1 where e: "vkGetSemaphoreFdKHR 1 (Some ?i) True (Some (5, 9)) True (Some 6) ?s = ((VK_SUCCESS, Some 6), s1)"
    and x1: "semaphores s1 16 = Some (?x\<lparr>sem_externalFD := 5\<rparr>)" "fdTable (os s1) 5 = Some 9" "fdTable (os s1) 6 = Some 9"
      "newAnswers (os s1) = [Some 32]" "heap (os s1) = Map.empty" "devices s1 = [(1, [])]" "gExternalSemaphores (os s1) = []"
    by (auto simp: vkGetSemaphoreFdKHR_def vk_init_def cuda_init_def new_semaphore_def backing_semaphore_def Let_def
        validVkDevice_def map_contains_def syncSemaphoreToExternalFD_def open_temporary_def dup_fd_def put_semaphore_def
        sem_payload_def write_file_def len)
  obtain c1 where i: "cuImportExternalSemaphore True (Some \<lparr>semaphore_type = 1, semaphore_handle_fd = 6, semaphore_handle_flags = 0\<rparr>)
      (Some 8) (os s1) = ((CUDA_SUCCESS, Some 32), c1)"
    and c1: "heap c1 32 = Some (SemaphoreObj \<lparr>semaphore_fd = 6\<rparr>)" "fdTable c1 = fdTable (os s1)" "32 \<in> set (gExternalSemaphores c1)"
    using x1 by (auto simp: cuImportExternalSemaphore_def new_object_def)
  obtain c2 where g: "cuSignalExternalSemaphoresAsync True [\<lparr>params_semaphore = 32, fence_value = 7, params_flags = 0\<rparr>] [Moved 8] c1
      = (CUDA_SUCCESS, c2)" and t: "fdTable c2 = fdTable c1"
    using c1 x1 by (auto simp: cuSignalExternalSemaphoresAsync_def len write_file_def)
  obtain n s2 where n: "vkGetSemaphoreCounterValue 1 16 True (s1\<lparr>os := c2, ioAnswers := [Interrupted, Moved 3, Moved 8]\<rparr>)
      = ((VK_SUCCESS, Some n), s2)"
    using x1 c1 t by (auto simp: vkGetSemaphoreCounterValue_def refreshSemaphoreFromExternalFD_def validVkDevice_def
        map_contains_def new_semaphore_def Let_def)
  have "n = 7"
    using cuda_signal_reaches_vulkan [OF e _ _ _ _ i g, of "?x\<lparr>sem_externalFD := 5\<rparr>" 9] n x1
    by (simp add: new_semaphore_def max_def)
  then show ?thesis using g n by (metis fst_conv)
qed

section \<open>Results of queries\<close>

lemma store_at_inside:
  assumes "unat offset = n" "length bs = L" "n + L \<le> length d"
  obtains d' where "store_at offset bs (d, ok) = (d', ok)" "length d' = length d"
    "\<And>j. j < length d \<Longrightarrow> d' ! j = (if n \<le> j \<and> j < n + L then bs ! (j - n) else d ! j)"
proof -
  let ?d = "take n d @ bs @ drop (n + L) d"
  have "?d ! j = (if n \<le> j \<and> j < n + L then bs ! (j - n) else d ! j)" if "j < length d" for j
    using assms that by (auto simp: nth_append)
  then show thesis
    using that [of ?d] assms by (simp add: store_at_def)
qed

lemma query_rows_spec:
  assumes "\<And>i. length (row i) = L" "L \<le> unat stride"
    and "\<forall>i<n. unat stride * (q + i) + L \<le> length d" "length d < 2 ^ 64" "0 < L"
  shows "\<exists>d'. query_rows row stride q n (d, ok) = (d', ok) \<and> length d' = length d
    \<and> (\<forall>i. q \<le> i \<and> i < q + n \<longrightarrow> (\<forall>k<L. d' ! (unat stride * i + k) = row i ! k))
    \<and> (\<forall>j<length d. (\<forall>i. q \<le> i \<and> i < q + n \<longrightarrow> \<not> (unat stride * i \<le> j \<and> j < unat stride * i + L)) \<longrightarrow> d' ! j = d ! j)"
  using assms(3,4)
proof (induction n arbitrary: q d)
  case 0
  then show ?case by auto
next
  case (Suc n)
  let ?S = "unat stride"
  have here: "?S * q + L \<le> length d" using Suc.prems(1) by (metis add.right_neutral zero_less_Suc)
  have small: "?S * q < 2 ^ 64" using here Suc.prems(2) by simp
  have "(word_of_nat (?S * q) :: u64) = word_of_nat q * stride" by simp
  then have "unat (word_of_nat q * stride :: u64) = ?S * q"
    using u64_unat_of_nat [OF small] by (simp add: mult.commute)
  then obtain d1 where d1: "store_at (word_of_nat q * stride) (row q) (d, ok) = (d1, ok)" "length d1 = length d"
    "\<And>j. j < length d \<Longrightarrow> d1 ! j = (if ?S * q \<le> j \<and> j < ?S * q + L then row q ! (j - ?S * q) else d ! j)"
    using store_at_inside [OF _ assms(1) here] by blast
  have rest: "\<forall>i<n. ?S * (Suc q + i) + L \<le> length d1"
  proof (intro allI impI)
    fix i assume "i < n"
    then have "?S * (q + Suc i) + L \<le> length d" using Suc.prems(1) by blast
    then show "?S * (Suc q + i) + L \<le> length d1" by (simp add: d1(2))
  qed
  obtain d2 where d2: "query_rows row stride (Suc q) n (d1, ok) = (d2, ok)" "length d2 = length d1"
    and rows: "\<And>i k. Suc q \<le> i \<Longrightarrow> i < Suc q + n \<Longrightarrow> k < L \<Longrightarrow> d2 ! (?S * i + k) = row i ! k"
    and other: "\<And>j. j < length d1 \<Longrightarrow>
      (\<And>i. Suc q \<le> i \<Longrightarrow> i < Suc q + n \<Longrightarrow> \<not> (?S * i \<le> j \<and> j < ?S * i + L)) \<Longrightarrow> d2 ! j = d1 ! j"
    using Suc.IH [OF rest] Suc.prems(2) d1(2) by auto
  have before: "\<not> (?S * i \<le> ?S * q + k)" if "Suc q \<le> i" "k < L" for i k
  proof -
    have "?S * Suc q \<le> ?S * i" using that(1) by (rule mult_le_mono2)
    then show ?thesis using that(2) assms(2) by simp
  qed
  have "d2 ! (?S * i + k) = row i ! k" if "q \<le> i" "i < q + Suc n" "k < L" for i k
  proof (cases "i = q")
    case True
    have j: "?S * q + k < length d" using here that(3) by simp
    then have "d2 ! (?S * q + k) = d1 ! (?S * q + k)"
      using before that(3) d1(2) by (intro other) auto
    then show ?thesis using True d1(3) [OF j] that(3) by simp
  next
    case False
    then show ?thesis using rows that by simp
  qed
  moreover have "d2 ! j = d ! j"
    if "j < length d" "\<And>i. q \<le> i \<Longrightarrow> i < q + Suc n \<Longrightarrow> \<not> (?S * i \<le> j \<and> j < ?S * i + L)" for j
  proof -
    have "d2 ! j = d1 ! j" using that d1(2) by (intro other) auto
    then show ?thesis using d1(3) [OF that(1)] that(2) [of q] by auto
  qed
  ultimately show ?case using d1 d2 by auto
qed

definition queryValueSize :: "bool \<Rightarrow> nat" where
  "queryValueSize wide = (if wide then 8 else 4)"

lemma countBits_bound_aux: "unat bits < 2 ^ k \<Longrightarrow> unat (countBits bits n) \<le> unat n + k"
proof (induction k arbitrary: bits n)
  case 0
  then show ?case by (simp add: countBits.simps unat_eq_0)
next
  case (Suc k)
  show ?case
  proof (cases "bits = 0")
    case True
    then show ?thesis by (simp add: countBits.simps)
  next
    case False
    have "unat (drop_bit 1 bits) < 2 ^ k" using Suc.prems by (simp add: drop_bit_eq_div unat_div)
    moreover have "unat (n + (bits AND 1)) \<le> unat n + 1"
    proof -
      have "unat (n + (bits AND 1)) \<le> unat n + unat (bits AND 1)" by (simp add: unat_word_ariths)
      moreover have "unat (bits AND 1) \<le> 1"
        using mod_less_divisor [of 2 "unat bits"] by (simp add: and_one_eq unat_mod)
      ultimately show ?thesis by simp
    qed
    ultimately have "unat (countBits (drop_bit 1 bits) (n + (bits AND 1))) \<le> unat n + Suc k"
      using Suc.IH [of "drop_bit 1 bits" "n + (bits AND 1)"] by linarith
    then show ?thesis using False by (subst countBits.simps) simp
  qed
qed

lemma countBits_bound: "unat (countBits bits n) \<le> unat n + 32"
  using countBits_bound_aux [of bits 32 n] unsigned_less [of bits, where ?'a = nat] by simp

lemma length_query_row:
  assumes "valueCount \<noteq> 0"
  shows "length (query_row q valueCount wide withAvailability i)
    = (unat valueCount + (if withAvailability then 1 else 0)) * queryValueSize wide"
proof -
  have "0 < unat valueCount" using assms by (simp add: unat_gt_0)
  then obtain n where "unat valueCount = Suc n" by (cases "unat valueCount") auto
  then show ?thesis by (simp add: query_row_def Let_def sizeof_def queryValueSize_def)
qed

lemma query_valueCount_bound: "query_valueCount q \<noteq> 0" "unat (query_valueCount q) \<le> 32"
proof -
  have m: "unat (max (countBits b 0) 1) \<le> 32 \<and> max (countBits b 0) 1 \<noteq> 0" for b
    using countBits_bound [of b 0] by (auto simp: max_def word_le_nat_alt)
  show "query_valueCount q \<noteq> 0" "unat (query_valueCount q) \<le> 32"
    using m by (simp_all add: query_valueCount_def)
qed

lemma unat_query_rowSize:
  "unat (query_rowSize q wide withAvailability)
    = (unat (query_valueCount q) + (if withAvailability then 1 else 0)) * queryValueSize wide"
proof -
  let ?n = "query_valueCount q + (if withAvailability then 1 else 0)"
  have n: "unat ?n = unat (query_valueCount q) + (if withAvailability then 1 else 0)"
    using query_valueCount_bound(2) [of q] by (subst unat_add_lem [THEN iffD1]) auto
  have "unat (ucast ?n * (if wide then 8 else 4) :: u64) = unat ?n * queryValueSize wide"
    using query_valueCount_bound(2) [of q] n
    by (subst unat_mult_lem [THEN iffD1]) (auto simp: unat_ucast32 queryValueSize_def)
  then show ?thesis using n by (simp add: query_rowSize_def)
qed

text \<open>C11: A successful read of query results whose stride does not overflow leaves everything else alone: the
  row of each query holds its value and availability at the width that was asked for, the other bytes of the caller's
  memory keep their values, and nothing is written outside it.\<close>

lemma query_results_inside:
  assumes call: "vkGetQueryPoolResults device p firstQuery queryCount (Some bs) stride queryFlags s
      = ((VK_SUCCESS, Some bs'), s')"
    and pool: "queryPools s p = Some q" and mem: "length bs < 2 ^ 64"
    and stride: "unat stride * unat queryCount + 512 < 2 ^ 64"
  defines "wide \<equiv> queryFlags AND 1 \<noteq> 0" and "available \<equiv> queryFlags AND 4 \<noteq> 0"
  shows "s' = s \<and> length bs' = length bs
    \<and> (\<forall>i < unat queryCount. \<forall>k < unat (query_rowSize q wide available).
         bs' ! (unat stride * i + k) = query_row q (query_valueCount q) wide available (unat firstQuery + i) ! k)
    \<and> (\<forall>j < length bs. (\<forall>i < unat queryCount. \<not> (unat stride * i \<le> j \<and> j < unat stride * i + unat (query_rowSize q wide available)))
         \<longrightarrow> bs' ! j = bs ! j)"
proof (cases "queryCount = 0")
  case True
  then show ?thesis
    using call pool by (auto simp: vkGetQueryPoolResults_def Let_def split: if_splits)
next
  case False
  let ?L = "unat (query_rowSize q wide available)"
  let ?row = "\<lambda>i. query_row q (query_valueCount q) wide available (unat firstQuery + i)"
  have L: "length (?row i) = ?L" for i
    by (simp add: unat_query_rowSize length_query_row query_valueCount_bound)
  have "query_valueCount q \<noteq> 0" "unat (query_valueCount q) \<le> 32" by (rule query_valueCount_bound)+
  then have Lb: "0 < ?L" "?L \<le> 512"
    unfolding unat_query_rowSize by (auto simp: queryValueSize_def unat_gt_0)
  have one: "unat (queryCount - 1) = unat queryCount - 1" using False by (rule unat_minus_one)
  have required: "unat (ucast (queryCount - 1) * stride + query_rowSize q wide available) = (unat queryCount - 1) * unat stride + ?L"
  proof -
    have "(unat queryCount - 1) * unat stride \<le> unat stride * unat queryCount" by (simp add: mult.commute)
    then have le: "(unat queryCount - 1) * unat stride + 512 < 2 ^ 64" using stride by linarith
    then have "unat (ucast (queryCount - 1) * stride) = (unat queryCount - 1) * unat stride"
      by (subst unat_mult_lem [THEN iffD1]) (simp_all add: unat_ucast32 one)
    then show ?thesis
      using le Lb by (subst unat_add_lem [THEN iffD1]) simp_all
  qed
  have passed: "\<not> (word_of_nat (length bs) < ucast (queryCount - 1) * stride + query_rowSize q wide available
      \<or> stride < query_rowSize q wide available)"
    and run: "((VK_SUCCESS, Some bs'), s') = (case query_rows ?row stride 0 (unat queryCount) (bs, True) of
        (bs1, ok) \<Rightarrow> ((VK_SUCCESS, Some bs1), if ok then s else undefined_vk s))"
    using call False unfolding vkGetQueryPoolResults_def pool wide_def available_def Let_def
    by (simp_all split: if_splits)
  have checked: "(unat queryCount - 1) * unat stride + ?L \<le> length bs" "?L \<le> unat stride"
    using passed unfolding word_less_nat_alt required by (simp_all add: u64_unat_of_nat [OF mem])
  have rows: "bs' = d \<and> s' = (if ok then s else undefined_vk s)"
    if "query_rows ?row stride 0 (unat queryCount) (bs, True) = (d, ok)" for d ok
    using run that by simp
  have "\<forall>i < unat queryCount. unat stride * (0 + i) + ?L \<le> length bs"
  proof (intro allI impI)
    fix i assume "i < unat queryCount"
    then have "i \<le> unat queryCount - 1" by linarith
    then have "unat stride * i \<le> unat stride * (unat queryCount - 1)" by (rule mult_le_mono2)
    then have "unat stride * i \<le> (unat queryCount - 1) * unat stride" by (simp add: mult.commute)
    then show "unat stride * (0 + i) + ?L \<le> length bs" using checked(1) by (simp only: add_0)
  qed
  from query_rows_spec [of ?row, OF L checked(2) this mem Lb(1), of True]
  show ?thesis using rows by fastforce
qed

definition sample_pool :: QueryPoolState where
  "sample_pool = \<lparr>pool_device = 1, pool_type = 0, pool_count = 4, pipelineStatistics = 0,
     pool_values = [0, 5, 7, 0], pool_available = [False, True, False, False]\<rparr>"

definition sample_driver :: vk where
  "sample_driver = (vk_init (cuda_init [] Map.empty) [] [] None)\<lparr>devices := [(1, [])], queryPools := [16 \<mapsto> sample_pool]\<rparr>"

lemma sample_facts:
  "queryPools sample_driver 16 = Some sample_pool" "validVkDevice sample_driver 1" "pool_device sample_pool = 1"
  "pool_count sample_pool = 4" "query_rowSize sample_pool False False = 4" "vk_broken sample_driver = False"
  by (simp_all add: sample_driver_def sample_pool_def validVkDevice_def map_contains_def query_rowSize_def
      query_valueCount_def vk_init_def)

lemma query_results_inside_witness:
  "\<exists>bs'. fst (vkGetQueryPoolResults 1 16 1 2 (Some (replicate 8 0)) 4 0 sample_driver) = (VK_SUCCESS, Some bs')
    \<and> length bs' = 8"
proof -
  obtain bs' s' where call: "vkGetQueryPoolResults 1 16 1 2 (Some (replicate 8 0)) 4 0 sample_driver = ((VK_SUCCESS, Some bs'), s')"
    by (cases "query_rows (\<lambda>i. query_row sample_pool (query_valueCount sample_pool) False False (unat (1 :: u32) + i)) 4 0
          (unat (2 :: u32)) (replicate 8 0, True)")
      (simp add: vkGetQueryPoolResults_def Let_def sample_facts query_range_def)
  show ?thesis
    using query_results_inside [OF call sample_facts(1)] call by simp
qed

text \<open>The check of the size is not enough when the stride overflows: three rows with a stride of \<open>2 ^ 63\<close> pass
  it for a memory of 4 bytes, and the second row is written outside.\<close>

lemma query_stride_overflow:
  "vk_broken (snd (vkGetQueryPoolResults 1 16 1 3 (Some (replicate 4 0)) (2 ^ 63) 0 sample_driver))"
proof -
  let ?rows = "query_rows (\<lambda>i. query_row sample_pool (query_valueCount sample_pool) False False (unat (1 :: u32) + i)) (2 ^ 63) 0
          (unat (3 :: u32)) (replicate 4 0, True)"
  have "unat (3 :: u32) = Suc (Suc (Suc 0))" by simp
  moreover have "snd (query_rows row (2 ^ 63) 0 (Suc (Suc (Suc 0))) (replicate 4 0, True)) = False" for row
    by (simp add: store_at_def split: prod.split)
  ultimately have "snd ?rows = False" by (simp only: HOL.simp_thms)
  then show ?thesis
    by (cases ?rows) (simp add: vkGetQueryPoolResults_def Let_def sample_facts query_range_def undefined_vk_def)
qed

end
