(* ===== verification/VkMemory.thy ===== *)
theory VkMemory
  imports VkSync
begin

text \<open>
  Device memory, buffers and images of the Vulkan driver: allocation, binding, mapping, export and import,
  \<^verbatim>\<open>imb_vkCreateBuffer\<close> to \<^verbatim>\<open>imb_vkInvalidateMappedMemoryRanges\<close>, with the helpers that give memory its
  bytes and keep them equal to a shared file.

  The bytes of a memory object are a list that stays empty until they are needed. A copy into or out of them that
  leaves the list is undefined. The host is asked only where the code does: such a function is a program over
  the driver's state, and a failure of the connection is a result of the call, except that a call may never return.
\<close>

section \<open>Backing\<close>

text \<open>\<^verbatim>\<open>ensureMemoryBackingLocked(memory, false)\<close>: the bytes alone.\<close>

definition ensureHostBacking :: "ptr \<Rightarrow> vk \<Rightarrow> VkResult \<times> vk" where
  "ensureHostBacking memory s =
    (case memories s memory of
       None \<Rightarrow> (VK_ERROR_MEMORY_MAP_FAILED, s)
     | Some m \<Rightarrow> (VK_SUCCESS,
         if mem_bytes m = [] then put_memory memory (m\<lparr>mem_bytes := replicate (unat (mem_size m)) 0\<rparr>) s else s))"

definition set_memory_resource :: "ptr \<Rightarrow> u64 \<Rightarrow> (vk, VkResult) prog" where
  "set_memory_resource memory resource s =
    (case memories s memory of
       None \<Rightarrow> (Inr VK_SUCCESS, undefined_vk s)
     | Some m \<Rightarrow> (Inr VK_SUCCESS, put_memory memory (m\<lparr>mem_resourceID := resource\<rparr>) s))"

definition ensureMemoryBacking :: "ptr \<Rightarrow> bool \<Rightarrow> (vk, VkResult) prog" where
  "ensureMemoryBacking memory needsMetalResource s =
    (case ensureHostBacking memory s of
       (r, s1) \<Rightarrow>
         (case memories s1 memory of
            None \<Rightarrow> (Inr r, s1)
          | Some m \<Rightarrow>
              if r \<noteq> VK_SUCCESS \<or> \<not> needsMetalResource \<or> mem_resourceID m \<noteq> 0 then (Inr r, s1)
              else if vkBridge s1 = None then (Inr VK_ERROR_DEVICE_LOST, s1)
              else catching
                (andThen (via_bridge (bridge_createBuffer (mem_size m))) (set_memory_resource memory))
                (ret VK_ERROR_OUT_OF_DEVICE_MEMORY) s1))"

section \<open>The shared file\<close>

text \<open>The loops, from an offset of the file; unlike those of the semaphores they give up at an interruption.\<close>

fun memory_pwrite :: "fd \<Rightarrow> nat \<Rightarrow> bytes \<Rightarrow> nat \<Rightarrow> io_answer list \<Rightarrow> cuda \<Rightarrow> bool \<times> io_answer list \<times> cuda" where
  "memory_pwrite d base data written [] s = (written \<ge> length data, [], s)"
| "memory_pwrite d base data written (a # as) s =
     (if written \<ge> length data then (True, a # as, s)
      else case (a, fdTable s d) of
        (Moved n, Some fileno) \<Rightarrow>
          (let k = min n (length data - written) in
           if k = 0 then (False, as, s)
           else memory_pwrite d base data (written + k) as
             (write_file fileno (base + written) (take k (drop written data)) s))
      | _ \<Rightarrow> (False, as, s))"

fun memory_pread :: "fd \<Rightarrow> nat \<Rightarrow> nat \<Rightarrow> bytes \<Rightarrow> io_answer list \<Rightarrow> cuda \<Rightarrow> bool \<times> bytes \<times> io_answer list" where
  "memory_pread d base wanted got [] s = (length got \<ge> wanted, got, [])"
| "memory_pread d base wanted got (a # as) s =
     (if length got \<ge> wanted then (True, got, a # as)
      else case (a, fdTable s d) of
        (Moved n, Some fileno) \<Rightarrow>
          (let k = min n (wanted - length got) in
           if k = 0 then (False, got, as)
           else memory_pread d base wanted
             (got @ map (\<lambda>i. cells s (FileByte fileno (base + i))) [length got..<length got + k]) as s)
      | _ \<Rightarrow> (False, got, as))"

text \<open>Copying into and out of the bytes of a memory object.\<close>

definition splice :: "nat \<Rightarrow> bytes \<Rightarrow> bytes \<Rightarrow> bytes" where
  "splice offset bs data = take offset data @ bs @ drop (offset + length bs) data"

definition slice_of :: "nat \<Rightarrow> nat \<Rightarrow> bytes \<Rightarrow> bytes" where
  "slice_of offset n data = take n (drop offset data)"

definition store_memory :: "ptr \<Rightarrow> nat \<Rightarrow> bytes \<Rightarrow> vk \<Rightarrow> vk" where
  "store_memory memory offset bs s =
    (case memories s memory of
       None \<Rightarrow> undefined_vk s
     | Some m \<Rightarrow>
         if offset + length bs \<le> length (mem_bytes m)
         then put_memory memory (m\<lparr>mem_bytes := splice offset bs (mem_bytes m)\<rparr>) s
         else undefined_vk s)"

definition load_memory :: "ptr \<Rightarrow> nat \<Rightarrow> nat \<Rightarrow> vk \<Rightarrow> bytes \<times> vk" where
  "load_memory memory offset n s =
    (case memories s memory of
       None \<Rightarrow> (replicate n 0, undefined_vk s)
     | Some m \<Rightarrow>
         if offset + n \<le> length (mem_bytes m) then (slice_of offset n (mem_bytes m), s)
         else (replicate n 0, undefined_vk s))"

text \<open>The test \<^verbatim>\<open>offset > limit || size > limit - offset\<close> of the code.\<close>

definition outside :: "u64 \<Rightarrow> u64 \<Rightarrow> u64 \<Rightarrow> bool" where
  "outside offset sz limit \<longleftrightarrow> offset > limit \<or> sz > limit - offset"

definition syncMemoryToExternalFD :: "ptr \<Rightarrow> u64 \<Rightarrow> u64 \<Rightarrow> vk \<Rightarrow> VkResult \<times> vk" where
  "syncMemoryToExternalFD memory offset sz s =
    (if memory = 0 then (VK_SUCCESS, s)
     else case memories s memory of
       None \<Rightarrow> (VK_SUCCESS, undefined_vk s)
     | Some m \<Rightarrow>
         if mem_externalFD m < 0 \<or> sz = 0 then (VK_SUCCESS, s)
         else (case ensureHostBacking memory s of
           (r, s1) \<Rightarrow>
             if r \<noteq> VK_SUCCESS then (r, s1)
             else if outside offset sz (mem_size m) then (VK_ERROR_MEMORY_MAP_FAILED, s1)
             else (case load_memory memory (unat offset) (unat sz) s1 of
               (data, s2) \<Rightarrow>
                 (case memory_pwrite (mem_externalFD m) (unat offset) data 0 (ioAnswers s2) (os s2) of
                   (ok, answers, process) \<Rightarrow>
                     ((if ok then VK_SUCCESS else VK_ERROR_OUT_OF_HOST_MEMORY),
                      s2\<lparr>ioAnswers := answers, os := process\<rparr>)))))"

definition refreshMemoryFromExternalFD :: "ptr \<Rightarrow> u64 \<Rightarrow> u64 \<Rightarrow> vk \<Rightarrow> VkResult \<times> vk" where
  "refreshMemoryFromExternalFD memory offset sz s =
    (if memory = 0 then (VK_SUCCESS, s)
     else case memories s memory of
       None \<Rightarrow> (VK_SUCCESS, undefined_vk s)
     | Some m \<Rightarrow>
         if mem_externalFD m < 0 \<or> sz = 0 then (VK_SUCCESS, s)
         else (case ensureHostBacking memory s of
           (r, s1) \<Rightarrow>
             if r \<noteq> VK_SUCCESS then (r, s1)
             else if outside offset sz (mem_size m) then (VK_ERROR_MEMORY_MAP_FAILED, s1)
             else (case memory_pread (mem_externalFD m) (unat offset) (unat sz) [] (ioAnswers s1) (os s1) of
               (ok, got, answers) \<Rightarrow>
                 ((if ok then VK_SUCCESS else VK_ERROR_MEMORY_MAP_FAILED),
                  store_memory memory (unat offset) got (s1\<lparr>ioAnswers := answers\<rparr>)))))"

section \<open>Backing of images\<close>

abbreviation (input) IMB_IMAGE_FORMAT_RGBA8 :: u32 where "IMB_IMAGE_FORMAT_RGBA8 \<equiv> 1"
abbreviation (input) IMB_IMAGE_FORMAT_BGRA8 :: u32 where "IMB_IMAGE_FORMAT_BGRA8 \<equiv> 2"
abbreviation (input) IMB_TEXTURE_TYPE_2D :: u32 where "IMB_TEXTURE_TYPE_2D \<equiv> 1"

definition set_image_resource :: "ptr \<Rightarrow> u64 \<Rightarrow> (vk, VkResult) prog" where
  "set_image_resource img resource s =
    (case images s img of
       None \<Rightarrow> (Inr VK_SUCCESS, undefined_vk s)
     | Some x \<Rightarrow> (Inr VK_SUCCESS, put_image img (x\<lparr>img_resourceID := resource\<rparr>) s))"

definition pixelBytes :: "ImageState \<Rightarrow> u64" where
  "pixelBytes x = ucast (extWidth (img_extent x)) * ucast (extHeight (img_extent x)) * ucast (extDepth (img_extent x)) * 4"

definition plainImage :: "ImageState \<Rightarrow> bool" where
  "plainImage x \<longleftrightarrow> (img_format x = VK_FORMAT_R8G8B8A8_UNORM \<or> img_format x = VK_FORMAT_B8G8R8A8_UNORM)
    \<and> extWidth (img_extent x) \<noteq> 0 \<and> extHeight (img_extent x) \<noteq> 0 \<and> extDepth (img_extent x) \<noteq> 0
    \<and> (if img_type x = VK_IMAGE_TYPE_3D
       then img_mipLevels x = 1 \<and> img_arrayLayers x = 1 \<and> img_samples x = VK_SAMPLE_COUNT_1_BIT
       else extDepth (img_extent x) = 1)"

definition ensureImageBacking :: "ptr \<Rightarrow> (vk, VkResult) prog" where
  "ensureImageBacking img s =
    (case images s img of
       None \<Rightarrow> (Inr VK_ERROR_FORMAT_NOT_SUPPORTED, s)
     | Some x \<Rightarrow>
         if vkBridge s = None \<or> \<not> plainImage x then (Inr VK_ERROR_FORMAT_NOT_SUPPORTED, s)
         else if pixelBytes x > ucast IMB_PROTOCOL_MAX_PAYLOAD then (Inr VK_ERROR_OUT_OF_DEVICE_MEMORY, s)
         else if img_resourceID x \<noteq> 0 then (Inr VK_SUCCESS, s)
         else catching
           (andThen (via_bridge (bridge_createImage (extWidth (img_extent x)) (extHeight (img_extent x))
                (if img_format x = VK_FORMAT_R8G8B8A8_UNORM then IMB_IMAGE_FORMAT_RGBA8 else IMB_IMAGE_FORMAT_BGRA8)
                (extDepth (img_extent x)) (img_type x = VK_IMAGE_TYPE_3D)))
              (set_image_resource img))
           (ret VK_ERROR_OUT_OF_DEVICE_MEMORY) s)"

definition ensureSparseImageBacking :: "ptr \<Rightarrow> (vk, VkResult) prog" where
  "ensureSparseImageBacking img s =
    (case images s img of
       None \<Rightarrow> (Inr VK_ERROR_FORMAT_NOT_SUPPORTED, s)
     | Some x \<Rightarrow>
         if vkBridge s = None \<or> img_flags x AND VK_IMAGE_CREATE_SPARSE_RESIDENCY_BIT = 0
           \<or> img_type x \<noteq> VK_IMAGE_TYPE_2D \<or> img_samples x \<noteq> VK_SAMPLE_COUNT_1_BIT \<or> sparseTileBytes x = 0
           \<or> extDepth (img_extent x) \<noteq> 1 \<or> extWidth (img_extent x) = 0 \<or> extHeight (img_extent x) = 0
         then (Inr VK_ERROR_FORMAT_NOT_SUPPORTED, s)
         else if bridgeImageFormat (img_format x) = 0 then (Inr VK_ERROR_FORMAT_NOT_SUPPORTED, s)
         else if img_resourceID x \<noteq> 0 then (Inr VK_SUCCESS, s)
         else catching
           (andThen (via_bridge (bridge_createSparseImage (img_size x) (extWidth (img_extent x)) (extHeight (img_extent x))
                (bridgeImageFormat (img_format x)) (img_mipLevels x) (img_arrayLayers x) 1 IMB_TEXTURE_TYPE_2D))
              (set_image_resource img))
           (ret VK_ERROR_OUT_OF_DEVICE_MEMORY) s)"

text \<open>The environment variable of \<^verbatim>\<open>sparseImagesEnabled\<close> is the parameter \<open>enabled\<close>.\<close>

definition IMB_CAP_METAL_SPARSE_IMAGE :: u64 where "IMB_CAP_METAL_SPARSE_IMAGE = push_bit 15 1"

definition sparseImagesEnabled :: "bool \<Rightarrow> vk \<Rightarrow> bool" where
  "sparseImagesEnabled enabled s \<longleftrightarrow> enabled \<and> (case vkBridge s of None \<Rightarrow> False
     | Some b \<Rightarrow> cap_bits (capabilities b) AND IMB_CAP_METAL_SPARSE_IMAGE \<noteq> 0)"

definition queryMetalSparseImageProperties :: "bool \<Rightarrow> VkFormat \<Rightarrow> (vk, BridgeSparseImageProperties option) prog" where
  "queryMetalSparseImageProperties enabled format s =
    (if \<not> sparseImagesEnabled enabled s \<or> bridgeImageFormat format = 0 \<or> vkBridge s = None then (Inr None, s)
     else catching
       (andThen (via_bridge (bridge_querySparseImageProperties (bridgeImageFormat format) IMB_TEXTURE_TYPE_2D 1))
          (\<lambda>p. ret (Some p)))
       (ret None) s)"

section \<open>Buffers\<close>

record VkBufferCreateInfo =
  bci_size :: u64
  bci_usage :: u32
  bci_flags :: u32
  bci_sharingMode :: u32

definition addressSpan :: "u64 \<Rightarrow> u64" where
  "addressSpan sz = (sz + 4095) AND NOT 4095"

definition vkCreateBuffer :: "ptr \<Rightarrow> VkBufferCreateInfo option \<Rightarrow> bool \<Rightarrow> vk \<Rightarrow> (VkResult \<times> ptr option) \<times> vk" where
  "vkCreateBuffer device createInfo out s =
    (case createInfo of
       None \<Rightarrow> ((VK_ERROR_INITIALIZATION_FAILED, None), s)
     | Some info \<Rightarrow>
       if \<not> out then ((VK_ERROR_INITIALIZATION_FAILED, None), s)
       else if \<not> validVkDevice s device \<or> (bci_sharingMode info \<noteq> 0 \<and> bci_sharingMode info \<noteq> 1)
       then ((VK_ERROR_FEATURE_NOT_PRESENT, None), s)
       else (case new_state s of
         (None, s1) \<Rightarrow> ((VK_ERROR_OUT_OF_HOST_MEMORY, None), s1)
       | (Some p, s1) \<Rightarrow>
           (let sz = max 1 (bci_size info);
                address = nextBufferDeviceAddress s1;
                span = addressSpan sz;
                state = \<lparr>buf_device = device, buf_size = sz, buf_usage = bci_usage info, buf_flags = bci_flags info,
                  buf_memory = 0, buf_memoryOffset = 0, deviceAddress = address, buf_sparseBindings = []\<rparr>
            in ((VK_SUCCESS, Some p),
                s1\<lparr>nextBufferDeviceAddress := (if span \<le> UINT64_MAX - address then address + max span 4096 else address),
                   buffers := map_put p state (buffers s1)\<rparr>))))"

definition vkDestroyBuffer :: "ptr \<Rightarrow> vk \<Rightarrow> vk" where
  "vkDestroyBuffer buffer s = (if buffer = 0 then s else s\<lparr>buffers := map_erase buffer (buffers s)\<rparr>)"

record VkMemoryRequirements =
  req_size :: u64
  req_alignment :: u64
  memoryTypeBits :: u32

definition bufferRequirements :: "u32 \<Rightarrow> u64 \<Rightarrow> VkMemoryRequirements" where
  "bufferRequirements createFlags sz =
    (let alignment = (if createFlags AND 1 \<noteq> 0 then 65536 else 4)
     in \<lparr>req_size = (sz + alignment - 1) AND NOT (alignment - 1), req_alignment = alignment, memoryTypeBits = 0x0f\<rparr>)"

text \<open>\<open>None\<close>: the output structure stays as it was.\<close>

definition vkGetBufferMemoryRequirements :: "ptr \<Rightarrow> bool \<Rightarrow> vk \<Rightarrow> VkMemoryRequirements option" where
  "vkGetBufferMemoryRequirements buffer out s =
    (if buffer = 0 \<or> \<not> out then None
     else map_option (\<lambda>x. bufferRequirements (buf_flags x) (buf_size x)) (map_of (buffers s) buffer))"

definition vkGetBufferMemoryRequirements2 :: "ptr option \<Rightarrow> bool \<Rightarrow> vk \<Rightarrow> VkMemoryRequirements option" where
  "vkGetBufferMemoryRequirements2 info out s =
    (case info of None \<Rightarrow> None
     | Some buffer \<Rightarrow> if \<not> out then None else vkGetBufferMemoryRequirements buffer True s)"

definition vkGetDeviceBufferMemoryRequirements ::
  "ptr \<Rightarrow> VkBufferCreateInfo option option \<Rightarrow> bool \<Rightarrow> vk \<Rightarrow> VkMemoryRequirements option" where
  "vkGetDeviceBufferMemoryRequirements device info out s =
    (case info of
       Some (Some createInfo) \<Rightarrow>
         if \<not> out \<or> \<not> validVkDevice s device then None
         else Some (bufferRequirements (bci_flags createInfo) (max 1 (bci_size createInfo)))
     | _ \<Rightarrow> None)"

end
