(* ===== verification/VkResources.thy ===== *)
theory VkResources
  imports VkMemory
begin

text \<open>
  Images and device memory of the Vulkan driver, continued: creation and destruction, requirements, binding,
  allocation with import and export of file descriptors, mapping, flushing and invalidation
  (\<^verbatim>\<open>imb_vkCreateImage\<close> to \<^verbatim>\<open>imb_vkInvalidateMappedMemoryRanges\<close>).
\<close>

section \<open>Images\<close>

record VkImageCreateInfo =
  ici_flags :: u32
  ici_imageType :: u32
  ici_format :: VkFormat
  ici_extent :: VkExtent3D
  ici_mipLevels :: u32
  ici_arrayLayers :: u32
  ici_samples :: u32
  ici_tiling :: u32
  ici_usage :: u32

definition createInfoSize :: "VkImageCreateInfo \<Rightarrow> u64" where
  "createInfoSize info = imageAllocationSize (ici_format info) (ici_imageType info) (ici_extent info)
     (ici_mipLevels info) (ici_arrayLayers info) (ici_samples info) (ici_flags info)"

text \<open>Whether Metal's tile is a quarter of the block the driver promises.\<close>

definition tilesMatch :: "VkImageCreateInfo \<Rightarrow> BridgeSparseImageProperties \<Rightarrow> bool" where
  "tilesMatch info p =
    (let expected = sparseImageGranularity (ici_format info) (ici_imageType info)
     in \<not> (sparse_tileWidth p > UINT32_MAX div 2 \<or> sparse_tileHeight p > UINT32_MAX div 2
       \<or> sparse_tileWidth p * 2 \<noteq> extWidth expected \<or> sparse_tileHeight p * 2 \<noteq> extHeight expected
       \<or> sparse_tileDepth p \<noteq> extDepth expected \<or> sparse_tileSizeBytes p \<noteq> kMetalSparseImageBlockBytes
       \<or> sparse_tileSizeBytes p > UINT64_MAX div 4 \<or> sparse_tileSizeBytes p * 4 \<noteq> kSparseImageBlockBytes))"

definition sparseProperties ::
  "bool \<Rightarrow> VkImageCreateInfo \<Rightarrow> (vk, BridgeSparseImageProperties option) prog" where
  "sparseProperties enabled info s =
    (if ici_flags info AND VK_IMAGE_CREATE_SPARSE_BINDING_BIT = 0 \<or> ici_imageType info \<noteq> VK_IMAGE_TYPE_2D
       \<or> ici_samples info \<noteq> VK_SAMPLE_COUNT_1_BIT
     then (Inr None, s)
     else andThen (queryMetalSparseImageProperties enabled (ici_format info))
       (\<lambda>p. ret (case p of None \<Rightarrow> None | Some q \<Rightarrow> if tilesMatch info q then Some q else None)) s)"

definition imageStateOf :: "ptr \<Rightarrow> VkImageCreateInfo \<Rightarrow> BridgeSparseImageProperties option \<Rightarrow> ImageState" where
  "imageStateOf device info p =
    \<lparr>img_device = device, img_extent = ici_extent info, img_format = ici_format info, img_usage = ici_usage info,
     img_flags = ici_flags info, img_type = ici_imageType info, img_tiling = ici_tiling info,
     img_samples = ici_samples info, img_mipLevels = ici_mipLevels info, img_arrayLayers = ici_arrayLayers info,
     img_size = createInfoSize info, img_resourceID = 0, img_memory = 0, img_memoryOffset = 0, sparseBytes = [],
     sparseGranularity = (case p of None \<Rightarrow> extent3 0 0 0
       | Some q \<Rightarrow> sparseImageGranularity (ici_format info) (ici_imageType info)),
     sparseTileBytes = (case p of None \<Rightarrow> 0 | Some q \<Rightarrow> kSparseImageBlockBytes),
     metalSparseGranularity = (case p of None \<Rightarrow> extent3 0 0 0
       | Some q \<Rightarrow> extent3 (sparse_tileWidth q) (sparse_tileHeight q) (sparse_tileDepth q)),
     metalSparseTileBytes = (case p of None \<Rightarrow> 0 | Some q \<Rightarrow> sparse_tileSizeBytes q),
     initializedSubresources = replicate (unat (ici_mipLevels info) * unat (ici_arrayLayers info)) False,
     img_sparseBindings = [], sparseOpaqueBindings = [], storageDescriptorSequence = 0, img_dirty = False\<rparr>"

definition register_image ::
  "ptr \<Rightarrow> VkImageCreateInfo \<Rightarrow> BridgeSparseImageProperties option \<Rightarrow> (vk, VkResult \<times> ptr option) prog" where
  "register_image device info p s =
    (case new_state s of
       (None, s1) \<Rightarrow> (Inr (VK_ERROR_OUT_OF_HOST_MEMORY, None), s1)
     | (Some state, s1) \<Rightarrow> (Inr (VK_SUCCESS, Some state), put_image state (imageStateOf device info p) s1))"

definition vkCreateImage ::
  "bool \<Rightarrow> ptr \<Rightarrow> VkImageCreateInfo option \<Rightarrow> bool \<Rightarrow> (vk, VkResult \<times> ptr option) prog" where
  "vkCreateImage enabled device createInfo out s =
    (case createInfo of
       None \<Rightarrow> (Inr (VK_ERROR_INITIALIZATION_FAILED, None), s)
     | Some info \<Rightarrow>
       if \<not> out \<or> extWidth (ici_extent info) = 0 \<or> extHeight (ici_extent info) = 0 \<or> extDepth (ici_extent info) = 0
         \<or> ici_arrayLayers info = 0 \<or> ici_mipLevels info = 0
       then (Inr (VK_ERROR_INITIALIZATION_FAILED, None), s)
       else if createInfoSize info = UINT64_MAX then (Inr (VK_ERROR_OUT_OF_DEVICE_MEMORY, None), s)
       else if \<not> validVkDevice s device then (Inr (VK_ERROR_INITIALIZATION_FAILED, None), s)
       else if ici_flags info AND VK_IMAGE_CREATE_SPARSE_RESIDENCY_BIT \<noteq> 0
       then andThen (sparseProperties enabled info)
         (\<lambda>p. if p = None then ret (VK_ERROR_FORMAT_NOT_SUPPORTED, None) else register_image device info p) s
       else register_image device info None s)"

text \<open>A resource of the host is given back; a failure is only printed.\<close>

definition release_resource :: "u64 \<Rightarrow> (vk, unit) prog" where
  "release_resource resource s =
    (if vkBridge s = None \<or> resource = 0 then (Inr (), s)
     else catching (via_bridge (bridge_destroyBuffer resource)) (ret ()) s)"

definition vkDestroyImage :: "ptr \<Rightarrow> (vk, unit) prog" where
  "vkDestroyImage img s =
    (if img = 0 then (Inr (), s)
     else case images s img of
       None \<Rightarrow> (Inr (), s)
     | Some x \<Rightarrow> release_resource (img_resourceID x) (s\<lparr>images := (images s)(img := None)\<rparr>))"

section \<open>Requirements and layout\<close>

definition imageRequirements :: "u32 \<Rightarrow> u64 \<Rightarrow> VkMemoryRequirements" where
  "imageRequirements createFlags sz = \<lparr>req_size = sz,
     req_alignment = (if createFlags AND VK_IMAGE_CREATE_SPARSE_BINDING_BIT \<noteq> 0 then kSparseImageBlockBytes else 256),
     memoryTypeBits = 0x0f\<rparr>"

definition vkGetImageMemoryRequirements :: "ptr \<Rightarrow> bool \<Rightarrow> vk \<Rightarrow> VkMemoryRequirements option" where
  "vkGetImageMemoryRequirements img out s =
    (if img = 0 \<or> \<not> out then None
     else map_option (\<lambda>x. imageRequirements (img_flags x) (img_size x)) (images s img))"

definition vkGetImageMemoryRequirements2 :: "ptr option \<Rightarrow> bool \<Rightarrow> vk \<Rightarrow> VkMemoryRequirements option" where
  "vkGetImageMemoryRequirements2 info out s =
    (case info of None \<Rightarrow> None | Some img \<Rightarrow> if \<not> out then None else vkGetImageMemoryRequirements img True s)"

definition vkGetDeviceImageMemoryRequirements ::
  "ptr \<Rightarrow> VkImageCreateInfo option option \<Rightarrow> bool \<Rightarrow> vk \<Rightarrow> VkMemoryRequirements option" where
  "vkGetDeviceImageMemoryRequirements device info out s =
    (case info of
       Some (Some createInfo) \<Rightarrow>
         if \<not> out then None
         else if createInfoSize createInfo = UINT64_MAX
         then Some \<lparr>req_size = 0, req_alignment = 0, memoryTypeBits = 0\<rparr>
         else if \<not> validVkDevice s device then None
         else Some (imageRequirements (ici_flags createInfo) (createInfoSize createInfo))
     | _ \<Rightarrow> None)"

definition stateRequirements :: "ImageState \<Rightarrow> VkSparseImageMemoryRequirements" where
  "stateRequirements x = sparseImageRequirements (img_format x) (img_type x) (img_extent x) (img_mipLevels x) (img_arrayLayers x)"

text \<open>\<open>count\<close> is the number behind the pointer, \<open>None\<close> when that is null; the results are the new count and the
  requirements that are stored.\<close>

definition vkGetImageSparseMemoryRequirements ::
  "bool \<Rightarrow> ptr \<Rightarrow> ptr \<Rightarrow> u32 option \<Rightarrow> bool \<Rightarrow> vk \<Rightarrow> u32 option \<times> VkSparseImageMemoryRequirements option" where
  "vkGetImageSparseMemoryRequirements enabled device img count out s =
    (case count of
       None \<Rightarrow> (None, None)
     | Some room \<Rightarrow>
         (case images s img of
            None \<Rightarrow> (Some 0, None)
          | Some x \<Rightarrow>
              if \<not> (sparseImagesEnabled enabled s \<and> validVkDevice s device \<and> img_device x = device
                \<and> img_flags x AND VK_IMAGE_CREATE_SPARSE_RESIDENCY_BIT \<noteq> 0 \<and> sparseTileBytes x \<noteq> 0)
              then (Some 0, None)
              else if \<not> out then (Some 1, None)
              else if room = 0 then (Some 0, None)
              else (Some (min room 1), Some (stateRequirements x))))"

definition vkGetImageSparseMemoryRequirements2 ::
  "bool \<Rightarrow> ptr \<Rightarrow> ptr option \<Rightarrow> u32 option \<Rightarrow> bool \<Rightarrow> vk \<Rightarrow> u32 option \<times> VkSparseImageMemoryRequirements option" where
  "vkGetImageSparseMemoryRequirements2 enabled device info count out s =
    (case (info, count) of
       (Some img, Some room) \<Rightarrow>
         if \<not> out then vkGetImageSparseMemoryRequirements enabled device img count False s
         else if room = 0 then (Some 0, None)
         else vkGetImageSparseMemoryRequirements enabled device img (Some (min room 1)) True s
     | _ \<Rightarrow> (count, None))"

definition vkGetDeviceImageSparseMemoryRequirements ::
  "bool \<Rightarrow> ptr \<Rightarrow> VkImageCreateInfo option option \<Rightarrow> u32 option \<Rightarrow> bool
    \<Rightarrow> (vk, u32 option \<times> VkSparseImageMemoryRequirements option) prog" where
  "vkGetDeviceImageSparseMemoryRequirements enabled device info count out s =
    (case count of
       None \<Rightarrow> (Inr (None, None), s)
     | Some room \<Rightarrow>
         (case info of
            Some (Some ci) \<Rightarrow>
              if \<not> (sparseImagesEnabled enabled s \<and> validVkDevice s device
                \<and> ici_flags ci AND VK_IMAGE_CREATE_SPARSE_RESIDENCY_BIT \<noteq> 0 \<and> ici_imageType ci = VK_IMAGE_TYPE_2D
                \<and> ici_samples ci = VK_SAMPLE_COUNT_1_BIT)
              then (Inr (Some 0, None), s)
              else andThen (queryMetalSparseImageProperties enabled (ici_format ci))
                (\<lambda>p. ret (if p = None then (Some 0, None)
                   else if \<not> out then (Some 1, None)
                   else if room = 0 then (Some 0, None)
                   else (Some (min room 1),
                     Some (sparseImageRequirements (ici_format ci) (ici_imageType ci) (ici_extent ci)
                       (ici_mipLevels ci) (ici_arrayLayers ci))))) s
          | _ \<Rightarrow> (Inr (Some 0, None), s)))"

record VkSubresourceLayout =
  slOffset :: u64
  slSize :: u64
  rowPitch :: u64
  arrayPitch :: u64
  depthPitch :: u64

definition vkGetImageSubresourceLayout ::
  "ptr \<Rightarrow> VkImageSubresource option \<Rightarrow> bool \<Rightarrow> vk \<Rightarrow> VkSubresourceLayout option" where
  "vkGetImageSubresourceLayout img subresource out s =
    (case subresource of
       None \<Rightarrow> None
     | Some sub \<Rightarrow>
       if img = 0 \<or> \<not> out then None
       else (case images s img of
         None \<Rightarrow> None
       | Some x \<Rightarrow>
           if sub_mipLevel sub \<noteq> 0 \<or> sub_arrayLayer sub \<noteq> 0 then None
           else (let row = ucast (extWidth (img_extent x)) * 4;
                     plane = row * ucast (extHeight (img_extent x))
                 in Some \<lparr>slOffset = 0, slSize = plane, rowPitch = row, arrayPitch = plane, depthPitch = plane\<rparr>)))"

section \<open>Binding\<close>

definition vkBindImageMemory :: "ptr \<Rightarrow> ptr \<Rightarrow> ptr \<Rightarrow> u64 \<Rightarrow> vk \<Rightarrow> VkResult \<times> vk" where
  "vkBindImageMemory device img memory memoryOffset s =
    (if img = 0 \<or> memory = 0 then (VK_ERROR_INITIALIZATION_FAILED, s)
     else case (images s img, memories s memory) of
       (Some x, Some m) \<Rightarrow>
         if img_device x \<noteq> device \<or> mem_device m \<noteq> device \<or> outside memoryOffset (img_size x) (mem_size m)
         then (VK_ERROR_INITIALIZATION_FAILED, s)
         else (VK_SUCCESS, put_image img (x\<lparr>img_memory := memory, img_memoryOffset := memoryOffset\<rparr>) s)
     | _ \<Rightarrow> (VK_ERROR_INITIALIZATION_FAILED, s))"

definition vkBindBufferMemory :: "ptr \<Rightarrow> ptr \<Rightarrow> ptr \<Rightarrow> u64 \<Rightarrow> vk \<Rightarrow> VkResult \<times> vk" where
  "vkBindBufferMemory device buffer memory memoryOffset s =
    (if buffer = 0 \<or> memory = 0 then (VK_ERROR_INITIALIZATION_FAILED, s)
     else case (map_of (buffers s) buffer, memories s memory) of
       (Some x, Some m) \<Rightarrow>
         if buf_device x \<noteq> device \<or> mem_device m \<noteq> device \<or> outside memoryOffset (buf_size x) (mem_size m)
         then (VK_ERROR_INITIALIZATION_FAILED, s)
         else (VK_SUCCESS, put_buffer buffer (x\<lparr>buf_memory := memory, buf_memoryOffset := memoryOffset\<rparr>) s)
     | _ \<Rightarrow> (VK_ERROR_INITIALIZATION_FAILED, s))"

text \<open>The elements of the arrays: object, memory, offset; \<open>given\<close> is whether the array is non-null.\<close>

fun bind_all :: "(ptr \<Rightarrow> ptr \<Rightarrow> u64 \<Rightarrow> vk \<Rightarrow> VkResult \<times> vk) \<Rightarrow> (ptr \<times> ptr \<times> u64) list \<Rightarrow> vk \<Rightarrow> VkResult \<times> vk" where
  "bind_all bind [] s = (VK_SUCCESS, s)"
| "bind_all bind ((object, memory, memoryOffset) # rest) s =
    (case bind object memory memoryOffset s of
       (r, s1) \<Rightarrow> if r \<noteq> VK_SUCCESS then (r, s1) else bind_all bind rest s1)"

definition vkBindImageMemory2 :: "ptr \<Rightarrow> (ptr \<times> ptr \<times> u64) list \<Rightarrow> bool \<Rightarrow> vk \<Rightarrow> VkResult \<times> vk" where
  "vkBindImageMemory2 device bindInfos given s =
    (if bindInfos \<noteq> [] \<and> \<not> given then (VK_ERROR_INITIALIZATION_FAILED, s)
     else bind_all (vkBindImageMemory device) bindInfos s)"

definition vkBindBufferMemory2 :: "ptr \<Rightarrow> (ptr \<times> ptr \<times> u64) list \<Rightarrow> bool \<Rightarrow> vk \<Rightarrow> VkResult \<times> vk" where
  "vkBindBufferMemory2 device bindInfos given s =
    (if bindInfos \<noteq> [] \<and> \<not> given then (VK_ERROR_INITIALIZATION_FAILED, s)
     else bind_all (vkBindBufferMemory device) bindInfos s)"

section \<open>Allocation\<close>

abbreviation (input) MEMORY_GET_FD_INFO :: u32 where "MEMORY_GET_FD_INFO \<equiv> 1000074002"
abbreviation (input) MEMORY_FD_PROPERTIES :: u32 where "MEMORY_FD_PROPERTIES \<equiv> 1000074001"

datatype memory_next = ExportMemoryAllocateInfo u32 | ImportMemoryFdInfo u32 fd | OtherMemoryStructure

text \<open>The last structure of each kind counts: the types of handles to export, and handle type and descriptor of the
  import.\<close>

fun memory_chain :: "memory_next list \<Rightarrow> u32 \<times> (u32 \<times> fd) option \<Rightarrow> u32 \<times> (u32 \<times> fd) option" where
  "memory_chain [] acc = acc"
| "memory_chain (ExportMemoryAllocateInfo handleTypes # next) (_, imported) = memory_chain next (handleTypes, imported)"
| "memory_chain (ImportMemoryFdInfo handleType d # next) (exported, _) = memory_chain next (exported, Some (handleType, d))"
| "memory_chain (OtherMemoryStructure # next) acc = memory_chain next acc"

record VkMemoryAllocateInfo =
  allocationSize :: u64
  memoryTypeIndex :: u32
  allocateNext :: "memory_next list"

text \<open>The imported bytes: \<open>fstat\<close> is the size of the file, \<open>None\<close> when the call fails.\<close>

definition import_memory ::
  "fd \<Rightarrow> int option \<Rightarrow> DeviceMemoryState \<Rightarrow> vk \<Rightarrow> DeviceMemoryState option \<times> vk" where
  "import_memory d fstat m s =
    (case fstat of
       None \<Rightarrow> (None, s)
     | Some st_size \<Rightarrow>
       if st_size < 0 \<or> nat st_size < unat (mem_size m) then (None, s)
       else (case memory_pread d 0 (unat (mem_size m)) [] (ioAnswers s) (os s) of
         (ok, got, answers) \<Rightarrow>
           (let s1 = s\<lparr>ioAnswers := answers\<rparr>
            in if \<not> ok then (None, s1\<lparr>os := close_fd d (os s1)\<rparr>)
               else (Some (m\<lparr>mem_bytes := got, mem_externalFD := d,
                   mem_exportHandleTypes := HANDLE_TYPE_OPAQUE_FD_BIT, dirtyOffset := 0, dirtyEnd := mem_size m\<rparr>), s1))))"

definition vkAllocateMemory ::
  "ptr \<Rightarrow> VkMemoryAllocateInfo option \<Rightarrow> bool \<Rightarrow> int option \<Rightarrow> vk \<Rightarrow> (VkResult \<times> ptr option) \<times> vk" where
  "vkAllocateMemory device allocateInfo out fstat s =
    (case allocateInfo of
       None \<Rightarrow> ((VK_ERROR_INITIALIZATION_FAILED, None), s)
     | Some info \<Rightarrow>
       if \<not> out \<or> allocationSize info = 0 then ((VK_ERROR_INITIALIZATION_FAILED, None), s)
       else (case vkBridge s of
         None \<Rightarrow> ((VK_ERROR_FEATURE_NOT_PRESENT, None), s)
       | Some b \<Rightarrow>
         if \<not> validVkDevice s device \<or> memoryTypeIndex info \<ge> 4 then ((VK_ERROR_FEATURE_NOT_PRESENT, None), s)
         else if allocationSize info > maxBufferLength (capabilities b) then ((VK_ERROR_OUT_OF_DEVICE_MEMORY, None), s)
         else (case memory_chain (allocateNext info) (0, None) of (exported, imported) \<Rightarrow>
           if exported AND NOT HANDLE_TYPE_OPAQUE_FD_BIT \<noteq> 0
             \<or> (case imported of None \<Rightarrow> False
                | Some (handleType, d) \<Rightarrow> handleType \<noteq> HANDLE_TYPE_OPAQUE_FD_BIT \<or> d < 0)
           then ((VK_ERROR_INVALID_EXTERNAL_HANDLE, None), s)
           else (case new_state s of
             (None, s1) \<Rightarrow> ((VK_ERROR_OUT_OF_HOST_MEMORY, None), s1)
           | (Some p, s1) \<Rightarrow>
               (let m = new_memory\<lparr>mem_device := device, mem_size := allocationSize info,
                      mem_exportHandleTypes := exported\<rparr>
                in case imported of
                     None \<Rightarrow> ((VK_SUCCESS, Some p), put_memory p m s1)
                   | Some (_, d) \<Rightarrow>
                       (case import_memory d fstat m s1 of
                          (None, s2) \<Rightarrow> ((VK_ERROR_INVALID_EXTERNAL_HANDLE, None), s2)
                        | (Some m1, s2) \<Rightarrow> ((VK_SUCCESS, Some p), put_memory p m1 s2)))))))"

text \<open>Dirty bytes: nothing, or the range from \<open>dirtyOffset\<close> to \<open>dirtyEnd\<close>.\<close>

definition clean :: "DeviceMemoryState \<Rightarrow> DeviceMemoryState" where
  "clean m = m\<lparr>dirtyOffset := VK_WHOLE_SIZE, dirtyEnd := 0\<rparr>"

definition is_dirty :: "DeviceMemoryState \<Rightarrow> bool" where
  "is_dirty m \<longleftrightarrow> dirtyOffset m \<noteq> VK_WHOLE_SIZE \<and> dirtyEnd m > dirtyOffset m"

definition add_dirty :: "u64 \<Rightarrow> u64 \<Rightarrow> DeviceMemoryState \<Rightarrow> DeviceMemoryState" where
  "add_dirty first after m = m\<lparr>dirtyOffset := min (dirtyOffset m) first, dirtyEnd := max (dirtyEnd m) after\<rparr>"

definition change_memory :: "ptr \<Rightarrow> (DeviceMemoryState \<Rightarrow> DeviceMemoryState) \<Rightarrow> vk \<Rightarrow> vk" where
  "change_memory p f s = (case memories s p of None \<Rightarrow> undefined_vk s | Some m \<Rightarrow> put_memory p (f m) s)"

record VkMemoryGetFdInfoKHR =
  mg_sType :: u32
  mg_memory :: ptr
  mg_handleType :: u32

text \<open>The file behind exported memory, made by the first export and brought up to date by the later ones.\<close>

definition backing_memory :: "ptr \<Rightarrow> (fd \<times> nat) option \<Rightarrow> bool \<Rightarrow> vk \<Rightarrow> VkResult \<times> vk" where
  "backing_memory p mkstemp ftruncate s =
    (case memories s p of
       None \<Rightarrow> (VK_SUCCESS, undefined_vk s)
     | Some m \<Rightarrow>
       if mem_externalFD m < 0
       then (case mkstemp of
           None \<Rightarrow> (VK_ERROR_TOO_MANY_OBJECTS, s)
         | Some (d, fileno) \<Rightarrow>
             (let s1 = s\<lparr>os := open_temporary d fileno (os s)\<rparr>
              in if \<not> ftruncate then (VK_ERROR_OUT_OF_HOST_MEMORY, s1\<lparr>os := close_fd d (os s1)\<rparr>)
                 else (case syncMemoryToExternalFD p 0 (mem_size m) (change_memory p (mem_externalFD_update (\<lambda>_. d)) s1) of
                   (r, s2) \<Rightarrow>
                     if r \<noteq> VK_SUCCESS
                     then (r, change_memory p (mem_externalFD_update (\<lambda>_. -1)) (s2\<lparr>os := close_fd d (os s2)\<rparr>))
                     else (VK_SUCCESS, change_memory p clean s2))))
       else if is_dirty m
       then (case syncMemoryToExternalFD p (dirtyOffset m) (dirtyEnd m - dirtyOffset m) s of
           (r, s1) \<Rightarrow> if r \<noteq> VK_SUCCESS then (r, s1) else (VK_SUCCESS, change_memory p clean s1))
       else (VK_SUCCESS, s))"

definition vkGetMemoryFdKHR ::
  "ptr \<Rightarrow> VkMemoryGetFdInfoKHR option \<Rightarrow> bool \<Rightarrow> (fd \<times> nat) option \<Rightarrow> bool \<Rightarrow> fd option \<Rightarrow> vk
    \<Rightarrow> (VkResult \<times> fd option) \<times> vk" where
  "vkGetMemoryFdKHR device info out mkstemp ftruncate dup s =
    (case info of
       None \<Rightarrow> ((VK_ERROR_INVALID_EXTERNAL_HANDLE, None), s)
     | Some i \<Rightarrow>
       if \<not> out \<or> mg_sType i \<noteq> MEMORY_GET_FD_INFO \<or> mg_handleType i \<noteq> HANDLE_TYPE_OPAQUE_FD_BIT
       then ((VK_ERROR_INVALID_EXTERNAL_HANDLE, None), s)
       else (case memories s (mg_memory i) of
         None \<Rightarrow> ((VK_ERROR_INVALID_EXTERNAL_HANDLE, None), s)
       | Some m \<Rightarrow>
         if \<not> validVkDevice s device \<or> mem_device m \<noteq> device
           \<or> mem_exportHandleTypes m AND HANDLE_TYPE_OPAQUE_FD_BIT = 0
         then ((VK_ERROR_INVALID_EXTERNAL_HANDLE, None), s)
         else (case ensureHostBacking (mg_memory i) s of
           (r, s1) \<Rightarrow>
             if r \<noteq> VK_SUCCESS then ((r, None), s1)
             else (case backing_memory (mg_memory i) mkstemp ftruncate s1 of
               (r, s2) \<Rightarrow>
                 if r \<noteq> VK_SUCCESS then ((r, None), s2)
                 else (case (dup, memories s2 (mg_memory i)) of
                   (Some d, Some m2) \<Rightarrow> ((VK_SUCCESS, Some d), s2\<lparr>os := dup_fd (mem_externalFD m2) d (os s2)\<rparr>)
                 | _ \<Rightarrow> ((VK_ERROR_TOO_MANY_OBJECTS, None), s2))))))"

text \<open>\<open>sType\<close> is that of the output structure, \<open>None\<close> when its pointer is null; what is stored is the set of memory
  types.\<close>

definition vkGetMemoryFdPropertiesKHR ::
  "ptr \<Rightarrow> u32 \<Rightarrow> fd \<Rightarrow> u32 option \<Rightarrow> int option \<Rightarrow> vk \<Rightarrow> VkResult \<times> u32 option" where
  "vkGetMemoryFdPropertiesKHR device handleType d sType fstat s =
    (if sType \<noteq> Some MEMORY_FD_PROPERTIES \<or> handleType \<noteq> HANDLE_TYPE_OPAQUE_FD_BIT \<or> d < 0
     then (VK_ERROR_INVALID_EXTERNAL_HANDLE, None)
     else (case fstat of
         None \<Rightarrow> (VK_ERROR_INVALID_EXTERNAL_HANDLE, None)
       | Some st_size \<Rightarrow>
           if \<not> validVkDevice s device \<or> st_size \<le> 0 then (VK_ERROR_INVALID_EXTERNAL_HANDLE, None)
           else (VK_SUCCESS, Some 0x0f)))"

definition erase_sparse :: "ptr \<Rightarrow> (ptr \<times> BufferState) list \<Rightarrow> (ptr \<times> BufferState) list" where
  "erase_sparse memory = map (\<lambda>(p, b). (p, b\<lparr>buf_sparseBindings :=
     filter (\<lambda>binding. bindingMemory binding \<noteq> memory) (buf_sparseBindings b)\<rparr>))"

definition vkFreeMemory :: "ptr \<Rightarrow> (vk, unit) prog" where
  "vkFreeMemory memory s =
    (if memory = 0 then (Inr (), s)
     else case memories s memory of
       None \<Rightarrow> (Inr (), s)
     | Some m \<Rightarrow>
         andThen (release_resource (mem_resourceID m))
           (\<lambda>_ s1. (Inr (), if mem_externalFD m \<ge> 0 then s1\<lparr>os := close_fd (mem_externalFD m) (os s1)\<rparr> else s1))
           (s\<lparr>memories := (memories s)(memory := None), buffers := erase_sparse memory (buffers s)\<rparr>))"

end
