(* ===== verification/VkMapping.thy ===== *)
theory VkMapping
  imports VkResources
begin

text \<open>
  Mapping of device memory: \<^verbatim>\<open>imb_vkMapMemory\<close>, \<^verbatim>\<open>imb_vkUnmapMemory\<close>,
  \<^verbatim>\<open>imb_vkFlushMappedMemoryRanges\<close> and \<^verbatim>\<open>imb_vkInvalidateMappedMemoryRanges\<close>, and what they guarantee. A pointer
  into the bytes of a memory object is the object with an offset; a store of the application through it is
  \<open>store_memory\<close>.
\<close>

definition mapRangeSize :: "u64 \<Rightarrow> u64 \<Rightarrow> u64 \<Rightarrow> u64" where
  "mapRangeSize limit offset sz = (if sz = VK_WHOLE_SIZE then limit - offset else sz)"

definition vkMapMemory :: "ptr \<Rightarrow> u64 \<Rightarrow> u64 \<Rightarrow> bool \<Rightarrow> vk \<Rightarrow> (VkResult \<times> (ptr \<times> u64) option) \<times> vk" where
  "vkMapMemory memory offset sz out s =
    (if memory = 0 \<or> \<not> out then ((VK_ERROR_MEMORY_MAP_FAILED, None), s)
     else case memories s memory of
       None \<Rightarrow> ((VK_ERROR_MEMORY_MAP_FAILED, None), s)
     | Some m \<Rightarrow>
       if offset > mem_size m then ((VK_ERROR_MEMORY_MAP_FAILED, None), s)
       else (let mapSize = mapRangeSize (mem_size m) offset sz in
         if mapSize > mem_size m - offset then ((VK_ERROR_MEMORY_MAP_FAILED, None), s)
         else if mapped m
         then (if mappedOffset m \<noteq> offset \<or> mappedSize m \<noteq> mapSize \<or> mapReferenceCount m = UINT32_MAX
               then ((VK_ERROR_MEMORY_MAP_FAILED, None), s)
               else ((VK_SUCCESS, Some (memory, offset)),
                     put_memory memory (m\<lparr>mapReferenceCount := mapReferenceCount m + 1\<rparr>) s))
         else (case ensureHostBacking memory s of
           (r, s1) \<Rightarrow>
             if r \<noteq> VK_SUCCESS then ((r, None), s1)
             else ((VK_SUCCESS, Some (memory, offset)),
               change_memory memory (\<lambda>m1. add_dirty offset (offset + mapSize)
                 (m1\<lparr>mapped := True, mappedOffset := offset, mappedSize := mapSize, mapReferenceCount := 1\<rparr>)) s1))))"

definition vkUnmapMemory :: "ptr \<Rightarrow> vk \<Rightarrow> vk" where
  "vkUnmapMemory memory s =
    (if memory = 0 then s
     else case memories s memory of
       None \<Rightarrow> s
     | Some m \<Rightarrow>
       if \<not> mapped m \<or> mapReferenceCount m = 0 then s
       else (let s1 = (if mem_externalFD m \<ge> 0 \<and> is_dirty m
                       then snd (syncMemoryToExternalFD memory (dirtyOffset m) (dirtyEnd m - dirtyOffset m) s)
                       else s)
             in change_memory memory (\<lambda>m1.
               (let m2 = m1\<lparr>mapReferenceCount := mapReferenceCount m1 - 1\<rparr>
                in if mapReferenceCount m2 \<noteq> 0 then m2
                   else (if mem_externalFD m2 \<ge> 0 then clean m2 else m2)
                     \<lparr>mapped := False, mappedOffset := 0, mappedSize := 0\<rparr>)) s1))"

text \<open>The loops over the ranges: memory, offset, size; \<open>given\<close> is whether the array is non-null.\<close>

fun flush_ranges :: "(ptr \<times> u64 \<times> u64) list \<Rightarrow> vk \<Rightarrow> VkResult \<times> vk" where
  "flush_ranges [] s = (VK_SUCCESS, s)"
| "flush_ranges ((memory, offset, sz) # rest) s =
    (case memories s memory of
       None \<Rightarrow> (VK_ERROR_MEMORY_MAP_FAILED, s)
     | Some m \<Rightarrow>
       if offset > mem_size m then (VK_ERROR_MEMORY_MAP_FAILED, s)
       else if mapRangeSize (mem_size m) offset sz > mem_size m - offset then (VK_ERROR_MEMORY_MAP_FAILED, s)
       else (case syncMemoryToExternalFD memory offset (mapRangeSize (mem_size m) offset sz) s of
         (r, s1) \<Rightarrow>
           if r \<noteq> VK_SUCCESS then (r, s1)
           else flush_ranges rest (if mem_externalFD m \<ge> 0 then change_memory memory clean s1 else s1)))"

definition vkFlushMappedMemoryRanges :: "(ptr \<times> u64 \<times> u64) list \<Rightarrow> bool \<Rightarrow> vk \<Rightarrow> VkResult \<times> vk" where
  "vkFlushMappedMemoryRanges ranges given s =
    (if ranges \<noteq> [] \<and> \<not> given then (VK_ERROR_MEMORY_MAP_FAILED, s) else flush_ranges ranges s)"

fun invalidate_ranges :: "(ptr \<times> u64 \<times> u64) list \<Rightarrow> vk \<Rightarrow> VkResult \<times> vk" where
  "invalidate_ranges [] s = (VK_SUCCESS, s)"
| "invalidate_ranges ((memory, offset, sz) # rest) s =
    (case memories s memory of
       None \<Rightarrow> (VK_ERROR_MEMORY_MAP_FAILED, s)
     | Some m \<Rightarrow>
       if offset > mem_size m then (VK_ERROR_MEMORY_MAP_FAILED, s)
       else if mapRangeSize (mem_size m) offset sz > mem_size m - offset then (VK_ERROR_MEMORY_MAP_FAILED, s)
       else (case refreshMemoryFromExternalFD memory offset (mapRangeSize (mem_size m) offset sz) s of
         (r, s1) \<Rightarrow> if r \<noteq> VK_SUCCESS then (r, s1) else invalidate_ranges rest s1))"

definition vkInvalidateMappedMemoryRanges :: "(ptr \<times> u64 \<times> u64) list \<Rightarrow> bool \<Rightarrow> vk \<Rightarrow> VkResult \<times> vk" where
  "vkInvalidateMappedMemoryRanges ranges given s =
    (if ranges \<noteq> [] \<and> \<not> given then (VK_ERROR_MEMORY_MAP_FAILED, s) else invalidate_ranges ranges s)"

section \<open>Memory with its file\<close>

lemma memories_put [simp]: "memories (put_memory p m s) = (memories s)(p \<mapsto> m)"
  by (simp add: put_memory_def)

lemma put_memory_simps [simp]:
  "os (put_memory p m s) = os s" "ioAnswers (put_memory p m s) = ioAnswers s" "buffers (put_memory p m s) = buffers s"
  "images (put_memory p m s) = images s" "vk_broken (put_memory p m s) = vk_broken s" "devices (put_memory p m s) = devices s"
  "semaphores (put_memory p m s) = semaphores s" "vkBridge (put_memory p m s) = vkBridge s"
  "commandBuffers (put_memory p m s) = commandBuffers s"
  by (simp_all add: put_memory_def)

text \<open>The invariant of a memory object: its bytes, once there, are as many as its size; it is mapped exactly when its
  reference count is not 0, with a range inside.\<close>

definition memory_ok :: "DeviceMemoryState \<Rightarrow> bool" where
  "memory_ok m \<longleftrightarrow> mem_size m \<noteq> 0
    \<and> (mem_bytes m = [] \<or> length (mem_bytes m) = unat (mem_size m))
    \<and> (mapped m \<longleftrightarrow> mapReferenceCount m \<noteq> 0)
    \<and> (mapped m \<longrightarrow> \<not> outside (mappedOffset m) (mappedSize m) (mem_size m) \<and> mem_bytes m \<noteq> [])
    \<and> (dirtyOffset m = VK_WHOLE_SIZE \<and> dirtyEnd m = 0 \<or> dirtyEnd m \<le> mem_size m)"

definition memories_ok :: "vk \<Rightarrow> bool" where
  "memories_ok s \<longleftrightarrow> (\<forall>p m. memories s p = Some m \<longrightarrow> p \<noteq> 0 \<and> memory_ok m)"

lemma memories_okD: "memories_ok s \<Longrightarrow> memories s p = Some m \<Longrightarrow> p \<noteq> 0 \<and> memory_ok m"
  by (simp add: memories_ok_def)

lemma memories_ok_put: "memories_ok s \<Longrightarrow> p \<noteq> 0 \<Longrightarrow> memory_ok m \<Longrightarrow> memories_ok (put_memory p m s)"
  by (simp add: memories_ok_def)

lemma memories_ok_cong: "memories s' = memories s \<Longrightarrow> memories_ok s' \<longleftrightarrow> memories_ok s"
  by (simp add: memories_ok_def)

lemma outside_unat: "\<not> outside offset sz limit \<longleftrightarrow> unat offset + unat sz \<le> unat limit"
  using unat_sub [of offset limit]
  by (auto simp: outside_def word_le_nat_alt not_less word_less_nat_alt)

lemma ensureHostBacking_cases:
  assumes "memories s p = Some m"
  obtains m1 where "ensureHostBacking p s = (VK_SUCCESS, if m1 = m then s else put_memory p m1 s)"
    "m1 = (if mem_bytes m = [] then m\<lparr>mem_bytes := replicate (unat (mem_size m)) 0\<rparr> else m)"
  using assms by (cases "mem_bytes m = []") (auto simp: ensureHostBacking_def put_memory_def fun_upd_idem)

end
