(* ===== verification/VkTransfer.thy ===== *)
theory VkTransfer
  imports VkMapping
begin

text \<open>
  The transfers of the Vulkan driver that run on the host's side of the memory: reading and writing the bytes of a
  buffer through its binding or its sparse bindings (\<^verbatim>\<open>copyDeviceAddressBytesLocked\<close>,
  \<^verbatim>\<open>writeBufferBytesLocked\<close>), and copies and fills of buffers.
\<close>

text \<open>A loop that returns at the first result that is not a success.\<close>

fun for_each :: "('a \<Rightarrow> vk \<Rightarrow> VkResult \<times> vk) \<Rightarrow> 'a list \<Rightarrow> vk \<Rightarrow> VkResult \<times> vk" where
  "for_each body [] s = (VK_SUCCESS, s)"
| "for_each body (x # xs) s = (case body x s of (r, s1) \<Rightarrow> if r \<noteq> VK_SUCCESS then (r, s1) else for_each body xs s1)"

section \<open>Reading a buffer\<close>

definition bufferForDeviceAddress :: "ptr \<Rightarrow> u64 \<Rightarrow> vk \<Rightarrow> (ptr \<times> BufferState) option" where
  "bufferForDeviceAddress device address s =
    (if address = 0 then None
     else find (\<lambda>(p, b). buf_device b = device \<and> \<not> address < deviceAddress b \<and> address - deviceAddress b < buf_size b)
       (buffers s))"

definition covers :: "u64 \<Rightarrow> SparseBufferBinding \<Rightarrow> bool" where
  "covers resource b \<longleftrightarrow> resource \<ge> resourceOffset b \<and> resource - resourceOffset b < bindingSize b"

text \<open>The chunk of the loops over sparse bindings, and that it makes progress.\<close>

definition chunk_of :: "u64 \<Rightarrow> u64 \<Rightarrow> SparseBufferBinding \<Rightarrow> u64" where
  "chunk_of left resource b = min left (bindingSize b - (resource - resourceOffset b))"

lemma find_coversD: "find (covers resource) bs = Some b \<Longrightarrow> covers resource b \<and> b \<in> set bs"
  by (auto simp: find_Some_iff)

lemma chunk_of_progress:
  assumes "covers resource b" "done < limit"
  shows "unat (limit - (done + chunk_of (limit - done) resource b)) < unat (limit - done)"
    and "0 < unat (chunk_of (limit - done) resource b)"
    and "unat (done + chunk_of (limit - done) resource b) = unat done + unat (chunk_of (limit - done) resource b)"
    and "unat done + unat (chunk_of (limit - done) resource b) \<le> unat limit"
proof -
  let ?c = "chunk_of (limit - done) resource b"
  have d: "unat (limit - done) = unat limit - unat done" "unat done < unat limit"
    using assms(2) by (simp_all add: unat_minus_le less_imp_le flip: word_less_nat_alt)
  have w: "0 < unat (bindingSize b - (resource - resourceOffset b))"
    using assms(1) unat_minus_le [of "resource - resourceOffset b" "bindingSize b"]
    by (simp add: covers_def word_less_nat_alt word_le_nat_alt)
  have "unat ?c = min (unat (limit - done)) (unat (bindingSize b - (resource - resourceOffset b)))"
    by (simp add: chunk_of_def min_def word_le_nat_alt)
  then show c: "0 < unat ?c" and le: "unat done + unat ?c \<le> unat limit" using d w by auto
  have "unat done + unat ?c < 2 ^ 64" using le u64_unat_less [of limit] by linarith
  then show sum: "unat (done + ?c) = unat done + unat ?c" by (intro unat_add_lem [THEN iffD1]) simp
  then have "done + ?c \<le> limit" using le by (simp add: word_le_nat_alt)
  then have "unat (limit - (done + ?c)) = unat limit - (unat done + unat ?c)" by (simp add: unat_sub sum)
  then show "unat (limit - (done + ?c)) < unat (limit - done)" using c d le by linarith
qed

function read_sparse ::
  "SparseBufferBinding list \<Rightarrow> u64 \<Rightarrow> u64 \<Rightarrow> u64 \<Rightarrow> bytes \<Rightarrow> vk \<Rightarrow> (VkResult \<times> bytes) \<times> vk" where
  "read_sparse bindings base sz copied output s =
    (if \<not> copied < sz then ((VK_SUCCESS, output), s)
     else (case find (covers (base + copied)) bindings of
         None \<Rightarrow> ((VK_ERROR_MEMORY_MAP_FAILED, []), s)
       | Some b \<Rightarrow>
         if bindingMemory b = 0 then ((VK_ERROR_MEMORY_MAP_FAILED, []), s)
         else (let chunk = chunk_of (sz - copied) (base + copied) b;
                   source = bindingMemoryOffset b + (base + copied - resourceOffset b)
           in case ensureHostBacking (bindingMemory b) s of
             (r, s1) \<Rightarrow>
               (case memories s1 (bindingMemory b) of
                  None \<Rightarrow> ((r, []), s1)
                | Some m \<Rightarrow>
                    if r \<noteq> VK_SUCCESS then ((r, []), s1)
                    else if outside source chunk (mem_size m) then ((VK_ERROR_MEMORY_MAP_FAILED, []), s1)
                    else (case refreshMemoryFromExternalFD (bindingMemory b) source chunk s1 of
                      (r, s2) \<Rightarrow>
                        if r \<noteq> VK_SUCCESS then ((r, []), s2)
                        else (case load_memory (bindingMemory b) (unat source) (unat chunk) s2 of
                          (bs, s3) \<Rightarrow>
                            read_sparse bindings base sz (copied + chunk) (splice (unat copied) bs output) s3))))))"
  by pat_completeness auto
termination
  by (relation "measure (\<lambda>(_, _, sz, copied, _, _). unat (sz - copied))")
    (auto dest!: find_coversD intro: chunk_of_progress(1))

declare read_sparse.simps [simp del]

definition copyDeviceAddressBytes :: "ptr \<Rightarrow> u64 \<Rightarrow> u64 \<Rightarrow> vk \<Rightarrow> (VkResult \<times> bytes) \<times> vk" where
  "copyDeviceAddressBytes device address sz s =
    (case bufferForDeviceAddress device address s of
       None \<Rightarrow> ((VK_ERROR_MEMORY_MAP_FAILED, []), s)
     | Some (p, b) \<Rightarrow>
       (let base = address - deviceAddress b in
        if sz = 0 \<or> outside base sz (buf_size b) then ((VK_ERROR_MEMORY_MAP_FAILED, []), s)
        else if buf_memory b = 0
        then read_sparse (buf_sparseBindings b) base sz 0 (replicate (unat sz) 0) s
        else (case ensureHostBacking (buf_memory b) s of
          (r, s1) \<Rightarrow>
            (case memories s1 (buf_memory b) of
               None \<Rightarrow> ((r, []), s1)
             | Some m \<Rightarrow>
                 if r \<noteq> VK_SUCCESS then ((r, []), s1)
                 else if outside (buf_memoryOffset b) base (mem_size m) then ((VK_ERROR_MEMORY_MAP_FAILED, []), s1)
                 else if outside (buf_memoryOffset b + base) sz (mem_size m) then ((VK_ERROR_MEMORY_MAP_FAILED, []), s1)
                 else (case refreshMemoryFromExternalFD (buf_memory b) (buf_memoryOffset b + base) sz s1 of
                   (r, s2) \<Rightarrow>
                     if r \<noteq> VK_SUCCESS then ((r, []), s2)
                     else (case load_memory (buf_memory b) (unat (buf_memoryOffset b + base)) (unat sz) s2 of
                       (bs, s3) \<Rightarrow> ((VK_SUCCESS, bs), s3)))))))"

section \<open>Writing a buffer\<close>

text \<open>One stretch: the bytes, the dirty range, and the shared file, after which the memory counts as clean.\<close>

definition write_stretch :: "ptr \<Rightarrow> u64 \<Rightarrow> bytes \<Rightarrow> vk \<Rightarrow> VkResult \<times> vk" where
  "write_stretch memory destination bs s =
    (let n = word_of_nat (length bs);
         s1 = change_memory memory (add_dirty destination (destination + n))
           (store_memory memory (unat destination) bs s)
     in case syncMemoryToExternalFD memory destination n s1 of
       (r, s2) \<Rightarrow>
         (r, if r = VK_SUCCESS
             then change_memory memory (\<lambda>m. if mem_externalFD m \<ge> 0 then clean m else m) s2 else s2))"

function write_sparse :: "SparseBufferBinding list \<Rightarrow> u64 \<Rightarrow> u64 \<Rightarrow> u64 \<Rightarrow> bytes \<Rightarrow> vk \<Rightarrow> VkResult \<times> vk" where
  "write_sparse bindings base sz written source s =
    (if \<not> written < sz then (VK_SUCCESS, s)
     else (case find (covers (base + written)) bindings of
         None \<Rightarrow> (VK_ERROR_MEMORY_MAP_FAILED, s)
       | Some b \<Rightarrow>
         if bindingMemory b = 0 then (VK_ERROR_MEMORY_MAP_FAILED, s)
         else (let chunk = chunk_of (sz - written) (base + written) b;
                   destination = bindingMemoryOffset b + (base + written - resourceOffset b)
           in case ensureHostBacking (bindingMemory b) s of
             (r, s1) \<Rightarrow>
               (case memories s1 (bindingMemory b) of
                  None \<Rightarrow> (r, s1)
                | Some m \<Rightarrow>
                    if r \<noteq> VK_SUCCESS then (r, s1)
                    else if outside destination chunk (mem_size m) then (VK_ERROR_MEMORY_MAP_FAILED, s1)
                    else (case write_stretch (bindingMemory b) destination
                          (slice_of (unat written) (unat chunk) source) s1 of
                      (r, s2) \<Rightarrow>
                        if r \<noteq> VK_SUCCESS then (r, s2)
                        else write_sparse bindings base sz (written + chunk) source s2)))))"
  by pat_completeness auto
termination
  by (relation "measure (\<lambda>(_, _, sz, written, _, _). unat (sz - written))")
    (auto dest!: find_coversD intro: chunk_of_progress(1))

declare write_sparse.simps [simp del]

text \<open>A buffer that is no longer registered is dangling.\<close>

definition writeBufferBytes :: "ptr \<Rightarrow> u64 \<Rightarrow> bytes \<Rightarrow> vk \<Rightarrow> VkResult \<times> vk" where
  "writeBufferBytes buffer base source s =
    (if buffer = 0 then (VK_ERROR_MEMORY_MAP_FAILED, s)
     else case map_of (buffers s) buffer of
       None \<Rightarrow> (VK_ERROR_MEMORY_MAP_FAILED, undefined_vk s)
     | Some b \<Rightarrow>
       (let sz = word_of_nat (length source) in
        if sz = 0 \<or> outside base sz (buf_size b) then (VK_ERROR_MEMORY_MAP_FAILED, s)
        else if buf_memory b = 0 then write_sparse (buf_sparseBindings b) base sz 0 source s
        else (case ensureHostBacking (buf_memory b) s of
          (r, s1) \<Rightarrow>
            (case memories s1 (buf_memory b) of
               None \<Rightarrow> (r, s1)
             | Some m \<Rightarrow>
                 if r \<noteq> VK_SUCCESS then (r, s1)
                 else if outside (buf_memoryOffset b) base (mem_size m) then (VK_ERROR_MEMORY_MAP_FAILED, s1)
                 else if sz > mem_size m - (buf_memoryOffset b + base) then (VK_ERROR_MEMORY_MAP_FAILED, s1)
                 else write_stretch (buf_memory b) (buf_memoryOffset b + base) source s1))))"

section \<open>Copies, updates and fills\<close>

definition copyBufferBytes :: "ptr \<Rightarrow> ptr \<Rightarrow> VkBufferCopy \<Rightarrow> vk \<Rightarrow> VkResult \<times> vk" where
  "copyBufferBytes source destination region s =
    (if source = 0 \<or> destination = 0 then (VK_ERROR_MEMORY_MAP_FAILED, s)
     else case (map_of (buffers s) source, map_of (buffers s) destination) of
       (Some a, Some b) \<Rightarrow>
         if copySize region = 0 \<or> outside (srcOffset region) (copySize region) (buf_size a)
           \<or> outside (dstOffset region) (copySize region) (buf_size b)
         then (VK_ERROR_MEMORY_MAP_FAILED, s)
         else (case copyDeviceAddressBytes (buf_device a) (deviceAddress a + srcOffset region) (copySize region) s of
           ((r, bs), s1) \<Rightarrow>
             if r \<noteq> VK_SUCCESS then (r, s1) else writeBufferBytes destination (dstOffset region) bs s1)
     | _ \<Rightarrow> (VK_ERROR_MEMORY_MAP_FAILED, undefined_vk s))"

definition fill_pattern :: "u32 \<Rightarrow> bytes" where
  "fill_pattern data = concat (replicate 1024 (le_bytes data))"

lemma fill_progress:
  fixes written sz :: u64
  assumes "written < sz"
  shows "unat (sz - (written + min 4096 (sz - written))) < unat (sz - written)"
proof -
  let ?c = "min (4096 :: u64) (sz - written)"
  have d: "unat (sz - written) = unat sz - unat written" "unat written < unat sz"
    using assms by (simp_all add: unat_minus_le less_imp_le flip: word_less_nat_alt)
  have c: "unat ?c = min 4096 (unat (sz - written))" by (simp add: min_def word_le_nat_alt)
  have "unat written + unat ?c < 2 ^ 64" using c d u64_unat_less [of sz] by linarith
  then have sum: "unat (written + ?c) = unat written + unat ?c" by (intro unat_add_lem [THEN iffD1]) simp
  then have "written + ?c \<le> sz" using c d by (simp add: word_le_nat_alt)
  then have "unat (sz - (written + ?c)) = unat sz - (unat written + unat ?c)"
    by (simp only: unat_minus_le sum)
  then show ?thesis using c d by linarith
qed

function fill_loop :: "ptr \<Rightarrow> u64 \<Rightarrow> u64 \<Rightarrow> bytes \<Rightarrow> u64 \<Rightarrow> vk \<Rightarrow> VkResult \<times> vk" where
  "fill_loop destination offset sz pattern written s =
    (if \<not> written < sz then (VK_SUCCESS, s)
     else (let chunk = min (4096 :: u64) (sz - written)
           in case writeBufferBytes destination (offset + written) (take (unat chunk) pattern) s of
             (r, s1) \<Rightarrow>
               if r \<noteq> VK_SUCCESS then (r, s1) else fill_loop destination offset sz pattern (written + chunk) s1))"
  by pat_completeness auto
termination
  by (relation "measure (\<lambda>(_, _, sz, _, written, _). unat (sz - written))") (auto intro: fill_progress)

declare fill_loop.simps [simp del]

definition executeBufferFill :: "RecordedBufferFill \<Rightarrow> vk \<Rightarrow> VkResult \<times> vk" where
  "executeBufferFill bf s =
    (if bf_destination bf = 0 \<or> bf_size bf = 0 then (VK_ERROR_MEMORY_MAP_FAILED, s)
     else fill_loop (bf_destination bf) (bf_offset bf) (bf_size bf) (fill_pattern (bf_data bf)) 0 s)"

end
