(* ===== verification/VkImageTransfer.thy ===== *)
theory VkImageTransfer
  imports VkTransfer
begin

text \<open>
  Transfers of images: clearing, copies between images and between buffers and images, and the mip levels of linear
  images that were never written (\<^verbatim>\<open>ensureLinearImageMipInitializedLocked\<close>, \<^verbatim>\<open>clearColorTexel\<close>,
  \<^verbatim>\<open>executeImageClearLocked\<close> to \<^verbatim>\<open>syncTransferredImageLocked\<close>).

  Single-precision numbers are their 32 bits. The conversions of \<^verbatim>\<open>clearColorTexel\<close> round each product and each sum
  to the nearest number, ties to even, as the default mode of IEEE arithmetic does; the conversion of a NaN to an
  integer, which C++ leaves undefined, gives 0.
\<close>

section \<open>Colors\<close>

definition floatToHalf :: "u32 \<Rightarrow> u16" where
  "floatToHalf bits =
    (let sgn = drop_bit 16 bits AND 0x8000;
         exponent = drop_bit 23 bits AND 0xff;
         mantissa = bits AND 0x7fffff;
         halfExponent = int (unat exponent) - 127 + 15
     in if exponent = 0xff then ucast (sgn OR 0x7c00 OR (if mantissa = 0 then 0 else 0x0200))
        else if halfExponent \<ge> 31 then ucast (sgn OR 0x7c00)
        else if halfExponent \<le> 0
        then (if halfExponent < -10 then ucast sgn
              else (let shift = nat (14 - halfExponent)
                    in ucast (sgn OR drop_bit shift ((mantissa OR 0x800000) + push_bit (shift - 1) 1))))
        else (let roundedMantissa = mantissa + 0x1000
              in if roundedMantissa AND 0x800000 \<noteq> 0
                 then ucast (sgn OR (if halfExponent + 1 \<ge> 31 then 0x7c00 else push_bit 10 (word_of_int (halfExponent + 1))))
                 else ucast (sgn OR push_bit 10 (word_of_int halfExponent) OR drop_bit 13 roundedMantissa)))"

fun bit_length :: "nat \<Rightarrow> nat" where
  "bit_length n = (if n = 0 then 0 else Suc (bit_length (n div 2)))"

declare bit_length.simps [simp del]

text \<open>A natural number rounded to 24 significant bits: the digits and the power of two they are multiplied with.\<close>

definition round24 :: "nat \<Rightarrow> nat \<times> nat" where
  "round24 n =
    (let k = bit_length n - 24; q = n div 2 ^ k; r = n mod 2 ^ k
     in (if 2 * r > 2 ^ k \<or> (2 * r = 2 ^ k \<and> k \<noteq> 0 \<and> odd q) then q + 1 else q, k))"

text \<open>\<^verbatim>\<open>std::clamp(x, 0.0F, 1.0F) * scale + 0.5F\<close>, cut off to an integer. A number below 1 is
  \<open>m * 2 ^ - e\<close>.\<close>

definition unormComponent :: "nat \<Rightarrow> u32 \<Rightarrow> nat" where
  "unormComponent scale bits =
    (let exponent = unat (drop_bit 23 bits AND 0xff);
         mantissa = unat (bits AND 0x7fffff)
     in if exponent = 255 \<and> mantissa \<noteq> 0 then 0
        else if bit bits 31 then 0
        else if exponent \<ge> 127 then scale
        else (let m = (if exponent = 0 then mantissa else mantissa + 2 ^ 23);
                  e = 150 - max exponent 1;
                  (n1, k1) = round24 (m * scale);
                  f = e - k1;
                  (n2, k2) = round24 (n1 + 2 ^ (f - 1))
              in n2 * 2 ^ k2 div 2 ^ f))"

definition zeroColor :: "u32 list \<Rightarrow> bool" where
  "zeroColor color \<longleftrightarrow> color ! 0 = 0 \<and> color ! 1 = 0 \<and> color ! 2 = 0 \<and> color ! 3 = 0"

definition component16 :: "nat \<Rightarrow> u32 \<Rightarrow> u16" where
  "component16 kind v =
    (if kind = 0 then word_of_nat (unormComponent 65535 v)
     else if kind = 6 then floatToHalf v
     else ucast v)"

definition clearColorTexel :: "VkFormat \<Rightarrow> u32 list \<Rightarrow> bytes option" where
  "clearColorTexel format color =
    (let block = formatBlockInfo format;
         zeros = replicate (unat (blkBytes block)) 0
     in if blkWidth block \<noteq> 1 \<or> blkHeight block \<noteq> 1 \<or> blkDepth block \<noteq> 1 \<or> blkBytes block = 0 then None
        else if format = VK_FORMAT_R8_UNORM then Some [word_of_nat (unormComponent 255 (color ! 0))]
        else if format \<in> {VK_FORMAT_R8G8B8A8_UNORM, VK_FORMAT_R8G8B8A8_SRGB, VK_FORMAT_B8G8R8A8_UNORM, VK_FORMAT_B8G8R8A8_SRGB}
        then (let c = map (\<lambda>v. word_of_nat (unormComponent 255 v)) (take 4 color)
              in Some (if format = VK_FORMAT_B8G8R8A8_UNORM \<or> format = VK_FORMAT_B8G8R8A8_SRGB
                       then [c ! 2, c ! 1, c ! 0, c ! 3] else c))
        else if format \<ge> VK_FORMAT_R16_UNORM \<and> format \<le> VK_FORMAT_R16G16B16A16_SFLOAT
        then (let family = unat (format - VK_FORMAT_R16_UNORM) div 7;
                  kind = unat (format - VK_FORMAT_R16_UNORM) mod 7
              in if kind \<in> {0, 4, 5, 6}
                 then Some (concat (map (\<lambda>v. le_bytes (component16 kind v)) (take (family + 1) color)))
                 else if zeroColor color then Some zeros else None)
        else if format \<ge> VK_FORMAT_R32_UINT \<and> format \<le> VK_FORMAT_R32G32B32A32_SFLOAT
        then Some (concat (map le_bytes (take (unat (format - VK_FORMAT_R32_UINT) div 3 + 1) color)))
        else if zeroColor color then Some zeros else None)"

section \<open>The bytes of an image\<close>

datatype host_bytes = MemoryAt ptr u64 | SparseAt ptr

definition imageHostBytes :: "ptr \<Rightarrow> vk \<Rightarrow> (VkResult \<times> host_bytes \<times> u64) \<times> vk" where
  "imageHostBytes img s =
    (case images s img of
       None \<Rightarrow> ((VK_ERROR_MEMORY_MAP_FAILED, SparseAt 0, 0), s)
     | Some x \<Rightarrow>
       if img_memory x \<noteq> 0
       then (case ensureHostBacking (img_memory x) s of
           (r, s1) \<Rightarrow>
             (case memories s1 (img_memory x) of
                None \<Rightarrow> ((r, SparseAt 0, 0), s1)
              | Some m \<Rightarrow>
                  if r \<noteq> VK_SUCCESS then ((r, SparseAt 0, 0), s1)
                  else if outside (img_memoryOffset x) (img_size x) (mem_size m)
                  then ((VK_ERROR_MEMORY_MAP_FAILED, SparseAt 0, 0), s1)
                  else ((VK_SUCCESS, MemoryAt (img_memory x) (img_memoryOffset x), img_size x), s1)))
       else if img_flags x AND VK_IMAGE_CREATE_SPARSE_BINDING_BIT = 0
       then ((VK_ERROR_MEMORY_MAP_FAILED, SparseAt 0, 0), s)
       else (let x1 = (if sparseBytes x = [] then x\<lparr>sparseBytes := replicate (unat (img_size x)) 0\<rparr> else x)
             in ((VK_SUCCESS, SparseAt img, word_of_nat (length (sparseBytes x1))), put_image img x1 s)))"

fun load_host :: "host_bytes \<Rightarrow> u64 \<Rightarrow> nat \<Rightarrow> vk \<Rightarrow> bytes \<times> vk" where
  "load_host (MemoryAt memory base) offset n s = load_memory memory (unat base + unat offset) n s"
| "load_host (SparseAt img) offset n s =
    (case images s img of
       None \<Rightarrow> (replicate n 0, undefined_vk s)
     | Some x \<Rightarrow>
         if unat offset + n \<le> length (sparseBytes x) then (slice_of (unat offset) n (sparseBytes x), s)
         else (replicate n 0, undefined_vk s))"

fun store_host :: "host_bytes \<Rightarrow> u64 \<Rightarrow> bytes \<Rightarrow> vk \<Rightarrow> vk" where
  "store_host (MemoryAt memory base) offset bs s = store_memory memory (unat base + unat offset) bs s"
| "store_host (SparseAt img) offset bs s =
    (case images s img of
       None \<Rightarrow> undefined_vk s
     | Some x \<Rightarrow>
         if unat offset + length bs \<le> length (sparseBytes x)
         then put_image img (x\<lparr>sparseBytes := splice (unat offset) bs (sparseBytes x)\<rparr>) s
         else undefined_vk s)"

definition imageSubresourceIndex :: "ImageState \<Rightarrow> u32 \<Rightarrow> u32 \<Rightarrow> u64" where
  "imageSubresourceIndex x mipLevel arrayLayer = ucast arrayLayer * ucast (img_mipLevels x) + ucast mipLevel"

definition set_initialized :: "u32 \<Rightarrow> u32 \<Rightarrow> ImageState \<Rightarrow> ImageState" where
  "set_initialized mipLevel arrayLayer x =
    x\<lparr>initializedSubresources := (initializedSubresources x)[unat (imageSubresourceIndex x mipLevel arrayLayer) := True]\<rparr>"

definition change_image :: "ptr \<Rightarrow> (ImageState \<Rightarrow> ImageState) \<Rightarrow> vk \<Rightarrow> vk" where
  "change_image p f s = (case images s p of None \<Rightarrow> undefined_vk s | Some x \<Rightarrow> put_image p (f x) s)"

definition markImageSubresourceInitialized :: "ptr \<Rightarrow> u32 \<Rightarrow> u32 \<Rightarrow> vk \<Rightarrow> vk" where
  "markImageSubresourceInitialized img mipLevel arrayLayer s =
    change_image img (\<lambda>x. (set_initialized mipLevel arrayLayer x)\<lparr>img_dirty := True\<rparr>) s"

section \<open>Clearing\<close>

definition range_levels :: "ImageState \<Rightarrow> VkImageSubresourceRange \<Rightarrow> u32" where
  "range_levels x r = (if levelCount r = UINT32_MAX then img_mipLevels x - baseMipLevel r else levelCount r)"

definition range_layers :: "ImageState \<Rightarrow> VkImageSubresourceRange \<Rightarrow> u32" where
  "range_layers x r = (if rng_layerCount r = UINT32_MAX then img_arrayLayers x - rng_baseArrayLayer r else rng_layerCount r)"

text \<open>The subresources of a range, layer by layer.\<close>

definition range_subresources :: "ImageState \<Rightarrow> VkImageSubresourceRange \<Rightarrow> (u32 \<times> u32) list" where
  "range_subresources x r =
    concat (map (\<lambda>layer. map (\<lambda>level. (baseMipLevel r + word_of_nat level, rng_baseArrayLayer r + word_of_nat layer))
      [0..<unat (range_levels x r)]) [0..<unat (range_layers x r)])"

definition subresourceOffset :: "ImageState \<Rightarrow> u32 \<Rightarrow> u32 \<Rightarrow> u64" where
  "subresourceOffset x mipLevel arrayLayer =
    imageSubresourceByteOffset (img_format x) (img_extent x) (img_mipLevels x) mipLevel arrayLayer"

text \<open>The texels that fill a subresource: the loop stores a whole texel at every multiple of its size.\<close>

definition fill_texels :: "bytes \<Rightarrow> nat \<Rightarrow> bytes" where
  "fill_texels texel n =
    (if list_all (\<lambda>v. v = 0) texel then replicate n 0
     else concat (replicate ((n + length texel - 1) div length texel) texel))"

definition clear_subresource ::
  "ptr \<Rightarrow> ImageState \<Rightarrow> host_bytes \<Rightarrow> u64 \<Rightarrow> bytes \<Rightarrow> u32 \<times> u32 \<Rightarrow> vk \<Rightarrow> VkResult \<times> vk" where
  "clear_subresource img x destination destinationSize texel sub s =
    (case sub of (mipLevel, arrayLayer) \<Rightarrow>
      let offset = subresourceOffset x mipLevel arrayLayer;
          sz = mipByteSize (img_format x) (levelExtent (img_extent x) (unat mipLevel))
      in if outside offset sz destinationSize then (VK_ERROR_MEMORY_MAP_FAILED, s)
         else (VK_SUCCESS, markImageSubresourceInitialized img mipLevel arrayLayer
           (store_host destination offset (fill_texels texel (unat sz)) s)))"

definition executeImageClear :: "RecordedImageClear \<Rightarrow> vk \<Rightarrow> VkResult \<times> vk" where
  "executeImageClear clear s =
    (case imageHostBytes (cl_image clear) s of
       ((r, destination, destinationSize), s1) \<Rightarrow>
         if r \<noteq> VK_SUCCESS then (r, s1)
         else (case images s1 (cl_image clear) of
           None \<Rightarrow> (VK_SUCCESS, undefined_vk s1)
         | Some x \<Rightarrow>
             (case clearColorTexel (img_format x) (cl_color clear) of
                None \<Rightarrow> (VK_ERROR_FORMAT_NOT_SUPPORTED, s1)
              | Some texel \<Rightarrow>
                  for_each (clear_subresource (cl_image clear) x destination destinationSize texel)
                    (concat (map (range_subresources x) (cl_ranges clear))) s1)))"

end
