(* ===== verification/VkImageCopy.thy ===== *)
theory VkImageCopy
  imports VkImageTransfer
begin

text \<open>
  Copies between images and between buffers and images (\<^verbatim>\<open>executeImageCopyLocked\<close>,
  \<^verbatim>\<open>executeBufferToImageCopyLocked\<close>, \<^verbatim>\<open>executeImageToBufferCopyLocked\<close>), the mip levels that are made from
  the level above when they are read before they were written, and the upload of an image that was written
  (\<^verbatim>\<open>syncTransferredImageLocked\<close>). Each row of blocks is read and then stored.
\<close>

section \<open>Missing mip levels\<close>

definition offsetInMemory :: "ImageState \<Rightarrow> u32 \<Rightarrow> u32 \<Rightarrow> u64" where
  "offsetInMemory x mipLevel arrayLayer = clampedAdd (img_memoryOffset x) (subresourceOffset x mipLevel arrayLayer)"

text \<open>The texels of the smaller level with the texel each is copied from, at offsets from the two levels.\<close>

definition texel_moves :: "VkExtent3D \<Rightarrow> VkExtent3D \<Rightarrow> u64 \<Rightarrow> (u64 \<times> u64) list" where
  "texel_moves source destination unit =
    concat (concat (map (\<lambda>z. map (\<lambda>y. map (\<lambda>x.
      let z' = min (z * 2) (extDepth source - 1); y' = min (y * 2) (extHeight source - 1); x' = min (x * 2) (extWidth source - 1)
      in (((ucast z' * ucast (extHeight source) + ucast y') * ucast (extWidth source) + ucast x') * unit,
          ((ucast z * ucast (extHeight destination) + ucast y) * ucast (extWidth destination) + ucast x) * unit))
      (map word_of_nat [0..<unat (extWidth destination)]))
      (map word_of_nat [0..<unat (extHeight destination)]))
      (map word_of_nat [0..<unat (extDepth destination)])))"

definition move_texel :: "ptr \<Rightarrow> u64 \<Rightarrow> u64 \<Rightarrow> nat \<Rightarrow> u64 \<times> u64 \<Rightarrow> vk \<Rightarrow> VkResult \<times> vk" where
  "move_texel memory source destination unit move s =
    (case load_memory memory (unat source + unat (fst move)) unit s of
       (bs, s1) \<Rightarrow> (VK_SUCCESS, store_memory memory (unat destination + unat (snd move)) bs s1))"

text \<open>The guards of the function, before it looks at the level: \<open>Inl\<close> is its result.\<close>

definition mip_guard :: "ptr \<Rightarrow> u32 \<Rightarrow> u32 \<Rightarrow> vk \<Rightarrow> (VkResult + ImageState) \<times> vk" where
  "mip_guard img mipLevel arrayLayer s =
    (case images s img of
       None \<Rightarrow> (Inl VK_ERROR_FORMAT_NOT_SUPPORTED, s)
     | Some x \<Rightarrow>
       if img_memory x = 0 \<or> mipLevel \<ge> img_mipLevels x \<or> arrayLayer \<ge> img_arrayLayers x
         \<or> img_samples x \<noteq> VK_SAMPLE_COUNT_1_BIT
       then (Inl VK_ERROR_FORMAT_NOT_SUPPORTED, s)
       else (let i = unat (imageSubresourceIndex x mipLevel arrayLayer) in
         if i \<ge> length (initializedSubresources x) then (Inl VK_ERROR_INITIALIZATION_FAILED, s)
         else if initializedSubresources x ! i then (Inl VK_SUCCESS, s)
         else (case ensureHostBacking (img_memory x) s of
           (r, s1) \<Rightarrow>
             if r \<noteq> VK_SUCCESS then (Inl r, s1)
             else (let block = formatBlockInfo (img_format x) in
               if blkWidth block \<noteq> 1 \<or> blkHeight block \<noteq> 1 \<or> blkDepth block \<noteq> 1 \<or> blkBytes block = 0
               then (Inl VK_ERROR_FORMAT_NOT_SUPPORTED, s1)
               else (Inr x, s1)))))"

definition fill_mip :: "ptr \<Rightarrow> ImageState \<Rightarrow> nat \<Rightarrow> u32 \<Rightarrow> vk \<Rightarrow> VkResult \<times> vk" where
  "fill_mip img x lower arrayLayer s =
    (case memories s (img_memory x) of
       None \<Rightarrow> (VK_SUCCESS, undefined_vk s)
     | Some m \<Rightarrow>
       (let source = levelExtent (img_extent x) lower; destination = levelExtent (img_extent x) (Suc lower);
            sourceOffset = offsetInMemory x (word_of_nat lower) arrayLayer;
            destinationOffset = offsetInMemory x (word_of_nat (Suc lower)) arrayLayer;
            unit = blkBytes (formatBlockInfo (img_format x))
        in if outside sourceOffset (mipByteSize (img_format x) source) (mem_size m)
             \<or> outside destinationOffset (mipByteSize (img_format x) destination) (mem_size m)
           then (VK_ERROR_MEMORY_MAP_FAILED, s)
           else (case for_each (move_texel (img_memory x) sourceOffset destinationOffset (unat unit))
                   (texel_moves source destination (ucast unit)) s of
             (r, s1) \<Rightarrow>
               (VK_SUCCESS, change_image img (set_initialized (word_of_nat (Suc lower)) arrayLayer) s1))))"

fun ensureLinearImageMipInitialized :: "ptr \<Rightarrow> nat \<Rightarrow> u32 \<Rightarrow> vk \<Rightarrow> VkResult \<times> vk" where
  "ensureLinearImageMipInitialized img 0 arrayLayer s =
    (case mip_guard img 0 arrayLayer s of
       (Inl r, s1) \<Rightarrow> (r, s1)
     | (Inr x, s1) \<Rightarrow> (VK_SUCCESS, change_image img (set_initialized 0 arrayLayer) s1))"
| "ensureLinearImageMipInitialized img (Suc lower) arrayLayer s =
    (case mip_guard img (word_of_nat (Suc lower)) arrayLayer s of
       (Inl r, s1) \<Rightarrow> (r, s1)
     | (Inr x, s1) \<Rightarrow>
         (case ensureLinearImageMipInitialized img lower arrayLayer s1 of
           (r, s2) \<Rightarrow> if r \<noteq> VK_SUCCESS then (r, s2) else fill_mip img x lower arrayLayer s2))"

section \<open>From image to image\<close>

text \<open>The offset of the blocks of a row from the start of its subresource.\<close>

definition blockRowOffset :: "FormatBlockInfo \<Rightarrow> VkOffset3D \<Rightarrow> u32 \<Rightarrow> u32 \<Rightarrow> u32 \<Rightarrow> u32 \<Rightarrow> u64" where
  "blockRowOffset block offset blocksX blocksY z y =
    ((ucast (offZ offset div blkDepth block + z) * ucast blocksY + ucast (offY offset div blkHeight block) + ucast y)
      * ucast blocksX + ucast (offX offset div blkWidth block)) * ucast (blkBytes block)"

definition blocks32 :: "u32 \<Rightarrow> u32 \<Rightarrow> u32" where
  "blocks32 extent unit = (extent + unit - 1) div unit"

definition image_copy_row ::
  "host_bytes \<times> u64 \<Rightarrow> host_bytes \<times> u64 \<Rightarrow> u64 \<Rightarrow> u64 \<times> u64 \<Rightarrow> vk \<Rightarrow> VkResult \<times> vk" where
  "image_copy_row source destination rowBytes row s =
    (if outside (fst row) rowBytes (snd source) \<or> outside (snd row) rowBytes (snd destination)
     then (VK_ERROR_MEMORY_MAP_FAILED, s)
     else (case load_host (fst source) (fst row) (unat rowBytes) s of
       (bs, s1) \<Rightarrow> (VK_SUCCESS, store_host (fst destination) (snd row) bs s1)))"

text \<open>The rows of one layer of a region: the offsets in the two images.\<close>

definition image_copy_rows :: "ImageState \<Rightarrow> ImageState \<Rightarrow> VkImageCopy \<Rightarrow> u32 \<Rightarrow> (u64 \<times> u64) list" where
  "image_copy_rows a b region layer =
    (let block = formatBlockInfo (img_format a);
         sourceExtent = levelExtent (img_extent a) (unat (lay_mipLevel (srcSubresource region)));
         destinationExtent = levelExtent (img_extent b) (unat (lay_mipLevel (dstSubresource region)));
         sourceBase = subresourceOffset a (lay_mipLevel (srcSubresource region)) (baseArrayLayer (srcSubresource region) + layer);
         destinationBase = subresourceOffset b (lay_mipLevel (dstSubresource region)) (baseArrayLayer (dstSubresource region) + layer)
     in concat (map (\<lambda>z. map (\<lambda>y.
          (sourceBase + blockRowOffset block (icSrcOffset region) (blocks32 (extWidth sourceExtent) (blkWidth block))
             (blocks32 (extHeight sourceExtent) (blkHeight block)) (word_of_nat z) (word_of_nat y),
           destinationBase + blockRowOffset block (icDstOffset region) (blocks32 (extWidth destinationExtent) (blkWidth block))
             (blocks32 (extHeight destinationExtent) (blkHeight block)) (word_of_nat z) (word_of_nat y)))
          [0..<unat (blocks32 (extHeight (icExtent region)) (blkHeight block))])
          [0..<unat (blocks32 (extDepth (icExtent region)) (blkDepth block))]))"

definition image_copy_layer ::
  "ptr \<Rightarrow> ImageState \<times> host_bytes \<times> u64 \<Rightarrow> ImageState \<times> host_bytes \<times> u64 \<Rightarrow> VkImageCopy \<times> u32 \<Rightarrow> vk \<Rightarrow> VkResult \<times> vk" where
  "image_copy_layer img source destination regionLayer s =
    (case (source, destination, regionLayer) of
       ((a, from), (b, to), (region, layer)) \<Rightarrow>
         (let block = formatBlockInfo (img_format a);
              rowBytes = ucast (blocks32 (extWidth (icExtent region)) (blkWidth block)) * ucast (blkBytes block)
          in case for_each (image_copy_row from to rowBytes) (image_copy_rows a b region layer) s of
             (r, s1) \<Rightarrow>
               if r \<noteq> VK_SUCCESS then (r, s1)
               else (VK_SUCCESS, markImageSubresourceInitialized img (lay_mipLevel (dstSubresource region))
                 (baseArrayLayer (dstSubresource region) + layer) s1)))"

definition executeImageCopy :: "RecordedImageCopy \<Rightarrow> vk \<Rightarrow> VkResult \<times> vk" where
  "executeImageCopy copy s =
    (case imageHostBytes (ic_source copy) s of
       ((r, from), s1) \<Rightarrow>
         if r \<noteq> VK_SUCCESS then (r, s1)
         else (case imageHostBytes (ic_destination copy) s1 of
           ((r, to), s2) \<Rightarrow>
             if r \<noteq> VK_SUCCESS then (r, s2)
             else (case (images s2 (ic_source copy), images s2 (ic_destination copy)) of
               (Some a, Some b) \<Rightarrow>
                 if formatBlockInfo (img_format a) \<noteq> formatBlockInfo (img_format b)
                   \<or> blkBytes (formatBlockInfo (img_format a)) = 0
                 then (VK_ERROR_FORMAT_NOT_SUPPORTED, s2)
                 else for_each (image_copy_layer (ic_destination copy) (a, from) (b, to))
                   (concat (map (\<lambda>region. map (\<lambda>layer. (region, word_of_nat layer))
                      [0..<unat (layerCount (srcSubresource region))]) (ic_regions copy))) s2
             | _ \<Rightarrow> (VK_SUCCESS, undefined_vk s2))))"

section \<open>Between buffers and images\<close>

definition ceilDivide :: "u64 \<Rightarrow> u64 \<Rightarrow> u64" where
  "ceilDivide v divisor = (v + divisor - 1) div divisor"

text \<open>The checks of a region, the same for both directions. (The test for an empty block never fires: every
  format has one.)\<close>

definition regionInside :: "ImageState \<Rightarrow> VkBufferImageCopy \<Rightarrow> bool" where
  "regionInside x region \<longleftrightarrow>
    (let sub = imageSubresource region; off = imageOffset region; ext = imageExtent region
     in lay_aspectMask sub = formatAspectMask (img_format x) \<and> lay_mipLevel sub < img_mipLevels x
       \<and> layerCount sub \<noteq> 0 \<and> baseArrayLayer sub < img_arrayLayers x
       \<and> layerCount sub \<le> img_arrayLayers x - baseArrayLayer sub
       \<and> \<not> sint (offX off) < 0 \<and> \<not> sint (offY off) < 0 \<and> \<not> sint (offZ off) < 0
       \<and> extDepth ext \<noteq> 0 \<and> extWidth ext \<noteq> 0 \<and> extHeight ext \<noteq> 0)"

text \<open>One dimension: inside the level, from a block boundary to a block boundary or to the edge.\<close>

definition alignedSpan :: "u32 \<Rightarrow> u32 \<Rightarrow> u32 \<Rightarrow> u32 \<Rightarrow> bool" where
  "alignedSpan first len limit unit \<longleftrightarrow> \<not> first > limit \<and> \<not> len > limit - first \<and> first mod unit = 0
    \<and> (len mod unit = 0 \<or> first + len = limit)"

definition regionAligned :: "ImageState \<Rightarrow> VkBufferImageCopy \<Rightarrow> bool" where
  "regionAligned x region \<longleftrightarrow>
    (let block = formatBlockInfo (img_format x);
         mip = levelExtent (img_extent x) (unat (lay_mipLevel (imageSubresource region)));
         off = imageOffset region; ext = imageExtent region
     in alignedSpan (offX off) (extWidth ext) (extWidth mip) (blkWidth block)
       \<and> alignedSpan (offY off) (extHeight ext) (extHeight mip) (blkHeight block)
       \<and> alignedSpan (offZ off) (extDepth ext) (extDepth mip) (blkDepth block)
       \<and> (bufferRowLength region = 0 \<or> bufferRowLength region mod blkWidth block = 0)
       \<and> (bufferImageHeight region = 0 \<or> bufferImageHeight region mod blkHeight block = 0))"

definition copyBlocks :: "(VkExtent3D \<Rightarrow> u32) \<Rightarrow> (FormatBlockInfo \<Rightarrow> u32) \<Rightarrow> ImageState \<Rightarrow> VkBufferImageCopy \<Rightarrow> u64" where
  "copyBlocks ext unit x region = ceilDivide (ucast (ext (imageExtent region))) (ucast (unit (formatBlockInfo (img_format x))))"

text \<open>The blocks of a row and the rows of a slice in the buffer; 0 stands for "as in the image".\<close>

definition bufferRowBlocks :: "ImageState \<Rightarrow> VkBufferImageCopy \<Rightarrow> u64" where
  "bufferRowBlocks x region =
    (if bufferRowLength region = 0 then copyBlocks extWidth blkWidth x region
     else ceilDivide (ucast (bufferRowLength region)) (ucast (blkWidth (formatBlockInfo (img_format x)))))"

definition bufferBlockRows :: "ImageState \<Rightarrow> VkBufferImageCopy \<Rightarrow> u64" where
  "bufferBlockRows x region =
    (if bufferImageHeight region = 0 then copyBlocks extHeight blkHeight x region
     else ceilDivide (ucast (bufferImageHeight region)) (ucast (blkHeight (formatBlockInfo (img_format x)))))"

definition regionOk :: "ImageState \<Rightarrow> VkBufferImageCopy \<Rightarrow> bool" where
  "regionOk x region \<longleftrightarrow> regionInside x region \<and> regionAligned x region
    \<and> \<not> bufferRowBlocks x region < copyBlocks extWidth blkWidth x region
    \<and> \<not> bufferBlockRows x region < copyBlocks extHeight blkHeight x region"

definition copyRowBytes :: "ImageState \<Rightarrow> VkBufferImageCopy \<Rightarrow> u64" where
  "copyRowBytes x region = clampedMultiply (copyBlocks extWidth blkWidth x region) (ucast (blkBytes (formatBlockInfo (img_format x))))"

text \<open>The offset of a row in the image, from the start of its bytes.\<close>

definition imageRowOffset :: "ImageState \<Rightarrow> VkBufferImageCopy \<Rightarrow> u32 \<Rightarrow> u64 \<Rightarrow> u64 \<Rightarrow> u64" where
  "imageRowOffset x region layer z row =
    (let block = formatBlockInfo (img_format x);
         mip = levelExtent (img_extent x) (unat (lay_mipLevel (imageSubresource region)));
         blocksX = ceilDivide (ucast (extWidth mip)) (ucast (blkWidth block));
         blocksY = ceilDivide (ucast (extHeight mip)) (ucast (blkHeight block));
         xBlock = ucast (offX (imageOffset region) div blkWidth block);
         yBlock = ucast (offY (imageOffset region) div blkHeight block);
         zBlock = ucast (offZ (imageOffset region) div blkDepth block);
         base = clampedAdd (subresourceOffset x (lay_mipLevel (imageSubresource region))
             (baseArrayLayer (imageSubresource region) + layer))
           (clampedMultiply ((zBlock * blocksY + yBlock) * blocksX + xBlock) (ucast (blkBytes block)))
     in clampedAdd base (clampedMultiply ((z * blocksY + row) * blocksX) (ucast (blkBytes block))))"

text \<open>The offset of a row in the buffer from the first byte of the region.\<close>

definition bufferRowOffset :: "ImageState \<Rightarrow> VkBufferImageCopy \<Rightarrow> u32 \<Rightarrow> u64 \<Rightarrow> u64 \<Rightarrow> u64" where
  "bufferRowOffset x region layer z row =
    (let unit = ucast (blkBytes (formatBlockInfo (img_format x)));
         imageStride = clampedMultiply (clampedMultiply (bufferRowBlocks x region) (bufferBlockRows x region)) unit;
         layerStride = clampedMultiply imageStride (copyBlocks extDepth blkDepth x region)
     in clampedAdd (clampedMultiply (ucast layer) layerStride)
          (clampedAdd (clampedMultiply z imageStride)
            (clampedMultiply (clampedMultiply row (bufferRowBlocks x region)) unit)))"

text \<open>The slices and rows of a layer.\<close>

definition region_rows :: "ImageState \<Rightarrow> VkBufferImageCopy \<Rightarrow> (u64 \<times> u64) list" where
  "region_rows x region =
    concat (map (\<lambda>z. map (\<lambda>row. (word_of_nat z, word_of_nat row)) [0..<unat (copyBlocks extHeight blkHeight x region)])
      [0..<unat (copyBlocks extDepth blkDepth x region)])"

definition region_layers :: "VkBufferImageCopy \<Rightarrow> u32 list" where
  "region_layers region = map word_of_nat [0..<unat (layerCount (imageSubresource region))]"

definition to_image_row ::
  "BufferState \<Rightarrow> DeviceMemoryState \<Rightarrow> ImageState \<Rightarrow> host_bytes \<times> u64 \<Rightarrow> VkBufferImageCopy \<Rightarrow> u32 \<Rightarrow> u64 \<times> u64 \<Rightarrow> vk \<Rightarrow> VkResult \<times> vk" where
  "to_image_row b m x to region layer zrow s =
    (let relative = clampedAdd (bufferOffset region) (bufferRowOffset x region layer (fst zrow) (snd zrow));
         source = clampedAdd (buf_memoryOffset b) relative;
         destination = imageRowOffset x region layer (fst zrow) (snd zrow);
         rowBytes = copyRowBytes x region
     in if outside relative rowBytes (buf_size b) \<or> outside source rowBytes (mem_size m)
          \<or> outside destination rowBytes (snd to)
        then (VK_ERROR_MEMORY_MAP_FAILED, s)
        else (case load_memory (buf_memory b) (unat source) (unat rowBytes) s of
          (bs, s1) \<Rightarrow> (VK_SUCCESS, store_host (fst to) destination bs s1)))"

definition to_image_layer ::
  "ptr \<Rightarrow> BufferState \<Rightarrow> DeviceMemoryState \<Rightarrow> ImageState \<Rightarrow> host_bytes \<times> u64 \<Rightarrow> VkBufferImageCopy \<Rightarrow> u32 \<Rightarrow> vk \<Rightarrow> VkResult \<times> vk" where
  "to_image_layer img b m x to region layer s =
    (case for_each (to_image_row b m x to region layer) (region_rows x region) s of
       (r, s1) \<Rightarrow>
         if r \<noteq> VK_SUCCESS then (r, s1)
         else (VK_SUCCESS, markImageSubresourceInitialized img (lay_mipLevel (imageSubresource region))
           (baseArrayLayer (imageSubresource region) + layer) s1))"

definition executeBufferToImageCopy :: "RecordedBufferToImageCopy \<Rightarrow> vk \<Rightarrow> VkResult \<times> vk" where
  "executeBufferToImageCopy copy s =
    (if bi_source copy = 0 \<or> bi_destination copy = 0 then (VK_ERROR_MEMORY_MAP_FAILED, s)
     else (case map_of (buffers s) (bi_source copy) of
       None \<Rightarrow> (VK_ERROR_MEMORY_MAP_FAILED, undefined_vk s)
     | Some b \<Rightarrow>
       if buf_memory b = 0 then (VK_ERROR_MEMORY_MAP_FAILED, s)
       else (case ensureHostBacking (buf_memory b) s of
         (r, s1) \<Rightarrow>
           if r \<noteq> VK_SUCCESS then (r, s1)
           else (case imageHostBytes (bi_destination copy) s1 of
             ((r, to), s2) \<Rightarrow>
               if r \<noteq> VK_SUCCESS then (r, s2)
               else (case (images s2 (bi_destination copy), memories s2 (buf_memory b)) of
                 (Some x, Some m) \<Rightarrow>
                   for_each (\<lambda>region s3.
                     if \<not> regionOk x region then (VK_ERROR_FORMAT_NOT_SUPPORTED, s3)
                     else for_each (to_image_layer (bi_destination copy) b m x to region) (region_layers region) s3)
                     (bi_regions copy) s2
               | _ \<Rightarrow> (VK_SUCCESS, undefined_vk s2))))))"

section \<open>From image to buffer\<close>

text \<open>Where a row goes in the memory of the buffer. The clamped sums are taken in the order of the code.\<close>

definition destinationRow :: "BufferState \<Rightarrow> ImageState \<Rightarrow> VkBufferImageCopy \<Rightarrow> u32 \<Rightarrow> u64 \<times> u64 \<Rightarrow> u64" where
  "destinationRow b x region layer zrow =
    clampedAdd (clampedAdd (buf_memoryOffset b) (bufferOffset region)) (bufferRowOffset x region layer (fst zrow) (snd zrow))"

definition from_image_row ::
  "BufferState \<Rightarrow> DeviceMemoryState \<Rightarrow> ImageState \<Rightarrow> host_bytes \<times> u64 \<Rightarrow> VkBufferImageCopy \<Rightarrow> u32 \<Rightarrow> u64 \<times> u64 \<Rightarrow> vk \<Rightarrow> VkResult \<times> vk" where
  "from_image_row b m x from region layer zrow s =
    (let source = imageRowOffset x region layer (fst zrow) (snd zrow);
         destination = destinationRow b x region layer zrow;
         rowBytes = copyRowBytes x region
     in if outside source rowBytes (snd from) \<or> outside destination rowBytes (mem_size m)
          \<or> destination < buf_memoryOffset b \<or> outside (destination - buf_memoryOffset b) rowBytes (buf_size b)
        then (VK_ERROR_MEMORY_MAP_FAILED, s)
        else (case load_host (fst from) source (unat rowBytes) s of
          (bs, s1) \<Rightarrow> (VK_SUCCESS, store_memory (buf_memory b) (unat destination) bs s1)))"

definition from_image_layer ::
  "ptr \<Rightarrow> BufferState \<Rightarrow> DeviceMemoryState \<Rightarrow> ImageState \<Rightarrow> host_bytes \<times> u64 \<Rightarrow> VkBufferImageCopy \<Rightarrow> u32 \<Rightarrow> vk \<Rightarrow> VkResult \<times> vk" where
  "from_image_layer img b m x from region layer s =
    (case (if img_memory x = 0 then (VK_SUCCESS, s)
           else ensureLinearImageMipInitialized img (unat (lay_mipLevel (imageSubresource region)))
             (baseArrayLayer (imageSubresource region) + layer) s) of
       (r, s1) \<Rightarrow>
         if r \<noteq> VK_SUCCESS then (r, s1)
         else for_each (from_image_row b m x from region layer) (region_rows x region) s1)"

text \<open>The bytes of the memory that the rows of the regions wrote: first and behind the last.\<close>

definition written_rows :: "BufferState \<Rightarrow> ImageState \<Rightarrow> VkBufferImageCopy list \<Rightarrow> (u64 \<times> u64) list" where
  "written_rows b x regions =
    concat (map (\<lambda>region. concat (map (\<lambda>layer.
      map (\<lambda>zrow. (destinationRow b x region layer zrow, destinationRow b x region layer zrow + copyRowBytes x region))
        (region_rows x region)) (region_layers region))) regions)"

definition finish_image_to_buffer :: "BufferState \<Rightarrow> ImageState \<Rightarrow> VkBufferImageCopy list \<Rightarrow> vk \<Rightarrow> VkResult \<times> vk" where
  "finish_image_to_buffer b x regions s =
    (let rows = written_rows b x regions;
         dirtyStart = foldr min (map fst rows) VK_WHOLE_SIZE;
         dirtyBehind = foldr max (map snd rows) 0
     in if dirtyStart \<noteq> VK_WHOLE_SIZE \<and> dirtyBehind > dirtyStart
        then syncMemoryToExternalFD (buf_memory b) dirtyStart (dirtyBehind - dirtyStart)
          (change_memory (buf_memory b) (add_dirty dirtyStart dirtyBehind) s)
        else (VK_SUCCESS, s))"

definition executeImageToBufferCopy :: "RecordedImageToBufferCopy \<Rightarrow> vk \<Rightarrow> VkResult \<times> vk" where
  "executeImageToBufferCopy copy s =
    (if ib_source copy = 0 \<or> ib_destination copy = 0 then (VK_ERROR_MEMORY_MAP_FAILED, s)
     else (case map_of (buffers s) (ib_destination copy) of
       None \<Rightarrow> (VK_ERROR_MEMORY_MAP_FAILED, undefined_vk s)
     | Some b \<Rightarrow>
       if buf_memory b = 0 then (VK_ERROR_MEMORY_MAP_FAILED, s)
       else (case ensureHostBacking (buf_memory b) s of
         (r, s1) \<Rightarrow>
           if r \<noteq> VK_SUCCESS then (r, s1)
           else (case imageHostBytes (ib_source copy) s1 of
             ((r, from), s2) \<Rightarrow>
               if r \<noteq> VK_SUCCESS then (r, s2)
               else (case (images s2 (ib_source copy), memories s2 (buf_memory b)) of
                 (Some x, Some m) \<Rightarrow>
                   (case for_each (\<lambda>region s3.
                      if \<not> regionOk x region then (VK_ERROR_FORMAT_NOT_SUPPORTED, s3)
                      else for_each (from_image_layer (ib_source copy) b m x from region) (region_layers region) s3)
                      (ib_regions copy) s2 of
                    (r, s4) \<Rightarrow>
                      if r \<noteq> VK_SUCCESS then (r, s4) else finish_image_to_buffer b x (ib_regions copy) s4)
               | _ \<Rightarrow> (VK_SUCCESS, undefined_vk s2))))))"

section \<open>After a transfer\<close>

definition upload_sparse_image :: "ptr \<Rightarrow> ImageState \<Rightarrow> (vk, VkResult) prog" where
  "upload_sparse_image img x s =
    (let tightSize = clampedMultiply (imageLayerByteSize (img_format x) (img_extent x) (img_mipLevels x))
           (ucast (img_arrayLayers x))
     in if tightSize = 0 \<or> unat tightSize > length (sparseBytes x) then (Inr VK_ERROR_MEMORY_MAP_FAILED, s)
        else (case images s img of
          None \<Rightarrow> (Inr VK_SUCCESS, undefined_vk s)
        | Some y \<Rightarrow>
            catching
              (andThen (via_bridge (bridge_writeImage (img_resourceID y) (take (unat tightSize) (sparseBytes x))))
                (\<lambda>_ s1. (Inr VK_SUCCESS, change_image img (\<lambda>z. z\<lparr>img_dirty := False\<rparr>) s1)))
              (ret VK_ERROR_DEVICE_LOST) s))"

definition syncTransferredImage :: "ptr \<Rightarrow> (vk, VkResult) prog" where
  "syncTransferredImage img s =
    (if img = 0 then (Inr VK_SUCCESS, s)
     else case images s img of
       None \<Rightarrow> (Inr VK_SUCCESS, undefined_vk s)
     | Some x \<Rightarrow>
       if img_flags x AND VK_IMAGE_CREATE_SPARSE_BINDING_BIT \<noteq> 0 \<and> img_memory x = 0
       then (if \<not> img_dirty x \<or> sparseBytes x = [] then (Inr VK_SUCCESS, s)
             else andThen (ensureSparseImageBacking img)
               (\<lambda>r. if r \<noteq> VK_SUCCESS then ret r else upload_sparse_image img x) s)
       else if img_memory x = 0 then (Inr VK_SUCCESS, s)
       else (case memories s (img_memory x) of
         None \<Rightarrow> (Inr VK_SUCCESS, undefined_vk s)
       | Some m \<Rightarrow>
         if mem_externalFD m < 0 then (Inr VK_SUCCESS, s)
         else (case syncMemoryToExternalFD (img_memory x) (img_memoryOffset x) (img_size x)
             (change_memory (img_memory x) (add_dirty (img_memoryOffset x) (img_memoryOffset x + img_size x)) s) of
           (r, s1) \<Rightarrow> (Inr r, if r = VK_SUCCESS then change_memory (img_memory x) clean s1 else s1))))"

end
