(* ===== verification/VkExecute.thy ===== *)
theory VkExecute
  imports VkImageCopy "HOL-Library.Multiset"
begin

text \<open>
  Executing a recorded command buffer (\<^verbatim>\<open>executeRecordedCommandsLocked\<close>), uploading a buffer to the host
  (\<^verbatim>\<open>uploadBufferForMetalLocked\<close>), and the fences of submitted work.

  The commands of a buffer lie in nine lists, one for each kind, each command with its sequence number; the loop takes
  the command with the smallest number among the first ones of the lists. Here the lists lose their first element where the
  code counts an index up. The commands that run on the Metal device, the builds of acceleration structures and the compute
  dispatches, are arguments (\<open>metal\<close>). When the host fails in the middle of a read, what it has sent so far is
  left out.
\<close>

section \<open>The next command\<close>

datatype recorded = BufferCopy RecordedBufferCopy | BufferUpdate RecordedBufferUpdate | BufferFill RecordedBufferFill
  | ImageClear RecordedImageClear | ImageCopy RecordedImageCopy | BufferToImageCopy RecordedBufferToImageCopy
  | ImageToBufferCopy RecordedImageToBufferCopy | AccelerationStructureBuild RecordedAccelerationStructureBuildKHR
  | ComputeDispatch RecordedComputeDispatch

primrec sequence_of :: "recorded \<Rightarrow> u64" where
  "sequence_of (BufferCopy x) = bc_sequence x"
| "sequence_of (BufferUpdate x) = bu_sequence x"
| "sequence_of (BufferFill x) = bf_sequence x"
| "sequence_of (ImageClear x) = cl_sequence x"
| "sequence_of (ImageCopy x) = ic_sequence x"
| "sequence_of (BufferToImageCopy x) = bi_sequence x"
| "sequence_of (ImageToBufferCopy x) = ib_sequence x"
| "sequence_of (AccelerationStructureBuild x) = as_sequence x"
| "sequence_of (ComputeDispatch x) = cd_sequence x"

definition queues :: "CommandBufferState \<Rightarrow> recorded list list" where
  "queues c = [map BufferCopy (bufferCopies c), map BufferUpdate (bufferUpdates c), map BufferFill (bufferFills c),
     map ImageClear (imageClears c), map ImageCopy (imageCopies c), map BufferToImageCopy (bufferToImageCopies c),
     map ImageToBufferCopy (imageToBufferCopies c), map AccelerationStructureBuild (accelerationStructureBuildsKHR c),
     map ComputeDispatch (computeDispatches c)]"

definition pick_smaller :: "recorded \<Rightarrow> u64 \<times> recorded option \<Rightarrow> u64 \<times> recorded option" where
  "pick_smaller r best = (if sequence_of r < fst best then (sequence_of r, Some r) else best)"

definition next_recorded :: "CommandBufferState \<Rightarrow> recorded option" where
  "next_recorded c = snd (fold pick_smaller (concat (map (take 1) (queues c))) (UINT64_MAX, None))"

primrec remove_head :: "recorded \<Rightarrow> CommandBufferState \<Rightarrow> CommandBufferState" where
  "remove_head (BufferCopy x) c = c\<lparr>bufferCopies := tl (bufferCopies c)\<rparr>"
| "remove_head (BufferUpdate x) c = c\<lparr>bufferUpdates := tl (bufferUpdates c)\<rparr>"
| "remove_head (BufferFill x) c = c\<lparr>bufferFills := tl (bufferFills c)\<rparr>"
| "remove_head (ImageClear x) c = c\<lparr>imageClears := tl (imageClears c)\<rparr>"
| "remove_head (ImageCopy x) c = c\<lparr>imageCopies := tl (imageCopies c)\<rparr>"
| "remove_head (BufferToImageCopy x) c = c\<lparr>bufferToImageCopies := tl (bufferToImageCopies c)\<rparr>"
| "remove_head (ImageToBufferCopy x) c = c\<lparr>imageToBufferCopies := tl (imageToBufferCopies c)\<rparr>"
| "remove_head (AccelerationStructureBuild x) c =
    c\<lparr>accelerationStructureBuildsKHR := tl (accelerationStructureBuildsKHR c)\<rparr>"
| "remove_head (ComputeDispatch x) c = c\<lparr>computeDispatches := tl (computeDispatches c)\<rparr>"

definition all_recorded :: "CommandBufferState \<Rightarrow> recorded list" where
  "all_recorded c = concat (queues c)"

lemma set_all_recorded: "r \<in> set (all_recorded c) \<longleftrightarrow> (\<exists>q \<in> set (queues c). r \<in> set q)"
  by (auto simp: all_recorded_def)

lemma fold_pick:
  assumes "fold pick_smaller rs (n, best) = (n', Some r)"
  shows "(best = Some r \<or> r \<in> set rs) \<and> n' \<le> n \<and> (\<forall>x \<in> set rs. n' \<le> sequence_of x)
    \<and> (r \<in> set rs \<or> n' = n) \<and> (best = Some r \<and> n' = n \<or> n' = sequence_of r)"
  using assms
  by (induction rs arbitrary: n best) (fastforce simp: pick_smaller_def split: if_splits)+

lemma next_recorded_in_heads:
  assumes "next_recorded c = Some r"
  shows "r \<in> set (concat (map (take 1) (queues c)))"
proof -
  obtain n where "fold pick_smaller (concat (map (take 1) (queues c))) (UINT64_MAX, None) = (n, Some r)"
    using assms by (metis next_recorded_def prod.collapse)
  from fold_pick [OF this] show ?thesis by simp
qed

lemma head_mapD: "r \<in> set (take (Suc 0) (map C xs)) \<Longrightarrow> \<exists>x ys. xs = x # ys \<and> r = C x"
  by (cases xs) auto

lemma in_heads:
  assumes "r \<in> set (concat (map (take 1) (queues c)))"
  shows "mset (all_recorded c) = add_mset r (mset (all_recorded (remove_head r c)))"
  using assms unfolding queues_def all_recorded_def by (auto dest!: head_mapD)

lemma next_recorded_less:
  "next_recorded c = Some r \<Longrightarrow> length (all_recorded (remove_head r c)) < length (all_recorded c)"
  using in_heads [OF next_recorded_in_heads] by (metis size_mset size_add_mset lessI)

section \<open>Executing\<close>

record metal =
  buildInstance :: "RecordedAccelerationStructureBuildKHR \<Rightarrow> (vk, VkResult) prog"
  buildPrimitive :: "RecordedAccelerationStructureBuildKHR \<Rightarrow> (vk, VkResult) prog"
  dispatchCompute :: "RecordedComputeDispatch \<Rightarrow> (vk, VkResult) prog"

abbreviation (input) TOP_LEVEL_KHR :: u32 where "TOP_LEVEL_KHR \<equiv> 0"

text \<open>Results that only mean that the Metal translation of a dispatch is left out.\<close>

definition skipped_dispatch :: "VkResult \<Rightarrow> bool" where
  "skipped_dispatch r \<longleftrightarrow> r = VK_ERROR_INITIALIZATION_FAILED \<or> r = VK_ERROR_FEATURE_NOT_PRESENT
    \<or> r = VK_ERROR_FORMAT_NOT_SUPPORTED \<or> r = VK_ERROR_MEMORY_MAP_FAILED"

definition host_step :: "(vk \<Rightarrow> VkResult \<times> vk) \<Rightarrow> (vk, VkResult) prog" where
  "host_step f s = (case f s of (r, s1) \<Rightarrow> (Inr r, s1))"

primrec execute_one :: "metal \<Rightarrow> recorded \<Rightarrow> (vk, VkResult) prog" where
  "execute_one M (BufferCopy x) = host_step (for_each (copyBufferBytes (bc_source x) (bc_destination x)) (bc_regions x))"
| "execute_one M (BufferUpdate x) = host_step (writeBufferBytes (bu_destination x) (bu_offset x) (bu_data x))"
| "execute_one M (BufferFill x) = host_step (executeBufferFill x)"
| "execute_one M (ImageClear x) = host_step (executeImageClear x)"
| "execute_one M (ImageCopy x) = host_step (executeImageCopy x)"
| "execute_one M (BufferToImageCopy x) = host_step (executeBufferToImageCopy x)"
| "execute_one M (ImageToBufferCopy x) = host_step (executeImageToBufferCopy x)"
| "execute_one M (AccelerationStructureBuild x) =
    andThen (if as_type x = TOP_LEVEL_KHR then buildInstance M x else buildPrimitive M x) (\<lambda>r.
      ret (if r = VK_ERROR_FEATURE_NOT_PRESENT \<and> as_type x = TOP_LEVEL_KHR then VK_SUCCESS else r))"
| "execute_one M (ComputeDispatch x) =
    andThen (dispatchCompute M x) (\<lambda>r. ret (if skipped_dispatch r then VK_SUCCESS else r))"

text \<open>The image that a command writes.\<close>

fun written_image :: "recorded \<Rightarrow> ptr set" where
  "written_image (ImageClear x) = {cl_image x}"
| "written_image (ImageCopy x) = {ic_destination x}"
| "written_image (BufferToImageCopy x) = {bi_destination x}"
| "written_image r = {}"

function executeRecordedCommands :: "metal \<Rightarrow> CommandBufferState \<Rightarrow> ptr set \<Rightarrow> (vk, VkResult \<times> ptr set) prog" where
  "executeRecordedCommands M c dirtyImages s =
    (if all_recorded c = [] then (Inr (VK_SUCCESS, dirtyImages), s)
     else (case next_recorded c of
       None \<Rightarrow> (Inr (VK_ERROR_INITIALIZATION_FAILED, dirtyImages), s)
     | Some r \<Rightarrow>
         (case execute_one M r s of
            (Inl e, s1) \<Rightarrow> (Inl e, s1)
          | (Inr result, s1) \<Rightarrow>
              if result \<noteq> VK_SUCCESS then (Inr (result, dirtyImages), s1)
              else executeRecordedCommands M (remove_head r c) (dirtyImages \<union> written_image r) s1)))"
  by pat_completeness auto
termination
  by (relation "measure (\<lambda>(_, c, _, _). length (all_recorded c))") (auto dest: next_recorded_less simp del: length_concat)

declare executeRecordedCommands.simps [simp del]

section \<open>Recording order\<close>

text \<open>The commands one after the other.\<close>

fun perform_in_order :: "metal \<Rightarrow> recorded list \<Rightarrow> ptr set \<Rightarrow> (vk, VkResult \<times> ptr set) prog" where
  "perform_in_order M [] dirtyImages s = (Inr (VK_SUCCESS, dirtyImages), s)"
| "perform_in_order M (r # rs) dirtyImages s =
    (case execute_one M r s of
       (Inl e, s1) \<Rightarrow> (Inl e, s1)
     | (Inr result, s1) \<Rightarrow>
         if result \<noteq> VK_SUCCESS then (Inr (result, dirtyImages), s1)
         else perform_in_order M rs (dirtyImages \<union> written_image r) s1)"

text \<open>The invariant of a command buffer: each list is sorted, no number is used twice, and the next one is new.\<close>

definition commands_ok :: "CommandBufferState \<Rightarrow> bool" where
  "commands_ok c \<longleftrightarrow> (\<forall>q \<in> set (queues c). sorted_wrt (<) (map sequence_of q))
    \<and> distinct (map sequence_of (all_recorded c)) \<and> (\<forall>r \<in> set (all_recorded c). sequence_of r < nextCommandSequence c)"

lemma fold_pick_None:
  "snd (fold pick_smaller rs (n, best)) = None \<Longrightarrow> best = None \<and> (\<forall>r \<in> set rs. n \<le> sequence_of r)"
proof (induction rs arbitrary: n best)
  case (Cons r rs)
  show ?case
  proof (cases "sequence_of r < n")
    case True
    then show ?thesis using Cons.IH [of "sequence_of r" "Some r"] Cons.prems by (simp add: pick_smaller_def)
  next
    case False
    then show ?thesis using Cons.IH [of n best] Cons.prems False by (simp add: pick_smaller_def)
  qed
qed simp

lemma head_minimal:
  assumes "\<forall>q \<in> set qs. sorted_wrt (<) (map sequence_of q)" "\<forall>h \<in> set (concat (map (take 1) qs)). n \<le> sequence_of h"
    and "x \<in> set (concat qs)"
  shows "n \<le> sequence_of x"
proof -
  obtain q where q: "q \<in> set qs" "x \<in> set q" using assms(3) by auto
  obtain h rest where h: "q = h # rest" using q(2) by (cases q) auto
  then have "h \<in> set (concat (map (take 1) qs))" using q by force
  then have "n \<le> sequence_of h" using assms(2) by blast
  moreover have "sequence_of h \<le> sequence_of x" using assms(1) q h by force
  ultimately show ?thesis by simp
qed

lemma next_recorded_minimal:
  assumes "commands_ok c" "next_recorded c = Some r" "x \<in> set (all_recorded c)"
  shows "sequence_of r \<le> sequence_of x"
proof -
  obtain n where n: "fold pick_smaller (concat (map (take 1) (queues c))) (UINT64_MAX, None) = (n, Some r)"
    using assms(2) by (metis next_recorded_def prod.collapse)
  show ?thesis
    by (rule head_minimal [where qs = "queues c"]) (use fold_pick [OF n] assms in \<open>auto simp: commands_ok_def all_recorded_def\<close>)
qed

lemma next_recorded_exists:
  assumes "commands_ok c" "all_recorded c \<noteq> []"
  shows "next_recorded c \<noteq> None"
proof
  assume "next_recorded c = None"
  then have h: "\<forall>h \<in> set (concat (map (take 1) (queues c))). UINT64_MAX \<le> sequence_of h"
    using fold_pick_None by (fastforce simp: next_recorded_def)
  obtain x where x: "x \<in> set (all_recorded c)" using assms(2) by (cases "all_recorded c") auto
  have "UINT64_MAX \<le> sequence_of x"
    by (rule head_minimal [where qs = "queues c"]) (use h x assms(1) in \<open>auto simp: commands_ok_def all_recorded_def\<close>)
  moreover have "sequence_of x < nextCommandSequence c" using assms(1) x by (simp add: commands_ok_def)
  ultimately show False using word_order.extremum [of "nextCommandSequence c"] by (metis not_less order_trans)
qed

lemma sorted_map_tl: "sorted_wrt P (map f xs) \<Longrightarrow> sorted_wrt P (map f (tl xs))"
  by (cases xs) auto

lemma remove_head_queues: "\<forall>q' \<in> set (queues (remove_head r c)). \<exists>q \<in> set (queues c). q' = q \<or> q' = tl q"
  by (cases r) (auto simp: queues_def simp flip: map_tl)

lemma remove_head_next [simp]: "nextCommandSequence (remove_head r c) = nextCommandSequence c"
  by (cases r) simp_all

lemma commands_ok_remove:
  assumes "commands_ok c" "next_recorded c = Some r"
  shows "commands_ok (remove_head r c)"
proof -
  have m: "mset (all_recorded c) = add_mset r (mset (all_recorded (remove_head r c)))"
    using in_heads [OF next_recorded_in_heads [OF assms(2)]] .
  have "mset (map sequence_of (all_recorded c)) = add_mset (sequence_of r) (mset (map sequence_of (all_recorded (remove_head r c))))"
    by (simp only: mset_map m image_mset_add_mset)
  then have "mset (map sequence_of (all_recorded c)) = mset (sequence_of r # map sequence_of (all_recorded (remove_head r c)))"
    by simp
  then have d: "distinct (map sequence_of (all_recorded (remove_head r c)))"
    using assms(1) unfolding commands_ok_def by (metis mset_eq_imp_distinct_iff distinct.simps(2))
  have s: "set (all_recorded (remove_head r c)) \<subseteq> set (all_recorded c)"
    using m by (metis set_mset_mset set_mset_add_mset_insert subset_insertI)
  have "\<forall>q' \<in> set (queues (remove_head r c)). sorted_wrt (<) (map sequence_of q')"
    using remove_head_queues [of r c] assms(1) sorted_map_tl unfolding commands_ok_def by blast
  then show ?thesis using d s assms(1) unfolding commands_ok_def by auto
qed

lemma sorted_recorded_step:
  assumes "commands_ok c" "next_recorded c = Some r"
  shows "sort_key sequence_of (all_recorded c) = r # sort_key sequence_of (all_recorded (remove_head r c))"
proof (rule sort_key_inj_key_eq)
  let ?rest = "all_recorded (remove_head r c)"
  have m: "mset (all_recorded c) = add_mset r (mset ?rest)"
    using in_heads [OF next_recorded_in_heads [OF assms(2)]] .
  then show "mset (all_recorded c) = mset (r # sort_key sequence_of ?rest)" by simp
  show "inj_on sequence_of (set (all_recorded c))" using assms(1) by (simp add: commands_ok_def distinct_map)
  have "set ?rest \<subseteq> set (all_recorded c)" using m by (metis set_mset_mset set_mset_add_mset_insert subset_insertI)
  then show "sorted (map sequence_of (r # sort_key sequence_of ?rest))"
    using next_recorded_minimal [OF assms] by auto
qed

lemma execute_in_sequence_order:
  assumes "commands_ok c"
  shows "executeRecordedCommands M c dirtyImages s = perform_in_order M (sort_key sequence_of (all_recorded c)) dirtyImages s"
  using assms
proof (induction M c dirtyImages s rule: executeRecordedCommands.induct)
  case (1 M c dirtyImages s)
  show ?case
  proof (cases "all_recorded c = []")
    case True
    then show ?thesis by (subst executeRecordedCommands.simps) simp
  next
    case False
    then obtain r where r: "next_recorded c = Some r" using next_recorded_exists [OF "1.prems"] by auto
    show ?thesis
      by (subst executeRecordedCommands.simps)
        (use 1 False r in \<open>auto simp: sorted_recorded_step commands_ok_remove split: sum.splits prod.splits\<close>)
  qed
qed

end
