(* ===== verification/VkCommand.thy ===== *)
theory VkCommand
  imports VkExecute
begin

text \<open>
  Command pools and command buffers, and the recording of transfers: \<^verbatim>\<open>imb_vkCreateCommandPool\<close> to
  \<^verbatim>\<open>imb_vkResetCommandBuffer\<close>, \<^verbatim>\<open>imb_vkCmdCopyBuffer\<close> to \<^verbatim>\<open>imb_vkCmdCopyImageToBuffer2\<close>. The state that
  graphics and ray tracing commands leave in a command buffer is not part of the model, nor are the commands that write it.
  A null array is \<open>None\<close>; its count is its length.
\<close>

section \<open>Pools and buffers\<close>

definition new_command :: "ptr \<Rightarrow> ptr \<Rightarrow> CommandBufferState" where
  "new_command device pool =
    \<lparr>cmd_device = device, cmd_pool = pool, recording = False, executable = False, cmd_pipeline = 0,
     cmd_descriptorSet = 0, addend = 0, hasPushConstant = False, computePushConstants = [], cmd_groupCountX = 0,
     graphicsDescriptorSets = replicate 2 0, computeDescriptorSets = replicate 32 0,
     rayTracingDescriptorSets = replicate 32 0, textureIndex = 0, nextCommandSequence = 1,
     bufferCopies = [], bufferUpdates = [], bufferFills = [], imageClears = [], imageCopies = [],
     bufferToImageCopies = [], imageToBufferCopies = [], accelerationStructureBuildsKHR = [], computeDispatches = []\<rparr>"

text \<open>What resetting a pool does to a command buffer, and what beginning and resetting the buffer itself do: these also
  forget the descriptor sets and the texture of the graphics commands.\<close>

definition clear_command :: "CommandBufferState \<Rightarrow> CommandBufferState" where
  "clear_command c = c\<lparr>executable := False, cmd_pipeline := 0, cmd_descriptorSet := 0, hasPushConstant := False,
     computePushConstants := [], cmd_groupCountX := 0, computeDescriptorSets := replicate 32 0,
     rayTracingDescriptorSets := replicate 32 0, nextCommandSequence := 1,
     bufferCopies := [], bufferUpdates := [], bufferFills := [], imageClears := [], imageCopies := [],
     bufferToImageCopies := [], imageToBufferCopies := [], accelerationStructureBuildsKHR := [], computeDispatches := []\<rparr>"

definition clear_graphics :: "CommandBufferState \<Rightarrow> CommandBufferState" where
  "clear_graphics c = c\<lparr>graphicsDescriptorSets := replicate 2 0, textureIndex := 0\<rparr>"

definition vkCreateCommandPool :: "ptr \<Rightarrow> u32 option \<Rightarrow> bool \<Rightarrow> vk \<Rightarrow> (VkResult \<times> ptr option) \<times> vk" where
  "vkCreateCommandPool device queueFamilyIndex out s =
    (if queueFamilyIndex = None \<or> \<not> out \<or> queueFamilyIndex \<noteq> Some 0 then ((VK_ERROR_INITIALIZATION_FAILED, None), s)
     else if \<not> validVkDevice s device then ((VK_ERROR_INITIALIZATION_FAILED, None), s)
     else (case new_state s of
       (None, s1) \<Rightarrow> ((VK_ERROR_OUT_OF_HOST_MEMORY, None), s1)
     | (Some p, s1) \<Rightarrow> ((VK_SUCCESS, Some p), s1\<lparr>commandPools := (commandPools s1)(p \<mapsto> device)\<rparr>)))"

definition destroyCommandBuffersForPool :: "ptr \<Rightarrow> vk \<Rightarrow> vk" where
  "destroyCommandBuffersForPool pool s = s\<lparr>commandBuffers := (\<lambda>p. case commandBuffers s p of
       None \<Rightarrow> None | Some c \<Rightarrow> if cmd_pool c = pool then None else Some c)\<rparr>"

definition vkDestroyCommandPool :: "ptr \<Rightarrow> vk \<Rightarrow> vk" where
  "vkDestroyCommandPool pool s =
    (if pool = 0 \<or> commandPools s pool = None then s
     else destroyCommandBuffersForPool pool (s\<lparr>commandPools := (commandPools s)(pool := None)\<rparr>))"

definition vkResetCommandPool :: "ptr \<Rightarrow> vk \<Rightarrow> VkResult \<times> vk" where
  "vkResetCommandPool pool s =
    (if commandPools s pool = None then (VK_ERROR_INITIALIZATION_FAILED, s)
     else (VK_SUCCESS, s\<lparr>commandBuffers := (\<lambda>p. case commandBuffers s p of
       None \<Rightarrow> None
     | Some c \<Rightarrow> Some (if cmd_pool c = pool then (clear_command c)\<lparr>recording := False\<rparr> else c))\<rparr>))"

record VkCommandBufferAllocateInfo =
  cai_commandPool :: ptr
  cai_level :: u32
  cai_count :: u32

text \<open>The loop over the new buffers: those that were made before a failure stay.\<close>

fun allocate_commands :: "ptr \<Rightarrow> ptr \<Rightarrow> nat \<Rightarrow> ptr list \<Rightarrow> vk \<Rightarrow> (VkResult \<times> ptr list) \<times> vk" where
  "allocate_commands device pool 0 made s = ((VK_SUCCESS, made), s)"
| "allocate_commands device pool (Suc n) made s =
    (case new_state s of
       (None, s1) \<Rightarrow> ((VK_ERROR_OUT_OF_HOST_MEMORY, made), s1)
     | (Some p, s1) \<Rightarrow> allocate_commands device pool n (made @ [p]) (put_command p (new_command device pool) s1))"

definition vkAllocateCommandBuffers ::
  "ptr \<Rightarrow> VkCommandBufferAllocateInfo option \<Rightarrow> bool \<Rightarrow> vk \<Rightarrow> (VkResult \<times> ptr list) \<times> vk" where
  "vkAllocateCommandBuffers device allocateInfo out s =
    (case allocateInfo of
       None \<Rightarrow> ((VK_ERROR_INITIALIZATION_FAILED, []), s)
     | Some info \<Rightarrow>
       if \<not> out \<or> cai_count info = 0 \<or> cai_level info \<noteq> 0 then ((VK_ERROR_INITIALIZATION_FAILED, []), s)
       else if \<not> validVkDevice s device \<or> commandPools s (cai_commandPool info) \<noteq> Some device
       then ((VK_ERROR_INITIALIZATION_FAILED, []), s)
       else allocate_commands device (cai_commandPool info) (unat (cai_count info)) [] s)"

definition free_command :: "ptr \<Rightarrow> ptr \<Rightarrow> vk \<Rightarrow> vk" where
  "free_command pool p s = (case commandBuffers s p of
      None \<Rightarrow> s
    | Some c \<Rightarrow> if cmd_pool c = pool then s\<lparr>commandBuffers := (commandBuffers s)(p := None)\<rparr> else s)"

definition vkFreeCommandBuffers :: "ptr \<Rightarrow> ptr list option \<Rightarrow> vk \<Rightarrow> vk" where
  "vkFreeCommandBuffers pool handles s =
    (case handles of
       None \<Rightarrow> s
     | Some ps \<Rightarrow> if commandPools s pool = None then s else fold (free_command pool) ps s)"

definition vkBeginCommandBuffer :: "ptr \<Rightarrow> bool \<Rightarrow> vk \<Rightarrow> VkResult \<times> vk" where
  "vkBeginCommandBuffer command beginInfo s =
    (if command = 0 \<or> \<not> beginInfo then (VK_ERROR_INITIALIZATION_FAILED, s)
     else case commandBuffers s command of
       None \<Rightarrow> (VK_ERROR_INITIALIZATION_FAILED, s)
     | Some c \<Rightarrow>
       if recording c then (VK_ERROR_INITIALIZATION_FAILED, s)
       else (VK_SUCCESS, put_command command ((clear_graphics (clear_command c))\<lparr>recording := True\<rparr>) s))"

definition vkEndCommandBuffer :: "ptr \<Rightarrow> vk \<Rightarrow> VkResult \<times> vk" where
  "vkEndCommandBuffer command s =
    (case commandBuffers s command of
       None \<Rightarrow> (VK_ERROR_INITIALIZATION_FAILED, s)
     | Some c \<Rightarrow>
       if \<not> recording c then (VK_ERROR_INITIALIZATION_FAILED, s)
       else (VK_SUCCESS, put_command command (c\<lparr>recording := False, executable := True\<rparr>) s))"

definition vkResetCommandBuffer :: "ptr \<Rightarrow> vk \<Rightarrow> VkResult \<times> vk" where
  "vkResetCommandBuffer command s =
    (case commandBuffers s command of
       None \<Rightarrow> (VK_ERROR_INITIALIZATION_FAILED, s)
     | Some c \<Rightarrow> (VK_SUCCESS, put_command command ((clear_graphics (clear_command c))\<lparr>recording := False\<rparr>) s))"

section \<open>Recording\<close>

text \<open>\<^verbatim>\<open>push_back\<close> to the list of the command's kind.\<close>

primrec push_recorded :: "recorded \<Rightarrow> CommandBufferState \<Rightarrow> CommandBufferState" where
  "push_recorded (BufferCopy x) c = c\<lparr>bufferCopies := bufferCopies c @ [x]\<rparr>"
| "push_recorded (BufferUpdate x) c = c\<lparr>bufferUpdates := bufferUpdates c @ [x]\<rparr>"
| "push_recorded (BufferFill x) c = c\<lparr>bufferFills := bufferFills c @ [x]\<rparr>"
| "push_recorded (ImageClear x) c = c\<lparr>imageClears := imageClears c @ [x]\<rparr>"
| "push_recorded (ImageCopy x) c = c\<lparr>imageCopies := imageCopies c @ [x]\<rparr>"
| "push_recorded (BufferToImageCopy x) c = c\<lparr>bufferToImageCopies := bufferToImageCopies c @ [x]\<rparr>"
| "push_recorded (ImageToBufferCopy x) c = c\<lparr>imageToBufferCopies := imageToBufferCopies c @ [x]\<rparr>"
| "push_recorded (AccelerationStructureBuild x) c =
    c\<lparr>accelerationStructureBuildsKHR := accelerationStructureBuildsKHR c @ [x]\<rparr>"
| "push_recorded (ComputeDispatch x) c = c\<lparr>computeDispatches := computeDispatches c @ [x]\<rparr>"

definition record_command :: "ptr \<Rightarrow> CommandBufferState \<Rightarrow> (u64 \<Rightarrow> recorded) \<Rightarrow> vk \<Rightarrow> vk" where
  "record_command command c recordedAs s =
    put_command command
      (push_recorded (recordedAs (nextCommandSequence c)) (c\<lparr>nextCommandSequence := nextCommandSequence c + 1\<rparr>)) s"

definition recording_command :: "vk \<Rightarrow> ptr \<Rightarrow> CommandBufferState option" where
  "recording_command s command =
    (case commandBuffers s command of None \<Rightarrow> None | Some c \<Rightarrow> if recording c then Some c else None)"

definition vkCmdCopyBuffer :: "ptr \<Rightarrow> ptr \<Rightarrow> ptr \<Rightarrow> VkBufferCopy list option \<Rightarrow> vk \<Rightarrow> vk" where
  "vkCmdCopyBuffer command source destination regions s =
    (case regions of
       None \<Rightarrow> s
     | Some rs \<Rightarrow>
       if rs = [] then s
       else (case (recording_command s command, map_of (buffers s) source, map_of (buffers s) destination) of
         (Some c, Some a, Some b) \<Rightarrow>
           if buf_device a \<noteq> cmd_device c \<or> buf_device b \<noteq> cmd_device c then s
           else if \<exists>r \<in> set rs. copySize r = 0 \<or> outside (srcOffset r) (copySize r) (buf_size a)
               \<or> outside (dstOffset r) (copySize r) (buf_size b)
           then s
           else record_command command c (\<lambda>n. BufferCopy
             \<lparr>bc_sequence = n, bc_source = source, bc_destination = destination, bc_regions = rs\<rparr>) s
       | _ \<Rightarrow> s))"

text \<open>The second interface gets structures with the same members.\<close>

definition vkCmdCopyBuffer2 :: "ptr \<Rightarrow> (ptr \<times> ptr \<times> VkBufferCopy list option) option \<Rightarrow> vk \<Rightarrow> vk" where
  "vkCmdCopyBuffer2 command copyInfo s =
    (case copyInfo of
       Some (source, destination, Some rs) \<Rightarrow>
         if rs = [] then s else vkCmdCopyBuffer command source destination (Some rs) s
     | _ \<Rightarrow> s)"

definition vkCmdUpdateBuffer :: "ptr \<Rightarrow> ptr \<Rightarrow> u64 \<Rightarrow> bytes option \<Rightarrow> vk \<Rightarrow> vk" where
  "vkCmdUpdateBuffer command destination destinationOffset data s =
    (case data of
       None \<Rightarrow> s
     | Some bs \<Rightarrow>
       if bs = [] \<or> length bs > 65536 \<or> destinationOffset mod 4 \<noteq> 0 \<or> length bs mod 4 \<noteq> 0 then s
       else (case (recording_command s command, map_of (buffers s) destination) of
         (Some c, Some b) \<Rightarrow>
           if buf_device b \<noteq> cmd_device c \<or> outside destinationOffset (word_of_nat (length bs)) (buf_size b) then s
           else record_command command c (\<lambda>n. BufferUpdate
             \<lparr>bu_sequence = n, bu_destination = destination, bu_offset = destinationOffset, bu_data = bs\<rparr>) s
       | _ \<Rightarrow> s))"

definition vkCmdFillBuffer :: "ptr \<Rightarrow> ptr \<Rightarrow> u64 \<Rightarrow> u64 \<Rightarrow> u32 \<Rightarrow> vk \<Rightarrow> vk" where
  "vkCmdFillBuffer command destination destinationOffset sz data s =
    (case (recording_command s command, map_of (buffers s) destination) of
       (Some c, Some b) \<Rightarrow>
         if buf_device b \<noteq> cmd_device c \<or> destinationOffset \<ge> buf_size b \<or> destinationOffset mod 4 \<noteq> 0 then s
         else (let fillSize = (if sz = VK_WHOLE_SIZE then buf_size b - destinationOffset else sz)
           in if fillSize = 0 \<or> fillSize > buf_size b - destinationOffset \<or> fillSize mod 4 \<noteq> 0 then s
              else record_command command c (\<lambda>n. BufferFill
                \<lparr>bf_sequence = n, bf_destination = destination, bf_offset = destinationOffset, bf_size = fillSize,
                 bf_data = data\<rparr>) s)
     | _ \<Rightarrow> s)"

text \<open>The parts that are left of the levels or layers when the count says "all".\<close>

definition clamped_rest :: "u32 \<Rightarrow> u32 \<Rightarrow> u32 \<Rightarrow> u32" where
  "clamped_rest n base limit = (if n = UINT32_MAX then limit - min base limit else n)"

definition clear_range_ok :: "ImageState \<Rightarrow> VkImageSubresourceRange \<Rightarrow> bool" where
  "clear_range_ok x r \<longleftrightarrow>
    (let levels = clamped_rest (levelCount r) (baseMipLevel r) (img_mipLevels x);
         layers = clamped_rest (rng_layerCount r) (rng_baseArrayLayer r) (img_arrayLayers x)
     in rng_aspectMask r = VK_IMAGE_ASPECT_COLOR_BIT \<and> levels \<noteq> 0 \<and> layers \<noteq> 0
       \<and> baseMipLevel r < img_mipLevels x \<and> levels \<le> img_mipLevels x - baseMipLevel r
       \<and> rng_baseArrayLayer r < img_arrayLayers x \<and> layers \<le> img_arrayLayers x - rng_baseArrayLayer r)"

definition vkCmdClearColorImage :: "ptr \<Rightarrow> ptr \<Rightarrow> u32 list option \<Rightarrow> VkImageSubresourceRange list option \<Rightarrow> vk \<Rightarrow> vk" where
  "vkCmdClearColorImage command img color ranges s =
    (case (color, ranges) of
       (Some col, Some rs) \<Rightarrow>
         if rs = [] then s
         else (case (recording_command s command, images s img) of
           (Some c, Some x) \<Rightarrow>
             if img_device x \<noteq> cmd_device c \<or> img_samples x \<noteq> VK_SAMPLE_COUNT_1_BIT
               \<or> formatAspectMask (img_format x) AND VK_IMAGE_ASPECT_COLOR_BIT = 0
             then s
             else if \<exists>r \<in> set rs. \<not> clear_range_ok x r then s
             else record_command command c (\<lambda>n. ImageClear
               \<lparr>cl_sequence = n, cl_image = img, cl_color = col, cl_ranges = rs\<rparr>) s
         | _ \<Rightarrow> s)
     | _ \<Rightarrow> s)"

definition nonNegative :: "VkOffset3D \<Rightarrow> bool" where
  "nonNegative off \<longleftrightarrow> \<not> sint (offX off) < 0 \<and> \<not> sint (offY off) < 0 \<and> \<not> sint (offZ off) < 0"

definition fitsLevel :: "VkOffset3D \<Rightarrow> VkExtent3D \<Rightarrow> VkExtent3D \<Rightarrow> bool" where
  "fitsLevel off ext level \<longleftrightarrow>
    \<not> offX off > extWidth level \<and> \<not> extWidth ext > extWidth level - offX off
    \<and> \<not> offY off > extHeight level \<and> \<not> extHeight ext > extHeight level - offY off
    \<and> \<not> offZ off > extDepth level \<and> \<not> extDepth ext > extDepth level - offZ off"

definition onBlock :: "FormatBlockInfo \<Rightarrow> VkOffset3D \<Rightarrow> bool" where
  "onBlock block off \<longleftrightarrow> offX off mod blkWidth block = 0 \<and> offY off mod blkHeight block = 0 \<and> offZ off mod blkDepth block = 0"

definition layersOk :: "ImageState \<Rightarrow> VkImageSubresourceLayers \<Rightarrow> bool" where
  "layersOk x l \<longleftrightarrow> lay_aspectMask l = formatAspectMask (img_format x) \<and> lay_mipLevel l < img_mipLevels x
     \<and> baseArrayLayer l < img_arrayLayers x \<and> layerCount l \<le> img_arrayLayers x - baseArrayLayer l"

definition image_region_ok :: "ImageState \<Rightarrow> ImageState \<Rightarrow> VkImageCopy \<Rightarrow> bool" where
  "image_region_ok a b r \<longleftrightarrow>
    (let block = formatBlockInfo (img_format a) in
     layersOk a (srcSubresource r) \<and> layersOk b (dstSubresource r)
     \<and> layerCount (srcSubresource r) \<noteq> 0 \<and> layerCount (srcSubresource r) = layerCount (dstSubresource r)
     \<and> nonNegative (icSrcOffset r) \<and> nonNegative (icDstOffset r)
     \<and> extWidth (icExtent r) \<noteq> 0 \<and> extHeight (icExtent r) \<noteq> 0 \<and> extDepth (icExtent r) \<noteq> 0
     \<and> fitsLevel (icSrcOffset r) (icExtent r) (levelExtent (img_extent a) (unat (lay_mipLevel (srcSubresource r))))
     \<and> fitsLevel (icDstOffset r) (icExtent r) (levelExtent (img_extent b) (unat (lay_mipLevel (dstSubresource r))))
     \<and> onBlock block (icSrcOffset r) \<and> onBlock block (icDstOffset r))"

definition vkCmdCopyImage :: "ptr \<Rightarrow> ptr \<Rightarrow> ptr \<Rightarrow> VkImageCopy list option \<Rightarrow> vk \<Rightarrow> vk" where
  "vkCmdCopyImage command source destination regions s =
    (case regions of
       None \<Rightarrow> s
     | Some rs \<Rightarrow>
       if rs = [] then s
       else (case (recording_command s command, images s source, images s destination) of
         (Some c, Some a, Some b) \<Rightarrow>
           if img_device a \<noteq> cmd_device c \<or> img_device b \<noteq> cmd_device c \<or> img_samples a \<noteq> img_samples b
             \<or> formatBlockInfo (img_format a) \<noteq> formatBlockInfo (img_format b)
             \<or> blkBytes (formatBlockInfo (img_format a)) = 0
           then s
           else if \<exists>r \<in> set rs. \<not> image_region_ok a b r then s
           else record_command command c (\<lambda>n. ImageCopy
             \<lparr>ic_sequence = n, ic_source = source, ic_destination = destination, ic_regions = rs\<rparr>) s
       | _ \<Rightarrow> s))"

definition vkCmdCopyImage2 :: "ptr \<Rightarrow> (ptr \<times> ptr \<times> VkImageCopy list option) option \<Rightarrow> vk \<Rightarrow> vk" where
  "vkCmdCopyImage2 command copyInfo s =
    (case copyInfo of
       Some (source, destination, Some rs) \<Rightarrow>
         if rs = [] then s else vkCmdCopyImage command source destination (Some rs) s
     | _ \<Rightarrow> s)"

text \<open>An image whose bytes can be reached: bound to memory or sparse.\<close>

definition hasBytes :: "ImageState \<Rightarrow> bool" where
  "hasBytes x \<longleftrightarrow> \<not> (img_memory x = 0 \<and> img_flags x AND VK_IMAGE_CREATE_SPARSE_BINDING_BIT = 0)
     \<and> img_samples x = VK_SAMPLE_COUNT_1_BIT"

definition vkCmdCopyBufferToImage :: "ptr \<Rightarrow> ptr \<Rightarrow> ptr \<Rightarrow> VkBufferImageCopy list option \<Rightarrow> vk \<Rightarrow> vk" where
  "vkCmdCopyBufferToImage command source destination regions s =
    (case regions of
       None \<Rightarrow> s
     | Some rs \<Rightarrow>
       if rs = [] then s
       else (case (recording_command s command, map_of (buffers s) source, images s destination) of
         (Some c, Some b, Some x) \<Rightarrow>
           if buf_device b \<noteq> cmd_device c \<or> img_device x \<noteq> cmd_device c \<or> buf_memory b = 0 \<or> \<not> hasBytes x then s
           else record_command command c (\<lambda>n. BufferToImageCopy
             \<lparr>bi_sequence = n, bi_source = source, bi_destination = destination, bi_regions = rs\<rparr>) s
       | _ \<Rightarrow> s))"

definition vkCmdCopyImageToBuffer :: "ptr \<Rightarrow> ptr \<Rightarrow> ptr \<Rightarrow> VkBufferImageCopy list option \<Rightarrow> vk \<Rightarrow> vk" where
  "vkCmdCopyImageToBuffer command source destination regions s =
    (case regions of
       None \<Rightarrow> s
     | Some rs \<Rightarrow>
       if rs = [] then s
       else (case (recording_command s command, images s source, map_of (buffers s) destination) of
         (Some c, Some x, Some b) \<Rightarrow>
           if img_device x \<noteq> cmd_device c \<or> buf_device b \<noteq> cmd_device c \<or> buf_memory b = 0 \<or> \<not> hasBytes x then s
           else record_command command c (\<lambda>n. ImageToBufferCopy
             \<lparr>ib_sequence = n, ib_source = source, ib_destination = destination, ib_regions = rs\<rparr>) s
       | _ \<Rightarrow> s))"

definition vkCmdCopyImageToBuffer2 :: "ptr \<Rightarrow> (ptr \<times> ptr \<times> VkBufferImageCopy list option) option \<Rightarrow> vk \<Rightarrow> vk" where
  "vkCmdCopyImageToBuffer2 command copyInfo s =
    (case copyInfo of
       Some (source, destination, Some rs) \<Rightarrow>
         if rs = [] then s else vkCmdCopyImageToBuffer command source destination (Some rs) s
     | _ \<Rightarrow> s)"

end
