(* ===== verification/VkCommandProps.thy ===== *)
theory VkCommandProps
  imports VkCommand
begin

text \<open>
  What the command buffers promise: their lists stay well formed under every call, and executing a buffer performs
  the recorded commands in the order of the calls that recorded them, although the code keeps them in nine lists.
\<close>

section \<open>The recorded commands as one list\<close>

definition recorded_list :: "CommandBufferState \<Rightarrow> recorded list" where
  "recorded_list c = sort_key sequence_of (all_recorded c)"

lemma queues_push:
  "\<exists>i < 9. queues (push_recorded r c) = (queues c)[i := queues c ! i @ [r]]"
proof (cases r)
  case (BufferCopy x) then show ?thesis by (intro exI [of _ 0]) (simp add: queues_def)
next
  case (BufferUpdate x) then show ?thesis by (intro exI [of _ 1]) (simp add: queues_def)
next
  case (BufferFill x) then show ?thesis by (intro exI [of _ 2]) (simp add: queues_def)
next
  case (ImageClear x) then show ?thesis by (intro exI [of _ 3]) (simp add: queues_def)
next
  case (ImageCopy x) then show ?thesis by (intro exI [of _ 4]) (simp add: queues_def)
next
  case (BufferToImageCopy x) then show ?thesis by (intro exI [of _ 5]) (simp add: queues_def)
next
  case (ImageToBufferCopy x) then show ?thesis by (intro exI [of _ 6]) (simp add: queues_def)
next
  case (AccelerationStructureBuild x) then show ?thesis by (intro exI [of _ 7]) (simp add: queues_def)
next
  case (ComputeDispatch x) then show ?thesis by (intro exI [of _ 8]) (simp add: queues_def)
qed

lemma length_queues [simp]: "length (queues c) = 9"
  by (simp add: queues_def)

lemma mset_concat_update:
  "i < length qs \<Longrightarrow> mset (concat (qs[i := qs ! i @ [r]])) = add_mset r (mset (concat qs))"
  by (induction qs arbitrary: i) (auto split: nat.split)

lemma mset_push: "mset (all_recorded (push_recorded r c)) = add_mset r (mset (all_recorded c))"
  using queues_push [of r c] by (auto simp: all_recorded_def mset_concat_update)

lemma push_fields [simp]:
  "nextCommandSequence (push_recorded r c) = nextCommandSequence c" "recording (push_recorded r c) = recording c"
  "executable (push_recorded r c) = executable c" "cmd_pool (push_recorded r c) = cmd_pool c"
  "cmd_device (push_recorded r c) = cmd_device c"
  by (cases r; simp)+

lemma next_simps [simp]: "queues (c\<lparr>nextCommandSequence := n\<rparr>) = queues c" "all_recorded (c\<lparr>nextCommandSequence := n\<rparr>) = all_recorded c"
  by (simp_all add: queues_def all_recorded_def)

lemma flags_simps [simp]:
  "queues (c\<lparr>recording := b\<rparr>) = queues c" "all_recorded (c\<lparr>recording := b\<rparr>) = all_recorded c"
  "queues (c\<lparr>recording := b, executable := e\<rparr>) = queues c" "all_recorded (c\<lparr>recording := b, executable := e\<rparr>) = all_recorded c"
  by (simp_all add: queues_def all_recorded_def)

lemma all_recorded_push: "set (all_recorded (push_recorded r c)) = insert r (set (all_recorded c))"
  by (metis mset_push set_mset_mset set_mset_add_mset_insert)

lemma unat_u64_suc: "n \<noteq> UINT64_MAX \<Longrightarrow> unat (n + (1 :: u64)) = Suc (unat n)"
  using unatSuc [of n] by (simp add: add.commute eq_neg_iff_add_eq_0)

lemma u64_suc_less: "n \<noteq> UINT64_MAX \<Longrightarrow> m < n \<Longrightarrow> m < n + (1 :: u64)"
  by (simp add: word_less_nat_alt unat_u64_suc)

lemma u64_less_suc: "n \<noteq> UINT64_MAX \<Longrightarrow> n < n + (1 :: u64)"
  by (simp add: word_less_nat_alt unat_u64_suc)

definition pushed :: "recorded \<Rightarrow> CommandBufferState \<Rightarrow> CommandBufferState" where
  "pushed r c = push_recorded r (c\<lparr>nextCommandSequence := nextCommandSequence c + 1\<rparr>)"

lemma commands_ok_pushed:
  assumes ok: "commands_ok c" and n: "nextCommandSequence c \<noteq> UINT64_MAX" and r: "sequence_of r = nextCommandSequence c"
  shows "commands_ok (pushed r c)"
proof -
  let ?c = "c\<lparr>nextCommandSequence := nextCommandSequence c + 1\<rparr>"
  have below: "x \<in> set (all_recorded c) \<Longrightarrow> sequence_of x < sequence_of r" for x
    using ok r by (auto simp: commands_ok_def)
  obtain i where i: "i < 9" "queues (push_recorded r ?c) = (queues c)[i := queues c ! i @ [r]]"
    using queues_push [of r ?c] by auto
  have sorted: "sorted_wrt (<) (map sequence_of q)" if "q \<in> set (queues (push_recorded r ?c))" for q
  proof -
    have "q \<in> set (queues c) \<or> q = queues c ! i @ [r]" using that i(2) set_update_subset_insert by fastforce
    moreover have mem: "queues c ! i \<in> set (queues c)" using i(1) by simp
    moreover have "\<forall>x \<in> set (queues c ! i). sequence_of x < sequence_of r"
      using below mem by (auto simp: set_all_recorded)
    ultimately show ?thesis using ok by (auto simp: commands_ok_def sorted_wrt_append)
  qed
  have "mset (map sequence_of (all_recorded (push_recorded r ?c)))
      = mset (sequence_of r # map sequence_of (all_recorded c))"
    by (simp add: mset_push)
  moreover have "distinct (sequence_of r # map sequence_of (all_recorded c))"
    using ok below by (fastforce simp: commands_ok_def)
  ultimately have distinct: "distinct (map sequence_of (all_recorded (push_recorded r ?c)))"
    by (metis mset_eq_imp_distinct_iff)
  have "sequence_of x < nextCommandSequence c + 1" if "x \<in> set (all_recorded (push_recorded r ?c))" for x
    using that ok n r u64_suc_less u64_less_suc by (auto simp: all_recorded_push commands_ok_def)
  then show ?thesis using sorted distinct by (simp add: pushed_def commands_ok_def)
qed

lemma recorded_list_pushed:
  assumes ok: "commands_ok c" and r: "sequence_of r = nextCommandSequence c"
  shows "recorded_list (pushed r c) = recorded_list c @ [r]"
proof -
  have below: "x \<in> set (all_recorded c) \<Longrightarrow> sequence_of x < sequence_of r" for x
    using ok r by (auto simp: commands_ok_def)
  show ?thesis unfolding recorded_list_def pushed_def
  proof (rule sort_key_inj_key_eq)
    show "inj_on sequence_of (set (all_recorded (push_recorded r (c\<lparr>nextCommandSequence := nextCommandSequence c + 1\<rparr>))))"
      using ok below unfolding all_recorded_push next_simps
      by (fastforce simp: commands_ok_def distinct_map)
  qed (use below in \<open>auto simp: mset_push sorted_append intro: less_imp_le\<close>)
qed

lemma execute_recorded_list:
  "commands_ok c \<Longrightarrow> executeRecordedCommands M c dirtyImages s = perform_in_order M (recorded_list c) dirtyImages s"
  unfolding recorded_list_def by (rule execute_in_sequence_order)

section \<open>Recording calls\<close>

datatype record_call =
    CopyBufferCall ptr ptr "VkBufferCopy list option"
  | CopyBuffer2Call "(ptr \<times> ptr \<times> VkBufferCopy list option) option"
  | UpdateBufferCall ptr u64 "bytes option"
  | FillBufferCall ptr u64 u64 u32
  | ClearColorImageCall ptr "u32 list option" "VkImageSubresourceRange list option"
  | CopyImageCall ptr ptr "VkImageCopy list option"
  | CopyImage2Call "(ptr \<times> ptr \<times> VkImageCopy list option) option"
  | CopyBufferToImageCall ptr ptr "VkBufferImageCopy list option"
  | CopyImageToBufferCall ptr ptr "VkBufferImageCopy list option"
  | CopyImageToBuffer2Call "(ptr \<times> ptr \<times> VkBufferImageCopy list option) option"

primrec apply_record :: "ptr \<Rightarrow> record_call \<Rightarrow> vk \<Rightarrow> vk" where
  "apply_record p (CopyBufferCall a b rs) = vkCmdCopyBuffer p a b rs"
| "apply_record p (CopyBuffer2Call i) = vkCmdCopyBuffer2 p i"
| "apply_record p (UpdateBufferCall b offset data) = vkCmdUpdateBuffer p b offset data"
| "apply_record p (FillBufferCall b offset sz data) = vkCmdFillBuffer p b offset sz data"
| "apply_record p (ClearColorImageCall x color rs) = vkCmdClearColorImage p x color rs"
| "apply_record p (CopyImageCall a b rs) = vkCmdCopyImage p a b rs"
| "apply_record p (CopyImage2Call i) = vkCmdCopyImage2 p i"
| "apply_record p (CopyBufferToImageCall a b rs) = vkCmdCopyBufferToImage p a b rs"
| "apply_record p (CopyImageToBufferCall a b rs) = vkCmdCopyImageToBuffer p a b rs"
| "apply_record p (CopyImageToBuffer2Call i) = vkCmdCopyImageToBuffer2 p i"

text \<open>The command holds the arguments of the call, whatever its number.\<close>

fun describes :: "record_call \<Rightarrow> recorded \<Rightarrow> bool" where
  "describes (CopyBufferCall a b rs) (BufferCopy x) \<longleftrightarrow> bc_source x = a \<and> bc_destination x = b \<and> rs = Some (bc_regions x)"
| "describes (CopyBuffer2Call i) (BufferCopy x) \<longleftrightarrow> i = Some (bc_source x, bc_destination x, Some (bc_regions x))"
| "describes (UpdateBufferCall b offset data) (BufferUpdate x) \<longleftrightarrow>
    bu_destination x = b \<and> bu_offset x = offset \<and> data = Some (bu_data x)"
| "describes (FillBufferCall b offset sz data) (BufferFill x) \<longleftrightarrow>
    bf_destination x = b \<and> bf_offset x = offset \<and> (sz = VK_WHOLE_SIZE \<or> bf_size x = sz) \<and> bf_data x = data"
| "describes (ClearColorImageCall p color rs) (ImageClear x) \<longleftrightarrow>
    cl_image x = p \<and> color = Some (cl_color x) \<and> rs = Some (cl_ranges x)"
| "describes (CopyImageCall a b rs) (ImageCopy x) \<longleftrightarrow> ic_source x = a \<and> ic_destination x = b \<and> rs = Some (ic_regions x)"
| "describes (CopyImage2Call i) (ImageCopy x) \<longleftrightarrow> i = Some (ic_source x, ic_destination x, Some (ic_regions x))"
| "describes (CopyBufferToImageCall a b rs) (BufferToImageCopy x) \<longleftrightarrow>
    bi_source x = a \<and> bi_destination x = b \<and> rs = Some (bi_regions x)"
| "describes (CopyImageToBufferCall a b rs) (ImageToBufferCopy x) \<longleftrightarrow>
    ib_source x = a \<and> ib_destination x = b \<and> rs = Some (ib_regions x)"
| "describes (CopyImageToBuffer2Call i) (ImageToBufferCopy x) \<longleftrightarrow> i = Some (ib_source x, ib_destination x, Some (ib_regions x))"
| "describes _ _ \<longleftrightarrow> False"

definition recorded_from :: "ptr \<Rightarrow> record_call \<Rightarrow> vk \<Rightarrow> vk \<Rightarrow> bool" where
  "recorded_from p call s s' \<longleftrightarrow> s' = s \<or>
    (\<exists>c r. commandBuffers s p = Some c \<and> recording c \<and> sequence_of r = nextCommandSequence c \<and> describes call r
      \<and> s' = put_command p (pushed r c) s)"

lemma recording_commandD: "recording_command s p = Some c \<Longrightarrow> commandBuffers s p = Some c \<and> recording c"
  by (auto simp: recording_command_def split: option.splits if_splits)

lemma record_command_pushed: "record_command p c recordedAs s = put_command p (pushed (recordedAs (nextCommandSequence c)) c) s"
  by (simp add: record_command_def pushed_def)

lemma recorded_fromI:
  assumes "recording_command s p = Some c" "sequence_of (recordedAs (nextCommandSequence c)) = nextCommandSequence c"
    and "describes call (recordedAs (nextCommandSequence c))"
  shows "recorded_from p call s (record_command p c recordedAs s)"
  using assms recording_commandD unfolding recorded_from_def record_command_pushed by blast

lemma recorded_from_same [simp]: "recorded_from p call s s"
  by (simp add: recorded_from_def)

lemma apply_record_from: "recorded_from p call s (apply_record p call s)"
proof (cases call)
  case (CopyBufferCall a b rs)
  then show ?thesis by (auto simp: vkCmdCopyBuffer_def split: option.split intro: recorded_fromI)
next
  case (CopyBuffer2Call i)
  then show ?thesis by (auto simp: vkCmdCopyBuffer2_def vkCmdCopyBuffer_def split: option.split intro: recorded_fromI)
next
  case (UpdateBufferCall b offset data)
  then show ?thesis by (auto simp: vkCmdUpdateBuffer_def split: option.split intro: recorded_fromI)
next
  case (FillBufferCall b offset sz data)
  then show ?thesis by (auto simp: vkCmdFillBuffer_def Let_def split: option.split intro: recorded_fromI)
next
  case (ClearColorImageCall x color rs)
  then show ?thesis by (auto simp: vkCmdClearColorImage_def split: option.split intro: recorded_fromI)
next
  case (CopyImageCall a b rs)
  then show ?thesis by (auto simp: vkCmdCopyImage_def split: option.split intro: recorded_fromI)
next
  case (CopyImage2Call i)
  then show ?thesis by (auto simp: vkCmdCopyImage2_def vkCmdCopyImage_def split: option.split intro: recorded_fromI)
next
  case (CopyBufferToImageCall a b rs)
  then show ?thesis by (auto simp: vkCmdCopyBufferToImage_def split: option.split intro: recorded_fromI)
next
  case (CopyImageToBufferCall a b rs)
  then show ?thesis by (auto simp: vkCmdCopyImageToBuffer_def split: option.split intro: recorded_fromI)
next
  case (CopyImageToBuffer2Call i)
  then show ?thesis
    by (auto simp: vkCmdCopyImageToBuffer2_def vkCmdCopyImageToBuffer_def split: option.split intro: recorded_fromI)
qed

text \<open>Recording changes nothing a later call looks at, so whether a call is accepted is decided before the first one.\<close>

definition same_view :: "ptr \<Rightarrow> vk \<Rightarrow> vk \<Rightarrow> bool" where
  "same_view p s s' \<longleftrightarrow> buffers s' = buffers s \<and> images s' = images s
    \<and> (\<exists>c c'. commandBuffers s p = Some c \<and> commandBuffers s' p = Some c' \<and> recording c' = recording c
        \<and> cmd_device c' = cmd_device c)"

definition accepts :: "vk \<Rightarrow> ptr \<Rightarrow> record_call \<Rightarrow> bool" where
  "accepts s p call \<longleftrightarrow> apply_record p call s \<noteq> s"

lemma pushed_next [simp]: "nextCommandSequence (pushed r c) = nextCommandSequence c + 1" "recording (pushed r c) = recording c"
  "cmd_device (pushed r c) = cmd_device c"
  by (simp_all add: pushed_def)

lemma record_command_changes: "recording_command s p = Some c \<Longrightarrow> record_command p c recordedAs s \<noteq> s"
proof
  assume c: "recording_command s p = Some c" and same: "record_command p c recordedAs s = s"
  have "commandBuffers (record_command p c recordedAs s) p = Some (pushed (recordedAs (nextCommandSequence c)) c)"
    by (simp add: record_command_pushed put_command_def)
  then have "pushed (recordedAs (nextCommandSequence c)) c = c" using recording_commandD [OF c] same by simp
  then have "nextCommandSequence c + 1 = nextCommandSequence c" by (metis pushed_next(1))
  then show False by simp
qed

lemmas recording_calls = vkCmdCopyBuffer_def vkCmdCopyBuffer2_def vkCmdUpdateBuffer_def vkCmdFillBuffer_def
  vkCmdClearColorImage_def vkCmdCopyImage_def vkCmdCopyImage2_def vkCmdCopyBufferToImage_def vkCmdCopyImageToBuffer_def
  vkCmdCopyImageToBuffer2_def

lemma same_view_recording:
  "same_view p s s' \<Longrightarrow> recording_command s p = None \<and> recording_command s' p = None
    \<or> (\<exists>c c'. recording_command s p = Some c \<and> recording_command s' p = Some c' \<and> cmd_device c' = cmd_device c)"
  by (auto simp: same_view_def recording_command_def)

lemma same_view_accepts:
  assumes "same_view p s s'"
  shows "accepts s' p call = accepts s p call"
proof -
  have same: "buffers s' = buffers s" "images s' = images s" using assms by (simp_all add: same_view_def)
  show ?thesis
    using same_view_recording [OF assms]
  proof (elim disjE exE conjE)
    assume none: "recording_command s p = None" "recording_command s' p = None"
    then show ?thesis unfolding accepts_def
      by (cases call) (simp_all add: recording_calls same none split: option.split)
  next
    fix c c'
    assume some: "recording_command s p = Some c" "recording_command s' p = Some c'" "cmd_device c' = cmd_device c"
    note changes = record_command_changes [OF some(1)] record_command_changes [OF some(2)]
    show ?thesis unfolding accepts_def
      by (cases call) (simp_all add: recording_calls same some changes Let_def split: option.split)
  qed
qed

lemma same_view_pushed:
  assumes "same_view p s0 s" "commandBuffers s p = Some c"
  shows "same_view p s0 (put_command p (pushed r c) s)"
  using assms by (auto simp: same_view_def put_command_def)

text \<open>After a number of calls: the commands so far, and the calls they stem from.\<close>

lemma record_calls:
  assumes "commandBuffers s p = Some c" "commands_ok c" "unat (nextCommandSequence c) + length calls < 2 ^ 64"
    and "same_view p s0 s"
  shows "\<exists>c' new. commandBuffers (fold (apply_record p) calls s) p = Some c' \<and> commands_ok c'
    \<and> recorded_list c' = recorded_list c @ new \<and> list_all2 describes (filter (accepts s0 p) calls) new"
  using assms
proof (induction calls arbitrary: s c)
  case Nil
  then show ?case by (auto intro: exI [of _ c])
next
  case (Cons call calls)
  have view: "accepts s0 p call \<longleftrightarrow> apply_record p call s \<noteq> s"
    using same_view_accepts [OF Cons.prems(4), of call] by (simp add: accepts_def)
  show ?case
  proof (cases "apply_record p call s = s")
    case True
    then show ?thesis using Cons.IH [of s c] Cons.prems view by auto
  next
    case False
    then obtain r where r: "sequence_of r = nextCommandSequence c" "describes call r"
        "apply_record p call s = put_command p (pushed r c) s"
      using apply_record_from [of p call s] Cons.prems(1) by (auto simp: recorded_from_def)
    have n: "nextCommandSequence c \<noteq> UINT64_MAX" using Cons.prems(3) by (auto simp: unat_UINT64_MAX)
    let ?c = "pushed r c"
    have "unat (nextCommandSequence ?c) = Suc (unat (nextCommandSequence c))" using n by (simp add: unat_u64_suc)
    then obtain c' new where c': "commandBuffers (fold (apply_record p) (call # calls) s) p = Some c'" "commands_ok c'"
      "recorded_list c' = recorded_list ?c @ new" "list_all2 describes (filter (accepts s0 p) calls) new"
      using Cons.IH [of "put_command p ?c s" ?c] Cons.prems r commands_ok_pushed [OF Cons.prems(2) n r(1)]
        same_view_pushed [OF Cons.prems(4) Cons.prems(1)]
      by (auto simp: put_command_def)
    moreover have "recorded_list ?c @ new = recorded_list c @ (r # new)"
      using recorded_list_pushed [OF Cons.prems(2) r(1)] by simp
    ultimately show ?thesis using r(2) view False by (intro exI [of _ c'] exI [of _ "r # new"]) simp
  qed
qed

lemma commands_ok_empty:
  assumes "all_recorded c = []"
  shows "commands_ok c"
proof -
  have "q = []" if "q \<in> set (queues c)" for q
    using that assms by (simp add: all_recorded_def)
  then have "sorted_wrt (<) (map sequence_of q)" if "q \<in> set (queues c)" for q using that by fastforce
  then show ?thesis using assms by (auto simp: commands_ok_def)
qed

lemma cleared [simp]: "all_recorded (clear_command c) = []" "all_recorded (new_command d p) = []"
  by (simp_all add: all_recorded_def queues_def clear_command_def new_command_def)

lemma cleared_graphics [simp]:
  "queues (clear_graphics c) = queues c" "all_recorded (clear_graphics c) = all_recorded c"
  "cmd_pool (clear_graphics c) = cmd_pool c" "cmd_device (clear_graphics c) = cmd_device c"
  "recording (clear_graphics c) = recording c" "executable (clear_graphics c) = executable c"
  "nextCommandSequence (clear_graphics c) = nextCommandSequence c" "commands_ok (clear_graphics c) = commands_ok c"
  by (simp_all add: clear_graphics_def all_recorded_def queues_def commands_ok_def)

text \<open>C16: After a command buffer was begun, any calls that record transfers leave it such that executing it performs
  one command for each call that the buffer accepts, with the arguments of the call and in the order of the calls: the nine
  lists of the code behave like one list. A call is accepted or not whatever was recorded before it.\<close>

lemma executes_in_recording_order:
  assumes "vkBeginCommandBuffer p True s = (VK_SUCCESS, s1)" "length calls < 2 ^ 64 - 1"
  shows "\<exists>c commands. commandBuffers (fold (apply_record p) calls s1) p = Some c
    \<and> list_all2 describes (filter (accepts s1 p) calls) commands
    \<and> (\<forall>M dirtyImages t. executeRecordedCommands M c dirtyImages t = perform_in_order M commands dirtyImages t)"
proof -
  obtain c0 where c0: "commandBuffers s1 p = Some c0" "all_recorded c0 = []" "nextCommandSequence c0 = 1"
    using assms(1) by (auto simp: vkBeginCommandBuffer_def put_command_def clear_command_def clear_graphics_def
      all_recorded_def queues_def split: if_splits option.splits)
  have "recorded_list c0 = []" "same_view p s1 s1" using c0 by (simp_all add: recorded_list_def same_view_def)
  then obtain c new where "commandBuffers (fold (apply_record p) calls s1) p = Some c" "commands_ok c"
    "recorded_list c = new" "list_all2 describes (filter (accepts s1 p) calls) new"
    using record_calls [of s1 p c0 calls s1] c0 commands_ok_empty [OF c0(2)] assms(2) by auto
  then show ?thesis using execute_recorded_list by metis
qed

section \<open>Well-formed command buffers\<close>

datatype command_call = CreatePool ptr "u32 option" bool | DestroyPool ptr | ResetPool ptr
  | AllocateBuffers ptr "VkCommandBufferAllocateInfo option" bool | FreeBuffers ptr "ptr list option"
  | Begin ptr bool | End ptr | Reset ptr | Record ptr record_call

primrec command_step :: "command_call \<Rightarrow> vk \<Rightarrow> vk" where
  "command_step (CreatePool device family out) s = snd (vkCreateCommandPool device family out s)"
| "command_step (DestroyPool pool) s = vkDestroyCommandPool pool s"
| "command_step (ResetPool pool) s = snd (vkResetCommandPool pool s)"
| "command_step (AllocateBuffers device info out) s = snd (vkAllocateCommandBuffers device info out s)"
| "command_step (FreeBuffers pool ps) s = vkFreeCommandBuffers pool ps s"
| "command_step (Begin p info) s = snd (vkBeginCommandBuffer p info s)"
| "command_step (End p) s = snd (vkEndCommandBuffer p s)"
| "command_step (Reset p) s = snd (vkResetCommandBuffer p s)"
| "command_step (Record p call) s = apply_record p call s"

text \<open>A command buffer of a pool: well formed, its pool exists and has its device, it does not record and execute at
  once, and it holds commands only in one of these states. \<open>k\<close> bounds the numbers in use.\<close>

definition command_ok :: "nat \<Rightarrow> vk \<Rightarrow> CommandBufferState \<Rightarrow> bool" where
  "command_ok k s c \<longleftrightarrow> commands_ok c \<and> unat (nextCommandSequence c) \<le> k \<and> \<not> (recording c \<and> executable c)
    \<and> (recording c \<or> executable c \<or> all_recorded c = []) \<and> commandPools s (cmd_pool c) = Some (cmd_device c)"

definition command_buffers_ok :: "nat \<Rightarrow> vk \<Rightarrow> bool" where
  "command_buffers_ok k s \<longleftrightarrow> (\<forall>p c. commandBuffers s p = Some c \<longrightarrow> command_ok k s c)"

lemma command_ok_mono: "command_ok k s c \<Longrightarrow> k \<le> k' \<Longrightarrow> commandPools s' = commandPools s \<Longrightarrow> command_ok k' s' c"
  by (auto simp: command_ok_def)

lemma command_buffers_okD: "command_buffers_ok k s \<Longrightarrow> commandBuffers s p = Some c \<Longrightarrow> command_ok k s c"
  by (simp add: command_buffers_ok_def)

lemma command_buffers_ok_mono: "command_buffers_ok k s \<Longrightarrow> k \<le> k' \<Longrightarrow> command_buffers_ok k' s"
  using command_ok_mono by (fastforce simp: command_buffers_ok_def)

lemma command_buffers_ok_put:
  assumes "command_buffers_ok k s" "command_ok k s c"
  shows "command_buffers_ok k (put_command p c s)"
  using assms command_ok_mono by (fastforce simp: command_buffers_ok_def put_command_def)

lemma clear_fields [simp]: "cmd_pool (clear_command c) = cmd_pool c" "cmd_device (clear_command c) = cmd_device c"
  "recording (clear_command c) = recording c" "executable (clear_command c) = False" "nextCommandSequence (clear_command c) = 1"
  by (simp_all add: clear_command_def)

lemma commands_ok_recording [simp]: "commands_ok (c\<lparr>recording := b\<rparr>) = commands_ok c"
  "commands_ok (c\<lparr>recording := b, executable := e\<rparr>) = commands_ok c"
  by (simp_all add: commands_ok_def)

lemma command_ok_cleared:
  "command_ok k s c \<Longrightarrow> 0 < k \<Longrightarrow> command_ok k s ((clear_command c)\<lparr>recording := b\<rparr>)"
  "command_ok k s c \<Longrightarrow> 0 < k \<Longrightarrow> command_ok k s ((clear_graphics (clear_command c))\<lparr>recording := b\<rparr>)"
  by (simp_all add: command_ok_def commands_ok_empty)

lemma new_state_same:
  "new_state s = (r, s1) \<Longrightarrow> commandBuffers s1 = commandBuffers s \<and> commandPools s1 = commandPools s"
  by (auto simp: new_state_def split: list.splits option.splits if_splits)

lemma new_state_fresh: "new_state s = (Some p, s1) \<Longrightarrow> \<not> live s p \<and> p \<noteq> 0"
  by (auto simp: new_state_def split: list.splits option.splits if_splits)

lemma command_buffers_ok_same:
  "command_buffers_ok k s \<Longrightarrow> commandBuffers s1 = commandBuffers s \<Longrightarrow> commandPools s1 = commandPools s \<Longrightarrow> command_buffers_ok k s1"
  using command_ok_mono by (fastforce simp: command_buffers_ok_def)

lemma command_ok_new: "0 < k \<Longrightarrow> commandPools s pool = Some device \<Longrightarrow> command_ok k s (new_command device pool)"
  by (simp add: command_ok_def commands_ok_empty) (simp add: new_command_def)

lemma allocate_commands_ok:
  assumes "command_buffers_ok k s" "0 < k" "commandPools s pool = Some device"
  shows "command_buffers_ok k (snd (allocate_commands device pool n made s))"
  using assms
proof (induction n arbitrary: made s)
  case (Suc n)
  show ?case
  proof (cases "new_state s")
    case (Pair r s1)
    note same = new_state_same [OF Pair]
    have ok: "command_buffers_ok k s1" using command_buffers_ok_same [OF Suc.prems(1)] same by simp
    show ?thesis
    proof (cases r)
      case None
      then show ?thesis using Pair ok by simp
    next
      case (Some p)
      have "command_buffers_ok k (put_command p (new_command device pool) s1)"
        using ok Suc.prems(2,3) same by (intro command_buffers_ok_put command_ok_new) simp_all
      then show ?thesis using Pair Some Suc.IH Suc.prems(2,3) same by (simp add: put_command_def)
    qed
  qed
qed simp

lemma free_commands_ok: "command_buffers_ok k s \<Longrightarrow> command_buffers_ok k (fold (free_command pool) ps s)"
proof (induction ps arbitrary: s)
  case (Cons p ps)
  have "command_buffers_ok k (free_command pool p s)"
    using Cons.prems command_ok_mono by (fastforce simp: free_command_def command_buffers_ok_def split: option.split)
  then show ?case using Cons.IH by simp
qed simp

lemma create_pool_ok: "command_buffers_ok k s \<Longrightarrow> command_buffers_ok k (snd (vkCreateCommandPool device family out s))"
proof (cases "new_state s")
  case (Pair r s1)
  assume ok: "command_buffers_ok k s"
  note same = new_state_same [OF Pair]
  have ok1: "command_buffers_ok k s1" using command_buffers_ok_same [OF ok] same by simp
  have "command_buffers_ok k (s1\<lparr>commandPools := (commandPools s1)(p \<mapsto> device)\<rparr>)" if "r = Some p" for p
  proof -
    have "commandPools s p = None" using new_state_fresh Pair that by (auto simp: live_def)
    then show ?thesis using ok1 same by (auto simp: command_buffers_ok_def command_ok_def)
  qed
  then show ?thesis using ok ok1 Pair by (auto simp: vkCreateCommandPool_def split: option.split)
qed

lemma destroy_pool_ok: "command_buffers_ok k s \<Longrightarrow> command_buffers_ok k (vkDestroyCommandPool pool s)"
  by (auto simp: vkDestroyCommandPool_def destroyCommandBuffersForPool_def command_buffers_ok_def command_ok_def
    split: option.splits if_splits)

lemma reset_pool_ok: "command_buffers_ok k s \<Longrightarrow> 0 < k \<Longrightarrow> command_buffers_ok k (snd (vkResetCommandPool pool s))"
  by (auto simp: vkResetCommandPool_def command_buffers_ok_def command_ok_def commands_ok_empty split: option.splits if_splits)

lemma record_ok:
  assumes "command_buffers_ok k s" "k < 2 ^ 64 - 1"
  shows "command_buffers_ok (Suc k) (apply_record p call s)"
proof (cases "apply_record p call s = s")
  case True
  then show ?thesis using command_buffers_ok_mono [OF assms(1)] by simp
next
  case False
  then obtain c r where c: "commandBuffers s p = Some c" "recording c" "sequence_of r = nextCommandSequence c"
      "apply_record p call s = put_command p (pushed r c) s"
    using apply_record_from [of p call s] by (auto simp: recorded_from_def)
  have ok: "command_ok k s c" using command_buffers_okD [OF assms(1) c(1)] .
  then have n: "nextCommandSequence c \<noteq> UINT64_MAX" using assms(2) by (auto simp: command_ok_def unat_UINT64_MAX)
  have "command_ok (Suc k) s (pushed r c)"
    using ok commands_ok_pushed [OF _ n c(3)] c(2) n by (auto simp: command_ok_def unat_u64_suc pushed_def)
  then show ?thesis
    using command_buffers_ok_put [OF command_buffers_ok_mono [OF assms(1)]] c(4) by simp
qed

lemma command_step_ok:
  assumes ok: "command_buffers_ok k s" and k: "0 < k" "k < 2 ^ 64 - 1"
  shows "command_buffers_ok (Suc k) (command_step call s)"
proof -
  have up: "command_buffers_ok k s' \<Longrightarrow> command_buffers_ok (Suc k) s'" for s' by (erule command_buffers_ok_mono) simp
  have put: "command_ok k s c \<Longrightarrow> command_buffers_ok (Suc k) (put_command p c s)" for p c
    using up [OF command_buffers_ok_put [OF ok]] .
  note okD = command_buffers_okD [OF ok]
  show ?thesis
  proof (cases call)
    case (CreatePool device family out)
    then show ?thesis using create_pool_ok [OF ok] up by simp
  next
    case (DestroyPool pool)
    then show ?thesis using destroy_pool_ok [OF ok] up by simp
  next
    case (ResetPool pool)
    then show ?thesis using reset_pool_ok [OF ok k(1)] up by simp
  next
    case (AllocateBuffers device info out)
    then show ?thesis using allocate_commands_ok [OF ok k(1)] ok up
      by (auto simp: vkAllocateCommandBuffers_def split: option.split)
  next
    case (FreeBuffers pool ps)
    then show ?thesis using free_commands_ok [OF ok] ok up by (auto simp: vkFreeCommandBuffers_def split: option.split)
  next
    case (Begin p info)
    then show ?thesis using ok okD up command_ok_cleared [OF _ k(1)]
      by (auto simp: vkBeginCommandBuffer_def split: option.split intro!: put)
  next
    case (End p)
    have "command_ok k s (c\<lparr>recording := False, executable := True\<rparr>)" if "commandBuffers s p = Some c" for c
      using okD [OF that] by (simp add: command_ok_def)
    then show ?thesis using End ok up by (auto simp: vkEndCommandBuffer_def split: option.split intro!: put)
  next
    case (Reset p)
    then show ?thesis using ok okD up command_ok_cleared [OF _ k(1)]
      by (auto simp: vkResetCommandBuffer_def split: option.split intro!: put)
  next
    case (Record p c)
    then show ?thesis using record_ok [OF ok k(2)] by simp
  qed
qed

text \<open>C18: Through any sequence of calls on pools and command buffers that starts without a command buffer and is
  shorter than the counter, every command buffer is well formed: its lists are sorted by numbers that are used once and are
  below the next number, it is not recording and executable at once, holds commands only when it is one of the two, and
  belongs to a pool of its device that exists.\<close>

lemma command_buffers_typed:
  assumes "commandBuffers s = Map.empty" "length calls < 2 ^ 64 - 2"
  shows "command_buffers_ok (Suc (length calls)) (fold command_step calls s)"
  using assms
proof (induction calls rule: rev_induct)
  case Nil
  then show ?case by (simp add: command_buffers_ok_def)
next
  case (snoc call calls)
  then have "command_buffers_ok (Suc (length calls)) (fold command_step calls s)" by simp
  then show ?case using command_step_ok [of "Suc (length calls)"] snoc.prems by simp
qed

text \<open>A driver with one device and two buffers of 16 bytes; the allocator gives two addresses.\<close>

definition sample_buffer :: "u64 \<Rightarrow> BufferState" where
  "sample_buffer address = \<lparr>buf_device = 1, buf_size = 16, buf_usage = 0, buf_flags = 0, buf_memory = 0, buf_memoryOffset = 0,
     deviceAddress = address, buf_sparseBindings = []\<rparr>"

definition sample_vk :: vk where
  "sample_vk = (vk_init (cuda_init [] Map.empty) [] [Some 2, Some 7] None)
     \<lparr>devices := [(1, [])], buffers := [(3, sample_buffer 4096), (4, sample_buffer 8192)]\<rparr>"

definition sample_setup :: "command_call list" where
  "sample_setup = [CreatePool 1 (Some 0) True,
     AllocateBuffers 1 (Some \<lparr>cai_commandPool = 2, cai_level = 0, cai_count = 1\<rparr>) True, Begin 7 True]"

definition sample_calls :: "record_call list" where
  "sample_calls = [FillBufferCall 3 0 16 5, CopyBufferCall 3 4 None,
     CopyBufferCall 3 4 (Some [\<lparr>srcOffset = 0, dstOffset = 8, copySize = 8\<rparr>]), FillBufferCall 4 4 VK_WHOLE_SIZE 6]"

lemma sample_state:
  "fold command_step sample_setup sample_vk
    = sample_vk\<lparr>allocAnswers := [], commandPools := [2 \<mapsto> 1], commandBuffers := [7 \<mapsto> (new_command 1 2)\<lparr>recording := True\<rparr>]\<rparr>"
  by (simp add: sample_setup_def sample_vk_def vk_init_def vkCreateCommandPool_def validVkDevice_def map_contains_def
    new_state_def live_def sample_buffer_def vkAllocateCommandBuffers_def put_command_def vkBeginCommandBuffer_def
    new_command_def clear_command_def clear_graphics_def)

lemma command_buffers_typed_witness:
  "command_buffers_ok (Suc (length (sample_setup @ map (Record 7) sample_calls)))
      (fold command_step (sample_setup @ map (Record 7) sample_calls) sample_vk)
    \<and> commandBuffers (fold command_step sample_setup sample_vk) 7 = Some ((new_command 1 2)\<lparr>recording := True\<rparr>)"
proof (intro conjI)
  have "commandBuffers sample_vk = Map.empty" by (simp add: sample_vk_def vk_init_def)
  then show "command_buffers_ok (Suc (length (sample_setup @ map (Record 7) sample_calls)))
      (fold command_step (sample_setup @ map (Record 7) sample_calls) sample_vk)"
    by (rule command_buffers_typed) (simp add: sample_setup_def sample_calls_def)
  show "commandBuffers (fold command_step sample_setup sample_vk) 7 = Some ((new_command 1 2)\<lparr>recording := True\<rparr>)"
    by (simp add: sample_state)
qed

text \<open>The second call has no regions and is not accepted, the other three are.\<close>

definition sample_before :: vk where
  "sample_before = sample_vk\<lparr>allocAnswers := [], commandPools := [2 \<mapsto> 1], commandBuffers := [7 \<mapsto> new_command 1 2]\<rparr>"

definition sample_begun :: vk where
  "sample_begun = sample_before\<lparr>commandBuffers := [7 \<mapsto> (new_command 1 2)\<lparr>recording := True\<rparr>]\<rparr>"

lemma sample_begin: "vkBeginCommandBuffer 7 True sample_before = (VK_SUCCESS, sample_begun)"
  by (simp add: vkBeginCommandBuffer_def sample_before_def sample_begun_def sample_vk_def put_command_def new_command_def
    clear_command_def clear_graphics_def)

lemma sample_accepts: "map (accepts sample_begun 7) sample_calls = [True, False, True, True]"
proof -
  have r: "recording_command sample_begun 7 = Some ((new_command 1 2)\<lparr>recording := True\<rparr>)"
    by (simp add: sample_begun_def recording_command_def)
  have b: "buffers sample_begun = [(3, sample_buffer 4096), (4, sample_buffer 8192)]"
    by (simp add: sample_begun_def sample_before_def sample_vk_def)
  note changes = record_command_changes [OF r]
  show ?thesis
    by (simp add: sample_calls_def accepts_def recording_calls r b changes sample_buffer_def new_command_def outside_def
      Let_def changes [unfolded new_command_def, simplified])
qed

lemma executes_in_recording_order_witness:
  "map (accepts sample_begun 7) sample_calls = [True, False, True, True]
    \<and> (\<exists>c commands. commandBuffers (fold (apply_record 7) sample_calls sample_begun) 7 = Some c \<and> length commands = 3
      \<and> (\<forall>M dirtyImages t. executeRecordedCommands M c dirtyImages t = perform_in_order M commands dirtyImages t))"
proof -
  have "length sample_calls < 2 ^ 64 - 1" by (simp add: sample_calls_def)
  from executes_in_recording_order [OF sample_begin this] obtain c commands where
    c: "commandBuffers (fold (apply_record 7) sample_calls sample_begun) 7 = Some c"
    "list_all2 describes (filter (accepts sample_begun 7) sample_calls) commands"
    "\<forall>M dirtyImages t. executeRecordedCommands M c dirtyImages t = perform_in_order M commands dirtyImages t" by blast
  have "length (filter (accepts sample_begun 7) sample_calls) = length (filter id (map (accepts sample_begun 7) sample_calls))"
    by (simp add: filter_map comp_def)
  then have "length commands = 3" using c(2) sample_accepts by (auto dest: list_all2_lengthD)
  then show ?thesis using c sample_accepts by blast
qed

end
