(* ===== verification/VkSparse.thy ===== *)
theory VkSparse
  imports VkImageCopy
begin

text \<open>
  Binding memory to sparse buffers and images: \<^verbatim>\<open>replaceSparseBufferBindingLocked\<close>,
  \<^verbatim>\<open>replaceSparseImageBindingLocked\<close>, \<^verbatim>\<open>replaceSparseImageOpaqueBindingLocked\<close> and
  \<^verbatim>\<open>imb_vkQueueBindSparse\<close>. A null array with a count is \<open>None\<close>.
\<close>

section \<open>The bindings of a buffer\<close>

record VkSparseMemoryBind =
  mb_resourceOffset :: u64
  mb_size :: u64
  mb_memory :: ptr
  mb_memoryOffset :: u64
  mb_flags :: u32

definition new_binding :: "VkSparseMemoryBind \<Rightarrow> SparseBufferBinding list" where
  "new_binding bind =
    (if mb_memory bind = 0 then []
     else [\<lparr>resourceOffset = mb_resourceOffset bind, bindingSize = mb_size bind, bindingMemory = mb_memory bind,
       bindingMemoryOffset = mb_memoryOffset bind, bindingFlags = mb_flags bind\<rparr>])"

text \<open>What is left of an existing binding outside the range \<open>first\<close> to \<open>behind\<close>.\<close>

definition split_binding :: "u64 \<Rightarrow> u64 \<Rightarrow> SparseBufferBinding \<Rightarrow> SparseBufferBinding list" where
  "split_binding first behind b =
    (let bEnd = resourceOffset b + bindingSize b in
     if bEnd \<le> first \<or> resourceOffset b \<ge> behind then [b]
     else (if resourceOffset b < first then [b\<lparr>bindingSize := first - resourceOffset b\<rparr>] else [])
       @ (if bEnd > behind
          then [b\<lparr>resourceOffset := behind, bindingSize := bEnd - behind,
                  bindingMemoryOffset := bindingMemoryOffset b + (behind - resourceOffset b)\<rparr>]
          else []))"

definition replaced_bindings :: "VkSparseMemoryBind \<Rightarrow> SparseBufferBinding list \<Rightarrow> SparseBufferBinding list" where
  "replaced_bindings bind bs =
    sort_key resourceOffset
      (concat (map (split_binding (mb_resourceOffset bind) (mb_resourceOffset bind + mb_size bind)) bs) @ new_binding bind)"

definition replaceSparseBufferBinding :: "ptr \<Rightarrow> VkSparseMemoryBind \<Rightarrow> vk \<Rightarrow> vk" where
  "replaceSparseBufferBinding buffer bind s =
    (case map_of (buffers s) buffer of
       None \<Rightarrow> undefined_vk s
     | Some b \<Rightarrow> put_buffer buffer (b\<lparr>buf_sparseBindings := replaced_bindings bind (buf_sparseBindings b)\<rparr>) s)"

section \<open>The bindings of an image\<close>

record VkSparseImageMemoryBind =
  im_subresource :: VkImageSubresource
  im_offset :: VkOffset3D
  im_extent :: VkExtent3D
  im_memory :: ptr
  im_memoryOffset :: u64
  im_flags :: u32

definition replaceSparseImageBinding :: "ptr \<Rightarrow> VkSparseImageMemoryBind \<Rightarrow> vk \<Rightarrow> vk" where
  "replaceSparseImageBinding img bind =
    change_image img (\<lambda>x. x\<lparr>img_sparseBindings :=
      filter (\<lambda>b. \<not> (ib_subresource b = im_subresource bind \<and> ib_offset b = im_offset bind \<and> ib_extent b = im_extent bind))
        (img_sparseBindings x)
      @ (if im_memory bind = 0 then []
         else [\<lparr>ib_subresource = im_subresource bind, ib_offset = im_offset bind, ib_extent = im_extent bind,
           ib_memory = im_memory bind, ib_memoryOffset = im_memoryOffset bind, ib_flags = im_flags bind\<rparr>])\<rparr>)"

definition replaceSparseImageOpaqueBinding :: "ptr \<Rightarrow> VkSparseMemoryBind \<Rightarrow> vk \<Rightarrow> vk" where
  "replaceSparseImageOpaqueBinding img bind =
    change_image img (\<lambda>x. x\<lparr>sparseOpaqueBindings :=
      filter (\<lambda>b. \<not> (resourceOffset b = mb_resourceOffset bind \<and> bindingSize b = mb_size bind)) (sparseOpaqueBindings x)
      @ new_binding bind\<rparr>)"

section \<open>The checks before anything changes\<close>

record VkBindSparseInfo =
  bs_waits :: "ptr list option"
  bs_bufferBinds :: "(ptr \<times> VkSparseMemoryBind list option) list option"
  bs_imageOpaqueBinds :: "(ptr \<times> VkSparseMemoryBind list option) list option"
  bs_imageBinds :: "(ptr \<times> VkSparseImageMemoryBind list option) list option"
  bs_signals :: "ptr list option"

abbreviation (input) VK_SPARSE_MEMORY_BIND_METADATA_BIT :: u32 where "VK_SPARSE_MEMORY_BIND_METADATA_BIT \<equiv> 1"
abbreviation (input) VK_BUFFER_CREATE_SPARSE_BINDING_BIT :: u32 where "VK_BUFFER_CREATE_SPARSE_BINDING_BIT \<equiv> 1"

definition wait_ok :: "vk \<Rightarrow> ptr \<Rightarrow> ptr \<Rightarrow> bool" where
  "wait_ok s device p = (case semaphores s p of None \<Rightarrow> False
     | Some x \<Rightarrow> sem_device x = device \<and> (timeline x \<or> sem_signaled x))"

definition signal_ok :: "vk \<Rightarrow> ptr \<Rightarrow> ptr \<Rightarrow> bool" where
  "signal_ok s device p = (case semaphores s p of None \<Rightarrow> False | Some x \<Rightarrow> sem_device x = device)"

definition bind_memory_ok :: "vk \<Rightarrow> ptr \<Rightarrow> ptr \<Rightarrow> u64 \<Rightarrow> u64 \<Rightarrow> bool" where
  "bind_memory_ok s device memory offset sz \<longleftrightarrow> memory = 0
    \<or> (case memories s memory of None \<Rightarrow> False | Some m \<Rightarrow> mem_device m = device \<and> \<not> outside offset sz (mem_size m))"

definition buffer_bind_ok :: "vk \<Rightarrow> ptr \<Rightarrow> BufferState \<Rightarrow> VkSparseMemoryBind \<Rightarrow> bool" where
  "buffer_bind_ok s device b bind \<longleftrightarrow> mb_size bind \<noteq> 0 \<and> \<not> outside (mb_resourceOffset bind) (mb_size bind) (buf_size b)
    \<and> mb_resourceOffset bind mod 65536 = 0 \<and> mb_memoryOffset bind mod 65536 = 0
    \<and> mb_flags bind AND NOT VK_SPARSE_MEMORY_BIND_METADATA_BIT = 0
    \<and> bind_memory_ok s device (mb_memory bind) (mb_memoryOffset bind) (mb_size bind)"

definition opaque_bind_ok :: "vk \<Rightarrow> ptr \<Rightarrow> ImageState \<Rightarrow> VkSparseMemoryBind \<Rightarrow> bool" where
  "opaque_bind_ok s device x bind \<longleftrightarrow> mb_size bind \<noteq> 0 \<and> \<not> outside (mb_resourceOffset bind) (mb_size bind) (img_size x)
    \<and> mb_resourceOffset bind mod sparseTileBytes x = 0 \<and> mb_size bind mod sparseTileBytes x = 0
    \<and> mb_memoryOffset bind mod sparseTileBytes x = 0 \<and> mb_flags bind = 0
    \<and> bind_memory_ok s device (mb_memory bind) (mb_memoryOffset bind) (mb_size bind)"

text \<open>The tiles that cover an extent in one direction, in 32 bits.\<close>

definition tiles :: "u32 \<Rightarrow> u32 \<Rightarrow> u32" where
  "tiles extent granularity = (extent + granularity - 1) div granularity"

definition insideLevel :: "u32 \<Rightarrow> u32 \<Rightarrow> u32 \<Rightarrow> u32 \<Rightarrow> bool" where
  "insideLevel first len limit granularity \<longleftrightarrow> \<not> sint first < 0 \<and> len \<noteq> 0 \<and> \<not> first > limit \<and> \<not> len > limit - first
    \<and> first mod granularity = 0"

definition image_bind_ok :: "vk \<Rightarrow> ptr \<Rightarrow> ImageState \<Rightarrow> VkSparseImageMemoryBind \<Rightarrow> bool" where
  "image_bind_ok s device x bind \<longleftrightarrow>
    sub_mipLevel (im_subresource bind) < img_mipLevels x \<and> sub_arrayLayer (im_subresource bind) < img_arrayLayers x
    \<and> (let mip = levelExtent (img_extent x) (unat (sub_mipLevel (im_subresource bind)));
           g = sparseGranularity x; off = im_offset bind; ext = im_extent bind;
           tileCount = ucast (tiles (extWidth ext) (extWidth g)) * ucast (tiles (extHeight ext) (extHeight g))
             * ucast (tiles (extDepth ext) (extDepth g));
           requiredBytes = clampedMultiply tileCount (sparseTileBytes x)
       in sub_aspectMask (im_subresource bind) = formatAspectMask (img_format x)
         \<and> insideLevel (offX off) (extWidth ext) (extWidth mip) (extWidth g)
         \<and> insideLevel (offY off) (extHeight ext) (extHeight mip) (extHeight g)
         \<and> insideLevel (offZ off) (extDepth ext) (extDepth mip) (extDepth g)
         \<and> im_memoryOffset bind mod sparseTileBytes x = 0 \<and> im_flags bind = 0
         \<and> bind_memory_ok s device (im_memory bind) (im_memoryOffset bind) requiredBytes)"

definition sparse_image :: "ptr \<Rightarrow> ImageState \<Rightarrow> bool" where
  "sparse_image device x \<longleftrightarrow> img_device x = device \<and> img_flags x AND VK_IMAGE_CREATE_SPARSE_BINDING_BIT \<noteq> 0
    \<and> img_flags x AND VK_IMAGE_CREATE_SPARSE_RESIDENCY_BIT \<noteq> 0 \<and> sparseTileBytes x \<noteq> 0"

definition binds_ok :: "('x \<Rightarrow> bool) \<Rightarrow> ('x \<Rightarrow> 'b \<Rightarrow> bool) \<Rightarrow> (ptr \<Rightarrow> 'x option) \<Rightarrow> ptr \<times> 'b list option \<Rightarrow> bool" where
  "binds_ok kind ok find_object info =
    (case (find_object (fst info), snd info) of (Some x, Some bs) \<Rightarrow> kind x \<and> list_all (ok x) bs | _ \<Rightarrow> False)"

definition bind_info_ok :: "vk \<Rightarrow> ptr \<Rightarrow> VkBindSparseInfo \<Rightarrow> bool" where
  "bind_info_ok s device info \<longleftrightarrow>
    (case (bs_waits info, bs_bufferBinds info, bs_imageOpaqueBinds info, bs_imageBinds info, bs_signals info) of
       (Some waits, Some bufferBinds, Some opaqueBinds, Some imageBinds, Some signals) \<Rightarrow>
         list_all (wait_ok s device) waits \<and> list_all (signal_ok s device) signals
         \<and> list_all (binds_ok (\<lambda>b. buf_device b = device \<and> buf_flags b AND VK_BUFFER_CREATE_SPARSE_BINDING_BIT \<noteq> 0)
             (buffer_bind_ok s device) (map_of (buffers s))) bufferBinds
         \<and> list_all (binds_ok (sparse_image device) (opaque_bind_ok s device) (images s)) opaqueBinds
         \<and> list_all (binds_ok (sparse_image device) (image_bind_ok s device) (images s)) imageBinds
     | _ \<Rightarrow> False)"

section \<open>Binding\<close>

text \<open>A loop of calls that may throw; it returns at the first result that is not a success.\<close>

fun for_prog :: "('a \<Rightarrow> (vk, VkResult) prog) \<Rightarrow> 'a list \<Rightarrow> (vk, VkResult) prog" where
  "for_prog body [] s = (Inr VK_SUCCESS, s)"
| "for_prog body (x # xs) s =
    (case body x s of
       (Inl e, s1) \<Rightarrow> (Inl e, s1)
     | (Inr r, s1) \<Rightarrow> if r \<noteq> VK_SUCCESS then (Inr r, s1) else for_prog body xs s1)"

definition doing :: "(vk \<Rightarrow> vk) \<Rightarrow> (vk, VkResult) prog" where
  "doing f s = (Inr VK_SUCCESS, f s)"

definition set_signaled :: "bool \<Rightarrow> ptr \<Rightarrow> vk \<Rightarrow> vk" where
  "set_signaled value p s =
    (case semaphores s p of
       None \<Rightarrow> undefined_vk s
     | Some x \<Rightarrow> if timeline x then s else put_semaphore p (x\<lparr>sem_signaled := value\<rparr>) s)"

abbreviation (input) binds_of :: "'b list option \<Rightarrow> 'b list" where
  "binds_of bs \<equiv> (case bs of None \<Rightarrow> [] | Some xs \<Rightarrow> xs)"

definition bind_buffer :: "ptr \<times> VkSparseMemoryBind list option \<Rightarrow> (vk, VkResult) prog" where
  "bind_buffer info = for_prog (\<lambda>bind. doing (replaceSparseBufferBinding (fst info) bind)) (binds_of (snd info))"

text \<open>A request to the host to map tiles of an image or to take them away.\<close>

definition map_tiles :: "ptr \<Rightarrow> bool \<Rightarrow> u32 \<Rightarrow> u32 \<Rightarrow> u32 \<times> u32 \<times> u32 \<Rightarrow> u32 \<times> u32 \<times> u32 \<Rightarrow> (vk, VkResult) prog" where
  "map_tiles img do_map mip layer tile counts s =
    (case images s img of
       None \<Rightarrow> (Inr VK_SUCCESS, undefined_vk s)
     | Some x \<Rightarrow>
       (case (tile, counts) of ((tileX, tileY, tileZ), (tileWidth, tileHeight, tileDepth)) \<Rightarrow>
          andThen (via_bridge (bridge_updateSparseImageMapping (img_resourceID x) do_map mip layer tileX tileY tileZ
            tileWidth tileHeight tileDepth)) (\<lambda>_. ret VK_SUCCESS) s))"

definition map_tail_level :: "ptr \<Rightarrow> ImageState \<Rightarrow> bool \<Rightarrow> u32 \<times> u32 \<Rightarrow> (vk, VkResult) prog" where
  "map_tail_level img x do_map layerMip =
    (let mipExtent = levelExtent (img_extent x) (unat (snd layerMip)); g = metalSparseGranularity x
     in map_tiles img do_map (snd layerMip) (fst layerMip) (0, 0, 0)
          (max 1 (tiles (extWidth mipExtent) (extWidth g)), max 1 (tiles (extHeight mipExtent) (extHeight g)),
           max 1 (tiles (extDepth mipExtent) (extDepth g))))"

definition image_requirements :: "ImageState \<Rightarrow> VkSparseImageMemoryRequirements" where
  "image_requirements x = sparseImageRequirements (img_format x) (img_type x) (img_extent x) (img_mipLevels x) (img_arrayLayers x)"

text \<open>The levels of the mip tails that a range of the resource touches, with their layers.\<close>

definition touched_tails :: "ImageState \<Rightarrow> VkSparseMemoryBind \<Rightarrow> (u32 \<times> u32) list" where
  "touched_tails x bind =
    (let req = image_requirements x; bindEnd = mb_resourceOffset bind + mb_size bind
     in concat (map (\<lambda>layer.
       let tailStart = imageMipTailOffset req + imageMipTailStride req * word_of_nat layer;
           tailEnd = tailStart + imageMipTailSize req
       in if mb_resourceOffset bind < tailEnd \<and> bindEnd > tailStart
          then map (\<lambda>mip. (word_of_nat layer, word_of_nat mip)) [unat (imageMipTailFirstLod req)..<unat (img_mipLevels x)]
          else []) [0..<unat (img_arrayLayers x)]))"

definition opaque_bind :: "ptr \<Rightarrow> VkSparseMemoryBind \<Rightarrow> (vk, VkResult) prog" where
  "opaque_bind img bind s =
    (case images s img of
       None \<Rightarrow> (Inr VK_SUCCESS, undefined_vk s)
     | Some x \<Rightarrow>
       if mb_flags bind AND VK_SPARSE_MEMORY_BIND_METADATA_BIT = 0
         \<and> imageMipTailFirstLod (image_requirements x) < img_mipLevels x
       then andThen (ensureSparseImageBacking img) (\<lambda>r.
         if r \<noteq> VK_SUCCESS then ret r
         else andThen (for_prog (map_tail_level img x (mb_memory bind \<noteq> 0)) (touched_tails x bind)) (\<lambda>_.
           doing (replaceSparseImageOpaqueBinding img bind))) s
       else doing (replaceSparseImageOpaqueBinding img bind) s)"

definition bind_opaque :: "ptr \<times> VkSparseMemoryBind list option \<Rightarrow> (vk, VkResult) prog" where
  "bind_opaque info = for_prog (opaque_bind (fst info)) (binds_of (snd info))"

definition tile_bind :: "ptr \<Rightarrow> VkSparseImageMemoryBind \<Rightarrow> (vk, VkResult) prog" where
  "tile_bind img bind s =
    (case images s img of
       None \<Rightarrow> (Inr VK_SUCCESS, undefined_vk s)
     | Some x \<Rightarrow>
       (let g = metalSparseGranularity x; off = im_offset bind; ext = im_extent bind
        in andThen
          (map_tiles img (im_memory bind \<noteq> 0) (sub_mipLevel (im_subresource bind)) (sub_arrayLayer (im_subresource bind))
            (offX off div extWidth g, offY off div extHeight g, offZ off div extDepth g)
            (tiles (extWidth ext) (extWidth g), tiles (extHeight ext) (extHeight g), tiles (extDepth ext) (extDepth g)))
          (\<lambda>_. doing (replaceSparseImageBinding img bind)) s))"

definition bind_image :: "ptr \<times> VkSparseImageMemoryBind list option \<Rightarrow> (vk, VkResult) prog" where
  "bind_image info =
    andThen (ensureSparseImageBacking (fst info)) (\<lambda>r.
      if r \<noteq> VK_SUCCESS then ret r else for_prog (tile_bind (fst info)) (binds_of (snd info)))"

text \<open>The next part only if the one before was a success.\<close>

definition then_do :: "(vk, VkResult) prog \<Rightarrow> (vk, VkResult) prog \<Rightarrow> (vk, VkResult) prog" where
  "then_do first second = andThen first (\<lambda>r. if r \<noteq> VK_SUCCESS then ret r else second)"

definition bind_info :: "VkBindSparseInfo \<Rightarrow> (vk, VkResult) prog" where
  "bind_info info =
    then_do (for_prog (\<lambda>p. doing (set_signaled False p)) (binds_of (bs_waits info)))
      (then_do (for_prog bind_buffer (binds_of (bs_bufferBinds info)))
        (then_do (for_prog bind_opaque (binds_of (bs_imageOpaqueBinds info)))
          (then_do (for_prog bind_image (binds_of (bs_imageBinds info)))
            (for_prog (\<lambda>p. doing (set_signaled True p)) (binds_of (bs_signals info))))))"

definition usable_fence :: "vk \<Rightarrow> ptr \<Rightarrow> ptr \<Rightarrow> bool" where
  "usable_fence s device fence = (case fences s fence of None \<Rightarrow> False
     | Some x \<Rightarrow> fence_device x = device \<and> \<not> submitted x \<and> \<not> fence_signaled x)"

definition signal_fence :: "ptr \<Rightarrow> vk \<Rightarrow> vk" where
  "signal_fence fence s = (if fence = 0 then s else case fences s fence of
     None \<Rightarrow> undefined_vk s | Some x \<Rightarrow> put_fence fence (x\<lparr>fence_signaled := True\<rparr>) s)"

definition vkQueueBindSparse :: "ptr \<Rightarrow> VkBindSparseInfo list option \<Rightarrow> ptr \<Rightarrow> (vk, VkResult) prog" where
  "vkQueueBindSparse queue bindInfos fence s =
    (case bindInfos of
       None \<Rightarrow> (Inr VK_ERROR_INITIALIZATION_FAILED, s)
     | Some infos \<Rightarrow>
       (let device = deviceForQueue s queue in
        if device = 0 then (Inr VK_ERROR_DEVICE_LOST, s)
        else if fence \<noteq> 0 \<and> \<not> usable_fence s device fence then (Inr VK_ERROR_INITIALIZATION_FAILED, s)
        else if \<not> list_all (bind_info_ok s device) infos then (Inr VK_ERROR_INITIALIZATION_FAILED, s)
        else then_do (catching (for_prog bind_info infos) (ret VK_ERROR_DEVICE_LOST))
          (doing (signal_fence fence)) s))"

end
