(* ===== verification/VkSparseProps.thy ===== *)
theory VkSparseProps
  imports VkSparse
begin

text \<open>
  What the sparse bindings of a buffer promise: they are a table of disjoint ranges that stands for a partial map from the
  bytes of the buffer to bytes of memory, and binding a range updates that map.
\<close>

section \<open>Tables of ranges\<close>

text \<open>A store that maps numbers to values and binds or unbinds whole ranges.\<close>

locale range_store =
  fixes lookup :: "'m \<Rightarrow> u64 \<Rightarrow> 'v option" and rebind :: "'r \<Rightarrow> 'm \<Rightarrow> 'm" and invar :: "'m \<Rightarrow> bool"
    and valid :: "'r \<Rightarrow> bool" and inside :: "'r \<Rightarrow> u64 \<Rightarrow> bool" and target :: "'r \<Rightarrow> u64 \<Rightarrow> 'v option"
  assumes invar_rebind: "invar m \<Longrightarrow> valid r \<Longrightarrow> invar (rebind r m)"
    and lookup_rebind: "invar m \<Longrightarrow> valid r \<Longrightarrow> lookup (rebind r m) a = (if inside r a then target r a else lookup m a)"
begin

lemma invar_fold: "invar m \<Longrightarrow> list_all valid rs \<Longrightarrow> invar (fold rebind rs m)"
  by (induction rs arbitrary: m) (simp_all add: invar_rebind)

lemma lookup_fold:
  "invar m \<Longrightarrow> list_all valid rs \<Longrightarrow>
    lookup (fold rebind rs m) a = (case find (\<lambda>r. inside r a) (rev rs) of Some r \<Rightarrow> target r a | None \<Rightarrow> lookup m a)"
proof (induction rs rule: rev_induct)
  case (snoc r rs)
  then show ?case by (simp add: lookup_rebind invar_fold)
qed simp

end

section \<open>Ranges of bindings\<close>

definition range_of :: "SparseBufferBinding \<Rightarrow> nat set" where
  "range_of b = {unat (resourceOffset b) ..< unat (resourceOffset b) + unat (bindingSize b)}"

text \<open>The byte of memory that a byte of the resource is bound to.\<close>

definition location :: "SparseBufferBinding \<Rightarrow> u64 \<Rightarrow> ptr \<times> u64" where
  "location b a = (bindingMemory b, bindingMemoryOffset b + (a - resourceOffset b))"

definition bound :: "SparseBufferBinding list \<Rightarrow> u64 \<Rightarrow> (ptr \<times> u64) option" where
  "bound bs a = (case find (covers a) bs of None \<Rightarrow> None | Some b \<Rightarrow> Some (location b a))"

abbreviation apart :: "SparseBufferBinding \<Rightarrow> SparseBufferBinding \<Rightarrow> bool" where
  "apart x y \<equiv> range_of x \<inter> range_of y = {}"

definition binding_inside :: "u64 \<Rightarrow> SparseBufferBinding \<Rightarrow> bool" where
  "binding_inside limit b \<longleftrightarrow> bindingSize b \<noteq> 0 \<and> unat (resourceOffset b) + unat (bindingSize b) \<le> unat limit"

definition disjoint_bindings :: "u64 \<Rightarrow> SparseBufferBinding list \<Rightarrow> bool" where
  "disjoint_bindings limit bs \<longleftrightarrow> sorted (map resourceOffset bs) \<and> sorted_wrt apart bs \<and> list_all (binding_inside limit) bs"

lemma covers_range: "covers a b \<longleftrightarrow> unat a \<in> range_of b"
proof (cases "resourceOffset b \<le> a")
  case True
  then have "unat (a - resourceOffset b) = unat a - unat (resourceOffset b)" by (simp add: unat_sub)
  then show ?thesis using True by (auto simp: covers_def range_of_def word_le_nat_alt word_less_nat_alt)
qed (auto simp: covers_def range_of_def word_le_nat_alt)

lemma sorted_wrt_insort:
  assumes "\<And>x y. D x y \<Longrightarrow> D y x"
  shows "sorted_wrt D (insort_key f x xs) \<longleftrightarrow> (\<forall>y \<in> set xs. D x y) \<and> sorted_wrt D xs"
  by (induction xs) (use assms in \<open>auto simp: set_insort_key\<close>)

lemma sorted_wrt_sort_key:
  assumes "\<And>x y. D x y \<Longrightarrow> D y x"
  shows "sorted_wrt D (sort_key f xs) \<longleftrightarrow> sorted_wrt D xs"
  by (induction xs) (simp_all add: sorted_wrt_insort [OF assms])

lemma bound_Some:
  assumes "sorted_wrt apart bs" "b \<in> set bs" "covers a b"
  shows "bound bs a = Some (location b a)"
proof -
  have "find (covers a) bs = Some b"
    using assms by (induction bs) (auto simp: covers_range)
  then show ?thesis by (simp add: bound_def)
qed

lemma bound_None: "(\<And>b. b \<in> set bs \<Longrightarrow> \<not> covers a b) \<Longrightarrow> bound bs a = None"
  by (auto simp: bound_def find_None_iff split: option.split)

section \<open>Splitting\<close>

lemma split_binding_cases:
  assumes b: "binding_inside limit b" and ends: "unat behind = unat first + n"
    and p: "p \<in> set (split_binding first behind b)"
  shows "range_of p \<subseteq> range_of b - {unat first ..< unat behind} \<and> binding_inside limit p
    \<and> (\<forall>a. covers a p \<longrightarrow> location p a = location b a)
    \<and> bindingMemory p = bindingMemory b \<and> (unat (bindingMemoryOffset b) + unat (bindingSize b) < 2 ^ 64 \<longrightarrow>
      unat (bindingMemoryOffset b) \<le> unat (bindingMemoryOffset p)
      \<and> unat (bindingMemoryOffset p) + unat (bindingSize p) \<le> unat (bindingMemoryOffset b) + unat (bindingSize b))"
proof -
  let ?stop = "resourceOffset b + bindingSize b"
  have e: "unat ?stop = unat (resourceOffset b) + unat (bindingSize b)"
    using b u64_unat_less [of limit] by (intro unat_add_lem [THEN iffD1]) (simp add: binding_inside_def)
  consider (same) "?stop \<le> first \<or> resourceOffset b \<ge> behind" "p = b"
    | (left) "resourceOffset b < first" "first < ?stop" "p = b\<lparr>bindingSize := first - resourceOffset b\<rparr>"
    | (right) "behind < ?stop" "resourceOffset b < behind" "p = b\<lparr>resourceOffset := behind, bindingSize := ?stop - behind,
        bindingMemoryOffset := bindingMemoryOffset b + (behind - resourceOffset b)\<rparr>"
    using p by (auto simp: split_binding_def Let_def not_le split: if_splits)
  then show ?thesis
  proof cases
    case same
    then show ?thesis using b e by (auto simp: range_of_def word_le_nat_alt)
  next
    case left
    have "unat (first - resourceOffset b) = unat first - unat (resourceOffset b)"
      using left(1) by (simp add: unat_sub less_imp_le)
    then show ?thesis using left b e ends
      by (auto simp: range_of_def binding_inside_def location_def word_less_nat_alt word_le_nat_alt unat_eq_0 [symmetric])
  next
    case right
    have d: "unat (?stop - behind) = unat ?stop - unat behind" "unat (behind - resourceOffset b) = unat behind - unat (resourceOffset b)"
      using right by (simp_all add: unat_sub less_imp_le)
    have m: "unat (bindingMemoryOffset b + (behind - resourceOffset b))
        = unat (bindingMemoryOffset b) + (unat behind - unat (resourceOffset b))"
      if "unat (bindingMemoryOffset b) + unat (bindingSize b) < 2 ^ 64"
      unfolding d(2) [symmetric]
      by (intro unat_add_lem [THEN iffD1]) (use that right d e in \<open>simp add: word_less_nat_alt\<close>)
    show ?thesis using right b e ends d m
      by (auto simp: range_of_def binding_inside_def location_def word_less_nat_alt word_le_nat_alt algebra_simps unat_eq_0 [symmetric])
  qed
qed

lemma split_binding_covers:
  assumes b: "binding_inside limit b" and ends: "unat behind = unat first + n"
    and a: "covers a b" "unat a < unat first \<or> unat behind \<le> unat a"
  shows "\<exists>p \<in> set (split_binding first behind b). covers a p"
proof -
  let ?stop = "resourceOffset b + bindingSize b"
  have e: "unat ?stop = unat (resourceOffset b) + unat (bindingSize b)"
    using b u64_unat_less [of limit] by (intro unat_add_lem [THEN iffD1]) (simp add: binding_inside_def)
  have r: "unat (resourceOffset b) \<le> unat a" "unat a < unat ?stop" using a(1) e by (auto simp: covers_range range_of_def)
  show ?thesis
  proof (cases "?stop \<le> first \<or> resourceOffset b \<ge> behind")
    case True
    then show ?thesis using a(1) by (simp add: split_binding_def Let_def)
  next
    case False
    have d: "resourceOffset b < first \<Longrightarrow> unat (first - resourceOffset b) = unat first - unat (resourceOffset b)"
      "behind < ?stop \<Longrightarrow> unat (?stop - behind) = unat ?stop - unat behind"
      by (simp_all add: unat_sub less_imp_le)
    show ?thesis using a(2) False r d e
      by (auto simp: split_binding_def Let_def covers_range range_of_def word_less_nat_alt word_le_nat_alt)
  qed
qed

lemma sorted_wrt_split:
  assumes b: "binding_inside limit b" and ends: "unat behind = unat first + n"
  shows "sorted_wrt apart (split_binding first behind b)"
proof -
  have "unat (first - resourceOffset b) = unat first - unat (resourceOffset b)" if "resourceOffset b < first"
    using that by (simp add: unat_sub less_imp_le)
  then show ?thesis using ends by (auto simp: split_binding_def Let_def range_of_def word_less_nat_alt)
qed

lemma sorted_wrt_concat_split:
  assumes "sorted_wrt apart bs" "list_all (binding_inside limit) bs" "unat behind = unat first + n"
  shows "sorted_wrt apart (concat (map (split_binding first behind) bs))"
  using assms(1,2)
proof (induction bs)
  case (Cons b bs)
  have "apart p q" if p: "p \<in> set (split_binding first behind b)" and c: "c \<in> set bs" "q \<in> set (split_binding first behind c)" for p q c
  proof -
    have "range_of p \<subseteq> range_of b" using split_binding_cases [OF _ assms(3) p] Cons.prems(2) by auto
    moreover have "range_of q \<subseteq> range_of c" using split_binding_cases [OF _ assms(3) c(2)] Cons.prems(2) c(1) by (auto simp: list_all_iff)
    moreover have "apart b c" using Cons.prems(1) c(1) by simp
    ultimately show ?thesis by blast
  qed
  then show ?case using Cons sorted_wrt_split [OF _ assms(3)] by (auto simp: sorted_wrt_append)
qed simp

section \<open>Replacing\<close>

definition bind_fits :: "u64 \<Rightarrow> VkSparseMemoryBind \<Rightarrow> bool" where
  "bind_fits limit bind \<longleftrightarrow> mb_size bind \<noteq> 0 \<and> \<not> outside (mb_resourceOffset bind) (mb_size bind) limit"

definition bind_covers :: "VkSparseMemoryBind \<Rightarrow> u64 \<Rightarrow> bool" where
  "bind_covers bind a \<longleftrightarrow> a \<ge> mb_resourceOffset bind \<and> a - mb_resourceOffset bind < mb_size bind"

definition bind_target :: "VkSparseMemoryBind \<Rightarrow> u64 \<Rightarrow> (ptr \<times> u64) option" where
  "bind_target bind a = (if mb_memory bind = 0 then None
     else Some (mb_memory bind, mb_memoryOffset bind + (a - mb_resourceOffset bind)))"

lemma bind_ends:
  assumes "bind_fits limit bind"
  shows "unat (mb_resourceOffset bind + mb_size bind) = unat (mb_resourceOffset bind) + unat (mb_size bind)"
    and "unat (mb_resourceOffset bind) + unat (mb_size bind) \<le> unat limit"
proof -
  show le: "unat (mb_resourceOffset bind) + unat (mb_size bind) \<le> unat limit"
    using assms outside_unat by (auto simp: bind_fits_def)
  then show "unat (mb_resourceOffset bind + mb_size bind) = unat (mb_resourceOffset bind) + unat (mb_size bind)"
    using u64_unat_less [of limit] by (intro unat_add_lem [THEN iffD1]) simp
qed

lemma bind_covers_unat:
  "bind_covers bind a \<longleftrightarrow> unat a \<in> {unat (mb_resourceOffset bind) ..< unat (mb_resourceOffset bind) + unat (mb_size bind)}"
  using covers_range [of a "\<lparr>resourceOffset = mb_resourceOffset bind, bindingSize = mb_size bind, bindingMemory = 0,
    bindingMemoryOffset = 0, bindingFlags = 0\<rparr>"]
  by (simp add: covers_def bind_covers_def range_of_def)

lemma new_binding_cases:
  "b \<in> set (new_binding bind) \<Longrightarrow> mb_memory bind \<noteq> 0
    \<and> range_of b = {unat (mb_resourceOffset bind) ..< unat (mb_resourceOffset bind) + unat (mb_size bind)}
    \<and> Some (location b a) = bind_target bind a"
  by (auto simp: new_binding_def range_of_def location_def bind_target_def split: if_splits)

lemma disjoint_replaced:
  assumes bs: "disjoint_bindings limit bs" and bind: "bind_fits limit bind"
  shows "disjoint_bindings limit (replaced_bindings bind bs)"
proof -
  let ?first = "mb_resourceOffset bind" and ?behind = "mb_resourceOffset bind + mb_size bind"
  let ?pieces = "concat (map (split_binding ?first ?behind) bs)"
  have inside: "list_all (binding_inside limit) bs" and sorted: "sorted_wrt apart bs" using bs by (simp_all add: disjoint_bindings_def)
  note ends = bind_ends(1) [OF bind]
  have pieces: "range_of p \<inter> {unat ?first ..< unat ?behind} = {} \<and> binding_inside limit p" if "p \<in> set ?pieces" for p
    using that split_binding_cases [OF _ ends] inside by (fastforce simp: list_all_iff)
  have new: "binding_inside limit b" if "b \<in> set (new_binding bind)" for b
    using that bind bind_ends [OF bind] by (auto simp: new_binding_def binding_inside_def bind_fits_def split: if_splits)
  have "apart p b" if "p \<in> set ?pieces" "b \<in> set (new_binding bind)" for p b
    using pieces [OF that(1)] new_binding_cases [OF that(2)] ends by simp
  moreover have "sorted_wrt apart (new_binding bind)" by (simp add: new_binding_def)
  ultimately have "sorted_wrt apart (?pieces @ new_binding bind)"
    using sorted_wrt_concat_split [OF sorted inside ends] by (simp add: sorted_wrt_append)
  then have "sorted_wrt apart (replaced_bindings bind bs)"
    unfolding replaced_bindings_def by (subst sorted_wrt_sort_key) blast+
  moreover have "list_all (binding_inside limit) (replaced_bindings bind bs)"
    using pieces new by (auto simp: replaced_bindings_def list_all_iff)
  moreover have "sorted (map resourceOffset (replaced_bindings bind bs))" by (simp add: replaced_bindings_def)
  ultimately show ?thesis by (simp add: disjoint_bindings_def)
qed

lemma set_replaced: "set (replaced_bindings bind bs)
    = (\<Union>b \<in> set bs. set (split_binding (mb_resourceOffset bind) (mb_resourceOffset bind + mb_size bind) b)) \<union> set (new_binding bind)"
  by (simp add: replaced_bindings_def)

lemma bound_replaced:
  assumes bs: "disjoint_bindings limit bs" and bind: "bind_fits limit bind"
  shows "bound (replaced_bindings bind bs) a = (if bind_covers bind a then bind_target bind a else bound bs a)"
proof -
  let ?first = "mb_resourceOffset bind" and ?behind = "mb_resourceOffset bind + mb_size bind"
  note ends = bind_ends(1) [OF bind]
  have inside: "\<And>b. b \<in> set bs \<Longrightarrow> binding_inside limit b" and sorted: "sorted_wrt apart bs"
    using bs by (auto simp: disjoint_bindings_def list_all_iff)
  have rsorted: "sorted_wrt apart (replaced_bindings bind bs)"
    using disjoint_replaced [OF assms] by (simp add: disjoint_bindings_def)
  have pieces: "covers a p \<Longrightarrow> \<not> bind_covers bind a \<and> covers a b \<and> location p a = location b a"
    if "b \<in> set bs" "p \<in> set (split_binding ?first ?behind b)" for b p
    using split_binding_cases [OF inside [OF that(1)] ends that(2)] ends by (auto simp: covers_range bind_covers_unat)
  show ?thesis
  proof (cases "bind_covers bind a")
    case True
    show ?thesis
    proof (cases "mb_memory bind = 0")
      case True
      have "bound (replaced_bindings bind bs) a = None"
        by (rule bound_None) (use pieces \<open>bind_covers bind a\<close> True in \<open>auto simp: set_replaced new_binding_def\<close>)
      then show ?thesis using True \<open>bind_covers bind a\<close> by (simp add: bind_target_def)
    next
      case False
      then obtain b where b: "b \<in> set (new_binding bind)" by (auto simp: new_binding_def)
      have "covers a b" using new_binding_cases [OF b] \<open>bind_covers bind a\<close> by (simp add: covers_range bind_covers_unat)
      then have "bound (replaced_bindings bind bs) a = Some (location b a)" using b by (intro bound_Some [OF rsorted]) (simp_all add: set_replaced)
      then show ?thesis using new_binding_cases [OF b, of a] \<open>bind_covers bind a\<close> by simp
    qed
  next
    case False
    have new: "\<not> covers a b" if "b \<in> set (new_binding bind)" for b
      using new_binding_cases [OF that] False by (simp add: covers_range bind_covers_unat)
    show ?thesis
    proof (cases "\<exists>b \<in> set bs. covers a b")
      case True
      then obtain b where b: "b \<in> set bs" "covers a b" by blast
      have "unat a < unat ?first \<or> unat ?behind \<le> unat a" using False ends by (auto simp: bind_covers_unat)
      then obtain p where p: "p \<in> set (split_binding ?first ?behind b)" "covers a p"
        using split_binding_covers [OF inside [OF b(1)] ends b(2)] by blast
      have "bound (replaced_bindings bind bs) a = Some (location p a)"
        using p b(1) by (intro bound_Some [OF rsorted]) (auto simp: set_replaced)
      then show ?thesis using pieces [OF b(1) p(1) p(2)] False bound_Some [OF sorted b] by simp
    next
      case none: False
      have "bound (replaced_bindings bind bs) a = None"
        by (rule bound_None) (use pieces none new in \<open>auto simp: set_replaced\<close>)
      then show ?thesis using False bound_None [of bs a] none by auto
    qed
  qed
qed

interpretation sparse: range_store bound replaced_bindings "disjoint_bindings limit" "bind_fits limit" bind_covers bind_target
  for limit
  by unfold_locales (simp_all add: disjoint_replaced bound_replaced)

section \<open>Binding through the queue\<close>

definition rebound :: "VkSparseMemoryBind list \<Rightarrow> BufferState \<Rightarrow> BufferState" where
  "rebound binds b = b\<lparr>buf_sparseBindings := fold replaced_bindings binds (buf_sparseBindings b)\<rparr>"

lemma rebound_Nil [simp]: "rebound [] b = b"
  by (simp add: rebound_def)

lemma rebound_append: "rebound (xs @ ys) = rebound ys \<circ> rebound xs"
  by (simp add: rebound_def fun_eq_iff)

lemma option_rebound_Nil [simp]: "map_option (rebound []) x = x"
  by (cases x) simp_all

text \<open>A program that leaves memory alone and binds some of \<open>binds\<close> to the buffer, all of them when it succeeds.\<close>

definition binds_effect :: "ptr \<Rightarrow> (vk, VkResult) prog \<Rightarrow> VkSparseMemoryBind list \<Rightarrow> bool" where
  "binds_effect p prog binds \<longleftrightarrow> (\<forall>s r s'. prog s = (r, s') \<longrightarrow> memories s' = memories s
     \<and> (\<exists>did. set did \<subseteq> set binds \<and> map_of (buffers s') p = map_option (rebound did) (map_of (buffers s) p)
          \<and> (r = Inr VK_SUCCESS \<longrightarrow> did = binds)))"

definition same_buffers :: "(vk, 'a) prog \<Rightarrow> bool" where
  "same_buffers prog \<longleftrightarrow> (\<forall>s. buffers (snd (prog s)) = buffers s \<and> memories (snd (prog s)) = memories s)"

lemma same_buffersD: "same_buffers prog \<Longrightarrow> prog s = (r, s') \<Longrightarrow> buffers s' = buffers s \<and> memories s' = memories s"
  by (metis same_buffers_def snd_conv)

lemma same_buffersI: "(\<And>s r s'. prog s = (r, s') \<Longrightarrow> buffers s' = buffers s \<and> memories s' = memories s) \<Longrightarrow> same_buffers prog"
  by (metis same_buffers_def prod.collapse)

named_theorems unbinding

lemma same_ret [unbinding]: "same_buffers (ret x)"
  by (simp add: same_buffers_def ret_def)

lemma same_andThen [unbinding]: "same_buffers m \<Longrightarrow> (\<And>x. same_buffers (f x)) \<Longrightarrow> same_buffers (andThen m f)"
proof (rule same_buffersI)
  fix s r s' assume m: "same_buffers m" and f: "\<And>x. same_buffers (f x)" and e: "andThen m f s = (r, s')"
  obtain x s1 where x: "m s = (x, s1)" by force
  then show "buffers s' = buffers s \<and> memories s' = memories s"
    using e same_buffersD [OF m x] same_buffersD [OF f] by (cases x) (auto simp: andThen_def)
qed

lemma same_catching [unbinding]: "same_buffers m \<Longrightarrow> same_buffers h \<Longrightarrow> same_buffers (catching m h)"
  by (rule same_buffersI) (auto simp: catching_def split: prod.splits sum.splits exn.splits dest!: same_buffersD)

lemma same_via_bridge [unbinding]: "same_buffers (via_bridge m)"
  by (rule same_buffersI) (auto simp: via_bridge_def undefined_vk_def split: option.splits prod.splits)

lemma same_for_prog [unbinding]: "(\<And>x. same_buffers (body x)) \<Longrightarrow> same_buffers (for_prog body xs)"
proof (induction xs)
  case (Cons x xs)
  show ?case by (rule same_buffersI)
      (auto split: prod.splits sum.splits if_splits dest!: same_buffersD [OF Cons.prems] same_buffersD [OF Cons.IH [OF Cons.prems]])
qed (simp add: same_buffers_def)

lemma same_doing [unbinding]: "(\<And>s. buffers (f s) = buffers s \<and> memories (f s) = memories s) \<Longrightarrow> same_buffers (doing f)"
  by (simp add: same_buffers_def doing_def)

lemma same_change_image: "buffers (change_image p f s) = buffers s \<and> memories (change_image p f s) = memories s"
  by (simp add: change_image_def put_image_def undefined_vk_def split: option.split)

lemma same_set_image_resource [unbinding]: "same_buffers (set_image_resource img resource)"
  by (rule same_buffersI) (auto simp: set_image_resource_def put_image_def undefined_vk_def split: option.splits)

lemma same_ensureSparse [unbinding]: "same_buffers (ensureSparseImageBacking img)"
proof (rule same_buffersI)
  fix s r s' assume e: "ensureSparseImageBacking img s = (r, s')"
  have c: "same_buffers (catching (andThen (via_bridge m) (set_image_resource img)) (ret VK_ERROR_OUT_OF_DEVICE_MEMORY))" for m
    by (intro unbinding)
  show "buffers s' = buffers s \<and> memories s' = memories s"
    using e by (auto simp: ensureSparseImageBacking_def split: option.splits if_splits dest: same_buffersD [OF c])
qed

lemma same_map_tiles [unbinding]: "same_buffers (map_tiles img do_map mip layer tile counts)"
proof (rule same_buffersI)
  fix s r s' assume e: "map_tiles img do_map mip layer tile counts s = (r, s')"
  have c: "same_buffers (andThen (via_bridge m) (\<lambda>_. ret VK_SUCCESS))" for m by (intro unbinding)
  show "buffers s' = buffers s \<and> memories s' = memories s"
    using e by (auto simp: map_tiles_def undefined_vk_def split: option.splits prod.splits dest: same_buffersD [OF c])
qed

lemma same_map_tail [unbinding]: "same_buffers (map_tail_level img x do_map layerMip)"
  by (simp add: map_tail_level_def Let_def same_map_tiles)

lemma same_replace_image [unbinding]: "same_buffers (doing (replaceSparseImageBinding img ib))"
    "same_buffers (doing (replaceSparseImageOpaqueBinding img ob))"
  by (intro same_doing; simp add: replaceSparseImageBinding_def replaceSparseImageOpaqueBinding_def same_change_image)+

lemma same_if [unbinding]: "same_buffers m \<Longrightarrow> same_buffers m' \<Longrightarrow> same_buffers (if c then m else m')"
  by simp

lemma same_opaque_bind [unbinding]: "same_buffers (opaque_bind img bind)"
proof (rule same_buffersI)
  fix s r s' assume e: "opaque_bind img bind s = (r, s')"
  have c: "same_buffers (andThen (ensureSparseImageBacking img) (\<lambda>r. if r \<noteq> VK_SUCCESS then ret r
      else andThen (for_prog (map_tail_level img x d) ts) (\<lambda>_. doing (replaceSparseImageOpaqueBinding img bind))))" for x d ts
    by (intro unbinding)
  show "buffers s' = buffers s \<and> memories s' = memories s"
    using e by (auto simp: opaque_bind_def undefined_vk_def split: option.splits if_splits
        dest: same_buffersD [OF c] same_buffersD [OF same_replace_image(2)])
qed

lemma same_tile_bind [unbinding]: "same_buffers (tile_bind img bind)"
proof (rule same_buffersI)
  fix s r s' assume e: "tile_bind img bind s = (r, s')"
  have c: "same_buffers (andThen (map_tiles img d mip layer tile counts) (\<lambda>_. doing (replaceSparseImageBinding img bind)))"
    for d mip layer tile counts by (intro unbinding)
  show "buffers s' = buffers s \<and> memories s' = memories s"
    using e by (auto simp: tile_bind_def Let_def undefined_vk_def split: option.splits dest: same_buffersD [OF c])
qed

lemma same_bind_image [unbinding]: "same_buffers (bind_image info)"
  unfolding bind_image_def by (intro unbinding)

lemma same_bind_opaque [unbinding]: "same_buffers (bind_opaque info)"
  unfolding bind_opaque_def by (intro unbinding)

lemma same_set_signaled [unbinding]: "same_buffers (doing (set_signaled value p))"
  by (intro same_doing) (simp add: set_signaled_def put_semaphore_def undefined_vk_def split: option.split)

lemma effect_same: "same_buffers prog \<Longrightarrow> binds_effect p prog []"
  by (auto simp: binds_effect_def dest!: same_buffersD)

lemma effect_then_do:
  assumes a: "binds_effect p first xs" and b: "binds_effect p second ys"
  shows "binds_effect p (then_do first second) (xs @ ys)"
  unfolding binds_effect_def
proof (intro allI impI)
  fix s r s' assume e: "then_do first second s = (r, s')"
  obtain r1 s1 where f: "first s = (r1, s1)" by force
  obtain did where d: "memories s1 = memories s" "set did \<subseteq> set xs"
    "map_of (buffers s1) p = map_option (rebound did) (map_of (buffers s) p)" "r1 = Inr VK_SUCCESS \<longrightarrow> did = xs"
    using a f unfolding binds_effect_def by blast
  show "memories s' = memories s \<and> (\<exists>did. set did \<subseteq> set (xs @ ys)
    \<and> map_of (buffers s') p = map_option (rebound did) (map_of (buffers s) p) \<and> (r = Inr VK_SUCCESS \<longrightarrow> did = xs @ ys))"
  proof (cases "r1 = Inr VK_SUCCESS")
    case True
    then have s2: "second s1 = (r, s')" using e f by (simp add: then_do_def andThen_def)
    obtain did2 where "memories s' = memories s1" "set did2 \<subseteq> set ys"
      "map_of (buffers s') p = map_option (rebound did2) (map_of (buffers s1) p)" "r = Inr VK_SUCCESS \<longrightarrow> did2 = ys"
      using b s2 unfolding binds_effect_def by blast
    then show ?thesis using d True
      by (intro conjI exI [of _ "xs @ did2"]) (auto simp: option.map_comp rebound_append)
  next
    case False
    then have "s' = s1" "r = r1" using e f by (auto simp: then_do_def andThen_def ret_def split: sum.splits if_splits)
    then show ?thesis using d False by (intro conjI exI [of _ did]) auto
  qed
qed

lemma effect_for_prog:
  assumes "\<And>x. binds_effect p (body x) (f x)"
  shows "binds_effect p (for_prog body xs) (concat (map f xs))"
proof (induction xs)
  case Nil
  show ?case by (simp add: binds_effect_def)
next
  case (Cons x xs)
  have "for_prog body (x # xs) = then_do (body x) (for_prog body xs)"
    by (rule ext) (auto simp: then_do_def andThen_def ret_def split: prod.split sum.split)
  then show ?case using effect_then_do [OF assms Cons.IH] by simp
qed

lemma replace_buffers:
  "map_of (buffers (replaceSparseBufferBinding q bind s)) p
    = map_option (rebound (if q = p then [bind] else [])) (map_of (buffers s) p)
    \<and> memories (replaceSparseBufferBinding q bind s) = memories s"
  by (auto simp: replaceSparseBufferBinding_def put_buffer_def undefined_vk_def rebound_def update_conv' split: option.split)

definition buffer_binds :: "ptr \<Rightarrow> ptr \<times> VkSparseMemoryBind list option \<Rightarrow> VkSparseMemoryBind list" where
  "buffer_binds p info = (if fst info = p then binds_of (snd info) else [])"

lemma effect_bind_buffer: "binds_effect p (bind_buffer info) (buffer_binds p info)"
proof -
  have "binds_effect p (doing (replaceSparseBufferBinding (fst info) bind)) (if fst info = p then [bind] else [])" for bind
    by (auto simp: binds_effect_def doing_def replace_buffers)
  from effect_for_prog [where body = "\<lambda>bind. doing (replaceSparseBufferBinding (fst info) bind)"
      and f = "\<lambda>bind. if fst info = p then [bind] else []", OF this]
  have "binds_effect p (bind_buffer info) (concat (map (\<lambda>bind. if fst info = p then [bind] else []) (binds_of (snd info))))"
    by (simp only: bind_buffer_def)
  then show ?thesis by (cases "fst info = p") (simp_all add: buffer_binds_def map_replicate_const)
qed

text \<open>The binds of the infos that are for the buffer, in their order.\<close>

definition binds_for :: "ptr \<Rightarrow> VkBindSparseInfo list \<Rightarrow> VkSparseMemoryBind list" where
  "binds_for p infos = concat (map (\<lambda>info. concat (map (buffer_binds p) (binds_of (bs_bufferBinds info)))) infos)"

lemma effect_bind_info: "binds_effect p (bind_info info) (concat (map (buffer_binds p) (binds_of (bs_bufferBinds info))))"
proof -
  have rest: "binds_effect p (then_do (for_prog bind_opaque xs) (then_do (for_prog bind_image ys) (for_prog (\<lambda>p. doing (set_signaled True p)) zs))) []"
    for xs ys zs unfolding then_do_def by (intro effect_same unbinding)
  have "binds_effect p (for_prog (\<lambda>p. doing (set_signaled False p)) xs) []" for xs by (intro effect_same unbinding)
  from effect_then_do [OF this effect_then_do [OF effect_for_prog [OF effect_bind_buffer] rest]]
  show ?thesis unfolding bind_info_def by simp
qed

lemma effect_catching:
  assumes a: "binds_effect p prog binds"
  shows "binds_effect p (catching prog (ret VK_ERROR_DEVICE_LOST)) binds"
  unfolding binds_effect_def
proof (intro allI impI)
  fix s r s' assume e: "catching prog (ret VK_ERROR_DEVICE_LOST) s = (r, s')"
  obtain r1 s1 where f: "prog s = (r1, s1)" by force
  then have "s1 = s'" "r = Inr VK_SUCCESS \<Longrightarrow> r1 = Inr VK_SUCCESS"
    using e by (auto simp: catching_def ret_def split: sum.splits exn.splits)
  then show "memories s' = memories s \<and> (\<exists>did. set did \<subseteq> set binds
    \<and> map_of (buffers s') p = map_option (rebound did) (map_of (buffers s) p) \<and> (r = Inr VK_SUCCESS \<longrightarrow> did = binds))"
    using a f unfolding binds_effect_def by blast
qed

lemma effect_queue:
  assumes "vkQueueBindSparse queue (Some infos) fence s = (r, s')"
  shows "memories s' = memories s \<and> (\<exists>did. set did \<subseteq> set (binds_for p infos)
    \<and> map_of (buffers s') p = map_option (rebound did) (map_of (buffers s) p) \<and> (r = Inr VK_SUCCESS \<longrightarrow> did = binds_for p infos))
    \<and> (s' = s \<and> r \<noteq> Inr VK_SUCCESS \<or> deviceForQueue s queue \<noteq> 0 \<and> list_all (bind_info_ok s (deviceForQueue s queue)) infos)"
proof -
  have "same_buffers (doing (signal_fence fence))"
    by (intro same_doing) (simp add: signal_fence_def put_fence_def undefined_vk_def split: option.split)
  from effect_then_do [OF effect_catching [OF effect_for_prog [OF effect_bind_info]] effect_same [OF this]]
  have e: "binds_effect p (then_do (catching (for_prog bind_info infos) (ret VK_ERROR_DEVICE_LOST)) (doing (signal_fence fence))) (binds_for p infos)"
    by (simp add: binds_for_def)
  consider "s' = s" "r \<noteq> Inr VK_SUCCESS"
    | "then_do (catching (for_prog bind_info infos) (ret VK_ERROR_DEVICE_LOST)) (doing (signal_fence fence)) s = (r, s')"
      "deviceForQueue s queue \<noteq> 0" "list_all (bind_info_ok s (deviceForQueue s queue)) infos"
    using assms by (auto simp: vkQueueBindSparse_def Let_def split: if_splits)
  then show ?thesis
  proof cases
    case 1
    then show ?thesis by (auto intro: exI [of _ "[]"])
  next
    case 2
    then show ?thesis using e unfolding binds_effect_def by blast
  qed
qed

section \<open>The buffers of a driver\<close>

text \<open>Every sparse binding lies in memory that exists.\<close>

definition binding_backed :: "(ptr \<Rightarrow> DeviceMemoryState option) \<Rightarrow> SparseBufferBinding \<Rightarrow> bool" where
  "binding_backed mem b \<longleftrightarrow> (case mem (bindingMemory b) of None \<Rightarrow> False
     | Some m \<Rightarrow> unat (bindingMemoryOffset b) + unat (bindingSize b) \<le> unat (mem_size m))"

definition buffer_ok :: "(ptr \<Rightarrow> DeviceMemoryState option) \<Rightarrow> BufferState \<Rightarrow> bool" where
  "buffer_ok mem b \<longleftrightarrow> disjoint_bindings (buf_size b) (buf_sparseBindings b) \<and> list_all (binding_backed mem) (buf_sparseBindings b)"

definition sparse_ok :: "vk \<Rightarrow> bool" where
  "sparse_ok s \<longleftrightarrow> (\<forall>p b. map_of (buffers s) p = Some b \<longrightarrow> buffer_ok (memories s) b)"

lemma sparse_okD: "sparse_ok s \<Longrightarrow> map_of (buffers s) p = Some b \<Longrightarrow> buffer_ok (memories s) b"
  by (simp add: sparse_ok_def)

lemma backed_replaced:
  assumes bs: "disjoint_bindings limit bs" "list_all (binding_backed (memories s)) bs"
    and bind: "bind_fits limit bind" "bind_memory_ok s device (mb_memory bind) (mb_memoryOffset bind) (mb_size bind)"
  shows "list_all (binding_backed (memories s)) (replaced_bindings bind bs)"
proof -
  have "binding_backed (memories s) p"
    if b: "b \<in> set bs" and p: "p \<in> set (split_binding (mb_resourceOffset bind) (mb_resourceOffset bind + mb_size bind) b)" for b p
  proof -
    have inside: "binding_inside limit b" and backed: "binding_backed (memories s) b"
      using bs b by (auto simp: disjoint_bindings_def list_all_iff)
    then obtain m where m: "memories s (bindingMemory b) = Some m"
        "unat (bindingMemoryOffset b) + unat (bindingSize b) \<le> unat (mem_size m)"
      by (auto simp: binding_backed_def split: option.splits)
    then have "unat (bindingMemoryOffset b) + unat (bindingSize b) < 2 ^ 64" using u64_unat_less [of "mem_size m"] by linarith
    then show ?thesis using split_binding_cases [OF inside bind_ends(1) [OF bind(1)] p] m by (auto simp: binding_backed_def)
  qed
  moreover have "binding_backed (memories s) b" if "b \<in> set (new_binding bind)" for b
    using that bind(2) outside_unat
    by (auto simp: new_binding_def binding_backed_def bind_memory_ok_def split: if_splits option.splits)
  ultimately show ?thesis by (auto simp: list_all_iff set_replaced)
qed

lemma buffer_bind_fits: "buffer_bind_ok s device b bind \<Longrightarrow> bind_fits (buf_size b) bind"
  by (simp add: buffer_bind_ok_def bind_fits_def)

lemma buffer_ok_rebound:
  assumes "buffer_ok (memories s) b" "list_all (buffer_bind_ok s device b) binds"
  shows "buffer_ok (memories s) (rebound binds b)"
  using assms(2)
proof (induction binds rule: rev_induct)
  case Nil
  then show ?case using assms(1) by simp
next
  case (snoc bind binds)
  have same: "buf_size (rebound binds b) = buf_size b" for binds by (simp add: rebound_def)
  have step: "rebound (binds @ [bind]) b = (rebound binds b)\<lparr>buf_sparseBindings := replaced_bindings bind (buf_sparseBindings (rebound binds b))\<rparr>"
    by (simp add: rebound_def)
  have fits: "bind_fits (buf_size b) bind" and m: "bind_memory_ok s device (mb_memory bind) (mb_memoryOffset bind) (mb_size bind)"
    using snoc.prems buffer_bind_fits by (auto simp: buffer_bind_ok_def bind_fits_def)
  have "buffer_ok (memories s) (rebound binds b)" using snoc by simp
  then show ?case using disjoint_replaced [OF _ fits] backed_replaced [OF _ _ fits m] unfolding step
    by (simp add: buffer_ok_def same)
qed

lemma bind_info_buffers: "bind_info_ok s device info \<Longrightarrow>
    list_all (binds_ok (\<lambda>b. buf_device b = device \<and> buf_flags b AND VK_BUFFER_CREATE_SPARSE_BINDING_BIT \<noteq> 0)
      (buffer_bind_ok s device) (map_of (buffers s))) (binds_of (bs_bufferBinds info))"
  by (cases "bs_waits info"; cases "bs_bufferBinds info"; cases "bs_imageOpaqueBinds info"; cases "bs_imageBinds info";
      cases "bs_signals info") (simp_all add: bind_info_ok_def)

lemma binds_ok_buffer:
  "binds_ok kind ok find_object x \<Longrightarrow> find_object (fst x) = Some b \<Longrightarrow> list_all (ok b) (binds_of (snd x))"
  by (cases "snd x") (simp_all add: binds_ok_def)

lemma binds_for_ok:
  assumes "list_all (bind_info_ok s device) infos" "map_of (buffers s) p = Some b"
  shows "list_all (buffer_bind_ok s device b) (binds_for p infos)"
proof -
  have "buffer_bind_ok s device b bind"
    if "info \<in> set infos" "x \<in> set (binds_of (bs_bufferBinds info))" "bind \<in> set (buffer_binds p x)" for info x bind
  proof -
    have "bind_info_ok s device info" using that(1) assms(1) by (simp add: list_all_iff)
    moreover have p: "fst x = p" using that(3) by (cases "fst x = p") (simp_all add: buffer_binds_def)
    moreover have x: "bind \<in> set (binds_of (snd x))" using that(3) p by (simp add: buffer_binds_def)
    ultimately have "list_all (buffer_bind_ok s device b) (binds_of (snd x))"
      using list_all_iff [THEN iffD1, OF bind_info_buffers, rule_format, OF _ that(2)] assms(2)
      by (intro binds_ok_buffer [of _ _ "map_of (buffers s)" x b]) simp_all
    then show ?thesis using x by (simp add: list_all_iff)
  qed
  then show ?thesis by (auto simp: binds_for_def list_all_iff)
qed

text \<open>C17: After a successful \<^verbatim>\<open>vkQueueBindSparse\<close> the sparse bindings of every buffer stand for the map they stood
  for before, updated by the binds for the buffer one after the other: a byte is bound to what the last bind that covers it
  says, or to nothing when that bind has no memory, and a byte that no bind covers keeps its binding. Nothing else of the
  buffer changes.\<close>

lemma bind_sparse_refines_map:
  assumes "vkQueueBindSparse queue (Some infos) fence s = (Inr VK_SUCCESS, s')" "sparse_ok s"
    and "map_of (buffers s) p = Some b"
  shows "\<exists>bs'. map_of (buffers s') p = Some (b\<lparr>buf_sparseBindings := bs'\<rparr>)
    \<and> (\<forall>a. bound bs' a = (case find (\<lambda>bind. bind_covers bind a) (rev (binds_for p infos)) of
          Some bind \<Rightarrow> bind_target bind a | None \<Rightarrow> bound (buf_sparseBindings b) a))"
proof -
  note e = effect_queue [OF assms(1), of p]
  then have b': "map_of (buffers s') p = Some (rebound (binds_for p infos) b)" using assms(3) by auto
  have "list_all (buffer_bind_ok s (deviceForQueue s queue) b) (binds_for p infos)" using binds_for_ok e assms(3) by blast
  then have fits: "list_all (bind_fits (buf_size b)) (binds_for p infos)" using buffer_bind_fits by (auto simp: list_all_iff)
  have "disjoint_bindings (buf_size b) (buf_sparseBindings b)" using sparse_okD [OF assms(2,3)] by (simp add: buffer_ok_def)
  from sparse.lookup_fold [OF this fits] show ?thesis using b' by (auto simp: rebound_def)
qed

section \<open>Well-formed sparse bindings\<close>

datatype sparse_call = BindSparse ptr "VkBindSparseInfo list option" ptr | FreeMemory ptr
  | AllocateMemory ptr "VkMemoryAllocateInfo option" bool "int option"
  | CreateBuffer ptr "VkBufferCreateInfo option" bool | DestroyBuffer ptr

primrec sparse_step :: "sparse_call \<Rightarrow> vk \<Rightarrow> vk" where
  "sparse_step (BindSparse queue infos fence) s = snd (vkQueueBindSparse queue infos fence s)"
| "sparse_step (FreeMemory p) s = snd (vkFreeMemory p s)"
| "sparse_step (AllocateMemory device info out fstat) s = snd (vkAllocateMemory device info out fstat s)"
| "sparse_step (CreateBuffer device info out) s = snd (vkCreateBuffer device info out s)"
| "sparse_step (DestroyBuffer p) s = vkDestroyBuffer p s"

lemma bind_sparse_ok:
  assumes "sparse_ok s"
  shows "sparse_ok (snd (vkQueueBindSparse queue infos fence s))"
proof (cases infos)
  case None
  then show ?thesis using assms by (simp add: vkQueueBindSparse_def)
next
  case (Some il)
  obtain r s' where e: "vkQueueBindSparse queue (Some il) fence s = (r, s')" by force
  have "buffer_ok (memories s') b'" if b': "map_of (buffers s') p = Some b'" for p b'
  proof -
    obtain did where d: "set did \<subseteq> set (binds_for p il)" "map_of (buffers s') p = map_option (rebound did) (map_of (buffers s) p)"
      and m: "memories s' = memories s" and valid: "s' = s \<or> list_all (bind_info_ok s (deviceForQueue s queue)) il"
      using effect_queue [OF e, of p] by blast
    show ?thesis
    proof (cases "s' = s")
      case True
      then show ?thesis using sparse_okD [OF assms] b' by simp
    next
      case False
      obtain b where b: "map_of (buffers s) p = Some b" using d(2) b' by (cases "map_of (buffers s) p") auto
      then have b'_b: "b' = rebound did b" using d(2) b' by simp
      have "list_all (buffer_bind_ok s (deviceForQueue s queue) b) did"
        using binds_for_ok [OF _ b] valid False d(1) by (auto simp: list_all_iff)
      then show ?thesis using buffer_ok_rebound [OF sparse_okD [OF assms b]] b'_b m by simp
    qed
  qed
  then show ?thesis using Some e by (simp add: sparse_ok_def)
qed

lemma disjoint_filter: "disjoint_bindings limit bs \<Longrightarrow> disjoint_bindings limit (filter P bs)"
  by (auto simp: disjoint_bindings_def list_all_iff sorted_wrt_filter sorted_wrt_map)

lemma map_of_erase_sparse: "map_of (erase_sparse memory bs) p = map_option (\<lambda>b. b\<lparr>buf_sparseBindings :=
    filter (\<lambda>binding. bindingMemory binding \<noteq> memory) (buf_sparseBindings b)\<rparr>) (map_of bs p)"
  unfolding erase_sparse_def by (induction bs) auto

lemma same_release: "same_buffers (release_resource resource)"
proof (rule same_buffersI)
  fix s r s' assume e: "release_resource resource s = (r, s')"
  have c: "same_buffers (catching (via_bridge (bridge_destroyBuffer resource)) (ret ()))" by (intro unbinding)
  show "buffers s' = buffers s \<and> memories s' = memories s"
    using e by (auto simp: release_resource_def split: if_splits dest: same_buffersD [OF c])
qed

lemma free_memory_ok:
  assumes "sparse_ok s"
  shows "sparse_ok (snd (vkFreeMemory p s))"
proof (cases "p = 0 \<or> memories s p = None")
  case True
  then show ?thesis using assms by (auto simp: vkFreeMemory_def)
next
  case False
  let ?s = "s\<lparr>memories := (memories s)(p := None), buffers := erase_sparse p (buffers s)\<rparr>"
  have kept: "binding_backed (memories s) b \<Longrightarrow> bindingMemory b \<noteq> p \<Longrightarrow> binding_backed ((memories s)(p := None)) b" for b
    by (simp add: binding_backed_def)
  have ok: "sparse_ok ?s"
    unfolding sparse_ok_def
    using sparse_okD [OF assms] kept
    by (auto simp: map_of_erase_sparse buffer_ok_def disjoint_filter list_all_iff)
  have "buffers (snd (vkFreeMemory p s)) = buffers ?s \<and> memories (snd (vkFreeMemory p s)) = memories ?s"
    using False same_buffersD [OF same_release] by (auto simp: vkFreeMemory_def andThen_def split: option.split prod.split sum.split)
  then show ?thesis using ok by (simp add: sparse_ok_def)
qed

text \<open>One more memory object, at an address that had none.\<close>

definition one_more_memory :: "vk \<Rightarrow> vk \<Rightarrow> bool" where
  "one_more_memory s s' \<longleftrightarrow> (\<exists>p m. memories s p = None \<and> memories s' = (memories s)(p \<mapsto> m))"

lemma one_more_put: "memories s p = None \<Longrightarrow> memories s1 = memories s \<Longrightarrow> one_more_memory s (put_memory p m s1)"
  by (auto simp: one_more_memory_def put_memory_def)

lemma new_state_memories:
  "new_state s = (r, s1) \<Longrightarrow> buffers s1 = buffers s \<and> memories s1 = memories s \<and> (\<forall>p. r = Some p \<longrightarrow> memories s p = None)"
  by (auto simp: new_state_def live_def split: list.splits option.splits if_splits)

lemma import_memory_same: "import_memory d fstat m s1 = (r, s2) \<Longrightarrow> buffers s2 = buffers s1 \<and> memories s2 = memories s1"
  by (auto simp: import_memory_def Let_def split: option.splits if_splits prod.splits)

lemma allocate_memory_same:
  "buffers (snd (vkAllocateMemory device info out fstat s)) = buffers s \<and>
    (memories (snd (vkAllocateMemory device info out fstat s)) = memories s
     \<or> one_more_memory s (snd (vkAllocateMemory device info out fstat s)))"
  unfolding vkAllocateMemory_def Let_def
  by (auto split: option.split prod.split dest!: new_state_memories import_memory_same intro: one_more_put simp del: memories_put)

lemma sparse_ok_more:
  assumes "sparse_ok s" "buffers s' = buffers s" "one_more_memory s s'"
  shows "sparse_ok s'"
proof -
  have "binding_backed (memories s) b \<Longrightarrow> binding_backed (memories s') b" for b
    using assms(3) by (auto simp: one_more_memory_def binding_backed_def split: option.splits if_splits)
  then show ?thesis using assms(1,2) by (auto simp: sparse_ok_def buffer_ok_def list_all_iff)
qed

lemma sparse_ok_same: "sparse_ok s \<Longrightarrow> buffers s' = buffers s \<Longrightarrow> memories s' = memories s \<Longrightarrow> sparse_ok s'"
  by (simp add: sparse_ok_def)

lemma sparse_ok_new_buffer:
  assumes "sparse_ok s" "memories s1 = memories s" "buf_sparseBindings b = []"
  shows "sparse_ok (s1\<lparr>nextBufferDeviceAddress := a, buffers := map_put p b (buffers s)\<rparr>)"
    and "sparse_ok (s1\<lparr>buffers := map_put p b (buffers s)\<rparr>)"
  using assms by (auto simp: sparse_ok_def buffer_ok_def disjoint_bindings_def)

lemma create_buffer_ok: "sparse_ok s \<Longrightarrow> sparse_ok (snd (vkCreateBuffer device info out s))"
  by (auto simp: vkCreateBuffer_def Let_def split: option.split prod.split dest!: new_state_memories
    intro: sparse_ok_same intro!: sparse_ok_new_buffer [of s])

lemma allocate_memory_ok: "sparse_ok s \<Longrightarrow> sparse_ok (snd (vkAllocateMemory device info out fstat s))"
  using allocate_memory_same sparse_ok_more sparse_ok_same by blast

lemma destroy_buffer_ok: "sparse_ok s \<Longrightarrow> sparse_ok (vkDestroyBuffer p s)"
  by (simp add: vkDestroyBuffer_def sparse_ok_def)

lemma sparse_step_ok: "sparse_ok s \<Longrightarrow> sparse_ok (sparse_step call s)"
  by (cases call) (simp_all add: bind_sparse_ok free_memory_ok create_buffer_ok allocate_memory_ok destroy_buffer_ok)

text \<open>C19: Whatever buffers are created and destroyed, memory is allocated and freed and ranges are bound, successfully or
  not and whatever the host answers: the sparse bindings of every buffer are sorted, not empty, pairwise disjoint and inside
  the buffer, and each lies inside memory that has not been freed.\<close>

lemma sparse_bindings_typed:
  assumes "buffers s = []"
  shows "sparse_ok (fold sparse_step calls s)"
proof (induction calls rule: rev_induct)
  case Nil
  show ?case using assms by (simp add: sparse_ok_def)
qed (simp add: sparse_step_ok)

section \<open>An example\<close>

text \<open>A device with a queue, memory of 128 KiB and a sparse buffer of that size; the second bind takes the second half
  away again.\<close>

definition sparse_driver :: vk where
  "sparse_driver = (vk_init (cuda_init [] Map.empty) [] [Some 3] None)\<lparr>devices := [(1, [5])],
     memories := [9 \<mapsto> new_memory\<lparr>mem_device := 1, mem_size := 131072\<rparr>]\<rparr>"

definition sparse_example :: vk where
  "sparse_example = sparse_driver\<lparr>allocAnswers := [], nextBufferDeviceAddress := 0x0000010000020000,
     buffers := [(3, \<lparr>buf_device = 1, buf_size = 131072, buf_usage = 0, buf_flags = 1, buf_memory = 0, buf_memoryOffset = 0,
       deviceAddress = 0x0000010000000000, buf_sparseBindings = []\<rparr>)]\<rparr>"

definition sparse_infos :: "VkBindSparseInfo list" where
  "sparse_infos = [\<lparr>bs_waits = Some [], bs_bufferBinds = Some [(3, Some
     [\<lparr>mb_resourceOffset = 0, mb_size = 131072, mb_memory = 9, mb_memoryOffset = 0, mb_flags = 0\<rparr>,
      \<lparr>mb_resourceOffset = 65536, mb_size = 65536, mb_memory = 0, mb_memoryOffset = 0, mb_flags = 0\<rparr>])],
     bs_imageOpaqueBinds = Some [], bs_imageBinds = Some [], bs_signals = Some []\<rparr>]"

lemma sparse_example_created:
  "snd (vkCreateBuffer 1 (Some \<lparr>bci_size = 131072, bci_usage = 0, bci_flags = 1, bci_sharingMode = 0\<rparr>) True sparse_driver) = sparse_example"
  by (simp add: vkCreateBuffer_def sparse_driver_def sparse_example_def vk_init_def validVkDevice_def map_contains_def
    new_state_def live_def addressSpan_def map_put_def max_def)

lemma sparse_example_binds: "fst (vkQueueBindSparse 5 (Some sparse_infos) 0 sparse_example) = Inr VK_SUCCESS"
  by (simp add: vkQueueBindSparse_def sparse_infos_def sparse_example_def sparse_driver_def vk_init_def deviceForQueue_def
    bind_info_ok_def binds_ok_def buffer_bind_ok_def bind_memory_ok_def outside_def new_memory_def then_do_def andThen_def
    catching_def bind_info_def bind_buffer_def doing_def replaceSparseBufferBinding_def put_buffer_def signal_fence_def)

lemma bind_sparse_refines_map_witness:
  "\<exists>s' bs'. vkQueueBindSparse 5 (Some sparse_infos) 0 sparse_example = (Inr VK_SUCCESS, s')
    \<and> map_option buf_sparseBindings (map_of (buffers s') 3) = Some bs' \<and> bound bs' 5 = Some (9, 5) \<and> bound bs' 70000 = None"
proof -
  obtain s' where s': "vkQueueBindSparse 5 (Some sparse_infos) 0 sparse_example = (Inr VK_SUCCESS, s')"
    using sparse_example_binds by (metis prod.collapse)
  have "sparse_ok sparse_example"
    by (simp add: sparse_ok_def sparse_example_def buffer_ok_def disjoint_bindings_def)
  moreover have "map_of (buffers sparse_example) 3 = Some (snd (hd (buffers sparse_example)))"
    by (simp add: sparse_example_def)
  ultimately show ?thesis using bind_sparse_refines_map [OF s', of 3] s'
    by (auto simp: sparse_example_def sparse_infos_def binds_for_def buffer_binds_def bind_covers_def bind_target_def)
qed

lemma sparse_bindings_typed_witness:
  "sparse_ok (fold sparse_step
      [CreateBuffer 1 (Some \<lparr>bci_size = 131072, bci_usage = 0, bci_flags = 1, bci_sharingMode = 0\<rparr>) True,
       BindSparse 5 (Some sparse_infos) 0] sparse_driver)
    \<and> fst (vkQueueBindSparse 5 (Some sparse_infos) 0 sparse_example) = Inr VK_SUCCESS"
proof (intro conjI)
  have "buffers sparse_driver = []" by (simp add: sparse_driver_def vk_init_def)
  then show "sparse_ok (fold sparse_step
      [CreateBuffer 1 (Some \<lparr>bci_size = 131072, bci_usage = 0, bci_flags = 1, bci_sharingMode = 0\<rparr>) True,
       BindSparse 5 (Some sparse_infos) 0] sparse_driver)" by (rule sparse_bindings_typed)
qed (rule sparse_example_binds)

end
