(* ===== verification/VkFence.thy ===== *)
theory VkFence
  imports VkImageCopy
begin

text \<open>
  Fences of submitted work (\<^verbatim>\<open>completeFenceLocked\<close>, \<^verbatim>\<open>imb_vkCreateFence\<close> to
  \<^verbatim>\<open>imb_vkWaitForFences\<close>), and the uploads of buffers and images before work is submitted
  (\<^verbatim>\<open>uploadBufferForMetalLocked\<close>, \<^verbatim>\<open>uploadComputeImageForMetalLocked\<close>). When the host fails in the middle of a
  read, the bytes it has sent so far are left out. A null array of handles is \<open>None\<close>.
\<close>

section \<open>Completing a fence\<close>

text \<open>\<^verbatim>\<open>waitFence\<close>, then the result comes back into the memory of the image or into the memory object.\<close>

definition store_read :: "ptr \<Rightarrow> u64 \<Rightarrow> bytes \<Rightarrow> (vk, VkResult) prog" where
  "store_read memory offset bs s = (Inr VK_SUCCESS, store_memory memory (unat offset) bs s)"

definition read_back_image :: "ptr \<Rightarrow> (vk, VkResult) prog" where
  "read_back_image img s =
    (case images s img of
       None \<Rightarrow> (Inr VK_SUCCESS, undefined_vk s)
     | Some x \<Rightarrow>
       if img_memory x = 0 then (Inr VK_ERROR_MEMORY_MAP_FAILED, s)
       else (case ensureHostBacking (img_memory x) s of
         (r, s1) \<Rightarrow>
           (case memories s1 (img_memory x) of
              None \<Rightarrow> (Inr r, s1)
            | Some m \<Rightarrow>
                if r \<noteq> VK_SUCCESS then (Inr r, s1)
                else if outside (img_memoryOffset x) (pixelBytes x) (mem_size m) then (Inr VK_ERROR_MEMORY_MAP_FAILED, s1)
                else andThen (via_bridge (bridge_readImage (img_resourceID x) (pixelBytes x)))
                  (store_read (img_memory x) (img_memoryOffset x)) s1)))"

definition read_back_memory :: "ptr \<Rightarrow> (vk, VkResult) prog" where
  "read_back_memory memory s =
    (case memories s memory of
       None \<Rightarrow> (Inr VK_SUCCESS, undefined_vk s)
     | Some m \<Rightarrow>
         andThen (via_bridge (bridge_readBuffer (mem_resourceID m) (mem_size m) 0)) (store_read memory 0) s)"

definition set_fence_signaled :: "ptr \<Rightarrow> vk \<Rightarrow> vk" where
  "set_fence_signaled p s = (case fences s p of None \<Rightarrow> undefined_vk s | Some x \<Rightarrow> put_fence p (x\<lparr>fence_signaled := True\<rparr>) s)"

definition completeFence :: "ptr \<Rightarrow> (vk, VkResult) prog" where
  "completeFence p s =
    (case fences s p of
       None \<Rightarrow> (Inr VK_ERROR_DEVICE_LOST, s)
     | Some x \<Rightarrow>
       if fence_signaled x then (Inr VK_SUCCESS, s)
       else if \<not> submitted x \<or> bridgeFenceID x = 0 \<or> (resultMemory x = 0 \<and> resultImage x = 0) \<or> vkBridge s = None
       then (Inr VK_NOT_READY, s)
       else catching
         (andThen (via_bridge (bridge_waitFence (bridgeFenceID x))) (\<lambda>_.
          andThen (if resultImage x \<noteq> 0 then read_back_image (resultImage x) else read_back_memory (resultMemory x)) (\<lambda>r s1.
            if r \<noteq> VK_SUCCESS then (Inr r, s1) else (Inr VK_SUCCESS, set_fence_signaled p s1))))
         (ret VK_ERROR_DEVICE_LOST) s)"

section \<open>Fences\<close>

abbreviation (input) VK_FENCE_CREATE_SIGNALED_BIT :: u32 where "VK_FENCE_CREATE_SIGNALED_BIT \<equiv> 1"

definition vkCreateFence :: "ptr \<Rightarrow> u32 option \<Rightarrow> bool \<Rightarrow> vk \<Rightarrow> (VkResult \<times> ptr option) \<times> vk" where
  "vkCreateFence device createFlags out s =
    (case createFlags of
       None \<Rightarrow> ((VK_ERROR_INITIALIZATION_FAILED, None), s)
     | Some createBits \<Rightarrow>
       if \<not> out \<or> createBits AND NOT VK_FENCE_CREATE_SIGNALED_BIT \<noteq> 0 then ((VK_ERROR_INITIALIZATION_FAILED, None), s)
       else if \<not> validVkDevice s device then ((VK_ERROR_INITIALIZATION_FAILED, None), s)
       else (case new_state s of
         (None, s1) \<Rightarrow> ((VK_ERROR_OUT_OF_HOST_MEMORY, None), s1)
       | (Some p, s1) \<Rightarrow>
           ((VK_SUCCESS, Some p), put_fence p
             (new_fence\<lparr>fence_device := device, fence_signaled := (createBits AND VK_FENCE_CREATE_SIGNALED_BIT \<noteq> 0)\<rparr>) s1)))"

definition vkDestroyFence :: "ptr \<Rightarrow> vk \<Rightarrow> vk" where
  "vkDestroyFence fence s = (if fence = 0 then s else s\<lparr>fences := (fences s)(fence := None)\<rparr>)"

definition resettable :: "vk \<Rightarrow> ptr \<Rightarrow> bool" where
  "resettable s p = (case fences s p of None \<Rightarrow> False | Some x \<Rightarrow> \<not> (submitted x \<and> \<not> fence_signaled x))"

definition reset_fence :: "ptr \<Rightarrow> vk \<Rightarrow> vk" where
  "reset_fence p s = (case fences s p of
      None \<Rightarrow> undefined_vk s
    | Some x \<Rightarrow> put_fence p (x\<lparr>bridgeFenceID := 0, resultMemory := 0, resultImage := 0, submitted := False, fence_signaled := False\<rparr>) s)"

definition vkResetFences :: "ptr list option \<Rightarrow> vk \<Rightarrow> VkResult \<times> vk" where
  "vkResetFences handles s =
    (case handles of
       None \<Rightarrow> (VK_ERROR_INITIALIZATION_FAILED, s)
     | Some ps \<Rightarrow>
       if \<not> list_all (resettable s) ps then (VK_ERROR_INITIALIZATION_FAILED, s) else (VK_SUCCESS, fold reset_fence ps s))"

definition vkGetFenceStatus :: "ptr \<Rightarrow> vk \<Rightarrow> VkResult" where
  "vkGetFenceStatus fence s = (case fences s fence of
      None \<Rightarrow> VK_ERROR_DEVICE_LOST | Some x \<Rightarrow> if fence_signaled x then VK_SUCCESS else VK_NOT_READY)"

text \<open>The loop when nothing is to be waited for.\<close>

fun poll_fences :: "bool \<Rightarrow> ptr list \<Rightarrow> vk \<Rightarrow> VkResult" where
  "poll_fences waitAll [] s = VK_SUCCESS"
| "poll_fences waitAll (p # ps) s =
    (case fences s p of
       None \<Rightarrow> VK_ERROR_DEVICE_LOST
     | Some x \<Rightarrow>
       if waitAll \<and> \<not> fence_signaled x \<or> \<not> waitAll \<and> fence_signaled x
       then (if \<not> waitAll \<and> fence_signaled x then VK_SUCCESS else VK_TIMEOUT)
       else poll_fences waitAll ps s)"

fun wait_fences :: "bool \<Rightarrow> ptr list \<Rightarrow> (vk, VkResult) prog" where
  "wait_fences waitAll [] s = (Inr VK_SUCCESS, s)"
| "wait_fences waitAll (p # ps) s =
    (case completeFence p s of
       (Inl e, s1) \<Rightarrow> (Inl e, s1)
     | (Inr r, s1) \<Rightarrow>
         if r = VK_SUCCESS \<and> \<not> waitAll then (Inr VK_SUCCESS, s1)
         else if r \<noteq> VK_SUCCESS then (Inr r, s1)
         else wait_fences waitAll ps s1)"

definition vkWaitForFences :: "ptr list option \<Rightarrow> bool \<Rightarrow> u64 \<Rightarrow> (vk, VkResult) prog" where
  "vkWaitForFences handles waitAll timeout s =
    (case handles of
       None \<Rightarrow> (Inr VK_ERROR_INITIALIZATION_FAILED, s)
     | Some ps \<Rightarrow>
       if ps = [] then (Inr VK_ERROR_INITIALIZATION_FAILED, s)
       else if timeout = 0 then (Inr (poll_fences waitAll ps s), s)
       else wait_fences waitAll ps s)"

section \<open>Uploads\<close>

text \<open>\<^verbatim>\<open>writeBuffer\<close> of bytes of a memory object, and what follows a success.\<close>

definition upload_bytes :: "ptr \<Rightarrow> u64 \<Rightarrow> u64 \<Rightarrow> (vk \<Rightarrow> vk) \<Rightarrow> (vk, VkResult) prog" where
  "upload_bytes memory offset n after s =
    (case memories s memory of
       None \<Rightarrow> (Inr VK_SUCCESS, undefined_vk s)
     | Some m \<Rightarrow>
       (case load_memory memory (unat offset) (unat n) s of
          (bs, s1) \<Rightarrow>
            catching
              (andThen (via_bridge (bridge_writeBuffer (mem_resourceID m) bs offset)) (\<lambda>_ s2. (Inr VK_SUCCESS, after s2)))
              (ret VK_ERROR_DEVICE_LOST) s1))"

definition uploadBufferForMetal :: "ptr \<Rightarrow> (vk, VkResult) prog" where
  "uploadBufferForMetal buffer s =
    (if buffer = 0 then (Inr VK_ERROR_MEMORY_MAP_FAILED, s)
     else case map_of (buffers s) buffer of
       None \<Rightarrow> (Inr VK_ERROR_MEMORY_MAP_FAILED, undefined_vk s)
     | Some b \<Rightarrow>
       if buf_memory b = 0 \<or> vkBridge s = None then (Inr VK_ERROR_MEMORY_MAP_FAILED, s)
       else andThen (ensureMemoryBacking (buf_memory b) True) (\<lambda>r s1.
         (case memories s1 (buf_memory b) of
            None \<Rightarrow> (Inr r, s1)
          | Some m \<Rightarrow>
              if r \<noteq> VK_SUCCESS then (Inr r, s1)
              else if outside (buf_memoryOffset b) (buf_size b) (mem_size m) then (Inr VK_ERROR_MEMORY_MAP_FAILED, s1)
              else if mem_externalFD m \<ge> 0
              then (case refreshMemoryFromExternalFD (buf_memory b) (buf_memoryOffset b) (buf_size b) s1 of
                (r, s2) \<Rightarrow>
                  if r \<noteq> VK_SUCCESS then (Inr r, s2)
                  else upload_bytes (buf_memory b) (buf_memoryOffset b) (buf_size b) (\<lambda>s3. s3) s2)
              else if is_dirty m
              then upload_bytes (buf_memory b) (dirtyOffset m) (dirtyEnd m - dirtyOffset m) (change_memory (buf_memory b) clean) s1
              else (Inr VK_SUCCESS, s1))) s)"

definition computeImage :: "ImageState \<Rightarrow> bool" where
  "computeImage x \<longleftrightarrow> img_memory x \<noteq> 0
    \<and> (img_format x = VK_FORMAT_R8G8B8A8_UNORM \<or> img_format x = VK_FORMAT_B8G8R8A8_UNORM)
    \<and> (img_type x = VK_IMAGE_TYPE_2D \<or> img_type x = VK_IMAGE_TYPE_3D)
    \<and> extDepth (img_extent x) \<noteq> 0 \<and> img_mipLevels x = 1 \<and> img_arrayLayers x = 1"

text \<open>The last part: the bytes of the image go to its resource.\<close>

definition upload_image_bytes :: "ptr \<Rightarrow> ImageState \<Rightarrow> (vk, VkResult) prog" where
  "upload_image_bytes img x s =
    (case (images s img, memories s (img_memory x)) of
       (Some y, Some m) \<Rightarrow>
         if outside (img_memoryOffset x) (pixelBytes x) (mem_size m) then (Inr VK_ERROR_MEMORY_MAP_FAILED, s)
         else (case (if mem_externalFD m \<ge> 0
                     then refreshMemoryFromExternalFD (img_memory x) (img_memoryOffset x) (pixelBytes x) s else (VK_SUCCESS, s)) of
           (r, s1) \<Rightarrow>
             if r \<noteq> VK_SUCCESS then (Inr r, s1)
             else (case load_memory (img_memory x) (unat (img_memoryOffset x)) (unat (pixelBytes x)) s1 of
               (bs, s2) \<Rightarrow>
                 catching (andThen (via_bridge (bridge_writeImage (img_resourceID y) bs)) (\<lambda>_. ret VK_SUCCESS))
                   (ret VK_ERROR_DEVICE_LOST) s2))
     | _ \<Rightarrow> (Inr VK_SUCCESS, undefined_vk s))"

definition uploadComputeImageForMetal :: "ptr \<Rightarrow> (vk, VkResult) prog" where
  "uploadComputeImageForMetal img s =
    (case images s img of
       None \<Rightarrow> (Inr VK_ERROR_MEMORY_MAP_FAILED, s)
     | Some x \<Rightarrow>
       if vkBridge s = None then (Inr VK_ERROR_MEMORY_MAP_FAILED, s)
       else if img_flags x AND VK_IMAGE_CREATE_SPARSE_RESIDENCY_BIT \<noteq> 0 then ensureSparseImageBacking img s
       else if \<not> computeImage x then (Inr VK_ERROR_FORMAT_NOT_SUPPORTED, s)
       else (case ensureHostBacking (img_memory x) s of
         (r, s1) \<Rightarrow>
           if r \<noteq> VK_SUCCESS then (Inr r, s1)
           else andThen (ensureImageBacking img)
             (\<lambda>r. if r \<noteq> VK_SUCCESS then ret r else upload_image_bytes img x) s1))"

section \<open>What waiting for fences tells\<close>

definition is_signaled :: "vk \<Rightarrow> ptr \<Rightarrow> bool" where
  "is_signaled s p = (case fences s p of None \<Rightarrow> False | Some x \<Rightarrow> fence_signaled x)"

definition keeps_fences :: "(vk, 'a) prog \<Rightarrow> bool" where
  "keeps_fences prog \<longleftrightarrow> (\<forall>s r s'. prog s = (r, s') \<longrightarrow> fences s' = fences s)"

lemma keeps_fencesD: "keeps_fences prog \<Longrightarrow> prog s = (r, s') \<Longrightarrow> fences s' = fences s"
  by (simp add: keeps_fences_def)

lemma keeps_via_bridge: "keeps_fences (via_bridge m)"
  by (auto simp: keeps_fences_def via_bridge_def undefined_vk_def split: option.splits prod.splits)

lemma keeps_andThen: "keeps_fences m \<Longrightarrow> (\<And>x. keeps_fences (f x)) \<Longrightarrow> keeps_fences (andThen m f)"
  by (simp add: keeps_fences_def andThen_def split: prod.splits sum.splits)

lemma keeps_store_read: "keeps_fences (store_read memory offset bs)"
  by (auto simp: keeps_fences_def store_read_def store_memory_def put_memory_def undefined_vk_def split: option.splits)

lemma fences_ensureHostBacking: "ensureHostBacking memory s = (r, s1) \<Longrightarrow> fences s1 = fences s"
  by (auto simp: ensureHostBacking_def put_memory_def split: option.splits if_splits)

lemma keeps_read_back_image: "keeps_fences (read_back_image img)"
proof -
  have "keeps_fences (andThen (via_bridge (bridge_readImage r n)) (store_read m offset))" for r n m offset
    by (intro keeps_andThen keeps_via_bridge keeps_store_read)
  then show ?thesis unfolding keeps_fences_def read_back_image_def
    by (auto simp: undefined_vk_def keeps_fences_def split: option.splits prod.splits if_splits dest!: fences_ensureHostBacking)
qed

lemma keeps_read_back_memory: "keeps_fences (read_back_memory memory)"
proof -
  have "keeps_fences (andThen (via_bridge (bridge_readBuffer r n offset)) (store_read m offset'))" for r n m offset offset'
    by (intro keeps_andThen keeps_via_bridge keeps_store_read)
  then show ?thesis unfolding keeps_fences_def read_back_memory_def
    by (auto simp: undefined_vk_def keeps_fences_def split: option.splits)
qed

text \<open>Completing a fence only ever signals it.\<close>

lemma completeFence_spec:
  assumes "completeFence p s = (r, s')"
  shows "(fences s' = fences s \<or> (\<exists>x. fences s p = Some x \<and> fences s' = (fences s)(p \<mapsto> x\<lparr>fence_signaled := True\<rparr>)))
    \<and> (r = Inr VK_SUCCESS \<longrightarrow> is_signaled s' p)"
proof -
  consider "fences s' = fences s" "r \<noteq> Inr VK_SUCCESS" | "s' = s" "is_signaled s p"
    | x where "fences s p = Some x"
        "catching (andThen (via_bridge (bridge_waitFence (bridgeFenceID x))) (\<lambda>_.
          andThen (if resultImage x \<noteq> 0 then read_back_image (resultImage x) else read_back_memory (resultMemory x)) (\<lambda>r s1.
            if r \<noteq> VK_SUCCESS then (Inr r, s1) else (Inr VK_SUCCESS, set_fence_signaled p s1)))) (ret VK_ERROR_DEVICE_LOST) s = (r, s')"
    using assms by (auto simp: completeFence_def is_signaled_def split: option.splits if_splits)
  then show ?thesis
  proof cases
    case (3 x)
    let ?read = "if resultImage x \<noteq> 0 then read_back_image (resultImage x) else read_back_memory (resultMemory x)"
    have k: "keeps_fences (andThen (via_bridge (bridge_waitFence (bridgeFenceID x))) (\<lambda>_. ?read))"
      by (intro keeps_andThen keeps_via_bridge) (simp add: keeps_read_back_image keeps_read_back_memory)
    obtain r1 s1 where w: "via_bridge (bridge_waitFence (bridgeFenceID x)) s = (r1, s1)" by force
    obtain r2 s2 where b: "?read s1 = (r2, s2)" by force
    have f1: "fences s1 = fences s" using keeps_fencesD [OF keeps_via_bridge w] .
    have f2: "fences s2 = fences s"
      using keeps_fencesD [OF keeps_read_back_image] keeps_fencesD [OF keeps_read_back_memory] b f1 by (auto split: if_splits)
    show ?thesis using 3 w b f1 f2
      by (auto simp: catching_def andThen_def ret_def set_fence_signaled_def put_fence_def is_signaled_def
          split: sum.splits exn.splits if_splits)
  qed auto
qed

lemma wait_fences_signaled:
  "wait_fences True ps s = (Inr VK_SUCCESS, s') \<Longrightarrow> (\<forall>p \<in> set ps. is_signaled s' p) \<and> (\<forall>p. is_signaled s p \<longrightarrow> is_signaled s' p)"
proof (induction ps arbitrary: s)
  case (Cons p ps)
  then obtain s1 where c: "completeFence p s = (Inr VK_SUCCESS, s1)" and w: "wait_fences True ps s1 = (Inr VK_SUCCESS, s')"
    by (auto split: prod.splits sum.splits if_splits)
  have "is_signaled s1 p" and mono: "is_signaled s q \<Longrightarrow> is_signaled s1 q" for q
    using completeFence_spec [OF c] by (auto simp: is_signaled_def split: option.splits if_splits)
  then show ?case using Cons.IH [OF w] by auto
qed simp

lemma poll_fences_signaled: "poll_fences True ps s = VK_SUCCESS \<longleftrightarrow> (\<forall>p \<in> set ps. is_signaled s p)"
  by (induction ps) (auto simp: is_signaled_def split: option.splits)

text \<open>C20: When \<^verbatim>\<open>vkWaitForFences\<close> for all fences succeeds, with any timeout and whatever the host answers, every
  one of the fences exists and is signaled afterwards, and no fence has lost its signal.\<close>

lemma wait_all_signaled:
  assumes "vkWaitForFences handles True timeout s = (Inr VK_SUCCESS, s')"
  shows "\<exists>ps. handles = Some ps \<and> ps \<noteq> [] \<and> (\<forall>p \<in> set ps. vkGetFenceStatus p s' = VK_SUCCESS)
    \<and> (\<forall>p. vkGetFenceStatus p s = VK_SUCCESS \<longrightarrow> vkGetFenceStatus p s' = VK_SUCCESS)"
proof -
  have status: "vkGetFenceStatus p t = VK_SUCCESS \<longleftrightarrow> is_signaled t p" for p t
    by (auto simp: vkGetFenceStatus_def is_signaled_def split: option.split)
  obtain ps where ps: "handles = Some ps" "ps \<noteq> []" using assms by (auto simp: vkWaitForFences_def split: option.splits if_splits)
  then show ?thesis using assms unfolding status
    by (cases "timeout = 0") (auto simp: vkWaitForFences_def poll_fences_signaled dest: wait_fences_signaled)
qed

definition fence_example :: vk where
  "fence_example = (vk_init (cuda_init [] Map.empty) [] [] None)\<lparr>fences := [2 \<mapsto> new_fence\<lparr>fence_signaled := True\<rparr>, 3 \<mapsto> new_fence]\<rparr>"

lemma wait_all_signaled_witness:
  "vkWaitForFences (Some [2, 2]) True 7 fence_example = (Inr VK_SUCCESS, fence_example)
    \<and> (\<exists>ps. Some [2, 2] = Some ps \<and> (\<forall>p \<in> set ps. vkGetFenceStatus p fence_example = VK_SUCCESS))"
proof -
  have "vkWaitForFences (Some [2, 2]) True 7 fence_example = (Inr VK_SUCCESS, fence_example)"
    by (simp add: vkWaitForFences_def completeFence_def fence_example_def vk_init_def new_fence_def)
  then show ?thesis using wait_all_signaled [of "Some [2, 2]" 7 fence_example fence_example] by auto
qed

text \<open>Waiting for any of the fences is different: without a timeout it succeeds when none of them is signaled, and with one
  only the first fence counts.\<close>

lemma wait_any_unsignaled:
  "vkWaitForFences (Some [3]) False 0 fence_example = (Inr VK_SUCCESS, fence_example) \<and> vkGetFenceStatus 3 fence_example = VK_NOT_READY
    \<and> vkWaitForFences (Some [3, 2]) False 7 fence_example = (Inr VK_NOT_READY, fence_example)"
  by (simp add: vkWaitForFences_def completeFence_def fence_example_def vk_init_def new_fence_def vkGetFenceStatus_def)

end
