(* ===== verification/VkMemoryProps.thy ===== *)
theory VkMemoryProps
  imports VkTransfer
begin

text \<open>
  Memory safety of the Vulkan driver's memory calls and of the transfers of buffers: as long as the application stores
  only through mapped ranges and uses buffers that exist, no call reads or writes outside the bytes of a memory object or
  follows a pointer to freed memory, and every memory object stays well formed.
\<close>

section \<open>Single steps\<close>

definition good :: "vk \<Rightarrow> bool" where
  "good s \<longleftrightarrow> memories_ok s \<and> \<not> vk_broken s"

lemma good_put: "good s \<Longrightarrow> p \<noteq> 0 \<Longrightarrow> memory_ok m \<Longrightarrow> good (put_memory p m s)"
  by (simp add: good_def memories_ok_put)

lemma good_same: "good s \<Longrightarrow> memories s' = memories s \<Longrightarrow> vk_broken s' = vk_broken s \<Longrightarrow> good s'"
  by (simp add: good_def memories_ok_def)

lemma goodD: "good s \<Longrightarrow> memories s p = Some m \<Longrightarrow> p \<noteq> 0 \<and> memory_ok m"
  using memories_okD by (auto simp: good_def)

lemma good_change:
  assumes "good s" "memories s p = Some m" "memory_ok (f m)"
  shows "good (change_memory p f s)"
  using assms goodD by (simp add: change_memory_def good_put)

lemma change_memory_memories [simp]: "memories s p = Some m \<Longrightarrow> memories (change_memory p f s) = (memories s)(p \<mapsto> f m)"
  by (simp add: change_memory_def)

text \<open>The object with its bytes in place.\<close>

definition filled :: "vk \<Rightarrow> ptr \<Rightarrow> DeviceMemoryState \<Rightarrow> bool" where
  "filled s p m \<longleftrightarrow> memories s p = Some m \<and> length (mem_bytes m) = unat (mem_size m)"

lemma filled_here: "good s \<Longrightarrow> memories s p = Some m \<Longrightarrow> mem_bytes m \<noteq> [] \<Longrightarrow> filled s p m"
  using goodD by (fastforce simp: filled_def memory_ok_def)

lemma same_bytes [simp, intro]: "\<exists>bs. m = m\<lparr>mem_bytes := bs\<rparr>"
  by (rule exI [of _ "mem_bytes m"]) simp

lemma good_host:
  assumes "good s" "ensureHostBacking p s = (VK_SUCCESS, s1)"
  shows "good s1 \<and> (\<exists>m m1. memories s p = Some m \<and> filled s1 p m1 \<and> (\<exists>bs. m1 = m\<lparr>mem_bytes := bs\<rparr>) \<and> mem_bytes m1 \<noteq> []
    \<and> memories s1 = (memories s)(p \<mapsto> m1))"
proof -
  obtain m where m: "memories s p = Some m" using assms(2) by (cases "memories s p") (auto simp: ensureHostBacking_def)
  have ok: "p \<noteq> 0" "memory_ok m" using goodD [OF assms(1) m] by simp_all
  show ?thesis
  proof (cases "mem_bytes m = []")
    case True
    let ?m = "m\<lparr>mem_bytes := replicate (unat (mem_size m)) 0\<rparr>"
    have s1: "s1 = put_memory p ?m s" using assms(2) m True by (simp add: ensureHostBacking_def)
    have "memory_ok ?m" using ok(2) True by (auto simp: memory_ok_def)
    moreover have "replicate (unat (mem_size m)) (0 :: u8) \<noteq> []" using ok(2) by (auto simp: memory_ok_def unat_eq_0)
    ultimately show ?thesis using m s1 good_put [OF assms(1) ok(1)] by (auto simp: filled_def)
  next
    case False
    then show ?thesis using assms m filled_here [OF assms(1) m False] by (auto simp: ensureHostBacking_def fun_upd_idem)
  qed
qed

lemma ensureHostBacking_result: "ensureHostBacking p s = (r, s1) \<Longrightarrow> memories s p \<noteq> None \<Longrightarrow> r = VK_SUCCESS"
  by (auto simp: ensureHostBacking_def split: if_splits)

lemma ensureHostBacking_failed: "ensureHostBacking p s = (r, s1) \<Longrightarrow> r \<noteq> VK_SUCCESS \<Longrightarrow> s1 = s \<and> memories s p = None"
  by (auto simp: ensureHostBacking_def split: option.splits if_splits)

lemma good_load:
  "filled s p m \<Longrightarrow> n + k \<le> unat (mem_size m) \<Longrightarrow> load_memory p n k s = (slice_of n k (mem_bytes m), s)"
  by (simp add: load_memory_def filled_def)

lemma length_splice: "n + length bs \<le> length data \<Longrightarrow> length (splice n bs data) = length data"
  by (simp add: splice_def)

lemma good_store:
  assumes "good s" "filled s p m" "n + length bs \<le> unat (mem_size m)"
  shows "good (store_memory p n bs s) \<and> memories (store_memory p n bs s) = (memories s)(p \<mapsto> m\<lparr>mem_bytes := splice n bs (mem_bytes m)\<rparr>)
    \<and> filled (store_memory p n bs s) p (m\<lparr>mem_bytes := splice n bs (mem_bytes m)\<rparr>)"
proof -
  have m: "memories s p = Some m" "length (mem_bytes m) = unat (mem_size m)" using assms(2) by (simp_all add: filled_def)
  have l: "length (splice n bs (mem_bytes m)) = length (mem_bytes m)" using assms(3) m by (simp add: length_splice)
  then have "memory_ok (m\<lparr>mem_bytes := splice n bs (mem_bytes m)\<rparr>)"
    using goodD [OF assms(1) m(1)] m(2) by (auto simp: memory_ok_def)
  then show ?thesis using assms(3) m l good_put [OF assms(1)] goodD [OF assms(1) m(1)]
    by (auto simp: store_memory_def filled_def)
qed

lemma good_sync:
  assumes "good s" "memories s p = Some m" "syncMemoryToExternalFD p offset sz s = (r, s1)"
  shows "good s1 \<and> (\<exists>m1. memories s1 p = Some m1 \<and> (\<exists>bs. m1 = m\<lparr>mem_bytes := bs\<rparr>) \<and> (mem_bytes m \<noteq> [] \<longrightarrow> m1 = m))"
proof -
  note p = goodD [OF assms(1,2)]
  show ?thesis
  proof (cases "mem_externalFD m < 0 \<or> sz = 0")
    case True
    then show ?thesis using assms p by (auto simp: syncMemoryToExternalFD_def)
  next
    case False
    obtain s2 where h: "ensureHostBacking p s = (VK_SUCCESS, s2)"
      using assms(2) ensureHostBacking_result by (metis option.distinct(1) prod.collapse)
    from good_host [OF assms(1) h] obtain m1 where m1: "good s2" "filled s2 p m1" "(\<exists>bs. m1 = m\<lparr>mem_bytes := bs\<rparr>)"
      using assms(2) by auto
    have same: "mem_bytes m \<noteq> [] \<longrightarrow> m1 = m" using h assms(2) m1(2) by (auto simp: ensureHostBacking_def filled_def)
    have size: "mem_size m1 = mem_size m" using m1(3) by auto
    show ?thesis
    proof (cases "outside offset sz (mem_size m)")
      case True
      then show ?thesis using assms p False h m1 same by (auto simp: syncMemoryToExternalFD_def filled_def)
    next
      case inside: False
      then have "load_memory p (unat offset) (unat sz) s2 = (slice_of (unat offset) (unat sz) (mem_bytes m1), s2)"
        using good_load [OF m1(2)] size by (simp add: outside_unat)
      then have "memories s1 = memories s2 \<and> vk_broken s1 = vk_broken s2"
        using assms p False h inside by (auto simp: syncMemoryToExternalFD_def split: prod.splits)
      then show ?thesis using m1 same good_same [OF m1(1)] by (auto simp: filled_def)
    qed
  qed
qed

lemma memory_pread_length: "memory_pread d base wanted got as s = (ok, bs, as') \<Longrightarrow> length got \<le> wanted \<Longrightarrow>
    length bs \<le> wanted \<and> (ok \<longrightarrow> length bs = wanted)"
  by (induction d base wanted got as s rule: memory_pread.induct)
    (auto simp: Let_def split: if_splits io_answer.splits option.splits)

lemma good_refresh:
  assumes "good s" "memories s p = Some m" "refreshMemoryFromExternalFD p offset sz s = (r, s1)"
  shows "good s1 \<and> (\<exists>m1. memories s1 p = Some m1 \<and> (\<exists>bs. m1 = m\<lparr>mem_bytes := bs\<rparr>) \<and> (mem_bytes m \<noteq> [] \<longrightarrow> mem_bytes m1 \<noteq> []))"
proof -
  note p = goodD [OF assms(1,2)]
  show ?thesis
  proof (cases "mem_externalFD m < 0 \<or> sz = 0")
    case True
    then show ?thesis using assms p by (auto simp: refreshMemoryFromExternalFD_def)
  next
    case False
    obtain s2 where h: "ensureHostBacking p s = (VK_SUCCESS, s2)"
      using assms(2) ensureHostBacking_result by (metis option.distinct(1) prod.collapse)
    from good_host [OF assms(1) h] obtain m1 where m1: "good s2" "filled s2 p m1" "(\<exists>bs. m1 = m\<lparr>mem_bytes := bs\<rparr>)" "mem_bytes m1 \<noteq> []"
      using assms(2) by auto
    have size: "mem_size m1 = mem_size m" using m1(3) by auto
    show ?thesis
    proof (cases "outside offset sz (mem_size m)")
      case True
      then show ?thesis using assms p False h m1 by (auto simp: refreshMemoryFromExternalFD_def filled_def)
    next
      case inside: False
      obtain ok got as where read: "memory_pread (mem_externalFD m) (unat offset) (unat sz) [] (ioAnswers s2) (os s2) = (ok, got, as)"
        by (metis prod.collapse)
      then have "length got \<le> unat sz" using memory_pread_length [OF read] by simp
      then have le: "unat offset + length got \<le> unat (mem_size m1)" using inside size by (simp add: outside_unat)
      let ?s = "s2\<lparr>ioAnswers := as\<rparr>"
      have "good ?s" "filled ?s p m1" using m1 good_same [OF m1(1)] by (simp_all add: filled_def)
      note st = good_store [OF this le]
      have "s1 = store_memory p (unat offset) got ?s"
        using assms p False h inside read by (auto simp: refreshMemoryFromExternalFD_def)
      then show ?thesis using st m1(3,4) by (auto simp: filled_def splice_def)
    qed
  qed
qed

section \<open>Mapping, flushing, exporting\<close>

lemma unat_add_le: "unat (x + y :: u64) \<le> unat x + unat y"
  by (simp add: unat_word_ariths)

lemma max_dirty: "\<not> outside offset sz limit \<Longrightarrow> dirtyEnd m \<le> limit \<Longrightarrow> max (dirtyEnd m) (offset + sz) \<le> limit"
proof -
  assume o: "\<not> outside offset sz limit" and d: "dirtyEnd m \<le> limit"
  then have "unat offset + unat sz \<le> unat limit" by (simp add: outside_unat)
  then have "unat (offset + sz) \<le> unat limit" using unat_add_le [of offset sz] by simp
  then show ?thesis using d by (simp add: word_le_nat_alt)
qed

lemma memory_ok_dirty:
  assumes "memory_ok m" "\<not> outside offset sz (mem_size m)"
  shows "memory_ok (add_dirty offset (offset + sz) m)"
proof -
  have "dirtyEnd m \<le> mem_size m" using assms(1) by (auto simp: memory_ok_def)
  from max_dirty [OF assms(2) this] show ?thesis using assms(1) by (auto simp: memory_ok_def add_dirty_def)
qed

lemma memory_ok_clean: "memory_ok m \<Longrightarrow> memory_ok (clean m)"
  by (auto simp: memory_ok_def clean_def)

lemma memory_ok_fd: "memory_ok m \<Longrightarrow> memory_ok (m\<lparr>mem_externalFD := d\<rparr>)"
  by (auto simp: memory_ok_def)

lemma good_map: "good s \<Longrightarrow> good (snd (vkMapMemory p offset sz out s))"
proof (cases "memories s p")
  case None
  assume "good s"
  then show ?thesis using None by (simp add: vkMapMemory_def)
next
  case (Some m)
  assume g: "good s"
  note ok = goodD [OF g Some]
  let ?size = "mapRangeSize (mem_size m) offset sz"
  show ?thesis
  proof (cases "p = 0 \<or> \<not> out \<or> offset > mem_size m \<or> ?size > mem_size m - offset")
    case True
    then show ?thesis using g Some by (auto simp: vkMapMemory_def Let_def)
  next
    case False
    then have inside: "\<not> outside offset ?size (mem_size m)" by (auto simp: outside_def)
    show ?thesis
    proof (cases "mapped m")
      case True
      have "memory_ok (m\<lparr>mapReferenceCount := mapReferenceCount m + 1\<rparr>)" if "mapReferenceCount m \<noteq> UINT32_MAX"
        using ok True that by (auto simp: memory_ok_def eq_neg_iff_add_eq_0)
      then show ?thesis using g Some False True ok by (auto simp: vkMapMemory_def Let_def good_put)
    next
      case unmapped: False
      obtain s1 where h: "ensureHostBacking p s = (VK_SUCCESS, s1)"
        using Some ensureHostBacking_result by (metis option.distinct(1) prod.collapse)
      from good_host [OF g h] obtain m1 where m1: "good s1" "memories s1 p = Some m1" "\<exists>bs. m1 = m\<lparr>mem_bytes := bs\<rparr>" "mem_bytes m1 \<noteq> []"
        using Some by (auto simp: filled_def)
      let ?m = "m1\<lparr>mapped := True, mappedOffset := offset, mappedSize := ?size, mapReferenceCount := 1\<rparr>"
      have "memory_ok ?m" using goodD [OF m1(1,2)] inside m1(3,4) by (auto simp: memory_ok_def)
      moreover have "mem_size ?m = mem_size m" using m1(3) by auto
      ultimately have "memory_ok (add_dirty offset (offset + ?size) ?m)" using memory_ok_dirty inside by metis
      then have "good (change_memory p (\<lambda>m1. add_dirty offset (offset + ?size)
          (m1\<lparr>mapped := True, mappedOffset := offset, mappedSize := ?size, mapReferenceCount := 1\<rparr>)) s1)"
        by (rule good_change [OF m1(1,2)])
      then show ?thesis using g Some False unmapped h by (simp add: vkMapMemory_def Let_def)
    qed
  qed
qed

lemma good_unmap: "good s \<Longrightarrow> good (vkUnmapMemory p s)"
proof (cases "memories s p")
  case (Some m)
  assume g: "good s"
  show ?thesis
  proof (cases "p = 0 \<or> \<not> mapped m \<or> mapReferenceCount m = 0")
    case False
    let ?s1 = "if mem_externalFD m \<ge> 0 \<and> is_dirty m
      then snd (syncMemoryToExternalFD p (dirtyOffset m) (dirtyEnd m - dirtyOffset m) s) else s"
    let ?f = "\<lambda>m1. (let m2 = m1\<lparr>mapReferenceCount := mapReferenceCount m1 - 1\<rparr>
                in if mapReferenceCount m2 \<noteq> 0 then m2
                   else (if mem_externalFD m2 \<ge> 0 then clean m2 else m2)
                     \<lparr>mapped := False, mappedOffset := 0, mappedSize := 0\<rparr>)"
    have ne: "mem_bytes m \<noteq> []" using False goodD [OF g Some] by (auto simp: memory_ok_def)
    have s1: "good ?s1 \<and> memories ?s1 p = Some m"
      using good_sync [OF g Some, of "dirtyOffset m" "dirtyEnd m - dirtyOffset m"] ne g Some
      by (cases "syncMemoryToExternalFD p (dirtyOffset m) (dirtyEnd m - dirtyOffset m) s") auto
    have "memory_ok (?f m)" using goodD [OF g Some] False
      by (auto simp: Let_def memory_ok_def clean_def eq_diff_eq)
    then show ?thesis using good_change [of ?s1 p m ?f] s1 False Some by (simp add: vkUnmapMemory_def Let_def)
  qed (use g Some in \<open>auto simp: vkUnmapMemory_def\<close>)
qed (simp add: vkUnmapMemory_def)

lemma good_flush_ranges: "good s \<Longrightarrow> good (snd (flush_ranges rs s))"
proof (induction rs s rule: flush_ranges.induct)
  case (2 memory offset sz rest s)
  show ?case
  proof (cases "memories s memory")
    case (Some m)
    obtain r s1 where e: "syncMemoryToExternalFD memory offset (mapRangeSize (mem_size m) offset sz) s = (r, s1)" by force
    from good_sync [OF "2.prems" Some e] obtain m1 where m1: "good s1" "memories s1 memory = Some m1" by auto
    have "good (if mem_externalFD m \<ge> 0 then change_memory memory clean s1 else s1)"
      using good_change [OF m1] goodD [OF m1] memory_ok_clean m1(1) by auto
    then show ?thesis using 2 Some e m1 by (auto simp: Let_def)
  qed (use 2 in simp)
qed simp

lemma good_invalidate_ranges: "good s \<Longrightarrow> good (snd (invalidate_ranges rs s))"
proof (induction rs s rule: invalidate_ranges.induct)
  case (2 memory offset sz rest s)
  show ?case
  proof (cases "memories s memory")
    case (Some m)
    obtain r s1 where e: "refreshMemoryFromExternalFD memory offset (mapRangeSize (mem_size m) offset sz) s = (r, s1)" by force
    then have "good s1" using good_refresh [OF "2.prems" Some e] by blast
    then show ?thesis using 2 Some e by (auto simp: Let_def)
  qed (use 2 in simp)
qed simp

lemma good_os: "good s \<Longrightarrow> good (s\<lparr>os := x\<rparr>)"
  by (rule good_same) simp_all

text \<open>A memory object through the operations of an export, whatever its bytes.\<close>

definition holds :: "ptr \<Rightarrow> vk \<Rightarrow> bool" where
  "holds p s \<longleftrightarrow> good s \<and> memories s p \<noteq> None"

lemma holds_sync: "holds p s \<Longrightarrow> holds p (snd (syncMemoryToExternalFD p offset sz s))"
  using good_sync [of s p _ offset sz] unfolding holds_def by (metis not_None_eq prod.collapse)

lemma holds_change: "holds p s \<Longrightarrow> (\<And>m. memory_ok m \<Longrightarrow> memory_ok (f m)) \<Longrightarrow> holds p (change_memory p f s)"
  unfolding holds_def using good_change [of s p] goodD [of s p] by fastforce

lemma holds_os [simp]: "holds p (s\<lparr>os := x\<rparr>) \<longleftrightarrow> holds p s"
  by (simp add: holds_def good_def memories_ok_def)

lemma holds_synced: "syncMemoryToExternalFD p offset sz s = (r, s1) \<Longrightarrow> holds p s \<Longrightarrow> holds p s1"
  using holds_sync by (metis snd_conv)

lemma holds_clean [intro]: "holds p s \<Longrightarrow> holds p (change_memory p clean s)"
  by (rule holds_change) (simp_all add: memory_ok_clean)

lemma holds_fd [intro]: "holds p s \<Longrightarrow> holds p (change_memory p (mem_externalFD_update (\<lambda>_. d)) s)"
  by (rule holds_change) (simp_all add: memory_ok_fd)

lemma holds_backing:
  assumes "holds p s"
  shows "holds p (snd (backing_memory p mkstemp ftruncate s))"
proof -
  obtain m where m: "memories s p = Some m" using assms by (auto simp: holds_def)
  have opened: "holds p s2" if "syncMemoryToExternalFD p 0 n (change_memory p (mem_externalFD_update (\<lambda>_. d)) (s\<lparr>os := x\<rparr>)) = (r, s2)"
    for d x n r s2
    by (rule holds_synced [OF that holds_fd]) (simp add: assms)
  have closed: "holds p (change_memory p (mem_externalFD_update (\<lambda>_. d)) (s2\<lparr>os := x\<rparr>))" if "holds p s2" for d x s2
    by (rule holds_fd) (simp add: that)
  note synced = holds_synced [OF _ assms]
  show ?thesis using m assms
    by (cases "mem_externalFD m < 0"; cases "is_dirty m"; cases mkstemp)
      (auto simp: backing_memory_def Let_def dest: opened synced intro: closed split: prod.split)
qed

lemma good_host_backing: "good s \<Longrightarrow> good (snd (ensureHostBacking p s))"
  using good_host [of s p] ensureHostBacking_failed [of p s] by (metis prod.collapse)

lemma holds_host: "ensureHostBacking p s = (VK_SUCCESS, s1) \<Longrightarrow> good s \<Longrightarrow> holds p s1"
  using good_host [of s p s1] by (auto simp: holds_def)

lemma good_get_fd: "good s \<Longrightarrow> good (snd (vkGetMemoryFdKHR device info out mkstemp ftruncate dup s))"
proof -
  assume g: "good s"
  have "good s2" if "ensureHostBacking p s = (VK_SUCCESS, s1)" "backing_memory p mkstemp ftruncate s1 = (r, s2)" for p s1 s2 r
    using holds_backing [OF holds_host [OF that(1) g], of mkstemp ftruncate] that(2) by (simp add: holds_def)
  then show ?thesis using g good_host_backing [OF g]
    by (auto simp: vkGetMemoryFdKHR_def good_os split: option.split prod.split) (metis snd_conv)+
qed

section \<open>Allocating and freeing\<close>

lemma good_new_state: "new_state s = (r, s1) \<Longrightarrow> good s \<Longrightarrow> good s1"
  by (rule good_same [of s]) (auto simp: new_state_def split: list.splits option.splits if_splits)

lemma memory_ok_new: "n \<noteq> 0 \<Longrightarrow> memory_ok (new_memory\<lparr>mem_device := device, mem_size := n, mem_exportHandleTypes := types\<rparr>)"
  by (simp add: memory_ok_def new_memory_def)

lemma good_import_memory:
  assumes "good s" "memory_ok m" "mem_bytes m = []" "\<not> mapped m" "import_memory d fstat m s = (r, s1)"
  shows "good s1 \<and> (\<forall>m1. r = Some m1 \<longrightarrow> memory_ok m1)"
proof -
  have "good s1" using assms(1,5)
    by (auto simp: import_memory_def Let_def split: option.splits if_splits prod.splits intro: good_same [of s])
  moreover have "memory_ok m1" if "r = Some m1" for m1
    using assms(2-5) that
    by (auto simp: import_memory_def memory_ok_def Let_def split: option.splits if_splits prod.splits dest!: memory_pread_length)
  ultimately show ?thesis by blast
qed

lemma new_state_pointer: "new_state s = (Some p, s1) \<Longrightarrow> p \<noteq> 0"
  by (auto simp: new_state_def split: list.splits option.splits if_splits)

lemma good_allocate: "good s \<Longrightarrow> good (snd (vkAllocateMemory device info out fstat s))"
proof -
  assume g: "good s"
  let ?m = "\<lambda>i exported. new_memory\<lparr>mem_device := device, mem_size := allocationSize i, mem_exportHandleTypes := exported\<rparr>"
  have fresh: "good (put_memory p (?m i exported) s1)"
    if "new_state s = (Some p, s1)" "allocationSize i \<noteq> 0" for i p exported s1
    using good_put [OF good_new_state [OF that(1) g] new_state_pointer [OF that(1)] memory_ok_new [OF that(2)]] .
  have imported: "good s2 \<and> (\<forall>m1. r = Some m1 \<longrightarrow> good (put_memory p m1 s2))"
    if "new_state s = (Some p, s1)" "allocationSize i \<noteq> 0" "import_memory d fstat (?m i exported) s1 = (r, s2)"
    for i d exported p s1 r s2
    using good_import_memory [OF good_new_state [OF that(1) g] memory_ok_new [OF that(2)] _ _ that(3)] good_put new_state_pointer [OF that(1)]
    by (auto simp: new_memory_def)
  show ?thesis
    using g by (auto simp: vkAllocateMemory_def Let_def good_new_state [OF _ g] fresh dest: imported
      split: option.split prod.split)
qed

lemma good_release: "release_resource resource s = (r, s1) \<Longrightarrow> memories s1 = memories s \<and> vk_broken s1 = vk_broken s"
  by (auto simp: release_resource_def catching_def via_bridge_def ret_def split: if_splits option.splits prod.splits sum.splits exn.splits)

lemma good_free: "good s \<Longrightarrow> good (snd (vkFreeMemory p s))"
proof -
  assume g: "good s"
  let ?s = "s\<lparr>memories := (memories s)(p := None), buffers := erase_sparse p (buffers s)\<rparr>"
  have "good ?s" using g by (auto simp: good_def memories_ok_def)
  then have "good s1" if "release_resource r ?s = (x, s1)" for r x s1
    using good_same [of ?s] good_release [OF that] by blast
  then show ?thesis using g
    by (auto simp: vkFreeMemory_def andThen_def good_os split: option.split prod.split sum.split)
qed

section \<open>Transfers\<close>

text \<open>What the transfers of buffers do with memory objects: the invariant is kept, and so are the registered buffers.\<close>

definition tame :: "vk \<Rightarrow> vk \<Rightarrow> bool" where
  "tame s s' \<longleftrightarrow> good s \<longrightarrow> good s' \<and> buffers s' = buffers s"

lemma tame_refl [simp]: "tame s s"
  by (simp add: tame_def)

lemma tame_trans [trans]: "tame s s1 \<Longrightarrow> tame s1 s2 \<Longrightarrow> tame s s2"
  by (auto simp: tame_def)

lemma buffers_host: "ensureHostBacking p s = (r, s1) \<Longrightarrow> buffers s1 = buffers s"
  by (auto simp: ensureHostBacking_def split: option.splits if_splits)

lemma tame_host: "ensureHostBacking p s = (r, s1) \<Longrightarrow> tame s s1"
  using good_host_backing [of s p] buffers_host [of p s r s1] by (auto simp: tame_def)

lemma buffers_sync: "syncMemoryToExternalFD p offset sz s = (r, s1) \<Longrightarrow> buffers s1 = buffers s"
  by (auto simp: syncMemoryToExternalFD_def load_memory_def undefined_vk_def
    split: if_splits prod.splits option.splits dest!: buffers_host)

lemma buffers_refresh: "refreshMemoryFromExternalFD p offset sz s = (r, s1) \<Longrightarrow> buffers s1 = buffers s"
  by (auto simp: refreshMemoryFromExternalFD_def store_memory_def undefined_vk_def
    split: if_splits prod.splits option.splits dest!: buffers_host)

lemma buffers_change: "buffers (change_memory p f s) = buffers s" "buffers (store_memory p n bs s) = buffers s"
  "buffers (snd (load_memory p n k s)) = buffers s"
  by (simp_all add: change_memory_def store_memory_def load_memory_def undefined_vk_def split: option.split)

lemma tame_refresh_load:
  assumes "refreshMemoryFromExternalFD p offset sz s = (r, s1)" "load_memory p (unat offset) (unat sz) s1 = (bs, s2)"
    and "memories s p = Some m" "mem_bytes m \<noteq> []" "\<not> outside offset sz (mem_size m)"
  shows "tame s s1 \<and> tame s s2 \<and> (good s \<longrightarrow> length bs = unat sz)"
proof (cases "good s")
  case True
  from good_refresh [OF True assms(3,1)] assms(4) obtain m1 where m1: "good s1" "memories s1 p = Some m1"
    "\<exists>bs. m1 = m\<lparr>mem_bytes := bs\<rparr>" "mem_bytes m1 \<noteq> []" by auto
  have le: "unat offset + unat sz \<le> unat (mem_size m1)" using m1(3) assms(5) by (auto simp: outside_unat)
  have f: "filled s1 p m1" by (rule filled_here [OF m1(1,2,4)])
  then have "bs = slice_of (unat offset) (unat sz) (mem_bytes m1)" "s2 = s1"
    using good_load [OF f le] assms(2) by simp_all
  then show ?thesis using m1 f le buffers_refresh [OF assms(1)] by (auto simp: tame_def slice_of_def filled_def)
qed (simp add: tame_def)

lemma tame_write_stretch:
  assumes "write_stretch p destination bs s = (r, s1)"
    and "memories s p = Some m" "mem_bytes m \<noteq> []" "\<not> outside destination (word_of_nat (length bs)) (mem_size m)"
    and "length bs < 2 ^ 64"
  shows "tame s s1"
proof (cases "good s")
  case True
  let ?n = "word_of_nat (length bs) :: u64"
  have n: "unat ?n = length bs" using assms(5) by (simp add: unat_of_nat)
  let ?m = "m\<lparr>mem_bytes := splice (unat destination) bs (mem_bytes m)\<rparr>"
  let ?s1 = "store_memory p (unat destination) bs s"
  let ?s2 = "change_memory p (add_dirty destination (destination + ?n)) ?s1"
  have f: "filled s p m" by (rule filled_here [OF True assms(2,3)])
  have "unat destination + length bs \<le> unat (mem_size m)" using assms(4) n by (simp add: outside_unat)
  note st = good_store [OF True f this]
  have m1: "memories ?s1 p = Some ?m" using st by simp
  have d: "memory_ok (add_dirty destination (destination + ?n) ?m)"
    by (rule memory_ok_dirty) (use goodD [of ?s1 p ?m] st m1 assms(4) in auto)
  have s2: "good ?s2" by (rule good_change [of _ _ ?m]) (use st m1 d in simp_all)
  have m2: "memories ?s2 p = Some (add_dirty destination (destination + ?n) ?m)" using m1 by simp
  obtain r2 s3 where e: "syncMemoryToExternalFD p destination ?n ?s2 = (r2, s3)" by force
  have h: "holds p s3" by (rule holds_synced [OF e]) (use s2 m2 in \<open>simp add: holds_def\<close>)
  have b: "buffers s3 = buffers s" using buffers_sync [OF e] by (simp add: buffers_change)
  have "holds p (change_memory p (\<lambda>m. if mem_externalFD m \<ge> 0 then clean m else m) s3)"
    by (rule holds_change [OF h]) (simp add: memory_ok_clean)
  then show ?thesis using assms(1) e h b by (auto simp: write_stretch_def Let_def tame_def holds_def buffers_change split: if_splits)
qed (simp add: tame_def)

lemma host_filled:
  assumes "ensureHostBacking p s = (r, s1)" "memories s1 p = Some m" "good s"
  shows "r = VK_SUCCESS \<and> mem_bytes m \<noteq> []"
proof -
  have "memories s p \<noteq> None" using assms(1,2) by (cases "memories s p") (auto simp: ensureHostBacking_def)
  then have r: "r = VK_SUCCESS" using ensureHostBacking_result assms(1) by blast
  then show ?thesis using good_host [of s p s1] assms by auto
qed

lemma host_there: "ensureHostBacking p s = (VK_SUCCESS, s1) \<Longrightarrow> memories s1 p \<noteq> None"
  by (cases "memories s p") (auto simp: ensureHostBacking_def split: if_splits)

lemma tame_loaded:
  assumes "ensureHostBacking p s = (r1, s1)" "memories s1 p = Some m" "\<not> outside offset sz (mem_size m)"
    and "refreshMemoryFromExternalFD p offset sz s1 = (r2, s2)" "load_memory p (unat offset) (unat sz) s2 = (got, s3)"
  shows "tame s s2 \<and> tame s s3 \<and> (good s \<longrightarrow> length got = unat sz)"
proof (cases "good s")
  case True
  then have "mem_bytes m \<noteq> []" using host_filled [OF assms(1,2)] by blast
  from tame_refresh_load [OF assms(4,5,2) this assms(3)] show ?thesis using tame_host [OF assms(1)] True by (auto simp: tame_def)
qed (simp add: tame_def)

lemma tame_read_sparse:
  "read_sparse bindings base sz copied acc s = ((r, bs), s') \<Longrightarrow> length acc = unat sz \<Longrightarrow>
    tame s s' \<and> (good s \<longrightarrow> r = VK_SUCCESS \<longrightarrow> length bs = unat sz)"
proof (induction bindings base sz copied acc s rule: read_sparse.induct)
  case (1 bindings base sz copied acc s)
  note eq = "1.prems"(1) [unfolded read_sparse.simps [of bindings base sz copied acc s]]
  consider "\<not> copied < sz" | "copied < sz" "case find (covers (base + copied)) bindings of None \<Rightarrow> True | Some b \<Rightarrow> bindingMemory b = 0"
    | b where "copied < sz" "find (covers (base + copied)) bindings = Some b" "bindingMemory b \<noteq> 0"
    by (cases "find (covers (base + copied)) bindings") auto
  then show ?case
  proof cases
    case (3 b)
    let ?p = "bindingMemory b"
    let ?chunk = "chunk_of (sz - copied) (base + copied) b"
    let ?source = "bindingMemoryOffset b + (base + copied - resourceOffset b)"
    obtain r1 s1 where h: "ensureHostBacking ?p s = (r1, s1)" by force
    show ?thesis
    proof (cases "memories s1 ?p = None \<or> r1 \<noteq> VK_SUCCESS \<or> (\<exists>m. memories s1 ?p = Some m \<and> outside ?source ?chunk (mem_size m))")
      case True
      then show ?thesis using eq 3 h tame_host [OF h] host_there [of ?p s s1]
        by (auto simp: Let_def split: option.splits if_splits)
    next
      case False
      then obtain m where m: "memories s1 ?p = Some m" "r1 = VK_SUCCESS" "\<not> outside ?source ?chunk (mem_size m)" by auto
      obtain r2 s2 where f: "refreshMemoryFromExternalFD ?p ?source ?chunk s1 = (r2, s2)" by force
      obtain got s3 where l: "load_memory ?p (unat ?source) (unat ?chunk) s2 = (got, s3)" by force
      note t = tame_loaded [OF h m(1,3) f l]
      show ?thesis
      proof (cases "r2 = VK_SUCCESS")
        case True
        have cov: "covers (base + copied) b" using find_coversD [OF 3(2)] by simp
        note pr = chunk_of_progress [OF cov 3(1)]
        have rec: "read_sparse bindings base sz (copied + ?chunk) (splice (unat copied) got acc) s3 = ((r, bs), s')"
          using eq 3 h m f l True by (simp add: Let_def)
        show ?thesis
        proof (cases "good s")
          case g: True
          then have "length (splice (unat copied) got acc) = unat sz"
            using t pr(4) "1.prems"(2) by (simp add: length_splice)
          with "1.IH" [OF _ 3(2,3) refl refl h [symmetric] m(1) _ _ f [symmetric] _ l [symmetric]] 3 m True rec
          have "tame s3 s' \<and> (good s3 \<longrightarrow> r = VK_SUCCESS \<longrightarrow> length bs = unat sz)" by simp
          then show ?thesis using t g by (auto simp: tame_def)
        qed (simp add: tame_def)
      qed (use eq 3 h m f t in \<open>auto simp: Let_def tame_def\<close>)
    qed
  qed (use eq "1.prems"(2) in \<open>auto split: option.splits\<close>)
qed

lemma tame_copyDeviceAddressBytes:
  assumes "copyDeviceAddressBytes device address sz s = ((r, bs), s')"
  shows "tame s s' \<and> (good s \<longrightarrow> r = VK_SUCCESS \<longrightarrow> length bs = unat sz)"
proof (cases "bufferForDeviceAddress device address s")
  case None
  then show ?thesis using assms by (auto simp: copyDeviceAddressBytes_def)
next
  case (Some found)
  obtain p b where b: "bufferForDeviceAddress device address s = Some (p, b)" using Some by (cases found) simp
  let ?base = "address - deviceAddress b" and ?p = "buf_memory b"
  let ?offset = "buf_memoryOffset b + ?base"
  note eq = assms [unfolded copyDeviceAddressBytes_def b option.case prod.case Let_def]
  consider "sz = 0 \<or> outside ?base sz (buf_size b)" | "\<not> (sz = 0 \<or> outside ?base sz (buf_size b))" "?p = 0"
    | "\<not> (sz = 0 \<or> outside ?base sz (buf_size b))" "?p \<noteq> 0" by blast
  then show ?thesis
  proof cases
    case 2
    then show ?thesis using eq tame_read_sparse by simp
  next
    case 3
    obtain r1 s1 where h: "ensureHostBacking ?p s = (r1, s1)" by force
    show ?thesis
    proof (cases "memories s1 ?p")
      case None
      then show ?thesis using eq 3 h tame_host [OF h] host_there [of ?p s s1] by auto
    next
      case (Some m)
      obtain r2 s2 where f: "refreshMemoryFromExternalFD ?p ?offset sz s1 = (r2, s2)" by force
      obtain got s3 where l: "load_memory ?p (unat ?offset) (unat sz) s2 = (got, s3)" by force
      show ?thesis
      proof (cases "outside ?offset sz (mem_size m)")
        case True
        then show ?thesis using eq 3 h Some tame_host [OF h] by (auto split: if_splits)
      next
        case False
        then show ?thesis using eq 3 h Some tame_host [OF h] f l tame_loaded [OF h Some False f l] by (auto split: if_splits)
      qed
    qed
  qed (use eq in auto)
qed

lemma tame_written:
  assumes "ensureHostBacking p s = (r1, s1)" "memories s1 p = Some m" "write_stretch p destination bs s1 = (r2, s2)"
    and "\<not> outside destination (word_of_nat (length bs)) (mem_size m)" "length bs < 2 ^ 64"
  shows "tame s s2"
proof (cases "good s")
  case True
  then have "mem_bytes m \<noteq> []" using host_filled [OF assms(1,2)] by blast
  from tame_write_stretch [OF assms(3,2) this assms(4,5)] show ?thesis using tame_host [OF assms(1)] by (rule tame_trans [rotated])
qed (simp add: tame_def)

lemma tame_write_sparse:
  "write_sparse bindings base sz written source s = (r, s') \<Longrightarrow> length source = unat sz \<Longrightarrow> tame s s'"
proof (induction bindings base sz written source s rule: write_sparse.induct)
  case (1 bindings base sz written source s)
  note eq = "1.prems"(1) [unfolded write_sparse.simps [of bindings base sz written source s]]
  consider "\<not> written < sz" | "written < sz" "case find (covers (base + written)) bindings of None \<Rightarrow> True | Some b \<Rightarrow> bindingMemory b = 0"
    | b where "written < sz" "find (covers (base + written)) bindings = Some b" "bindingMemory b \<noteq> 0"
    by (cases "find (covers (base + written)) bindings") auto
  then show ?case
  proof cases
    case (3 b)
    let ?p = "bindingMemory b"
    let ?chunk = "chunk_of (sz - written) (base + written) b"
    let ?destination = "bindingMemoryOffset b + (base + written - resourceOffset b)"
    let ?bs = "slice_of (unat written) (unat ?chunk) source"
    obtain r1 s1 where h: "ensureHostBacking ?p s = (r1, s1)" by force
    show ?thesis
    proof (cases "memories s1 ?p = None \<or> r1 \<noteq> VK_SUCCESS \<or> (\<exists>m. memories s1 ?p = Some m \<and> outside ?destination ?chunk (mem_size m))")
      case True
      then show ?thesis using eq 3 h tame_host [OF h] by (auto simp: Let_def split: option.splits if_splits)
    next
      case False
      then obtain m where m: "memories s1 ?p = Some m" "r1 = VK_SUCCESS" "\<not> outside ?destination ?chunk (mem_size m)" by auto
      obtain r2 s2 where w: "write_stretch ?p ?destination ?bs s1 = (r2, s2)" by force
      have cov: "covers (base + written) b" using find_coversD [OF 3(2)] by simp
      have l: "length ?bs = unat ?chunk" using chunk_of_progress(4) [OF cov 3(1)] "1.prems"(2) by (simp add: slice_of_def)
      have t: "tame s s2" by (rule tame_written [OF h m(1) w]) (use m(3) l u64_unat_less in simp_all)
      show ?thesis
      proof (cases "r2 = VK_SUCCESS")
        case True
        have rec: "write_sparse bindings base sz (written + ?chunk) source s2 = (r, s')"
          using eq 3 h m w True by (simp add: Let_def)
        from "1.IH" [OF _ 3(2,3) refl refl h [symmetric] m(1) _ _ w [symmetric] _ rec "1.prems"(2)] 3 m True
        have "tame s2 s'" by simp
        then show ?thesis by (rule tame_trans [OF t])
      qed (use eq 3 h m w t in \<open>auto simp: Let_def\<close>)
    qed
  qed (use eq in \<open>auto split: option.splits\<close>)
qed

lemma tame_writeBufferBytes: "map_of (buffers s) p \<noteq> None \<Longrightarrow> writeBufferBytes p base source s = (r, s') \<Longrightarrow> length source < 2 ^ 64 \<Longrightarrow> tame s s'"
proof -
  assume reg: "map_of (buffers s) p \<noteq> None" and e: "writeBufferBytes p base source s = (r, s')" and len: "length source < 2 ^ 64"
  obtain b where b: "map_of (buffers s) p = Some b" using reg by blast
  let ?sz = "word_of_nat (length source) :: u64" and ?p = "buf_memory b"
  have n: "unat ?sz = length source" using len by (simp add: unat_of_nat)
  note eq = e [unfolded writeBufferBytes_def b option.case Let_def]
  consider "p = 0 \<or> ?sz = 0 \<or> outside base ?sz (buf_size b)" | "p \<noteq> 0" "\<not> (?sz = 0 \<or> outside base ?sz (buf_size b))" "?p = 0"
    | "p \<noteq> 0" "\<not> (?sz = 0 \<or> outside base ?sz (buf_size b))" "?p \<noteq> 0" by blast
  then show ?thesis
  proof cases
    case 2
    then show ?thesis using eq tame_write_sparse n by simp
  next
    case 3
    obtain r1 s1 where h: "ensureHostBacking ?p s = (r1, s1)" by force
    show ?thesis
    proof (cases "memories s1 ?p")
      case None
      then show ?thesis using eq 3 h tame_host [OF h] by auto
    next
      case (Some m)
      obtain r2 s2 where w: "write_stretch ?p (buf_memoryOffset b + base) source s1 = (r2, s2)" by force
      show ?thesis
      proof (cases "outside (buf_memoryOffset b) base (mem_size m) \<or> ?sz > mem_size m - (buf_memoryOffset b + base)")
        case True
        then show ?thesis using eq 3 h Some tame_host [OF h] by (auto split: if_splits)
      next
        case False
        have "unat (buf_memoryOffset b + base) \<le> unat (mem_size m)"
          using False unat_add_le [of "buf_memoryOffset b" base] by (simp add: outside_unat)
        then have "\<not> outside (buf_memoryOffset b + base) ?sz (mem_size m)"
          using False by (simp add: outside_def word_le_nat_alt not_less)
        then show ?thesis using eq 3 h Some False w tame_host [OF h] tame_written [OF h Some w _ len] by (auto split: if_splits)
      qed
    qed
  qed (use eq in \<open>auto split: if_splits\<close>)
qed

lemma tame_copyBufferBytes:
  assumes "map_of (buffers s) source \<noteq> None" "map_of (buffers s) destination \<noteq> None"
    and "copyBufferBytes source destination region s = (r, s')"
  shows "tame s s'"
proof -
  obtain a b where ab: "map_of (buffers s) source = Some a" "map_of (buffers s) destination = Some b" using assms by blast
  obtain r1 bs s1 where c: "copyDeviceAddressBytes (buf_device a) (deviceAddress a + srcOffset region) (copySize region) s = ((r1, bs), s1)"
    by (metis prod.collapse)
  note t = tame_copyDeviceAddressBytes [OF c]
  have "tame s s'" if "good s" "r1 = VK_SUCCESS" "writeBufferBytes destination (dstOffset region) bs s1 = (r, s')"
  proof -
    have "map_of (buffers s1) destination \<noteq> None" using t that(1) ab by (simp add: tame_def)
    from tame_writeBufferBytes [OF this that(3)] t that u64_unat_less [of "copySize region"] show ?thesis
      using tame_trans by auto
  qed
  then show ?thesis using assms(3) ab c t
    by (cases "good s") (auto simp: copyBufferBytes_def tame_def split: if_splits)
qed

lemma tame_fill_loop:
  "fill_loop destination offset sz pattern written s = (r, s') \<Longrightarrow> map_of (buffers s) destination \<noteq> None \<Longrightarrow> tame s s'"
proof (induction destination offset sz pattern written s rule: fill_loop.induct)
  case (1 destination offset sz pattern written s)
  note eq = "1.prems"(1) [unfolded fill_loop.simps [of destination offset sz pattern written s]]
  show ?case
  proof (cases "written < sz \<and> good s")
    case True
    let ?chunk = "min 4096 (sz - written)"
    obtain r1 s1 where w: "writeBufferBytes destination (offset + written) (take (unat ?chunk) pattern) s = (r1, s1)" by force
    have "length (take (unat ?chunk) pattern) < 2 ^ 64" using u64_unat_less [of ?chunk] by (simp add: min_def)
    then have t: "tame s s1" using tame_writeBufferBytes [OF "1.prems"(2) w] by blast
    show ?thesis
    proof (cases "r1 = VK_SUCCESS")
      case r: True
      have "map_of (buffers s1) destination \<noteq> None" using t True "1.prems"(2) by (simp add: tame_def)
      with "1.IH" [OF _ refl w [symmetric]] eq True r w have "tame s1 s'" by (simp add: Let_def)
      then show ?thesis by (rule tame_trans [OF t])
    qed (use eq True w t in \<open>simp add: Let_def\<close>)
  qed (use eq in \<open>auto simp: tame_def\<close>)
qed

section \<open>Any sequence of calls\<close>

datatype memory_call = Allocate ptr "VkMemoryAllocateInfo option" bool "int option" | Free ptr
  | GetFd ptr "VkMemoryGetFdInfoKHR option" bool "(fd \<times> nat) option" bool "fd option"
  | MapMemory ptr u64 u64 bool | Unmap ptr | Flush "(ptr \<times> u64 \<times> u64) list" bool | Invalidate "(ptr \<times> u64 \<times> u64) list" bool
  | Store ptr u64 bytes | CopyBytes ptr ptr VkBufferCopy | WriteBytes ptr u64 bytes | Fill RecordedBufferFill

text \<open>A store of the application goes through the pointer that \<^verbatim>\<open>vkMapMemory\<close> has returned.\<close>

primrec memory_step :: "memory_call \<Rightarrow> vk \<Rightarrow> vk" where
  "memory_step (Allocate device info out fstat) s = snd (vkAllocateMemory device info out fstat s)"
| "memory_step (Free p) s = snd (vkFreeMemory p s)"
| "memory_step (GetFd device info out mkstemp ftruncate dup) s = snd (vkGetMemoryFdKHR device info out mkstemp ftruncate dup s)"
| "memory_step (MapMemory p offset sz out) s = snd (vkMapMemory p offset sz out s)"
| "memory_step (Unmap p) s = vkUnmapMemory p s"
| "memory_step (Flush ranges given) s = snd (vkFlushMappedMemoryRanges ranges given s)"
| "memory_step (Invalidate ranges given) s = snd (vkInvalidateMappedMemoryRanges ranges given s)"
| "memory_step (Store p offset bs) s = store_memory p (unat offset) bs s"
| "memory_step (CopyBytes source destination region) s = snd (copyBufferBytes source destination region s)"
| "memory_step (WriteBytes buffer offset bs) s = snd (writeBufferBytes buffer offset bs s)"
| "memory_step (Fill bf) s = snd (executeBufferFill bf s)"

text \<open>What the application has to keep to: stores go inside the mapped range, and the buffers of a command exist.\<close>

fun legal :: "vk \<Rightarrow> memory_call \<Rightarrow> bool" where
  "legal s (Store p offset bs) = (case memories s p of None \<Rightarrow> False
     | Some m \<Rightarrow> mapped m \<and> mappedOffset m \<le> offset
         \<and> unat offset + length bs \<le> unat (mappedOffset m) + unat (mappedSize m))"
| "legal s (CopyBytes source destination region) =
     (map_of (buffers s) source \<noteq> None \<and> map_of (buffers s) destination \<noteq> None)"
| "legal s (WriteBytes buffer offset bs) = (map_of (buffers s) buffer \<noteq> None \<and> length bs \<le> 65536)"
| "legal s (Fill bf) = (map_of (buffers s) (bf_destination bf) \<noteq> None)"
| "legal s call = True"

text \<open>States that the calls reach. Calls of other parts of the driver may change the rest of the state in between.\<close>

inductive memory_reachable :: "vk \<Rightarrow> bool" where
  start: "memory_reachable (vk_init process io allocator connection)"
| step: "memory_reachable s \<Longrightarrow> legal s call \<Longrightarrow> memory_reachable (memory_step call s)"
| other: "memory_reachable s \<Longrightarrow> memories s' = memories s \<Longrightarrow> vk_broken s' = vk_broken s \<Longrightarrow> memory_reachable s'"

lemma good_store_mapped:
  assumes "good s" "legal s (Store p offset bs)"
  shows "good (store_memory p (unat offset) bs s)"
proof -
  obtain m where m: "memories s p = Some m" "mapped m" "unat offset + length bs \<le> unat (mappedOffset m) + unat (mappedSize m)"
    using assms(2) by (auto split: option.splits)
  then have "mem_bytes m \<noteq> []" "unat (mappedOffset m) + unat (mappedSize m) \<le> unat (mem_size m)"
    using goodD [OF assms(1) m(1)] by (auto simp: memory_ok_def outside_unat)
  then show ?thesis using good_store [OF assms(1) filled_here [OF assms(1) m(1)]] m(3) by simp
qed

lemma tame_good: "good s \<Longrightarrow> (\<And>r s'. f = (r, s') \<Longrightarrow> tame s s') \<Longrightarrow> good (snd f)"
  by (cases f) (auto simp: tame_def)

lemma tame_fill: "map_of (buffers s) (bf_destination bf) \<noteq> None \<Longrightarrow> executeBufferFill bf s = (r, s') \<Longrightarrow> tame s s'"
  by (auto simp: executeBufferFill_def split: if_splits dest: tame_fill_loop)

lemma good_step: "good s \<Longrightarrow> legal s call \<Longrightarrow> good (memory_step call s)"
proof (cases call)
  case (CopyBytes source destination region)
  assume "good s" "legal s call"
  then show ?thesis using CopyBytes tame_copyBufferBytes [of s source destination region] by (auto intro!: tame_good)
next
  case (WriteBytes buffer offset bs)
  assume "good s" "legal s call"
  then show ?thesis using WriteBytes tame_writeBufferBytes [of s buffer offset bs] by (auto intro!: tame_good)
next
  case (Fill bf)
  assume "good s" "legal s call"
  then show ?thesis using Fill tame_fill [of s bf] by (auto intro!: tame_good)
qed (auto simp: good_allocate good_free good_get_fd good_map good_unmap vkFlushMappedMemoryRanges_def good_flush_ranges
  vkInvalidateMappedMemoryRanges_def good_invalidate_ranges good_store_mapped simp del: legal.simps(1))

lemma good_start: "good (vk_init process io allocator connection)"
  by (simp add: good_def memories_ok_def vk_init_def)

lemma reachable_good: "memory_reachable s \<Longrightarrow> good s"
  by (induction rule: memory_reachable.induct) (auto intro: good_start good_step good_same)

lemma reachable_steps:
  "memory_reachable s \<Longrightarrow> (\<And>i. i < length calls \<Longrightarrow> legal (fold memory_step (take i calls) s) (calls ! i)) \<Longrightarrow>
    memory_reachable (fold memory_step calls s)"
proof (induction calls arbitrary: s)
  case (Cons call calls)
  have "memory_reachable (memory_step call s)" using Cons.prems(1) Cons.prems(2) [of 0] by (simp add: step)
  moreover have "legal (fold memory_step (take i calls) (memory_step call s)) (calls ! i)" if "i < length calls" for i
    using Cons.prems(2) [of "Suc i"] that by simp
  ultimately show ?case using Cons.IH by simp
qed simp

text \<open>C15: As long as the application stores only through mapped ranges and the buffers of the transfers exist, no
  sequence of allocations, exports, mappings, flushes, invalidations, copies, updates, fills and frees touches bytes
  outside a memory object or follows a pointer to freed memory, whatever the kernel answers; the bytes of every memory
  object are none or as many as its size, and its mapped range lies inside.\<close>

theorem memory_calls_safe:
  assumes "memory_reachable s"
  shows "\<not> vk_broken s \<and> (\<forall>p m. memories s p = Some m \<longrightarrow> mem_size m \<noteq> 0
      \<and> (mem_bytes m = [] \<or> length (mem_bytes m) = unat (mem_size m))
      \<and> (mapped m \<longleftrightarrow> mapReferenceCount m \<noteq> 0)
      \<and> (mapped m \<longrightarrow> mem_bytes m \<noteq> [] \<and> unat (mappedOffset m) + unat (mappedSize m) \<le> unat (mem_size m))
      \<and> (is_dirty m \<longrightarrow> dirtyEnd m \<le> mem_size m))"
  using reachable_good [OF assms] by (auto simp: good_def memories_ok_def memory_ok_def outside_unat is_dirty_def)

text \<open>A run: eight bytes are allocated, four of them mapped and stored to.\<close>

definition memory_example_start :: vk where
  "memory_example_start = (vk_init (cuda_init [] Map.empty) [] [Some 7]
     (Some ((bridge_init \<lparr>sent = [], writes = [], reads = []\<rparr>)
       \<lparr>capabilities := \<lparr>cap_bits = 0, maxBufferLength = 64, deviceName = []\<rparr>\<rparr>)))\<lparr>devices := [(1, [])]\<rparr>"

definition memory_example_calls :: "memory_call list" where
  "memory_example_calls = [Allocate 1 (Some \<lparr>allocationSize = 8, memoryTypeIndex = 0, allocateNext = []\<rparr>) True None,
     MapMemory 7 2 4 True, Store 7 3 [1, 2, 3]]"

lemma eight_zeros: "replicate 8 (0 :: u8) = [0, 0, 0, 0, 0, 0, 0, 0]"
  by (simp add: numeral_eq_Suc)

lemma memory_example_run:
  "memories (memory_step (memory_example_calls ! 0) memory_example_start) 7 =
     Some (new_memory\<lparr>mem_device := 1, mem_size := 8\<rparr>)"
  "memories (fold memory_step (take 2 memory_example_calls) memory_example_start) 7 =
     Some (new_memory\<lparr>mem_device := 1, mem_size := 8, mem_bytes := replicate 8 0, mapped := True, mappedOffset := 2,
       mappedSize := 4, mapReferenceCount := 1, dirtyOffset := 2, dirtyEnd := 6\<rparr>)"
  "memories (fold memory_step memory_example_calls memory_example_start) 7 =
     Some (new_memory\<lparr>mem_device := 1, mem_size := 8, mem_bytes := [0, 0, 0, 1, 2, 3, 0, 0], mapped := True,
       mappedOffset := 2, mappedSize := 4, mapReferenceCount := 1, dirtyOffset := 2, dirtyEnd := 6\<rparr>)"
  by (simp_all add: memory_example_calls_def memory_example_start_def vk_init_def vkAllocateMemory_def validVkDevice_def
    map_contains_def new_state_def live_def new_memory_def vkMapMemory_def mapRangeSize_def ensureHostBacking_def
    change_memory_def add_dirty_def put_memory_def store_memory_def splice_def eight_zeros)

lemma memory_example_reachable: "memory_reachable (fold memory_step memory_example_calls memory_example_start)"
proof (rule reachable_steps)
  show "memory_reachable memory_example_start"
    unfolding memory_example_start_def by (rule other [OF start]) simp_all
  fix i assume "i < length memory_example_calls"
  then have "i = 0 \<or> i = 1 \<or> i = 2" by (auto simp: memory_example_calls_def)
  then show "legal (fold memory_step (take i memory_example_calls) memory_example_start) (memory_example_calls ! i)"
    using memory_example_run(2) by (elim disjE) (simp_all add: memory_example_calls_def new_memory_def)
qed

theorem memory_calls_safe_witness:
  "let s = fold memory_step memory_example_calls memory_example_start in \<not> vk_broken s
     \<and> (\<exists>m. memories s 7 = Some m \<and> mapped m \<and> mem_bytes m = [0, 0, 0, 1, 2, 3, 0, 0])"
  using memory_calls_safe [OF memory_example_reachable] memory_example_run(3) by (simp add: Let_def)

end
