(* ===== verification/VkShader.thy ===== *)
theory VkShader
  imports VkState
begin

text \<open>
  What the Vulkan driver reads in SPIR-V modules: \<^verbatim>\<open>shaderHash\<close>, \<^verbatim>\<open>spirvUsesFloat64Matrix\<close> and the
  list of the validated shaders. A module is a list of words: five words of header, then instructions, whose first word
  holds the number of words in its upper half and the opcode in its lower half.
\<close>

section \<open>Hashing\<close>

definition shader_hash_step :: "u8 \<Rightarrow> u64 \<Rightarrow> u64" where
  "shader_hash_step b h = (h XOR ucast b) * 1099511628211"

definition shaderHash :: "u32 list \<Rightarrow> nat \<Rightarrow> u64" where
  "shaderHash code byteCount = fold shader_hash_step (take byteCount (concat (map le_bytes code))) 1469598103934665603"

text \<open>The shaders whose results on the device have been checked.\<close>

definition validatedSoftwareFloat64MatrixShader :: "u64 \<Rightarrow> bool" where
  "validatedSoftwareFloat64MatrixShader hash \<longleftrightarrow> hash \<in> set
     [0xf5dd5704d7491f17, 0x64d94f5901ee0e4f, 0x75cdce75f76c7184, 0x0a553b2a8825d0ff, 0xd1b78c3914cb1874,
      0x75321ea922defdfc, 0x361fde9aceebb12b, 0x2eb5c9558c6d3e5a, 0x610a7b9aed9f7b98, 0xb258118a36125408,
      0xc93eebdfc4dd964b, 0xbdd2d21d53978c2e, 0xd38fa4ca78558061, 0xf72cb1589be7be96]"

section \<open>Types of a module\<close>

abbreviation (input) kOpTypeFloat :: "16 word" where "kOpTypeFloat \<equiv> 22"
abbreviation (input) kOpTypeVector :: "16 word" where "kOpTypeVector \<equiv> 23"
abbreviation (input) kOpTypeMatrix :: "16 word" where "kOpTypeMatrix \<equiv> 24"

definition instructionWords :: "u32 \<Rightarrow> 16 word" where
  "instructionWords w = ucast (drop_bit 16 w)"

definition opcode_of :: "u32 \<Rightarrow> 16 word" where
  "opcode_of w = ucast (w AND 0xffff)"

text \<open>The loop over the instructions from a word on: the results of those of one opcode whose third word is accepted.\<close>

function collect_types :: "16 word \<Rightarrow> (u32 \<Rightarrow> bool) \<Rightarrow> u32 list \<Rightarrow> nat \<Rightarrow> u32 list" where
  "collect_types wanted accepted code offset =
    (if \<not> offset < length code then []
     else (let n = unat (instructionWords (code ! offset)) in
       if n = 0 \<or> n > length code - offset then []
       else (if opcode_of (code ! offset) = wanted \<and> n \<ge> 3 \<and> accepted (code ! (offset + 2))
             then [code ! (offset + 1)] else [])
         @ collect_types wanted accepted code (offset + n)))"
  by pat_completeness auto
termination
  by (relation "measure (\<lambda>(_, _, code, offset). length code - offset)") auto

declare collect_types.simps [simp del]

definition collectResultTypes :: "u32 list \<Rightarrow> 16 word \<Rightarrow> u32 list option \<Rightarrow> u32 list" where
  "collectResultTypes code wanted referencedTypes =
     collect_types wanted (\<lambda>t. case referencedTypes of None \<Rightarrow> True | Some ts \<Rightarrow> t \<in> set ts) code 5"

definition float64Types :: "u32 list \<Rightarrow> u32 list" where
  "float64Types code = collect_types kOpTypeFloat (\<lambda>width. width = 64) code 5"

text \<open>\<open>words\<close> is \<open>None\<close> for a null pointer.\<close>

definition spirvUsesFloat64Matrix :: "u32 list option \<Rightarrow> nat \<Rightarrow> bool" where
  "spirvUsesFloat64Matrix words byteCount =
    (case words of
       None \<Rightarrow> False
     | Some ws \<Rightarrow>
       (let code = take (byteCount div 4) ws in
        if length code < 5 then False
        else if float64Types code = [] then False
        else (let vectors = collectResultTypes code kOpTypeVector (Some (float64Types code)) in
          if vectors = [] then False else collectResultTypes code kOpTypeMatrix (Some vectors) \<noteq> [])))"

section \<open>What the scan finds\<close>

text \<open>The reference: a module as a list of instructions, each with its opcode and its operands.\<close>

type_synonym instruction = "16 word \<times> u32 list"

definition encode_instruction :: "instruction \<Rightarrow> u32 list" where
  "encode_instruction i = (push_bit 16 (word_of_nat (Suc (length (snd i)))) OR ucast (fst i)) # snd i"

definition encode_module :: "u32 list \<Rightarrow> instruction list \<Rightarrow> u32 list" where
  "encode_module header is = header @ concat (map encode_instruction is)"

definition declares :: "16 word \<Rightarrow> instruction list \<Rightarrow> u32 \<Rightarrow> u32 \<Rightarrow> bool" where
  "declares opcode is result operand \<longleftrightarrow> (\<exists>rest. (opcode, result # operand # rest) \<in> set is)"

definition declares_float64_matrix :: "instruction list \<Rightarrow> bool" where
  "declares_float64_matrix is \<longleftrightarrow> (\<exists>scalar column matrix.
     declares kOpTypeFloat is scalar 64 \<and> declares kOpTypeVector is column scalar \<and> declares kOpTypeMatrix is matrix column)"

lemma low_half: "(0xffff :: u32) = mask 16"
  by (simp add: mask_eq_exp_minus_1)

lemma encode_first:
  assumes "length (snd i) < 65535"
  shows "unat (instructionWords (hd (encode_instruction i))) = Suc (length (snd i))"
    and "opcode_of (hd (encode_instruction i)) = fst i"
proof -
  let ?n = "Suc (length (snd i))"
  let ?w = "push_bit 16 (word_of_nat ?n) OR ucast (fst i) :: u32"
  have n: "unat (word_of_nat ?n :: u32) = ?n" using assms by (simp add: unat_of_nat del: of_nat_Suc)
  have up: "drop_bit 16 ?w = (word_of_nat ?n :: u32)"
  proof (rule bit_word_eqI)
    fix k assume k: "k < LENGTH(32)"
    have "\<not> bit (word_of_nat ?n :: u32) k" if "k \<ge> 16"
    proof -
      have "?n < 2 ^ k" using assms that power_increasing [of 16 k "2 :: nat"] by simp
      then have "\<not> bit ?n k" by (simp add: bit_iff_odd)
      then show ?thesis by (simp add: bit_of_nat_iff del: of_nat_Suc)
    qed
    then show "bit (drop_bit 16 ?w) k \<longleftrightarrow> bit (word_of_nat ?n :: u32) k"
      using k by (cases "k < 16") (auto simp: bit_simps not_less dest: bit_imp_le_length simp del: of_nat_Suc)
  qed
  show "unat (instructionWords (hd (encode_instruction i))) = ?n"
    using n up assms by (simp add: instructionWords_def encode_instruction_def unsigned_ucast_eq take_bit_nat_eq_self del: of_nat_Suc)
  show "opcode_of (hd (encode_instruction i)) = fst i"
    by (rule bit_word_eqI) (auto simp: opcode_of_def low_half encode_instruction_def bit_simps)
qed

text \<open>The results that the scan collects, as a list comprehension over the instructions.\<close>

definition collected :: "16 word \<Rightarrow> (u32 \<Rightarrow> bool) \<Rightarrow> instruction list \<Rightarrow> u32 list" where
  "collected wanted accepted is =
     [snd i ! 0. i \<leftarrow> is, fst i = wanted \<and> length (snd i) \<ge> 2 \<and> accepted (snd i ! 1)]"

lemma length_encoded: "length (encode_instruction i) = Suc (length (snd i))"
  by (simp add: encode_instruction_def)

lemma collect_types_encoded:
  assumes "list_all (\<lambda>i. length (snd i) < 65535) is"
  shows "collect_types wanted accepted (pre @ concat (map encode_instruction is)) (length pre) = collected wanted accepted is"
  using assms
proof (induction "is" arbitrary: pre)
  case Nil
  then show ?case by (subst collect_types.simps) (simp add: collected_def)
next
  case (Cons i "is")
  let ?code = "pre @ concat (map encode_instruction (i # is))"
  have first: "?code ! length pre = hd (encode_instruction i)"
    "\<And>k. k < length (snd i) \<Longrightarrow> ?code ! Suc (length pre + k) = snd i ! k"
    by (simp_all add: encode_instruction_def nth_append)
  have n: "unat (instructionWords (?code ! length pre)) = Suc (length (snd i))" "opcode_of (?code ! length pre) = fst i"
    unfolding first using encode_first [of i] Cons.prems by simp_all
  have rest: "collect_types wanted accepted ?code (length pre + Suc (length (snd i))) = collected wanted accepted is"
    using Cons.IH [of "pre @ encode_instruction i"] Cons.prems by (simp add: length_encoded)
  have len: "length ?code - length pre \<ge> Suc (length (snd i))" "length pre < length ?code"
    by (simp_all add: length_encoded)
  have "collect_types wanted accepted ?code (length pre) =
      (if fst i = wanted \<and> Suc (length (snd i)) \<ge> 3 \<and> accepted (?code ! (length pre + 2)) then [?code ! (length pre + 1)] else [])
        @ collected wanted accepted is"
    unfolding collect_types.simps [of wanted accepted ?code "length pre"] n Let_def using len rest by simp
  moreover have "2 \<le> length (snd i) \<Longrightarrow> snd i \<noteq> []" by auto
  ultimately show ?case using first(2) [of 0] first(2) [of 1] by (auto simp: collected_def)
qed

lemma collected_Nil: "collected wanted accepted is = [] \<longleftrightarrow> (\<forall>result. result \<notin> set (collected wanted accepted is))"
  by (cases "collected wanted accepted is") auto

lemma set_collected:
  "result \<in> set (collected wanted accepted is) \<longleftrightarrow> (\<exists>operand rest. (wanted, result # operand # rest) \<in> set is \<and> accepted operand)"
proof
  assume "result \<in> set (collected wanted accepted is)"
  then obtain ops where o: "(wanted, ops) \<in> set is" "length ops \<ge> 2" "accepted (ops ! 1)" "result = ops ! 0"
    by (auto simp: collected_def split: if_splits)
  then have "ops = result # ops ! 1 # drop 2 ops" by (cases ops; cases "tl ops") auto
  then show "\<exists>operand rest. (wanted, result # operand # rest) \<in> set is \<and> accepted operand" using o by metis
next
  assume "\<exists>operand rest. (wanted, result # operand # rest) \<in> set is \<and> accepted operand"
  then obtain operand rest where "(wanted, result # operand # rest) \<in> set is" "accepted operand" by blast
  then show "result \<in> set (collected wanted accepted is)"
    by (force simp: collected_def intro!: bexI [of _ "(wanted, result # operand # rest)"])
qed

text \<open>C21: On a module of a header of five words and any instructions, the scan finds a matrix of 64-bit floating point numbers
  exactly if the module declares one: a matrix type whose columns are vectors of a 64-bit floating point type. It does not
  depend on the order of the declarations or on other instructions.\<close>

lemma float64_matrix_found:
  assumes "length header = 5" "list_all (\<lambda>i. length (snd i) < 65535) is"
  shows "spirvUsesFloat64Matrix (Some (encode_module header is)) (4 * length (encode_module header is))
    \<longleftrightarrow> declares_float64_matrix is"
proof -
  have c: "collect_types wanted accepted (encode_module header is) 5 = collected wanted accepted is" for wanted accepted
    using collect_types_encoded [OF assms(2), of wanted accepted header] assms(1) by (simp add: encode_module_def)
  have len: "5 \<le> length (encode_module header is)" using assms(1) by (simp add: encode_module_def)
  let ?f = "collected kOpTypeFloat (\<lambda>width. width = 64) is"
  let ?v = "collected kOpTypeVector (\<lambda>t. t \<in> set ?f) is"
  have "spirvUsesFloat64Matrix (Some (encode_module header is)) (4 * length (encode_module header is))
      \<longleftrightarrow> ?f \<noteq> [] \<and> ?v \<noteq> [] \<and> collected kOpTypeMatrix (\<lambda>t. t \<in> set ?v) is \<noteq> []"
    using len by (simp add: spirvUsesFloat64Matrix_def float64Types_def collectResultTypes_def c Let_def not_less)
  also have "\<dots> \<longleftrightarrow> declares_float64_matrix is"
    unfolding collected_Nil set_collected declares_float64_matrix_def declares_def by auto
  finally show ?thesis .
qed

lemma float64_matrix_found_witness:
  "spirvUsesFloat64Matrix (Some (encode_module [0x07230203, 0, 0, 9, 0] [(24, [3, 2, 4]), (22, [1, 64]), (23, [2, 1, 4])])) 64"
  using float64_matrix_found [of "[0x07230203, 0, 0, 9, 0]" "[(24, [3, 2, 4]), (22, [1, 64]), (23, [2, 1, 4])]"]
  by (force simp: encode_module_def encode_instruction_def declares_float64_matrix_def declares_def)

end
