(* ===== verification/VkDescriptor.thy ===== *)
theory VkDescriptor
  imports VkShader VkImageCopy
begin

text \<open>
  Shader modules, views, samplers, render passes, framebuffers, layouts and pipelines: \<^verbatim>\<open>imb_vkCreateShaderModule\<close>
  to \<^verbatim>\<open>imb_vkDestroyPipeline\<close>. A null array with a count is \<open>None\<close>; an array has as many elements as its count says.
  The second result of a call that creates an object is what it stores through its last argument. The environment is a
  map from names to values.
\<close>

type_synonym environment = "string \<Rightarrow> string option"

definition enabled :: "environment \<Rightarrow> string \<Rightarrow> bool" where
  "enabled env name = (case env name of None \<Rightarrow> False | Some v \<Rightarrow> v \<noteq> ''0'')"

definition spirvComputeBridgeEnabled :: "environment \<Rightarrow> bool" where
  "spirvComputeBridgeEnabled env = enabled env ''IMB_VULKAN_SPIRV_COMPUTE''"

definition genericComputeBridgeEnabled :: "environment \<Rightarrow> bool" where
  "genericComputeBridgeEnabled env = enabled env ''IMB_VULKAN_GENERIC_COMPUTE''"

definition float64MatrixExecutionEnabled :: "environment \<Rightarrow> bool" where
  "float64MatrixExecutionEnabled env = enabled env ''IMB_VULKAN_FP64_MATRIX_EXECUTION''"

text \<open>\<^verbatim>\<open>new\<close>, and the object in its registry.\<close>

definition register_new :: "(ptr \<Rightarrow> vk \<Rightarrow> vk) \<Rightarrow> vk \<Rightarrow> (VkResult \<times> ptr option) \<times> vk" where
  "register_new insert_object s =
    (case new_state s of
       (None, s1) \<Rightarrow> ((VK_ERROR_OUT_OF_HOST_MEMORY, None), s1)
     | (Some p, s1) \<Rightarrow> ((VK_SUCCESS, Some p), insert_object p s1))"

section \<open>Shader modules\<close>

text \<open>The modules that the driver knows, built into it; the code has as many words as fit into its size.\<close>

record known_modules =
  imb_add_u32_spv :: bytes
  imb_triangle_vert_spv :: bytes
  imb_triangle_frag_spv :: bytes

definition same_module :: "u32 list \<Rightarrow> nat \<Rightarrow> bytes \<Rightarrow> bool" where
  "same_module code codeSize known \<longleftrightarrow> codeSize = length known \<and> take codeSize (concat (map le_bytes code)) = known"

definition vkCreateShaderModule ::
  "known_modules \<Rightarrow> ptr \<Rightarrow> (nat \<times> u32 list option) option \<Rightarrow> bool \<Rightarrow> vk \<Rightarrow> (VkResult \<times> ptr option) \<times> vk" where
  "vkCreateShaderModule known device createInfo out s =
    (case createInfo of
       Some (codeSize, Some code) \<Rightarrow>
         if \<not> out \<or> codeSize < 4 \<or> codeSize mod 4 \<noteq> 0 \<or> code ! 0 \<noteq> 0x07230203
         then ((VK_ERROR_INITIALIZATION_FAILED, None), s)
         else if \<not> validVkDevice s device then ((VK_ERROR_INITIALIZATION_FAILED, None), s)
         else register_new (\<lambda>p s1. s1\<lparr>shaderModules := (shaderModules s1)(p \<mapsto>
           \<lparr>sh_device = device, sh_isAddUInt32 = same_module code codeSize (imb_add_u32_spv known),
            isTriangleVertex = same_module code codeSize (imb_triangle_vert_spv known),
            isTriangleFragment = same_module code codeSize (imb_triangle_frag_spv known),
            sh_usesFloat64Matrix = spirvUsesFloat64Matrix (Some code) codeSize,
            sh_hash = shaderHash code codeSize, sh_code = take (codeSize div 4) code\<rparr>)\<rparr>) s
     | _ \<Rightarrow> ((VK_ERROR_INITIALIZATION_FAILED, None), s))"

definition vkDestroyShaderModule :: "ptr \<Rightarrow> vk \<Rightarrow> vk" where
  "vkDestroyShaderModule p s = (if p = 0 then s else s\<lparr>shaderModules := (shaderModules s)(p := None)\<rparr>)"

section \<open>Views and samplers\<close>

abbreviation (input) VK_FORMAT_UNDEFINED :: VkFormat where "VK_FORMAT_UNDEFINED \<equiv> 0"

record VkBufferViewCreateInfo =
  bvc_buffer :: ptr
  bvc_format :: VkFormat
  bvc_offset :: u64
  bvc_range :: u64

text \<open>The usable range in bytes: whole texels of the requested range, at most \<open>2^27\<close> of them.\<close>

definition view_range :: "FormatBlockInfo \<Rightarrow> u64 \<Rightarrow> u64 \<Rightarrow> u64 \<Rightarrow> u64 option" where
  "view_range block limit offset requested =
    (if blkWidth block \<noteq> 1 \<or> blkHeight block \<noteq> 1 \<or> blkDepth block \<noteq> 1 \<or> blkBytes block = 0
       \<or> offset mod ucast (blkBytes block) \<noteq> 0 then None
     else (let remaining = limit - offset;
               requestedRange = (if requested = VK_WHOLE_SIZE then remaining else requested)
       in if requestedRange = 0 \<or> requestedRange > remaining then None
          else (let usable = requestedRange - requestedRange mod ucast (blkBytes block)
            in if usable = 0 \<or> usable mod ucast (blkBytes block) \<noteq> 0 \<or> usable div ucast (blkBytes block) > 2 ^ 27 then None
               else Some usable)))"

definition vkCreateBufferView ::
  "ptr \<Rightarrow> VkBufferViewCreateInfo option \<Rightarrow> bool \<Rightarrow> vk \<Rightarrow> (VkResult \<times> ptr option) \<times> vk" where
  "vkCreateBufferView device createInfo out s =
    (case createInfo of
       None \<Rightarrow> ((VK_ERROR_INITIALIZATION_FAILED, None), s)
     | Some info \<Rightarrow>
       if \<not> out \<or> bvc_buffer info = 0 \<or> bvc_format info = VK_FORMAT_UNDEFINED
       then ((VK_ERROR_INITIALIZATION_FAILED, None), s)
       else (case map_of (buffers s) (bvc_buffer info) of
         None \<Rightarrow> ((VK_ERROR_INITIALIZATION_FAILED, Some 0), s)
       | Some b \<Rightarrow>
         if \<not> validVkDevice s device \<or> buf_device b \<noteq> device \<or> bvc_offset info \<ge> buf_size b
         then ((VK_ERROR_INITIALIZATION_FAILED, Some 0), s)
         else if \<not> texelBufferFormatSupported (bvc_format info) then ((VK_ERROR_FORMAT_NOT_SUPPORTED, Some 0), s)
         else (case view_range (formatBlockInfo (bvc_format info)) (buf_size b) (bvc_offset info) (bvc_range info) of
           None \<Rightarrow> ((VK_ERROR_FORMAT_NOT_SUPPORTED, Some 0), s)
         | Some usable \<Rightarrow>
             (case register_new (\<lambda>p s1. s1\<lparr>bufferViews := (bufferViews s1)(p \<mapsto>
                \<lparr>bv_device = device, bv_buffer = bvc_buffer info, bv_format = bvc_format info,
                 bv_offset = bvc_offset info, bv_range = usable\<rparr>)\<rparr>) s of
               ((r, None), s1) \<Rightarrow> ((r, Some 0), s1)
             | made \<Rightarrow> made))))"

definition vkDestroyBufferView :: "ptr \<Rightarrow> vk \<Rightarrow> vk" where
  "vkDestroyBufferView p s = (if p = 0 then s else s\<lparr>bufferViews := (bufferViews s)(p := None)\<rparr>)"

definition vkCreateImageView :: "ptr \<Rightarrow> ptr option \<Rightarrow> bool \<Rightarrow> vk \<Rightarrow> (VkResult \<times> ptr option) \<times> vk" where
  "vkCreateImageView device viewedImage out s =
    (case viewedImage of
       None \<Rightarrow> ((VK_ERROR_INITIALIZATION_FAILED, None), s)
     | Some img \<Rightarrow>
       if \<not> out \<or> img = 0 then ((VK_ERROR_INITIALIZATION_FAILED, None), s)
       else (case images s img of
         None \<Rightarrow> ((VK_ERROR_INITIALIZATION_FAILED, None), s)
       | Some x \<Rightarrow>
         if \<not> validVkDevice s device \<or> img_device x \<noteq> device then ((VK_ERROR_INITIALIZATION_FAILED, None), s)
         else register_new (\<lambda>p s1. s1\<lparr>imageViews := (imageViews s1)(p \<mapsto> \<lparr>iv_device = device, iv_image = img\<rparr>)\<rparr>) s))"

definition vkDestroyImageView :: "ptr \<Rightarrow> vk \<Rightarrow> vk" where
  "vkDestroyImageView p s = (if p = 0 then s else s\<lparr>imageViews := (imageViews s)(p := None)\<rparr>)"

text \<open>The structure that describes a new sampler has the members of a sampler, but for the device.\<close>

definition vkCreateSampler :: "ptr \<Rightarrow> SamplerState option \<Rightarrow> bool \<Rightarrow> vk \<Rightarrow> (VkResult \<times> ptr option) \<times> vk" where
  "vkCreateSampler device createInfo out s =
    (case createInfo of
       None \<Rightarrow> ((VK_ERROR_INITIALIZATION_FAILED, None), s)
     | Some info \<Rightarrow>
       if \<not> out \<or> \<not> validVkDevice s device then ((VK_ERROR_INITIALIZATION_FAILED, None), s)
       else register_new (\<lambda>p s1. s1\<lparr>samplers := (samplers s1)(p \<mapsto> info\<lparr>smp_device := device\<rparr>)\<rparr>) s)"

definition vkDestroySampler :: "ptr \<Rightarrow> vk \<Rightarrow> vk" where
  "vkDestroySampler p s = (if p = 0 then s else s\<lparr>samplers := (samplers s)(p := None)\<rparr>)"

section \<open>Render passes, framebuffers and pipeline caches\<close>

text \<open>The formats of the attachments; of the subpasses, the attachments of their color references.\<close>

record VkRenderPassCreateInfo =
  rpc_attachments :: "VkFormat list option"
  rpc_subpasses :: "u32 list option list option"

text \<open>One attachment, one subpass and one color reference to it.\<close>

definition pass_format :: "VkRenderPassCreateInfo \<Rightarrow> VkFormat" where
  "pass_format info =
    (case (rpc_attachments info, rpc_subpasses info) of
       (Some [format], Some [Some [attachment]]) \<Rightarrow> if attachment = 0 then format else VK_FORMAT_UNDEFINED
     | _ \<Rightarrow> VK_FORMAT_UNDEFINED)"

definition vkCreateRenderPass ::
  "ptr \<Rightarrow> VkRenderPassCreateInfo option \<Rightarrow> bool \<Rightarrow> vk \<Rightarrow> (VkResult \<times> ptr option) \<times> vk" where
  "vkCreateRenderPass device createInfo out s =
    (case createInfo of
       None \<Rightarrow> ((VK_ERROR_INITIALIZATION_FAILED, None), s)
     | Some info \<Rightarrow>
       if \<not> out \<or> \<not> validVkDevice s device then ((VK_ERROR_INITIALIZATION_FAILED, None), s)
       else register_new (\<lambda>p s1. s1\<lparr>renderPasses := (renderPasses s1)(p \<mapsto>
         \<lparr>rp_device = device, colorFormat = pass_format info\<rparr>)\<rparr>) s)"

definition vkDestroyRenderPass :: "ptr \<Rightarrow> vk \<Rightarrow> vk" where
  "vkDestroyRenderPass p s = (if p = 0 then s else s\<lparr>renderPasses := (renderPasses s)(p := None)\<rparr>)"

record VkFramebufferCreateInfo =
  fbc_renderPass :: ptr
  fbc_attachments :: "ptr list option"
  fbc_width :: u32
  fbc_height :: u32

definition attached_image :: "vk \<Rightarrow> ptr \<Rightarrow> ptr list option \<Rightarrow> ptr" where
  "attached_image s device attachments =
    (case attachments of
       Some [view] \<Rightarrow> (case imageViews s view of None \<Rightarrow> 0 | Some v \<Rightarrow> if iv_device v = device then iv_image v else 0)
     | _ \<Rightarrow> 0)"

definition vkCreateFramebuffer ::
  "ptr \<Rightarrow> VkFramebufferCreateInfo option \<Rightarrow> bool \<Rightarrow> vk \<Rightarrow> (VkResult \<times> ptr option) \<times> vk" where
  "vkCreateFramebuffer device createInfo out s =
    (case createInfo of
       None \<Rightarrow> ((VK_ERROR_INITIALIZATION_FAILED, None), s)
     | Some info \<Rightarrow>
       if \<not> out \<or> fbc_renderPass info = 0 then ((VK_ERROR_INITIALIZATION_FAILED, None), s)
       else (case renderPasses s (fbc_renderPass info) of
         None \<Rightarrow> ((VK_ERROR_INITIALIZATION_FAILED, None), s)
       | Some pass \<Rightarrow>
         if \<not> validVkDevice s device \<or> rp_device pass \<noteq> device then ((VK_ERROR_INITIALIZATION_FAILED, None), s)
         else register_new (\<lambda>p s1. s1\<lparr>framebuffers := (framebuffers s1)(p \<mapsto>
           \<lparr>fb_device = device, fb_renderPass = fbc_renderPass info,
            colorImage = attached_image s device (fbc_attachments info),
            fb_width = fbc_width info, fb_height = fbc_height info\<rparr>)\<rparr>) s))"

definition vkDestroyFramebuffer :: "ptr \<Rightarrow> vk \<Rightarrow> vk" where
  "vkDestroyFramebuffer p s = (if p = 0 then s else s\<lparr>framebuffers := (framebuffers s)(p := None)\<rparr>)"

definition vkCreatePipelineCache :: "ptr \<Rightarrow> bool \<Rightarrow> bool \<Rightarrow> vk \<Rightarrow> (VkResult \<times> ptr option) \<times> vk" where
  "vkCreatePipelineCache device createInfo out s =
    (if \<not> createInfo \<or> \<not> out \<or> \<not> validVkDevice s device then ((VK_ERROR_INITIALIZATION_FAILED, None), s)
     else register_new (\<lambda>p s1. s1\<lparr>pipelineCaches := (pipelineCaches s1)(p \<mapsto> device)\<rparr>) s)"

definition vkDestroyPipelineCache :: "ptr \<Rightarrow> vk \<Rightarrow> vk" where
  "vkDestroyPipelineCache p s = (if p = 0 then s else s\<lparr>pipelineCaches := (pipelineCaches s)(p := None)\<rparr>)"

text \<open>A cache is empty: the size that the second result stores is zero.\<close>

definition vkGetPipelineCacheData :: "ptr \<Rightarrow> bool \<Rightarrow> vk \<Rightarrow> VkResult \<times> nat option" where
  "vkGetPipelineCacheData p dataSize s =
    (if \<not> dataSize \<or> pipelineCaches s p = None then (VK_ERROR_INITIALIZATION_FAILED, None) else (VK_SUCCESS, Some 0))"

definition vkMergePipelineCaches :: "ptr \<Rightarrow> ptr list option \<Rightarrow> vk \<Rightarrow> VkResult" where
  "vkMergePipelineCaches destination sources s =
    (case sources of
       None \<Rightarrow> VK_ERROR_INITIALIZATION_FAILED
     | Some ps \<Rightarrow>
       if pipelineCaches s destination = None \<or> (\<exists>p \<in> set ps. pipelineCaches s p = None)
       then VK_ERROR_INITIALIZATION_FAILED else VK_SUCCESS)"

section \<open>Layouts\<close>

definition vkCreateDescriptorSetLayout ::
  "ptr \<Rightarrow> VkDescriptorSetLayoutBinding list option option \<Rightarrow> bool \<Rightarrow> vk \<Rightarrow> (VkResult \<times> ptr option) \<times> vk" where
  "vkCreateDescriptorSetLayout device createInfo out s =
    (case createInfo of
       Some (Some bindings) \<Rightarrow>
         if \<not> out then ((VK_ERROR_INITIALIZATION_FAILED, None), s)
         else if \<not> distinct (map layout_binding bindings) then ((VK_ERROR_INITIALIZATION_FAILED, None), s)
         else if \<not> validVkDevice s device then ((VK_ERROR_INITIALIZATION_FAILED, None), s)
         else register_new (\<lambda>p s1. s1\<lparr>descriptorSetLayouts := (descriptorSetLayouts s1)(p \<mapsto>
           \<lparr>dsl_device = device, dsl_bindings = bindings\<rparr>)\<rparr>) s
     | _ \<Rightarrow> ((VK_ERROR_INITIALIZATION_FAILED, None), s))"

definition vkDestroyDescriptorSetLayout :: "ptr \<Rightarrow> vk \<Rightarrow> vk" where
  "vkDestroyDescriptorSetLayout p s =
    (if p = 0 then s else s\<lparr>descriptorSetLayouts := (descriptorSetLayouts s)(p := None)\<rparr>)"

definition vkGetDescriptorSetLayoutSupport :: "ptr \<Rightarrow> bool \<Rightarrow> vk \<Rightarrow> bool" where
  "vkGetDescriptorSetLayoutSupport device createInfo s \<longleftrightarrow> createInfo \<and> validVkDevice s device"

definition known_layout :: "vk \<Rightarrow> ptr \<Rightarrow> ptr \<Rightarrow> bool" where
  "known_layout s device p = (case descriptorSetLayouts s p of None \<Rightarrow> False | Some l \<Rightarrow> dsl_device l = device)"

definition push_range_ok :: "VkPushConstantRange \<Rightarrow> bool" where
  "push_range_ok r \<longleftrightarrow> range_stageFlags r \<noteq> 0 \<and> range_size r \<noteq> 0 \<and> range_offset r mod 4 = 0 \<and> range_size r mod 4 = 0"

definition vkCreatePipelineLayout ::
  "ptr \<Rightarrow> (ptr list option \<times> VkPushConstantRange list option) option \<Rightarrow> bool \<Rightarrow> vk \<Rightarrow> (VkResult \<times> ptr option) \<times> vk" where
  "vkCreatePipelineLayout device createInfo out s =
    (case createInfo of
       Some (Some sets, Some ranges) \<Rightarrow>
         if \<not> out \<or> \<not> validVkDevice s device then ((VK_ERROR_INITIALIZATION_FAILED, None), s)
         else if \<not> list_all (known_layout s device) sets \<or> \<not> list_all push_range_ok ranges
         then ((VK_ERROR_INITIALIZATION_FAILED, None), s)
         else register_new (\<lambda>p s1. s1\<lparr>pipelineLayouts := (pipelineLayouts s1)(p \<mapsto>
           \<lparr>pl_device = device, setLayouts = sets, pushConstantRanges = ranges\<rparr>)\<rparr>) s
     | _ \<Rightarrow> ((VK_ERROR_INITIALIZATION_FAILED, None), s))"

definition vkDestroyPipelineLayout :: "ptr \<Rightarrow> vk \<Rightarrow> vk" where
  "vkDestroyPipelineLayout p s = (if p = 0 then s else s\<lparr>pipelineLayouts := (pipelineLayouts s)(p := None)\<rparr>)"

section \<open>Compute pipelines\<close>

definition IMB_CAP_METAL_SPIRV_COMPUTE :: u64 where
  "IMB_CAP_METAL_SPIRV_COMPUTE = push_bit 12 1"

record VkComputePipelineCreateInfo =
  cpi_stage :: u32
  cpi_name :: "bytes option"
  cpi_specialization :: bool
  cpi_module :: ptr
  cpi_layout :: ptr

abbreviation (input) VK_SHADER_STAGE_COMPUTE_BIT :: u32 where "VK_SHADER_STAGE_COMPUTE_BIT \<equiv> 0x20"

definition main_name :: bytes where
  "main_name = [109, 97, 105, 110]"

definition new_pipeline :: "ptr \<Rightarrow> VkComputePipelineCreateInfo \<Rightarrow> ShaderModuleState \<Rightarrow> PipelineState" where
  "new_pipeline device info shader =
    \<lparr>pipe_device = device, pipe_layout = cpi_layout info,
     isAddUInt32 = (sh_isAddUInt32 shader \<and> cpi_name info = Some main_name \<and> \<not> cpi_specialization info),
     usesFloat64Matrix = sh_usesFloat64Matrix shader, requiresSoftwareFloat64Execution = False,
     computeHash = sh_hash shader, bridgeComputePipelineID = 0, graphics = False, isFixedTriangle = False, isKitUI = False\<rparr>"

text \<open>The pipeline on the host, when there is one; a failure leaves the pipeline without.\<close>

definition bridge_pipeline ::
  "environment \<Rightarrow> VkComputePipelineCreateInfo \<Rightarrow> ShaderModuleState \<Rightarrow> PipelineState \<Rightarrow> (vk, PipelineState) prog" where
  "bridge_pipeline env info shader pipe s =
    (if \<not> spirvComputeBridgeEnabled env then (Inr pipe, s)
     else case vkBridge s of
       None \<Rightarrow> (Inr pipe, undefined_vk s)
     | Some b \<Rightarrow>
       if cap_bits (capabilities b) AND IMB_CAP_METAL_SPIRV_COMPUTE = 0 \<or> cpi_specialization info then (Inr pipe, s)
       else catching
         (andThen (via_bridge (bridge_createComputePipeline (sh_code shader) (cpi_name info))) (\<lambda>(pipelineID, creationFlags).
            ret (pipe\<lparr>bridgeComputePipelineID := pipelineID, requiresSoftwareFloat64Execution :=
              (creationFlags AND IMB_COMPUTE_PIPELINE_FLAG_SOFTWARE_FP64_EXECUTION_REQUIRED \<noteq> 0)\<rparr>)))
         (ret pipe) s)"

definition create_pipeline :: "environment \<Rightarrow> ptr \<Rightarrow> VkComputePipelineCreateInfo \<Rightarrow> (vk, VkResult \<times> ptr) prog" where
  "create_pipeline env device info s =
    (case (shaderModules s (cpi_module info), pipelineLayouts s (cpi_layout info)) of
       (Some shader, Some layout) \<Rightarrow>
         if cpi_stage info \<noteq> VK_SHADER_STAGE_COMPUTE_BIT \<or> cpi_name info = None
           \<or> sh_device shader \<noteq> device \<or> pl_device layout \<noteq> device
         then (Inr (VK_ERROR_INITIALIZATION_FAILED, 0), s)
         else (case new_state s of
           (None, s1) \<Rightarrow> (Inr (VK_ERROR_OUT_OF_HOST_MEMORY, 0), s1)
         | (Some p, s1) \<Rightarrow>
             andThen (bridge_pipeline env info shader (new_pipeline device info shader)) (\<lambda>pipe s2.
               (Inr (VK_SUCCESS, p), s2\<lparr>pipelines := (pipelines s2)(p \<mapsto> pipe)\<rparr>)) s1)
     | _ \<Rightarrow> (Inr (VK_ERROR_INITIALIZATION_FAILED, 0), s))"

text \<open>The loop; the handles of what was made so far stay in the array, the others are null.\<close>

fun create_pipelines ::
  "environment \<Rightarrow> ptr \<Rightarrow> VkComputePipelineCreateInfo list \<Rightarrow> ptr list \<Rightarrow> (vk, VkResult \<times> ptr list) prog" where
  "create_pipelines env device [] made s = (Inr (VK_SUCCESS, made), s)"
| "create_pipelines env device (info # rest) made s =
    (case create_pipeline env device info s of
       (Inl e, s1) \<Rightarrow> (Inl e, s1)
     | (Inr (r, p), s1) \<Rightarrow>
         if r \<noteq> VK_SUCCESS then (Inr (r, made @ replicate (Suc (length rest)) 0), s1)
         else create_pipelines env device rest (made @ [p]) s1)"

definition vkCreateComputePipelines ::
  "environment \<Rightarrow> ptr \<Rightarrow> VkComputePipelineCreateInfo list option \<Rightarrow> bool \<Rightarrow> (vk, VkResult \<times> ptr list option) prog" where
  "vkCreateComputePipelines env device createInfos out s =
    (case createInfos of
       None \<Rightarrow> (Inr (VK_ERROR_INITIALIZATION_FAILED, None), s)
     | Some infos \<Rightarrow>
       if infos = [] \<or> \<not> out \<or> \<not> validVkDevice s device then (Inr (VK_ERROR_INITIALIZATION_FAILED, None), s)
       else andThen (create_pipelines env device infos []) (\<lambda>(r, made). ret (r, Some made)) s)"

section \<open>Graphics pipelines\<close>

record pipeline_stage =
  stage_bit :: u32
  stage_module :: ptr
  stage_name :: "bytes option"

record VkGraphicsPipelineCreateInfo =
  gpi_layout :: ptr
  gpi_stages :: "pipeline_stage list"
  gpi_renderPass :: ptr
  gpi_topology :: "u32 option"

abbreviation (input) VK_SHADER_STAGE_VERTEX_BIT :: u32 where "VK_SHADER_STAGE_VERTEX_BIT \<equiv> 1"
abbreviation (input) VK_SHADER_STAGE_FRAGMENT_BIT :: u32 where "VK_SHADER_STAGE_FRAGMENT_BIT \<equiv> 0x10"
abbreviation (input) VK_PRIMITIVE_TOPOLOGY_TRIANGLE_LIST :: u32 where "VK_PRIMITIVE_TOPOLOGY_TRIANGLE_LIST \<equiv> 3"

definition kKitUIVertexHash :: u64 where "kKitUIVertexHash = 0x7982ff2b309ae080"
definition kKitUIFragmentHash :: u64 where "kKitUIFragmentHash = 0xf9b23989da5b7895"

record found_stages =
  hasVertex :: bool
  hasFragment :: bool
  vertexHash :: u64
  fragmentHash :: u64

text \<open>The loop over the stages: the last shader of a kind gives the hash.\<close>

definition find_stage :: "vk \<Rightarrow> ptr \<Rightarrow> pipeline_stage \<Rightarrow> found_stages \<Rightarrow> found_stages" where
  "find_stage s device stage f =
    (case shaderModules s (stage_module stage) of
       None \<Rightarrow> f
     | Some shader \<Rightarrow>
       if sh_device shader \<noteq> device \<or> stage_name stage \<noteq> Some main_name then f
       else if stage_bit stage = VK_SHADER_STAGE_VERTEX_BIT
       then f\<lparr>vertexHash := sh_hash shader, hasVertex := (hasVertex f \<or> isTriangleVertex shader)\<rparr>
       else if stage_bit stage = VK_SHADER_STAGE_FRAGMENT_BIT
       then f\<lparr>fragmentHash := sh_hash shader, hasFragment := (hasFragment f \<or> isTriangleFragment shader)\<rparr>
       else f)"

definition draws_triangles_in :: "vk \<Rightarrow> VkGraphicsPipelineCreateInfo \<Rightarrow> VkFormat \<Rightarrow> bool" where
  "draws_triangles_in s info format \<longleftrightarrow>
    (case renderPasses s (gpi_renderPass info) of None \<Rightarrow> False | Some pass \<Rightarrow> colorFormat pass = format)
    \<and> gpi_topology info = Some VK_PRIMITIVE_TOPOLOGY_TRIANGLE_LIST"

definition graphics_pipeline :: "vk \<Rightarrow> ptr \<Rightarrow> VkGraphicsPipelineCreateInfo \<Rightarrow> PipelineState" where
  "graphics_pipeline s device info =
    (let f = fold (find_stage s device) (gpi_stages info)
           \<lparr>hasVertex = False, hasFragment = False, vertexHash = 0, fragmentHash = 0\<rparr>
     in \<lparr>pipe_device = device, pipe_layout = gpi_layout info, isAddUInt32 = False, usesFloat64Matrix = False,
         requiresSoftwareFloat64Execution = False, computeHash = 0, bridgeComputePipelineID = 0, graphics = True,
         isFixedTriangle = (hasVertex f \<and> hasFragment f \<and> draws_triangles_in s info VK_FORMAT_R8G8B8A8_UNORM),
         isKitUI = (vertexHash f = kKitUIVertexHash \<and> fragmentHash f = kKitUIFragmentHash
           \<and> draws_triangles_in s info VK_FORMAT_B8G8R8A8_UNORM)\<rparr>)"

fun create_graphics ::
  "ptr \<Rightarrow> VkGraphicsPipelineCreateInfo list \<Rightarrow> ptr list \<Rightarrow> vk \<Rightarrow> (VkResult \<times> ptr list) \<times> vk" where
  "create_graphics device [] made s = ((VK_SUCCESS, made), s)"
| "create_graphics device (info # rest) made s =
    (case pipelineLayouts s (gpi_layout info) of
       None \<Rightarrow> ((VK_ERROR_INITIALIZATION_FAILED, made @ replicate (Suc (length rest)) 0), s)
     | Some layout \<Rightarrow>
       if pl_device layout \<noteq> device
       then ((VK_ERROR_INITIALIZATION_FAILED, made @ replicate (Suc (length rest)) 0), s)
       else (case new_state s of
         (None, s1) \<Rightarrow> ((VK_ERROR_OUT_OF_HOST_MEMORY, made @ replicate (Suc (length rest)) 0), s1)
       | (Some p, s1) \<Rightarrow>
           create_graphics device rest (made @ [p])
             (s1\<lparr>pipelines := (pipelines s1)(p \<mapsto> graphics_pipeline s device info)\<rparr>)))"

definition vkCreateGraphicsPipelines ::
  "ptr \<Rightarrow> VkGraphicsPipelineCreateInfo list option \<Rightarrow> bool \<Rightarrow> vk \<Rightarrow> (VkResult \<times> ptr list option) \<times> vk" where
  "vkCreateGraphicsPipelines device createInfos out s =
    (case createInfos of
       None \<Rightarrow> ((VK_ERROR_INITIALIZATION_FAILED, None), s)
     | Some infos \<Rightarrow>
       if infos = [] \<or> \<not> out \<or> \<not> validVkDevice s device then ((VK_ERROR_INITIALIZATION_FAILED, None), s)
       else (case create_graphics device infos [] s of ((r, made), s1) \<Rightarrow> ((r, Some made), s1)))"

definition vkDestroyPipeline :: "ptr \<Rightarrow> (vk, unit) prog" where
  "vkDestroyPipeline p s =
    (if p = 0 then (Inr (), s)
     else case pipelines s p of
       None \<Rightarrow> (Inr (), s)
     | Some pipe \<Rightarrow> release_resource (bridgeComputePipelineID pipe) (s\<lparr>pipelines := (pipelines s)(p := None)\<rparr>))"

end
