(* ===== verification/VkDescriptorSet.thy ===== *)
theory VkDescriptorSet
  imports VkDescriptor
begin

text \<open>
  Descriptor pools and sets: \<^verbatim>\<open>imb_vkCreateDescriptorPool\<close> to \<^verbatim>\<open>imb_vkUpdateDescriptorSets\<close>.
\<close>

section \<open>Pools\<close>

text \<open>\<open>createInfo\<close>: the number of sets, and whether the array of sizes is there.\<close>

definition vkCreateDescriptorPool :: "ptr \<Rightarrow> (u32 \<times> bool) option \<Rightarrow> bool \<Rightarrow> vk \<Rightarrow> (VkResult \<times> ptr option) \<times> vk" where
  "vkCreateDescriptorPool device createInfo out s =
    (case createInfo of
       None \<Rightarrow> ((VK_ERROR_INITIALIZATION_FAILED, None), s)
     | Some (sets, sizes) \<Rightarrow>
       if \<not> out \<or> \<not> sizes \<or> \<not> validVkDevice s device then ((VK_ERROR_INITIALIZATION_FAILED, None), s)
       else register_new (\<lambda>p s1. s1\<lparr>descriptorPools := (descriptorPools s1)(p \<mapsto>
         \<lparr>dp_device = device, maxSets = max 1 sets, allocatedSets = 0\<rparr>)\<rparr>) s)"

definition destroyDescriptorSetsForPool :: "ptr \<Rightarrow> vk \<Rightarrow> vk" where
  "destroyDescriptorSetsForPool pool s =
    s\<lparr>descriptorSets := (\<lambda>p. case descriptorSets s p of None \<Rightarrow> None | Some d \<Rightarrow> if ds_pool d = pool then None else Some d),
      descriptorPools := (case descriptorPools s pool of None \<Rightarrow> descriptorPools s
        | Some x \<Rightarrow> (descriptorPools s)(pool \<mapsto> x\<lparr>allocatedSets := 0\<rparr>))\<rparr>"

definition vkDestroyDescriptorPool :: "ptr \<Rightarrow> vk \<Rightarrow> vk" where
  "vkDestroyDescriptorPool pool s =
    (if pool = 0 \<or> descriptorPools s pool = None then s
     else destroyDescriptorSetsForPool pool (s\<lparr>descriptorPools := (descriptorPools s)(pool := None)\<rparr>))"

definition vkResetDescriptorPool :: "ptr \<Rightarrow> vk \<Rightarrow> VkResult \<times> vk" where
  "vkResetDescriptorPool pool s =
    (if descriptorPools s pool = None then (VK_ERROR_INITIALIZATION_FAILED, s)
     else (VK_SUCCESS, destroyDescriptorSetsForPool pool s))"

section \<open>Sets\<close>

definition new_set :: "ptr \<Rightarrow> ptr \<Rightarrow> ptr \<Rightarrow> DescriptorSetState" where
  "new_set device pool layout =
    \<lparr>ds_device = device, ds_pool = pool, ds_layout = layout, ds_buffer = 0, ds_offset = 0, ds_range = 0,
     sampledImages = [], storageImages = [], ds_accelerationStructuresKHR = [], computeBuffers = [], computeImages = [],
     computeSamplers = []\<rparr>"

definition count_sets :: "ptr \<Rightarrow> (u32 \<Rightarrow> u32) \<Rightarrow> vk \<Rightarrow> vk" where
  "count_sets pool f s = (case descriptorPools s pool of None \<Rightarrow> undefined_vk s
     | Some x \<Rightarrow> s\<lparr>descriptorPools := (descriptorPools s)(pool \<mapsto> x\<lparr>allocatedSets := f (allocatedSets x)\<rparr>)\<rparr>)"

fun allocate_sets :: "ptr \<Rightarrow> ptr \<Rightarrow> ptr list \<Rightarrow> ptr list \<Rightarrow> vk \<Rightarrow> (VkResult \<times> ptr list) \<times> vk" where
  "allocate_sets device pool [] made s = ((VK_SUCCESS, made), s)"
| "allocate_sets device pool (layout # layouts) made s =
    (case new_state s of
       (None, s1) \<Rightarrow> ((VK_ERROR_OUT_OF_HOST_MEMORY, made), s1)
     | (Some p, s1) \<Rightarrow>
         allocate_sets device pool layouts (made @ [p])
           (count_sets pool (\<lambda>n. n + 1) (s1\<lparr>descriptorSets := (descriptorSets s1)(p \<mapsto> new_set device pool layout)\<rparr>)))"

text \<open>\<open>allocateInfo\<close>: the pool and the layouts, one for each set.\<close>

definition vkAllocateDescriptorSets ::
  "ptr \<Rightarrow> (ptr \<times> ptr list option) option \<Rightarrow> bool \<Rightarrow> vk \<Rightarrow> (VkResult \<times> ptr list) \<times> vk" where
  "vkAllocateDescriptorSets device allocateInfo out s =
    (case allocateInfo of
       Some (pool, Some layouts) \<Rightarrow>
         if \<not> out \<or> layouts = [] then ((VK_ERROR_INITIALIZATION_FAILED, []), s)
         else (case descriptorPools s pool of
           None \<Rightarrow> ((VK_ERROR_OUT_OF_POOL_MEMORY, []), s)
         | Some x \<Rightarrow>
           if \<not> validVkDevice s device \<or> dp_device x \<noteq> device
             \<or> length layouts > unat (maxSets x - allocatedSets x) then ((VK_ERROR_OUT_OF_POOL_MEMORY, []), s)
           else if \<not> list_all (known_layout s device) layouts then ((VK_ERROR_INITIALIZATION_FAILED, []), s)
           else allocate_sets device pool layouts [] s)
     | _ \<Rightarrow> ((VK_ERROR_INITIALIZATION_FAILED, []), s))"

definition set_of_pool :: "vk \<Rightarrow> ptr \<Rightarrow> ptr \<Rightarrow> bool" where
  "set_of_pool s pool p = (case descriptorSets s p of None \<Rightarrow> False | Some d \<Rightarrow> ds_pool d = pool)"

text \<open>A set that is deleted twice breaks the heap.\<close>

definition free_set :: "ptr \<Rightarrow> ptr \<Rightarrow> vk \<Rightarrow> vk" where
  "free_set pool p s =
    count_sets pool (\<lambda>n. n - 1)
      ((if descriptorSets s p = None then undefined_vk s else s)\<lparr>descriptorSets := (descriptorSets s)(p := None)\<rparr>)"

definition vkFreeDescriptorSets :: "ptr \<Rightarrow> ptr list option \<Rightarrow> vk \<Rightarrow> VkResult \<times> vk" where
  "vkFreeDescriptorSets pool handles s =
    (case handles of
       None \<Rightarrow> (VK_ERROR_INITIALIZATION_FAILED, s)
     | Some ps \<Rightarrow>
       if descriptorPools s pool = None \<or> \<not> list_all (set_of_pool s pool) ps then (VK_ERROR_INITIALIZATION_FAILED, s)
       else (VK_SUCCESS, fold (free_set pool) ps s))"

section \<open>Writing descriptors\<close>

abbreviation (input) TYPE_SAMPLER :: u32 where "TYPE_SAMPLER \<equiv> 0"
abbreviation (input) TYPE_COMBINED_IMAGE_SAMPLER :: u32 where "TYPE_COMBINED_IMAGE_SAMPLER \<equiv> 1"
abbreviation (input) TYPE_SAMPLED_IMAGE :: u32 where "TYPE_SAMPLED_IMAGE \<equiv> 2"
abbreviation (input) TYPE_STORAGE_IMAGE :: u32 where "TYPE_STORAGE_IMAGE \<equiv> 3"
abbreviation (input) TYPE_UNIFORM_TEXEL_BUFFER :: u32 where "TYPE_UNIFORM_TEXEL_BUFFER \<equiv> 4"
abbreviation (input) TYPE_STORAGE_TEXEL_BUFFER :: u32 where "TYPE_STORAGE_TEXEL_BUFFER \<equiv> 5"
abbreviation (input) TYPE_UNIFORM_BUFFER :: u32 where "TYPE_UNIFORM_BUFFER \<equiv> 6"
abbreviation (input) TYPE_STORAGE_BUFFER :: u32 where "TYPE_STORAGE_BUFFER \<equiv> 7"
abbreviation (input) TYPE_UNIFORM_BUFFER_DYNAMIC :: u32 where "TYPE_UNIFORM_BUFFER_DYNAMIC \<equiv> 8"
abbreviation (input) TYPE_STORAGE_BUFFER_DYNAMIC :: u32 where "TYPE_STORAGE_BUFFER_DYNAMIC \<equiv> 9"
abbreviation (input) TYPE_ACCELERATION_STRUCTURE_KHR :: u32 where "TYPE_ACCELERATION_STRUCTURE_KHR \<equiv> 1000150000"

datatype write_next = WriteAccelerationStructures "ptr list option" nat | OtherWriteStructure

text \<open>An image is its sampler and its view, a buffer its handle, offset and range.\<close>

record VkWriteDescriptorSet =
  dstSet :: ptr
  dstBinding :: u32
  dstArrayElement :: u32
  descriptorCount :: u32
  descriptorType :: u32
  pImageInfo :: "(ptr \<times> ptr) list option"
  pBufferInfo :: "(ptr \<times> u64 \<times> u64) list option"
  pTexelBufferView :: "ptr list option"
  writeNext :: "write_next list"

definition descriptor_key :: "u32 \<Rightarrow> u32 \<Rightarrow> u64" where
  "descriptor_key binding arrayElement = push_bit 32 (ucast binding) OR ucast arrayElement"

definition element_key :: "VkWriteDescriptorSet \<Rightarrow> nat \<Rightarrow> u64" where
  "element_key w i = descriptor_key (dstBinding w) (dstArrayElement w + word_of_nat i)"

definition elements :: "VkWriteDescriptorSet \<Rightarrow> 'a list \<Rightarrow> (nat \<times> 'a) list" where
  "elements w xs = zip [0..<unat (descriptorCount w)] xs"

definition change_set :: "ptr \<Rightarrow> (DescriptorSetState \<Rightarrow> DescriptorSetState) \<Rightarrow> vk \<Rightarrow> vk" where
  "change_set p f s = (case descriptorSets s p of None \<Rightarrow> s
     | Some d \<Rightarrow> s\<lparr>descriptorSets := (descriptorSets s)(p \<mapsto> f d)\<rparr>)"

definition viewed_image :: "vk \<Rightarrow> ptr \<Rightarrow> ptr" where
  "viewed_image s view = (case imageViews s view of None \<Rightarrow> 0 | Some v \<Rightarrow> iv_image v)"

definition sampled_element :: "VkWriteDescriptorSet \<Rightarrow> nat \<times> ptr \<times> ptr \<Rightarrow> vk \<Rightarrow> vk" where
  "sampled_element w e s =
    (case e of (i, _, view) \<Rightarrow>
       (let img = viewed_image s view
        in if img = 0 then s
           else change_set (dstSet w) (\<lambda>d. d
             \<lparr>sampledImages := map_put (dstArrayElement w + word_of_nat i) img (sampledImages d),
              computeImages := map_put (element_key w i) \<lparr>imb_image = img, imb_type = descriptorType w\<rparr> (computeImages d)\<rparr>) s))"

definition write_sampled :: "VkWriteDescriptorSet \<Rightarrow> vk \<Rightarrow> vk" where
  "write_sampled w s =
    (case pImageInfo w of
       Some infos \<Rightarrow>
         if descriptorType w = TYPE_SAMPLED_IMAGE \<or> descriptorType w = TYPE_COMBINED_IMAGE_SAMPLER
         then fold (sampled_element w) (elements w infos) s else s
     | None \<Rightarrow> s)"

definition sampler_element :: "VkWriteDescriptorSet \<Rightarrow> nat \<times> ptr \<times> ptr \<Rightarrow> vk \<Rightarrow> vk" where
  "sampler_element w e s =
    (case e of (i, sampler, _) \<Rightarrow>
       (case (samplers s sampler, descriptorSets s (dstSet w)) of
          (Some x, Some d) \<Rightarrow>
            if smp_device x = ds_device d
            then change_set (dstSet w) (\<lambda>d. d\<lparr>computeSamplers := map_put (element_key w i) sampler (computeSamplers d)\<rparr>) s
            else s
        | _ \<Rightarrow> s))"

definition write_samplers :: "VkWriteDescriptorSet \<Rightarrow> vk \<Rightarrow> vk" where
  "write_samplers w s =
    (case pImageInfo w of
       Some infos \<Rightarrow> if descriptorType w = TYPE_SAMPLER then fold (sampler_element w) (elements w infos) s else s
     | None \<Rightarrow> s)"

text \<open>The image behind a view may be gone; the number is then stored into freed memory.\<close>

definition number_image :: "ptr \<Rightarrow> vk \<Rightarrow> vk" where
  "number_image img s =
    (case images s img of
       None \<Rightarrow> undefined_vk s
     | Some x \<Rightarrow> put_image img (x\<lparr>storageDescriptorSequence := nextStorageDescriptorSequence s\<rparr>) s)
    \<lparr>nextStorageDescriptorSequence := nextStorageDescriptorSequence s + 1\<rparr>"

definition storage_element :: "VkWriteDescriptorSet \<Rightarrow> nat \<times> ptr \<times> ptr \<Rightarrow> vk \<Rightarrow> vk" where
  "storage_element w e s =
    (case e of (i, _, view) \<Rightarrow>
       (let img = viewed_image s view
        in if img = 0 then s
           else number_image img (change_set (dstSet w) (\<lambda>d. d
             \<lparr>storageImages := map_put (element_key w i) img (storageImages d),
              computeImages := map_put (element_key w i) \<lparr>imb_image = img, imb_type = descriptorType w\<rparr> (computeImages d)\<rparr>) s)))"

definition write_storage :: "VkWriteDescriptorSet \<Rightarrow> vk \<Rightarrow> vk" where
  "write_storage w s =
    (case pImageInfo w of
       Some infos \<Rightarrow> if descriptorType w = TYPE_STORAGE_IMAGE then fold (storage_element w) (elements w infos) s else s
     | None \<Rightarrow> s)"

definition put_buffer_binding :: "VkWriteDescriptorSet \<Rightarrow> nat \<Rightarrow> BufferBinding \<Rightarrow> vk \<Rightarrow> vk" where
  "put_buffer_binding w i b =
     change_set (dstSet w) (\<lambda>d. d\<lparr>computeBuffers := map_put (element_key w i) b (computeBuffers d)\<rparr>)"

text \<open>The binding that an element asks for, if it is accepted.\<close>

definition texel_binding :: "vk \<Rightarrow> u32 \<Rightarrow> ptr \<Rightarrow> BufferBinding option" where
  "texel_binding s type view =
    (case bufferViews s view of
       None \<Rightarrow> None
     | Some v \<Rightarrow> if bv_buffer v = 0 \<or> map_of (buffers s) (bv_buffer v) = None then None
        else Some \<lparr>bb_buffer = bv_buffer v, bb_offset = bv_offset v, bb_range = bv_range v, bb_type = type,
          bb_format = bv_format v\<rparr>)"

definition buffer_binding :: "vk \<Rightarrow> u32 \<Rightarrow> ptr \<times> u64 \<times> u64 \<Rightarrow> BufferBinding option" where
  "buffer_binding s type info =
    (case info of (buffer, offset, requested) \<Rightarrow>
       (case map_of (buffers s) buffer of
          None \<Rightarrow> None
        | Some b \<Rightarrow>
          if offset > buf_size b then None
          else (let usable = (if requested = VK_WHOLE_SIZE then buf_size b - offset else requested)
            in if usable = 0 \<or> usable > buf_size b - offset then None
               else Some \<lparr>bb_buffer = buffer, bb_offset = offset, bb_range = usable, bb_type = type,
                 bb_format = VK_FORMAT_UNDEFINED\<rparr>)))"

definition binding_element ::
  "(vk \<Rightarrow> u32 \<Rightarrow> 'a \<Rightarrow> BufferBinding option) \<Rightarrow> VkWriteDescriptorSet \<Rightarrow> nat \<times> 'a \<Rightarrow> vk \<Rightarrow> vk" where
  "binding_element asked w e s =
    (case asked s (descriptorType w) (snd e) of None \<Rightarrow> s | Some b \<Rightarrow> put_buffer_binding w (fst e) b s)"

definition write_texels :: "VkWriteDescriptorSet \<Rightarrow> vk \<Rightarrow> vk" where
  "write_texels w s =
    (case pTexelBufferView w of
       Some views \<Rightarrow>
         if descriptorType w = TYPE_UNIFORM_TEXEL_BUFFER \<or> descriptorType w = TYPE_STORAGE_TEXEL_BUFFER
         then fold (binding_element texel_binding w) (elements w views) s else s
     | None \<Rightarrow> s)"

definition plain_buffer_type :: "u32 \<Rightarrow> bool" where
  "plain_buffer_type type \<longleftrightarrow> type = TYPE_UNIFORM_BUFFER \<or> type = TYPE_STORAGE_BUFFER
     \<or> type = TYPE_UNIFORM_BUFFER_DYNAMIC \<or> type = TYPE_STORAGE_BUFFER_DYNAMIC"

definition write_buffers :: "VkWriteDescriptorSet \<Rightarrow> vk \<Rightarrow> vk" where
  "write_buffers w s =
    (case pBufferInfo w of
       Some infos \<Rightarrow>
         if plain_buffer_type (descriptorType w) then fold (binding_element buffer_binding w) (elements w infos) s else s
     | None \<Rightarrow> s)"

definition acceleration_element :: "VkWriteDescriptorSet \<Rightarrow> nat \<times> ptr \<Rightarrow> vk \<Rightarrow> vk" where
  "acceleration_element w e s =
    (if accelerationStructuresKHR s (snd e) = None then s
     else change_set (dstSet w) (\<lambda>d. d\<lparr>ds_accelerationStructuresKHR :=
       map_put (element_key w (fst e)) (snd e) (ds_accelerationStructuresKHR d)\<rparr>) s)"

fun acceleration_write :: "write_next list \<Rightarrow> (ptr list option \<times> nat) option" where
  "acceleration_write [] = None"
| "acceleration_write (WriteAccelerationStructures handles n # next) = Some (handles, n)"
| "acceleration_write (OtherWriteStructure # next) = acceleration_write next"

definition write_accelerations :: "VkWriteDescriptorSet \<Rightarrow> vk \<Rightarrow> vk" where
  "write_accelerations w s =
    (if descriptorType w \<noteq> TYPE_ACCELERATION_STRUCTURE_KHR then s
     else case acceleration_write (writeNext w) of
       Some (Some handles, n) \<Rightarrow>
         if n = unat (descriptorCount w) then fold (acceleration_element w) (elements w handles) s else s
     | _ \<Rightarrow> s)"

text \<open>The one storage buffer of the built-in compute shader.\<close>

definition write_first_buffer :: "VkWriteDescriptorSet \<Rightarrow> vk \<Rightarrow> vk" where
  "write_first_buffer w s =
    (case pBufferInfo w of
       Some ((buffer, offset, requested) # _) \<Rightarrow>
         if dstBinding w \<noteq> 0 \<or> dstArrayElement w \<noteq> 0 \<or> descriptorCount w \<noteq> 1 \<or> descriptorType w \<noteq> TYPE_STORAGE_BUFFER
         then s
         else (case map_of (buffers s) buffer of
           None \<Rightarrow> s
         | Some b \<Rightarrow> change_set (dstSet w) (\<lambda>d. d\<lparr>ds_buffer := buffer, ds_offset := offset,
             ds_range := (if requested = VK_WHOLE_SIZE then buf_size b - offset else requested)\<rparr>) s)
     | _ \<Rightarrow> s)"

definition update_set :: "VkWriteDescriptorSet \<Rightarrow> vk \<Rightarrow> vk" where
  "update_set w s =
    (if descriptorSets s (dstSet w) = None then s
     else write_first_buffer w (write_accelerations w (write_buffers w (write_texels w
       (write_storage w (write_samplers w (write_sampled w s)))))))"

definition vkUpdateDescriptorSets :: "VkWriteDescriptorSet list option \<Rightarrow> nat \<Rightarrow> vk \<Rightarrow> vk" where
  "vkUpdateDescriptorSets descriptorWrites copyCount s =
    (case descriptorWrites of None \<Rightarrow> s | Some ws \<Rightarrow> if copyCount \<noteq> 0 then s else fold update_set ws s)"

end
