(* ===== verification/VkCompute.thy ===== *)
theory VkCompute
  imports VkDescriptorSet VkFence VkCommand
begin

text \<open>
  Recording and executing compute dispatches: \<^verbatim>\<open>imb_vkCmdBindPipeline\<close> to \<^verbatim>\<open>imb_vkCmdDispatch\<close>,
  \<^verbatim>\<open>bridgeSamplerOptions\<close>, and \<^verbatim>\<open>bridgeComputeDispatchLocked\<close>, which is the \<open>dispatchCompute\<close> of the
  executed command buffers. The branches that catch \<^verbatim>\<open>std::bad_alloc\<close> (clearing the push constants,
  \<^verbatim>\<open>VK_ERROR_OUT_OF_HOST_MEMORY\<close> of a dispatch) are left out. Pointers in descriptors, command buffers and pipelines may outlive the objects; following
  such a pointer breaks the state.
\<close>

section \<open>Binding\<close>

abbreviation (input) VK_PIPELINE_BIND_POINT_GRAPHICS :: u32 where "VK_PIPELINE_BIND_POINT_GRAPHICS \<equiv> 0"
abbreviation (input) VK_PIPELINE_BIND_POINT_COMPUTE :: u32 where "VK_PIPELINE_BIND_POINT_COMPUTE \<equiv> 1"
abbreviation (input) VK_PIPELINE_BIND_POINT_RAY_TRACING :: u32 where "VK_PIPELINE_BIND_POINT_RAY_TRACING \<equiv> 1000165000"

definition vkCmdBindPipeline :: "ptr \<Rightarrow> u32 \<Rightarrow> ptr \<Rightarrow> vk \<Rightarrow> vk" where
  "vkCmdBindPipeline command point pipeline s =
    (case recording_command s command of
       None \<Rightarrow> s
     | Some c \<Rightarrow>
       if (point = VK_PIPELINE_BIND_POINT_COMPUTE \<or> point = VK_PIPELINE_BIND_POINT_GRAPHICS
           \<or> point = VK_PIPELINE_BIND_POINT_RAY_TRACING) \<and> pipelines s pipeline \<noteq> None
       then put_command command (c\<lparr>cmd_pipeline := pipeline\<rparr>) s else s)"

text \<open>One of the three arrays of bound sets: a set that is not known clears all of it.\<close>

definition slots_fit :: "u32 \<Rightarrow> ptr list \<Rightarrow> ptr list \<Rightarrow> bool" where
  "slots_fit firstSet sets slots \<longleftrightarrow> unat firstSet \<le> length slots \<and> length sets \<le> length slots - unat firstSet"

definition bind_slots :: "vk \<Rightarrow> u32 \<Rightarrow> ptr list \<Rightarrow> ptr list \<Rightarrow> ptr list" where
  "bind_slots s firstSet sets slots =
    (if list_all (\<lambda>p. descriptorSets s p \<noteq> None) sets
     then take (unat firstSet) slots @ sets @ drop (unat firstSet + length sets) slots
     else replicate (length slots) 0)"

definition bind_graphics :: "vk \<Rightarrow> u32 \<Rightarrow> ptr list \<Rightarrow> CommandBufferState \<Rightarrow> CommandBufferState" where
  "bind_graphics s firstSet sets c =
    (if slots_fit firstSet sets (graphicsDescriptorSets c)
     then c\<lparr>graphicsDescriptorSets := bind_slots s firstSet sets (graphicsDescriptorSets c)\<rparr> else c)"

definition bind_ray_tracing :: "vk \<Rightarrow> u32 \<Rightarrow> ptr list \<Rightarrow> nat \<Rightarrow> CommandBufferState \<Rightarrow> CommandBufferState" where
  "bind_ray_tracing s firstSet sets dynamicOffsetCount c =
    (if slots_fit firstSet sets (rayTracingDescriptorSets c) \<and> dynamicOffsetCount = 0
     then c\<lparr>rayTracingDescriptorSets := bind_slots s firstSet sets (rayTracingDescriptorSets c)\<rparr> else c)"

definition bind_compute :: "vk \<Rightarrow> u32 \<Rightarrow> ptr list \<Rightarrow> nat \<Rightarrow> CommandBufferState \<Rightarrow> CommandBufferState" where
  "bind_compute s firstSet sets dynamicOffsetCount c =
    (if slots_fit firstSet sets (computeDescriptorSets c) \<and> dynamicOffsetCount = 0
     then c\<lparr>computeDescriptorSets := bind_slots s firstSet sets (computeDescriptorSets c)\<rparr> else c)"

text \<open>The one set of the built-in compute shader.\<close>

definition bind_first :: "vk \<Rightarrow> PipelineLayoutState \<Rightarrow> u32 \<Rightarrow> ptr list \<Rightarrow> nat \<Rightarrow> CommandBufferState \<Rightarrow> CommandBufferState" where
  "bind_first s layout firstSet sets dynamicOffsetCount c =
    (case sets of
       [p] \<Rightarrow>
         (case (descriptorSets s p, setLayouts layout) of
            (Some d, l # _) \<Rightarrow>
              if firstSet = 0 \<and> dynamicOffsetCount = 0 \<and> ds_layout d = l then c\<lparr>cmd_descriptorSet := p\<rparr> else c
          | _ \<Rightarrow> c)
     | _ \<Rightarrow> c)"

text \<open>The first handle is read even when there is none.\<close>

definition vkCmdBindDescriptorSets :: "ptr \<Rightarrow> u32 \<Rightarrow> ptr \<Rightarrow> u32 \<Rightarrow> ptr list option \<Rightarrow> nat \<Rightarrow> vk \<Rightarrow> vk" where
  "vkCmdBindDescriptorSets command point layout firstSet handles dynamicOffsetCount s =
    (case handles of
       None \<Rightarrow> s
     | Some sets \<Rightarrow>
       (let s1 = (if sets = [] then undefined_vk s else s) in
        case (recording_command s1 command, pipelineLayouts s1 layout) of
          (Some c, Some l) \<Rightarrow>
            if point = VK_PIPELINE_BIND_POINT_GRAPHICS
            then put_command command (bind_graphics s1 firstSet sets c) s1
            else if point = VK_PIPELINE_BIND_POINT_RAY_TRACING
            then put_command command (bind_ray_tracing s1 firstSet sets dynamicOffsetCount c) s1
            else if point = VK_PIPELINE_BIND_POINT_COMPUTE
            then put_command command
              (bind_first s1 l firstSet sets dynamicOffsetCount (bind_compute s1 firstSet sets dynamicOffsetCount c)) s1
            else s1
        | _ \<Rightarrow> s1))"

section \<open>Push constants\<close>

text \<open>Zero bytes up to the end of the values, then the values.\<close>

definition push_bytes :: "nat \<Rightarrow> bytes \<Rightarrow> bytes \<Rightarrow> bytes" where
  "push_bytes offset vals old = splice offset vals (old @ replicate (offset + length vals - length old) 0)"

definition first_word :: "bytes \<Rightarrow> u32" where
  "first_word vals = le_word (\<lambda>i. vals ! i) 4"

definition push_compute :: "u32 \<Rightarrow> u32 \<Rightarrow> bytes \<Rightarrow> CommandBufferState \<Rightarrow> CommandBufferState" where
  "push_compute stageFlags offset vals c =
    (if stageFlags AND VK_SHADER_STAGE_COMPUTE_BIT \<noteq> 0 \<and> length vals > 0 \<and> unat offset \<le> 4096
        \<and> length vals \<le> 4096 - unat offset
     then c\<lparr>computePushConstants := push_bytes (unat offset) vals (computePushConstants c)\<rparr> else c)"

definition push_addend :: "u32 \<Rightarrow> u32 \<Rightarrow> bytes \<Rightarrow> CommandBufferState \<Rightarrow> CommandBufferState" where
  "push_addend stageFlags offset vals c =
    (if stageFlags = VK_SHADER_STAGE_COMPUTE_BIT \<and> offset = 0 \<and> length vals = 4
     then c\<lparr>addend := first_word vals, hasPushConstant := True\<rparr> else c)"

definition push_texture :: "u32 \<Rightarrow> u32 \<Rightarrow> bytes \<Rightarrow> CommandBufferState \<Rightarrow> CommandBufferState" where
  "push_texture stageFlags offset vals c =
    (if stageFlags AND VK_SHADER_STAGE_FRAGMENT_BIT \<noteq> 0 \<and> offset = 0 \<and> length vals = 4
     then c\<lparr>textureIndex := first_word vals\<rparr> else c)"

definition vkCmdPushConstants :: "ptr \<Rightarrow> ptr \<Rightarrow> u32 \<Rightarrow> u32 \<Rightarrow> bytes option \<Rightarrow> vk \<Rightarrow> vk" where
  "vkCmdPushConstants command layout stageFlags offset newValues s =
    (case newValues of
       None \<Rightarrow> s
     | Some vals \<Rightarrow>
       (case (recording_command s command, pipelineLayouts s layout) of
          (Some c, Some l) \<Rightarrow>
            put_command command
              (push_texture stageFlags offset vals (push_addend stageFlags offset vals (push_compute stageFlags offset vals c))) s
        | _ \<Rightarrow> s))"

section \<open>Recording a dispatch\<close>

text \<open>The end of the compute ranges of a layout.\<close>

definition range_end :: "VkPushConstantRange \<Rightarrow> nat \<Rightarrow> nat" where
  "range_end r required = (if range_stageFlags r AND VK_SHADER_STAGE_COMPUTE_BIT \<noteq> 0
     then max required (unat (range_offset r) + unat (range_size r)) else required)"

definition requiredPushConstantSize :: "PipelineLayoutState \<Rightarrow> nat" where
  "requiredPushConstantSize layout = fold range_end (pushConstantRanges layout) 0"

definition bridge_eligible :: "environment \<Rightarrow> PipelineState \<Rightarrow> nat \<Rightarrow> bytes \<Rightarrow> bool" where
  "bridge_eligible env pipe required push \<longleftrightarrow>
     bridgeComputePipelineID pipe \<noteq> 0
     \<and> (\<not> (usesFloat64Matrix pipe \<and> requiresSoftwareFloat64Execution pipe)
        \<or> validatedSoftwareFloat64MatrixShader (computeHash pipe) \<or> float64MatrixExecutionEnabled env)
     \<and> length push \<ge> required"

text \<open>With the pipeline of the command, when it has one with a layout.\<close>

definition record_dispatch ::
  "environment \<Rightarrow> ptr \<Rightarrow> CommandBufferState \<Rightarrow> u32 \<Rightarrow> u32 \<Rightarrow> u32 \<Rightarrow> PipelineState \<Rightarrow> PipelineLayoutState \<Rightarrow> vk \<Rightarrow> vk" where
  "record_dispatch env command c x y z pipe layout =
     record_command command c (\<lambda>n. ComputeDispatch
       \<lparr>cd_sequence = n, cd_pipeline = cmd_pipeline c,
        bridgeEligible = bridge_eligible env pipe (requiredPushConstantSize layout) (computePushConstants c),
        cd_descriptorSets = computeDescriptorSets c, cd_groupCountX = x, cd_groupCountY = y, cd_groupCountZ = z,
        cd_pushConstants = computePushConstants c\<rparr>)"

definition vkCmdDispatch :: "environment \<Rightarrow> ptr \<Rightarrow> u32 \<Rightarrow> u32 \<Rightarrow> u32 \<Rightarrow> vk \<Rightarrow> vk" where
  "vkCmdDispatch env command x y z s =
    (case recording_command s command of
       None \<Rightarrow> s
     | Some c0 \<Rightarrow>
       if x = 0 \<or> y = 0 \<or> z = 0 then s
       else (let c = (if y = 1 \<and> z = 1 then c0\<lparr>cmd_groupCountX := x\<rparr> else c0);
                 s1 = put_command command c s
         in if cmd_pipeline c = 0 then s1
            else (case pipelines s1 (cmd_pipeline c) of
              None \<Rightarrow> undefined_vk s1
            | Some pipe \<Rightarrow>
              if pipe_layout pipe = 0 then s1
              else (case pipelineLayouts s1 (pipe_layout pipe) of
                None \<Rightarrow> undefined_vk s1
              | Some layout \<Rightarrow>
                if genericComputeBridgeEnabled env then record_dispatch env command c x y z pipe layout s1 else s1))))"

section \<open>Samplers on the host\<close>

definition flag_bit :: "u32 \<Rightarrow> u32" where
  "flag_bit b = (if b \<noteq> 0 then 1 else 0)"

definition bridgeSamplerOptions :: "SamplerState \<Rightarrow> u32" where
  "bridgeSamplerOptions x =
     magFilter x OR push_bit 1 (minFilter x) OR push_bit 2 (mipmapMode x) OR push_bit 3 (addressModeU x)
     OR push_bit 6 (addressModeV x) OR push_bit 9 (addressModeW x) OR push_bit 12 (flag_bit (anisotropyEnable x))
     OR push_bit 13 (flag_bit (compareEnable x)) OR push_bit 14 (compareOp x)
     OR push_bit 17 (flag_bit (unnormalizedCoordinates x)) OR push_bit 18 (borderColor x)"

definition IMB_COMPUTE_SAMPLER_OPTIONS_MASK :: u32 where
  "IMB_COMPUTE_SAMPLER_OPTIONS_MASK = 0x001fffff"

text \<open>Two floating point numbers, given by their bits.\<close>

definition bridgeSamplerFloatPair :: "u32 \<Rightarrow> u32 \<Rightarrow> u64" where
  "bridgeSamplerFloatPair low high = ucast low OR push_bit 32 (ucast high)"

section \<open>Dispatching\<close>

abbreviation (input) BUFFER_READ :: u32 where "BUFFER_READ \<equiv> 1"
abbreviation (input) BUFFER_READ_WRITE :: u32 where "BUFFER_READ_WRITE \<equiv> 2"
abbreviation (input) TEXTURE_READ :: u32 where "TEXTURE_READ \<equiv> 3"
abbreviation (input) TEXTURE_READ_WRITE :: u32 where "TEXTURE_READ_WRITE \<equiv> 4"
abbreviation (input) TEXEL_BUFFER_READ :: u32 where "TEXEL_BUFFER_READ \<equiv> 5"
abbreviation (input) TEXEL_BUFFER_READ_WRITE :: u32 where "TEXEL_BUFFER_READ_WRITE \<equiv> 6"
abbreviation (input) BINDING_SAMPLER :: u32 where "BINDING_SAMPLER \<equiv> 7"

text \<open>What the loops over the sets have gathered.\<close>

record prepared =
  prep_bindings :: "BridgeComputeBinding list"
  writableBuffers :: "(BufferBinding \<times> u64) list"
  writableImages :: "ptr list"

text \<open>A loop whose body may return early.\<close>

fun prepare_all :: "('a \<Rightarrow> prepared \<Rightarrow> (vk, VkResult + prepared) prog) \<Rightarrow> 'a list \<Rightarrow> prepared \<Rightarrow> (vk, VkResult + prepared) prog" where
  "prepare_all f [] p s = (Inr (Inr p), s)"
| "prepare_all f (x # xs) p s =
    (case f x p s of
       (Inl e, s1) \<Rightarrow> (Inl e, s1)
     | (Inr (Inl r), s1) \<Rightarrow> (Inr (Inl r), s1)
     | (Inr (Inr q), s1) \<Rightarrow> prepare_all f xs q s1)"

definition key_binding :: "u64 \<Rightarrow> u32" where
  "key_binding key = ucast (drop_bit 32 key)"

definition key_element :: "u64 \<Rightarrow> u32" where
  "key_element key = ucast key"

definition writable_buffer :: "BufferBinding \<Rightarrow> bool" where
  "writable_buffer d \<longleftrightarrow> bb_type d = TYPE_STORAGE_BUFFER \<or> bb_type d = TYPE_STORAGE_BUFFER_DYNAMIC
     \<or> bb_type d = TYPE_STORAGE_TEXEL_BUFFER"

definition texel_buffer :: "BufferBinding \<Rightarrow> bool" where
  "texel_buffer d \<longleftrightarrow> bb_type d = TYPE_UNIFORM_TEXEL_BUFFER \<or> bb_type d = TYPE_STORAGE_TEXEL_BUFFER"

definition buffer_kind :: "BufferBinding \<Rightarrow> u32" where
  "buffer_kind d = (if texel_buffer d then (if writable_buffer d then TEXEL_BUFFER_READ_WRITE else TEXEL_BUFFER_READ)
     else (if writable_buffer d then BUFFER_READ_WRITE else BUFFER_READ))"

definition bound_buffer :: "u32 \<Rightarrow> u64 \<Rightarrow> BufferBinding \<Rightarrow> u64 \<Rightarrow> BufferState \<Rightarrow> DeviceMemoryState \<Rightarrow> BridgeComputeBinding" where
  "bound_buffer setIndex key d descriptorRange b m =
     \<lparr>binding_descriptorSet = setIndex, binding_binding = key_binding key, binding_arrayElement = key_element key,
      binding_kind = buffer_kind d, binding_format = (if texel_buffer d then bb_format d else 0),
      binding_resourceID = mem_resourceID m, binding_offset = buf_memoryOffset b + bb_offset d,
      binding_length = descriptorRange\<rparr>"

text \<open>The memory of the buffer is read before the buffer is looked for in the registry.\<close>

definition prepare_buffer :: "u32 \<Rightarrow> u64 \<times> BufferBinding \<Rightarrow> prepared \<Rightarrow> (vk, VkResult + prepared) prog" where
  "prepare_buffer setIndex entry p s =
    (case entry of (key, d) \<Rightarrow>
       if bb_buffer d = 0 then (Inr (Inl VK_ERROR_MEMORY_MAP_FAILED), s)
       else (case map_of (buffers s) (bb_buffer d) of
         None \<Rightarrow> (Inr (Inl VK_ERROR_MEMORY_MAP_FAILED), undefined_vk s)
       | Some b \<Rightarrow>
         if buf_memory b = 0 \<or> bb_offset d > buf_size b then (Inr (Inl VK_ERROR_MEMORY_MAP_FAILED), s)
         else (let availableRange = buf_size b - bb_offset d;
                   descriptorRange = (if bb_range d = VK_WHOLE_SIZE then availableRange else bb_range d)
           in if descriptorRange = 0 \<or> descriptorRange > availableRange
              then (Inr (Inl VK_ERROR_MEMORY_MAP_FAILED), s)
              else andThen (uploadBufferForMetal (bb_buffer d)) (\<lambda>r s1.
                if r \<noteq> VK_SUCCESS then (Inr (Inl r), s1)
                else (case memories s1 (buf_memory b) of
                  None \<Rightarrow> (Inr (Inl r), undefined_vk s1)
                | Some m \<Rightarrow>
                    (Inr (Inr (p\<lparr>prep_bindings := prep_bindings p @ [bound_buffer setIndex key d descriptorRange b m],
                      writableBuffers := writableBuffers p @ (if writable_buffer d then [(d, descriptorRange)] else [])\<rparr>)),
                     s1))) s)))"

definition bound_image :: "u32 \<Rightarrow> u64 \<Rightarrow> ImageBinding \<Rightarrow> ImageState \<Rightarrow> BridgeComputeBinding" where
  "bound_image setIndex key d x =
     \<lparr>binding_descriptorSet = setIndex, binding_binding = key_binding key, binding_arrayElement = key_element key,
      binding_kind = (if imb_type d = TYPE_STORAGE_IMAGE then TEXTURE_READ_WRITE else TEXTURE_READ),
      binding_format = 0, binding_resourceID = img_resourceID x, binding_offset = 0, binding_length = 0\<rparr>"

definition prepare_image :: "u32 \<Rightarrow> u64 \<times> ImageBinding \<Rightarrow> prepared \<Rightarrow> (vk, VkResult + prepared) prog" where
  "prepare_image setIndex entry p s =
    (case entry of (key, d) \<Rightarrow>
       if imb_image d = 0 \<or> images s (imb_image d) = None then (Inr (Inl VK_ERROR_INITIALIZATION_FAILED), s)
       else andThen (uploadComputeImageForMetal (imb_image d)) (\<lambda>r s1.
         if r \<noteq> VK_SUCCESS then (Inr (Inl r), s1)
         else (case images s1 (imb_image d) of
           None \<Rightarrow> (Inr (Inl r), undefined_vk s1)
         | Some x \<Rightarrow>
             (Inr (Inr (p\<lparr>prep_bindings := prep_bindings p @ [bound_image setIndex key d x],
               writableImages := writableImages p @ (if imb_type d = TYPE_STORAGE_IMAGE then [imb_image d] else [])\<rparr>)), s1))) s)"

abbreviation (input) one_float :: u32 where "one_float \<equiv> 0x3f800000"

definition bound_sampler :: "u32 \<Rightarrow> u64 \<Rightarrow> SamplerState \<Rightarrow> BridgeComputeBinding" where
  "bound_sampler setIndex key x =
     \<lparr>binding_descriptorSet = setIndex, binding_binding = key_binding key, binding_arrayElement = key_element key,
      binding_kind = BINDING_SAMPLER, binding_format = bridgeSamplerOptions x, binding_resourceID = 0,
      binding_offset = bridgeSamplerFloatPair (minLod x) (maxLod x),
      binding_length = bridgeSamplerFloatPair (mipLodBias x) (if anisotropyEnable x \<noteq> 0 then maxAnisotropy x else one_float)\<rparr>"

definition prepare_sampler :: "u32 \<Rightarrow> ptr \<Rightarrow> u64 \<times> ptr \<Rightarrow> prepared \<Rightarrow> (vk, VkResult + prepared) prog" where
  "prepare_sampler setIndex device entry p s =
    (case entry of (key, sampler) \<Rightarrow>
       if sampler = 0 then (Inr (Inl VK_ERROR_INITIALIZATION_FAILED), s)
       else (case samplers s sampler of
         None \<Rightarrow> (Inr (Inl VK_ERROR_INITIALIZATION_FAILED), s)
       | Some x \<Rightarrow>
         if smp_device x \<noteq> device then (Inr (Inl VK_ERROR_INITIALIZATION_FAILED), s)
         else if bridgeSamplerOptions x AND NOT IMB_COMPUTE_SAMPLER_OPTIONS_MASK \<noteq> 0
         then (Inr (Inl VK_ERROR_FEATURE_NOT_PRESENT), s)
         else (Inr (Inr (p\<lparr>prep_bindings := prep_bindings p @ [bound_sampler setIndex key x]\<rparr>)), s)))"

text \<open>Two loops one after the other.\<close>

definition prepare_then :: "(prepared \<Rightarrow> (vk, VkResult + prepared) prog) \<Rightarrow> (prepared \<Rightarrow> (vk, VkResult + prepared) prog)
    \<Rightarrow> prepared \<Rightarrow> (vk, VkResult + prepared) prog" where
  "prepare_then f g p = andThen (f p) (\<lambda>r. case r of Inl e \<Rightarrow> ret (Inl e) | Inr q \<Rightarrow> g q)"

definition prepare_set :: "nat \<times> ptr \<Rightarrow> prepared \<Rightarrow> (vk, VkResult + prepared) prog" where
  "prepare_set indexed p s =
    (case indexed of (i, handle) \<Rightarrow>
       if handle = 0 then (Inr (Inr p), s)
       else (case descriptorSets s handle of
         None \<Rightarrow> (Inr (Inl VK_ERROR_INITIALIZATION_FAILED), s)
       | Some d \<Rightarrow>
           prepare_then (prepare_all (prepare_buffer (word_of_nat i)) (computeBuffers d))
             (prepare_then (prepare_all (prepare_image (word_of_nat i)) (computeImages d))
               (prepare_all (prepare_sampler (word_of_nat i) (ds_device d)) (computeSamplers d))) p s))"

definition bound_sets :: "RecordedComputeDispatch \<Rightarrow> PipelineLayoutState \<Rightarrow> (nat \<times> ptr) list" where
  "bound_sets dispatch layout =
    (let setCount = min (length (cd_descriptorSets dispatch)) (length (setLayouts layout))
     in zip [0..<setCount] (cd_descriptorSets dispatch))"

text \<open>Afterwards, what the host has written comes back.\<close>

definition take_back :: "ptr \<Rightarrow> u64 \<Rightarrow> u64 \<Rightarrow> bytes \<Rightarrow> (vk, VkResult) prog" where
  "take_back memory offset n bs s =
    (case syncMemoryToExternalFD memory offset n (store_memory memory (unat offset) bs s) of (r, s1) \<Rightarrow> (Inr r, s1))"

definition read_back_buffer :: "BufferBinding \<times> u64 \<Rightarrow> (vk, VkResult) prog" where
  "read_back_buffer written s =
    (case written of (d, usable) \<Rightarrow>
       (case map_of (buffers s) (bb_buffer d) of
          None \<Rightarrow> (Inr VK_SUCCESS, undefined_vk s)
        | Some b \<Rightarrow>
          (case memories s (buf_memory b) of
             None \<Rightarrow> (Inr VK_SUCCESS, undefined_vk s)
           | Some m \<Rightarrow>
             (let offset = buf_memoryOffset b + bb_offset d
              in if outside offset usable (mem_size m) then (Inr VK_ERROR_MEMORY_MAP_FAILED, s)
                 else andThen (via_bridge (bridge_readBuffer (mem_resourceID m) usable offset))
                   (take_back (buf_memory b) offset usable) s))))"

definition set_image_dirty :: "ptr \<Rightarrow> vk \<Rightarrow> vk" where
  "set_image_dirty img = change_image img (\<lambda>x. x\<lparr>img_dirty := True\<rparr>)"

definition read_back_pixels :: "ptr \<Rightarrow> (vk, VkResult) prog" where
  "read_back_pixels img s =
    (case images s img of
       None \<Rightarrow> (Inr VK_SUCCESS, undefined_vk s)
     | Some x \<Rightarrow>
       if img_memory x = 0
         \<or> (img_format x \<noteq> VK_FORMAT_R8G8B8A8_UNORM \<and> img_format x \<noteq> VK_FORMAT_B8G8R8A8_UNORM)
         \<or> img_mipLevels x \<noteq> 1 \<or> img_arrayLayers x \<noteq> 1
       then (Inr VK_ERROR_FORMAT_NOT_SUPPORTED, s)
       else (case memories s (img_memory x) of
         None \<Rightarrow> (Inr VK_SUCCESS, undefined_vk s)
       | Some m \<Rightarrow>
         if outside (img_memoryOffset x) (pixelBytes x) (mem_size m) then (Inr VK_ERROR_MEMORY_MAP_FAILED, s)
         else andThen (via_bridge (bridge_readImage (img_resourceID x) (pixelBytes x))) (\<lambda>bs.
           andThen (take_back (img_memory x) (img_memoryOffset x) (pixelBytes x) bs) (\<lambda>r s1.
             if r \<noteq> VK_SUCCESS then (Inr r, s1) else (Inr VK_SUCCESS, set_image_dirty img s1))) s))"

fun read_back_all :: "('a \<Rightarrow> (vk, VkResult) prog) \<Rightarrow> 'a list \<Rightarrow> (vk, VkResult) prog" where
  "read_back_all f [] s = (Inr VK_SUCCESS, s)"
| "read_back_all f (x # xs) s =
    (case f x s of
       (Inl e, s1) \<Rightarrow> (Inl e, s1)
     | (Inr r, s1) \<Rightarrow> if r \<noteq> VK_SUCCESS then (Inr r, s1) else read_back_all f xs s1)"

definition submit_prepared :: "RecordedComputeDispatch \<Rightarrow> PipelineState \<Rightarrow> prepared \<Rightarrow> (vk, VkResult) prog" where
  "submit_prepared dispatch pipe p =
     andThen (via_bridge (bridge_submitCompute (bridgeComputePipelineID pipe) (cd_groupCountX dispatch)
       (cd_groupCountY dispatch) (cd_groupCountZ dispatch) (prep_bindings p) (cd_pushConstants dispatch))) (\<lambda>fence.
     andThen (via_bridge (bridge_waitFence fence)) (\<lambda>_.
     andThen (read_back_all read_back_buffer (writableBuffers p)) (\<lambda>r.
       if r \<noteq> VK_SUCCESS then ret r else read_back_all read_back_pixels (writableImages p))))"

definition bridgeComputeDispatch :: "RecordedComputeDispatch \<Rightarrow> (vk, VkResult) prog" where
  "bridgeComputeDispatch dispatch s =
    (case pipelines s (cd_pipeline dispatch) of
       None \<Rightarrow> (Inr VK_ERROR_FEATURE_NOT_PRESENT, s)
     | Some pipe \<Rightarrow>
       if cd_pipeline dispatch = 0 \<or> \<not> bridgeEligible dispatch \<or> bridgeComputePipelineID pipe = 0 \<or> vkBridge s = None
         \<or> cd_groupCountX dispatch = 0 \<or> cd_groupCountY dispatch = 0 \<or> cd_groupCountZ dispatch = 0
       then (Inr VK_ERROR_FEATURE_NOT_PRESENT, s)
       else (case pipelineLayouts s (pipe_layout pipe) of
         None \<Rightarrow> (Inr VK_SUCCESS, undefined_vk s)
       | Some layout \<Rightarrow>
           catching
             (andThen (prepare_all prepare_set (bound_sets dispatch layout)
                \<lparr>prep_bindings = [], writableBuffers = [], writableImages = []\<rparr>) (\<lambda>r.
              case r of Inl e \<Rightarrow> ret e | Inr p \<Rightarrow> submit_prepared dispatch pipe p))
             (ret VK_ERROR_DEVICE_LOST) s))"

end
