(* ===== verification/VkComputeProps.thy ===== *)
theory VkComputeProps
  imports VkCompute VkMemoryProps
begin

text \<open>
  Memory safety of compute dispatches: a dispatch whose descriptors refer to objects that exist reads and writes only
  inside memory objects, and names to the host only ranges inside them.
\<close>

section \<open>Quiet steps\<close>

text \<open>What uploads and read-backs leave as it is.\<close>

definition kept :: "DeviceMemoryState \<Rightarrow> DeviceMemoryState \<Rightarrow> bool" where
  "kept m m' \<longleftrightarrow> mem_size m' = mem_size m \<and> mem_externalFD m' = mem_externalFD m
    \<and> (mem_bytes m \<noteq> [] \<longrightarrow> mem_bytes m' \<noteq> []) \<and> (mem_resourceID m \<noteq> 0 \<longrightarrow> mem_resourceID m' = mem_resourceID m)"

definition same_place :: "ImageState \<Rightarrow> ImageState \<Rightarrow> bool" where
  "same_place x y \<longleftrightarrow> img_memory y = img_memory x \<and> img_flags y = img_flags x"

definition memories_kept :: "vk \<Rightarrow> vk \<Rightarrow> bool" where
  "memories_kept s s' \<longleftrightarrow> (\<forall>p m. memories s p = Some m \<longrightarrow> (\<exists>m'. memories s' p = Some m' \<and> kept m m'))"

definition images_kept :: "vk \<Rightarrow> vk \<Rightarrow> bool" where
  "images_kept s s' \<longleftrightarrow> (\<forall>p. rel_option same_place (images s p) (images s' p))"

definition steady :: "vk \<Rightarrow> vk \<Rightarrow> bool" where
  "steady s s' \<longleftrightarrow> good s' \<and> buffers s' = buffers s \<and> descriptorSets s' = descriptorSets s \<and> vkBridge s' \<noteq> None
    \<and> memories_kept s s' \<and> images_kept s s'"

text \<open>Where uploads start: the connection is there, and what buffers and images lie in exists.\<close>

definition resource_placed :: "vk \<Rightarrow> bool" where
  "resource_placed s \<longleftrightarrow> good s \<and> vkBridge s \<noteq> None
    \<and> (\<forall>p b. map_of (buffers s) p = Some b \<longrightarrow> buf_memory b = 0 \<or> memories s (buf_memory b) \<noteq> None)
    \<and> (\<forall>p x. images s p = Some x \<longrightarrow> img_memory x = 0
        \<or> memories s (img_memory x) \<noteq> None \<and> img_flags x AND VK_IMAGE_CREATE_SPARSE_RESIDENCY_BIT = 0)"

lemma kept_refl [simp]: "kept m m"
  by (simp add: kept_def)

lemma kept_trans: "kept m1 m2 \<Longrightarrow> kept m2 m3 \<Longrightarrow> kept m1 m3"
  by (auto simp: kept_def)

lemma same_place_refl [simp]: "same_place x x"
  by (simp add: same_place_def)

lemma rel_same_place_refl [simp]: "rel_option same_place x x"
  by (cases x) simp_all

lemma memories_kept_refl [simp]: "memories_kept s s"
  by (simp add: memories_kept_def)

lemma memories_kept_same: "memories s' = memories s \<Longrightarrow> memories_kept s s'"
  by (simp add: memories_kept_def)

lemma images_kept_same: "images s' = images s \<Longrightarrow> images_kept s s'"
  by (simp add: images_kept_def)

lemma steady_refl: "resource_placed s \<Longrightarrow> steady s s"
  by (simp add: steady_def resource_placed_def images_kept_same)

lemma steady_trans [trans]: "steady s s1 \<Longrightarrow> steady s1 s2 \<Longrightarrow> steady s s2"
  unfolding steady_def memories_kept_def images_kept_def
  by (auto intro: kept_trans) (metis kept_trans, metis (mono_tags, lifting) option.rel_sel same_place_def)

lemma steady_placed:
  assumes "resource_placed s" "steady s s'"
  shows "resource_placed s'"
proof -
  have there: "memories s' p \<noteq> None" if "memories s p \<noteq> None" for p
    using that assms(2) by (fastforce simp: steady_def memories_kept_def)
  have img: "\<exists>x. images s p = Some x \<and> same_place x y" if "images s' p = Some y" for p y
    using that assms(2) unfolding steady_def images_kept_def by (metis option_rel_Some2)
  show ?thesis
    unfolding resource_placed_def
  proof (intro conjI allI impI)
    show "good s'" "vkBridge s' \<noteq> None" using assms(2) by (simp_all add: steady_def)
    show "buf_memory b = 0 \<or> memories s' (buf_memory b) \<noteq> None" if "map_of (buffers s') p = Some b" for p b
      using that assms there [of "buf_memory b"] by (auto simp: resource_placed_def steady_def)
    show "img_memory x = 0 \<or> memories s' (img_memory x) \<noteq> None \<and> img_flags x AND VK_IMAGE_CREATE_SPARSE_RESIDENCY_BIT = 0"
      if "images s' p = Some x" for p x
      using img [OF that] assms(1) there by (fastforce simp: resource_placed_def same_place_def)
  qed
qed

lemma steady_memory: "steady s s' \<Longrightarrow> memories s p = Some m \<Longrightarrow> \<exists>m'. memories s' p = Some m' \<and> kept m m'"
  by (simp add: steady_def memories_kept_def)

lemma steady_image: "steady s s' \<Longrightarrow> images s p = Some x \<Longrightarrow> \<exists>y. images s' p = Some y \<and> same_place x y"
  unfolding steady_def images_kept_def by (metis option_rel_Some1)

lemma steady_memories:
  assumes "resource_placed s" "good s'" "memories_kept s s'" "buffers s' = buffers s" "descriptorSets s' = descriptorSets s"
    "vkBridge s' = vkBridge s" "images s' = images s"
  shows "steady s s'"
  using assms by (simp add: steady_def resource_placed_def images_kept_same)

lemma steady_put_image:
  assumes "resource_placed s" "images s p = Some x" "same_place x y"
  shows "steady s (put_image p y s)"
  using assms by (auto simp: steady_def resource_placed_def put_image_def images_kept_def memories_kept_same
    intro!: good_same [of s])

lemma steady_bridge:
  assumes "resource_placed s" "via_bridge m s = (r, s')"
  shows "steady s s'"
  using assms by (auto simp: steady_def resource_placed_def via_bridge_def memories_kept_same images_kept_same
    split: prod.splits intro!: good_same [of s])

lemma steady_ret: "resource_placed s \<Longrightarrow> ret x s = (r, s') \<Longrightarrow> steady s s'"
  by (auto simp: ret_def steady_refl)

lemma steady_andThen:
  assumes "andThen f g s = (r, s')" "\<And>r1 s1. f s = (r1, s1) \<Longrightarrow> steady s s1"
    and "\<And>x s1. f s = (Inr x, s1) \<Longrightarrow> g x s1 = (r, s') \<Longrightarrow> steady s1 s'"
  shows "steady s s'"
proof (cases "f s")
  case (Pair r1 s1)
  then show ?thesis using assms steady_trans by (cases r1) (auto simp: andThen_def)
qed

lemma steady_catching:
  assumes "resource_placed s" "catching f (ret v) s = (r, s')" "\<And>r1 s1. f s = (r1, s1) \<Longrightarrow> steady s s1"
  shows "steady s s'"
  using assms by (auto simp: catching_def ret_def split: prod.splits sum.splits exn.splits)

section \<open>Memory objects\<close>

lemma steady_host:
  assumes "resource_placed s" "ensureHostBacking p s = (r, s1)"
  shows "steady s s1 \<and> (memories s p \<noteq> None \<longrightarrow> r = VK_SUCCESS \<and> (\<exists>m. filled s1 p m \<and> mem_bytes m \<noteq> []))"
proof (cases "memories s p")
  case None
  then show ?thesis using assms steady_refl by (auto simp: ensureHostBacking_def)
next
  case (Some m)
  have r: "r = VK_SUCCESS" using assms(2) Some ensureHostBacking_result by blast
  have g: "good s" using assms(1) by (simp add: resource_placed_def)
  from good_host [OF g assms(2) [unfolded r]] obtain m1 where m1: "good s1" "filled s1 p m1" "\<exists>bs. m1 = m\<lparr>mem_bytes := bs\<rparr>"
    "mem_bytes m1 \<noteq> []" "memories s1 = (memories s)(p \<mapsto> m1)" using Some by auto
  have "kept m m1" using m1(3,4) by (auto simp: kept_def)
  then have "memories_kept s s1" using m1(5) Some by (auto simp: memories_kept_def)
  moreover have "buffers s1 = buffers s" "descriptorSets s1 = descriptorSets s" "vkBridge s1 = vkBridge s" "images s1 = images s"
    using assms(2) Some by (auto simp: ensureHostBacking_def put_memory_def split: if_splits)
  ultimately show ?thesis using steady_memories [OF assms(1) m1(1)] r m1 by blast
qed

lemma steady_store:
  assumes "resource_placed s" "filled s p m" "n + length bs \<le> unat (mem_size m)"
  shows "steady s (store_memory p n bs s)"
proof -
  have g: "good s" using assms(1) by (simp add: resource_placed_def)
  note st = good_store [OF g assms(2,3)]
  have m: "memories s p = Some m" "length (mem_bytes m) = unat (mem_size m)" using assms(2) by (simp_all add: filled_def)
  have "splice n bs (mem_bytes m) \<noteq> []" if "mem_bytes m \<noteq> []"
    using that length_splice [of n bs "mem_bytes m"] assms(3) m(2) by fastforce
  then have "memories_kept s (store_memory p n bs s)"
    using st m(1) by (auto simp: memories_kept_def kept_def)
  moreover have "store_memory p n bs s = put_memory p (m\<lparr>mem_bytes := splice n bs (mem_bytes m)\<rparr>) s"
    using assms(3) m by (simp add: store_memory_def)
  ultimately show ?thesis using steady_memories [OF assms(1)] st by (simp add: put_memory_def)
qed

lemma steady_sync:
  assumes "resource_placed s" "memories s p = Some m" "syncMemoryToExternalFD p offset sz s = (r, s1)"
  shows "steady s s1"
proof -
  have g: "good s" using assms(1) by (simp add: resource_placed_def)
  show ?thesis
  proof (cases "p = 0 \<or> mem_externalFD m < 0 \<or> sz = 0")
    case True
    then show ?thesis using assms steady_refl by (auto simp: syncMemoryToExternalFD_def split: if_splits)
  next
    case False
    obtain s2 where h: "ensureHostBacking p s = (VK_SUCCESS, s2)"
      using assms(2) ensureHostBacking_result by (metis option.distinct(1) prod.collapse)
    from steady_host [OF assms(1) h] obtain m2 where m2: "steady s s2" "filled s2 p m2" using assms(2) by auto
    then have size: "mem_size m2 = mem_size m"
      using steady_memory [OF m2(1) assms(2)] by (auto simp: filled_def kept_def)
    show ?thesis
    proof (cases "outside offset sz (mem_size m)")
      case True
      then show ?thesis using assms False h m2 by (auto simp: syncMemoryToExternalFD_def)
    next
      case inside: False
      then have "load_memory p (unat offset) (unat sz) s2 = (slice_of (unat offset) (unat sz) (mem_bytes m2), s2)"
        using good_load [OF m2(2)] size by (simp add: outside_unat)
      then obtain answers process where "s1 = s2\<lparr>ioAnswers := answers, os := process\<rparr>"
        using assms False h inside by (auto simp: syncMemoryToExternalFD_def split: prod.splits)
      moreover have p2: "resource_placed s2" using steady_placed [OF assms(1) m2(1)] .
      ultimately have "steady s2 s1"
        by (intro steady_memories [OF p2]) (auto simp: memories_kept_same resource_placed_def intro: good_same)
      then show ?thesis using m2(1) steady_trans by blast
    qed
  qed
qed

lemma steady_refresh:
  assumes "resource_placed s" "memories s p = Some m" "refreshMemoryFromExternalFD p offset sz s = (r, s1)"
  shows "steady s s1"
proof -
  show ?thesis
  proof (cases "p = 0 \<or> mem_externalFD m < 0 \<or> sz = 0")
    case True
    then show ?thesis using assms steady_refl by (auto simp: refreshMemoryFromExternalFD_def split: if_splits)
  next
    case False
    obtain s2 where h: "ensureHostBacking p s = (VK_SUCCESS, s2)"
      using assms(2) ensureHostBacking_result by (metis option.distinct(1) prod.collapse)
    from steady_host [OF assms(1) h] obtain m2 where m2: "steady s s2" "filled s2 p m2" using assms(2) by auto
    then have size: "mem_size m2 = mem_size m"
      using steady_memory [OF m2(1) assms(2)] by (auto simp: filled_def kept_def)
    have p2: "resource_placed s2" using steady_placed [OF assms(1) m2(1)] .
    show ?thesis
    proof (cases "outside offset sz (mem_size m)")
      case True
      then show ?thesis using assms False h m2 by (auto simp: refreshMemoryFromExternalFD_def)
    next
      case inside: False
      obtain ok got as where read: "memory_pread (mem_externalFD m) (unat offset) (unat sz) [] (ioAnswers s2) (os s2) = (ok, got, as)"
        by (metis prod.collapse)
      then have "length got \<le> unat sz" using memory_pread_length [OF read] by simp
      then have le: "unat offset + length got \<le> unat (mem_size m2)" using inside size by (simp add: outside_unat)
      let ?s = "s2\<lparr>ioAnswers := as\<rparr>"
      have q: "steady s2 ?s" using p2 by (intro steady_memories [OF p2]) (auto simp: memories_kept_same resource_placed_def intro: good_same)
      have "steady ?s (store_memory p (unat offset) got ?s)"
        using steady_store [OF steady_placed [OF p2 q], of p m2] m2(2) le by (simp add: filled_def)
      moreover have "s1 = store_memory p (unat offset) got ?s"
        using assms False h inside read by (auto simp: refreshMemoryFromExternalFD_def)
      ultimately show ?thesis using m2(1) q steady_trans by blast
    qed
  qed
qed

lemma steady_change_memory:
  assumes "resource_placed s" "memories s p = Some m" "memory_ok (f m)" "kept m (f m)"
  shows "steady s (change_memory p f s)"
proof -
  have g: "good s" using assms(1) by (simp add: resource_placed_def)
  have "change_memory p f s = put_memory p (f m) s" using assms(2) by (simp add: change_memory_def)
  then show ?thesis using steady_memories [OF assms(1) good_change [where f = f, OF g assms(2,3)]] assms(2,4)
    by (auto simp: put_memory_def memories_kept_def)
qed

lemma createBuffer_nonzero: "bridge_createBuffer n b = (Inr i, b1) \<Longrightarrow> i \<noteq> 0"
  by (auto simp: bridge_createBuffer_def exchange_for_id_def andThen_def require_def ret_def throw_def Let_def
    split: prod.splits sum.splits if_splits)

lemma steady_memory_backing:
  assumes "resource_placed s" "memories s p \<noteq> None" "ensureMemoryBacking p needed s = (r, s1)"
  shows "steady s s1 \<and> (r = Inr VK_SUCCESS \<longrightarrow> (\<exists>m. filled s1 p m \<and> mem_bytes m \<noteq> [] \<and> (needed \<longrightarrow> mem_resourceID m \<noteq> 0)))"
proof -
  obtain m0 where m0: "memories s p = Some m0" using assms(2) by blast
  obtain s0 where h: "ensureHostBacking p s = (VK_SUCCESS, s0)"
    using assms(2) ensureHostBacking_result by (metis prod.collapse)
  from steady_host [OF assms(1) h] assms(2) obtain m where m: "steady s s0" "filled s0 p m" "mem_bytes m \<noteq> []" by auto
  have here: "memories s0 p = Some m" using m(2) by (simp add: filled_def)
  have p0: "resource_placed s0" using steady_placed [OF assms(1) m(1)] .
  show ?thesis
  proof (cases "\<not> needed \<or> mem_resourceID m \<noteq> 0")
    case True
    then have "r = Inr VK_SUCCESS" "s1 = s0" using assms(3) h here by (auto simp: ensureMemoryBacking_def)
    then show ?thesis using m True by auto
  next
    case False
    obtain b where b: "vkBridge s0 = Some b" using p0 by (auto simp: resource_placed_def)
    obtain r1 b1 where c: "bridge_createBuffer (mem_size m) b = (r1, b1)" by force
    let ?s = "s0\<lparr>vkBridge := Some b1\<rparr>"
    have e: "steady s0 ?s" using steady_bridge [OF p0, of "bridge_createBuffer (mem_size m)"] b c by (simp add: via_bridge_def)
    show ?thesis
    proof (cases r1)
      case (Inl x)
      then have "s1 = ?s" "r \<noteq> Inr VK_SUCCESS"
        using assms(3) h here False b c
        by (auto simp: ensureMemoryBacking_def catching_def andThen_def via_bridge_def ret_def split: exn.splits)
      then show ?thesis using e m(1) steady_trans by blast
    next
      case (Inr i)
      let ?m = "m\<lparr>mem_resourceID := i\<rparr>"
      have i: "i \<noteq> 0" using c Inr createBuffer_nonzero by blast
      have eq: "r = Inr VK_SUCCESS" "s1 = change_memory p (\<lambda>x. x\<lparr>mem_resourceID := i\<rparr>) ?s"
        using assms(3) h here False b c Inr
        by (auto simp: ensureMemoryBacking_def catching_def andThen_def via_bridge_def set_memory_resource_def change_memory_def)
      have "memory_ok m" using p0 here goodD by (auto simp: resource_placed_def)
      then have "memory_ok ?m" by (auto simp: memory_ok_def)
      moreover have "kept m ?m" using False by (simp add: kept_def)
      ultimately have "steady ?s s1" unfolding eq(2)
        using here by (intro steady_change_memory [OF steady_placed [OF p0 e]]) simp_all
      then have "steady s s1" using m(1) e steady_trans by blast
      moreover have "filled s1 p ?m" unfolding eq(2) using m(2) here by (simp add: filled_def change_memory_def put_memory_def)
      ultimately show ?thesis using m(3) i by auto
    qed
  qed
qed

section \<open>Uploads\<close>

lemma steady_upload_bytes:
  assumes "resource_placed s" "filled s p m" "unat offset + unat n \<le> unat (mem_size m)"
    and "\<And>s1. steady s s1 \<Longrightarrow> steady s1 (after s1)" "upload_bytes p offset n after s = (r, s1)"
  shows "steady s s1"
proof -
  have m: "memories s p = Some m" "load_memory p (unat offset) (unat n) s = (slice_of (unat offset) (unat n) (mem_bytes m), s)"
    using assms(2) good_load [OF assms(2,3)] by (simp_all add: filled_def)
  let ?go = "andThen (via_bridge (bridge_writeBuffer (mem_resourceID m) (slice_of (unat offset) (unat n) (mem_bytes m)) offset))
    (\<lambda>_ s2. (Inr VK_SUCCESS, after s2))"
  have go: "steady s s2" if "?go s = (r2, s2)" for r2 s2
    using that by (rule steady_andThen) (use steady_bridge [OF assms(1)] assms(4) in auto)
  have "catching ?go (ret VK_ERROR_DEVICE_LOST) s = (r, s1)" using assms(5) m by (simp add: upload_bytes_def)
  then show ?thesis by (rule steady_catching [OF assms(1)]) (rule go)
qed

lemma memory_ok_resource: "resource_placed s \<Longrightarrow> memories s p = Some m \<Longrightarrow> memory_ok m"
  using goodD by (auto simp: resource_placed_def)

lemma filled_steady:
  assumes "resource_placed s" "steady s s1" "filled s p m" "mem_bytes m \<noteq> []"
  obtains m1 where "filled s1 p m1" "mem_bytes m1 \<noteq> []" "kept m m1"
proof -
  obtain m1 where m1: "memories s1 p = Some m1" "kept m m1"
    using steady_memory [OF assms(2)] assms(3) by (auto simp: filled_def)
  moreover have "mem_bytes m1 \<noteq> []" using m1(2) assms(4) by (simp add: kept_def)
  moreover have "filled s1 p m1"
    using filled_here [of s1 p m1] m1(1) calculation(3) assms(2) by (simp add: steady_def)
  ultimately show ?thesis using that by blast
qed

lemma steady_clean:
  assumes "resource_placed s" "memories s p \<noteq> None"
  shows "steady s (change_memory p clean s)"
proof -
  obtain m where "memories s p = Some m" using assms(2) by blast
  then show ?thesis
    using steady_change_memory [OF assms(1), of p m clean] memory_ok_resource [OF assms(1)] memory_ok_clean
    by (simp add: kept_def clean_def)
qed

text \<open>After a successful upload the buffer lies in a memory object with bytes and a resource.\<close>

definition uploaded :: "vk \<Rightarrow> BufferState \<Rightarrow> bool" where
  "uploaded s b \<longleftrightarrow> (\<exists>m. memories s (buf_memory b) = Some m \<and> mem_bytes m \<noteq> [] \<and> mem_resourceID m \<noteq> 0
     \<and> unat (buf_memoryOffset b) + unat (buf_size b) \<le> unat (mem_size m))"

lemma uploaded_steady: "uploaded s b \<Longrightarrow> steady s s1 \<Longrightarrow> uploaded s1 b"
  unfolding uploaded_def using steady_memory by (fastforce simp: kept_def)

lemma steady_upload_buffer:
  assumes "resource_placed s" "map_of (buffers s) p = Some b" "uploadBufferForMetal p s = (r, s')"
  shows "steady s s' \<and> (r = Inr VK_SUCCESS \<longrightarrow> uploaded s' b)"
proof (cases "p = 0 \<or> buf_memory b = 0")
  case True
  then show ?thesis using assms steady_refl by (auto simp: uploadBufferForMetal_def split: if_splits)
next
  case False
  let ?p = "buf_memory b"
  obtain br where br: "vkBridge s = Some br" using assms(1) by (auto simp: resource_placed_def)
  have there: "memories s ?p \<noteq> None" using assms(1,2) False by (auto simp: resource_placed_def)
  obtain r1 s1 where e: "ensureMemoryBacking ?p True s = (r1, s1)" by force
  from steady_memory_backing [OF assms(1) there e] have q: "steady s s1" by blast
  have p1: "resource_placed s1" using steady_placed [OF assms(1) q] .
  obtain m where m: "memories s1 ?p = Some m" using steady_memory [OF q] there by fastforce
  show ?thesis
  proof (cases "r1 = Inr VK_SUCCESS \<and> \<not> outside (buf_memoryOffset b) (buf_size b) (mem_size m)")
    case stop: False
    then have "s' = s1" "r \<noteq> Inr VK_SUCCESS"
      using assms(2,3) False br e m by (auto simp: uploadBufferForMetal_def andThen_def split: sum.splits if_splits)
    then show ?thesis using q by simp
  next
    case go: True
    from steady_memory_backing [OF assms(1) there e] go m
    have f: "filled s1 ?p m" "mem_bytes m \<noteq> []" "mem_resourceID m \<noteq> 0" by (auto simp: filled_def)
    have inside: "unat (buf_memoryOffset b) + unat (buf_size b) \<le> unat (mem_size m)" using go by (simp add: outside_unat)
    have up1: "uploaded s1 b" using m f inside by (auto simp: uploaded_def)
    have "steady s1 s'"
    proof (cases "mem_externalFD m \<ge> 0")
      case True
      obtain r2 s2 where e2: "refreshMemoryFromExternalFD ?p (buf_memoryOffset b) (buf_size b) s1 = (r2, s2)" by force
      have q2: "steady s1 s2" using steady_refresh [OF p1 m e2] .
      obtain m2 where m2: "filled s2 ?p m2" "kept m m2" using filled_steady [OF p1 q2 f(1,2)] by blast
      have in2: "unat (buf_memoryOffset b) + unat (buf_size b) \<le> unat (mem_size m2)" using inside m2(2) by (simp add: kept_def)
      have "(if r2 \<noteq> VK_SUCCESS then (Inr r2, s2)
          else upload_bytes ?p (buf_memoryOffset b) (buf_size b) (\<lambda>s3. s3) s2) = (r, s')"
        using assms(2,3) False br e go m e2 True by (simp add: uploadBufferForMetal_def andThen_def)
      moreover have "steady s2 s'" if "upload_bytes ?p (buf_memoryOffset b) (buf_size b) (\<lambda>s3. s3) s2 = (r, s')"
        by (rule steady_upload_bytes [OF steady_placed [OF p1 q2] m2(1) in2 _ that])
          (meson q2 p1 steady_placed steady_refl)
      ultimately show ?thesis using q2 steady_trans by (cases "r2 = VK_SUCCESS") auto
    next
      case ordinary: False
      show ?thesis
      proof (cases "is_dirty m")
        case True
        have "unat (dirtyOffset m) + unat (dirtyEnd m - dirtyOffset m) \<le> unat (mem_size m)"
          using True memory_ok_resource [OF p1 m]
          by (auto simp: is_dirty_def memory_ok_def unat_sub word_le_nat_alt word_less_nat_alt)
        moreover have "upload_bytes ?p (dirtyOffset m) (dirtyEnd m - dirtyOffset m) (change_memory ?p clean) s1 = (r, s')"
          using assms(2,3) False br e go m True ordinary by (simp add: uploadBufferForMetal_def andThen_def)
        moreover have "steady s3 (change_memory ?p clean s3)" if "steady s1 s3" for s3
          using steady_clean [OF steady_placed [OF p1 that]] steady_memory [OF that m] by auto
        ultimately show ?thesis using steady_upload_bytes [OF p1 f(1)] by blast
      next
        case False
        then have "s' = s1" using assms(2,3) \<open>\<not> (p = 0 \<or> buf_memory b = 0)\<close> br e go m ordinary
          by (simp add: uploadBufferForMetal_def andThen_def)
        then show ?thesis using steady_refl [OF p1] by simp
      qed
    qed
    then show ?thesis using q up1 uploaded_steady steady_trans by blast
  qed
qed

lemma steady_image_resource:
  assumes "resource_placed s" "images s img \<noteq> None" "catching (andThen (via_bridge m) (set_image_resource img)) (ret v) s = (r, s1)"
  shows "steady s s1"
proof (rule steady_catching [OF assms(1,3)])
  fix r1 s2 assume e: "andThen (via_bridge m) (set_image_resource img) s = (r1, s2)"
  show "steady s s2"
    using e
  proof (rule steady_andThen)
    fix x s3 assume m: "via_bridge m s = (Inr x, s3)" and set: "set_image_resource img x s3 = (r1, s2)"
    have q: "steady s s3" using steady_bridge [OF assms(1) m] .
    obtain y where y: "images s3 img = Some y" using steady_image [OF q] assms(2) by fastforce
    then have "s2 = put_image img (y\<lparr>img_resourceID := x\<rparr>) s3" using set by (simp add: set_image_resource_def)
    then show "steady s3 s2"
      using steady_put_image [OF steady_placed [OF assms(1) q] y] by (simp add: same_place_def)
  qed (use steady_bridge [OF assms(1)] in auto)
qed

lemma steady_image_backing:
  assumes "resource_placed s" "images s img \<noteq> None"
  shows "ensureImageBacking img s = (r, s1) \<Longrightarrow> steady s s1" "ensureSparseImageBacking img s = (r, s1) \<Longrightarrow> steady s s1"
  using assms steady_refl [OF assms(1)]
  by (auto simp: ensureImageBacking_def ensureSparseImageBacking_def split: if_splits
      dest: steady_image_resource [OF assms])

lemma steady_upload_image_bytes:
  assumes "resource_placed s" "images s img \<noteq> None" "filled s (img_memory x) m" "mem_bytes m \<noteq> []"
    and "upload_image_bytes img x s = (r, s')"
  shows "steady s s'"
proof -
  let ?p = "img_memory x"
  obtain y where y: "images s img = Some y" using assms(2) by blast
  have m: "memories s ?p = Some m" using assms(3) by (simp add: filled_def)
  show ?thesis
  proof (cases "outside (img_memoryOffset x) (pixelBytes x) (mem_size m)")
    case True
    then show ?thesis using assms(1,5) y m steady_refl by (simp add: upload_image_bytes_def)
  next
    case False
    obtain r1 s1 where e: "(if mem_externalFD m \<ge> 0
        then refreshMemoryFromExternalFD ?p (img_memoryOffset x) (pixelBytes x) s else (VK_SUCCESS, s)) = (r1, s1)" by force
    then have q: "steady s s1" using steady_refresh [OF assms(1) m] steady_refl [OF assms(1)] by (auto split: if_splits)
    have p1: "resource_placed s1" using steady_placed [OF assms(1) q] .
    obtain m1 where m1: "filled s1 ?p m1" "kept m m1" using filled_steady [OF assms(1) q assms(3,4)] by blast
    have "unat (img_memoryOffset x) + unat (pixelBytes x) \<le> unat (mem_size m1)"
      using False m1(2) by (simp add: outside_unat kept_def)
    note loads = good_load [OF m1(1) this]
    show ?thesis
    proof (cases "r1 = VK_SUCCESS")
      case True
      then have "catching (andThen (via_bridge (bridge_writeImage (img_resourceID y)
          (slice_of (unat (img_memoryOffset x)) (unat (pixelBytes x)) (mem_bytes m1)))) (\<lambda>_. ret VK_SUCCESS))
          (ret VK_ERROR_DEVICE_LOST) s1 = (r, s')"
        using assms(5) y m e False loads by (simp add: upload_image_bytes_def)
      then have "steady s1 s'"
        by (rule steady_catching [OF p1])
          (auto elim!: steady_andThen dest: steady_bridge [OF p1] intro: steady_ret steady_placed [OF p1])
      then show ?thesis using q steady_trans by blast
    qed (use assms(5) y m e False q in \<open>simp add: upload_image_bytes_def\<close>)
  qed
qed

definition pixels_ready :: "vk \<Rightarrow> ptr \<Rightarrow> bool" where
  "pixels_ready s img \<longleftrightarrow> (\<exists>x. images s img = Some x
     \<and> (img_memory x = 0 \<or> (\<exists>m. memories s (img_memory x) = Some m \<and> mem_bytes m \<noteq> [])))"

lemma pixels_ready_steady: "pixels_ready s img \<Longrightarrow> steady s s1 \<Longrightarrow> pixels_ready s1 img"
  unfolding pixels_ready_def using steady_memory [of s s1] steady_image [of s s1] by (fastforce simp: kept_def same_place_def)

lemma steady_upload_image:
  assumes "resource_placed s" "images s img = Some x" "uploadComputeImageForMetal img s = (r, s')"
  shows "steady s s' \<and> (r = Inr VK_SUCCESS \<longrightarrow> pixels_ready s' img)"
proof -
  obtain br where br: "vkBridge s = Some br" using assms(1) by (auto simp: resource_placed_def)
  have reg: "images s img \<noteq> None" using assms(2) by simp
  consider (sparse) "img_flags x AND VK_IMAGE_CREATE_SPARSE_RESIDENCY_BIT \<noteq> 0"
    | (other) "img_flags x AND VK_IMAGE_CREATE_SPARSE_RESIDENCY_BIT = 0" "\<not> computeImage x"
    | (pixels) "img_flags x AND VK_IMAGE_CREATE_SPARSE_RESIDENCY_BIT = 0" "computeImage x" by blast
  then show ?thesis
  proof cases
    case sparse
    then have "steady s s'"
      using assms(2,3) br steady_image_backing(2) [OF assms(1) reg] by (simp add: uploadComputeImageForMetal_def)
    moreover have "img_memory x = 0" using assms(1,2) sparse by (auto simp: resource_placed_def)
    ultimately show ?thesis using steady_image [OF _ assms(2)] by (auto simp: pixels_ready_def same_place_def)
  next
    case other
    then show ?thesis using assms br steady_refl by (auto simp: uploadComputeImageForMetal_def)
  next
    case pixels
    have there: "memories s (img_memory x) \<noteq> None"
      using assms(1,2) pixels(2) by (auto simp: resource_placed_def computeImage_def)
    obtain s1 where h: "ensureHostBacking (img_memory x) s = (VK_SUCCESS, s1)"
      using there ensureHostBacking_result by (metis prod.collapse)
    from steady_host [OF assms(1) h] there obtain m where q: "steady s s1" "filled s1 (img_memory x) m" "mem_bytes m \<noteq> []"
      by blast
    have p1: "resource_placed s1" using steady_placed [OF assms(1) q(1)] .
    obtain y where y: "images s1 img = Some y" "same_place x y" using steady_image [OF q(1) assms(2)] by blast
    have e: "andThen (ensureImageBacking img) (\<lambda>r. if r \<noteq> VK_SUCCESS then ret r else upload_image_bytes img x) s1 = (r, s')"
      using assms(2,3) br pixels h by (simp add: uploadComputeImageForMetal_def)
    have backed: "steady s1 s2" if "ensureImageBacking img s1 = (r2, s2)" for r2 s2
      using steady_image_backing(1) [OF p1 _ that] y by simp
    have tail: "steady s2 s'"
      if b: "ensureImageBacking img s1 = (Inr r2, s2)" and t: "(if r2 \<noteq> VK_SUCCESS then ret r2 else upload_image_bytes img x) s2 = (r, s')"
      for r2 s2
    proof (cases "r2 = VK_SUCCESS")
      case True
      have p2: "resource_placed s2" using steady_placed [OF p1 backed [OF b]] .
      obtain m2 where m2: "filled s2 (img_memory x) m2" "mem_bytes m2 \<noteq> []" using filled_steady [OF p1 backed [OF b] q(2,3)] by blast
      have "images s2 img \<noteq> None" using steady_image [OF backed [OF b] y(1)] by auto
      then show ?thesis using steady_upload_image_bytes [OF p2 _ m2] t True by simp
    next
      case False
      then show ?thesis using t steady_ret steady_placed [OF p1 backed [OF b]] by auto
    qed
    have "steady s1 s'" using steady_andThen [OF e] backed tail by blast
    moreover have "pixels_ready s1 img" using y q(2,3) by (auto simp: pixels_ready_def filled_def same_place_def)
    ultimately show ?thesis using q(1) steady_trans pixels_ready_steady by blast
  qed
qed

section \<open>Gathering the bindings\<close>

text \<open>A binding of a buffer names a range inside the memory object that has the resource; the options of a sampler fit
  into the bits of the protocol.\<close>

definition dispatch_binding_inside :: "vk \<Rightarrow> BridgeComputeBinding \<Rightarrow> bool" where
  "dispatch_binding_inside s b \<longleftrightarrow>
    (if binding_kind b = BINDING_SAMPLER then binding_format b AND NOT IMB_COMPUTE_SAMPLER_OPTIONS_MASK = 0
     else if binding_kind b = TEXTURE_READ \<or> binding_kind b = TEXTURE_READ_WRITE then binding_length b = 0
     else binding_length b \<noteq> 0 \<and> (\<exists>p m. memories s p = Some m \<and> mem_resourceID m = binding_resourceID b
       \<and> mem_resourceID m \<noteq> 0 \<and> unat (binding_offset b) + unat (binding_length b) \<le> unat (mem_size m)))"

definition dispatch_ready :: "vk \<Rightarrow> prepared \<Rightarrow> bool" where
  "dispatch_ready s p \<longleftrightarrow> (\<forall>b \<in> set (prep_bindings p). dispatch_binding_inside s b)
    \<and> (\<forall>w \<in> set (writableBuffers p). \<exists>b. map_of (buffers s) (bb_buffer (fst w)) = Some b \<and> uploaded s b)
    \<and> (\<forall>img \<in> set (writableImages p). pixels_ready s img)"

lemma dispatch_binding_inside_steady:
  assumes "dispatch_binding_inside s b" "steady s s1"
  shows "dispatch_binding_inside s1 b"
proof -
  have "\<exists>p m1. memories s1 p = Some m1 \<and> mem_resourceID m1 = binding_resourceID b \<and> mem_resourceID m1 \<noteq> 0
      \<and> unat (binding_offset b) + unat (binding_length b) \<le> unat (mem_size m1)"
    if m: "memories s p = Some m" "mem_resourceID m = binding_resourceID b" "mem_resourceID m \<noteq> 0"
      "unat (binding_offset b) + unat (binding_length b) \<le> unat (mem_size m)" for p m
  proof -
    obtain m1 where "memories s1 p = Some m1" "kept m m1" using steady_memory [OF assms(2) m(1)] by blast
    then show ?thesis using m(2-) by (intro exI [of _ p] exI [of _ m1]) (simp add: kept_def)
  qed
  then show ?thesis using assms(1) unfolding dispatch_binding_inside_def by (auto split: if_splits)
qed

lemma ready_steady: "dispatch_ready s p \<Longrightarrow> steady s s1 \<Longrightarrow> dispatch_ready s1 p"
  unfolding dispatch_ready_def using dispatch_binding_inside_steady uploaded_steady pixels_ready_steady by (fastforce simp: steady_def)

text \<open>A part of the preparation, started with given buffers and descriptor sets.\<close>

definition prepares :: "(ptr \<times> BufferState) list \<Rightarrow> (ptr \<Rightarrow> DescriptorSetState option)
    \<Rightarrow> (prepared \<Rightarrow> (vk, VkResult + prepared) prog) \<Rightarrow> bool" where
  "prepares B D f \<longleftrightarrow> (\<forall>p s r s'. resource_placed s \<longrightarrow> dispatch_ready s p \<longrightarrow> buffers s = B \<longrightarrow> descriptorSets s = D \<longrightarrow> f p s = (r, s')
     \<longrightarrow> steady s s' \<and> (\<forall>q. r = Inr (Inr q) \<longrightarrow> dispatch_ready s' q))"

lemma preparesI:
  assumes "\<And>p s r s'. resource_placed s \<Longrightarrow> dispatch_ready s p \<Longrightarrow> buffers s = B \<Longrightarrow> descriptorSets s = D \<Longrightarrow> f p s = (r, s')
    \<Longrightarrow> steady s s' \<and> (\<forall>q. r = Inr (Inr q) \<longrightarrow> dispatch_ready s' q)"
  shows "prepares B D f"
  using assms by (simp add: prepares_def)

lemma preparesD:
  assumes "prepares B D f" "resource_placed s" "dispatch_ready s p" "buffers s = B" "descriptorSets s = D" "f p s = (r, s')"
  shows "steady s s'" "r = Inr (Inr q) \<Longrightarrow> dispatch_ready s' q"
  using assms by (auto simp: prepares_def)

lemma steady_sets: "steady s s1 \<Longrightarrow> buffers s1 = buffers s \<and> descriptorSets s1 = descriptorSets s"
  by (simp add: steady_def)

lemma prepares_then:
  assumes "prepares B D f" "prepares B D g"
  shows "prepares B D (prepare_then f g)"
proof (rule preparesI)
  fix p s r s'
  assume a: "resource_placed s" "dispatch_ready s p" "buffers s = B" "descriptorSets s = D" and e: "prepare_then f g p s = (r, s')"
  obtain r1 s1 where f: "f p s = (r1, s1)" by force
  note 1 = preparesD [OF assms(1) a f]
  show "steady s s' \<and> (\<forall>q. r = Inr (Inr q) \<longrightarrow> dispatch_ready s' q)"
  proof (cases "\<exists>q. r1 = Inr (Inr q)")
    case True
    then obtain q where q: "r1 = Inr (Inr q)" by blast
    have "g q s1 = (r, s')" using e f q by (simp add: prepare_then_def andThen_def)
    then show ?thesis
      using preparesD [OF assms(2) steady_placed [OF a(1) 1(1)] 1(2) [OF q]] steady_sets [OF 1(1)] a(3,4) 1(1) steady_trans
      by metis
  next
    case False
    then have "s' = s1 \<and> (\<forall>q. r \<noteq> Inr (Inr q))"
      using e f by (auto simp: prepare_then_def andThen_def ret_def split: sum.splits)
    then show ?thesis using 1(1) by auto
  qed
qed

lemma prepares_all: "(\<And>x. x \<in> set xs \<Longrightarrow> prepares B D (f x)) \<Longrightarrow> prepares B D (prepare_all f xs)"
proof (induction xs)
  case Nil
  then show ?case using steady_refl by (auto intro!: preparesI)
next
  case (Cons x xs)
  have "prepare_all f (x # xs) = prepare_then (f x) (prepare_all f xs)"
    by (auto simp: fun_eq_iff prepare_then_def andThen_def ret_def split: prod.split sum.split)
  then show ?case using prepares_then Cons by auto
qed

lemma bound_buffer_inside:
  assumes "uploaded s b" "memories s (buf_memory b) = Some m" "bb_offset d \<le> buf_size b" "n \<noteq> 0" "n \<le> buf_size b - bb_offset d"
  shows "dispatch_binding_inside s (bound_buffer i key d n b m)"
proof -
  have m: "mem_resourceID m \<noteq> 0" "unat (buf_memoryOffset b) + unat (buf_size b) \<le> unat (mem_size m)"
    using assms(1,2) by (auto simp: uploaded_def)
  have n: "unat (bb_offset d) + unat n \<le> unat (buf_size b)"
    using assms(3,5) unat_sub [OF assms(3)] by (simp add: word_le_nat_alt)
  have "unat (buf_memoryOffset b + bb_offset d) \<le> unat (buf_memoryOffset b) + unat (bb_offset d)" by (rule unat_add_le)
  then have "unat (buf_memoryOffset b + bb_offset d) + unat n \<le> unat (mem_size m)" using m(2) n by simp
  then show ?thesis using assms(2,4) m(1)
    by (auto simp: dispatch_binding_inside_def bound_buffer_def buffer_kind_def)
qed

lemma prepares_buffer:
  assumes "bb_buffer d = 0 \<or> map_of B (bb_buffer d) \<noteq> None"
  shows "prepares B D (prepare_buffer i (key, d))"
proof (rule preparesI)
  fix p s r s'
  assume a: "resource_placed s" "dispatch_ready s p" "buffers s = B" "descriptorSets s = D" and e: "prepare_buffer i (key, d) p s = (r, s')"
  show "steady s s' \<and> (\<forall>q. r = Inr (Inr q) \<longrightarrow> dispatch_ready s' q)"
  proof (cases "bb_buffer d = 0")
    case True
    then show ?thesis using e steady_refl [OF a(1)] by (auto simp: prepare_buffer_def)
  next
    case False
    then obtain b where b: "map_of (buffers s) (bb_buffer d) = Some b" using assms a(3) by blast
    let ?n = "if bb_range d = VK_WHOLE_SIZE then buf_size b - bb_offset d else bb_range d"
    show ?thesis
    proof (cases "buf_memory b = 0 \<or> bb_offset d > buf_size b \<or> ?n = 0 \<or> ?n > buf_size b - bb_offset d")
      case True
      then show ?thesis using e b False steady_refl [OF a(1)] by (auto simp: prepare_buffer_def Let_def split: if_splits)
    next
      case ok: False
      obtain r1 s1 where u: "uploadBufferForMetal (bb_buffer d) s = (r1, s1)" by force
      from steady_upload_buffer [OF a(1) b u] have q: "steady s s1" "r1 = Inr VK_SUCCESS \<Longrightarrow> uploaded s1 b" by auto
      obtain m where m: "memories s1 (buf_memory b) = Some m"
        using a(1) b ok steady_memory [OF q(1)] by (fastforce simp: resource_placed_def)
      have run: "andThen (uploadBufferForMetal (bb_buffer d)) (\<lambda>r s1.
          if r \<noteq> VK_SUCCESS then (Inr (Inl r), s1)
          else (case memories s1 (buf_memory b) of
            None \<Rightarrow> (Inr (Inl r), undefined_vk s1)
          | Some m \<Rightarrow>
              (Inr (Inr (p\<lparr>prep_bindings := prep_bindings p @ [bound_buffer i key d ?n b m],
                writableBuffers := writableBuffers p @ (if writable_buffer d then [(d, ?n)] else [])\<rparr>)), s1))) s = (r, s')"
        using e b False ok unfolding prepare_buffer_def Let_def by (simp split: if_splits)
      show ?thesis
      proof (cases "r1 = Inr VK_SUCCESS")
        case True
        have "dispatch_binding_inside s1 (bound_buffer i key d ?n b m)"
          by (rule bound_buffer_inside [OF q(2) [OF True] m]) (use ok in \<open>auto simp: not_less\<close>)
        moreover have "dispatch_ready s1 p" using ready_steady [OF a(2) q(1)] .
        moreover have "map_of (buffers s1) (bb_buffer d) = Some b" using b steady_sets [OF q(1)] by simp
        ultimately have "dispatch_ready s1 (p\<lparr>prep_bindings := prep_bindings p @ [bound_buffer i key d ?n b m],
            writableBuffers := writableBuffers p @ (if writable_buffer d then [(d, ?n)] else [])\<rparr>)"
          using q(2) [OF True] by (auto simp: dispatch_ready_def)
        then show ?thesis using run u True m q(1) by (auto simp: andThen_def)
      next
        case False
        then show ?thesis using run u m q(1) by (auto simp: andThen_def split: sum.splits if_splits)
      qed
    qed
  qed
qed

lemma prepares_image: "prepares B D (prepare_image i (key, d))"
proof (rule preparesI)
  fix p s r s'
  assume a: "resource_placed s" "dispatch_ready s p" "buffers s = B" "descriptorSets s = D" and e: "prepare_image i (key, d) p s = (r, s')"
  show "steady s s' \<and> (\<forall>q. r = Inr (Inr q) \<longrightarrow> dispatch_ready s' q)"
  proof (cases "imb_image d = 0 \<or> images s (imb_image d) = None")
    case True
    then show ?thesis using e steady_refl [OF a(1)] by (auto simp: prepare_image_def)
  next
    case False
    then obtain x where x: "images s (imb_image d) = Some x" by blast
    obtain r1 s1 where u: "uploadComputeImageForMetal (imb_image d) s = (r1, s1)" by force
    from steady_upload_image [OF a(1) x u] have q: "steady s s1" "r1 = Inr VK_SUCCESS \<Longrightarrow> pixels_ready s1 (imb_image d)" by auto
    obtain y where y: "images s1 (imb_image d) = Some y" using steady_image [OF q(1) x] by blast
    have "dispatch_binding_inside s1 (bound_image i key d y)" by (simp add: dispatch_binding_inside_def bound_image_def)
    then have "dispatch_ready s1 (p\<lparr>prep_bindings := prep_bindings p @ [bound_image i key d y],
        writableImages := writableImages p @ (if imb_type d = TYPE_STORAGE_IMAGE then [imb_image d] else [])\<rparr>)"
      if "r1 = Inr VK_SUCCESS"
      using ready_steady [OF a(2) q(1)] q(2) [OF that] by (auto simp: dispatch_ready_def)
    then show ?thesis using e False u y q(1) by (auto simp: prepare_image_def andThen_def split: sum.splits if_splits)
  qed
qed

lemma prepares_sampler: "prepares B D (prepare_sampler i device (key, sampler))"
proof (rule preparesI)
  fix p s r s'
  assume a: "resource_placed s" "dispatch_ready s p" "buffers s = B" "descriptorSets s = D" and e: "prepare_sampler i device (key, sampler) p s = (r, s')"
  have "dispatch_binding_inside s (bound_sampler i key x)" if "bridgeSamplerOptions x AND NOT IMB_COMPUTE_SAMPLER_OPTIONS_MASK = 0" for x
    using that by (simp add: dispatch_binding_inside_def bound_sampler_def)
  then show "steady s s' \<and> (\<forall>q. r = Inr (Inr q) \<longrightarrow> dispatch_ready s' q)"
    using e a(2) steady_refl [OF a(1)] by (auto simp: prepare_sampler_def dispatch_ready_def split: if_splits option.splits)
qed

definition buffers_live :: "(ptr \<times> BufferState) list \<Rightarrow> DescriptorSetState \<Rightarrow> bool" where
  "buffers_live B d \<longleftrightarrow> (\<forall>entry \<in> set (computeBuffers d).
     bb_buffer (snd entry) = 0 \<or> map_of B (bb_buffer (snd entry)) \<noteq> None)"

lemma prepares_set:
  assumes "\<And>d. D p = Some d \<Longrightarrow> buffers_live B d"
  shows "prepares B D (prepare_set (i, p))"
proof (cases "p = 0 \<or> D p = None")
  case True
  show ?thesis
  proof (rule preparesI)
    fix q s r s' assume "resource_placed s" "dispatch_ready s q" "descriptorSets s = D" "prepare_set (i, p) q s = (r, s')"
    then show "steady s s' \<and> (\<forall>q. r = Inr (Inr q) \<longrightarrow> dispatch_ready s' q)"
      using True steady_refl [of s] by (cases "p = 0") (auto simp: prepare_set_def)
  qed
next
  case False
  then obtain d where d: "D p = Some d" by blast
  let ?f = "prepare_then (prepare_all (prepare_buffer (word_of_nat i)) (computeBuffers d))
    (prepare_then (prepare_all (prepare_image (word_of_nat i)) (computeImages d))
      (prepare_all (prepare_sampler (word_of_nat i) (ds_device d)) (computeSamplers d)))"
  have "prepares B D ?f"
  proof (intro prepares_then prepares_all)
    show "prepares B D (prepare_buffer (word_of_nat i) x)" if "x \<in> set (computeBuffers d)" for x
      using prepares_buffer [of "snd x" B D "word_of_nat i" "fst x"] assms [OF d] that by (auto simp: buffers_live_def)
    show "prepares B D (prepare_image (word_of_nat i) x)" for x using prepares_image by (cases x) simp
    show "prepares B D (prepare_sampler (word_of_nat i) (ds_device d) x)" for x using prepares_sampler by (cases x) simp
  qed
  then show ?thesis using False d by (auto simp: prepare_set_def prepares_def)
qed

section \<open>Reading back\<close>

lemma readChunks_length:
  "readChunks resource n offset got b = (Inr bs, b') \<Longrightarrow> length got \<le> n \<Longrightarrow> length bs = n"
proof (induction resource n offset got arbitrary: b rule: readChunks.induct)
  case (1 resource n offset got)
  show ?case
  proof (cases "length got < n")
    case True
    let ?chunk = "min (unat IMB_PROTOCOL_MAX_PAYLOAD) (n - length got)"
    from "1.prems"(1) True obtain reply :: frame and b1 where reply: "length (frame_payload reply) = ?chunk"
      "readChunks resource n offset (got @ frame_payload reply) b1 = (Inr bs, b')"
      by (auto simp: readChunks.simps [of resource n offset got] andThen_def throw_def Let_def
          split: prod.splits sum.splits if_splits)
    have "length (got @ frame_payload reply) \<le> n" using True reply(1) by simp
    then show ?thesis using "1.IH" [OF _ refl refl, of reply b1] True reply by simp
  next
    case False
    then show ?thesis using "1.prems" by (simp add: readChunks.simps [of resource n offset got] ret_def)
  qed
qed

lemma readBuffer_length: "bridge_readBuffer resource n offset b = (Inr bs, b') \<Longrightarrow> length bs = unat n"
  using readChunks_length [of resource "unat n" offset "[]" b bs b'] by (simp add: bridge_readBuffer_def)

lemma readImage_length: "bridge_readImage resource n b = (Inr bs, b') \<Longrightarrow> length bs = unat n"
  by (auto simp: bridge_readImage_def andThen_def require_def ret_def throw_def split: prod.splits sum.splits if_splits)

lemma via_bridge_result: "via_bridge m s = (Inr x, s1) \<Longrightarrow> \<exists>b b1. m b = (Inr x, b1)"
  by (auto simp: via_bridge_def split: option.splits prod.splits)

lemma steady_take_back:
  assumes "resource_placed s" "memories s p = Some m" "mem_bytes m \<noteq> []" "length bs = unat n" "\<not> outside offset n (mem_size m)"
    and "take_back p offset n bs s = (r, s')"
  shows "steady s s'"
proof -
  have g: "good s" using assms(1) by (simp add: resource_placed_def)
  have f: "filled s p m" using filled_here [OF g assms(2,3)] .
  have q: "steady s (store_memory p (unat offset) bs s)"
    by (rule steady_store [OF assms(1) f]) (use assms(4,5) in \<open>simp add: outside_unat\<close>)
  obtain m1 where "memories (store_memory p (unat offset) bs s) p = Some m1" using steady_memory [OF q assms(2)] by blast
  then have "steady (store_memory p (unat offset) bs s) s'"
    using steady_sync [OF steady_placed [OF assms(1) q]] assms(6) by (auto simp: take_back_def split: prod.splits)
  then show ?thesis using q steady_trans by blast
qed

text \<open>Reading bytes of the host into a memory object.\<close>

lemma steady_read_into:
  assumes "resource_placed s" "memories s p = Some m" "mem_bytes m \<noteq> []" "\<not> outside offset n (mem_size m)"
    and "\<And>b bs b1. read b = (Inr bs, b1) \<Longrightarrow> length bs = unat n"
    and "andThen (via_bridge read) (take_back p offset n) s = (r, s')"
  shows "steady s s'"
  using assms(6)
proof (rule steady_andThen)
  fix bs s1 assume v: "via_bridge read s = (Inr bs, s1)" and t: "take_back p offset n bs s1 = (r, s')"
  have q: "steady s s1" using steady_bridge [OF assms(1) v] .
  obtain m1 where m1: "memories s1 p = Some m1" "kept m m1" using steady_memory [OF q assms(2)] by blast
  have "length bs = unat n" using via_bridge_result [OF v] assms(5) by blast
  then show "steady s1 s'"
    using steady_take_back [OF steady_placed [OF assms(1) q] m1(1) _ _ _ t] m1(2) assms(3,4) by (simp add: kept_def)
qed (use steady_bridge [OF assms(1)] in blast)

lemma steady_read_back_buffer:
  assumes "resource_placed s" "map_of (buffers s) (bb_buffer (fst w)) = Some b" "uploaded s b" "read_back_buffer w s = (r, s')"
  shows "steady s s'"
proof -
  obtain d n where w: "w = (d, n)" by force
  obtain m where m: "memories s (buf_memory b) = Some m" "mem_bytes m \<noteq> []" using assms(3) by (auto simp: uploaded_def)
  show ?thesis
  proof (cases "outside (buf_memoryOffset b + bb_offset d) n (mem_size m)")
    case True
    then show ?thesis using assms w m steady_refl by (simp add: read_back_buffer_def Let_def)
  next
    case False
    then have "andThen (via_bridge (bridge_readBuffer (mem_resourceID m) n (buf_memoryOffset b + bb_offset d)))
        (take_back (buf_memory b) (buf_memoryOffset b + bb_offset d) n) s = (r, s')"
      using assms w m by (simp add: read_back_buffer_def Let_def)
    then show ?thesis using steady_read_into [OF assms(1) m False] readBuffer_length by blast
  qed
qed

lemma steady_dirty_image:
  assumes "resource_placed s" "images s img \<noteq> None"
  shows "steady s (set_image_dirty img s)"
proof -
  obtain x where "images s img = Some x" using assms(2) by blast
  then show ?thesis using steady_put_image [OF assms(1), of img x "x\<lparr>img_dirty := True\<rparr>"]
    by (simp add: set_image_dirty_def change_image_def same_place_def)
qed

lemma steady_read_back_pixels:
  assumes "resource_placed s" "pixels_ready s img" "read_back_pixels img s = (r, s')"
  shows "steady s s'"
proof -
  obtain x where x: "images s img = Some x"
    "img_memory x = 0 \<or> (\<exists>m. memories s (img_memory x) = Some m \<and> mem_bytes m \<noteq> [])"
    using assms(2) by (auto simp: pixels_ready_def)
  let ?accepted = "img_memory x \<noteq> 0 \<and> (img_format x = VK_FORMAT_R8G8B8A8_UNORM \<or> img_format x = VK_FORMAT_B8G8R8A8_UNORM)
    \<and> img_mipLevels x = 1 \<and> img_arrayLayers x = 1"
  show ?thesis
  proof (cases ?accepted)
    case False
    then have "s' = s" using assms(3) x(1) by (auto simp: read_back_pixels_def)
    then show ?thesis using steady_refl [OF assms(1)] by simp
  next
    case True
    then obtain m where m: "memories s (img_memory x) = Some m" "mem_bytes m \<noteq> []" using x(2) by blast
    let ?read = "andThen (via_bridge (bridge_readImage (img_resourceID x) (pixelBytes x)))
      (take_back (img_memory x) (img_memoryOffset x) (pixelBytes x))"
    let ?fin = "\<lambda>r s1. if r \<noteq> VK_SUCCESS then (Inr r, s1) else (Inr VK_SUCCESS, set_image_dirty img s1)"
    show ?thesis
    proof (cases "outside (img_memoryOffset x) (pixelBytes x) (mem_size m)")
      case outer: True
      then have "s' = s" using assms(3) x(1) True m by (auto simp: read_back_pixels_def)
      then show ?thesis using steady_refl [OF assms(1)] by simp
    next
      case False
      then have e: "andThen ?read ?fin s = (r, s')"
        using assms(3) x(1) True m by (simp add: read_back_pixels_def andThen_assoc split: if_splits)
      have 1: "steady s s1" if "?read s = (r1, s1)" for r1 s1
        using steady_read_into [OF assms(1) m False _ that] readImage_length by blast
      show ?thesis
        using e
      proof (rule steady_andThen)
        fix r1 s1 assume read: "?read s = (Inr r1, s1)" and fin: "?fin r1 s1 = (r, s')"
        have p1: "resource_placed s1" using steady_placed [OF assms(1) 1 [OF read]] .
        have "images s1 img \<noteq> None" using steady_image [OF 1 [OF read] x(1)] by auto
        then show "steady s1 s'" using fin steady_refl [OF p1] steady_dirty_image [OF p1] by (auto split: if_splits)
      qed (rule 1)
    qed
  qed
qed

lemma steady_read_back_all:
  assumes "\<And>x s s'. P x s \<Longrightarrow> steady s s' \<Longrightarrow> P x s'"
    and "\<And>x s r s'. resource_placed s \<Longrightarrow> P x s \<Longrightarrow> f x s = (r, s') \<Longrightarrow> steady s s'"
    and "resource_placed s" "\<forall>x \<in> set xs. P x s" "read_back_all f xs s = (r, s')"
  shows "steady s s'"
  using assms(3-)
proof (induction xs arbitrary: s)
  case Nil
  then show ?case using steady_refl by simp
next
  case (Cons x xs)
  obtain r1 s1 where f: "f x s = (r1, s1)" by force
  have q: "steady s s1" using assms(2) [OF Cons.prems(1) _ f] Cons.prems(2) by simp
  show ?case
  proof (cases "r1 = Inr VK_SUCCESS")
    case True
    then have "steady s1 s'"
      using Cons.IH [OF steady_placed [OF Cons.prems(1) q]] Cons.prems(2,3) assms(1) [OF _ q] f by simp
    then show ?thesis using q steady_trans by blast
  next
    case False
    then show ?thesis using Cons.prems(3) f q by (auto split: sum.splits if_splits)
  qed
qed

lemma steady_submit:
  assumes "resource_placed s" "dispatch_ready s p" "submit_prepared dispatch pipe p s = (r, s')"
  shows "steady s s'"
  using assms(3) unfolding submit_prepared_def
proof (rule steady_andThen)
  fix fence s1 assume v: "via_bridge (bridge_submitCompute (bridgeComputePipelineID pipe) (cd_groupCountX dispatch)
      (cd_groupCountY dispatch) (cd_groupCountZ dispatch) (prep_bindings p) (cd_pushConstants dispatch)) s = (Inr fence, s1)"
    and e: "andThen (via_bridge (bridge_waitFence fence)) (\<lambda>_.
      andThen (read_back_all read_back_buffer (writableBuffers p)) (\<lambda>r.
        if r \<noteq> VK_SUCCESS then ret r else read_back_all read_back_pixels (writableImages p))) s1 = (r, s')"
  have q1: "steady s s1" using steady_bridge [OF assms(1) v] .
  have p1: "resource_placed s1" using steady_placed [OF assms(1) q1] .
  show "steady s1 s'"
    using e
  proof (rule steady_andThen)
    fix u s2 assume w: "via_bridge (bridge_waitFence fence) s1 = (Inr u, s2)"
      and e2: "andThen (read_back_all read_back_buffer (writableBuffers p)) (\<lambda>r.
        if r \<noteq> VK_SUCCESS then ret r else read_back_all read_back_pixels (writableImages p)) s2 = (r, s')"
    have q2: "steady s1 s2" using steady_bridge [OF p1 w] .
    have p2: "resource_placed s2" using steady_placed [OF p1 q2] .
    have r2: "dispatch_ready s2 p" using ready_steady [OF ready_steady [OF assms(2) q1] q2] .
    let ?P = "\<lambda>w s. \<exists>b. map_of (buffers s) (bb_buffer (fst w)) = Some b \<and> uploaded s b"
    have P: "?P w s'" if "?P w s" "steady s s'" for w s s'
      using that steady_sets [OF that(2)] uploaded_steady by fastforce
    have 3: "steady s2 s3" if "read_back_all read_back_buffer (writableBuffers p) s2 = (r3, s3)" for r3 s3
      by (rule steady_read_back_all [where P = ?P, OF P _ p2 _ that])
        (use steady_read_back_buffer r2 in \<open>auto simp: dispatch_ready_def\<close>)
    show "steady s2 s'"
      using e2
    proof (rule steady_andThen)
      fix r3 s3 assume b: "read_back_all read_back_buffer (writableBuffers p) s2 = (Inr r3, s3)"
        and t: "(if r3 \<noteq> VK_SUCCESS then ret r3 else read_back_all read_back_pixels (writableImages p)) s3 = (r, s')"
      have p3: "resource_placed s3" using steady_placed [OF p2 3 [OF b]] .
      have "\<forall>img \<in> set (writableImages p). pixels_ready s3 img"
        using ready_steady [OF r2 3 [OF b]] by (simp add: dispatch_ready_def)
      moreover have "steady s3 s'" if "read_back_all read_back_pixels (writableImages p) s3 = (r, s')"
        by (rule steady_read_back_all [where P = "\<lambda>img s. pixels_ready s img", OF _ _ p3 _ that])
          (use pixels_ready_steady steady_read_back_pixels calculation in blast)+
      ultimately show "steady s3 s'" using t steady_ret [OF p3] by (auto split: if_splits)
    qed (rule 3)
  qed (use steady_bridge [OF p1] in blast)
qed (use steady_bridge [OF assms(1)] in blast)

section \<open>Dispatches\<close>

definition dispatch_live :: "RecordedComputeDispatch \<Rightarrow> vk \<Rightarrow> bool" where
  "dispatch_live dispatch s \<longleftrightarrow>
    (\<forall>pipe. pipelines s (cd_pipeline dispatch) = Some pipe \<longrightarrow> pipelineLayouts s (pipe_layout pipe) \<noteq> None)
    \<and> (\<forall>p \<in> set (cd_descriptorSets dispatch). \<forall>d. descriptorSets s p = Some d \<longrightarrow> buffers_live (buffers s) d)"

lemma bound_sets_in: "(i, p) \<in> set (bound_sets dispatch layout) \<Longrightarrow> p \<in> set (cd_descriptorSets dispatch)"
  by (auto simp: bound_sets_def Let_def dest: set_zip_rightD)

lemma prepares_dispatch:
  assumes "dispatch_live dispatch s"
  shows "prepares (buffers s) (descriptorSets s) (prepare_all prepare_set (bound_sets dispatch layout))"
proof (rule prepares_all)
  fix x assume x: "x \<in> set (bound_sets dispatch layout)"
  then have "snd x \<in> set (cd_descriptorSets dispatch)" using bound_sets_in [of "fst x" "snd x"] by simp
  then have "buffers_live (buffers s) d" if "descriptorSets s (snd x) = Some d" for d
    using assms that by (simp add: dispatch_live_def)
  then show "prepares (buffers s) (descriptorSets s) (prepare_set x)"
    using prepares_set [of "descriptorSets s" "snd x" "buffers s" "fst x"] by simp
qed

text \<open>C23: Whatever a dispatch tells the host of its buffers lies inside the memory objects: each binding of a buffer has a
  range that is not empty and lies in the memory object with the resource it names, although the code adds the offsets of
  buffer and descriptor at 64 bits; a texture has no range, and a sampler sets no bit outside the mask of the protocol. The
  dispatch may refer only to objects that exist.\<close>

lemma compute_bindings_inside:
  assumes "resource_placed s" "dispatch_live dispatch s"
    and "prepare_all prepare_set (bound_sets dispatch layout) \<lparr>prep_bindings = [], writableBuffers = [], writableImages = []\<rparr> s
      = (Inr (Inr p), s')"
  shows "\<forall>b \<in> set (prep_bindings p). dispatch_binding_inside s' b"
proof -
  have "dispatch_ready s \<lparr>prep_bindings = [], writableBuffers = [], writableImages = []\<rparr>" by (simp add: dispatch_ready_def)
  from preparesD(2) [OF prepares_dispatch [OF assms(2)] assms(1) this refl refl assms(3) refl]
  show ?thesis by (simp add: dispatch_ready_def)
qed

text \<open>C22: A dispatch that refers only to objects that exist follows no pointer to freed memory and copies nothing outside
  the bytes of a memory object, neither before nor after the host runs it and however the connection fails; the memory
  objects stay well formed, and buffers and descriptor sets stay as they are.\<close>

lemma compute_dispatch_safe:
  assumes "resource_placed s" "dispatch_live dispatch s" "bridgeComputeDispatch dispatch s = (r, s')"
  shows "\<not> vk_broken s' \<and> memories_ok s' \<and> buffers s' = buffers s \<and> descriptorSets s' = descriptorSets s
    \<and> (\<forall>p m. memories s p = Some m \<longrightarrow> (\<exists>m'. memories s' p = Some m' \<and> mem_size m' = mem_size m))"
proof -
  let ?none = "\<lparr>prep_bindings = [], writableBuffers = [], writableImages = []\<rparr>"
  have "steady s s'"
  proof (cases "\<exists>pipe layout. pipelines s (cd_pipeline dispatch) = Some pipe \<and> pipelineLayouts s (pipe_layout pipe) = Some layout
      \<and> s' \<noteq> s")
    case False
    then have "s' = s" using assms(2,3)
      by (auto simp: bridgeComputeDispatch_def dispatch_live_def split: option.splits if_splits)
    then show ?thesis using steady_refl [OF assms(1)] by simp
  next
    case True
    then obtain pipe layout where pl: "pipelines s (cd_pipeline dispatch) = Some pipe"
      "pipelineLayouts s (pipe_layout pipe) = Some layout" and changed: "s' \<noteq> s" by blast
    let ?prepare = "prepare_all prepare_set (bound_sets dispatch layout) ?none"
    let ?rest = "\<lambda>r. case r of Inl e \<Rightarrow> ret e | Inr p \<Rightarrow> submit_prepared dispatch pipe p"
    have e: "catching (andThen ?prepare ?rest) (ret VK_ERROR_DEVICE_LOST) s = (r, s')"
      using assms(3) pl changed by (simp add: bridgeComputeDispatch_def split: if_splits)
    have r0: "dispatch_ready s ?none" by (simp add: dispatch_ready_def)
    note prep = preparesD [OF prepares_dispatch [OF assms(2)] assms(1) r0 refl refl]
    show ?thesis
    proof (rule steady_catching [OF assms(1) e])
      fix r1 s1 assume "andThen ?prepare ?rest s = (r1, s1)"
      then show "steady s s1"
      proof (rule steady_andThen)
        show "steady s s2" if "?prepare s = (r2, s2)" for r2 s2 using prep(1) [OF that] .
        show "steady s2 s1" if p: "?prepare s = (Inr x, s2)" and t: "?rest x s2 = (r1, s1)" for x s2
          using t steady_ret [OF steady_placed [OF assms(1) prep(1) [OF p]]] prep(2) [OF p]
            steady_submit [OF steady_placed [OF assms(1) prep(1) [OF p]]]
          by (cases x) auto
      qed
    qed
  qed
  then show ?thesis unfolding steady_def memories_kept_def good_def by (fastforce simp: kept_def)
qed

text \<open>A memory object of 8 bytes, a buffer of its last 6 bytes, and a set with the last two bytes of the buffer.\<close>

definition dispatch_buffer :: BufferState where
  "dispatch_buffer = \<lparr>buf_device = 1, buf_size = 6, buf_usage = 0, buf_flags = 0, buf_memory = 7, buf_memoryOffset = 2,
     deviceAddress = 0, buf_sparseBindings = []\<rparr>"

definition dispatch_memory :: DeviceMemoryState where
  "dispatch_memory = new_memory\<lparr>mem_device := 1, mem_size := 8, mem_resourceID := 5, mem_bytes := replicate 8 0\<rparr>"

definition dispatch_binding :: BufferBinding where
  "dispatch_binding = \<lparr>bb_buffer = 3, bb_offset = 4, bb_range = VK_WHOLE_SIZE, bb_type = TYPE_STORAGE_BUFFER, bb_format = 0\<rparr>"

definition dispatch_layout :: PipelineLayoutState where
  "dispatch_layout = \<lparr>pl_device = 1, setLayouts = [13], pushConstantRanges = []\<rparr>"

definition dispatch_pipeline :: PipelineState where
  "dispatch_pipeline = \<lparr>pipe_device = 1, pipe_layout = 16, isAddUInt32 = False, usesFloat64Matrix = False,
     requiresSoftwareFloat64Execution = False, computeHash = 0, bridgeComputePipelineID = 6, graphics = False,
     isFixedTriangle = False, isKitUI = False\<rparr>"

definition dispatch_driver :: vk where
  "dispatch_driver = (vk_init (cuda_init [] Map.empty) [] []
     (Some ((bridge_init \<lparr>sent = [], writes = [], reads = []\<rparr>)
       \<lparr>capabilities := \<lparr>cap_bits = 0, maxBufferLength = 64, deviceName = []\<rparr>\<rparr>)))
     \<lparr>devices := [(1, [])], memories := [7 \<mapsto> dispatch_memory], buffers := [(3, dispatch_buffer)],
      descriptorSets := [11 \<mapsto> (new_set 1 12 13)\<lparr>computeBuffers := [(descriptor_key 4 0, dispatch_binding)]\<rparr>],
      pipelineLayouts := [16 \<mapsto> dispatch_layout], pipelines := [15 \<mapsto> dispatch_pipeline]\<rparr>"

definition dispatch_example :: RecordedComputeDispatch where
  "dispatch_example = \<lparr>cd_sequence = 1, cd_pipeline = 15, bridgeEligible = True, cd_descriptorSets = 11 # replicate 31 0,
     cd_groupCountX = 1, cd_groupCountY = 1, cd_groupCountZ = 1, cd_pushConstants = []\<rparr>"

lemma dispatch_example_fits: "resource_placed dispatch_driver" "dispatch_live dispatch_example dispatch_driver"
  by (simp_all add: resource_placed_def good_def memories_ok_def memory_ok_def dispatch_driver_def dispatch_memory_def vk_init_def
    new_memory_def dispatch_buffer_def dispatch_live_def dispatch_example_def dispatch_pipeline_def buffers_live_def
    dispatch_binding_def new_set_def)

lemma dispatch_example_prepared:
  "prepare_all prepare_set (bound_sets dispatch_example dispatch_layout)
     \<lparr>prep_bindings = [], writableBuffers = [], writableImages = []\<rparr> dispatch_driver
   = (Inr (Inr \<lparr>prep_bindings = [\<lparr>binding_descriptorSet = 0, binding_binding = 4, binding_arrayElement = 0,
       binding_kind = BUFFER_READ_WRITE, binding_format = 0, binding_resourceID = 5, binding_offset = 6, binding_length = 2\<rparr>],
       writableBuffers = [(dispatch_binding, 2)], writableImages = []\<rparr>), dispatch_driver)"
proof -
  have sets: "bound_sets dispatch_example dispatch_layout = [(0, 11)]"
    by (simp add: bound_sets_def dispatch_example_def dispatch_layout_def Let_def)
  have upload: "uploadBufferForMetal 3 dispatch_driver = (Inr VK_SUCCESS, dispatch_driver)"
    by (simp add: uploadBufferForMetal_def dispatch_driver_def vk_init_def dispatch_buffer_def ensureMemoryBacking_def
      ensureHostBacking_def dispatch_memory_def new_memory_def andThen_def outside_def is_dirty_def)
  have key: "key_binding (descriptor_key 4 0) = 4" "key_element (descriptor_key 4 0) = 0"
    by (simp_all add: key_binding_def key_element_def descriptor_key_def)
  show ?thesis
    using upload by (simp add: sets prepare_set_def prepare_then_def prepare_buffer_def andThen_def ret_def dispatch_driver_def
      vk_init_def new_set_def dispatch_binding_def dispatch_buffer_def dispatch_memory_def new_memory_def bound_buffer_def key
      buffer_kind_def writable_buffer_def texel_buffer_def Let_def)
qed

lemma compute_bindings_inside_witness:
  "dispatch_binding_inside dispatch_driver \<lparr>binding_descriptorSet = 0, binding_binding = 4, binding_arrayElement = 0,
     binding_kind = BUFFER_READ_WRITE, binding_format = 0, binding_resourceID = 5, binding_offset = 6, binding_length = 2\<rparr>"
  using compute_bindings_inside [OF dispatch_example_fits dispatch_example_prepared] by simp

lemma compute_dispatch_safe_witness:
  "\<not> vk_broken (snd (bridgeComputeDispatch dispatch_example dispatch_driver))"
  using compute_dispatch_safe [OF dispatch_example_fits, of "fst (bridgeComputeDispatch dispatch_example dispatch_driver)"
    "snd (bridgeComputeDispatch dispatch_example dispatch_driver)"] by simp

text \<open>Without the assumption: the code reads the memory of a descriptor's buffer before it looks whether the buffer still
  exists, and the layout of a pipeline, which an application may destroy once the pipeline is made, not at all.\<close>

lemma dispatch_of_destroyed_buffer:
  "vk_broken (snd (prepare_buffer 0 (descriptor_key 4 0, dispatch_binding) p (dispatch_driver\<lparr>buffers := []\<rparr>)))"
  by (simp add: prepare_buffer_def dispatch_binding_def undefined_vk_def)

lemma dispatch_of_destroyed_layout:
  "vk_broken (snd (bridgeComputeDispatch dispatch_example (vkDestroyPipelineLayout 16 dispatch_driver)))"
  by (simp add: bridgeComputeDispatch_def vkDestroyPipelineLayout_def dispatch_driver_def vk_init_def dispatch_example_def
    dispatch_pipeline_def undefined_vk_def)

section \<open>Push constants\<close>

text \<open>The bytes as a map, and the call as an update of the map: the bytes between the old end and the new values are zero.\<close>

definition pushed_map :: "bytes \<Rightarrow> nat \<Rightarrow> u8 option" where
  "pushed_map bs i = (if i < length bs then Some (bs ! i) else None)"

definition push_update :: "nat \<Rightarrow> bytes \<Rightarrow> (nat \<Rightarrow> u8 option) \<Rightarrow> nat \<Rightarrow> u8 option" where
  "push_update offset vals m i =
    (if offset \<le> i \<and> i < offset + length vals then Some (vals ! (i - offset))
     else if i < offset \<and> m i = None then Some 0 else m i)"

definition push_accepted :: "u32 \<times> u32 \<times> bytes \<Rightarrow> bool" where
  "push_accepted call \<longleftrightarrow> (case call of (stageFlags, offset, vals) \<Rightarrow>
     stageFlags AND VK_SHADER_STAGE_COMPUTE_BIT \<noteq> 0 \<and> vals \<noteq> [] \<and> unat offset \<le> 4096 \<and> length vals \<le> 4096 - unat offset)"

definition push_calls :: "ptr \<Rightarrow> ptr \<Rightarrow> (u32 \<times> u32 \<times> bytes) list \<Rightarrow> vk \<Rightarrow> vk" where
  "push_calls command layout calls =
     fold (\<lambda>(stageFlags, offset, vals). vkCmdPushConstants command layout stageFlags offset (Some vals)) calls"

lemma length_push_bytes: "vals \<noteq> [] \<Longrightarrow> length (push_bytes offset vals old) = max (length old) (offset + length vals)"
  by (auto simp: push_bytes_def splice_def max_def)

lemma pushed_map_push:
  assumes "vals \<noteq> []"
  shows "pushed_map (push_bytes offset vals old) = push_update offset vals (pushed_map old)"
proof
  fix i
  let ?padded = "old @ replicate (offset + length vals - length old) 0"
  have nth: "push_bytes offset vals old ! i = (if offset \<le> i \<and> i < offset + length vals then vals ! (i - offset) else ?padded ! i)"
    if "i < max (length old) (offset + length vals)"
  proof -
    consider "i < offset" | "offset \<le> i" "i < offset + length vals" | "offset + length vals \<le> i" by linarith
    then show ?thesis
    proof cases
      case 1
      then show ?thesis by (auto simp: push_bytes_def splice_def nth_append min_def)
    next
      case 2
      then show ?thesis by (auto simp: push_bytes_def splice_def nth_append min_def split: if_splits)
    next
      case 3
      then show ?thesis using that by (auto simp: push_bytes_def splice_def nth_append min_def split: if_splits)
    qed
  qed
  show "pushed_map (push_bytes offset vals old) i = push_update offset vals (pushed_map old) i"
    using assms by (auto simp: pushed_map_def push_update_def length_push_bytes nth nth_append)
qed

lemma push_constant_fields:
  "computePushConstants (push_addend st offset vals c) = computePushConstants c"
  "computePushConstants (push_texture st offset vals c) = computePushConstants c"
  "recording (push_addend st offset vals c) = recording c" "recording (push_texture st offset vals c) = recording c"
  "recording (push_compute st offset vals c) = recording c"
  by (simp_all add: push_addend_def push_texture_def push_compute_def)

lemma push_compute_map:
  "pushed_map (computePushConstants (push_compute st offset vals c)) =
    (if push_accepted (st, offset, vals) then push_update (unat offset) vals (pushed_map (computePushConstants c))
     else pushed_map (computePushConstants c))"
  by (auto simp: push_compute_def push_accepted_def pushed_map_push)

lemma push_compute_length:
  "length (computePushConstants c) \<le> 4096 \<Longrightarrow> length (computePushConstants (push_compute st offset vals c)) \<le> 4096"
  by (auto simp: push_compute_def length_push_bytes)

text \<open>C24: The push constants of a command buffer that is recording refine a map from offsets to bytes: after any calls with a
  layout that exists, each byte is the one of the last accepted call that covers it, or zero when only later bytes were
  pushed, and the others are not there. They never grow beyond the 4096 bytes that the host accepts. Allocations of the
  container are taken to succeed: when one fails, the code clears the push constants.\<close>

lemma push_constants_refine_map:
  assumes "commandBuffers s command = Some c" "recording c" "pipelineLayouts s layout \<noteq> None"
    and "length (computePushConstants c) \<le> 4096"
  shows "\<exists>c'. commandBuffers (push_calls command layout calls s) command = Some c'
    \<and> pushed_map (computePushConstants c') =
        fold (\<lambda>(stageFlags, offset, vals). push_update (unat offset) vals) (filter push_accepted calls)
          (pushed_map (computePushConstants c))
    \<and> length (computePushConstants c') \<le> 4096"
  using assms
proof (induction calls arbitrary: s c)
  case Nil
  then show ?case by (simp add: push_calls_def)
next
  case (Cons call calls)
  obtain st offset vals where call: "call = (st, offset, vals)" by (cases call)
  let ?c = "push_texture st offset vals (push_addend st offset vals (push_compute st offset vals c))"
  let ?s = "put_command command ?c s"
  have step: "push_calls command layout (call # calls) s = push_calls command layout calls ?s"
    using Cons.prems by (auto simp: push_calls_def call vkCmdPushConstants_def recording_command_def)
  have "\<exists>c'. commandBuffers (push_calls command layout calls ?s) command = Some c'
    \<and> pushed_map (computePushConstants c') =
        fold (\<lambda>(stageFlags, offset, vals). push_update (unat offset) vals) (filter push_accepted calls)
          (pushed_map (computePushConstants ?c))
    \<and> length (computePushConstants c') \<le> 4096"
    by (rule Cons.IH) (use Cons.prems push_compute_length in \<open>simp_all add: put_command_def push_constant_fields\<close>)
  then show ?case unfolding step
    by (cases "push_accepted (st, offset, vals)") (simp_all add: call push_constant_fields push_compute_map)
qed

lemma push_constants_refine_map_witness:
  "\<exists>c'. commandBuffers (push_calls 5 16 [(0x20, 4, [1, 2]), (0x20, 5, [3])]
      (dispatch_driver\<lparr>commandBuffers := [5 \<mapsto> (new_command 1 2)\<lparr>recording := True\<rparr>]\<rparr>)) 5 = Some c'
    \<and> pushed_map (computePushConstants c') 0 = Some 0 \<and> pushed_map (computePushConstants c') 4 = Some 1
    \<and> pushed_map (computePushConstants c') 5 = Some 3 \<and> pushed_map (computePushConstants c') 6 = None"
proof -
  let ?s = "dispatch_driver\<lparr>commandBuffers := [5 \<mapsto> (new_command 1 2)\<lparr>recording := True\<rparr>]\<rparr>"
  obtain c' where "commandBuffers (push_calls 5 16 [(0x20, 4, [1, 2]), (0x20, 5, [3])] ?s) 5 = Some c'"
    "pushed_map (computePushConstants c') =
        fold (\<lambda>(stageFlags, offset, vals). push_update (unat offset) vals)
          (filter push_accepted [(0x20, 4, [1, 2]), (0x20, 5, [3])]) (pushed_map [])"
    using push_constants_refine_map [of ?s 5 "(new_command 1 2)\<lparr>recording := True\<rparr>" 16
        "[(0x20, 4, [1, 2]), (0x20, 5, [3])]"]
    by (auto simp: new_command_def dispatch_driver_def)
  then show ?thesis by (intro exI [of _ c']) (simp add: push_accepted_def push_update_def pushed_map_def)
qed

end
