(* ===== verification/Spec2Isabelle.thy ===== *)
theory Spec2Isabelle
  imports BridgeProps CudaDispatch CudaSafety CudaMemSafety CudaMemoryProps CudaIntegrity CudaStorage ClockShim FileOpenTrace
    VkFormatProps VkSyncProps VkImageCopy VkCommandProps VkSparseProps VkFence VkMemoryProps
    VkComputeProps
begin

text \<open>
  IsaacMetalBridge lets a Linux guest use the Metal GPU of a macOS host. This library models the C++ code
  of the guest: the wire protocol and the probe that talks it to the host, the compatibility driver
  that stands in for the CUDA driver, the core of the Vulkan driver (its connection to the host, memory, transfers,
  recorded commands, sparse bindings and synchronization), and two small libraries that are preloaded into the
  application.

  \<^bold>\<open>The program's parts.\<close> \<^verbatim>\<open>protocol/include/imb_protocol.h\<close> fixes the messages, and
  \<^verbatim>\<open>guest/src/imb_wire.hpp\<close> encodes them. \<^verbatim>\<open>guest/src/main.cpp\<close> is the probe: one client over three
  transports. \<^verbatim>\<open>guest/cuda_shim/imb_cuda_shim.cpp\<close> exports the CUDA driver interface; it does not
  talk to the host, its memory is host memory and its calls run at once.
  \<^verbatim>\<open>guest/vulkan_icd/imb_vulkan_icd.cpp\<close> is the Vulkan driver, which sends the work to the host through its class
  \<^verbatim>\<open>BridgeConnection\<close>, keeps the bytes of device memory in the guest and runs transfers there; it shares memory
  and semaphores with the CUDA driver through files. \<^verbatim>\<open>guest/timer_shim/imb_clock_shim.cpp\<close> delays some calls of \<^verbatim>\<open>clock_gettime\<close>, and
  \<^verbatim>\<open>guest/diagnostics/imb_file_open_trace.cpp\<close> reports the files that are opened.

  \<^bold>\<open>The theories.\<close>

  \<^item> \<^verbatim>\<open>Prelude\<close>: machine words, programs with state and exceptions, registries.
  \<^item> \<^verbatim>\<open>Wire\<close>: the codec of \<^verbatim>\<open>imb_wire.hpp\<close>; locale \<open>fixed_codec\<close>, interpreted for the integers and the
    header.
  \<^item> \<^verbatim>\<open>Transport\<close>: the read and write loops of \<^verbatim>\<open>main.cpp\<close> over scripts of the kernel's answers; locale
    \<open>byte_transport\<close>, interpreted for the classes that implement it.
  \<^item> \<^verbatim>\<open>Exchange\<close>, \<^verbatim>\<open>ProbeClient\<close>, \<^verbatim>\<open>ProbeRun\<close>, \<^verbatim>\<open>ProbeProps\<close>: one request and its reply, the class
    \<^verbatim>\<open>Client\<close>, whole runs of it, and what they guarantee.
  \<^item> \<^verbatim>\<open>CudaState\<close>: the driver's globals, objects and the operating system under it; \<^verbatim>\<open>CudaDevice\<close>
    (devices, contexts, context storage; locale \<open>bounded_store\<close>), \<^verbatim>\<open>CudaMemory\<close>, \<^verbatim>\<open>CudaObjects\<close>,
    \<^verbatim>\<open>CudaExternal\<close>, \<^verbatim>\<open>CudaDispatch\<close>: its calls, one definition each.
  \<^item> \<^verbatim>\<open>CudaMemoryProps\<close>, \<^verbatim>\<open>CudaMemSafety\<close>: what the memory calls do, and that no sequence of them touches
    memory that is not theirs. \<^verbatim>\<open>CudaHandles\<close>, \<^verbatim>\<open>CudaHandleSteps\<close>, \<^verbatim>\<open>CudaLibrarySteps\<close>,
    \<^verbatim>\<open>CudaArraySteps\<close>, \<^verbatim>\<open>CudaMipmapSteps\<close>, \<^verbatim>\<open>CudaSafety\<close>: the invariant of the handles, that every call
    keeps it, and the step relation of the whole driver with its reachable states.
  \<^item> \<^verbatim>\<open>CudaStorage\<close>: the context storage refines a map. \<^verbatim>\<open>CudaIntegrity\<close>: the integrity check and its equivalence
    to HMAC-MD2; locale \<open>streaming_hash\<close>, interpreted for the code's hash.
  \<^item> \<^verbatim>\<open>BridgeConn\<close>: the class \<^verbatim>\<open>BridgeConnection\<close>, one definition for each method, over \<^verbatim>\<open>Exchange\<close>.
    \<^verbatim>\<open>BridgeLayout\<close>: the packed structures of \<^verbatim>\<open>imb_protocol.h\<close>, and that the payloads are laid out like them.
    \<^verbatim>\<open>BridgeProps\<close>: the stream of a session, the test of the replies, reading and writing in pieces, sizes of images.
  \<^item> \<^verbatim>\<open>VkFormat\<close>, \<^verbatim>\<open>VkFormatProps\<close>: formats, block sizes, sizes and offsets of subresources, sparse
    requirements; that sizes saturate instead of wrapping and subresources do not overlap.
  \<^item> \<^verbatim>\<open>VkState\<close>: the driver's registries and objects (\<^verbatim>\<open>gState\<close>), over the operating system of
    \<^verbatim>\<open>CudaState\<close> and the connection of \<^verbatim>\<open>BridgeConn\<close>. \<^verbatim>\<open>VkSync\<close>, \<^verbatim>\<open>VkSyncProps\<close>: semaphores,
    their files, waits and signals of submissions, and query pools.
  \<^item> \<^verbatim>\<open>VkMemory\<close>, \<^verbatim>\<open>VkResources\<close>, \<^verbatim>\<open>VkMapping\<close>: device memory, buffers, images, binding, mapping, import and
    export. \<^verbatim>\<open>VkTransfer\<close>, \<^verbatim>\<open>VkImageTransfer\<close>, \<^verbatim>\<open>VkImageCopy\<close>: the transfers that run on the bytes of memory.
    \<^verbatim>\<open>VkMemoryProps\<close>: that no sequence of these calls leaves the bytes of a memory object.
  \<^item> \<^verbatim>\<open>VkCommand\<close>: pools, command buffers and the recording of transfers; \<^verbatim>\<open>VkExecute\<close>: their execution by
    sequence number; \<^verbatim>\<open>VkCommandProps\<close>: that the nine lists of a command buffer refine one list in recording order,
    and the type of a command buffer.
  \<^item> \<^verbatim>\<open>VkSparse\<close>: \<^verbatim>\<open>vkQueueBindSparse\<close>; \<^verbatim>\<open>VkSparseProps\<close>: that it refines a map from bytes to bytes; locale
    \<open>range_store\<close>, interpreted for the bindings of a buffer. \<^verbatim>\<open>VkFence\<close>: fences, and the uploads before work is
    submitted.
  \<^item> \<^verbatim>\<open>VkShader\<close>: the scan of SPIR-V modules, and what it finds. \<^verbatim>\<open>VkDescriptor\<close>: shader modules, views,
    samplers, render passes, framebuffers, layouts, and pipelines for compute and graphics. \<^verbatim>\<open>VkDescriptorSet\<close>:
    descriptor pools, sets and their updates. \<^verbatim>\<open>VkCompute\<close>: binding, push constants, the recording of a dispatch, and
    \<^verbatim>\<open>bridgeComputeDispatchLocked\<close>, which runs it on the host. \<^verbatim>\<open>VkComputeProps\<close>: that a dispatch
    over objects that exist stays inside their memory, and that push constants refine a map.
  \<^item> \<^verbatim>\<open>ClockShim\<close>: the table of call sites, for one thread and under interleaving, and the delay. \<^verbatim>\<open>FileOpenTrace\<close>: the
    wrappers around the calls that open files.

  \<^bold>\<open>How the code is read.\<close> A C++ exception is the left side of a sum, a nullable output pointer a truth
  value with an optional result. What the kernel, the allocator and the host answer are arguments; the
  theorems hold for all answers unless they name them. A loop over the kernel's answers recurses on the
  script of answers; a call whose script runs out waits for ever (\<open>Blocked\<close>). Undefined behaviour is a
  ghost flag that the calls set and nothing reads.

  \<^bold>\<open>Bounds.\<close> No definition uses fuel: every loop of the code that is modelled ends, by a measure, or follows a list.

  \<^bold>\<open>Not modelled.\<close> Of the Vulkan driver: instances, physical devices, surfaces and swapchains, draws, ray tracing
  and acceleration structures, the parser of the scene state, and \<^verbatim>\<open>vkQueueSubmit\<close> as a whole, which draws and
  presents what they describe; they are the translation to Metal and mostly copy structures. Builds of acceleration
  structures and compute dispatches are arguments of the execution (\<open>metal\<close>), and the theorem about its order holds
  for all of them; \<open>bridgeComputeDispatch\<close> is the code's value for the dispatches. Concurrency, except for the table of call sites (the calls of the CUDA and the Vulkan
  driver hold one lock, and are taken one after the other). Tracing of the drivers, exceptions of the standard
  containers (so the branches that catch \<^verbatim>\<open>std::bad_alloc\<close>), the pieces that a read has stored before an exception,
  how the transports open their descriptors, the probe's command line, the two probe programs of the drivers, and
  everything that is not C++ of the guest.
\<close>

end
